(* ===== verification/Prelude.thy ===== *)
theory Prelude
  imports Main
begin

text \<open>
  Shared vocabulary of the development: the errors the Python code raises, the result type
  and its sequencing combinator, table helpers for the SQL statements the code issues, the
  string functions of the Python standard library that the code uses, and the generic list
  lemmas the component theories share.

  A Python function that may raise is a HOL function into \<open>error + 'a\<close>: \<open>Inl\<close> is the exception
  that leaves the function, \<open>Inr\<close> its result. Code that writes to the database takes the
  database and returns the new one inside \<open>Inr\<close>; every HTTP route rolls its session back on an
  exception, so an \<open>Inl\<close> carries no state. The text of an exception is kept as its constant
  part; interpolated values are dropped.
\<close>

section \<open>Evaluation\<close>

text \<open>
  An updated function is evaluated when it is applied: kept as an update with evaluated
  arguments, it does not pile up unevaluated conditionals in the states of a run.
\<close>

lemma fun_upd_code [code]: "(f(a := b)) x = (if x = a then b else f x)"
  by simp

section \<open>Errors and results\<close>

datatype error =
    ValueError string
  | HTTPException int string
  | LookupError string
  | RuntimeError string
  | OverflowError string
  | IntegrityError string
  | DataError string
  | DBAPIError string

type_synonym 'a result = "error + 'a"

named_theorems res_simps \<open>rules that open a sequence of fallible steps\<close>
named_theorems row_simps \<open>rules for rows that leave an operation unchanged\<close>
named_theorems preserve_intros \<open>operations keep an invariant\<close>

definition bindE :: "'e + 'a \<Rightarrow> ('a \<Rightarrow> 'e + 'b) \<Rightarrow> 'e + 'b" where
  "bindE m f = (case m of Inl e \<Rightarrow> Inl e | Inr x \<Rightarrow> f x)"

lemma bindE_Inl [simp]: "bindE (Inl e) f = Inl e"
  by (simp add: bindE_def)

lemma bindE_Inr [simp]: "bindE (Inr x) f = f x"
  by (simp add: bindE_def)

lemma bindE_eq_Inr [res_simps]: "bindE m f = Inr y \<longleftrightarrow> (\<exists>x. m = Inr x \<and> f x = Inr y)"
  by (cases m) auto

lemma bindE_eq_Inl: "bindE m f = Inl e \<longleftrightarrow> m = Inl e \<or> (\<exists>x. m = Inr x \<and> f x = Inl e)"
  by (cases m) auto

lemma bindE_cong [fundef_cong]:
  "m = m' \<Longrightarrow> (\<And>x. m' = Inr x \<Longrightarrow> f x = g x) \<Longrightarrow> bindE m f = bindE m' g"
  by (cases m') auto

text \<open>A branch that returned, as the case that was taken.\<close>

lemma if_eq_Inr [res_simps]:
  "(if b then m else n) = Inr y \<longleftrightarrow> b \<and> m = Inr y \<or> \<not> b \<and> n = Inr y"
  by simp

lemma case_option_eq_Inr [res_simps]:
  "(case x of None \<Rightarrow> m | Some v \<Rightarrow> f v) = Inr y \<longleftrightarrow>
     x = None \<and> m = Inr y \<or> (\<exists>v. x = Some v \<and> f v = Inr y)"
  by (cases x) auto

lemma case_prod_eq_Inr [res_simps]:
  "(case x of (a, b) \<Rightarrow> f a b) = Inr y \<longleftrightarrow> (\<exists>a b. x = (a, b) \<and> f a b = Inr y)"
  by (cases x) auto

lemma case_list_eq_Inr [res_simps]:
  "(case x of [] \<Rightarrow> m | v # vs \<Rightarrow> f v vs) = Inr y \<longleftrightarrow>
     x = [] \<and> m = Inr y \<or> (\<exists>v vs. x = v # vs \<and> f v vs = Inr y)"
  by (cases x) auto

definition of_option :: "'e \<Rightarrow> 'a option \<Rightarrow> 'e + 'a" where
  "of_option e x = (case x of None \<Rightarrow> Inl e | Some y \<Rightarrow> Inr y)"

lemma of_option_simps [simp]: "of_option e None = Inl e" "of_option e (Some x) = Inr x"
  by (simp_all add: of_option_def)

lemma of_option_eq_Inr [res_simps]: "of_option e x = Inr y \<longleftrightarrow> x = Some y"
  by (cases x) auto

text \<open>The step returns, and its result has the property: false when it raises.\<close>

definition returns :: "'e + 'a \<Rightarrow> ('a \<Rightarrow> bool) \<Rightarrow> bool" where
  "returns m P = (case m of Inl _ \<Rightarrow> False | Inr x \<Rightarrow> P x)"

lemma returns_Inr [simp]: "returns (Inr x) P = P x"
  by (simp add: returns_def)

lemma returns_iff: "returns m P \<longleftrightarrow> (\<exists>x. m = Inr x \<and> P x)"
  by (cases m) (auto simp: returns_def)

lemma returns_pair: "returns m P \<longleftrightarrow> (\<exists>x s. m = Inr (x, s) \<and> P (x, s))"
  by (auto simp: returns_iff)

text \<open>A \<open>for\<close> loop whose body may raise and updates a state: it stops at the first exception.\<close>

fun foldE :: "('a \<Rightarrow> 's \<Rightarrow> 'e + 's) \<Rightarrow> 'a list \<Rightarrow> 's \<Rightarrow> 'e + 's" where
  "foldE f [] s = Inr s"
| "foldE f (x # xs) s = bindE (f x s) (foldE f xs)"

lemma foldE_append: "foldE f (xs @ ys) s = bindE (foldE f xs s) (foldE f ys)"
proof (induction xs arbitrary: s)
  case (Cons x xs)
  then show ?case by (cases "f x s") auto
qed simp

lemma foldE_invariant:
  assumes "\<And>x s s'. x \<in> set xs \<Longrightarrow> P s \<Longrightarrow> f x s = Inr s' \<Longrightarrow> P s'"
  shows "foldE f xs s = Inr s' \<Longrightarrow> P s \<Longrightarrow> P s'"
  using assms
proof (induction xs arbitrary: s)
  case (Cons x xs)
  from Cons.prems(1) obtain t where t: "f x s = Inr t" "foldE f xs t = Inr s'"
    by (auto simp: bindE_eq_Inr)
  with Cons.prems(2,3) have "P t" by auto
  with Cons.IH [OF t(2)] Cons.prems(3) show ?case by auto
qed simp

text \<open>A \<open>for\<close> loop that collects one result per element.\<close>

fun mapE :: "('a \<Rightarrow> 's \<Rightarrow> 'e + ('b \<times> 's)) \<Rightarrow> 'a list \<Rightarrow> 's \<Rightarrow> 'e + ('b list \<times> 's)" where
  "mapE f [] s = Inr ([], s)"
| "mapE f (x # xs) s =
     bindE (f x s) (\<lambda>(y, s1). bindE (mapE f xs s1) (\<lambda>(ys, s2). Inr (y # ys, s2)))"

lemma mapE_Cons_Inr [res_simps]:
  "mapE f (x # xs) s = Inr (zs, s') \<longleftrightarrow>
     (\<exists>y s1 ys. f x s = Inr (y, s1) \<and> mapE f xs s1 = Inr (ys, s') \<and> zs = y # ys)"
  by (auto simp: bindE_eq_Inr split: prod.splits)

lemma mapE_length: "mapE f xs s = Inr (ys, s') \<Longrightarrow> length ys = length xs"
  by (induction xs arbitrary: s ys) (auto simp: res_simps simp del: mapE.simps(2))

lemma mapE_list_all2:
  "mapE f xs s = Inr (ys, s') \<Longrightarrow>
   (\<And>x s y s'. x \<in> set xs \<Longrightarrow> f x s = Inr (y, s') \<Longrightarrow> Q x y) \<Longrightarrow> list_all2 Q xs ys"
  by (induction xs arbitrary: s ys) (fastforce simp: res_simps simp del: mapE.simps(2))+

lemma mapE_invariant:
  assumes "\<And>x s y s'. x \<in> set xs \<Longrightarrow> P s \<Longrightarrow> f x s = Inr (y, s') \<Longrightarrow> P s'"
  shows "mapE f xs s = Inr (ys, s') \<Longrightarrow> P s \<Longrightarrow> P s'"
  using assms
proof (induction xs arbitrary: s ys)
  case (Cons x xs)
  from Cons.prems(1) obtain y t ys' where
    t: "f x s = Inr (y, t)" "mapE f xs t = Inr (ys', s')"
    by (auto simp: res_simps simp del: mapE.simps)
  with Cons.prems(2,3) have "P t" by auto
  with Cons.IH [OF t(2)] Cons.prems(3) show ?case by auto
qed simp

lemma list_all2_in_right: "list_all2 P xs ys \<Longrightarrow> y \<in> set ys \<Longrightarrow> \<exists>x \<in> set xs. P x y"
  by (induction rule: list_all2_induct) auto

lemma list_all2_in: "list_all2 P xs ys \<Longrightarrow> x \<in> set xs \<Longrightarrow> \<exists>y \<in> set ys. P x y"
  by (induction rule: list_all2_induct) auto

section \<open>How a state may evolve\<close>

text \<open>
  The interface of every "what a step may change" relation of the development: it is reflexive
  and transitive. The loops of the services inherit the relation from their bodies.
\<close>

locale evolution =
  fixes R :: "'s \<Rightarrow> 's \<Rightarrow> bool"
  assumes evo_refl: "R s s"
    and evo_trans: "R s t \<Longrightarrow> R t u \<Longrightarrow> R s u"
begin

lemma evo_foldE:
  assumes "\<And>x s s'. x \<in> set xs \<Longrightarrow> f x s = Inr s' \<Longrightarrow> R s s'"
  shows "foldE f xs s = Inr s' \<Longrightarrow> R s s'"
  using assms
proof (induction xs arbitrary: s)
  case Nil
  then show ?case by (simp add: evo_refl)
next
  case (Cons x xs)
  from Cons.prems(1) obtain t where t: "f x s = Inr t" "foldE f xs t = Inr s'"
    by (auto simp: bindE_eq_Inr)
  have "R t s'" by (rule Cons.IH [OF t(2)]) (auto intro: Cons.prems(2))
  with Cons.prems(2) [OF _ t(1)] show ?case by (auto intro: evo_trans)
qed

lemma evo_mapE:
  assumes "\<And>x s y s'. x \<in> set xs \<Longrightarrow> f x s = Inr (y, s') \<Longrightarrow> R s s'"
  shows "mapE f xs s = Inr (ys, s') \<Longrightarrow> R s s'"
  using assms
proof (induction xs arbitrary: s ys)
  case Nil
  then show ?case by (simp add: evo_refl)
next
  case (Cons x xs)
  from Cons.prems(1) obtain y t ys' where
    t: "f x s = Inr (y, t)" "mapE f xs t = Inr (ys', s')"
    by (auto simp: res_simps simp del: mapE.simps)
  have "R t s'" by (rule Cons.IH [OF t(2)]) (auto intro: Cons.prems(2))
  with Cons.prems(2) [OF _ t(1)] show ?case by (auto intro: evo_trans)
qed

end

text \<open>
  The interface of an evolution that leaves a trace: a step from one state to the next with the
  list of the entries it added. A loop adds the entries of its bodies, in order.
\<close>

locale traced =
  fixes P :: "'s \<Rightarrow> 'e list \<Rightarrow> 's \<Rightarrow> bool"
  assumes traced_nil: "P s [] s"
    and traced_app: "P s xs t \<Longrightarrow> P t ys u \<Longrightarrow> P s (xs @ ys) u"
begin

lemma traced_mapE:
  assumes "\<And>x s y s'. x \<in> set xs \<Longrightarrow> f x s = Inr (y, s') \<Longrightarrow> \<exists>es. P s es s' \<and> Q x y es"
  shows "mapE f xs s = Inr (ys, s') \<Longrightarrow>
    \<exists>ess. P s (concat ess) s' \<and> length ess = length xs \<and> (\<forall>k < length xs. Q (xs ! k) (ys ! k) (ess ! k))"
  using assms
proof (induction xs arbitrary: s ys)
  case Nil
  then show ?case by (auto intro: traced_nil)
next
  case (Cons x xs)
  from Cons.prems(1) obtain y t zs where
    t: "f x s = Inr (y, t)" "mapE f xs t = Inr (zs, s')" "ys = y # zs"
    by (auto simp: res_simps simp del: mapE.simps)
  from Cons.prems(2) [OF _ t(1)] obtain es where es: "P s es t" "Q x y es" by auto
  from Cons.IH [OF t(2)] Cons.prems(2) obtain ess where
    ess: "P t (concat ess) s'" "length ess = length xs"
      "\<forall>k < length xs. Q (xs ! k) (zs ! k) (ess ! k)" by auto
  have "P s (concat (es # ess)) s'" using traced_app [OF es(1) ess(1)] by simp
  moreover have "\<forall>k < length (x # xs). Q ((x # xs) ! k) (ys ! k) ((es # ess) ! k)"
    using es(2) ess(3) t(3) by (auto simp: less_Suc_eq_0_disj)
  ultimately show ?case using ess(2) by (intro exI [of _ "es # ess"]) simp
qed

end

section \<open>Tables\<close>

text \<open>
  A table is the list of its rows in insertion order. \<open>update_where p f\<close> is
  \<open>UPDATE ... SET f WHERE p\<close>; \<open>find p\<close> is a \<open>SELECT ... ORDER BY id LIMIT 1\<close> on a table whose ids
  grow with insertion; \<open>sum_where\<close> is \<open>COALESCE(SUM(v), 0)\<close>.
\<close>

definition update_where :: "('r \<Rightarrow> bool) \<Rightarrow> ('r \<Rightarrow> 'r) \<Rightarrow> 'r list \<Rightarrow> 'r list" where
  "update_where p f rows = map (\<lambda>r. if p r then f r else r) rows"

definition sum_where :: "('r \<Rightarrow> bool) \<Rightarrow> ('r \<Rightarrow> int) \<Rightarrow> 'r list \<Rightarrow> int" where
  "sum_where p v rows = sum_list (map v (filter p rows))"

lemma update_where_Nil [simp]: "update_where p f [] = []"
  by (simp add: update_where_def)

lemma update_where_Cons [simp]:
  "update_where p f (r # rs) = (if p r then f r else r) # update_where p f rs"
  by (simp add: update_where_def)

lemma length_update_where [simp]: "length (update_where p f rows) = length rows"
  by (simp add: update_where_def)

lemma map_update_where:
  "(\<And>r. p r \<Longrightarrow> g (f r) = g r) \<Longrightarrow> map g (update_where p f rows) = map g rows"
  by (simp add: update_where_def)

lemma in_set_update_where:
  "r \<in> set (update_where p f rows) \<longleftrightarrow> (\<exists>r0 \<in> set rows. r = (if p r0 then f r0 else r0))"
  by (auto simp: update_where_def)

lemma sum_where_Nil [simp]: "sum_where p v [] = 0"
  by (simp add: sum_where_def)

lemma sum_where_Cons [simp]:
  "sum_where p v (r # rs) = (if p r then v r else 0) + sum_where p v rs"
  by (simp add: sum_where_def)

lemma sum_where_append [simp]:
  "sum_where p v (xs @ ys) = sum_where p v xs + sum_where p v ys"
  by (simp add: sum_where_def)

lemma sum_where_nonneg: "(\<And>r. r \<in> set rows \<Longrightarrow> 0 \<le> v r) \<Longrightarrow> 0 \<le> sum_where p v rows"
  by (induction rows) auto

lemma sum_where_none: "(\<And>r. r \<in> set rows \<Longrightarrow> \<not> p r) \<Longrightarrow> sum_where p v rows = 0"
  by (induction rows) auto

lemma sum_where_update:
  "(\<And>r. q r \<Longrightarrow> p (f r) = p r \<and> v (f r) = v r) \<Longrightarrow>
   sum_where p v (update_where q f rows) = sum_where p v rows"
  by (induction rows) auto

lemma sum_where_cong:
  "(\<And>r. r \<in> set rows \<Longrightarrow> p r = q r) \<Longrightarrow> sum_where p v rows = sum_where q v rows"
  by (induction rows) auto

text \<open>\<open>ORDER BY\<close> does not change a sum.\<close>

lemma sum_list_insort_key:
  "sum_list (map f (insort_key k x xs)) = f x + (sum_list (map f xs) :: int)"
  by (induction xs) auto

lemma sum_list_sort_key [simp]: "sum_list (map f (sort_key k xs)) = (sum_list (map f xs) :: int)"
  by (induction xs) (simp_all add: sum_list_insort_key)

lemma find_None_iff_all: "find p rows = None \<longleftrightarrow> (\<forall>r \<in> set rows. \<not> p r)"
  by (auto simp: find_None_iff)

lemma find_SomeD: "find p rows = Some r \<Longrightarrow> r \<in> set rows \<and> p r"
  by (auto simp: find_Some_iff)

lemma find_append:
  "find p (xs @ ys) = (case find p xs of None \<Rightarrow> find p ys | Some r \<Rightarrow> Some r)"
  by (induction xs) auto

lemma find_unique_key:
  assumes "distinct (map key rows)" and "r \<in> set rows"
  shows "find (\<lambda>x. key x = key r) rows = Some r"
  using assms by (induction rows) (auto simp: image_iff)

lemma find_update_where_same:
  "(\<And>r. p r \<Longrightarrow> q (f r) = q r) \<Longrightarrow>
   find q (update_where p f rows) = map_option (\<lambda>r. if p r then f r else r) (find q rows)"
  by (induction rows) auto

section \<open>Python strings\<close>

text \<open>
  A Python \<open>str\<close> is its UTF-8 bytes, a HOL \<open>string\<close>. \<open>strip\<close> and \<open>upper\<close> are modelled on ASCII
  white space and ASCII letters; the two- and three-byte encodings of other characters contain
  neither, so both leave them alone.
\<close>

definition is_space :: "char \<Rightarrow> bool" where
  "is_space c = (c \<in> {CHR 0x09, CHR 0x0A, CHR 0x0B, CHR 0x0C, CHR 0x0D,
                     CHR 0x1C, CHR 0x1D, CHR 0x1E, CHR 0x1F, CHR '' ''})"

definition py_strip :: "string \<Rightarrow> string" where
  "py_strip s = rev (dropWhile is_space (rev (dropWhile is_space s)))"

definition upper_char :: "char \<Rightarrow> char" where
  "upper_char c = (let n = (of_char c :: nat) in
     if 97 \<le> n \<and> n \<le> 122 then char_of (n - 32) else c)"

definition py_upper :: "string \<Rightarrow> string" where
  "py_upper s = map upper_char s"

definition lower_char :: "char \<Rightarrow> char" where
  "lower_char c = (let n = (of_char c :: nat) in
     if 65 \<le> n \<and> n \<le> 90 then char_of (n + 32) else c)"

definition py_lower :: "string \<Rightarrow> string" where
  "py_lower s = map lower_char s"

text \<open>\<open>s = str(v).strip(); return s or None\<close> on an optional value.\<close>

definition strip_or_none :: "string option \<Rightarrow> string option" where
  "strip_or_none v = (case v of None \<Rightarrow> None
     | Some s \<Rightarrow> (let t = py_strip s in if t = [] then None else Some t))"

lemma py_strip_idem [simp]: "py_strip (py_strip s) = py_strip s"
proof (cases "dropWhile is_space s")
  case Nil
  then have "py_strip s = []" unfolding py_strip_def Nil by simp
  moreover have "py_strip [] = []" by (simp add: py_strip_def)
  ultimately show ?thesis by simp
next
  case (Cons c r)
  then have "\<not> is_space c" by (metis hd_dropWhile list.sel(1) list.distinct(1))
  with Cons show ?thesis by (simp add: py_strip_def dropWhile_append3)
qed

lemma strip_or_none_idem [simp]: "strip_or_none (strip_or_none v) = strip_or_none v"
  by (cases v) (auto simp: strip_or_none_def Let_def)

lemma strip_or_none_None [simp]: "strip_or_none None = None"
  by (simp add: strip_or_none_def)

text \<open>\<open>str(n)\<close> of an integer.\<close>

fun nat_text :: "nat \<Rightarrow> string" where
  "nat_text n = (if n < 10 then [char_of (48 + n)] else nat_text (n div 10) @ [char_of (48 + n mod 10)])"

declare nat_text.simps [simp del]

definition int_text :: "int \<Rightarrow> string" where
  "int_text n = (if n < 0 then CHR ''-'' # nat_text (nat (- n)) else nat_text (nat n))"

end
