(* ===== verification/Dates.thy ===== *)
theory Dates
  imports Prelude
begin

text \<open>
  Calendar dates and the shelf-life arithmetic of the WMS. The first section is Python's
  \<open>datetime.date\<close>, as the standard library defines it (proleptic Gregorian, years 1 to 9999); the
  other sections translate \<open>app/wms/stock/services/lots.py\<close> and
  \<open>app/wms/shared/services/expiry_rules.py\<close>, which both compute an expiry date from a production
  date and a shelf life, and \<open>app/wms/shared/services/expiry_resolver.py\<close>, which decides which of the
  two dates of a batch is derived from the other.
\<close>

section \<open>Python's date\<close>

datatype date = Date (yr: int) (mon: int) (dy: int)

definition leap :: "int \<Rightarrow> bool" where
  "leap y = (y mod 4 = 0 \<and> (y mod 100 \<noteq> 0 \<or> y mod 400 = 0))"

definition days_in_month :: "int \<Rightarrow> int \<Rightarrow> int" where
  "days_in_month y m =
     (if m = 2 then (if leap y then 29 else 28)
      else if m = 4 \<or> m = 6 \<or> m = 9 \<or> m = 11 then 30 else 31)"

definition valid_date :: "date \<Rightarrow> bool" where
  "valid_date d = (1 \<le> yr d \<and> yr d \<le> 9999 \<and> 1 \<le> mon d \<and> mon d \<le> 12 \<and>
     1 \<le> dy d \<and> dy d \<le> days_in_month (yr d) (mon d))"

text \<open>The constructor \<open>date(y, m, d)\<close> raises \<open>ValueError\<close> outside the calendar.\<close>

definition mk_date :: "int \<Rightarrow> int \<Rightarrow> int \<Rightarrow> date result" where
  "mk_date y m d =
     (if valid_date (Date y m d) then Inr (Date y m d)
      else Inl (ValueError ''date out of range''))"

definition days_before_year :: "int \<Rightarrow> int" where
  "days_before_year y = (y - 1) * 365 + (y - 1) div 4 - (y - 1) div 100 + (y - 1) div 400"

definition days_before_month :: "int \<Rightarrow> int \<Rightarrow> int" where
  "days_before_month y m =
     (if m \<le> 1 then 0 else if m = 2 then 31 else if m = 3 then 59 else if m = 4 then 90
      else if m = 5 then 120 else if m = 6 then 151 else if m = 7 then 181
      else if m = 8 then 212 else if m = 9 then 243 else if m = 10 then 273
      else if m = 11 then 304 else 334)
     + (if 2 < m \<and> leap y then 1 else 0)"

definition toordinal :: "date \<Rightarrow> int" where
  "toordinal d = days_before_year (yr d) + days_before_month (yr d) (mon d) + dy d"

lemma div_pred:
  assumes "0 < k"
  shows "(y :: int) div k = (y - 1) div k + (if y mod k = 0 then 1 else 0)"
proof -
  define q r where "q = (y - 1) div k" and "r = (y - 1) mod k"
  have y: "y = k * q + (r + 1)" using mult_div_mod_eq [of k "y - 1"] by (simp add: q_def r_def)
  have r: "0 \<le> r" "r < k" using assms by (simp_all add: r_def)
  show ?thesis
  proof (cases "r + 1 < k")
    case True
    then have "y div k = q" "y mod k = r + 1"
      using y r by (auto intro: int_div_pos_eq int_mod_pos_eq)
    with r show ?thesis by (simp add: q_def)
  next
    case False
    with r y have "y = k * (q + 1) + 0" by (simp add: algebra_simps)
    with assms have "y div k = q + 1" "y mod k = 0"
      by (auto intro: int_div_pos_eq int_mod_pos_eq)
    then show ?thesis by (simp add: q_def)
  qed
qed

definition year_length :: "int \<Rightarrow> int" where
  "year_length y = (if leap y then 366 else 365)"

lemma leap_count:
  assumes "c \<Longrightarrow> b" "b \<Longrightarrow> a"
  shows "(if a then 1 else 0) - (if b then 1 else 0) + (if c then 1 else (0 :: int))
     = (if a \<and> (\<not> b \<or> c) then 1 else 0)"
  using assms by (cases c; cases b; cases a) simp_all

lemma year_length_eq:
  "year_length y = 365 + (if y mod 4 = 0 then 1 else 0) - (if y mod 100 = 0 then 1 else 0)
     + (if y mod 400 = 0 then 1 else 0)"
proof -
  have "y mod 400 = 0 \<Longrightarrow> y mod 100 = 0" using mod_mod_cancel [of 100 400 y] by simp
  moreover have "y mod 100 = 0 \<Longrightarrow> y mod 4 = 0" using mod_mod_cancel [of 4 100 y] by simp
  ultimately have "(if y mod 4 = 0 then 1 else 0) - (if y mod 100 = 0 then 1 else 0)
      + (if y mod 400 = 0 then 1 else (0 :: int)) = (if leap y then 1 else 0)"
    unfolding leap_def by (rule leap_count)
  then show ?thesis unfolding year_length_def by (cases "leap y") simp_all
qed

lemma days_before_year_step: "days_before_year (y + 1) = days_before_year y + year_length y"
proof -
  have "(y + 1 - 1) = y" by simp
  then have "days_before_year (y + 1) = y * 365 + y div 4 - y div 100 + y div 400"
    unfolding days_before_year_def by (simp only:)
  also have "\<dots> = days_before_year y + year_length y"
    unfolding days_before_year_def year_length_eq
      div_pred [of 4 y, simplified] div_pred [of 100 y, simplified] div_pred [of 400 y, simplified]
    by (simp only: algebra_simps)
  finally show ?thesis .
qed

lemma year_length_bounds: "365 \<le> year_length y" "year_length y \<le> 366"
  by (simp_all add: year_length_def)

lemma days_before_year_mono: "a \<le> b \<Longrightarrow> days_before_year a \<le> days_before_year b"
proof (induction "nat (b - a)" arbitrary: b)
  case (Suc n)
  then have "days_before_year a \<le> days_before_year (b - 1)" by auto
  also have "\<dots> \<le> days_before_year b"
    using days_before_year_step [of "b - 1"] year_length_bounds [of "b - 1"] by simp
  finally show ?case .
qed simp

lemma days_before_month_step:
  assumes "1 \<le> m" "m < 12"
  shows "days_before_month y (m + 1) = days_before_month y m + days_in_month y m"
proof -
  from assms have "m = 1 \<or> m = 2 \<or> m = 3 \<or> m = 4 \<or> m = 5 \<or> m = 6 \<or> m = 7
    \<or> m = 8 \<or> m = 9 \<or> m = 10 \<or> m = 11" by arith
  then show ?thesis by (elim disjE) (simp_all add: days_before_month_def days_in_month_def)
qed

lemma days_in_month_pos: "28 \<le> days_in_month y m" "days_in_month y m \<le> 31"
  by (simp_all add: days_in_month_def)

lemma days_before_month_12: "days_before_month y 12 + days_in_month y 12 = year_length y"
  by (simp add: days_before_month_def days_in_month_def year_length_def)

lemma days_before_month_mono:
  "1 \<le> a \<Longrightarrow> a \<le> b \<Longrightarrow> b \<le> 12 \<Longrightarrow> days_before_month y a \<le> days_before_month y b"
proof (induction "nat (b - a)" arbitrary: b)
  case (Suc n)
  then have "days_before_month y a \<le> days_before_month y (b - 1)" by auto
  also have "\<dots> \<le> days_before_month y b"
    using days_before_month_step [of "b - 1" y] days_in_month_pos [of y "b - 1"] Suc by simp
  finally show ?case .
qed simp

lemma day_of_year_bounds:
  assumes "valid_date d"
  shows "1 \<le> days_before_month (yr d) (mon d) + dy d"
    and "days_before_month (yr d) (mon d) + dy d \<le> year_length (yr d)"
proof -
  have "0 \<le> days_before_month (yr d) (mon d)" by (simp add: days_before_month_def)
  with assms show "1 \<le> days_before_month (yr d) (mon d) + dy d"
    by (simp add: valid_date_def)
  have "days_before_month (yr d) (mon d) + days_in_month (yr d) (mon d) \<le> year_length (yr d)"
  proof (cases "mon d = 12")
    case True
    then show ?thesis using days_before_month_12 [of "yr d"] by simp
  next
    case False
    with assms have m: "1 \<le> mon d" "mon d < 12" by (auto simp: valid_date_def)
    then have "days_before_month (yr d) (mon d + 1) \<le> days_before_month (yr d) 12"
      by (intro days_before_month_mono) auto
    with days_before_month_step [OF m, of "yr d"] days_before_month_12 [of "yr d"]
      days_in_month_pos [of "yr d" 12]
    show ?thesis by simp
  qed
  with assms show "days_before_month (yr d) (mon d) + dy d \<le> year_length (yr d)"
    by (simp add: valid_date_def)
qed

lemma toordinal_year_bounds:
  assumes "valid_date d"
  shows "days_before_year (yr d) < toordinal d" "toordinal d \<le> days_before_year (yr d + 1)"
  using day_of_year_bounds [OF assms] days_before_year_step [of "yr d"]
  by (simp_all add: toordinal_def)

subsection \<open>Dates are compared field by field\<close>

instantiation date :: linorder
begin

definition less_eq_date :: "date \<Rightarrow> date \<Rightarrow> bool" where
  "less_eq_date a b = (yr a < yr b \<or> yr a = yr b \<and>
     (mon a < mon b \<or> mon a = mon b \<and> dy a \<le> dy b))"

definition less_date :: "date \<Rightarrow> date \<Rightarrow> bool" where
  "less_date a b = (yr a < yr b \<or> yr a = yr b \<and>
     (mon a < mon b \<or> mon a = mon b \<and> dy a < dy b))"

instance
  by standard (auto simp: less_eq_date_def less_date_def intro: date.expand)

end

lemma toordinal_less:
  assumes "valid_date a" "valid_date b" "a < b"
  shows "toordinal a < toordinal b"
proof -
  consider "yr a < yr b" | "yr a = yr b" "mon a < mon b" | "yr a = yr b" "mon a = mon b" "dy a < dy b"
    using assms(3) by (auto simp: less_date_def)
  then show ?thesis
  proof cases
    case 1
    then have "days_before_year (yr a + 1) \<le> days_before_year (yr b)"
      by (intro days_before_year_mono) simp
    with toordinal_year_bounds [OF assms(1)] toordinal_year_bounds [OF assms(2)]
    show ?thesis by simp
  next
    case 2
    then have "days_before_month (yr a) (mon a + 1) \<le> days_before_month (yr a) (mon b)"
      using assms by (intro days_before_month_mono) (auto simp: valid_date_def)
    with 2 assms days_before_month_step [of "mon a" "yr a"]
    show ?thesis by (auto simp: toordinal_def valid_date_def)
  next
    case 3
    then show ?thesis by (simp add: toordinal_def)
  qed
qed

lemma toordinal_less_iff:
  "valid_date a \<Longrightarrow> valid_date b \<Longrightarrow> toordinal a < toordinal b \<longleftrightarrow> a < b"
  by (metis linorder_less_linear order_less_asym toordinal_less)

lemma toordinal_inject:
  "valid_date a \<Longrightarrow> valid_date b \<Longrightarrow> toordinal a = toordinal b \<Longrightarrow> a = b"
  by (metis linorder_less_linear order_less_irrefl toordinal_less)

subsection \<open>From an ordinal back to a date\<close>

function find_year :: "int \<Rightarrow> int \<Rightarrow> int" where
  "find_year y n = (if days_before_year (y + 1) < n then find_year (y + 1) n else y)"
  by pat_completeness auto
termination
proof (relation "measure (\<lambda>(y, n). nat (n - days_before_year (y + 1)))")
  fix y n :: int
  assume "days_before_year (y + 1) < n"
  then show "((y + 1, n), (y, n)) \<in> measure (\<lambda>(y, n). nat (n - days_before_year (y + 1)))"
    using days_before_year_step [of "y + 1"] year_length_bounds [of "y + 1"] by auto
qed simp

function find_month :: "int \<Rightarrow> int \<Rightarrow> int \<Rightarrow> int" where
  "find_month y r m =
     (if m < 12 \<and> days_before_month y (m + 1) < r then find_month y r (m + 1) else m)"
  by pat_completeness auto
termination
  by (relation "measure (\<lambda>(y, r, m). nat (12 - m))") auto

declare find_year.simps [simp del] find_month.simps [simp del]

definition max_ordinal :: int where
  "max_ordinal = 3652059"

definition fromordinal :: "int \<Rightarrow> date result" where
  "fromordinal n =
     (if 1 \<le> n \<and> n \<le> max_ordinal
      then let y = find_year ((n - 1) div 366 + 1) n;
               r = n - days_before_year y;
               m = find_month y r 1
           in Inr (Date y m (r - days_before_month y m))
      else Inl (OverflowError ''date value out of range''))"

lemma find_year_spec:
  "days_before_year y < n \<Longrightarrow>
   y \<le> find_year y n \<and> days_before_year (find_year y n) < n \<and> n \<le> days_before_year (find_year y n + 1)"
proof (induction y n rule: find_year.induct)
  case (1 y n)
  then show ?case
    by (cases "days_before_year (y + 1) < n") (auto simp: find_year.simps [of y n])
qed

lemma find_month_spec:
  "1 \<le> m \<Longrightarrow> m \<le> 12 \<Longrightarrow> days_before_month y m < r \<Longrightarrow>
   m \<le> find_month y r m \<and> find_month y r m \<le> 12 \<and> days_before_month y (find_month y r m) < r \<and>
   (find_month y r m < 12 \<longrightarrow> r \<le> days_before_month y (find_month y r m + 1))"
proof (induction y r m rule: find_month.induct)
  case (1 y r m)
  then show ?case
    by (cases "m < 12 \<and> days_before_month y (m + 1) < r") (auto simp: find_month.simps [of y r m])
qed

lemma days_before_year_le: "1 \<le> y \<Longrightarrow> days_before_year y \<le> (y - 1) * 366"
proof -
  assume "1 \<le> y"
  then have "(y - 1) div 4 + (y - 1) div 400 \<le> (y - 1) + (y - 1) div 100"
    by (smt (verit) div_by_1 zdiv_mono2)
  then show ?thesis by (simp add: days_before_year_def)
qed

lemma fromordinal_correct:
  assumes "fromordinal n = Inr d"
  shows "valid_date d \<and> toordinal d = n"
proof -
  define y0 where "y0 = (n - 1) div 366 + 1"
  define y where "y = find_year y0 n"
  define r where "r = n - days_before_year y"
  define m where "m = find_month y r 1"
  from assms have n: "1 \<le> n" "n \<le> max_ordinal" and d: "d = Date y m (r - days_before_month y m)"
    by (auto simp: fromordinal_def Let_def y_def y0_def r_def m_def split: if_splits)
  have "1 \<le> y0" using n by (simp add: y0_def)
  moreover have "(y0 - 1) * 366 \<le> n - 1"
    using div_mult_mod_eq [of "n - 1" 366] pos_mod_sign [of 366 "n - 1"] by (simp add: y0_def)
  ultimately have "days_before_year y0 < n" using days_before_year_le [of y0] by simp
  from find_year_spec [OF this] have y: "y0 \<le> y" "0 < r" "r \<le> year_length y"
    using days_before_year_step [of y] by (auto simp: y_def r_def)
  have y9999: "y \<le> 9999"
  proof (rule ccontr)
    assume "\<not> y \<le> 9999"
    then have "days_before_year 10000 \<le> days_before_year y" by (intro days_before_year_mono) simp
    with y(2) n show False by (simp add: r_def days_before_year_def max_ordinal_def)
  qed
  have m: "1 \<le> m" "m \<le> 12" "days_before_month y m < r" "m < 12 \<Longrightarrow> r \<le> days_before_month y (m + 1)"
  proof -
    have "days_before_month y 1 < r" using y by (simp add: days_before_month_def)
    from find_month_spec [OF _ _ this]
    show "1 \<le> m" "m \<le> 12" "days_before_month y m < r" "m < 12 \<Longrightarrow> r \<le> days_before_month y (m + 1)"
      by (auto simp: m_def)
  qed
  have "r - days_before_month y m \<le> days_in_month y m"
  proof (cases "m < 12")
    case True
    then show ?thesis using m days_before_month_step [of m y] by simp
  next
    case False
    then have "m = 12" using m by simp
    then show ?thesis using y days_before_month_12 [of y] by simp
  qed
  with d m y y9999 \<open>1 \<le> y0\<close> show ?thesis by (simp add: valid_date_def toordinal_def r_def)
qed

lemma days_before_year_ends: "days_before_year 1 = 0" "days_before_year 10000 = max_ordinal"
  by (simp_all add: days_before_year_def max_ordinal_def)

lemma toordinal_range:
  assumes "valid_date d"
  shows "1 \<le> toordinal d" "toordinal d \<le> max_ordinal"
proof -
  have "days_before_year 1 \<le> days_before_year (yr d)"
    using assms by (intro days_before_year_mono) (simp add: valid_date_def)
  with toordinal_year_bounds(1) [OF assms] show "1 \<le> toordinal d"
    unfolding days_before_year_ends by linarith
  have "days_before_year (yr d + 1) \<le> days_before_year 10000"
    using assms by (intro days_before_year_mono) (simp add: valid_date_def)
  with toordinal_year_bounds(2) [OF assms] show "toordinal d \<le> max_ordinal"
    unfolding days_before_year_ends by linarith
qed

lemma fromordinal_defined: "1 \<le> n \<Longrightarrow> n \<le> max_ordinal \<Longrightarrow> \<exists>e. fromordinal n = Inr e"
  unfolding fromordinal_def by (simp add: Let_def del: max_ordinal_def)

lemma fromordinal_toordinal:
  assumes "valid_date d"
  shows "fromordinal (toordinal d) = Inr d"
proof -
  from fromordinal_defined [OF toordinal_range [OF assms]]
  obtain e where e: "fromordinal (toordinal d) = Inr e" ..
  from fromordinal_correct [OF e] have "e = d" by (metis assms toordinal_inject)
  with e show ?thesis by (simp only:)
qed

text \<open>\<open>d + timedelta(days=n)\<close>.\<close>

definition add_days :: "date \<Rightarrow> int \<Rightarrow> date result" where
  "add_days d n = fromordinal (toordinal d + n)"

lemma add_daysD:
  "add_days d n = Inr e \<Longrightarrow> valid_date e \<and> toordinal e = toordinal d + n"
  by (auto simp: add_days_def dest: fromordinal_correct)

lemma add_days_inverse:
  assumes "valid_date d" "add_days d n = Inr e"
  shows "add_days e (- n) = Inr d"
  using add_daysD [OF assms(2)] fromordinal_toordinal [OF assms(1)] by (simp add: add_days_def)

lemma add_days_less: "valid_date d \<Longrightarrow> 0 < n \<Longrightarrow> add_days d n = Inr e \<Longrightarrow> d < e"
  using add_daysD toordinal_less_iff by fastforce

lemma add_days_greater: "valid_date d \<Longrightarrow> n < 0 \<Longrightarrow> add_days d n = Inr e \<Longrightarrow> e < d"
  using add_daysD toordinal_less_iff by fastforce

end
