(* ===== verification/Items.thy ===== *)
theory Items
  imports Dates
begin

text \<open>
  The PMS master data the warehouse reads: items with their policies, units of measure and
  barcodes (\<open>app/pms/items/models\<close>), the policy read model
  (\<open>app/pms/public/items/services/item_read_service.py\<close>) and the barcode probe
  (\<open>app/pms/public/items/services/barcode_probe_service.py\<close>). The warehouse never writes these
  tables.
\<close>

section \<open>Tables\<close>

datatype lot_source_policy = INTERNAL_ONLY | SUPPLIER_ONLY

datatype expiry_policy = EXPIRY_NONE | EXPIRY_REQUIRED

record item =
  it_id :: int
  it_sku :: string
  it_name :: string
  it_spec :: "string option"
  it_lot_source_policy :: lot_source_policy
  it_expiry_policy :: expiry_policy
  it_derivation_allowed :: bool
  it_uom_governance_enabled :: bool
  it_shelf_life_value :: "int option"
  it_shelf_life_unit :: "string option"
  it_supplier_id :: "int option"

record item_uom =
  uo_id :: int
  uo_item_id :: int
  uo_uom :: string
  uo_ratio_to_base :: int
  uo_display_name :: "string option"
  uo_is_base :: bool
  uo_is_purchase_default :: bool

record item_barcode =
  bc_id :: int
  bc_item_id :: int
  bc_item_uom_id :: int
  bc_barcode :: string
  bc_symbology :: string
  bc_active :: bool
  bc_is_primary :: bool

text \<open>The check constraint and the partial unique index on base units of \<open>item_uoms\<close>.\<close>

definition item_uoms_ok :: "item_uom list \<Rightarrow> bool" where
  "item_uoms_ok us \<longleftrightarrow> distinct (map uo_id us) \<and> (\<forall>u \<in> set us. 1 \<le> uo_ratio_to_base u) \<and>
     distinct (map (\<lambda>u. (uo_item_id u, uo_uom u)) us) \<and>
     distinct (map uo_item_id (filter uo_is_base us))"

definition find_item :: "item list \<Rightarrow> int \<Rightarrow> item option" where
  "find_item its i = find (\<lambda>it. it_id it = i) its"

lemma find_item_SomeD: "find_item its i = Some it \<Longrightarrow> it \<in> set its \<and> it_id it = i"
  unfolding find_item_def by (drule find_SomeD)

text \<open>\<open>COALESCE(NULLIF(display_name, ''), uom)\<close>.\<close>

definition uom_name :: "item_uom \<Rightarrow> string" where
  "uom_name u = (case uo_display_name u of None \<Rightarrow> uo_uom u
     | Some s \<Rightarrow> if s = [] then uo_uom u else s)"

section \<open>The basic read model\<close>

record item_basic =
  ib_id :: int
  ib_sku :: string
  ib_name :: string
  ib_supplier_id :: "int option"

text \<open>The read model trims its texts and rejects blank ones, with a pydantic error (a \<open>ValueError\<close>).\<close>

definition build_item_basic :: "item \<Rightarrow> item_basic result" where
  "build_item_basic it =
     (if it_id it \<le> 0 \<or> py_strip (it_sku it) = [] \<or> py_strip (it_name it) = []
      then Inl (ValueError ''validation error for ItemBasic'')
      else Inr \<lparr>ib_id = it_id it, ib_sku = py_strip (it_sku it), ib_name = py_strip (it_name it),
                ib_supplier_id = it_supplier_id it\<rparr>)"

section \<open>The policy read model\<close>

record item_policy =
  ip_item_id :: int
  ip_expiry_policy :: expiry_policy
  ip_shelf_life_value :: "int option"
  ip_shelf_life_unit :: "string option"
  ip_lot_source_policy :: lot_source_policy
  ip_derivation_allowed :: bool
  ip_uom_governance_enabled :: bool

definition shelf_life_units :: "string list" where
  "shelf_life_units = [''DAY'', ''WEEK'', ''MONTH'', ''YEAR'']"

text \<open>
  \<open>_map_item_to_policy\<close>: the two policy columns are database enums, so only the unit can be
  unexpected; the read model itself rejects a non-positive id or shelf life (a pydantic
  \<open>ValidationError\<close>, which is a \<open>ValueError\<close>).
\<close>

definition map_item_to_policy :: "item \<Rightarrow> item_policy result" where
  "map_item_to_policy it =
     (if (case it_shelf_life_unit it of None \<Rightarrow> False | Some u \<Rightarrow> u \<notin> set shelf_life_units)
      then Inl (RuntimeError ''unexpected shelf_life_unit'')
      else if it_id it \<le> 0 \<or> (case it_shelf_life_value it of None \<Rightarrow> False | Some v \<Rightarrow> v \<le> 0)
      then Inl (ValueError ''validation error for ItemPolicy'')
      else Inr \<lparr>ip_item_id = it_id it, ip_expiry_policy = it_expiry_policy it,
                ip_shelf_life_value = it_shelf_life_value it,
                ip_shelf_life_unit = it_shelf_life_unit it,
                ip_lot_source_policy = it_lot_source_policy it,
                ip_derivation_allowed = it_derivation_allowed it,
                ip_uom_governance_enabled = it_uom_governance_enabled it\<rparr>)"

definition aget_policy_by_id :: "item list \<Rightarrow> int \<Rightarrow> item_policy option result" where
  "aget_policy_by_id its i =
     (case find_item its i of None \<Rightarrow> Inr None
      | Some it \<Rightarrow> bindE (map_item_to_policy it) (\<lambda>p. Inr (Some p)))"

lemma map_item_to_policy_Inr:
  assumes "map_item_to_policy it = Inr p"
  shows "ip_item_id p = it_id it" "ip_expiry_policy p = it_expiry_policy it"
    "ip_lot_source_policy p = it_lot_source_policy it"
    "ip_shelf_life_value p = it_shelf_life_value it" "ip_shelf_life_unit p = it_shelf_life_unit it"
    "ip_derivation_allowed p = it_derivation_allowed it"
    "ip_uom_governance_enabled p = it_uom_governance_enabled it"
    "\<And>v. ip_shelf_life_value p = Some v \<Longrightarrow> 0 < v"
    "\<And>u. ip_shelf_life_unit p = Some u \<Longrightarrow> u \<in> set shelf_life_units"
  using assms by (auto simp: map_item_to_policy_def split: if_splits option.splits)

lemma aget_policy_by_id_Some:
  assumes "aget_policy_by_id its i = Inr (Some p)"
  obtains it where "find_item its i = Some it" "map_item_to_policy it = Inr p"
  using assms by (auto simp: aget_policy_by_id_def bindE_eq_Inr split: option.splits)

lemma aget_policy_by_id_None: "aget_policy_by_id its i = Inr None \<longleftrightarrow> find_item its i = None"
  by (auto simp: aget_policy_by_id_def bindE_eq_Inr split: option.splits)

section \<open>The barcode probe\<close>

datatype probe_status = PROBE_BOUND | PROBE_UNBOUND | PROBE_ERROR

record probe_out =
  pb_status :: probe_status
  pb_barcode :: string
  pb_item_id :: "int option"
  pb_item_uom_id :: "int option"
  pb_ratio_to_base :: "int option"
  pb_symbology :: "string option"
  pb_active :: "bool option"

text \<open>
  \<open>ORDER BY active DESC, id ASC\<close> over the join of barcodes with their unit: the first active
  match, else the first match.
\<close>

definition barcode_matches ::
  "item_uom list \<Rightarrow> item_barcode list \<Rightarrow> string \<Rightarrow> (item_barcode \<times> item_uom) list" where
  "barcode_matches us bs code =
     [(b, u). b \<leftarrow> bs, bc_barcode b = code, u \<leftarrow> us,
              uo_id u = bc_item_uom_id b \<and> uo_item_id u = bc_item_id b]"

definition first_barcode_match ::
  "(item_barcode \<times> item_uom) list \<Rightarrow> (item_barcode \<times> item_uom) option" where
  "first_barcode_match ms =
     (case find (\<lambda>(b, u). bc_active b) ms of
        Some m \<Rightarrow> Some m
      | None \<Rightarrow> (case ms of [] \<Rightarrow> None | m # _ \<Rightarrow> Some m))"

definition aprobe :: "item_uom list \<Rightarrow> item_barcode list \<Rightarrow> string \<Rightarrow> probe_out" where
  "aprobe us bs barcode =
     (let code = py_strip barcode in
      if code = []
      then \<lparr>pb_status = PROBE_ERROR, pb_barcode = [], pb_item_id = None, pb_item_uom_id = None,
            pb_ratio_to_base = None, pb_symbology = None, pb_active = None\<rparr>
      else case first_barcode_match (barcode_matches us bs code) of
        None \<Rightarrow> \<lparr>pb_status = PROBE_UNBOUND, pb_barcode = code, pb_item_id = None,
                 pb_item_uom_id = None, pb_ratio_to_base = None, pb_symbology = None,
                 pb_active = None\<rparr>
      | Some (b, u) \<Rightarrow> \<lparr>pb_status = PROBE_BOUND, pb_barcode = code,
                 pb_item_id = Some (bc_item_id b), pb_item_uom_id = Some (bc_item_uom_id b),
                 pb_ratio_to_base = Some (uo_ratio_to_base u),
                 pb_symbology = Some (bc_symbology b), pb_active = Some (bc_active b)\<rparr>)"

lemma first_barcode_match_in: "first_barcode_match ms = Some m \<Longrightarrow> m \<in> set ms"
  by (auto simp: first_barcode_match_def dest!: find_SomeD split: option.splits list.splits)

lemma barcode_matchesD:
  "(b, u) \<in> set (barcode_matches us bs code) \<Longrightarrow>
   b \<in> set bs \<and> u \<in> set us \<and> bc_barcode b = code \<and> uo_id u = bc_item_uom_id b \<and>
   uo_item_id u = bc_item_id b"
  by (auto simp: barcode_matches_def split: if_splits)

lemma first_barcode_match_active:
  assumes "(b, u) \<in> set ms" "bc_active b"
  shows "\<exists>b' u'. first_barcode_match ms = Some (b', u') \<and> bc_active b'"
proof (cases "find (\<lambda>(b, u). bc_active b) ms")
  case None
  with assms show ?thesis by (auto simp: find_None_iff)
next
  case (Some m)
  then show ?thesis
    by (cases m) (auto simp: first_barcode_match_def dest!: find_SomeD)
qed

text \<open>A bound probe names a unit of the item it names, and that unit's ratio.\<close>

lemma aprobe_bound_unit:
  assumes "pb_status (aprobe us bs s) = PROBE_BOUND"
  obtains b u where "b \<in> set bs" "u \<in> set us" "bc_barcode b = py_strip s"
    "pb_item_id (aprobe us bs s) = Some (uo_item_id u)"
    "pb_item_uom_id (aprobe us bs s) = Some (uo_id u)"
    "pb_ratio_to_base (aprobe us bs s) = Some (uo_ratio_to_base u)"
proof -
  from assms obtain b u where
    m: "first_barcode_match (barcode_matches us bs (py_strip s)) = Some (b, u)"
    and ne: "py_strip s \<noteq> []"
    by (auto simp: aprobe_def Let_def split: if_splits option.splits)
  from barcode_matchesD [OF first_barcode_match_in [OF m]] m ne show ?thesis
    by (intro that [of b u]) (auto simp: aprobe_def Let_def)
qed

end
