(* ===== verification/ShelfLife.thy ===== *)
theory ShelfLife
  imports Items
begin

text \<open>
  Shelf-life arithmetic. The code has it twice: \<open>app/wms/stock/services/lots.py\<close> shifts a date by
  days, weeks, months or years, \<open>app/wms/shared/services/expiry_rules.py\<close> knows days and months
  only. \<open>app/wms/shared/services/expiry_resolver.py\<close> uses the second to fill in the missing date of
  a batch.
\<close>

section \<open>lots.py\<close>

definition normalize_positive_int :: "int option \<Rightarrow> int option" where
  "normalize_positive_int v = (case v of None \<Rightarrow> None | Some n \<Rightarrow> if 0 < n then Some n else None)"

text \<open>The mapping of unit spellings; the last spellings of each group are UTF-8 bytes of the
  Chinese words for day, day, week, month and year.\<close>

definition shelf_life_unit_mapping :: "(string \<times> string) list" where
  "shelf_life_unit_mapping =
     [(''DAY'', ''DAY''), (''DAYS'', ''DAY''), (''D'', ''DAY''),
      ([CHR 0xE5, CHR 0xA4, CHR 0xA9], ''DAY''), ([CHR 0xE6, CHR 0x97, CHR 0xA5], ''DAY''),
      (''WEEK'', ''WEEK''), (''WEEKS'', ''WEEK''), (''W'', ''WEEK''),
      ([CHR 0xE5, CHR 0x91, CHR 0xA8], ''WEEK''),
      (''MONTH'', ''MONTH''), (''MONTHS'', ''MONTH''), (''M'', ''MONTH''),
      ([CHR 0xE6, CHR 0x9C, CHR 0x88], ''MONTH''),
      (''YEAR'', ''YEAR''), (''YEARS'', ''YEAR''), (''Y'', ''YEAR''),
      ([CHR 0xE5, CHR 0xB9, CHR 0xB4], ''YEAR'')]"

definition normalize_shelf_life_unit :: "string option \<Rightarrow> string option" where
  "normalize_shelf_life_unit v =
     (let s = py_upper (py_strip (case v of None \<Rightarrow> [] | Some t \<Rightarrow> t)) in
      if s = [] then None else map_of shelf_life_unit_mapping s)"

definition lots_add_months :: "date \<Rightarrow> int \<Rightarrow> date result" where
  "lots_add_months base months =
     (let month_index = (mon base - 1) + months;
          year = yr base + month_index div 12;
          month = month_index mod 12 + 1;
          day = min (dy base) (days_in_month year month)
      in mk_date year month day)"

definition lots_add_years :: "date \<Rightarrow> int \<Rightarrow> date result" where
  "lots_add_years base years =
     (let year = yr base + years;
          day = min (dy base) (days_in_month year (mon base))
      in mk_date year (mon base) day)"

definition shift_date_by_shelf_life ::
  "date \<Rightarrow> int option \<Rightarrow> string option \<Rightarrow> int \<Rightarrow> date option result" where
  "shift_date_by_shelf_life base value unit direction =
     (case (value, unit) of
        (Some v, Some u) \<Rightarrow>
          (let step = (if 0 \<le> direction then v else - v) in
           if u = ''DAY'' then bindE (add_days base step) (\<lambda>d. Inr (Some d))
           else if u = ''WEEK'' then bindE (add_days base (7 * step)) (\<lambda>d. Inr (Some d))
           else if u = ''MONTH'' then bindE (lots_add_months base step) (\<lambda>d. Inr (Some d))
           else if u = ''YEAR'' then bindE (lots_add_years base step) (\<lambda>d. Inr (Some d))
           else Inr None)
      | _ \<Rightarrow> Inr None)"

section \<open>expiry\_rules.py\<close>

datatype shelf_life_unit = UNIT_DAY | UNIT_MONTH

record shelf_life =
  sh_value :: int
  sh_unit :: shelf_life_unit

definition is_effective :: "shelf_life \<Rightarrow> bool" where
  "is_effective sl \<longleftrightarrow> 0 < sh_value sl"

definition add_months :: "date \<Rightarrow> int \<Rightarrow> date result" where
  "add_months d months =
     (if months = 0 then Inr d
      else let total_months = yr d * 12 + (mon d - 1) + months;
               year = total_months div 12;
               month = total_months mod 12 + 1;
               last_day = days_in_month year month;
               day = min (dy d) last_day
           in mk_date year month day)"

definition compute_expiry_from_shelf_life :: "date \<Rightarrow> shelf_life \<Rightarrow> date result" where
  "compute_expiry_from_shelf_life production_date sl =
     (if \<not> is_effective sl then Inl (ValueError ''shelf_life must be a positive value'')
      else if sh_unit sl = UNIT_DAY then add_days production_date (sh_value sl)
      else add_months production_date (sh_value sl))"

definition compute_production_from_shelf_life :: "date \<Rightarrow> shelf_life \<Rightarrow> date result" where
  "compute_production_from_shelf_life expiry_date sl =
     (if \<not> is_effective sl then Inl (ValueError ''shelf_life must be a positive value'')
      else if sh_unit sl = UNIT_DAY then add_days expiry_date (- sh_value sl)
      else add_months expiry_date (- sh_value sl))"

definition resolve_expiry_date ::
  "date option \<Rightarrow> date option \<Rightarrow> shelf_life option \<Rightarrow> date option result" where
  "resolve_expiry_date production_date expiry_date sl =
     (case expiry_date of Some e \<Rightarrow> Inr (Some e)
      | None \<Rightarrow> (case (production_date, sl) of
          (Some p, Some s) \<Rightarrow>
            if is_effective s
            then bindE (compute_expiry_from_shelf_life p s) (\<lambda>d. Inr (Some d))
            else Inr None
        | _ \<Rightarrow> Inr None))"

definition resolve_production_date ::
  "date option \<Rightarrow> date option \<Rightarrow> shelf_life option \<Rightarrow> date option result" where
  "resolve_production_date production_date expiry_date sl =
     (case production_date of Some p \<Rightarrow> Inr (Some p)
      | None \<Rightarrow> (case (expiry_date, sl) of
          (Some e, Some s) \<Rightarrow>
            if is_effective s
            then bindE (compute_production_from_shelf_life e s) (\<lambda>d. Inr (Some d))
            else Inr None
        | _ \<Rightarrow> Inr None))"

definition validate_expiry_consistency ::
  "date option \<Rightarrow> date option \<Rightarrow> shelf_life option \<Rightarrow> int \<Rightarrow> bool result" where
  "validate_expiry_consistency production_date expiry_date sl tolerance_days =
     (case (production_date, expiry_date, sl) of
        (Some p, Some e, Some s) \<Rightarrow>
          if \<not> is_effective s then Inr True
          else bindE (compute_expiry_from_shelf_life p s)
            (\<lambda>expected. Inr (\<bar>toordinal e - toordinal expected\<bar> \<le> max tolerance_days 0))
      | _ \<Rightarrow> Inr True)"

section \<open>expiry\_resolver.py\<close>

datatype batch_date_resolution_mode =
    FROM_PRODUCTION_AND_SHELF_LIFE
  | FROM_BOTH_EXPLICIT
  | FROM_EXPIRY_AND_SHELF_LIFE_REVERSE

text \<open>\<open>ShelfLifeUnit(unit_str)\<close> accepts only the two members of the enumeration; any other
  string falls back to days.\<close>

definition shelf_life_unit_of :: "string \<Rightarrow> shelf_life_unit" where
  "shelf_life_unit_of s =
     (if s = ''DAY'' then UNIT_DAY else if s = ''MONTH'' then UNIT_MONTH else UNIT_DAY)"

definition build_shelf_life :: "int option \<Rightarrow> string option \<Rightarrow> shelf_life option" where
  "build_shelf_life value unit_str =
     (case (value, unit_str) of
        (Some v, Some u) \<Rightarrow>
          if v \<le> 0 then None
          else (let sl = \<lparr>sh_value = v, sh_unit = shelf_life_unit_of u\<rparr> in
                if is_effective sl then Some sl else None)
      | _ \<Rightarrow> None)"

type_synonym resolved_dates = "date option \<times> date option \<times> batch_date_resolution_mode option"

definition normalize_batch_dates_for_item ::
  "item list \<Rightarrow> int \<Rightarrow> date option \<Rightarrow> date option \<Rightarrow> resolved_dates result" where
  "normalize_batch_dates_for_item its item_id production_date expiry_date =
     (if production_date = None \<and> expiry_date = None then Inr (None, None, None)
      else bindE (aget_policy_by_id its item_id) (\<lambda>policy.
        case policy of
          None \<Rightarrow>
            (case (production_date, expiry_date) of
               (Some p, Some e) \<Rightarrow>
                 if e < p then Inl (ValueError ''production_date cannot be later than expiry_date'')
                 else Inr (Some p, Some e, Some FROM_BOTH_EXPLICIT)
             | _ \<Rightarrow> Inr (production_date, expiry_date, None))
        | Some pol \<Rightarrow>
            (let derivation_allowed = ip_derivation_allowed pol;
                 sl = build_shelf_life (ip_shelf_life_value pol) (ip_shelf_life_unit pol)
             in if ip_expiry_policy pol = EXPIRY_NONE then Inr (None, None, None)
                else case (production_date, expiry_date) of
                  (Some p, Some e) \<Rightarrow>
                    if e < p
                    then Inl (ValueError ''production_date cannot be later than expiry_date'')
                    else bindE (validate_expiry_consistency (Some p) (Some e) sl 3)
                      (\<lambda>_. Inr (Some p, Some e, Some FROM_BOTH_EXPLICIT))
                | (Some p, None) \<Rightarrow>
                    if derivation_allowed \<and> sl \<noteq> None
                    then bindE (resolve_expiry_date (Some p) None sl)
                      (\<lambda>e. Inr (Some p, e, Some FROM_PRODUCTION_AND_SHELF_LIFE))
                    else Inr (Some p, None, None)
                | (None, Some e) \<Rightarrow>
                    if derivation_allowed \<and> sl \<noteq> None
                    then bindE (resolve_production_date None (Some e) sl)
                      (\<lambda>p. Inr (p, Some e, Some FROM_EXPIRY_AND_SHELF_LIFE_REVERSE))
                    else Inr (None, Some e, None)
                | (None, None) \<Rightarrow> Inr (None, None, None))))"

section \<open>Facts about month arithmetic\<close>

lemma mk_date_Inr: "mk_date y m d = Inr e \<longleftrightarrow> e = Date y m d \<and> valid_date e"
  by (auto simp: mk_date_def)

text \<open>The two month shifts compute the same date.\<close>

lemma month_index_split:
  "(y * 12 + (m - 1) + k) div 12 = y + ((m - 1) + k) div (12 :: int)"
  "(y * 12 + (m - 1) + k) mod 12 = ((m - 1) + k) mod (12 :: int)"
proof -
  have "y * 12 + (m - 1) + k = ((m - 1) + k) + y * 12" by simp
  then show "(y * 12 + (m - 1) + k) div 12 = y + ((m - 1) + k) div (12 :: int)"
    and "(y * 12 + (m - 1) + k) mod 12 = ((m - 1) + k) mod (12 :: int)"
    by (simp_all only: div_mult_self1 mod_mult_self1 zero_neq_numeral not_False_eq_True)
qed

lemma lots_add_months_eq_add_months:
  assumes "valid_date d"
  shows "lots_add_months d k = add_months d k"
proof (cases "k = 0")
  case True
  from assms have "(mon d - 1) div 12 = 0" "(mon d - 1) mod 12 = mon d - 1"
    "min (dy d) (days_in_month (yr d) (mon d)) = dy d"
    by (auto simp: valid_date_def div_pos_pos_trivial mod_pos_pos_trivial)
  with True assms show ?thesis
    by (simp add: lots_add_months_def add_months_def Let_def mk_date_def)
next
  case False
  then show ?thesis
    unfolding lots_add_months_def add_months_def Let_def month_index_split by simp
qed

lemma add_months_month_count:
  assumes "valid_date d" "add_months d k = Inr e"
  shows "yr e * 12 + (mon e - 1) = yr d * 12 + (mon d - 1) + k"
proof (cases "k = 0")
  case False
  let ?t = "yr d * 12 + (mon d - 1) + k"
  from False assms(2) have "yr e = ?t div 12" "mon e = ?t mod 12 + 1"
    by (auto simp: add_months_def Let_def mk_date_Inr)
  then show ?thesis by simp
qed (use assms in \<open>simp add: add_months_def\<close>)

lemma add_months_valid: "valid_date d \<Longrightarrow> add_months d k = Inr e \<Longrightarrow> valid_date e"
  by (auto simp: add_months_def Let_def mk_date_Inr split: if_splits)

lemma month_count_less:
  assumes "valid_date a" "valid_date b" "yr a * 12 + (mon a - 1) < yr b * 12 + (mon b - 1)"
  shows "a < b"
  using assms by (auto simp: less_date_def valid_date_def)

lemma add_months_less:
  "valid_date d \<Longrightarrow> 0 < k \<Longrightarrow> add_months d k = Inr e \<Longrightarrow> d < e"
  using add_months_month_count [of d k e] add_months_valid [of d k e]
  by (intro month_count_less) auto

lemma add_months_greater:
  "valid_date d \<Longrightarrow> k < 0 \<Longrightarrow> add_months d k = Inr e \<Longrightarrow> e < d"
  using add_months_month_count [of d k e] add_months_valid [of d k e]
  by (intro month_count_less) auto

lemma lots_add_years_less:
  "valid_date d \<Longrightarrow> 0 < k \<Longrightarrow> lots_add_years d k = Inr e \<Longrightarrow> valid_date e \<and> d < e"
  by (auto simp: lots_add_years_def Let_def mk_date_Inr less_date_def)

lemma lots_add_years_greater:
  "valid_date d \<Longrightarrow> k < 0 \<Longrightarrow> lots_add_years d k = Inr e \<Longrightarrow> valid_date e \<and> e < d"
  by (auto simp: lots_add_years_def Let_def mk_date_Inr less_date_def)

lemma shift_forward_later:
  assumes "valid_date d" "0 < v"
    and "shift_date_by_shelf_life d (Some v) u 1 = Inr (Some e)"
  shows "valid_date e \<and> d < e"
proof (cases u)
  case (Some un)
  with assms(3) consider "add_days d v = Inr e" | "add_days d (7 * v) = Inr e"
    | "lots_add_months d v = Inr e" | "lots_add_years d v = Inr e"
    by (auto simp: shift_date_by_shelf_life_def bindE_eq_Inr Let_def split: if_splits)
  then show ?thesis
    using assms(1,2) add_daysD add_days_less [of d v e] add_days_less [of d "7 * v" e]
      add_months_less [of d v e]
      add_months_valid [of d v e] lots_add_years_less [of d v e]
    by cases (auto simp: lots_add_months_eq_add_months)
qed (use assms in \<open>simp add: shift_date_by_shelf_life_def\<close>)

lemma shift_backward_earlier:
  assumes "valid_date d" "0 < v"
    and "shift_date_by_shelf_life d (Some v) u (- 1) = Inr (Some e)"
  shows "valid_date e \<and> e < d"
proof (cases u)
  case (Some un)
  with assms(3) consider "add_days d (- v) = Inr e" | "add_days d (7 * (- v)) = Inr e"
    | "lots_add_months d (- v) = Inr e" | "lots_add_years d (- v) = Inr e"
    by (auto simp: shift_date_by_shelf_life_def bindE_eq_Inr Let_def split: if_splits)
  then show ?thesis
    using assms(1,2) add_daysD add_days_greater [of d "- v" e] add_days_greater [of d "7 * (- v)" e]
      add_months_greater [of d "- v" e]
      add_months_valid [of d "- v" e] lots_add_years_greater [of d "- v" e]
    by cases (auto simp: lots_add_months_eq_add_months)
qed (use assms in \<open>simp add: shift_date_by_shelf_life_def\<close>)

lemma compute_expiry_later:
  assumes "valid_date d" "compute_expiry_from_shelf_life d sl = Inr e"
  shows "valid_date e \<and> d < e"
proof -
  from assms(2) have "0 < sh_value sl"
    and "add_days d (sh_value sl) = Inr e \<or> add_months d (sh_value sl) = Inr e"
    by (auto simp: compute_expiry_from_shelf_life_def is_effective_def split: if_splits)
  with assms(1) show ?thesis
    using add_daysD add_days_less add_months_less add_months_valid by blast
qed

lemma compute_production_earlier:
  assumes "valid_date d" "compute_production_from_shelf_life d sl = Inr e"
  shows "valid_date e \<and> e < d"
proof -
  from assms(2) have "- sh_value sl < 0"
    and "add_days d (- sh_value sl) = Inr e \<or> add_months d (- sh_value sl) = Inr e"
    by (auto simp: compute_production_from_shelf_life_def is_effective_def split: if_splits)
  with assms(1) show ?thesis
    using add_daysD add_days_greater add_months_greater add_months_valid by blast
qed

lemma build_shelf_life_Some:
  "build_shelf_life v u = Some sl \<Longrightarrow>
     0 < sh_value sl \<and> v = Some (sh_value sl) \<and> (\<exists>s. u = Some s \<and> sh_unit sl = shelf_life_unit_of s)"
  by (auto simp: build_shelf_life_def Let_def split: option.splits if_splits)

end
