(* ===== verification/Schema.thy ===== *)
theory Schema
  imports ShelfLife
begin

text \<open>
  The database the warehouse services work on: one record type per table (the columns the
  modelled code reads or writes), the \<open>CHECK\<close> and \<open>UNIQUE\<close> constraints the ORM models declare,
  and the database itself as a record of tables. Columns of type \<open>timestamptz\<close> are integers
  (microseconds), \<open>Integer\<close> columns are \<open>int\<close> with their 32-bit range checked where a computed
  quantity is stored, text columns are strings of any length.
\<close>

section \<open>Identifiers and 32-bit columns\<close>

datatype table_name =
    LOTS | STOCKS_LOT | STOCK_LEDGER | WMS_EVENTS | INBOUND_EVENT_LINES | OUTBOUND_EVENT_LINES
  | COUNT_DOCS | COUNT_DOC_LINES | COUNT_DOC_LINE_LOT_SNAPSHOTS
  | MANUAL_OUTBOUND_DOCS | MANUAL_OUTBOUND_LINES | PURCHASE_ORDERS | PURCHASE_ORDER_LINES
  | ORDERS | ORDER_LINES

definition int4 :: "int \<Rightarrow> bool" where
  "int4 n \<longleftrightarrow> - 2147483648 \<le> n \<and> n \<le> 2147483647"

section \<open>lots\<close>

datatype lot_code_source = SUPPLIER | INTERNAL

record lot =
  lot_id :: int
  lot_warehouse_id :: int
  lot_item_id :: int
  lot_code_source :: lot_code_source
  lot_code :: "string option"
  lot_production_date :: "date option"
  lot_expiry_date :: "date option"
  lot_source_receipt_id :: "int option"
  lot_source_line_no :: "int option"
  lot_shelf_life_value_snapshot :: "int option"
  lot_shelf_life_unit_snapshot :: "string option"
  lot_lot_source_policy_snapshot :: lot_source_policy
  lot_expiry_policy_snapshot :: expiry_policy
  lot_derivation_allowed_snapshot :: bool
  lot_uom_governance_enabled_snapshot :: bool

text \<open>The check constraints of \<open>Lot.__table_args__\<close>, in order.\<close>

definition lot_checks :: "lot \<Rightarrow> bool" where
  "lot_checks l \<longleftrightarrow>
     (case lot_shelf_life_unit_snapshot l of None \<Rightarrow> True | Some u \<Rightarrow> u \<in> set shelf_life_units) \<and>
     (lot_shelf_life_value_snapshot l = None) = (lot_shelf_life_unit_snapshot l = None) \<and>
     (lot_expiry_policy_snapshot l = EXPIRY_REQUIRED \<or>
        lot_shelf_life_value_snapshot l = None \<and> lot_shelf_life_unit_snapshot l = None) \<and>
     (lot_expiry_policy_snapshot l = EXPIRY_REQUIRED \<and> lot_production_date l \<noteq> None \<or>
        lot_expiry_policy_snapshot l \<noteq> EXPIRY_REQUIRED \<and> lot_production_date l = None) \<and>
     (case (lot_production_date l, lot_expiry_date l) of
        (Some p, Some e) \<Rightarrow> p \<le> e | _ \<Rightarrow> True) \<and>
     (lot_expiry_policy_snapshot l \<noteq> EXPIRY_REQUIRED \<or> lot_code_source l \<noteq> SUPPLIER \<or>
        lot_expiry_date l \<noteq> None) \<and>
     (lot_expiry_policy_snapshot l \<noteq> EXPIRY_REQUIRED \<or> lot_code_source l = SUPPLIER)"

text \<open>The two partial unique indexes: the rows they cover and when two of them collide.\<close>

definition required_lot_index :: "lot \<Rightarrow> bool" where
  "required_lot_index l \<longleftrightarrow> lot_code_source l = SUPPLIER \<and>
     lot_expiry_policy_snapshot l = EXPIRY_REQUIRED \<and> lot_production_date l \<noteq> None"

definition internal_lot_index :: "lot \<Rightarrow> bool" where
  "internal_lot_index l \<longleftrightarrow> lot_code_source l = INTERNAL \<and> lot_code l = None"

definition required_lot_conflict :: "lot \<Rightarrow> lot \<Rightarrow> bool" where
  "required_lot_conflict a b \<longleftrightarrow> required_lot_index a \<and> required_lot_index b \<and>
     lot_warehouse_id a = lot_warehouse_id b \<and> lot_item_id a = lot_item_id b \<and>
     lot_production_date a = lot_production_date b"

definition internal_lot_conflict :: "lot \<Rightarrow> lot \<Rightarrow> bool" where
  "internal_lot_conflict a b \<longleftrightarrow> internal_lot_index a \<and> internal_lot_index b \<and>
     lot_warehouse_id a = lot_warehouse_id b \<and> lot_item_id a = lot_item_id b"

section \<open>stocks\_lot and stock\_ledger\<close>

record stock_lot =
  sl_id :: int
  sl_warehouse_id :: int
  sl_item_id :: int
  sl_lot_id :: int
  sl_qty :: int

record stock_ledger =
  lg_id :: int
  lg_warehouse_id :: int
  lg_item_id :: int
  lg_lot_id :: int
  lg_reason :: string
  lg_reason_canon :: "string option"
  lg_sub_reason :: "string option"
  lg_ref :: string
  lg_ref_line :: int
  lg_delta :: int
  lg_after_qty :: int
  lg_occurred_at :: int
  lg_trace_id :: "string option"
  lg_event_id :: "int option"
  lg_production_date :: "date option"
  lg_expiry_date :: "date option"

text \<open>\<open>uq_ledger_wh_lot_item_reason_ref_line\<close>.\<close>

type_synonym ledger_key = "string \<times> string \<times> int \<times> int \<times> int \<times> int"

definition ledger_key :: "stock_ledger \<Rightarrow> ledger_key" where
  "ledger_key r = (lg_reason r, lg_ref r, lg_ref_line r, lg_item_id r, lg_warehouse_id r, lg_lot_id r)"

text \<open>The three dimensions of a stock slot: warehouse, item, lot.\<close>

type_synonym slot = "int \<times> int \<times> int"

definition stock_slot :: "stock_lot \<Rightarrow> slot" where
  "stock_slot s = (sl_warehouse_id s, sl_item_id s, sl_lot_id s)"

definition ledger_slot :: "stock_ledger \<Rightarrow> slot" where
  "ledger_slot r = (lg_warehouse_id r, lg_item_id r, lg_lot_id r)"

definition lot_slot :: "lot \<Rightarrow> slot" where
  "lot_slot l = (lot_warehouse_id l, lot_item_id l, lot_id l)"

section \<open>wms\_events and event lines\<close>

record wms_event =
  ev_id :: int
  ev_event_no :: string
  ev_event_type :: string
  ev_warehouse_id :: int
  ev_source_type :: string
  ev_source_ref :: "string option"
  ev_occurred_at :: int
  ev_committed_at :: int
  ev_trace_id :: string
  ev_event_kind :: string
  ev_target_event_id :: "int option"
  ev_status :: string
  ev_created_by :: "int option"
  ev_remark :: "string option"

definition event_types :: "string list" where
  "event_types = [''INBOUND'', ''OUTBOUND'', ''COUNT'']"

definition event_source_types :: "string list" where
  "event_source_types =
     [''PURCHASE_ORDER'', ''MANUAL'', ''RETURN'', ''TRANSFER_IN'', ''ADJUST_IN'', ''ORDER'',
      ''ORDER_SHIP'', ''INTERNAL_OUTBOUND'', ''TRANSFER_OUT'', ''SCRAP'', ''ADJUST_OUT'',
      ''COUNT_TASK'', ''MANUAL_COUNT'']"

definition event_kinds :: "string list" where
  "event_kinds = [''COMMIT'', ''REVERSAL'', ''CORRECTION'']"

definition event_statuses :: "string list" where
  "event_statuses = [''COMMITTED'', ''VOIDED'', ''SUPERSEDED'']"

definition event_checks :: "wms_event \<Rightarrow> bool" where
  "event_checks e \<longleftrightarrow> ev_event_type e \<in> set event_types \<and>
     ev_source_type e \<in> set event_source_types \<and> ev_event_kind e \<in> set event_kinds \<and>
     ev_status e \<in> set event_statuses"

record inbound_event_line =
  il_id :: int
  il_event_id :: int
  il_line_no :: int
  il_item_id :: int
  il_item_name_snapshot :: "string option"
  il_item_spec_snapshot :: "string option"
  il_actual_uom_id :: int
  il_actual_uom_name_snapshot :: "string option"
  il_barcode_input :: "string option"
  il_actual_qty_input :: int
  il_actual_ratio_to_base_snapshot :: int
  il_qty_base :: int
  il_lot_code_input :: "string option"
  il_production_date :: "date option"
  il_expiry_date :: "date option"
  il_lot_id :: "int option"
  il_po_line_id :: "int option"
  il_remark :: "string option"

definition inbound_line_checks :: "inbound_event_line \<Rightarrow> bool" where
  "inbound_line_checks l \<longleftrightarrow>
     (case (il_production_date l, il_expiry_date l) of (Some p, Some e) \<Rightarrow> p \<le> e | _ \<Rightarrow> True) \<and>
     1 \<le> il_actual_ratio_to_base_snapshot l \<and> 1 \<le> il_actual_qty_input l \<and>
     il_qty_base l = il_actual_qty_input l * il_actual_ratio_to_base_snapshot l"

record outbound_event_line =
  ol_id :: int
  ol_event_id :: int
  ol_ref_line :: int
  ol_item_id :: int
  ol_qty_outbound :: int
  ol_lot_id :: int
  ol_lot_code_snapshot :: "string option"
  ol_order_line_id :: "int option"
  ol_manual_doc_line_id :: "int option"
  ol_item_name_snapshot :: "string option"
  ol_item_sku_snapshot :: "string option"
  ol_item_spec_snapshot :: "string option"
  ol_remark :: "string option"

definition outbound_line_checks :: "outbound_event_line \<Rightarrow> bool" where
  "outbound_line_checks l \<longleftrightarrow> 0 < ol_qty_outbound l \<and>
     (ol_order_line_id l \<noteq> None \<and> ol_manual_doc_line_id l = None \<or>
      ol_order_line_id l = None \<and> ol_manual_doc_line_id l \<noteq> None)"

section \<open>Orders and manual outbound documents\<close>

record order_head =
  or_id :: int
  or_platform :: string
  or_store_code :: string
  or_ext_order_no :: string
  or_store_id :: int
  or_status :: "string option"
  or_buyer_name :: "string option"
  or_buyer_phone :: "string option"
  or_trace_id :: "string option"
  or_created_at :: int
  or_updated_at :: "int option"

record order_line =
  orl_id :: int
  orl_order_id :: int
  orl_item_id :: int
  orl_req_qty :: int

record manual_doc =
  md_id :: int
  md_warehouse_id :: int
  md_doc_no :: string
  md_doc_type :: string
  md_status :: string
  md_recipient_name :: string
  md_remark :: "string option"
  md_created_by :: "int option"
  md_created_at :: int
  md_released_by :: "int option"
  md_released_at :: "int option"
  md_voided_by :: "int option"
  md_voided_at :: "int option"

record manual_line =
  ml_id :: int
  ml_doc_id :: int
  ml_line_no :: int
  ml_item_id :: int
  ml_item_uom_id :: int
  ml_requested_qty :: int
  ml_item_name_snapshot :: "string option"
  ml_item_sku_snapshot :: "string option"
  ml_item_spec_snapshot :: "string option"
  ml_uom_name_snapshot :: "string option"

section \<open>Count documents\<close>

record count_doc =
  cd_id :: int
  cd_count_no :: string
  cd_warehouse_id :: int
  cd_snapshot_at :: int
  cd_status :: string
  cd_posted_event_id :: "int option"
  cd_created_by :: "int option"
  cd_counted_by_name_snapshot :: "string option"
  cd_reviewed_by_name_snapshot :: "string option"
  cd_remark :: "string option"
  cd_created_at :: int
  cd_counted_at :: "int option"
  cd_posted_at :: "int option"

definition count_statuses :: "string list" where
  "count_statuses = [''DRAFT'', ''FROZEN'', ''COUNTED'', ''POSTED'', ''VOIDED'']"

record count_line =
  cl_id :: int
  cl_doc_id :: int
  cl_line_no :: int
  cl_item_id :: int
  cl_item_name_snapshot :: "string option"
  cl_item_spec_snapshot :: "string option"
  cl_snapshot_qty_base :: int
  cl_counted_item_uom_id :: "int option"
  cl_counted_uom_name_snapshot :: "string option"
  cl_counted_ratio_to_base_snapshot :: "int option"
  cl_counted_qty_input :: "int option"
  cl_counted_qty_base :: "int option"
  cl_diff_qty_base :: "int option"

definition count_line_checks :: "count_line \<Rightarrow> bool" where
  "count_line_checks l \<longleftrightarrow>
     1 \<le> cl_line_no l \<and> 0 \<le> cl_snapshot_qty_base l \<and>
     (case cl_counted_qty_input l of None \<Rightarrow> True | Some n \<Rightarrow> 0 \<le> n) \<and>
     (case cl_counted_qty_base l of None \<Rightarrow> True | Some n \<Rightarrow> 0 \<le> n) \<and>
     (case cl_counted_ratio_to_base_snapshot l of None \<Rightarrow> True | Some n \<Rightarrow> 1 \<le> n) \<and>
     (cl_counted_item_uom_id l = None \<and> cl_counted_uom_name_snapshot l = None \<and>
      cl_counted_ratio_to_base_snapshot l = None \<and> cl_counted_qty_input l = None \<and>
      cl_counted_qty_base l = None \<and> cl_diff_qty_base l = None
      \<or> cl_counted_item_uom_id l \<noteq> None \<and> cl_counted_uom_name_snapshot l \<noteq> None \<and>
        (case (cl_counted_ratio_to_base_snapshot l, cl_counted_qty_input l,
               cl_counted_qty_base l, cl_diff_qty_base l) of
           (Some ratio, Some inp, Some base, Some diff) \<Rightarrow>
             base = inp * ratio \<and> diff = base - cl_snapshot_qty_base l
         | _ \<Rightarrow> False))"

record count_snapshot =
  cs_id :: int
  cs_line_id :: int
  cs_lot_id :: int
  cs_lot_code_snapshot :: "string option"
  cs_snapshot_qty_base :: int

section \<open>Purchase orders and their completion\<close>

text \<open>
  The columns of prices and amounts are \<open>NUMERIC(12, 2)\<close> and \<open>NUMERIC(14, 2)\<close>: integers here, in
  hundredths.
\<close>

record purchase_order =
  po_id :: int
  po_no :: string
  po_supplier_id :: int
  po_supplier_name :: string
  po_warehouse_id :: int
  po_purchaser :: string
  po_purchase_time :: int
  po_total_amount :: "int option"
  po_status :: string
  po_close_reason :: "string option"
  po_close_note :: "string option"
  po_remark :: "string option"
  po_closed_at :: "int option"

record purchase_order_line =
  pl_id :: int
  pl_po_id :: int
  pl_line_no :: int
  pl_item_id :: int
  pl_item_name :: "string option"
  pl_item_sku :: "string option"
  pl_spec_text :: "string option"
  pl_purchase_uom_id_snapshot :: int
  pl_purchase_uom_name_snapshot :: string
  pl_purchase_ratio_to_base_snapshot :: int
  pl_qty_ordered_input :: int
  pl_qty_ordered_base :: int
  pl_supply_price :: "int option"
  pl_remark :: "string option"

record po_completion =
  pc_po_line_id :: int
  pc_po_id :: int
  pc_po_no :: string
  pc_line_no :: int
  pc_warehouse_id :: int
  pc_supplier_id :: int
  pc_supplier_name :: string
  pc_purchaser :: string
  pc_purchase_time :: int
  pc_item_id :: int
  pc_item_name :: "string option"
  pc_item_sku :: "string option"
  pc_spec_text :: "string option"
  pc_purchase_uom_id_snapshot :: int
  pc_purchase_uom_name_snapshot :: string
  pc_ratio_to_base_snapshot :: int
  pc_qty_ordered_input :: int
  pc_qty_ordered_base :: int
  pc_supply_price_snapshot :: "int option"
  pc_planned_line_amount :: int
  pc_qty_received_base :: int
  pc_qty_remaining_base :: int
  pc_line_completion_status :: string
  pc_last_received_at :: "int option"

definition completion_checks :: "po_completion \<Rightarrow> bool" where
  "completion_checks c \<longleftrightarrow>
     0 < pc_qty_ordered_input c \<and> 0 < pc_qty_ordered_base c \<and> 0 \<le> pc_qty_received_base c \<and>
     0 \<le> pc_qty_remaining_base c \<and> 1 \<le> pc_ratio_to_base_snapshot c \<and>
     pc_qty_remaining_base c = max (pc_qty_ordered_base c - pc_qty_received_base c) 0 \<and>
     pc_line_completion_status c \<in> {''NOT_RECEIVED'', ''PARTIAL'', ''RECEIVED''}"

section \<open>The database\<close>

record db =
  t_items :: "item list"
  t_item_uoms :: "item_uom list"
  t_item_barcodes :: "item_barcode list"
  t_lots :: "lot list"
  t_stocks :: "stock_lot list"
  t_ledger :: "stock_ledger list"
  t_events :: "wms_event list"
  t_inbound_lines :: "inbound_event_line list"
  t_outbound_lines :: "outbound_event_line list"
  t_orders :: "order_head list"
  t_order_lines :: "order_line list"
  t_manual_docs :: "manual_doc list"
  t_manual_lines :: "manual_line list"
  t_count_docs :: "count_doc list"
  t_count_lines :: "count_line list"
  t_count_snapshots :: "count_snapshot list"
  t_purchase_orders :: "purchase_order list"
  t_purchase_lines :: "purchase_order_line list"
  t_completion :: "po_completion list"
  t_next_id :: "table_name \<Rightarrow> int"

text \<open>
  A serial primary key: PostgreSQL takes the next value of the sequence before it looks at
  constraints, so an insert that conflicts has used its id up as well.
\<close>

definition next_id :: "table_name \<Rightarrow> db \<Rightarrow> int \<times> db" where
  "next_id t d = (t_next_id d t, d\<lparr>t_next_id := (t_next_id d)(t := t_next_id d t + 1)\<rparr>)"

text \<open>What a service or a handler is: it may raise, and it returns a value and the new database.\<close>

type_synonym 'a tx = "db \<Rightarrow> ('a \<times> db) result"

text \<open>A read of PMS used on both sides, \<open>pms/public/items/services/item_read_service.py\<close>.\<close>

definition aget_basics_by_item_ids :: "db \<Rightarrow> int list \<Rightarrow> item_basic list result" where
  "aget_basics_by_item_ids d ids =
     bindE (mapE (\<lambda>it u. bindE (build_item_basic it) (\<lambda>b. Inr (b, u)))
       (filter (\<lambda>it. it_id it \<in> set ids) (t_items d)) ()) (\<lambda>(bs, _). Inr bs)"

end
