(* ===== verification/Lots.thy ===== *)
theory Lots
  imports Schema
begin

text \<open>
  Lot identity. \<open>app/wms/stock/services/lots.py\<close> creates and finds lots: a \<open>REQUIRED\<close> item has one
  supplier lot per production date, an item without expiry has one internal lot per warehouse.
  \<open>lot_service.py\<close> checks the item's policy and the snapshot frozen in the lot,
  \<open>lot_guard.py\<close> that a lot belongs to a slot, \<open>lot_code_contract.py\<close> and
  \<open>stock_contract_resolver.py\<close> which lot codes a caller may send.
\<close>

section \<open>lot\_guard.py\<close>

definition find_lot :: "db \<Rightarrow> int \<Rightarrow> lot option" where
  "find_lot d i = find (\<lambda>l. lot_id l = i) (t_lots d)"

definition assert_lot_belongs_to :: "db \<Rightarrow> int \<Rightarrow> int \<Rightarrow> int option \<Rightarrow> unit result" where
  "assert_lot_belongs_to d w i lid =
     (case lid of None \<Rightarrow> Inr ()
      | Some n \<Rightarrow> (case find_lot d n of
          None \<Rightarrow> Inl (ValueError ''lot_not_found'')
        | Some l \<Rightarrow> if lot_warehouse_id l \<noteq> w \<or> lot_item_id l \<noteq> i
            then Inl (ValueError ''lot_mismatch'') else Inr ()))"

section \<open>lots.py: lookups\<close>

definition normalize_lot_code :: "string option \<Rightarrow> (string \<times> string) result" where
  "normalize_lot_code code =
     (let s = py_strip (case code of None \<Rightarrow> [] | Some t \<Rightarrow> t) in
      if s = [] then Inl (ValueError ''lot_code empty'') else Inr (s, s))"

definition pair_or_null :: "int option \<Rightarrow> int option \<Rightarrow> (int option \<times> int option) result" where
  "pair_or_null a b =
     (case (a, b) of
        (None, None) \<Rightarrow> Inr (None, None)
      | (Some x, Some y) \<Rightarrow> Inr (Some x, Some y)
      | _ \<Rightarrow> Inl (ValueError ''internal_source_receipt_line_pair_required''))"

definition load_item_expiry_context ::
  "db \<Rightarrow> int \<Rightarrow> (expiry_policy \<times> int option \<times> string option) result" where
  "load_item_expiry_context d i =
     (case find_item (t_items d) i of
        None \<Rightarrow> Inl (ValueError ''item_not_found'')
      | Some it \<Rightarrow> Inr (it_expiry_policy it, normalize_positive_int (it_shelf_life_value it),
                        normalize_shelf_life_unit (it_shelf_life_unit it)))"

definition load_item_expiry_policy :: "db \<Rightarrow> int \<Rightarrow> expiry_policy result" where
  "load_item_expiry_policy d i =
     bindE (load_item_expiry_context d i) (\<lambda>(p, _, _). Inr p)"

definition get_supplier_lot_by_production_date ::
  "db \<Rightarrow> int \<Rightarrow> int \<Rightarrow> date \<Rightarrow> int option" where
  "get_supplier_lot_by_production_date d i w pd =
     map_option lot_id (find (\<lambda>l. lot_warehouse_id l = w \<and> lot_item_id l = i \<and>
       lot_code_source l = SUPPLIER \<and> lot_production_date l = Some pd) (t_lots d))"

definition get_supplier_lot_ids_by_lot_code ::
  "db \<Rightarrow> int \<Rightarrow> int \<Rightarrow> string \<Rightarrow> int list" where
  "get_supplier_lot_ids_by_lot_code d i w code =
     take 2 (map lot_id (filter (\<lambda>l. lot_warehouse_id l = w \<and> lot_item_id l = i \<and>
       lot_code_source l = SUPPLIER \<and> lot_code l = Some code) (t_lots d)))"

definition get_internal_lot :: "db \<Rightarrow> int \<Rightarrow> int \<Rightarrow> int option" where
  "get_internal_lot d i w =
     map_option lot_id (find (\<lambda>l. lot_warehouse_id l = w \<and> lot_item_id l = i \<and>
       lot_code_source l = INTERNAL \<and> lot_code l = None) (t_lots d))"

section \<open>lots.py: writes\<close>

text \<open>
  An \<open>UPDATE\<close> re-checks the row's constraints. \<open>None\<close> as the new date returns before the statement.
\<close>

definition patch_lot_expiry_if_null :: "int \<Rightarrow> date option \<Rightarrow> unit tx" where
  "patch_lot_expiry_if_null lid ed d =
     (case ed of None \<Rightarrow> Inr ((), d)
      | Some e \<Rightarrow>
          (let hit = (\<lambda>l. lot_id l = lid \<and> lot_expiry_date l = None);
               upd = (\<lambda>l. l\<lparr>lot_expiry_date := Some e\<rparr>)
           in if \<exists>l \<in> set (t_lots d). hit l \<and> \<not> lot_checks (upd l)
              then Inl (IntegrityError ''lots check constraint'')
              else Inr ((), d\<lparr>t_lots := update_where hit upd (t_lots d)\<rparr>)))"

text \<open>The row both inserts build: the caller's columns and the snapshot of the item's policy.\<close>

definition lot_row ::
  "item \<Rightarrow> int \<Rightarrow> int \<Rightarrow> lot_code_source \<Rightarrow> string option \<Rightarrow> date option \<Rightarrow> date option \<Rightarrow>
   int option \<Rightarrow> int option \<Rightarrow> lot" where
  "lot_row it nid w src code pd ed rid rln =
     \<lparr>lot_id = nid, lot_warehouse_id = w, lot_item_id = it_id it, lot_code_source = src,
      lot_code = code, lot_production_date = pd, lot_expiry_date = ed,
      lot_source_receipt_id = rid, lot_source_line_no = rln,
      lot_shelf_life_value_snapshot = it_shelf_life_value it,
      lot_shelf_life_unit_snapshot = it_shelf_life_unit it,
      lot_lot_source_policy_snapshot = it_lot_source_policy it,
      lot_expiry_policy_snapshot = it_expiry_policy it,
      lot_derivation_allowed_snapshot = it_derivation_allowed it,
      lot_uom_governance_enabled_snapshot = it_uom_governance_enabled it\<rparr>"

text \<open>
  \<open>INSERT INTO lots ... SELECT ... FROM items ... ON CONFLICT DO NOTHING RETURNING id\<close>. Check
  constraints are tested before conflicts; a conflicting insert has consumed an id.
\<close>

definition insert_internal_lot ::
  "int \<Rightarrow> int \<Rightarrow> int option \<Rightarrow> int option \<Rightarrow> int option tx" where
  "insert_internal_lot i w rid rln d =
     (case find_item (t_items d) i of
        None \<Rightarrow> Inr (None, d)
      | Some it \<Rightarrow>
          (let (nid, d1) = next_id LOTS d;
               l = lot_row it nid w INTERNAL None None None rid rln
           in if \<not> lot_checks l then Inl (IntegrityError ''lots check constraint'')
              else if \<exists>x \<in> set (t_lots d). internal_lot_conflict l x \<or> required_lot_conflict l x
              then Inr (None, d1)
              else Inr (Some nid, d1\<lparr>t_lots := t_lots d1 @ [l]\<rparr>)))"

definition insert_supplier_lot ::
  "int \<Rightarrow> int \<Rightarrow> string \<Rightarrow> date \<Rightarrow> date \<Rightarrow> int option tx" where
  "insert_supplier_lot i w code pd ed d =
     (case find_item (t_items d) i of
        None \<Rightarrow> Inr (None, d)
      | Some it \<Rightarrow>
          (let (nid, d1) = next_id LOTS d;
               l = lot_row it nid w SUPPLIER (Some code) (Some pd) (Some ed) None None
           in if \<not> lot_checks l then Inl (IntegrityError ''lots check constraint'')
              else if \<exists>x \<in> set (t_lots d). required_lot_conflict l x then Inr (None, d1)
              else if \<exists>x \<in> set (t_lots d). internal_lot_conflict l x
              then Inl (IntegrityError ''uq_lots_internal_single_wh_item'')
              else Inr (Some nid, d1\<lparr>t_lots := t_lots d1 @ [l]\<rparr>)))"

definition ensure_internal_lot_singleton ::
  "int \<Rightarrow> int \<Rightarrow> int option \<Rightarrow> int option \<Rightarrow> int tx" where
  "ensure_internal_lot_singleton i w source_receipt_id source_line_no d =
     bindE (pair_or_null source_receipt_id source_line_no) (\<lambda>(rid, rln).
     case get_internal_lot d i w of
       Some n \<Rightarrow> Inr (n, d)
     | None \<Rightarrow>
         bindE (insert_internal_lot i w rid rln d) (\<lambda>(got, d1).
         case got of
           Some n \<Rightarrow> Inr (n, d1)
         | None \<Rightarrow> (case get_internal_lot d1 i w of
             Some n \<Rightarrow> Inr (n, d1)
           | None \<Rightarrow> Inl (RuntimeError ''ensure_internal_lot_singleton failed''))))"

text \<open>The dates \<open>ensure_lot_full\<close> works with: the missing one is derived for a \<open>REQUIRED\<close> item.\<close>

definition complete_lot_dates ::
  "expiry_policy \<Rightarrow> int option \<Rightarrow> string option \<Rightarrow> date option \<Rightarrow> date option \<Rightarrow>
   (date option \<times> date option) result" where
  "complete_lot_dates policy slv slu pd ed =
     bindE (if policy = EXPIRY_REQUIRED \<and> ed = None \<and> pd \<noteq> None
            then shift_date_by_shelf_life (the pd) slv slu 1 else Inr ed) (\<lambda>ed1.
     bindE (if policy = EXPIRY_REQUIRED \<and> pd = None \<and> ed1 \<noteq> None
            then shift_date_by_shelf_life (the ed1) slv slu (- 1) else Inr pd) (\<lambda>pd1.
     case (pd1, ed1) of
       (Some p, Some e) \<Rightarrow>
         if e < p then Inl (ValueError ''expiry_date_cannot_be_earlier_than_production_date'')
         else Inr (pd1, ed1)
     | _ \<Rightarrow> Inr (pd1, ed1)))"

definition ensure_lot_full ::
  "int \<Rightarrow> int \<Rightarrow> string \<Rightarrow> date option \<Rightarrow> date option \<Rightarrow> int tx" where
  "ensure_lot_full i w lcode production_date expiry_date d =
     bindE (normalize_lot_code (Some lcode)) (\<lambda>(code_raw, _).
     bindE (load_item_expiry_context d i) (\<lambda>(policy, slv, slu).
     bindE (complete_lot_dates policy slv slu production_date expiry_date) (\<lambda>(pd, ed).
     if policy = EXPIRY_REQUIRED then
       (case pd of
          None \<Rightarrow>
            (case get_supplier_lot_ids_by_lot_code d i w code_raw of
               [n] \<Rightarrow> bindE (patch_lot_expiry_if_null n ed d) (\<lambda>(_, d1). Inr (n, d1))
             | [] \<Rightarrow> Inl (ValueError ''production_date_required_for_required_lot'')
             | _ \<Rightarrow> Inl (ValueError ''supplier_lot_code_ambiguous''))
        | Some p \<Rightarrow>
            (case get_supplier_lot_by_production_date d i w p of
               Some n \<Rightarrow> bindE (patch_lot_expiry_if_null n ed d) (\<lambda>(_, d1). Inr (n, d1))
             | None \<Rightarrow>
                 (case ed of
                    None \<Rightarrow> Inl (ValueError ''expiry_date_required_for_required_lot'')
                  | Some e \<Rightarrow>
                      bindE (insert_supplier_lot i w code_raw p e d) (\<lambda>(got, d1).
                      case got of
                        Some n \<Rightarrow> Inr (n, d1)
                      | None \<Rightarrow> (case get_supplier_lot_by_production_date d1 i w p of
                          Some n \<Rightarrow> bindE (patch_lot_expiry_if_null n ed d1) (\<lambda>(_, d2). Inr (n, d2))
                        | None \<Rightarrow> Inl (RuntimeError ''ensure_lot_full failed''))))))
     else
       (case get_supplier_lot_ids_by_lot_code d i w code_raw of
          [n] \<Rightarrow> Inr (n, d)
        | [] \<Rightarrow> Inl (ValueError ''supplier_lot_not_allowed_for_nonrequired_item'')
        | _ \<Rightarrow> Inl (ValueError ''supplier_lot_code_ambiguous'')))))"

section \<open>lot\_service.py\<close>

definition snapshot_equal :: "lot \<Rightarrow> item_policy \<Rightarrow> bool" where
  "snapshot_equal l p \<longleftrightarrow>
     lot_shelf_life_value_snapshot l = ip_shelf_life_value p \<and>
     lot_shelf_life_unit_snapshot l = ip_shelf_life_unit p \<and>
     lot_lot_source_policy_snapshot l = ip_lot_source_policy p \<and>
     lot_expiry_policy_snapshot l = ip_expiry_policy p \<and>
     lot_derivation_allowed_snapshot l = ip_derivation_allowed p \<and>
     lot_uom_governance_enabled_snapshot l = ip_uom_governance_enabled p"

text \<open>\<open>except ValueError as e\<close>; a pydantic error is one too, \<open>OverflowError\<close> is not.\<close>

definition catch_value_error :: "(string \<Rightarrow> error) \<Rightarrow> 'a result \<Rightarrow> 'a result" where
  "catch_value_error h m = (case m of Inl (ValueError s) \<Rightarrow> Inl (h s) | _ \<Rightarrow> m)"

definition resolve_or_create_lot ::
  "int \<Rightarrow> item_policy \<Rightarrow> string \<Rightarrow> string option \<Rightarrow> date option \<Rightarrow> date option \<Rightarrow>
   int option \<Rightarrow> int option \<Rightarrow> int tx" where
  "resolve_or_create_lot w pol lsource lcode pd ed source_receipt_id source_line_no d =
     (let src = py_strip (py_upper lsource) in
      if src \<noteq> ''SUPPLIER'' \<and> src \<noteq> ''INTERNAL''
      then Inl (HTTPException 422 ''invalid_lot_code_source'')
      else if src = ''SUPPLIER'' then
        (case lcode of
           None \<Rightarrow> Inl (HTTPException 422 ''supplier_lot_code_required'')
         | Some code \<Rightarrow>
             if py_strip code = [] then Inl (HTTPException 422 ''supplier_lot_code_required'')
             else if ip_expiry_policy pol = EXPIRY_REQUIRED \<and> pd = None
             then Inl (HTTPException 422 ''production_date_required_for_required_lot'')
             else bindE (catch_value_error
                 (\<lambda>s. if s = ''supplier_lot_legacy_key_conflict'' then HTTPException 409 s
                      else HTTPException 422 s)
                 (ensure_lot_full (ip_item_id pol) w code pd ed d)) (\<lambda>(n, d1).
               case find_lot d1 n of
                 None \<Rightarrow> Inl (HTTPException 500 ''lot_create_or_resolve_failed'')
               | Some l \<Rightarrow> if \<not> snapshot_equal l pol
                   then Inl (HTTPException 409 ''lot_snapshot_conflict'')
                   else Inr (lot_id l, d1)))
      else catch_value_error (HTTPException 422)
        (ensure_internal_lot_singleton (ip_item_id pol) w source_receipt_id source_line_no d))"

section \<open>lot\_resolve\_repo.py\<close>

definition infer_lot_code_source_from_policy :: "item_policy \<Rightarrow> string" where
  "infer_lot_code_source_from_policy pol =
     (if ip_lot_source_policy pol = SUPPLIER_ONLY then ''SUPPLIER'' else ''INTERNAL'')"

definition resolve_inbound_lot ::
  "int \<Rightarrow> item_policy \<Rightarrow> string option \<Rightarrow> date option \<Rightarrow> date option \<Rightarrow> int tx" where
  "resolve_inbound_lot w pol lcode pd ed d =
     (let src = infer_lot_code_source_from_policy pol in
      if src \<noteq> ''SUPPLIER''
      then resolve_or_create_lot w pol src None None None None None d
      else resolve_or_create_lot w pol src lcode pd ed None None d)"

section \<open>lot\_code\_contract.py\<close>

definition forbidden_fake_codes :: "string list" where
  "forbidden_fake_codes = [''NOEXP'', ''NEAR'', ''FAR'', ''IDEM'']"

definition http_422 :: "string \<Rightarrow> error" where
  "http_422 error_code = HTTPException 422 error_code"

definition normalize_optional_lot_code :: "string option \<Rightarrow> string option" where
  "normalize_optional_lot_code raw =
     (case raw of None \<Rightarrow> None
      | Some r \<Rightarrow> (let s = py_strip r in
          if s = [] then None else if py_lower s = ''none'' then None else Some s))"

definition validate_lot_code_contract :: "bool \<Rightarrow> string option \<Rightarrow> string option result" where
  "validate_lot_code_contract requires_batch lcode =
     (if requires_batch then
        (case normalize_optional_lot_code lcode of
           None \<Rightarrow> Inl (http_422 ''batch_required'')
         | Some s \<Rightarrow> if py_lower s = ''none'' then Inl (http_422 ''batch_invalid'') else Inr (Some s))
      else
        (case lcode of
           None \<Rightarrow> Inr None
         | Some c \<Rightarrow>
             (let raw = py_strip c in
              if raw = [] then Inl (http_422 ''batch_forbidden'')
              else if py_upper raw \<in> set forbidden_fake_codes \<or> py_lower raw = ''none''
              then Inl (http_422 ''batch_forbidden'')
              else Inl (http_422 ''batch_forbidden''))))"

definition requires_batch_from_expiry_policy :: "expiry_policy option \<Rightarrow> bool" where
  "requires_batch_from_expiry_policy p \<longleftrightarrow> p = Some EXPIRY_REQUIRED"

definition fetch_item_expiry_policy_map :: "db \<Rightarrow> int set \<Rightarrow> (int \<rightharpoonup> expiry_policy)" where
  "fetch_item_expiry_policy_map d ids =
     map_of [(it_id it, it_expiry_policy it). it \<leftarrow> t_items d, it_id it \<in> ids]"

definition fetch_item_by_sku :: "db \<Rightarrow> string \<Rightarrow> (int \<times> bool) option" where
  "fetch_item_by_sku d sku =
     (let s = py_strip sku in
      if s = [] then None
      else map_option (\<lambda>it. (it_id it, requires_batch_from_expiry_policy (Some (it_expiry_policy it))))
             (find (\<lambda>it. it_sku it = s) (t_items d)))"

section \<open>lot\_resolver.py and stock\_contract\_resolver.py\<close>

definition requires_batch :: "db \<Rightarrow> int \<Rightarrow> bool result" where
  "requires_batch d i =
     (case find_item (t_items d) i of
        None \<Rightarrow> Inl (ValueError ''item_not_found'')
      | Some it \<Rightarrow> Inr (it_expiry_policy it = EXPIRY_REQUIRED))"

definition ensure_supplier_lot_id ::
  "int \<Rightarrow> int \<Rightarrow> string \<Rightarrow> date option \<Rightarrow> date option \<Rightarrow> int tx" where
  "ensure_supplier_lot_id w i lcode pd ed d = ensure_lot_full i w lcode pd ed d"

definition ensure_internal_lot_id :: "int \<Rightarrow> int \<Rightarrow> int tx" where
  "ensure_internal_lot_id w i d = ensure_internal_lot_singleton i w None None d"

text \<open>\<open>lot_id or await ...\<close>: a given non-zero lot id wins.\<close>

definition resolve_lot_for_stock_adjust ::
  "int \<Rightarrow> int \<Rightarrow> string option \<Rightarrow> int option \<Rightarrow> date option \<Rightarrow> date option \<Rightarrow>
   (int \<times> string option) tx" where
  "resolve_lot_for_stock_adjust i w lcode lid pd ed d =
     bindE (requires_batch d i) (\<lambda>rb.
     bindE (validate_lot_code_contract rb lcode) (\<lambda>lot_code_norm.
     bindE (case lid of
              Some n \<Rightarrow> if n \<noteq> 0 then Inr (n, d)
                else (case lot_code_norm of None \<Rightarrow> ensure_internal_lot_id w i d
                      | Some c \<Rightarrow> ensure_supplier_lot_id w i c pd ed d)
            | None \<Rightarrow> (case lot_code_norm of None \<Rightarrow> ensure_internal_lot_id w i d
                      | Some c \<Rightarrow> ensure_supplier_lot_id w i c pd ed d)) (\<lambda>(n, d1).
     Inr ((n, lot_code_norm), d1))))"

section \<open>The well-formed lot table\<close>

text \<open>
  What the primary key, the check constraints, the two partial unique indexes and the foreign
  key to \<open>items\<close> make true of the table.
\<close>

definition lots_inv :: "db \<Rightarrow> bool" where
  "lots_inv d \<longleftrightarrow> distinct (map lot_id (t_lots d)) \<and>
     (\<forall>l \<in> set (t_lots d). lot_id l < t_next_id d LOTS) \<and>
     (\<forall>l \<in> set (t_lots d). lot_checks l) \<and>
     (\<forall>a \<in> set (t_lots d). \<forall>b \<in> set (t_lots d).
        required_lot_conflict a b \<or> internal_lot_conflict a b \<longrightarrow> lot_id a = lot_id b) \<and>
     (\<forall>l \<in> set (t_lots d). lot_item_id l \<in> it_id ` set (t_items d))"

lemma lots_invD:
  assumes "lots_inv d"
  shows "distinct (map lot_id (t_lots d))"
    and "x \<in> set (t_lots d) \<Longrightarrow> lot_id x < t_next_id d LOTS"
    and "x \<in> set (t_lots d) \<Longrightarrow> lot_checks x"
    and "x \<in> set (t_lots d) \<Longrightarrow> y \<in> set (t_lots d) \<Longrightarrow> required_lot_conflict x y \<Longrightarrow>
         lot_id x = lot_id y"
    and "x \<in> set (t_lots d) \<Longrightarrow> y \<in> set (t_lots d) \<Longrightarrow> internal_lot_conflict x y \<Longrightarrow>
         lot_id x = lot_id y"
    and "x \<in> set (t_lots d) \<Longrightarrow> lot_item_id x \<in> it_id ` set (t_items d)"
  using assms unfolding lots_inv_def by blast+

lemma lots_invI:
  assumes "distinct (map lot_id (t_lots d))"
    and "\<And>x. x \<in> set (t_lots d) \<Longrightarrow> lot_id x < t_next_id d LOTS"
    and "\<And>x. x \<in> set (t_lots d) \<Longrightarrow> lot_checks x"
    and "\<And>x y. x \<in> set (t_lots d) \<Longrightarrow> y \<in> set (t_lots d) \<Longrightarrow> required_lot_conflict x y \<Longrightarrow>
         lot_id x = lot_id y"
    and "\<And>x y. x \<in> set (t_lots d) \<Longrightarrow> y \<in> set (t_lots d) \<Longrightarrow> internal_lot_conflict x y \<Longrightarrow>
         lot_id x = lot_id y"
    and "\<And>x. x \<in> set (t_lots d) \<Longrightarrow> lot_item_id x \<in> it_id ` set (t_items d)"
  shows "lots_inv d"
  using assms unfolding lots_inv_def by blast

text \<open>
  What an operation on lots may do to the database: it touches no other table, it keeps every
  lot in place with all its columns, except that a missing expiry date may be filled in, and it
  adds new lots at the end.
\<close>

definition lot_le :: "lot \<Rightarrow> lot \<Rightarrow> bool" where
  "lot_le a b \<longleftrightarrow> b = a \<or> lot_expiry_date a = None \<and> (\<exists>e. b = a\<lparr>lot_expiry_date := Some e\<rparr>)"

definition lots_extend :: "lot list \<Rightarrow> lot list \<Rightarrow> bool" where
  "lots_extend xs ys \<longleftrightarrow> (\<exists>zs ns. ys = zs @ ns \<and> list_all2 lot_le xs zs)"

definition lots_grow :: "db \<Rightarrow> db \<Rightarrow> bool" where
  "lots_grow d d' \<longleftrightarrow>
     (\<exists>ls n. d' = d\<lparr>t_lots := ls, t_next_id := (t_next_id d)(LOTS := n)\<rparr>) \<and>
     lots_extend (t_lots d) (t_lots d') \<and> (lots_inv d \<longrightarrow> lots_inv d')"

lemma lot_le_refl [simp]: "lot_le a a"
  by (simp add: lot_le_def)

lemma lot_le_trans: "lot_le a b \<Longrightarrow> lot_le b c \<Longrightarrow> lot_le a c"
  by (auto simp: lot_le_def)

lemma lot_le_same:
  assumes "lot_le a b"
  shows "lot_id b = lot_id a" "lot_warehouse_id b = lot_warehouse_id a"
    "lot_item_id b = lot_item_id a" "lot_code_source b = lot_code_source a"
    "lot_code b = lot_code a" "lot_production_date b = lot_production_date a"
    "lot_expiry_policy_snapshot b = lot_expiry_policy_snapshot a"
  using assms by (auto simp: lot_le_def)

lemma lots_extend_refl [simp]: "lots_extend xs xs"
  unfolding lots_extend_def by (intro exI [of _ xs] exI [of _ "[]"]) (simp add: list_all2_same)

lemma lots_extend_append [simp]: "lots_extend xs (xs @ ns)"
  unfolding lots_extend_def by (intro exI [of _ xs] exI [of _ ns]) (simp add: list_all2_same)

lemma lots_extend_trans:
  assumes "lots_extend xs ys" and "lots_extend ys zs"
  shows "lots_extend xs zs"
proof -
  from assms(1) obtain as ns where y: "ys = as @ ns" and a: "list_all2 lot_le xs as"
    by (auto simp: lots_extend_def)
  from assms(2) obtain bs ms where z: "zs = bs @ ms" and b: "list_all2 lot_le ys bs"
    by (auto simp: lots_extend_def)
  from b y obtain bs1 bs2 where bs: "bs = bs1 @ bs2" and "list_all2 lot_le as bs1"
    by (auto simp: list_all2_append1)
  with a have "list_all2 lot_le xs bs1"
    using list_all2_trans [where ?P1.0 = lot_le and ?P2.0 = lot_le and ?P3.0 = lot_le] lot_le_trans
    by metis
  with z bs show ?thesis
    unfolding lots_extend_def by (intro exI [of _ bs1] exI [of _ "bs2 @ ms"]) simp
qed

interpretation lots_evo: evolution lots_grow
proof
  have "s = s\<lparr>t_lots := t_lots s, t_next_id := (t_next_id s)(LOTS := t_next_id s LOTS)\<rparr>" for s :: db
    by simp
  then show "lots_grow s s" for s unfolding lots_grow_def by (blast intro: lots_extend_refl)
next
  show "lots_grow s u" if "lots_grow s t" "lots_grow t u" for s t u
  proof -
    from that(1) obtain ls n where 1: "t = s\<lparr>t_lots := ls, t_next_id := (t_next_id s)(LOTS := n)\<rparr>"
      unfolding lots_grow_def by blast
    from that(2) obtain ls' n' where "u = t\<lparr>t_lots := ls', t_next_id := (t_next_id t)(LOTS := n')\<rparr>"
      unfolding lots_grow_def by blast
    then have "u = s\<lparr>t_lots := ls', t_next_id := (t_next_id s)(LOTS := n')\<rparr>"
      by (simp add: 1)
    with that show ?thesis unfolding lots_grow_def by (blast intro: lots_extend_trans)
  qed
qed

text \<open>The columns of other tables that a lot operation leaves alone.\<close>

lemma lots_grow_frame [row_simps]:
  assumes "lots_grow d d'"
  shows "t_items d' = t_items d" "t_item_uoms d' = t_item_uoms d"
    "t_item_barcodes d' = t_item_barcodes d" "t_stocks d' = t_stocks d"
    "t_ledger d' = t_ledger d" "t_events d' = t_events d"
    "t_inbound_lines d' = t_inbound_lines d" "t_outbound_lines d' = t_outbound_lines d"
    "t_orders d' = t_orders d" "t_order_lines d' = t_order_lines d"
    "t_manual_docs d' = t_manual_docs d" "t_manual_lines d' = t_manual_lines d"
    "t_count_docs d' = t_count_docs d" "t_count_lines d' = t_count_lines d"
    "t_count_snapshots d' = t_count_snapshots d" "t_completion d' = t_completion d"
    "t \<noteq> LOTS \<Longrightarrow> t_next_id d' t = t_next_id d t"
    "t_purchase_orders d' = t_purchase_orders d" "t_purchase_lines d' = t_purchase_lines d"
proof -
  from assms obtain ls n where "d' = d\<lparr>t_lots := ls, t_next_id := (t_next_id d)(LOTS := n)\<rparr>"
    unfolding lots_grow_def by blast
  then show "t_items d' = t_items d" "t_item_uoms d' = t_item_uoms d"
    "t_item_barcodes d' = t_item_barcodes d" "t_stocks d' = t_stocks d"
    "t_ledger d' = t_ledger d" "t_events d' = t_events d"
    "t_inbound_lines d' = t_inbound_lines d" "t_outbound_lines d' = t_outbound_lines d"
    "t_orders d' = t_orders d" "t_order_lines d' = t_order_lines d"
    "t_manual_docs d' = t_manual_docs d" "t_manual_lines d' = t_manual_lines d"
    "t_count_docs d' = t_count_docs d" "t_count_lines d' = t_count_lines d"
    "t_count_snapshots d' = t_count_snapshots d" "t_completion d' = t_completion d"
    "t \<noteq> LOTS \<Longrightarrow> t_next_id d' t = t_next_id d t"
    "t_purchase_orders d' = t_purchase_orders d" "t_purchase_lines d' = t_purchase_lines d"
    by simp_all
qed

lemma find_lot_in: "find_lot d n = Some l \<Longrightarrow> l \<in> set (t_lots d) \<and> lot_id l = n"
  unfolding find_lot_def by (drule find_SomeD) simp

lemma lots_inv_find:
  assumes "lots_inv d" and "l \<in> set (t_lots d)"
  shows "find_lot d (lot_id l) = Some l"
  unfolding find_lot_def using assms by (intro find_unique_key) (auto simp: lots_inv_def)

lemma list_all2_find:
  "list_all2 lot_le xs zs \<Longrightarrow> find (\<lambda>l. lot_id l = n) xs = Some l \<Longrightarrow>
   \<exists>l'. find (\<lambda>l. lot_id l = n) zs = Some l' \<and> lot_le l l'"
  by (induction rule: list_all2_induct) (auto simp: lot_le_same split: if_splits)

text \<open>A lot that exists keeps its identity for ever.\<close>

lemma lots_grow_find:
  assumes "lots_grow d d'" and "find_lot d n = Some l"
  shows "\<exists>l'. find_lot d' n = Some l' \<and> lot_le l l'"
proof -
  from assms(1) obtain zs ns where "t_lots d' = zs @ ns" and "list_all2 lot_le (t_lots d) zs"
    by (auto simp: lots_grow_def lots_extend_def)
  with list_all2_find [of "t_lots d" zs n l] assms(2) show ?thesis
    by (auto simp: find_lot_def find_append)
qed

lemma lots_grow_inv: "lots_grow d d' \<Longrightarrow> lots_inv d \<Longrightarrow> lots_inv d'"
  by (simp add: lots_grow_def)

section \<open>Every operation grows the table\<close>

lemma lots_growI:
  assumes "d' = d\<lparr>t_lots := ls, t_next_id := (t_next_id d)(LOTS := n)\<rparr>"
    and "lots_extend (t_lots d) ls" and "lots_inv d \<Longrightarrow> lots_inv d'"
  shows "lots_grow d d'"
  using assms unfolding lots_grow_def by auto

lemma lots_grow_bump: "lots_grow d (d\<lparr>t_next_id := (t_next_id d)(LOTS := t_next_id d LOTS + 1)\<rparr>)"
proof (rule lots_growI [where ls = "t_lots d" and n = "t_next_id d LOTS + 1"])
  assume "lots_inv d"
  note inv = lots_invD [OF this]
  show "lots_inv (d\<lparr>t_next_id := (t_next_id d)(LOTS := t_next_id d LOTS + 1)\<rparr>)"
    by (rule lots_invI) (use inv in \<open>auto dest: inv(2) intro: order_less_imp_le\<close>)
qed simp_all

lemma lots_grow_append:
  assumes "lot_id l = t_next_id d LOTS" and "lot_checks l"
    and "\<forall>x \<in> set (t_lots d). \<not> required_lot_conflict l x \<and> \<not> internal_lot_conflict l x"
    and "lot_item_id l \<in> it_id ` set (t_items d)"
  shows "lots_grow d (d\<lparr>t_next_id := (t_next_id d)(LOTS := t_next_id d LOTS + 1),
                        t_lots := t_lots d @ [l]\<rparr>)" (is "lots_grow d ?d'")
proof (rule lots_growI [where ls = "t_lots d @ [l]" and n = "t_next_id d LOTS + 1"])
  assume "lots_inv d"
  note inv = lots_invD [OF this]
  have sym: "required_lot_conflict x l = required_lot_conflict l x"
    "internal_lot_conflict x l = internal_lot_conflict l x" for x
    by (auto simp: required_lot_conflict_def internal_lot_conflict_def)
  have in_iff: "x \<in> set (t_lots ?d') \<longleftrightarrow> x \<in> set (t_lots d) \<or> x = l" for x by auto
  show "lots_inv ?d'"
  proof (rule lots_invI)
    have "lot_id l \<notin> lot_id ` set (t_lots d)" using inv(2) assms(1) by force
    then show "distinct (map lot_id (t_lots ?d'))" using inv(1) by simp
  next
    fix x assume "x \<in> set (t_lots ?d')"
    then show "lot_id x < t_next_id ?d' LOTS" "lot_checks x"
      "lot_item_id x \<in> it_id ` set (t_items ?d')"
      using inv(2,3,6) [of x] assms(1,2,4) unfolding in_iff by auto
  next
    fix x y assume "x \<in> set (t_lots ?d')" "y \<in> set (t_lots ?d')"
    then show "required_lot_conflict x y \<Longrightarrow> lot_id x = lot_id y"
      "internal_lot_conflict x y \<Longrightarrow> lot_id x = lot_id y"
      using inv(4,5) [of x y] assms(3) sym unfolding in_iff by auto
  qed
qed simp_all

lemma find_item_id: "find_item its i = Some it \<Longrightarrow> it \<in> set its \<and> it_id it = i"
  unfolding find_item_def by (drule find_SomeD) simp

lemma insert_internal_lot_grow:
  assumes "insert_internal_lot i w rid rln d = Inr (r, d')"
  shows "lots_grow d d'"
proof (cases "find_item (t_items d) i")
  case None
  with assms show ?thesis by (simp add: insert_internal_lot_def lots_evo.evo_refl)
next
  case (Some it)
  let ?l = "lot_row it (t_next_id d LOTS) w INTERNAL None None None rid rln"
  have l: "lot_id ?l = t_next_id d LOTS" "lot_item_id ?l \<in> it_id ` set (t_items d)"
    using find_item_id [OF Some] by (auto simp: lot_row_def)
  from assms Some show ?thesis
    by (auto simp: insert_internal_lot_def next_id_def Let_def lots_grow_bump
        intro!: lots_grow_append l split: if_splits)
qed

lemma insert_supplier_lot_grow:
  assumes "insert_supplier_lot i w code pd ed d = Inr (r, d')"
  shows "lots_grow d d'"
proof (cases "find_item (t_items d) i")
  case None
  with assms show ?thesis by (simp add: insert_supplier_lot_def lots_evo.evo_refl)
next
  case (Some it)
  let ?l = "lot_row it (t_next_id d LOTS) w SUPPLIER (Some code) (Some pd) (Some ed) None None"
  have l: "lot_id ?l = t_next_id d LOTS" "lot_item_id ?l \<in> it_id ` set (t_items d)"
    using find_item_id [OF Some] by (auto simp: lot_row_def)
  from assms Some show ?thesis
    by (auto simp: insert_supplier_lot_def next_id_def Let_def lots_grow_bump
        intro!: lots_grow_append l split: if_splits)
qed

lemma patch_lot_expiry_if_null_grow:
  assumes "patch_lot_expiry_if_null n ed d = Inr (u, d')"
  shows "lots_grow d d'"
proof (cases ed)
  case None
  with assms show ?thesis by (simp add: patch_lot_expiry_if_null_def lots_evo.evo_refl)
next
  case (Some e)
  let ?hit = "\<lambda>l. lot_id l = n \<and> lot_expiry_date l = None"
  let ?upd = "\<lambda>l. l\<lparr>lot_expiry_date := Some e\<rparr>"
  let ?L = "update_where ?hit ?upd (t_lots d)"
  have d': "d' = d\<lparr>t_lots := ?L\<rparr>"
    and ok: "\<And>l. l \<in> set (t_lots d) \<Longrightarrow> ?hit l \<Longrightarrow> lot_checks (?upd l)"
    using assms Some by (auto simp: patch_lot_expiry_if_null_def Let_def split: if_splits)
  have le: "list_all2 lot_le (t_lots d) ?L"
    by (auto simp: update_where_def list_all2_map2 list_all2_same lot_le_def)
  show ?thesis
  proof (rule lots_growI [where ls = ?L and n = "t_next_id d LOTS"])
    show "lots_extend (t_lots d) ?L" unfolding lots_extend_def using le by auto
  next
    assume "lots_inv d"
    note inv = lots_invD [OF this]
    have mid: "map lot_id ?L = map lot_id (t_lots d)" by (rule map_update_where) simp
    have old: "\<exists>x0 \<in> set (t_lots d). lot_le x0 x \<and> (x = x0 \<or> ?hit x0 \<and> x = ?upd x0)"
      if "x \<in> set ?L" for x
    proof -
      from that obtain r where r: "r \<in> set (t_lots d)" "x = (if ?hit r then ?upd r else r)"
        by (auto simp: in_set_update_where)
      have "lot_le r x \<and> (x = r \<or> ?hit r \<and> x = ?upd r)"
        unfolding r(2) lot_le_def by (cases "?hit r") (simp_all, blast)
      with r(1) show ?thesis by blast
    qed
    have con: "required_lot_conflict a b = required_lot_conflict a0 b0"
      "internal_lot_conflict a b = internal_lot_conflict a0 b0"
      if "lot_le a0 a" "lot_le b0 b" for a a0 b b0
      using that by (simp_all add: required_lot_conflict_def internal_lot_conflict_def
          required_lot_index_def internal_lot_index_def lot_le_same)
    show "lots_inv d'"
    proof (rule lots_invI)
      show "distinct (map lot_id (t_lots d'))" using inv(1) mid by (simp add: d')
    next
      fix x assume "x \<in> set (t_lots d')"
      then obtain x0 where x0: "x0 \<in> set (t_lots d)" "lot_le x0 x"
        "x = x0 \<or> ?hit x0 \<and> x = ?upd x0" using old [of x] by (auto simp: d')
      show "lot_id x < t_next_id d' LOTS" "lot_item_id x \<in> it_id ` set (t_items d')"
        using inv(2,6) [OF x0(1)] by (simp_all add: d' lot_le_same [OF x0(2)])
      show "lot_checks x" using x0(3) inv(3) [OF x0(1)] ok [OF x0(1)] by auto
    next
      fix x y assume xy: "x \<in> set (t_lots d')" "y \<in> set (t_lots d')"
      then obtain x0 y0 where 0: "x0 \<in> set (t_lots d)" "lot_le x0 x" "y0 \<in> set (t_lots d)"
        "lot_le y0 y" using old [of x] old [of y] by (auto simp: d')
      show "required_lot_conflict x y \<Longrightarrow> lot_id x = lot_id y"
        "internal_lot_conflict x y \<Longrightarrow> lot_id x = lot_id y"
        using inv(4,5) [OF 0(1,3)] by (simp_all add: con [OF 0(2,4)] lot_le_same [OF 0(2)]
            lot_le_same [OF 0(4)])
    qed
  qed (simp add: d')
qed

lemmas lot_write_grow = insert_internal_lot_grow insert_supplier_lot_grow
  patch_lot_expiry_if_null_grow

lemma ensure_internal_lot_singleton_grow [preserve_intros]:
  "ensure_internal_lot_singleton i w a b d = Inr (n, d') \<Longrightarrow> lots_grow d d'"
  by (auto simp: ensure_internal_lot_singleton_def res_simps lots_evo.evo_refl
      dest: insert_internal_lot_grow)

lemma ensure_lot_full_grow [preserve_intros]:
  assumes "ensure_lot_full i w code pd ed d = Inr (n, d')"
  shows "lots_grow d d'"
  using assms
  by (auto simp: ensure_lot_full_def res_simps lots_evo.evo_refl
      dest!: lot_write_grow intro: lots_evo.evo_trans)

lemma catch_value_error_Inr [simp, res_simps]: "catch_value_error h m = Inr x \<longleftrightarrow> m = Inr x"
  by (auto simp: catch_value_error_def split: sum.splits error.splits)

lemma resolve_or_create_lot_grow [preserve_intros]:
  assumes "resolve_or_create_lot w pol src code pd ed rid rln d = Inr (n, d')"
  shows "lots_grow d d'"
  using assms
  by (auto simp: resolve_or_create_lot_def Let_def res_simps
      dest!: ensure_lot_full_grow ensure_internal_lot_singleton_grow)

lemma resolve_inbound_lot_grow [preserve_intros]:
  "resolve_inbound_lot w pol code pd ed d = Inr (n, d') \<Longrightarrow> lots_grow d d'"
  by (auto simp: resolve_inbound_lot_def Let_def res_simps
      dest: resolve_or_create_lot_grow)

lemma resolve_lot_for_stock_adjust_grow [preserve_intros]:
  assumes "resolve_lot_for_stock_adjust i w code lid pd ed d = Inr (r, d')"
  shows "lots_grow d d'"
  using assms
  by (auto simp: resolve_lot_for_stock_adjust_def ensure_internal_lot_id_def
      ensure_supplier_lot_id_def res_simps lots_evo.evo_refl
      dest!: ensure_lot_full_grow ensure_internal_lot_singleton_grow)

section \<open>Which lot an operation returns\<close>

text \<open>The lot an id stands for lies in a given warehouse, for a given item.\<close>

definition lot_at :: "db \<Rightarrow> int \<Rightarrow> int \<Rightarrow> int \<Rightarrow> bool" where
  "lot_at d w i n \<longleftrightarrow>
     (\<exists>l. find_lot d n = Some l \<and> lot_warehouse_id l = w \<and> lot_item_id l = i)"

lemma lot_at_code [code]:
  "lot_at d w i n = (case find_lot d n of None \<Rightarrow> False
     | Some l \<Rightarrow> lot_warehouse_id l = w \<and> lot_item_id l = i)"
  by (auto simp: lot_at_def split: option.splits)

lemma assert_lot_belongs_to_Some:
  "assert_lot_belongs_to d w i (Some n) = Inr u \<longleftrightarrow> lot_at d w i n"
  by (auto simp: assert_lot_belongs_to_def lot_at_def split: option.splits)

lemma lots_grow_lot_at: "lots_grow d d' \<Longrightarrow> lot_at d w i n \<Longrightarrow> lot_at d' w i n"
  unfolding lot_at_def by (metis lots_grow_find lot_le_same(2,3))

lemma lot_atI: "lots_inv d \<Longrightarrow> l \<in> set (t_lots d) \<Longrightarrow> lot_id l = n \<Longrightarrow>
  lot_warehouse_id l = w \<Longrightarrow> lot_item_id l = i \<Longrightarrow> lot_at d w i n"
  unfolding lot_at_def using lots_inv_find [of d l] by auto

lemma supplier_lot_by_date_iff:
  assumes "lots_inv d"
  shows "get_supplier_lot_by_production_date d i w p = Some n \<longleftrightarrow>
    (\<exists>l \<in> set (t_lots d). lot_id l = n \<and> lot_warehouse_id l = w \<and> lot_item_id l = i \<and>
       lot_code_source l = SUPPLIER \<and> lot_production_date l = Some p)"
    (is "?L \<longleftrightarrow> (\<exists>l \<in> set (t_lots d). lot_id l = n \<and> ?P l)")
proof
  assume ?L
  then obtain l where "find ?P (t_lots d) = Some l" "lot_id l = n"
    by (auto simp: get_supplier_lot_by_production_date_def)
  then show "\<exists>l \<in> set (t_lots d). lot_id l = n \<and> ?P l" by (auto dest: find_SomeD)
next
  assume "\<exists>l \<in> set (t_lots d). lot_id l = n \<and> ?P l"
  then obtain l where l: "l \<in> set (t_lots d)" "lot_id l = n" "?P l" by blast
  then obtain m where m: "find ?P (t_lots d) = Some m"
    by (cases "find ?P (t_lots d)") (auto simp: find_None_iff_all)
  then have m': "m \<in> set (t_lots d)" "?P m" by (auto dest: find_SomeD)
  have "required_lot_conflict l m"
    using l m' lots_invD(3) [OF assms l(1)] lots_invD(3) [OF assms m'(1)]
    by (auto simp: required_lot_conflict_def required_lot_index_def lot_checks_def)
  with lots_invD(4) [OF assms l(1) m'(1)] l(2) m show ?L
    by (simp add: get_supplier_lot_by_production_date_def)
qed

lemma internal_lot_iff:
  assumes "lots_inv d"
  shows "get_internal_lot d i w = Some n \<longleftrightarrow>
    (\<exists>l \<in> set (t_lots d). lot_id l = n \<and> lot_warehouse_id l = w \<and> lot_item_id l = i \<and>
       lot_code_source l = INTERNAL \<and> lot_code l = None)"
    (is "?L \<longleftrightarrow> (\<exists>l \<in> set (t_lots d). lot_id l = n \<and> ?P l)")
proof
  assume ?L
  then obtain l where "find ?P (t_lots d) = Some l" "lot_id l = n"
    by (auto simp: get_internal_lot_def)
  then show "\<exists>l \<in> set (t_lots d). lot_id l = n \<and> ?P l" by (auto dest: find_SomeD)
next
  assume "\<exists>l \<in> set (t_lots d). lot_id l = n \<and> ?P l"
  then obtain l where l: "l \<in> set (t_lots d)" "lot_id l = n" "?P l" by blast
  then obtain m where m: "find ?P (t_lots d) = Some m"
    by (cases "find ?P (t_lots d)") (auto simp: find_None_iff_all)
  then have m': "m \<in> set (t_lots d)" "?P m" by (auto dest: find_SomeD)
  have "internal_lot_conflict l m"
    using l m' by (auto simp: internal_lot_conflict_def internal_lot_index_def)
  with lots_invD(5) [OF assms l(1) m'(1)] l(2) m show ?L
    by (simp add: get_internal_lot_def)
qed

lemma lots_grow_in:
  assumes "lots_grow d d'" and "l \<in> set (t_lots d)"
  shows "\<exists>l' \<in> set (t_lots d'). lot_le l l'"
proof -
  from assms(1) obtain zs ns where "t_lots d' = zs @ ns" and "list_all2 lot_le (t_lots d) zs"
    by (auto simp: lots_grow_def lots_extend_def)
  with assms(2) show ?thesis by (fastforce simp: list_all2_conv_all_nth in_set_conv_nth)
qed

lemma supplier_lot_persists:
  assumes "lots_inv d" and "lots_grow d d'"
    and "get_supplier_lot_by_production_date d i w p = Some n"
  shows "get_supplier_lot_by_production_date d' i w p = Some n"
proof -
  from assms(3) obtain l where l: "l \<in> set (t_lots d)" "lot_id l = n" "lot_warehouse_id l = w"
    "lot_item_id l = i" "lot_code_source l = SUPPLIER" "lot_production_date l = Some p"
    unfolding supplier_lot_by_date_iff [OF assms(1)] by blast
  from lots_grow_in [OF assms(2) l(1)] obtain l' where "l' \<in> set (t_lots d')" "lot_le l l'"
    by blast
  with l show ?thesis
    unfolding supplier_lot_by_date_iff [OF lots_grow_inv [OF assms(2,1)]]
    by (intro bexI [of _ l']) (simp_all add: lot_le_same [of l l'])
qed

lemma internal_lot_persists:
  assumes "lots_inv d" and "lots_grow d d'" and "get_internal_lot d i w = Some n"
  shows "get_internal_lot d' i w = Some n"
proof -
  from assms(3) obtain l where l: "l \<in> set (t_lots d)" "lot_id l = n" "lot_warehouse_id l = w"
    "lot_item_id l = i" "lot_code_source l = INTERNAL" "lot_code l = None"
    unfolding internal_lot_iff [OF assms(1)] by blast
  from lots_grow_in [OF assms(2) l(1)] obtain l' where "l' \<in> set (t_lots d')" "lot_le l l'"
    by blast
  with l show ?thesis
    unfolding internal_lot_iff [OF lots_grow_inv [OF assms(2,1)]]
    by (intro bexI [of _ l']) (simp_all add: lot_le_same [of l l'])
qed

lemma insert_internal_lot_Some:
  "lots_inv d \<Longrightarrow> insert_internal_lot i w rid rln d = Inr (Some n, d') \<Longrightarrow>
   get_internal_lot d' i w = Some n"
  using insert_internal_lot_grow [of i w rid rln d "Some n" d']
  by (auto simp: internal_lot_iff lots_grow_inv insert_internal_lot_def res_simps Let_def
      next_id_def lot_row_def dest: find_item_id)

lemma ensure_internal_lot_singleton_get:
  assumes "lots_inv d" and "ensure_internal_lot_singleton i w a b d = Inr (n, d')"
  shows "get_internal_lot d' i w = Some n"
  using assms(2) insert_internal_lot_Some [OF assms(1)]
  by (auto simp: ensure_internal_lot_singleton_def res_simps)

lemma insert_supplier_lot_Some:
  "lots_inv d \<Longrightarrow> insert_supplier_lot i w code p e d = Inr (Some n, d') \<Longrightarrow>
   get_supplier_lot_by_production_date d' i w p = Some n"
  using insert_supplier_lot_grow [of i w code p e d "Some n" d']
  by (auto simp: supplier_lot_by_date_iff lots_grow_inv insert_supplier_lot_def res_simps Let_def
      next_id_def lot_row_def dest: find_item_id)

lemma complete_lot_dates_production:
  "complete_lot_dates policy slv slu (Some p) ed = Inr (pd', ed') \<Longrightarrow> pd' = Some p"
  by (auto simp: complete_lot_dates_def res_simps split: option.splits if_splits)

lemma ensure_lot_full_get:
  assumes inv: "lots_inv d" and pol: "load_item_expiry_policy d i = Inr EXPIRY_REQUIRED"
    and r: "ensure_lot_full i w code (Some p) ed d = Inr (n, d')"
  shows "get_supplier_lot_by_production_date d' i w p = Some n"
proof -
  note persist = supplier_lot_persists [OF inv patch_lot_expiry_if_null_grow]
  have after: "get_supplier_lot_by_production_date d2 i w p = Some m"
    if "insert_supplier_lot i w c p e d = Inr (x, d1)"
      "get_supplier_lot_by_production_date d1 i w p = Some m"
      "patch_lot_expiry_if_null m e' d1 = Inr (u, d2)" for c e e' x d1 d2 m u
    using that insert_supplier_lot_grow patch_lot_expiry_if_null_grow
    by (blast intro: supplier_lot_persists lots_grow_inv inv)
  from r pol show ?thesis
    by (auto simp: ensure_lot_full_def load_item_expiry_policy_def res_simps
        dest!: complete_lot_dates_production
        intro: persist after insert_supplier_lot_Some [OF inv])
qed

lemma supplier_lot_by_date_at:
  "lots_inv d \<Longrightarrow> get_supplier_lot_by_production_date d i w p = Some n \<Longrightarrow> lot_at d w i n"
  unfolding supplier_lot_by_date_iff by (auto intro: lot_atI)

lemma internal_lot_at: "lots_inv d \<Longrightarrow> get_internal_lot d i w = Some n \<Longrightarrow> lot_at d w i n"
  unfolding internal_lot_iff by (auto intro: lot_atI)

lemma supplier_lot_ids_at:
  assumes "lots_inv d" and "get_supplier_lot_ids_by_lot_code d i w code = [n]"
  shows "lot_at d w i n"
proof -
  from assms(2) have "n \<in> set (get_supplier_lot_ids_by_lot_code d i w code)" by simp
  then obtain l where "l \<in> set (t_lots d)" "lot_id l = n" "lot_warehouse_id l = w"
    "lot_item_id l = i"
    unfolding get_supplier_lot_ids_by_lot_code_def by (auto dest!: in_set_takeD)
  then show ?thesis by (auto intro: lot_atI [OF assms(1)])
qed

lemma ensure_internal_lot_singleton_at:
  assumes "lots_inv d" and "ensure_internal_lot_singleton i w a b d = Inr (n, d')"
  shows "lot_at d' w i n"
  using internal_lot_at [OF lots_grow_inv [OF ensure_internal_lot_singleton_grow [OF assms(2)] assms(1)]]
    ensure_internal_lot_singleton_get [OF assms] by simp

lemma ensure_lot_full_at:
  assumes inv: "lots_inv d" and r: "ensure_lot_full i w code pd ed d = Inr (n, d')"
  shows "lot_at d' w i n"
proof -
  note patched = lots_grow_lot_at [OF patch_lot_expiry_if_null_grow]
  have ins: "lots_inv d1" if "insert_supplier_lot i w c p e d = Inr (x, d1)" for c p e x d1
    using lots_grow_inv [OF insert_supplier_lot_grow [OF that] inv] .
  from inv r show ?thesis
    by (auto simp: ensure_lot_full_def res_simps
        intro: patched supplier_lot_ids_at supplier_lot_by_date_at
          supplier_lot_by_date_at [OF ins] insert_supplier_lot_Some [OF inv])
qed

lemma resolve_or_create_lot_at:
  assumes "lots_inv d" and "resolve_or_create_lot w pol src code pd ed rid rln d = Inr (n, d')"
  shows "lot_at d' w (ip_item_id pol) n"
  using assms
  by (auto simp: resolve_or_create_lot_def Let_def res_simps dest!: find_lot_in
      intro: ensure_lot_full_at ensure_internal_lot_singleton_at)

lemma resolve_inbound_lot_at:
  "lots_inv d \<Longrightarrow> resolve_inbound_lot w pol code pd ed d = Inr (n, d') \<Longrightarrow>
   lot_at d' w (ip_item_id pol) n"
  by (auto simp: resolve_inbound_lot_def Let_def res_simps intro: resolve_or_create_lot_at)

section \<open>A sample database\<close>

text \<open>
  Four items, one of each kind the code distinguishes, for evaluating the operations: item 1
  needs supplier lots with dates (180 days), item 2 has no expiry, item 3 needs dates but allows
  internal lots only, item 4 has no expiry but allows supplier lots only.
\<close>

definition sample_item :: "int \<Rightarrow> string \<Rightarrow> lot_source_policy \<Rightarrow> expiry_policy \<Rightarrow> item" where
  "sample_item i sku lsp ep =
     \<lparr>it_id = i, it_sku = sku, it_name = sku, it_spec = None, it_lot_source_policy = lsp,
      it_expiry_policy = ep, it_derivation_allowed = True, it_uom_governance_enabled = False,
      it_shelf_life_value = (if ep = EXPIRY_REQUIRED then Some 180 else None),
      it_shelf_life_unit = (if ep = EXPIRY_REQUIRED then Some ''DAY'' else None), it_supplier_id = None\<rparr>"

definition sample_uom :: "int \<Rightarrow> int \<Rightarrow> string \<Rightarrow> int \<Rightarrow> item_uom" where
  "sample_uom u i name ratio =
     \<lparr>uo_id = u, uo_item_id = i, uo_uom = name, uo_ratio_to_base = ratio,
      uo_display_name = None, uo_is_base = (ratio = 1), uo_is_purchase_default = False\<rparr>"

definition sample_db :: db where
  "sample_db =
     \<lparr>t_items = [sample_item 1 ''MILK'' SUPPLIER_ONLY EXPIRY_REQUIRED,
                 sample_item 2 ''MUG'' INTERNAL_ONLY EXPIRY_NONE,
                 sample_item 3 ''SALAD'' INTERNAL_ONLY EXPIRY_REQUIRED,
                 sample_item 4 ''CABLE'' SUPPLIER_ONLY EXPIRY_NONE],
      t_item_uoms = [sample_uom 11 1 ''PCS'' 1, sample_uom 12 1 ''BOX'' 10,
                     sample_uom 21 2 ''PCS'' 1, sample_uom 31 3 ''PCS'' 1, sample_uom 41 4 ''PCS'' 1],
      t_item_barcodes = [], t_lots = [], t_stocks = [], t_ledger = [], t_events = [],
      t_inbound_lines = [], t_outbound_lines = [], t_orders = [], t_order_lines = [],
      t_manual_docs = [], t_manual_lines = [], t_count_docs = [], t_count_lines = [],
      t_count_snapshots = [], t_purchase_orders = [], t_purchase_lines = [], t_completion = [],
      t_next_id = (\<lambda>_. 1)\<rparr>"

lemma sample_db_lots_inv: "lots_inv sample_db"
  by (rule lots_invI) (simp_all add: sample_db_def)

section \<open>Properties\<close>

text \<open>
  C6. The identity of a \<open>REQUIRED\<close> lot is its production date: for one item and warehouse, two
  calls of \<open>ensure_lot_full\<close>, whatever other lot operations run in between and whatever lot
  codes and expiry dates the callers send, return the same lot exactly when their production
  dates are equal.
\<close>

theorem supplier_lot_identity:
  assumes "lots_inv d" and "load_item_expiry_policy d i = Inr EXPIRY_REQUIRED"
    and "ensure_lot_full i w code1 (Some p) ed1 d = Inr (n1, d1)" and "lots_grow d1 d2"
    and "ensure_lot_full i w code2 (Some q) ed2 d2 = Inr (n2, d3)"
  shows "n1 = n2 \<longleftrightarrow> p = q"
proof -
  have g: "lots_grow d d1" "lots_grow d2 d3" using assms(3,5) by (auto intro: preserve_intros)
  then have inv: "lots_inv d1" "lots_inv d2" "lots_inv d3"
    using assms(1,4) by (blast intro: lots_grow_inv)+
  have pol: "load_item_expiry_policy d2 i = Inr EXPIRY_REQUIRED"
    using assms(2) g(1) assms(4)
    by (simp add: load_item_expiry_policy_def load_item_expiry_context_def row_simps)
  have 1: "get_supplier_lot_by_production_date d3 i w p = Some n1"
    using supplier_lot_persists [OF inv(2) g(2) supplier_lot_persists [OF inv(1) assms(4)
        ensure_lot_full_get [OF assms(1-3)]]] .
  have 2: "get_supplier_lot_by_production_date d3 i w q = Some n2"
    by (rule ensure_lot_full_get [OF inv(2) pol assms(5)])
  show ?thesis
  proof
    assume "n1 = n2"
    with 1 2 obtain l m where "l \<in> set (t_lots d3)" "m \<in> set (t_lots d3)" "lot_id l = lot_id m"
      "lot_production_date l = Some p" "lot_production_date m = Some q"
      unfolding supplier_lot_by_date_iff [OF inv(3)] by auto
    then show "p = q" using lots_inv_find [OF inv(3)] by (metis option.inject)
  qed (use 1 2 in simp)
qed

lemma supplier_lot_identity_witness:
  "\<exists>n1 d1 n2 d3. ensure_lot_full 1 7 ''A'' (Some (Date 2024 1 1)) None sample_db = Inr (n1, d1) \<and>
     ensure_lot_full 1 7 ''B'' (Some (Date 2024 1 2)) None d1 = Inr (n2, d3) \<and> n1 \<noteq> n2"
proof -
  have pol: "load_item_expiry_policy sample_db 1 = Inr EXPIRY_REQUIRED" by code_simp
  have "returns (ensure_lot_full 1 7 ''A'' (Some (Date 2024 1 1)) None sample_db) (\<lambda>(_, d1).
      returns (ensure_lot_full 1 7 ''B'' (Some (Date 2024 1 2)) None d1) (\<lambda>_. True))"
    by code_simp
  then obtain n1 d1 n2 d3 where
    r1: "ensure_lot_full 1 7 ''A'' (Some (Date 2024 1 1)) None sample_db = Inr (n1, d1)" and
    r2: "ensure_lot_full 1 7 ''B'' (Some (Date 2024 1 2)) None d1 = Inr (n2, d3)"
    by (auto simp: returns_pair)
  have "n1 \<noteq> n2"
    using supplier_lot_identity [OF sample_db_lots_inv pol r1 lots_evo.evo_refl r2] by simp
  with r1 r2 show ?thesis by blast
qed

text \<open>
  \<open>ensure_internal_lot_singleton\<close> is idempotent: once it has returned a lot for an item and
  a warehouse, every later call returns the same lot and changes nothing, whatever provenance
  pair it is given and whatever lot operations ran in between.
\<close>

theorem internal_lot_singleton:
  assumes "lots_inv d" and "ensure_internal_lot_singleton i w a b d = Inr (n, d1)"
    and "lots_grow d1 d2" and "pair_or_null a' b' = Inr pr"
  shows "ensure_internal_lot_singleton i w a' b' d2 = Inr (n, d2)"
proof -
  have "lots_inv d1"
    using assms(1,2) by (blast intro: lots_grow_inv preserve_intros)
  then have "get_internal_lot d2 i w = Some n"
    by (rule internal_lot_persists [OF _ assms(3) ensure_internal_lot_singleton_get [OF assms(1,2)]])
  with assms(4) show ?thesis by (cases pr) (simp add: ensure_internal_lot_singleton_def)
qed

lemma internal_lot_singleton_witness:
  "\<exists>d1. ensure_internal_lot_singleton 2 7 None None sample_db = Inr (1, d1) \<and>
     ensure_internal_lot_singleton 2 7 (Some 5) (Some 1) d1 = Inr (1, d1)"
proof -
  have "returns (ensure_internal_lot_singleton 2 7 None None sample_db) (\<lambda>(n, _). n = 1)"
    by code_simp
  then obtain d1 where r: "ensure_internal_lot_singleton 2 7 None None sample_db = Inr (1, d1)"
    by (auto simp: returns_pair)
  have "pair_or_null (Some 5) (Some 1) = Inr (Some 5, Some 1)" by code_simp
  with internal_lot_singleton [OF sample_db_lots_inv r lots_evo.evo_refl] r show ?thesis by blast
qed

text \<open>
  C7. Resolving the lot of an inbound line keeps the lot table well-formed (keys, check
  constraints, both unique indexes, items), returns a lot of the warehouse and of the item the
  line is for, and leaves every existing lot as it was, but for a missing expiry date.
\<close>

theorem resolve_inbound_lot_sound:
  assumes "lots_inv d" and "resolve_inbound_lot w pol code pd ed d = Inr (n, d')"
  shows "lots_inv d' \<and> lot_at d' w (ip_item_id pol) n \<and>
    (\<forall>m l. find_lot d m = Some l \<longrightarrow> (\<exists>l'. find_lot d' m = Some l' \<and> lot_le l l'))"
  using resolve_inbound_lot_grow [OF assms(2)] assms
  by (auto intro: lots_grow_inv resolve_inbound_lot_at dest: lots_grow_find)

definition sample_policy :: "int \<Rightarrow> item_policy" where
  "sample_policy i = projr (map_item_to_policy (the (find_item (t_items sample_db) i)))"

lemma resolve_inbound_lot_sound_witness:
  "\<exists>n d'. resolve_inbound_lot 7 (sample_policy 1) (Some ''A'') (Some (Date 2024 1 1)) None
      sample_db = Inr (n, d') \<and> lots_inv d' \<and> lot_at d' 7 1 n"
proof -
  have "returns (resolve_inbound_lot 7 (sample_policy 1) (Some ''A'') (Some (Date 2024 1 1)) None
      sample_db) (\<lambda>_. True)" by code_simp
  then obtain n d' where
    r: "resolve_inbound_lot 7 (sample_policy 1) (Some ''A'') (Some (Date 2024 1 1)) None
      sample_db = Inr (n, d')"
    by (auto simp: returns_pair)
  have "ip_item_id (sample_policy 1) = 1" by code_simp
  with resolve_inbound_lot_sound [OF sample_db_lots_inv r] r show ?thesis by auto
qed

text \<open>
  Two combinations of the item's policies that the master data allows can never receive
  stock in a warehouse that has no lot of the item yet: a \<open>REQUIRED\<close> item with
  \<open>INTERNAL_ONLY\<close> lots, whose internal lot violates the check constraint on the production
  date, and an item without expiry with \<open>SUPPLIER_ONLY\<close> lots, for which \<open>ensure_lot_full\<close>
  creates nothing.
\<close>

theorem policies_that_cannot_receive:
  assumes "find_item (t_items d) (ip_item_id pol) = Some it" and "map_item_to_policy it = Inr pol"
    and "\<forall>l \<in> set (t_lots d). \<not> (lot_warehouse_id l = w \<and> lot_item_id l = ip_item_id pol)"
    and "it_expiry_policy it = EXPIRY_REQUIRED \<and> it_lot_source_policy it = INTERNAL_ONLY \<or>
         it_expiry_policy it = EXPIRY_NONE \<and> it_lot_source_policy it = SUPPLIER_ONLY"
  shows "\<exists>e. resolve_inbound_lot w pol code pd ed d = Inl e"
proof -
  have "get_internal_lot d (ip_item_id pol) w = None"
    using assms(3) by (auto simp: get_internal_lot_def find_None_iff_all)
  moreover have "get_supplier_lot_ids_by_lot_code d (ip_item_id pol) w c = []" for c
    using assms(3) by (auto simp: get_supplier_lot_ids_by_lot_code_def filter_empty_conv)
  moreover have "\<not> lot_checks (lot_row it n w INTERNAL None None None None None)"
    if "it_expiry_policy it = EXPIRY_REQUIRED" for n
    using that by (simp add: lot_row_def lot_checks_def)
  moreover have "py_strip (py_upper ''SUPPLIER'') = ''SUPPLIER''"
    "py_strip (py_upper ''INTERNAL'') = ''INTERNAL''" by code_simp+
  ultimately have "resolve_inbound_lot w pol code pd ed d \<noteq> Inr r" for r
    using assms(1,2,4)
    by (cases r) (auto simp: resolve_inbound_lot_def resolve_or_create_lot_def
        infer_lot_code_source_from_policy_def map_item_to_policy_def Let_def res_simps
        ensure_internal_lot_singleton_def pair_or_null_def insert_internal_lot_def next_id_def
        ensure_lot_full_def load_item_expiry_context_def)
  then show ?thesis by (cases "resolve_inbound_lot w pol code pd ed d") auto
qed

lemma policies_that_cannot_receive_witness:
  "\<exists>e. resolve_inbound_lot 7 (sample_policy 3) (Some ''A'') (Some (Date 2024 1 1)) None
      sample_db = Inl e"
proof (rule policies_that_cannot_receive)
  show "find_item (t_items sample_db) (ip_item_id (sample_policy 3)) =
      Some (sample_item 3 ''SALAD'' INTERNAL_ONLY EXPIRY_REQUIRED)" by code_simp
  show "map_item_to_policy (sample_item 3 ''SALAD'' INTERNAL_ONLY EXPIRY_REQUIRED) =
      Inr (sample_policy 3)"
    by code_simp
qed (simp_all add: sample_db_def sample_item_def)

end
