(* ===== verification/Ledger.thy ===== *)
theory Ledger
  imports Lots
begin

text \<open>
  The movement types of \<open>app/wms/shared/enums.py\<close> and the writer of the stock ledger,
  \<open>app/wms/ledger/services/ledger_writer.py\<close>.
\<close>

section \<open>MovementType\<close>

text \<open>
  A \<open>StrEnum\<close> whose members share four values: a member declared with a value already taken is
  an alias of the first one.
\<close>

datatype movement_type = RECEIPT | SHIPMENT | TRANSFER | ADJUSTMENT

fun movement_value :: "movement_type \<Rightarrow> string" where
  "movement_value RECEIPT = ''RECEIPT''"
| "movement_value SHIPMENT = ''SHIPMENT''"
| "movement_value TRANSFER = ''TRANSFER''"
| "movement_value ADJUSTMENT = ''ADJUSTMENT''"

definition movement_members :: "(string \<times> movement_type) list" where
  "movement_members =
     [(''RECEIPT'', RECEIPT), (''SHIPMENT'', SHIPMENT), (''TRANSFER'', TRANSFER),
      (''ADJUSTMENT'', ADJUSTMENT), (''RECEIVE'', RECEIPT), (''INBOUND'', RECEIPT),
      (''RETURN_IN'', RECEIPT), (''RETURN_CUSTOMER'', RECEIPT), (''RMA_IN'', RECEIPT),
      (''RETURN'', RECEIPT), (''PUTAWAY'', TRANSFER), (''MOVE'', TRANSFER),
      (''RELOCATE'', TRANSFER), (''TRANSFER_OUT'', TRANSFER), (''TRANSFER_IN'', TRANSFER),
      (''PICK'', ADJUSTMENT), (''PACK'', ADJUSTMENT), (''COUNT'', ADJUSTMENT),
      (''ADJUST'', ADJUSTMENT), (''SHIP'', SHIPMENT), (''SHIPMENT_ALIAS'', SHIPMENT),
      (''OUTBOUND'', SHIPMENT), (''DISPATCH'', SHIPMENT), (''RETURN_OUT'', SHIPMENT),
      (''RETURN_SUPPLIER'', SHIPMENT), (''RTV'', SHIPMENT), (''SCRAP'', ADJUSTMENT),
      (''CORRECT'', ADJUSTMENT)]"

section \<open>ledger\_writer.py\<close>

definition canon_reason :: "string \<Rightarrow> string option" where
  "canon_reason reason =
     (let r = py_upper (py_strip reason) in
      if r = [] then None
      else if r \<in> {''RECEIPT'', ''INBOUND'', ''RECEIVE'', ''RETURN'', ''RETURN_IN'',
                   ''RETURN_CUSTOMER'', ''RMA_IN''} then Some ''RECEIPT''
      else if r \<in> {''SHIPMENT'', ''SHIP'', ''OUTBOUND'', ''OUTBOUND_SHIP'', ''OUTBOUND_COMMIT'',
                   ''DISPATCH'', ''RETURN_OUT'', ''RTV''} then Some ''SHIPMENT''
      else if r \<in> {''ADJUSTMENT'', ''ADJUST'', ''COUNT'', ''PICK'', ''PACK'', ''SCRAP'',
                   ''CORRECT'', ''MANUAL_ADJUST''} then Some ''ADJUSTMENT''
      else None)"

definition need_patch ::
  "string option \<Rightarrow> string option \<Rightarrow> string option \<Rightarrow> int option \<Rightarrow> date option \<Rightarrow>
   date option \<Rightarrow> bool" where
  "need_patch rc sr tr ev pd ed \<longleftrightarrow>
     rc \<noteq> None \<or> sr \<noteq> None \<or> tr \<noteq> None \<or> ev \<noteq> None \<or> pd \<noteq> None \<or> ed \<noteq> None"

definition coalesce :: "'a option \<Rightarrow> 'a option \<Rightarrow> 'a option" where
  "coalesce a b = (case a of None \<Rightarrow> b | Some v \<Rightarrow> Some v)"

text \<open>The row the insert offers, with the dates removed unless it is a receipt.\<close>

definition ledger_values ::
  "int \<Rightarrow> int \<Rightarrow> int \<Rightarrow> string \<Rightarrow> string option \<Rightarrow> int \<Rightarrow> int \<Rightarrow> string \<Rightarrow> int \<Rightarrow> int \<Rightarrow>
   string option \<Rightarrow> int option \<Rightarrow> date option \<Rightarrow> date option \<Rightarrow> stock_ledger" where
  "ledger_values w i lid reason sub delta after ref rl ts tr ev pd ed =
     (let rc = canon_reason reason; keep = (rc = Some ''RECEIPT'') in
      \<lparr>lg_id = 0, lg_warehouse_id = w, lg_item_id = i, lg_lot_id = lid, lg_reason = reason,
       lg_reason_canon = rc, lg_sub_reason = sub, lg_ref = ref, lg_ref_line = rl,
       lg_delta = delta, lg_after_qty = after, lg_occurred_at = ts, lg_trace_id = tr,
       lg_event_id = ev, lg_production_date = (if keep then pd else None),
       lg_expiry_date = (if keep then ed else None)\<rparr>)"

definition ledger_row_ints :: "stock_ledger \<Rightarrow> bool" where
  "ledger_row_ints r \<longleftrightarrow> int4 (lg_delta r) \<and> int4 (lg_after_qty r) \<and> int4 (lg_ref_line r)"

text \<open>
  The foreign keys of the row: the lot in its warehouse and for its item, and the event.
\<close>

definition ledger_fks :: "db \<Rightarrow> stock_ledger \<Rightarrow> bool" where
  "ledger_fks d r \<longleftrightarrow> lot_at d (lg_warehouse_id r) (lg_item_id r) (lg_lot_id r) \<and>
     (case lg_event_id r of None \<Rightarrow> True | Some e \<Rightarrow> e \<in> ev_id ` set (t_events d))"

text \<open>
  \<open>INSERT ... ON CONFLICT DO NOTHING RETURNING id\<close>; on a conflict the second statement fills the
  columns of the existing row that are still null. The result is the new id, or 0.
\<close>

definition write_ledger :: "stock_ledger \<Rightarrow> int tx" where
  "write_ledger row d =
     bindE (assert_lot_belongs_to d (lg_warehouse_id row) (lg_item_id row) (Some (lg_lot_id row)))
       (\<lambda>_.
     if \<not> ledger_row_ints row then Inl (DataError ''integer out of range'')
     else
       (let (nid, d1) = next_id STOCK_LEDGER d in
        if ledger_key row \<notin> ledger_key ` set (t_ledger d) then
          (if ledger_fks d row
           then Inr (nid, d1\<lparr>t_ledger := t_ledger d1 @ [row\<lparr>lg_id := nid\<rparr>]\<rparr>)
           else Inl (IntegrityError ''fk_stock_ledger''))
        else if \<not> need_patch (lg_reason_canon row) (lg_sub_reason row) (lg_trace_id row)
                  (lg_event_id row) (lg_production_date row) (lg_expiry_date row)
        then Inr (0, d1)
        else
          (let patch = (\<lambda>r. r\<lparr>lg_reason_canon := coalesce (lg_reason_canon r) (lg_reason_canon row),
                 lg_sub_reason := coalesce (lg_sub_reason r) (lg_sub_reason row),
                 lg_trace_id := coalesce (lg_trace_id r) (lg_trace_id row),
                 lg_event_id := coalesce (lg_event_id r) (lg_event_id row),
                 lg_production_date := coalesce (lg_production_date r) (lg_production_date row),
                 lg_expiry_date := coalesce (lg_expiry_date r) (lg_expiry_date row)\<rparr>);
               hit = (\<lambda>r. ledger_key r = ledger_key row)
           in if \<exists>r \<in> set (t_ledger d). hit r \<and> \<not> ledger_fks d (patch r)
              then Inl (IntegrityError ''fk_stock_ledger'')
              else Inr (0, d1\<lparr>t_ledger := update_where hit patch (t_ledger d1)\<rparr>))))"

lemma ledger_values_sel [simp]:
  "lg_warehouse_id (ledger_values w i lid reason sub delta after ref rl ts tr ev pd ed) = w"
  "lg_item_id (ledger_values w i lid reason sub delta after ref rl ts tr ev pd ed) = i"
  "lg_lot_id (ledger_values w i lid reason sub delta after ref rl ts tr ev pd ed) = lid"
  "lg_delta (ledger_values w i lid reason sub delta after ref rl ts tr ev pd ed) = delta"
  "lg_after_qty (ledger_values w i lid reason sub delta after ref rl ts tr ev pd ed) = after"
  "lg_event_id (ledger_values w i lid reason sub delta after ref rl ts tr ev pd ed) = ev"
  "lg_ref_line (ledger_values w i lid reason sub delta after ref rl ts tr ev pd ed) = rl"
  "ledger_key (ledger_values w i lid reason sub delta after ref rl ts tr ev pd ed) =
     (reason, ref, rl, i, w, lid)"
  "ledger_slot (ledger_values w i lid reason sub delta after ref rl ts tr ev pd ed) = (w, i, lid)"
  by (simp_all add: ledger_values_def Let_def ledger_key_def ledger_slot_def)

text \<open>A ledger row carries dates only when it is a receipt.\<close>

definition dates_only_on_receipt :: "stock_ledger \<Rightarrow> bool" where
  "dates_only_on_receipt r \<longleftrightarrow> lg_reason_canon r = Some ''RECEIPT'' \<or>
     lg_production_date r = None \<and> lg_expiry_date r = None"

lemma ledger_values_dates [simp]:
  "dates_only_on_receipt (ledger_values w i lid reason sub delta after ref rl ts tr ev pd ed)"
  by (simp add: dates_only_on_receipt_def ledger_values_def Let_def)

lemma write_ledger_fresh:
  assumes "write_ledger row d = Inr (n, d')" and "ledger_key row \<notin> ledger_key ` set (t_ledger d)"
  shows "n = t_next_id d STOCK_LEDGER"
    and "d' = d\<lparr>t_next_id := (t_next_id d)(STOCK_LEDGER := n + 1),
                t_ledger := t_ledger d @ [row\<lparr>lg_id := n\<rparr>]\<rparr>"
    and "lot_at d (lg_warehouse_id row) (lg_item_id row) (lg_lot_id row)"
    and "ledger_row_ints row"
  using assms by (auto simp: write_ledger_def res_simps next_id_def Let_def ledger_fks_def)

text \<open>
  A write whose key is taken never adds a row and never changes the quantities, the key or a
  value that is already set.
\<close>

lemma write_ledger_conflict:
  assumes "write_ledger row d = Inr (n, d')" and "ledger_key row \<in> ledger_key ` set (t_ledger d)"
  shows "n = 0 \<and> map ledger_key (t_ledger d') = map ledger_key (t_ledger d) \<and>
    map lg_delta (t_ledger d') = map lg_delta (t_ledger d) \<and>
    map lg_after_qty (t_ledger d') = map lg_after_qty (t_ledger d) \<and> t_stocks d' = t_stocks d"
  using assms
  by (auto simp: write_ledger_def res_simps next_id_def Let_def ledger_key_def
      intro!: map_update_where)

section \<open>Properties\<close>

text \<open>
  The canonical reason of the writer agrees with the enum: the four values stored by
  \<open>MovementType\<close> are their own canonical reason, except that \<open>TRANSFER\<close> has none; canonising is
  idempotent; and every member name that has a canonical reason has the one of its value.
\<close>

theorem canon_reason_movement:
  "canon_reason (movement_value m) = (if m = TRANSFER then None else Some (movement_value m)) \<and>
   (canon_reason s = Some c \<longrightarrow> canon_reason c = Some c) \<and>
   (\<forall>(name, v) \<in> set movement_members.
      canon_reason name = None \<or> canon_reason name = Some (movement_value v))"
proof (intro conjI)
  have vals: "canon_reason ''RECEIPT'' = Some ''RECEIPT''" "canon_reason ''SHIPMENT'' = Some ''SHIPMENT''"
    "canon_reason ''ADJUSTMENT'' = Some ''ADJUSTMENT''" "canon_reason ''TRANSFER'' = None"
    by code_simp+
  then show "canon_reason (movement_value m) = (if m = TRANSFER then None else Some (movement_value m))"
    by (cases m) simp_all
  from vals show "canon_reason s = Some c \<longrightarrow> canon_reason c = Some c"
    by (auto simp: canon_reason_def [of s] Let_def split: if_splits)
  show "\<forall>(name, v) \<in> set movement_members.
      canon_reason name = None \<or> canon_reason name = Some (movement_value v)"
    by code_simp
qed

lemma canon_reason_movement_witness:
  "canon_reason ''SHIPMENT'' = Some ''SHIPMENT'' \<and> canon_reason (movement_value RECEIPT) = Some ''RECEIPT''"
proof -
  have "canon_reason ''outbound_ship '' = Some ''SHIPMENT''" by code_simp
  with canon_reason_movement [of RECEIPT "''outbound_ship ''" "''SHIPMENT''"] show ?thesis
    by auto
qed

end
