(* ===== verification/Stock.thy ===== *)
theory Stock
  imports Ledger
begin

text \<open>
  The inventory kernel, \<open>app/wms/stock/services/stock_adjust/\<close>: one request changes the balance
  of one slot \<open>(warehouse, item, lot)\<close> and writes one ledger row. \<open>adjust_lot_impl\<close> is split where
  the code stops reading and starts writing: \<open>adjust_prep\<close> ends with the idempotency check,
  \<open>adjust_apply\<close> starts with the slot. The display code loaded between the two
  (\<open>load_lot_code_for_lot_id\<close>) reaches no result and is left out.
\<close>

section \<open>meta.py, lot\_code\_keys.py\<close>

text \<open>The values of a \<open>meta\<close> dict the code tells apart. An empty dict is falsy like \<open>None\<close>.\<close>

datatype pyval = PNone | PBool bool | PInt int | PStr string

type_synonym meta = "(string \<times> pyval) list"

definition meta_get :: "meta \<Rightarrow> string \<Rightarrow> pyval" where
  "meta_get m key = (case map_of m key of None \<Rightarrow> PNone | Some v \<Rightarrow> v)"

definition meta_bool :: "meta \<Rightarrow> string \<Rightarrow> bool" where
  "meta_bool m key \<longleftrightarrow> meta_get m key = PBool True"

definition meta_str :: "meta \<Rightarrow> string \<Rightarrow> string option result" where
  "meta_str m key = (case meta_get m key of
       PNone \<Rightarrow> Inr None
     | PStr s \<Rightarrow> Inr (strip_or_none (Some s))
     | _ \<Rightarrow> Inl (ValueError ''meta must be str''))"

text \<open>Python's \<open>int(s)\<close>: white space around, a sign, digits with single underscores between.\<close>

definition digit_of :: "char \<Rightarrow> int option" where
  "digit_of c = (let n = (of_char c :: nat) in
     if 48 \<le> n \<and> n \<le> 57 then Some (int n - 48) else None)"

fun int_digits :: "int \<Rightarrow> string \<Rightarrow> int option" where
  "int_digits acc [] = Some acc"
| "int_digits acc [c] = map_option (\<lambda>k. 10 * acc + k) (digit_of c)"
| "int_digits acc (c # c2 # cs) = (case digit_of c of
       Some k \<Rightarrow> if c2 = CHR ''_'' then (if cs = [] then None else int_digits (10 * acc + k) cs)
                 else int_digits (10 * acc + k) (c2 # cs)
     | None \<Rightarrow> None)"

definition py_int_of_string :: "string \<Rightarrow> int option" where
  "py_int_of_string s = (case py_strip s of
       [] \<Rightarrow> None
     | c # cs \<Rightarrow> if c = CHR ''-'' then (if cs = [] then None else map_option uminus (int_digits 0 cs))
         else if c = CHR ''+'' then (if cs = [] then None else int_digits 0 cs)
         else int_digits 0 (c # cs))"

definition meta_int :: "meta \<Rightarrow> string \<Rightarrow> int option result" where
  "meta_int m key =
     (let positive = (\<lambda>iv. if 0 < iv then Some iv else None) in
      case meta_get m key of
        PNone \<Rightarrow> Inr None
      | PInt n \<Rightarrow> Inr (positive n)
      | PBool b \<Rightarrow> Inr (if b then Some 1 else None)
      | PStr s \<Rightarrow> (case py_int_of_string s of
           None \<Rightarrow> Inl (ValueError ''meta must be int'') | Some n \<Rightarrow> Inr (positive n)))"

definition norm_lot_code :: "string option \<Rightarrow> string option" where
  "norm_lot_code lcode = (case lcode of None \<Rightarrow> None
     | Some c \<Rightarrow> (let s = py_strip c in if s = [] \<or> py_lower s = ''none'' then None else Some s))"

section \<open>db\_items.py, date\_rules.py, idempotency.py\<close>

definition item_requires_batch :: "db \<Rightarrow> int \<Rightarrow> bool result" where
  "item_requires_batch d i = (case find_item (t_items d) i of
       None \<Rightarrow> Inl (ValueError ''item_not_found'')
     | Some it \<Rightarrow> Inr (it_expiry_policy it = EXPIRY_REQUIRED))"

definition resolve_and_validate_dates_for_inbound ::
  "db \<Rightarrow> int \<Rightarrow> int \<Rightarrow> string option \<Rightarrow> date option \<Rightarrow> date option \<Rightarrow>
   (date option \<times> date option) result" where
  "resolve_and_validate_dates_for_inbound d i delta lot_code_norm production_date expiry_date =
     (if lot_code_norm = None then Inr (None, None)
      else bindE (normalize_batch_dates_for_item (t_items d) i production_date expiry_date)
        (\<lambda>(pd, ed, _).
        if 0 < delta \<and> pd = None then Inl (ValueError ''production_date required'')
        else if 0 < delta \<and> ed = None then Inl (ValueError ''expiry_date required'')
        else (case (pd, ed) of
          (Some p, Some e) \<Rightarrow> if e < p then Inl (ValueError ''expiry_date < production_date'')
                             else Inr (pd, ed)
        | _ \<Rightarrow> Inr (pd, ed))))"

definition idem_hit_by_lot_key :: "db \<Rightarrow> ledger_key \<Rightarrow> bool" where
  "idem_hit_by_lot_key d k \<longleftrightarrow> k \<in> ledger_key ` set (t_ledger d)"

section \<open>stocks\_lot\_repo.py\<close>

definition slot_row :: "db \<Rightarrow> slot \<Rightarrow> stock_lot option" where
  "slot_row d s = find (\<lambda>r. stock_slot r = s) (t_stocks d)"

definition slot_qty :: "db \<Rightarrow> slot \<Rightarrow> int" where
  "slot_qty d s = (case slot_row d s of None \<Rightarrow> 0 | Some r \<Rightarrow> sl_qty r)"

definition ensure_stocks_lot_slot_exists :: "int \<Rightarrow> int \<Rightarrow> int \<Rightarrow> unit tx" where
  "ensure_stocks_lot_slot_exists i w lid d =
     (let (nid, d1) = next_id STOCKS_LOT d in
      if slot_row d (w, i, lid) \<noteq> None then Inr ((), d1)
      else if \<not> lot_at d w i lid then Inl (IntegrityError ''fk_stocks_lot_lot_dims'')
      else Inr ((), d1\<lparr>t_stocks := t_stocks d1 @
        [\<lparr>sl_id = nid, sl_warehouse_id = w, sl_item_id = i, sl_lot_id = lid, sl_qty = 0\<rparr>]\<rparr>))"

definition lock_stocks_lot_slot_for_update :: "int \<Rightarrow> int \<Rightarrow> int \<Rightarrow> db \<Rightarrow> (int \<times> int) result" where
  "lock_stocks_lot_slot_for_update i w lid d = (case slot_row d (w, i, lid) of
       None \<Rightarrow> Inl (ValueError ''stocks_lot slot missing'')
     | Some r \<Rightarrow> Inr (sl_id r, sl_qty r))"

definition apply_stocks_lot_set_qty :: "int \<Rightarrow> int \<Rightarrow> db \<Rightarrow> db" where
  "apply_stocks_lot_set_qty sid new_qty d =
     d\<lparr>t_stocks := update_where (\<lambda>r. sl_id r = sid) (\<lambda>r. r\<lparr>sl_qty := new_qty\<rparr>) (t_stocks d)\<rparr>"

section \<open>adjust\_lot\_impl.py\<close>

record adjust_req =
  aq_item_id :: int
  aq_warehouse_id :: int
  aq_lot_id :: "int option"
  aq_delta :: int
  aq_reason :: "string + movement_type"
  aq_ref :: string
  aq_ref_line :: "int option"
  aq_occurred_at :: "int option"
  aq_meta :: meta
  aq_lot_code :: "string option"
  aq_production_date :: "date option"
  aq_expiry_date :: "date option"
  aq_trace_id :: "string option"

definition reason_val :: "string + movement_type \<Rightarrow> string" where
  "reason_val r = (case r of Inl s \<Rightarrow> s | Inr m \<Rightarrow> movement_value m)"

text \<open>What the checks before the first write hand over to the writes.\<close>

record adjust_ctx =
  cx_lot_id :: int
  cx_ref_line :: int
  cx_ts :: int
  cx_sub_reason :: "string option"
  cx_event_id :: "int option"
  cx_production_date :: "date option"
  cx_expiry_date :: "date option"

text \<open>The returned dict: \<open>{idempotent: True, applied: False}\<close>, or the full one.\<close>

record adjust_result =
  ar_lot_id :: int
  ar_before :: int
  ar_delta :: int
  ar_after :: int
  ar_reason :: string
  ar_ref :: string
  ar_ref_line :: int
  ar_meta :: meta
  ar_occurred_at :: int
  ar_production_date :: "date option"
  ar_expiry_date :: "date option"

datatype adjust_out = Noop | Applied adjust_result

definition adjust_key :: "adjust_req \<Rightarrow> int \<Rightarrow> ledger_key" where
  "adjust_key q lid = (reason_val (aq_reason q), aq_ref q,
     (case aq_ref_line q of Some n \<Rightarrow> n | None \<Rightarrow> 1), aq_item_id q, aq_warehouse_id q, lid)"

definition adjust_check :: "int \<Rightarrow> adjust_req \<Rightarrow> db \<Rightarrow> adjust_ctx option result" where
  "adjust_check utc_now q d =
     (let rl = (case aq_ref_line q of Some n \<Rightarrow> n | None \<Rightarrow> 1);
          ts = (case aq_occurred_at q of Some t \<Rightarrow> t | None \<Rightarrow> utc_now);
          allow_zero = meta_bool (aq_meta q) ''allow_zero_delta_ledger'' in
      bindE (meta_str (aq_meta q) ''sub_reason'') (\<lambda>sub_reason.
      bindE (meta_int (aq_meta q) ''event_id'') (\<lambda>event_id.
      if aq_delta q = 0 \<and> \<not> allow_zero then Inr None
      else if aq_delta q = 0 \<and> allow_zero \<and> sub_reason = None
      then Inl (ValueError ''meta.sub_reason required for delta==0'')
      else (case aq_lot_id q of
        None \<Rightarrow> Inl (ValueError ''lot_id is required in lot-only world.'')
      | Some lid \<Rightarrow>
          bindE (item_requires_batch d (aq_item_id q)) (\<lambda>requires_batch.
          if requires_batch \<and> lid = 0 then Inl (ValueError ''lot_id required for REQUIRED item'')
          else
            bindE (assert_lot_belongs_to d (aq_warehouse_id q) (aq_item_id q) (Some lid)) (\<lambda>_.
            bindE (resolve_and_validate_dates_for_inbound d (aq_item_id q) (aq_delta q)
                     (norm_lot_code (aq_lot_code q)) (aq_production_date q) (aq_expiry_date q))
              (\<lambda>(pd, ed).
            Inr (Some \<lparr>cx_lot_id = lid, cx_ref_line = rl, cx_ts = ts,
              cx_sub_reason = sub_reason, cx_event_id = event_id,
              cx_production_date = pd, cx_expiry_date = ed\<rparr>))))))))"

definition adjust_prep :: "int \<Rightarrow> adjust_req \<Rightarrow> db \<Rightarrow> adjust_ctx option result" where
  "adjust_prep utc_now q d =
     bindE (adjust_check utc_now q d) (\<lambda>ctx. case ctx of
         None \<Rightarrow> Inr None
       | Some c \<Rightarrow> if idem_hit_by_lot_key d (adjust_key q (cx_lot_id c)) then Inr None else Inr (Some c))"

text \<open>\<open>dict.setdefault\<close>.\<close>

definition set_default :: "string \<Rightarrow> pyval \<Rightarrow> meta \<Rightarrow> meta" where
  "set_default key v m = (case map_of m key of None \<Rightarrow> m @ [(key, v)] | Some _ \<Rightarrow> m)"

definition adjust_meta_out :: "adjust_req \<Rightarrow> int option \<Rightarrow> meta" where
  "adjust_meta_out q event_id =
     (let m1 = (case aq_trace_id q of None \<Rightarrow> aq_meta q
            | Some t \<Rightarrow> if t = [] then aq_meta q else set_default ''trace_id'' (PStr t) (aq_meta q))
      in case event_id of None \<Rightarrow> m1 | Some e \<Rightarrow> set_default ''event_id'' (PInt e) m1)"

definition adjust_apply :: "adjust_req \<Rightarrow> adjust_ctx \<Rightarrow> adjust_out tx" where
  "adjust_apply q c d =
     bindE (ensure_stocks_lot_slot_exists (aq_item_id q) (aq_warehouse_id q) (cx_lot_id c) d)
       (\<lambda>(_, d1).
     bindE (lock_stocks_lot_slot_for_update (aq_item_id q) (aq_warehouse_id q) (cx_lot_id c) d1)
       (\<lambda>(lot_slot_id, before_qty).
     let new_qty = (if aq_delta q = 0 then before_qty else before_qty + aq_delta q) in
     if aq_delta q \<noteq> 0 \<and> new_qty < 0 then Inl (ValueError ''insufficient stock(lot)'')
     else
       bindE (write_ledger (ledger_values (aq_warehouse_id q) (aq_item_id q) (cx_lot_id c)
           (reason_val (aq_reason q)) (cx_sub_reason c) (aq_delta q) new_qty (aq_ref q)
           (cx_ref_line c) (cx_ts c) (aq_trace_id q) (cx_event_id c) (cx_production_date c)
           (cx_expiry_date c)) d1) (\<lambda>(_, d2).
       Inr (Applied \<lparr>ar_lot_id = cx_lot_id c, ar_before = before_qty, ar_delta = aq_delta q,
              ar_after = new_qty, ar_reason = reason_val (aq_reason q), ar_ref = aq_ref q,
              ar_ref_line = cx_ref_line c, ar_meta = adjust_meta_out q (cx_event_id c),
              ar_occurred_at = cx_ts c, ar_production_date = cx_production_date c,
              ar_expiry_date = cx_expiry_date c\<rparr>,
            if aq_delta q \<noteq> 0 then apply_stocks_lot_set_qty lot_slot_id new_qty d2 else d2))))"

definition adjust_lot_impl :: "int \<Rightarrow> adjust_req \<Rightarrow> adjust_out tx" where
  "adjust_lot_impl utc_now q d =
     bindE (adjust_prep utc_now q d) (\<lambda>ctx.
       case ctx of None \<Rightarrow> Inr (Noop, d) | Some c \<Rightarrow> adjust_apply q c d)"

text \<open>\<open>StockService.adjust_lot\<close> passes everything on; its clock is the argument.\<close>

definition adjust_lot :: "int \<Rightarrow> adjust_req \<Rightarrow> adjust_out tx" where
  "adjust_lot utc_now q d = adjust_lot_impl utc_now q d"

section \<open>stock\_availability\_service.py\<close>

definition get_available_for_item :: "db \<Rightarrow> int \<Rightarrow> int \<Rightarrow> int" where
  "get_available_for_item d w i =
     sum_where (\<lambda>s. sl_item_id s = i \<and> sl_warehouse_id s = w) sl_qty (t_stocks d)"

text \<open>The result dict, as the rows the query returns, in the order of the item ids.\<close>

definition get_available_for_items :: "db \<Rightarrow> int \<Rightarrow> int list \<Rightarrow> (int \<times> int) list" where
  "get_available_for_items d w item_ids =
     (let ids = filter (\<lambda>x. 0 < x) item_ids in
      map (\<lambda>i. (i, get_available_for_item d w i)) (sort ids))"

section \<open>The books\<close>

text \<open>
  The two books of the warehouse agree: the balance of every slot is the sum of the ledger rows
  of the slot and is not negative, every ledger row has a slot, the \<open>after_qty\<close> of a row is the
  running sum of its slot, keys are unique, slots belong to lots, and dates stand on receipts
  only.
\<close>

definition ledger_sum :: "stock_ledger list \<Rightarrow> slot \<Rightarrow> int" where
  "ledger_sum rows s = sum_where (\<lambda>r. ledger_slot r = s) lg_delta rows"

definition after_chain :: "stock_ledger list \<Rightarrow> bool" where
  "after_chain rows \<longleftrightarrow> (\<forall>k < length rows.
     lg_after_qty (rows ! k) = ledger_sum (take (Suc k) rows) (ledger_slot (rows ! k)))"

definition book_inv :: "db \<Rightarrow> bool" where
  "book_inv d \<longleftrightarrow>
     distinct (map sl_id (t_stocks d)) \<and>
     (\<forall>s \<in> set (t_stocks d). sl_id s < t_next_id d STOCKS_LOT) \<and>
     distinct (map stock_slot (t_stocks d)) \<and>
     distinct (map ledger_key (t_ledger d)) \<and>
     (\<forall>s \<in> set (t_stocks d). 0 \<le> sl_qty s \<and> sl_qty s = ledger_sum (t_ledger d) (stock_slot s)) \<and>
     (\<forall>r \<in> set (t_ledger d). ledger_slot r \<in> stock_slot ` set (t_stocks d)) \<and>
     (\<forall>s \<in> set (t_stocks d). lot_at d (sl_warehouse_id s) (sl_item_id s) (sl_lot_id s)) \<and>
     after_chain (t_ledger d) \<and>
     (\<forall>r \<in> set (t_ledger d). dates_only_on_receipt r)"

lemma book_invD:
  assumes "book_inv d"
  shows "distinct (map sl_id (t_stocks d))"
    and "s \<in> set (t_stocks d) \<Longrightarrow> sl_id s < t_next_id d STOCKS_LOT"
    and "distinct (map stock_slot (t_stocks d))"
    and "distinct (map ledger_key (t_ledger d))"
    and "s \<in> set (t_stocks d) \<Longrightarrow> 0 \<le> sl_qty s"
    and "s \<in> set (t_stocks d) \<Longrightarrow> sl_qty s = ledger_sum (t_ledger d) (stock_slot s)"
    and "r \<in> set (t_ledger d) \<Longrightarrow> ledger_slot r \<in> stock_slot ` set (t_stocks d)"
    and "s \<in> set (t_stocks d) \<Longrightarrow> lot_at d (sl_warehouse_id s) (sl_item_id s) (sl_lot_id s)"
    and "after_chain (t_ledger d)"
    and "r \<in> set (t_ledger d) \<Longrightarrow> dates_only_on_receipt r"
  using assms unfolding book_inv_def by blast+

lemma book_invI:
  assumes "distinct (map sl_id (t_stocks d))" and "distinct (map stock_slot (t_stocks d))"
    and "distinct (map ledger_key (t_ledger d))"
    and "\<And>s. s \<in> set (t_stocks d) \<Longrightarrow> sl_id s < t_next_id d STOCKS_LOT \<and> 0 \<le> sl_qty s \<and>
      sl_qty s = ledger_sum (t_ledger d) (stock_slot s) \<and>
      lot_at d (sl_warehouse_id s) (sl_item_id s) (sl_lot_id s)"
    and "\<And>r. r \<in> set (t_ledger d) \<Longrightarrow>
      ledger_slot r \<in> stock_slot ` set (t_stocks d) \<and> dates_only_on_receipt r"
    and "after_chain (t_ledger d)"
  shows "book_inv d"
  using assms unfolding book_inv_def by blast

lemma ledger_sum_append [simp]: "ledger_sum (xs @ ys) s = ledger_sum xs s + ledger_sum ys s"
  by (simp add: ledger_sum_def)

lemma ledger_sum_Nil [simp]: "ledger_sum [] s = 0"
  by (simp add: ledger_sum_def)

lemma ledger_sum_Cons [simp]:
  "ledger_sum (r # rs) s = (if ledger_slot r = s then lg_delta r else 0) + ledger_sum rs s"
  by (simp add: ledger_sum_def)

lemma after_chain_snoc:
  "after_chain (rows @ [r]) \<longleftrightarrow>
     after_chain rows \<and> lg_after_qty r = ledger_sum rows (ledger_slot r) + lg_delta r"
proof -
  have "(\<forall>k < length rows. lg_after_qty ((rows @ [r]) ! k) =
          ledger_sum (take (Suc k) (rows @ [r])) (ledger_slot ((rows @ [r]) ! k))) \<longleftrightarrow>
        after_chain rows"
    unfolding after_chain_def by (intro all_cong) (simp add: nth_append)
  moreover have "k < length (rows @ [r]) \<longleftrightarrow> k < length rows \<or> k = length rows" for k by auto
  ultimately show ?thesis
    unfolding after_chain_def [of "rows @ [r]"] by (auto simp: after_chain_def)
qed

text \<open>The balance of a slot, in and out of the table.\<close>

lemma slot_row_in: "slot_row d s = Some r \<Longrightarrow> r \<in> set (t_stocks d) \<and> stock_slot r = s"
  unfolding slot_row_def by (drule find_SomeD) simp

lemma slot_row_None: "slot_row d s = None \<longleftrightarrow> s \<notin> stock_slot ` set (t_stocks d)"
  by (auto simp: slot_row_def find_None_iff_all)

lemma slot_row_eq:
  assumes "book_inv d" and "r \<in> set (t_stocks d)"
  shows "slot_row d (stock_slot r) = Some r"
  unfolding slot_row_def using assms by (intro find_unique_key book_invD)

lemma slot_qty_ledger:
  assumes "book_inv d"
  shows "slot_qty d s = ledger_sum (t_ledger d) s"
proof (cases "slot_row d s")
  case None
  then have "\<forall>r \<in> set (t_ledger d). ledger_slot r \<noteq> s"
    using book_invD(7) [OF assms] by (auto simp: slot_row_None)
  with None show ?thesis by (simp add: slot_qty_def ledger_sum_def sum_where_none)
next
  case (Some r)
  with book_invD(6) [OF assms] show ?thesis by (auto simp: slot_qty_def dest: slot_row_in)
qed

lemma slot_qty_nonneg: "book_inv d \<Longrightarrow> 0 \<le> slot_qty d s"
  by (auto simp: slot_qty_def split: option.splits dest!: slot_row_in book_invD(5))

section \<open>Posting rows\<close>

text \<open>
  The contract of every operation that moves stock: it appends the given rows to the ledger,
  moves the balance of each slot by their sum, and keeps the books; lots and items stay.
\<close>

definition posts :: "db \<Rightarrow> stock_ledger list \<Rightarrow> db \<Rightarrow> bool" where
  "posts d rows d' \<longleftrightarrow> t_lots d' = t_lots d \<and> t_items d' = t_items d \<and>
     (book_inv d \<longrightarrow> book_inv d' \<and> t_ledger d' = t_ledger d @ rows)"

lemma lot_at_same_lots: "t_lots d' = t_lots d \<Longrightarrow> lot_at d' = lot_at d"
  by (intro ext) (simp add: lot_at_def find_lot_def)

lemma posts_inv: "posts d rows d' \<Longrightarrow> book_inv d \<Longrightarrow> book_inv d'"
  and posts_ledger: "posts d rows d' \<Longrightarrow> book_inv d \<Longrightarrow> t_ledger d' = t_ledger d @ rows"
  and posts_lots: "posts d rows d' \<Longrightarrow> t_lots d' = t_lots d"
  and posts_items: "posts d rows d' \<Longrightarrow> t_items d' = t_items d"
  by (simp_all add: posts_def)

lemma posts_qty:
  "posts d rows d' \<Longrightarrow> book_inv d \<Longrightarrow> slot_qty d' s = slot_qty d s + ledger_sum rows s"
  by (simp add: slot_qty_ledger posts_inv posts_ledger)

lemma posts_lots_inv:
  "posts d rows d' \<Longrightarrow> t_next_id d' LOTS = t_next_id d LOTS \<Longrightarrow> lots_inv d \<Longrightarrow> lots_inv d'"
  by (simp add: posts_def lots_inv_def)

interpretation posting: traced posts
proof
  show "posts s [] s" for s by (simp add: posts_def)
next
  show "posts s (xs @ ys) u" if "posts s xs t" "posts t ys u" for s xs t ys u
    using that by (simp add: posts_def)
qed

text \<open>A step that touches neither book, lots nor items posts nothing.\<close>

lemma posts_nothing:
  assumes "t_stocks d' = t_stocks d" and "t_ledger d' = t_ledger d" and "t_lots d' = t_lots d"
    and "t_items d' = t_items d" and "t_next_id d STOCKS_LOT \<le> t_next_id d' STOCKS_LOT"
  shows "posts d [] d'"
proof -
  have "book_inv d'" if "book_inv d"
    using that assms unfolding book_inv_def lot_at_same_lots [OF assms(3)] by fastforce
  with assms show ?thesis by (simp add: posts_def)
qed

text \<open>A new empty slot posts nothing either.\<close>

lemma posts_new_slot:
  assumes "slot_row d (stock_slot r) = None" and "sl_id r = t_next_id d STOCKS_LOT" and "sl_qty r = 0"
    and "lot_at d (sl_warehouse_id r) (sl_item_id r) (sl_lot_id r)"
    and "t_stocks d' = t_stocks d @ [r]" and "t_ledger d' = t_ledger d" and "t_lots d' = t_lots d"
    and "t_items d' = t_items d" and "t_next_id d' STOCKS_LOT = t_next_id d STOCKS_LOT + 1"
  shows "posts d [] d'"
proof -
  have "book_inv d'" if "book_inv d"
  proof -
    note inv = book_invD [OF that]
    have "ledger_sum (t_ledger d) (stock_slot r) = 0"
      using slot_qty_ledger [OF that, of "stock_slot r"] assms(1) by (simp add: slot_qty_def)
    moreover have "sl_id r \<notin> sl_id ` set (t_stocks d)" using inv(2) assms(2) by force
    moreover have "s \<in> set (t_stocks d') \<longleftrightarrow> s \<in> set (t_stocks d) \<or> s = r" for s
      using assms(5) by auto
    moreover have "\<forall>s \<in> set (t_stocks d). sl_id s < t_next_id d STOCKS_LOT + 1"
      using inv(2) by (meson less_trans less_add_one)
    ultimately show ?thesis
      using inv assms unfolding book_inv_def lot_at_same_lots [OF assms(7)]
      by (auto simp: slot_row_None)
  qed
  with assms show ?thesis by (simp add: posts_def)
qed

text \<open>One row and the balance of its slot.\<close>

lemma posts_row:
  assumes slot: "slot_row d (ledger_slot r) = Some s" and after: "lg_after_qty r = sl_qty s + lg_delta r"
    and "0 \<le> lg_after_qty r" and "ledger_key r \<notin> ledger_key ` set (t_ledger d)"
    and "dates_only_on_receipt r"
    and st: "t_stocks d' = update_where (\<lambda>x. stock_slot x = ledger_slot r)
           (\<lambda>x. x\<lparr>sl_qty := lg_after_qty r\<rparr>) (t_stocks d)" (is "_ = update_where ?p ?f _")
    and "t_ledger d' = t_ledger d @ [r]" and "t_lots d' = t_lots d"
    and "t_items d' = t_items d" and "t_next_id d' STOCKS_LOT = t_next_id d STOCKS_LOT"
  shows "posts d [r] d'"
proof -
  have "book_inv d'" if "book_inv d"
  proof -
    note inv = book_invD [OF that]
    have ids: "map sl_id (t_stocks d') = map sl_id (t_stocks d)"
      "map stock_slot (t_stocks d') = map stock_slot (t_stocks d)"
      unfolding st by (rule map_update_where, simp add: stock_slot_def)+
    then have slots: "stock_slot ` set (t_stocks d') = stock_slot ` set (t_stocks d)"
      by (metis list.set_map)
    have s: "s \<in> set (t_stocks d)" "stock_slot s = ledger_slot r"
      using slot_row_in [OF slot] by auto
    have sum: "ledger_sum (t_ledger d) (ledger_slot r) = sl_qty s" using inv(6) [OF s(1)] s(2) by simp
    have row: "sl_id x < t_next_id d' STOCKS_LOT \<and>
        0 \<le> sl_qty x \<and> sl_qty x = ledger_sum (t_ledger d') (stock_slot x) \<and>
        lot_at d' (sl_warehouse_id x) (sl_item_id x) (sl_lot_id x)" if "x \<in> set (t_stocks d')" for x
    proof -
      from that obtain y where y: "y \<in> set (t_stocks d)" "x = (if ?p y then ?f y else y)"
        by (auto simp: st in_set_update_where)
      then show ?thesis
        using inv(2,5,6,8) [OF y(1)] assms(3,7,10) after sum lot_at_same_lots [OF assms(8)]
        by (cases "?p y") (auto simp: stock_slot_def)
    qed
    have "ledger_slot r \<in> stock_slot ` set (t_stocks d)" using s by (metis imageI)
    with inv(7,10) assms(5,7) slots have rows: "ledger_slot x \<in> stock_slot ` set (t_stocks d') \<and>
        dates_only_on_receipt x" if "x \<in> set (t_ledger d')" for x
      using that by auto
    have new: "distinct (map sl_id (t_stocks d'))" "distinct (map stock_slot (t_stocks d'))"
      "distinct (map ledger_key (t_ledger d'))" "after_chain (t_ledger d')"
      using inv(1,3,4,9) ids assms(4,7) after sum by (simp_all add: after_chain_snoc)
    show ?thesis
    proof (rule book_invI [OF new(1,2,3)])
      show "after_chain (t_ledger d')" by (fact new(4))
    qed (erule row, erule rows)
  qed
  with assms show ?thesis by (simp add: posts_def)
qed

section \<open>What an adjustment does\<close>

lemma ensure_slot_posts:
  assumes "ensure_stocks_lot_slot_exists i w lid d = Inr (u, d1)"
  shows "posts d [] d1"
proof (cases "slot_row d (w, i, lid)")
  case None
  with assms show ?thesis
    by (auto simp: ensure_stocks_lot_slot_exists_def next_id_def Let_def stock_slot_def
        split: if_splits intro!: posts_new_slot
          [where r = "\<lparr>sl_id = t_next_id d STOCKS_LOT, sl_warehouse_id = w, sl_item_id = i,
                       sl_lot_id = lid, sl_qty = 0\<rparr>"])
next
  case (Some r)
  with assms show ?thesis
    by (auto simp: ensure_stocks_lot_slot_exists_def next_id_def Let_def intro!: posts_nothing)
qed

lemma update_slot_by_id:
  assumes "book_inv d" and "slot_row d s = Some r"
  shows "update_where (\<lambda>x. sl_id x = sl_id r) f (t_stocks d) =
    update_where (\<lambda>x. stock_slot x = s) f (t_stocks d)"
proof -
  have "sl_id x = sl_id r \<longleftrightarrow> stock_slot x = s" if "x \<in> set (t_stocks d)" for x
    using slot_row_in [OF assms(2)] that book_invD(1,3) [OF assms(1)]
    by (metis (no_types, lifting) distinct_map inj_onD)
  then show ?thesis by (simp add: update_where_def)
qed

lemma update_slot_same:
  assumes "book_inv d" and "slot_row d s = Some r"
  shows "update_where (\<lambda>x. stock_slot x = s) (\<lambda>x. x\<lparr>sl_qty := sl_qty r\<rparr>) (t_stocks d) = t_stocks d"
proof -
  have "x\<lparr>sl_qty := sl_qty r\<rparr> = x" if "x \<in> set (t_stocks d)" "stock_slot x = s" for x
    using slot_row_eq [OF assms(1) that(1)] that(2) assms(2) by simp
  then show ?thesis unfolding update_where_def by (simp add: map_idI)
qed

text \<open>The row an applied request writes.\<close>

definition adjust_row :: "adjust_req \<Rightarrow> adjust_ctx \<Rightarrow> int \<Rightarrow> int \<Rightarrow> stock_ledger" where
  "adjust_row q c before nid =
     ledger_values (aq_warehouse_id q) (aq_item_id q) (cx_lot_id c)
       (reason_val (aq_reason q)) (cx_sub_reason c) (aq_delta q) (before + aq_delta q) (aq_ref q)
       (cx_ref_line c) (cx_ts c) (aq_trace_id q) (cx_event_id c) (cx_production_date c)
       (cx_expiry_date c)\<lparr>lg_id := nid\<rparr>"

definition adjust_slot :: "adjust_req \<Rightarrow> int \<Rightarrow> slot" where
  "adjust_slot q lid = (aq_warehouse_id q, aq_item_id q, lid)"

lemma adjust_row_sel [simp]:
  "ledger_slot (adjust_row q c b n) = adjust_slot q (cx_lot_id c)"
  "lg_delta (adjust_row q c b n) = aq_delta q"
  "lg_after_qty (adjust_row q c b n) = b + aq_delta q"
  "dates_only_on_receipt (adjust_row q c b n)"
  "lg_ref (adjust_row q c b n) = aq_ref q"
  "lg_reason (adjust_row q c b n) = reason_val (aq_reason q)"
  "lg_ref_line (adjust_row q c b n) = cx_ref_line c"
  "lg_event_id (adjust_row q c b n) = cx_event_id c"
  by (simp_all add: adjust_row_def adjust_slot_def ledger_slot_def dates_only_on_receipt_def
      ledger_values_def Let_def)

lemma adjust_row_key [simp]:
  "ledger_key (adjust_row q c b n) = (reason_val (aq_reason q), aq_ref q, cx_ref_line c,
     aq_item_id q, aq_warehouse_id q, cx_lot_id c)"
  by (simp add: adjust_row_def ledger_key_def ledger_values_def Let_def)

lemma adjust_prep_Some:
  assumes "adjust_prep now q d = Inr (Some c)"
  shows "aq_lot_id q = Some (cx_lot_id c)" and "adjust_key q (cx_lot_id c) \<notin> ledger_key ` set (t_ledger d)"
    and "cx_ref_line c = (case aq_ref_line q of Some n \<Rightarrow> n | None \<Rightarrow> 1)"
    and "lot_at d (aq_warehouse_id q) (aq_item_id q) (cx_lot_id c)"
    and "meta_int (aq_meta q) ''event_id'' = Inr (cx_event_id c)"
  using assms
  by (auto simp: adjust_prep_def adjust_check_def Let_def res_simps idem_hit_by_lot_key_def
      assert_lot_belongs_to_Some split: if_splits)

lemma adjust_apply_Inr:
  assumes "adjust_apply q c d = Inr (out, d')" and "book_inv d"
    and "(reason_val (aq_reason q), aq_ref q, cx_ref_line c, aq_item_id q, aq_warehouse_id q, cx_lot_id c)
           \<notin> ledger_key ` set (t_ledger d)"
  defines "b \<equiv> slot_qty d (adjust_slot q (cx_lot_id c))"
  shows "posts d [adjust_row q c b (t_next_id d STOCK_LEDGER)] d'"
    and "\<exists>r. out = Applied r \<and> ar_before r = b \<and> ar_after r = b + aq_delta q \<and>
           ar_lot_id r = cx_lot_id c \<and> ar_delta r = aq_delta q"
proof -
  let ?s = "adjust_slot q (cx_lot_id c)"
  let ?n = "t_next_id d STOCK_LEDGER"
  let ?row = "adjust_row q c b ?n"
  from assms(1) obtain u d1 sid before n d2 where
    1: "ensure_stocks_lot_slot_exists (aq_item_id q) (aq_warehouse_id q) (cx_lot_id c) d = Inr (u, d1)" and
    2: "lock_stocks_lot_slot_for_update (aq_item_id q) (aq_warehouse_id q) (cx_lot_id c) d1
          = Inr (sid, before)" and
    nn: "aq_delta q \<noteq> 0 \<longrightarrow> 0 \<le> before + aq_delta q" and
    3: "write_ledger (ledger_values (aq_warehouse_id q) (aq_item_id q) (cx_lot_id c)
           (reason_val (aq_reason q)) (cx_sub_reason c) (aq_delta q) (before + aq_delta q) (aq_ref q)
           (cx_ref_line c) (cx_ts c) (aq_trace_id q) (cx_event_id c) (cx_production_date c)
           (cx_expiry_date c)) d1 = Inr (n, d2)" and
    4: "d' = (if aq_delta q \<noteq> 0 then apply_stocks_lot_set_qty sid (before + aq_delta q) d2 else d2)" and
    5: "\<exists>r. out = Applied r \<and> ar_before r = before \<and> ar_after r = before + aq_delta q \<and>
           ar_lot_id r = cx_lot_id c \<and> ar_delta r = aq_delta q"
    by (auto simp: adjust_apply_def res_simps Let_def split: if_splits)
  have p1: "posts d [] d1" by (rule ensure_slot_posts [OF 1])
  then have inv1: "book_inv d1" and led1: "t_ledger d1 = t_ledger d"
    using posts_inv posts_ledger assms(2) by fastforce+
  have nid: "t_next_id d1 STOCK_LEDGER = ?n"
    using 1 by (auto simp: ensure_stocks_lot_slot_exists_def next_id_def Let_def split: if_splits)
  from 2 obtain s where s: "slot_row d1 ?s = Some s" "sid = sl_id s" "before = sl_qty s"
    by (auto simp: lock_stocks_lot_slot_for_update_def adjust_slot_def split: option.splits)
  have b: "before = b"
    using posts_qty [OF p1 assms(2), of ?s] s by (simp add: b_def slot_qty_def)
  have fresh: "ledger_key (ledger_values (aq_warehouse_id q) (aq_item_id q) (cx_lot_id c)
           (reason_val (aq_reason q)) (cx_sub_reason c) (aq_delta q) (before + aq_delta q) (aq_ref q)
           (cx_ref_line c) (cx_ts c) (aq_trace_id q) (cx_event_id c) (cx_production_date c)
           (cx_expiry_date c)) \<notin> ledger_key ` set (t_ledger d1)"
    using assms(3) led1 by simp
  note w = write_ledger_fresh [OF 3 fresh]
  have d2: "d2 = d1\<lparr>t_next_id := (t_next_id d1)(STOCK_LEDGER := n + 1),
                    t_ledger := t_ledger d1 @ [?row]\<rparr>"
    using w(1,2) nid b by (simp add: adjust_row_def)
  have "t_stocks d' = update_where (\<lambda>x. stock_slot x = ?s)
      (\<lambda>x. x\<lparr>sl_qty := before + aq_delta q\<rparr>) (t_stocks d1)"
    using update_slot_by_id [OF inv1 s(1)] update_slot_same [OF inv1 s(1)] s(2,3)
    by (simp add: 4 d2 apply_stocks_lot_set_qty_def)
  moreover have "0 \<le> before + aq_delta q"
    using nn s(3) book_invD(5) [OF inv1] slot_row_in [OF s(1)] by (cases "aq_delta q = 0") auto
  moreover have "(reason_val (aq_reason q), aq_ref q, cx_ref_line c, aq_item_id q,
      aq_warehouse_id q, cx_lot_id c) \<notin> ledger_key ` set (t_ledger d1)"
    using assms(3) led1 by simp
  ultimately have "posts d1 [?row] d'"
    using s b by (intro posts_row [where s = s])
      (simp_all add: 4 d2 apply_stocks_lot_set_qty_def)
  with posting.traced_app [OF p1] show "posts d [?row] d'" by fastforce
  show "\<exists>r. out = Applied r \<and> ar_before r = b \<and> ar_after r = b + aq_delta q \<and>
           ar_lot_id r = cx_lot_id c \<and> ar_delta r = aq_delta q"
    using 5 b by simp
qed

lemma adjust_lot_cases:
  assumes "adjust_lot now q d = Inr (out, d')" and "book_inv d"
  obtains (noop) "out = Noop" "d' = d"
  | (posted) lid c r where "adjust_prep now q d = Inr (Some c)" "aq_lot_id q = Some lid"
      "cx_lot_id c = lid" "adjust_key q lid \<notin> ledger_key ` set (t_ledger d)"
      "posts d [adjust_row q c (slot_qty d (adjust_slot q lid)) (t_next_id d STOCK_LEDGER)] d'"
      "out = Applied r" "ar_before r = slot_qty d (adjust_slot q lid)"
      "ar_after r = slot_qty d (adjust_slot q lid) + aq_delta q" "ar_lot_id r = lid"
proof -
  from assms(1) consider "adjust_prep now q d = Inr None" "out = Noop" "d' = d"
    | c where "adjust_prep now q d = Inr (Some c)" "adjust_apply q c d = Inr (out, d')"
    by (auto simp: adjust_lot_def adjust_lot_impl_def res_simps)
  then show ?thesis
  proof cases
    case (2 c)
    note p = adjust_prep_Some [OF 2(1)]
    have "(reason_val (aq_reason q), aq_ref q, cx_ref_line c, aq_item_id q, aq_warehouse_id q,
        cx_lot_id c) \<notin> ledger_key ` set (t_ledger d)"
      using p(2) unfolding adjust_key_def p(3) .
    from adjust_apply_Inr [OF 2(2) assms(2) this] 2(1) p(1,2) show ?thesis
      by (auto intro: posted)
  qed (rule noop)
qed

text \<open>An adjustment writes the two books and their sequences, nothing else.\<close>

definition rest_of :: "db \<Rightarrow> _" where
  "rest_of d = (t_items d, t_item_uoms d, t_item_barcodes d, t_lots d, t_events d,
     t_inbound_lines d, t_outbound_lines d, t_orders d, t_order_lines d, t_manual_docs d,
     t_manual_lines d, t_count_docs d, t_count_lines d, t_count_snapshots d, t_completion d,
     t_purchase_orders d, t_purchase_lines d,
     \<lambda>t. if t = STOCKS_LOT \<or> t = STOCK_LEDGER then 0 else t_next_id d t)"

lemma rest_ofD [row_simps]:
  assumes "rest_of d' = rest_of d"
  shows "t_items d' = t_items d" "t_item_uoms d' = t_item_uoms d"
    "t_item_barcodes d' = t_item_barcodes d" "t_lots d' = t_lots d" "t_events d' = t_events d"
    "t_inbound_lines d' = t_inbound_lines d" "t_outbound_lines d' = t_outbound_lines d"
    "t_orders d' = t_orders d" "t_order_lines d' = t_order_lines d"
    "t_manual_docs d' = t_manual_docs d" "t_manual_lines d' = t_manual_lines d"
    "t_count_docs d' = t_count_docs d" "t_count_lines d' = t_count_lines d"
    "t_count_snapshots d' = t_count_snapshots d" "t_completion d' = t_completion d"
    "t \<noteq> STOCKS_LOT \<Longrightarrow> t \<noteq> STOCK_LEDGER \<Longrightarrow> t_next_id d' t = t_next_id d t"
    "t_purchase_orders d' = t_purchase_orders d" "t_purchase_lines d' = t_purchase_lines d"
  using assms by (auto simp: rest_of_def dest: fun_cong [where x = t])

lemma ensure_slot_rest: "ensure_stocks_lot_slot_exists i w lid d = Inr (u, d1) \<Longrightarrow> rest_of d1 = rest_of d"
  by (auto simp: ensure_stocks_lot_slot_exists_def next_id_def Let_def rest_of_def split: if_splits)

lemma write_ledger_rest: "write_ledger row d = Inr (n, d1) \<Longrightarrow> rest_of d1 = rest_of d"
  by (auto simp: write_ledger_def next_id_def Let_def rest_of_def res_simps split: if_splits)

lemma set_qty_rest [simp]: "rest_of (apply_stocks_lot_set_qty sid n d) = rest_of d"
  by (simp add: apply_stocks_lot_set_qty_def rest_of_def fun_eq_iff)

lemma adjust_lot_rest:
  assumes "adjust_lot now q d = Inr (out, d')"
  shows "rest_of d' = rest_of d"
  using assms
  by (auto simp: adjust_lot_def adjust_lot_impl_def adjust_apply_def res_simps Let_def
      dest!: ensure_slot_rest write_ledger_rest split: if_splits)

section \<open>The specification the kernel implements\<close>

text \<open>
  The abstract warehouse: a balance per slot and the set of the movements already booked, by
  their key. A movement is booked once; one that would make a balance negative is refused.
\<close>

type_synonym abs_books = "(slot \<Rightarrow> int) \<times> ledger_key set"

definition spec_adjust :: "ledger_key \<Rightarrow> slot \<Rightarrow> int \<Rightarrow> abs_books \<Rightarrow> abs_books option" where
  "spec_adjust k s delta b = (case b of (bal, keys) \<Rightarrow>
     if k \<in> keys then Some (bal, keys)
     else if bal s + delta < 0 then None
     else Some (bal(s := bal s + delta), insert k keys))"

definition abs_of :: "db \<Rightarrow> abs_books" where
  "abs_of d = (slot_qty d, ledger_key ` set (t_ledger d))"

text \<open>The quantities stay in their 32-bit columns and the event exists.\<close>

definition adjust_fits :: "adjust_req \<Rightarrow> adjust_ctx \<Rightarrow> db \<Rightarrow> bool" where
  "adjust_fits q c d \<longleftrightarrow> int4 (aq_delta q) \<and> int4 (cx_ref_line c) \<and>
     int4 (slot_qty d (adjust_slot q (cx_lot_id c)) + aq_delta q) \<and>
     (case cx_event_id c of None \<Rightarrow> True | Some e \<Rightarrow> e \<in> ev_id ` set (t_events d))"

lemma ensure_slot_total:
  assumes "lot_at d w i lid"
  shows "\<exists>d1 r. ensure_stocks_lot_slot_exists i w lid d = Inr ((), d1) \<and>
    slot_row d1 (w, i, lid) = Some r \<and> sl_qty r = slot_qty d (w, i, lid) \<and> t_ledger d1 = t_ledger d"
proof (cases "slot_row d (w, i, lid)")
  case (Some r)
  then show ?thesis
    by (simp add: ensure_stocks_lot_slot_exists_def next_id_def slot_qty_def slot_row_def)
next
  case None
  with assms show ?thesis
    by (simp add: ensure_stocks_lot_slot_exists_def next_id_def slot_qty_def slot_row_def
        find_append stock_slot_def)
qed

lemma adjust_apply_short:
  assumes "lot_at d (aq_warehouse_id q) (aq_item_id q) (cx_lot_id c)" and "aq_delta q \<noteq> 0"
    and "slot_qty d (adjust_slot q (cx_lot_id c)) + aq_delta q < 0"
  shows "adjust_apply q c d = Inl (ValueError ''insufficient stock(lot)'')"
  using ensure_slot_total [OF assms(1)] assms(2,3)
  by (auto simp: adjust_apply_def lock_stocks_lot_slot_for_update_def adjust_slot_def)

lemma write_ledger_total:
  assumes "ledger_key row \<notin> ledger_key ` set (t_ledger d)" and "ledger_fks d row"
    and "ledger_row_ints row"
  shows "\<exists>n d'. write_ledger row d = Inr (n, d')"
  using assms assert_lot_belongs_to_Some [of d "lg_warehouse_id row" "lg_item_id row" "lg_lot_id row"]
  by (auto simp: write_ledger_def ledger_fks_def next_id_def)

lemma adjust_apply_total:
  assumes at: "lot_at d (aq_warehouse_id q) (aq_item_id q) (cx_lot_id c)"
    and fresh: "(reason_val (aq_reason q), aq_ref q, cx_ref_line c, aq_item_id q, aq_warehouse_id q,
        cx_lot_id c) \<notin> ledger_key ` set (t_ledger d)"
    and fits: "adjust_fits q c d" and "0 \<le> slot_qty d (adjust_slot q (cx_lot_id c)) + aq_delta q"
  shows "\<exists>out d'. adjust_apply q c d = Inr (out, d')"
proof -
  from ensure_slot_total [OF at] obtain d1 r where
    1: "ensure_stocks_lot_slot_exists (aq_item_id q) (aq_warehouse_id q) (cx_lot_id c) d = Inr ((), d1)"
      "slot_row d1 (adjust_slot q (cx_lot_id c)) = Some r"
      "sl_qty r = slot_qty d (adjust_slot q (cx_lot_id c))" "t_ledger d1 = t_ledger d"
    unfolding adjust_slot_def by blast
  let ?row = "ledger_values (aq_warehouse_id q) (aq_item_id q) (cx_lot_id c)
           (reason_val (aq_reason q)) (cx_sub_reason c) (aq_delta q) (sl_qty r + aq_delta q) (aq_ref q)
           (cx_ref_line c) (cx_ts c) (aq_trace_id q) (cx_event_id c) (cx_production_date c)
           (cx_expiry_date c)"
  note rest = rest_ofD(4,5) [OF ensure_slot_rest [OF 1(1)]]
  have fk: "ledger_fks d1 ?row"
    using fits at unfolding ledger_fks_def lot_at_same_lots [OF rest(1)] rest(2)
    by (simp add: adjust_fits_def)
  have ints: "ledger_row_ints ?row" using fits 1(3) by (simp add: adjust_fits_def ledger_row_ints_def)
  have new: "ledger_key ?row \<notin> ledger_key ` set (t_ledger d1)" using fresh 1(4) by simp
  obtain n d2 where 2: "write_ledger ?row d1 = Inr (n, d2)"
    using write_ledger_total [OF new fk ints] by blast
  have 3: "lock_stocks_lot_slot_for_update (aq_item_id q) (aq_warehouse_id q) (cx_lot_id c) d1 =
      Inr (sl_id r, sl_qty r)"
    using 1(2) by (simp add: lock_stocks_lot_slot_for_update_def adjust_slot_def)
  have 4: "(if aq_delta q = 0 then sl_qty r else sl_qty r + aq_delta q) = sl_qty r + aq_delta q"
    by simp
  have 5: "\<not> (aq_delta q \<noteq> 0 \<and> sl_qty r + aq_delta q < 0)" using assms(4) 1(3) by linarith
  show ?thesis
    unfolding adjust_apply_def 1(1) bindE_Inr prod.case 3 Let_def 4 if_not_P [OF 5] 2 by blast
qed

section \<open>Idempotence\<close>

text \<open>
  The interface of an idempotent writer. \<open>settled d q\<close> says that request \<open>q\<close> has nothing left to
  do in state \<open>d\<close>; \<open>le\<close> is how states may develop, \<open>inv\<close> what they keep.
\<close>

locale idempotent_writer =
  fixes run :: "'q \<Rightarrow> 'd \<Rightarrow> error + ('o \<times> 'd)"
    and inv :: "'d \<Rightarrow> bool" and le :: "'d \<Rightarrow> 'd \<Rightarrow> bool" and settled :: "'d \<Rightarrow> 'q \<Rightarrow> bool"
  assumes le_refl: "le d d"
    and le_trans: "le d e \<Longrightarrow> le e f \<Longrightarrow> le d f"
    and run_inv: "inv d \<Longrightarrow> run q d = Inr (x, d') \<Longrightarrow> inv d'"
    and run_le: "inv d \<Longrightarrow> run q d = Inr (x, d') \<Longrightarrow> le d d'"
    and run_settles: "inv d \<Longrightarrow> run q d = Inr (x, d') \<Longrightarrow> settled d' q"
    and settled_le: "settled d q \<Longrightarrow> le d d' \<Longrightarrow> settled d' q"
    and settled_run: "settled d q \<Longrightarrow> \<exists>x. run q d = Inr (x, d)"
begin

lemma batch_settles:
  "inv d \<Longrightarrow> mapE run qs d = Inr (xs, d') \<Longrightarrow> inv d' \<and> le d d' \<and> (\<forall>q \<in> set qs. settled d' q)"
proof (induction qs arbitrary: d xs)
  case Nil
  then show ?case by (simp add: le_refl)
next
  case (Cons q qs)
  from Cons.prems(2) obtain x e ys where r: "run q d = Inr (x, e)" "mapE run qs e = Inr (ys, d')"
    by (auto simp: res_simps simp del: mapE.simps)
  note step = run_inv [OF Cons.prems(1) r(1)] run_le [OF Cons.prems(1) r(1)]
    run_settles [OF Cons.prems(1) r(1)]
  from Cons.IH [OF step(1) r(2)] step show ?case by (auto intro: le_trans settled_le)
qed

lemma settled_batch: "\<forall>q \<in> set qs. settled d q \<Longrightarrow> \<exists>xs. mapE run qs d = Inr (xs, d)"
proof (induction qs)
  case (Cons q qs)
  then obtain x xs where "run q d = Inr (x, d)" "mapE run qs d = Inr (xs, d)"
    using settled_run by (metis list.set_intros)
  then show ?case by simp
qed simp

text \<open>A batch that has run may be run again at any later time: nothing changes.\<close>

lemma batch_replay:
  assumes "inv d" and "mapE run qs d = Inr (xs, d')" and "le d' e"
  shows "\<exists>ys. mapE run qs e = Inr (ys, e)"
  using batch_settles [OF assms(1,2)] assms(3) by (blast intro: settled_batch settled_le)

end

text \<open>How the warehouse develops: booked movements stay booked, lots and items stay.\<close>

definition warehouse_le :: "db \<Rightarrow> db \<Rightarrow> bool" where
  "warehouse_le d d' \<longleftrightarrow> t_items d' = t_items d \<and>
     ledger_key ` set (t_ledger d) \<subseteq> ledger_key ` set (t_ledger d') \<and>
     (\<forall>w i n. lot_at d w i n \<longrightarrow> lot_at d' w i n)"

definition adjust_settled :: "int \<Rightarrow> db \<Rightarrow> adjust_req \<Rightarrow> bool" where
  "adjust_settled now d q \<longleftrightarrow> adjust_prep now q d = Inr None"

text \<open>The checks that come before the idempotency check read only what stays.\<close>

lemma adjust_check_later:
  assumes "adjust_check now q d = Inr x" and "warehouse_le d d'"
  shows "adjust_check now q d' = Inr x"
proof (cases "aq_lot_id q")
  case None
  with assms(1) show ?thesis by (simp add: adjust_check_def cong: if_cong)
next
  case (Some lid)
  have "t_items d' = t_items d" using assms(2) by (simp add: warehouse_le_def)
  then have same: "item_requires_batch d' = item_requires_batch d"
    "resolve_and_validate_dates_for_inbound d' = resolve_and_validate_dates_for_inbound d"
    by (simp_all add: item_requires_batch_def resolve_and_validate_dates_for_inbound_def fun_eq_iff)
  show ?thesis
  proof (cases "lot_at d (aq_warehouse_id q) (aq_item_id q) lid")
    case True
    then have "lot_at d' (aq_warehouse_id q) (aq_item_id q) lid"
      using assms(2) by (simp add: warehouse_le_def)
    with True have "assert_lot_belongs_to d' (aq_warehouse_id q) (aq_item_id q) (Some lid) =
        assert_lot_belongs_to d (aq_warehouse_id q) (aq_item_id q) (Some lid)"
      using assert_lot_belongs_to_Some by (metis old.unit.exhaust)
    with assms(1) Some show ?thesis by (simp add: adjust_check_def same cong: if_cong)
  next
    case False
    then have "assert_lot_belongs_to d (aq_warehouse_id q) (aq_item_id q) (Some lid) \<noteq> Inr u" for u
      using assert_lot_belongs_to_Some by simp
    with assms(1) Some show ?thesis
      by (auto simp: adjust_check_def Let_def res_simps split: if_splits)
  qed
qed

lemma adjust_prep_later:
  assumes "adjust_prep now q d = Inr ctx" and "warehouse_le d d'"
    and "\<And>c. ctx = Some c \<Longrightarrow> adjust_key q (cx_lot_id c) \<in> ledger_key ` set (t_ledger d')"
  shows "adjust_prep now q d' = Inr None"
proof -
  from assms(1) obtain x where x: "adjust_check now q d = Inr x"
    by (auto simp: adjust_prep_def res_simps)
  have keys: "ledger_key ` set (t_ledger d) \<subseteq> ledger_key ` set (t_ledger d')"
    using assms(2) by (simp add: warehouse_le_def)
  from assms(1,3) keys show ?thesis
    unfolding adjust_prep_def adjust_check_later [OF x assms(2)] x bindE_Inr
    by (cases x) (auto simp: idem_hit_by_lot_key_def split: if_splits)
qed

lemma warehouse_le_refl: "warehouse_le d d"
  by (simp add: warehouse_le_def)

lemma warehouse_le_trans:
  assumes "warehouse_le d e" and "warehouse_le e f" shows "warehouse_le d f"
proof -
  have "ledger_key ` set (t_ledger d) \<subseteq> ledger_key ` set (t_ledger f)"
    using assms unfolding warehouse_le_def by (meson subset_trans)
  with assms show ?thesis by (simp add: warehouse_le_def)
qed

lemma posts_warehouse_le:
  assumes "posts d rows d'" and "book_inv d" shows "warehouse_le d d'"
  unfolding warehouse_le_def posts_items [OF assms(1)] posts_ledger [OF assms]
    lot_at_same_lots [OF posts_lots [OF assms(1)]] by auto

lemma adjust_lot_posts:
  assumes "adjust_lot now q d = Inr (out, d')" and "book_inv d"
  shows "\<exists>rows. posts d rows d'"
  using assms by (rule adjust_lot_cases) (auto intro: posting.traced_nil)

interpretation adjust_idem: idempotent_writer "adjust_lot now" book_inv warehouse_le "adjust_settled now"
proof
  fix d d' :: db and q x
  assume inv: "book_inv d" and r: "adjust_lot now q d = Inr (x, d')"
  from adjust_lot_posts [OF r inv] obtain rows where p: "posts d rows d'" by blast
  show "book_inv d'" by (rule posts_inv [OF p inv])
  show le: "warehouse_le d d'" by (rule posts_warehouse_le [OF p inv])
  from r inv show "adjust_settled now d' q"
  proof (cases rule: adjust_lot_cases)
    case noop
    with r show ?thesis
      by (auto simp: adjust_settled_def adjust_lot_def adjust_lot_impl_def adjust_apply_def
          res_simps Let_def split: if_splits)
  next
    case (posted lid c r)
    have "cx_ref_line c = (case aq_ref_line q of Some n \<Rightarrow> n | None \<Rightarrow> 1)"
      by (rule adjust_prep_Some [OF posted(1)])
    then have "adjust_key q lid \<in> ledger_key ` set (t_ledger d')"
      using posts_ledger [OF posted(5) inv] posted(3) by (simp add: adjust_key_def)
    with posted(1,3) show ?thesis
      unfolding adjust_settled_def by (intro adjust_prep_later [OF _ le]) auto
  qed
next
  show "adjust_settled now d' q" if "adjust_settled now d q" "warehouse_le d d'" for d d' q
    using that adjust_prep_later unfolding adjust_settled_def by blast
  show "\<exists>x. adjust_lot now q d = Inr (x, d)" if "adjust_settled now d q" for d q
    using that by (simp add: adjust_settled_def adjust_lot_def adjust_lot_impl_def)
qed (auto intro: warehouse_le_refl warehouse_le_trans)

section \<open>Properties\<close>

text \<open>
  C3. The inventory kernel refines the abstract warehouse: a request that passes the checks is
  booked exactly when the specification books it. The new balances and the set of booked keys
  are the specified ones and the books stay consistent; the kernel raises \<open>insufficient stock\<close>
  exactly when the specification refuses.
\<close>

theorem adjust_lot_refines_spec:
  assumes "book_inv d" and "aq_delta q \<noteq> 0" and "aq_lot_id q = Some lid"
    and "adjust_prep now q d = Inr ctx" and "\<forall>c. ctx = Some c \<longrightarrow> adjust_fits q c d"
  shows "case spec_adjust (adjust_key q lid) (adjust_slot q lid) (aq_delta q) (abs_of d) of
      None \<Rightarrow> adjust_lot now q d = Inl (ValueError ''insufficient stock(lot)'')
    | Some b \<Rightarrow> \<exists>out d'. adjust_lot now q d = Inr (out, d') \<and> abs_of d' = b \<and> book_inv d'"
proof (cases ctx)
  case None
  with assms(2-4) have "adjust_key q lid \<in> ledger_key ` set (t_ledger d)"
    by (auto simp: adjust_prep_def adjust_check_def Let_def res_simps idem_hit_by_lot_key_def)
  moreover have "adjust_lot now q d = Inr (Noop, d)"
    using None assms(4) by (simp add: adjust_lot_def adjust_lot_impl_def)
  ultimately show ?thesis using assms(1) by (simp add: spec_adjust_def abs_of_def)
next
  case (Some c)
  note p = adjust_prep_Some [OF assms(4) [unfolded Some]]
  have lid: "cx_lot_id c = lid" using p(1) assms(3) by simp
  have key: "(reason_val (aq_reason q), aq_ref q, cx_ref_line c, aq_item_id q, aq_warehouse_id q,
        cx_lot_id c) = adjust_key q lid"
    using p(3) lid by (simp add: adjust_key_def)
  have run: "adjust_lot now q d = adjust_apply q c d"
    using Some assms(4) by (simp add: adjust_lot_def adjust_lot_impl_def)
  show ?thesis
  proof (cases "slot_qty d (adjust_slot q lid) + aq_delta q < 0")
    case True
    with adjust_apply_short [OF p(4) assms(2)] p(2) lid show ?thesis
      by (simp add: run spec_adjust_def abs_of_def)
  next
    case False
    have "(reason_val (aq_reason q), aq_ref q, cx_ref_line c, aq_item_id q, aq_warehouse_id q,
        cx_lot_id c) \<notin> ledger_key ` set (t_ledger d)" using p(2) key lid by simp
    with adjust_apply_total [OF p(4)] assms(5) Some lid False
    obtain out d' where a: "adjust_apply q c d = Inr (out, d')" by (auto simp: not_less)
    have "posts d [adjust_row q c (slot_qty d (adjust_slot q lid)) (t_next_id d STOCK_LEDGER)] d'"
      using adjust_apply_Inr(1) [OF a assms(1)] p(2) lid key by simp
    note post = posts_inv [OF this assms(1)] posts_ledger [OF this assms(1)]
      posts_qty [OF this assms(1)]
    have "slot_qty d' = (slot_qty d)(adjust_slot q lid := slot_qty d (adjust_slot q lid) + aq_delta q)"
      using post(3) lid by auto
    moreover have "ledger_key ` set (t_ledger d') = insert (adjust_key q lid) (ledger_key ` set (t_ledger d))"
      using post(2) key by simp
    ultimately show ?thesis
      using False p(2) lid post(1) by (simp add: run a spec_adjust_def abs_of_def)
  qed
qed

text \<open>A stocked warehouse for evaluating the operations on the books.\<close>

definition sample_lots :: "lot list" where
  "sample_lots =
     [lot_row (sample_item 1 ''MILK'' SUPPLIER_ONLY EXPIRY_REQUIRED) 1 7 SUPPLIER (Some ''A'')
        (Some (Date 2024 1 1)) (Some (Date 2024 6 29)) None None,
      lot_row (sample_item 2 ''MUG'' INTERNAL_ONLY EXPIRY_NONE) 2 7 INTERNAL None None None None None]"

definition lots_db :: db where
  "lots_db = sample_db\<lparr>t_lots := sample_lots, t_next_id := (\<lambda>_. 1)(LOTS := 3)\<rparr>"

definition adjust_request :: "int \<Rightarrow> int \<Rightarrow> int \<Rightarrow> movement_type \<Rightarrow> string \<Rightarrow> int \<Rightarrow> adjust_req" where
  "adjust_request i lid delta reason ref line =
     \<lparr>aq_item_id = i, aq_warehouse_id = 7, aq_lot_id = Some lid, aq_delta = delta,
      aq_reason = Inr reason, aq_ref = ref, aq_ref_line = Some line, aq_occurred_at = None,
      aq_meta = [(''sub_reason'', PStr ''SAMPLE'')], aq_lot_code = None,
      aq_production_date = None, aq_expiry_date = None, aq_trace_id = None\<rparr>"

lemma lots_db_inv: "lots_inv lots_db"
proof (rule lots_invI)
  show "distinct (map lot_id (t_lots lots_db))" by code_simp
  have "list_all lot_checks sample_lots" by code_simp
  then show "lot_checks x" if "x \<in> set (t_lots lots_db)" for x
    using that by (simp add: lots_db_def list_all_iff)
qed (auto simp: lots_db_def sample_lots_def sample_db_def lot_row_def sample_item_def
    required_lot_conflict_def required_lot_index_def internal_lot_conflict_def
    internal_lot_index_def)

lemma empty_books: "t_stocks d = [] \<Longrightarrow> t_ledger d = [] \<Longrightarrow> book_inv d"
  by (simp add: book_inv_def after_chain_def)

lemma lots_db_books: "book_inv lots_db"
  by (rule empty_books) (simp_all add: lots_db_def sample_db_def)

lemma adjust_lot_refines_spec_witness:
  "\<exists>out d'. adjust_lot 0 (adjust_request 2 2 5 RECEIPT ''R'' 1) lots_db = Inr (out, d') \<and> book_inv d'"
proof -
  let ?q = "adjust_request 2 2 5 RECEIPT ''R'' 1"
  have "returns (adjust_prep 0 ?q lots_db) (\<lambda>ctx. case ctx of None \<Rightarrow> True
      | Some c \<Rightarrow> adjust_fits ?q c lots_db)" by code_simp
  then obtain ctx where ctx: "adjust_prep 0 ?q lots_db = Inr ctx"
    "\<forall>c. ctx = Some c \<longrightarrow> adjust_fits ?q c lots_db"
    by (auto simp: returns_iff split: option.splits)
  have "spec_adjust (adjust_key ?q 2) (adjust_slot ?q 2) (aq_delta ?q) (abs_of lots_db) \<noteq> None"
    by (simp add: spec_adjust_def abs_of_def lots_db_def sample_db_def adjust_request_def
        slot_qty_def slot_row_def)
  moreover have "aq_delta ?q \<noteq> 0" "aq_lot_id ?q = Some 2" by (simp_all add: adjust_request_def)
  ultimately show ?thesis
    using adjust_lot_refines_spec [OF lots_db_books _ _ ctx] by fastforce
qed

text \<open>
  C5. Replaying a batch of requests is harmless: a batch of \<open>adjust_lot\<close> calls that has run keeps
  the books consistent, and running the same batch again, at any later state of the warehouse
  (booked movements and lots stay), succeeds and changes nothing.
\<close>

theorem adjust_batch_replay:
  assumes "book_inv d" and "mapE (adjust_lot now) qs d = Inr (outs, d')" and "warehouse_le d' e"
  shows "book_inv d' \<and> (\<exists>outs'. mapE (adjust_lot now) qs e = Inr (outs', e))"
  using adjust_idem.batch_settles [OF assms(1,2)] adjust_idem.batch_replay [OF assms] by blast

definition sample_batch :: "adjust_req list" where
  "sample_batch = [adjust_request 2 2 5 RECEIPT ''R'' 1, adjust_request 1 1 8 RECEIPT ''R'' 2,
     adjust_request 2 2 (- 3) SHIPMENT ''S'' 1]"

lemma adjust_batch_replay_witness:
  "\<exists>outs d'. mapE (adjust_lot 0) sample_batch lots_db = Inr (outs, d') \<and> book_inv d' \<and>
     (\<exists>outs'. mapE (adjust_lot 0) sample_batch d' = Inr (outs', d'))"
proof -
  have "returns (mapE (adjust_lot 0) sample_batch lots_db) (\<lambda>_. True)" by code_simp
  then obtain outs d' where r: "mapE (adjust_lot 0) sample_batch lots_db = Inr (outs, d')"
    by (auto simp: returns_pair)
  with adjust_batch_replay [OF lots_db_books r warehouse_le_refl] show ?thesis by blast
qed

text \<open>What a call contributed to the balance of a slot.\<close>

definition applied_delta :: "slot \<Rightarrow> adjust_req \<times> adjust_out \<Rightarrow> int" where
  "applied_delta s qo = (case qo of
       (q, Applied r) \<Rightarrow> if adjust_slot q (ar_lot_id r) = s then aq_delta q else 0
     | (_, Noop) \<Rightarrow> 0)"

text \<open>
  C4. Conservation: a batch of \<open>adjust_lot\<close> calls moves the balance of every slot by exactly the
  deltas of the calls on that slot that were applied (the others were idempotent hits), the
  balance stays the sum of the slot's ledger rows, and it is never negative.
\<close>

theorem adjust_batch_conserves:
  assumes "book_inv d" and "mapE (adjust_lot now) qs d = Inr (outs, d')"
  shows "slot_qty d' s = slot_qty d s + sum_list (map (applied_delta s) (zip qs outs)) \<and>
    slot_qty d' s = ledger_sum (t_ledger d') s \<and> 0 \<le> slot_qty d' s"
proof -
  have inv: "book_inv d'" using adjust_idem.batch_settles [OF assms] by blast
  have "slot_qty d' s = slot_qty d s + sum_list (map (applied_delta s) (zip qs outs))"
    using assms
  proof (induction qs arbitrary: d outs)
    case (Cons q qs)
    from Cons.prems(2) obtain o1 e os where
      r: "adjust_lot now q d = Inr (o1, e)" "mapE (adjust_lot now) qs e = Inr (os, d')" "outs = o1 # os"
      by (auto simp: res_simps simp del: mapE.simps)
    have "slot_qty e s = slot_qty d s + applied_delta s (q, o1)"
      using r(1) Cons.prems(1)
    proof (cases rule: adjust_lot_cases)
      case (posted lid c r)
      with posts_qty [OF posted(5) Cons.prems(1), of s] show ?thesis by (simp add: applied_delta_def)
    qed (simp add: applied_delta_def)
    with Cons.IH [OF adjust_idem.run_inv [OF Cons.prems(1) r(1)] r(2)] r(3) show ?case by simp
  qed simp
  with slot_qty_ledger [OF inv, of s] slot_qty_nonneg [OF inv, of s] show ?thesis by linarith
qed

lemma adjust_batch_conserves_witness:
  "\<exists>outs d'. mapE (adjust_lot 0) sample_batch lots_db = Inr (outs, d') \<and> 0 \<le> slot_qty d' (7, 2, 2)"
proof -
  have "returns (mapE (adjust_lot 0) sample_batch lots_db) (\<lambda>_. True)" by code_simp
  then obtain outs d' where r: "mapE (adjust_lot 0) sample_batch lots_db = Inr (outs, d')"
    by (auto simp: returns_pair)
  with adjust_batch_conserves [OF lots_db_books r] show ?thesis by blast
qed

end
