(* ===== verification/Events.thy ===== *)
theory Events
  imports Stock
begin

text \<open>
  What the documents of the warehouse share: the event table and its lines
  (\<open>app/wms/inbound/models/inbound_event.py\<close>, \<open>app/wms/outbound/models/outbound_event.py\<close>), the
  guard that blocks a warehouse while a count is frozen
  (\<open>count_freeze_guard_service.py\<close>, \<open>count_freeze_guard_repo.py\<close>), and the lemma on the loops
  that write one document line and one ledger row per step.
\<close>

section \<open>The freeze guard\<close>

definition later_doc :: "count_doc \<Rightarrow> count_doc \<Rightarrow> bool" where
  "later_doc a b \<longleftrightarrow> cd_snapshot_at a < cd_snapshot_at b \<or>
     cd_snapshot_at a = cd_snapshot_at b \<and> cd_id a < cd_id b"

definition get_frozen_count_doc_brief :: "db \<Rightarrow> int \<Rightarrow> count_doc option" where
  "get_frozen_count_doc_brief d w =
     (case filter (\<lambda>c. cd_warehouse_id c = w \<and> cd_status c = ''FROZEN'') (t_count_docs d) of
        [] \<Rightarrow> None
      | c # cs \<Rightarrow> Some (foldl (\<lambda>a b. if later_doc a b then b else a) c cs))"

definition ensure_warehouse_not_frozen :: "db \<Rightarrow> int \<Rightarrow> unit result" where
  "ensure_warehouse_not_frozen d w =
     (case get_frozen_count_doc_brief d w of
        None \<Rightarrow> Inr ()
      | Some _ \<Rightarrow> Inl (HTTPException 409 ''count_doc_frozen_for_warehouse''))"

lemma ensure_warehouse_not_frozen_iff:
  "ensure_warehouse_not_frozen d w = Inr u \<longleftrightarrow>
     (\<forall>c \<in> set (t_count_docs d). cd_warehouse_id c = w \<longrightarrow> cd_status c \<noteq> ''FROZEN'')"
  by (auto simp: ensure_warehouse_not_frozen_def get_frozen_count_doc_brief_def
      filter_empty_conv split: list.splits option.splits dest: filter_eq_ConsD)

section \<open>Inserting events and lines\<close>

text \<open>The ORM flush of a new event: check constraints, the two unique keys, the target.\<close>

definition insert_event :: "wms_event \<Rightarrow> int tx" where
  "insert_event e d =
     (let (nid, d1) = next_id WMS_EVENTS d in
      if \<not> event_checks e then Inl (IntegrityError ''wms_events check constraint'')
      else if ev_event_no e \<in> ev_event_no ` set (t_events d)
      then Inl (IntegrityError ''uq_wms_events_event_no'')
      else if ev_trace_id e \<in> ev_trace_id ` set (t_events d)
      then Inl (IntegrityError ''uq_wms_events_trace_id'')
      else if (case ev_target_event_id e of None \<Rightarrow> False | Some t \<Rightarrow> t \<notin> ev_id ` set (t_events d))
      then Inl (IntegrityError ''fk_wms_events_target_event'')
      else Inr (nid, d1\<lparr>t_events := t_events d1 @ [e\<lparr>ev_id := nid\<rparr>]\<rparr>))"

definition insert_inbound_line :: "inbound_event_line \<Rightarrow> int tx" where
  "insert_inbound_line l d =
     (let (nid, d1) = next_id INBOUND_EVENT_LINES d in
      if \<not> (int4 (il_actual_qty_input l) \<and> int4 (il_actual_ratio_to_base_snapshot l) \<and>
            int4 (il_qty_base l)) then Inl (DataError ''integer out of range'')
      else if \<not> inbound_line_checks l
      then Inl (IntegrityError ''inbound_event_lines check constraint'')
      else if (il_event_id l, il_line_no l) \<in> (\<lambda>x. (il_event_id x, il_line_no x)) ` set (t_inbound_lines d)
      then Inl (IntegrityError ''uq_inbound_event_lines_event_line'')
      else if il_event_id l \<notin> ev_id ` set (t_events d) \<or> il_item_id l \<notin> it_id ` set (t_items d) \<or>
              il_actual_uom_id l \<notin> uo_id ` set (t_item_uoms d) \<or>
              (case il_lot_id l of None \<Rightarrow> False | Some n \<Rightarrow> find_lot d n = None) \<or>
              (case il_po_line_id l of None \<Rightarrow> False | Some n \<Rightarrow> n \<notin> pl_id ` set (t_purchase_lines d))
      then Inl (IntegrityError ''inbound_event_lines foreign key'')
      else Inr (nid, d1\<lparr>t_inbound_lines := t_inbound_lines d1 @ [l\<lparr>il_id := nid\<rparr>]\<rparr>))"

definition insert_outbound_line :: "outbound_event_line \<Rightarrow> int tx" where
  "insert_outbound_line l d =
     (let (nid, d1) = next_id OUTBOUND_EVENT_LINES d in
      if \<not> int4 (ol_qty_outbound l) then Inl (DataError ''integer out of range'')
      else if \<not> outbound_line_checks l
      then Inl (IntegrityError ''outbound_event_lines check constraint'')
      else if (ol_event_id l, ol_ref_line l) \<in> (\<lambda>x. (ol_event_id x, ol_ref_line x)) ` set (t_outbound_lines d)
      then Inl (IntegrityError ''uq_outbound_event_lines_event_ref_line'')
      else if ol_event_id l \<notin> ev_id ` set (t_events d) \<or>
              (case ol_order_line_id l of None \<Rightarrow> False
               | Some n \<Rightarrow> n \<notin> orl_id ` set (t_order_lines d))
      then Inl (IntegrityError ''outbound_event_lines foreign key'')
      else Inr (nid, d1\<lparr>t_outbound_lines := t_outbound_lines d1 @ [l\<lparr>ol_id := nid\<rparr>]\<rparr>))"

definition event_by_id :: "db \<Rightarrow> int \<Rightarrow> wms_event option" where
  "event_by_id d n = find (\<lambda>e. ev_id e = n) (t_events d)"

section \<open>The event tables\<close>

definition events_inv :: "db \<Rightarrow> bool" where
  "events_inv d \<longleftrightarrow> distinct (map ev_id (t_events d)) \<and> 0 < t_next_id d WMS_EVENTS \<and>
     (\<forall>e \<in> set (t_events d). ev_id e < t_next_id d WMS_EVENTS \<and> event_checks e) \<and>
     distinct (map ev_event_no (t_events d)) \<and> distinct (map ev_trace_id (t_events d)) \<and>
     distinct (map (\<lambda>l. (il_event_id l, il_line_no l)) (t_inbound_lines d)) \<and>
     distinct (map (\<lambda>l. (ol_event_id l, ol_ref_line l)) (t_outbound_lines d)) \<and>
     (\<forall>l \<in> set (t_inbound_lines d). il_event_id l \<in> ev_id ` set (t_events d) \<and> inbound_line_checks l) \<and>
     (\<forall>l \<in> set (t_outbound_lines d). ol_event_id l \<in> ev_id ` set (t_events d) \<and> outbound_line_checks l)"

text \<open>Everything the services keep.\<close>

definition warehouse_inv :: "db \<Rightarrow> bool" where
  "warehouse_inv d \<longleftrightarrow> lots_inv d \<and> book_inv d \<and> events_inv d"

lemma warehouse_invD:
  "warehouse_inv d \<Longrightarrow> lots_inv d" "warehouse_inv d \<Longrightarrow> book_inv d" "warehouse_inv d \<Longrightarrow> events_inv d"
  by (simp_all add: warehouse_inv_def)

lemma lots_inv_cong:
  "t_lots d' = t_lots d \<Longrightarrow> t_items d' = t_items d \<Longrightarrow> t_next_id d' LOTS = t_next_id d LOTS \<Longrightarrow>
   lots_inv d' = lots_inv d"
  unfolding lots_inv_def by simp

lemma events_inv_cong:
  "t_events d' = t_events d \<Longrightarrow> t_inbound_lines d' = t_inbound_lines d \<Longrightarrow>
   t_outbound_lines d' = t_outbound_lines d \<Longrightarrow>
   t_next_id d' WMS_EVENTS = t_next_id d WMS_EVENTS \<Longrightarrow> events_inv d' = events_inv d"
  unfolding events_inv_def by simp

lemma book_inv_cong:
  assumes "t_stocks d' = t_stocks d" and "t_ledger d' = t_ledger d" and "t_lots d' = t_lots d"
    and "t_next_id d' STOCKS_LOT = t_next_id d STOCKS_LOT"
  shows "book_inv d' = book_inv d"
  unfolding book_inv_def lot_at_same_lots [OF assms(3)] assms(1,2,4) by simp

lemma warehouse_inv_cong:
  assumes "t_lots d' = t_lots d" and "t_items d' = t_items d" and "t_stocks d' = t_stocks d"
    and "t_ledger d' = t_ledger d" and "t_events d' = t_events d"
    and "t_inbound_lines d' = t_inbound_lines d" and "t_outbound_lines d' = t_outbound_lines d"
    and "t_next_id d' LOTS = t_next_id d LOTS" and "t_next_id d' STOCKS_LOT = t_next_id d STOCKS_LOT"
    and "t_next_id d' WMS_EVENTS = t_next_id d WMS_EVENTS"
  shows "warehouse_inv d' = warehouse_inv d"
  using lots_inv_cong [OF assms(1,2,8)] book_inv_cong [OF assms(3,4,1,9)]
    events_inv_cong [OF assms(5,6,7,10)] by (simp add: warehouse_inv_def)

text \<open>Lot operations keep the books: slots keep their lots.\<close>

lemma lots_grow_book_inv:
  assumes "lots_grow d d'" and "book_inv d"
  shows "book_inv d'"
proof -
  note inv = book_invD [OF assms(2)]
  note same = lots_grow_frame(4,5) [OF assms(1)]
  have n: "t_next_id d' STOCKS_LOT = t_next_id d STOCKS_LOT" using lots_grow_frame(17) [OF assms(1)] by simp
  show ?thesis
  proof (rule book_invI)
    fix s assume "s \<in> set (t_stocks d')"
    then show "sl_id s < t_next_id d' STOCKS_LOT \<and> 0 \<le> sl_qty s \<and>
        sl_qty s = ledger_sum (t_ledger d') (stock_slot s) \<and>
        lot_at d' (sl_warehouse_id s) (sl_item_id s) (sl_lot_id s)"
      using inv(2,5) [of s] inv(6) [of s] lots_grow_lot_at [OF assms(1) inv(8) [of s]] n same by metis
  next
    fix r assume "r \<in> set (t_ledger d')"
    then show "ledger_slot r \<in> stock_slot ` set (t_stocks d') \<and> dates_only_on_receipt r"
      using inv(7,10) same by simp
  qed (use inv(1,3,4,9) same in simp_all)
qed

lemma lots_grow_events_inv: "lots_grow d d' \<Longrightarrow> events_inv d' = events_inv d"
  by (rule events_inv_cong) (simp_all add: lots_grow_frame)

lemma lots_grow_warehouse_inv: "lots_grow d d' \<Longrightarrow> warehouse_inv d \<Longrightarrow> warehouse_inv d'"
  using lots_grow_book_inv lots_grow_events_inv lots_grow_inv by (auto simp: warehouse_inv_def)

lemma insert_event_Inr:
  assumes "insert_event e d = Inr (n, d')"
  shows "n = t_next_id d WMS_EVENTS"
    and "d' = d\<lparr>t_next_id := (t_next_id d)(WMS_EVENTS := n + 1),
                t_events := t_events d @ [e\<lparr>ev_id := n\<rparr>]\<rparr>"
    and "event_checks e" and "ev_event_no e \<notin> ev_event_no ` set (t_events d)"
    and "ev_trace_id e \<notin> ev_trace_id ` set (t_events d)"
  using assms by (auto simp: insert_event_def next_id_def Let_def split: if_splits)

lemma insert_event_events_inv:
  assumes "insert_event e d = Inr (n, d')" and "events_inv d"
  shows "events_inv d'"
proof -
  note i = insert_event_Inr [OF assms(1)]
  have "n \<notin> ev_id ` set (t_events d)" using assms(2) i(1) by (auto simp: events_inv_def)
  moreover have "event_checks (e\<lparr>ev_id := n\<rparr>)" using i(3) by (simp add: event_checks_def)
  ultimately show ?thesis
    using assms(2) i(1,4,5) unfolding i(2) events_inv_def by (auto intro: less_imp_le)
qed

lemma insert_event_posts:
  assumes "insert_event e d = Inr (n, d')"
  shows "posts d [] d'"
  by (rule posts_nothing) (simp_all add: insert_event_Inr [OF assms])

lemma insert_event_warehouse_inv:
  assumes "insert_event e d = Inr (n, d')" and "warehouse_inv d"
  shows "warehouse_inv d'"
proof -
  have "lots_inv d' = lots_inv d" "book_inv d' = book_inv d"
    by (rule lots_inv_cong book_inv_cong; simp add: insert_event_Inr(2) [OF assms(1)])+
  with insert_event_events_inv [OF assms(1)] assms(2) show ?thesis by (simp add: warehouse_inv_def)
qed

lemma insert_inbound_line_Inr:
  assumes "insert_inbound_line l d = Inr (n, d')"
  shows "d' = d\<lparr>t_next_id := (t_next_id d)(INBOUND_EVENT_LINES := n + 1),
                t_inbound_lines := t_inbound_lines d @ [l\<lparr>il_id := n\<rparr>]\<rparr>"
    and "inbound_line_checks l" and "il_event_id l \<in> ev_id ` set (t_events d)"
    and "(il_event_id l, il_line_no l) \<notin> (\<lambda>x. (il_event_id x, il_line_no x)) ` set (t_inbound_lines d)"
  using assms by (auto simp: insert_inbound_line_def next_id_def Let_def split: if_splits)

lemma insert_outbound_line_Inr:
  assumes "insert_outbound_line l d = Inr (n, d')"
  shows "d' = d\<lparr>t_next_id := (t_next_id d)(OUTBOUND_EVENT_LINES := n + 1),
                t_outbound_lines := t_outbound_lines d @ [l\<lparr>ol_id := n\<rparr>]\<rparr>"
    and "outbound_line_checks l" and "ol_event_id l \<in> ev_id ` set (t_events d)"
    and "(ol_event_id l, ol_ref_line l) \<notin> (\<lambda>x. (ol_event_id x, ol_ref_line x)) ` set (t_outbound_lines d)"
  using assms by (auto simp: insert_outbound_line_def next_id_def Let_def split: if_splits)

lemma insert_inbound_line_warehouse_inv:
  assumes "insert_inbound_line l d = Inr (n, d')" and "warehouse_inv d"
  shows "warehouse_inv d'"
proof -
  note i = insert_inbound_line_Inr [OF assms(1)]
  have "lots_inv d' = lots_inv d" "book_inv d' = book_inv d"
    by (rule lots_inv_cong book_inv_cong; simp add: i(1))+
  moreover have "events_inv d'" if "events_inv d"
  proof -
    have "inbound_line_checks (l\<lparr>il_id := n\<rparr>)"
      using i(2) by (simp add: inbound_line_checks_def cong: option.case_cong)
    with that i(3,4) show ?thesis unfolding i(1) events_inv_def by (auto simp: image_iff)
  qed
  ultimately show ?thesis using assms(2) by (simp add: warehouse_inv_def)
qed

lemma insert_outbound_line_warehouse_inv:
  assumes "insert_outbound_line l d = Inr (n, d')" and "warehouse_inv d"
  shows "warehouse_inv d'"
proof -
  note i = insert_outbound_line_Inr [OF assms(1)]
  have "lots_inv d' = lots_inv d" "book_inv d' = book_inv d"
    by (rule lots_inv_cong book_inv_cong; simp add: i(1))+
  moreover have "events_inv d'" if "events_inv d"
    using that i(2,3,4) unfolding i(1) events_inv_def by (auto simp: outbound_line_checks_def image_iff)
  ultimately show ?thesis using assms(2) by (simp add: warehouse_inv_def)
qed

lemma insert_inbound_line_posts:
  assumes "insert_inbound_line l d = Inr (n, d')" shows "posts d [] d'"
  by (rule posts_nothing) (simp_all add: insert_inbound_line_Inr [OF assms])

lemma insert_outbound_line_posts:
  assumes "insert_outbound_line l d = Inr (n, d')" shows "posts d [] d'"
  by (rule posts_nothing) (simp_all add: insert_outbound_line_Inr [OF assms])

lemma adjust_lot_warehouse_inv:
  assumes "adjust_lot now q d = Inr (out, d')" and "warehouse_inv d"
  shows "warehouse_inv d'"
proof -
  note rest = rest_ofD [OF adjust_lot_rest [OF assms(1)]]
  have "lots_inv d' = lots_inv d" by (rule lots_inv_cong) (simp_all add: rest)
  moreover have "events_inv d' = events_inv d" by (rule events_inv_cong) (simp_all add: rest)
  moreover have "book_inv d'"
    using adjust_idem.run_inv [OF _ assms(1)] assms(2) by (simp add: warehouse_inv_def)
  ultimately show ?thesis using assms(2) by (simp add: warehouse_inv_def)
qed

section \<open>Document loops\<close>

text \<open>A request whose key is free and that moves something is booked.\<close>

lemma adjust_lot_applied:
  assumes "adjust_lot now q d = Inr (out, d')" and "book_inv d" and "aq_delta q \<noteq> 0"
    and "aq_lot_id q = Some lid" and "adjust_key q lid \<notin> ledger_key ` set (t_ledger d)"
  obtains c where "adjust_prep now q d = Inr (Some c)" "cx_lot_id c = lid"
    "posts d [adjust_row q c (slot_qty d (adjust_slot q lid)) (t_next_id d STOCK_LEDGER)] d'"
  using assms(1,2)
proof (cases rule: adjust_lot_cases)
  case noop
  with assms show ?thesis
    by (auto simp: adjust_lot_def adjust_lot_impl_def adjust_apply_def adjust_prep_def
        adjust_check_def idem_hit_by_lot_key_def res_simps Let_def split: if_splits)
next
  case (posted lid' c r)
  with assms(4) that show ?thesis by auto
qed

text \<open>
  A loop over document lines with distinct line numbers, each step of which adds one line to a
  document table \<open>T\<close> and posts one ledger row under the same reference: as long as the reference
  is new, every step posts.
\<close>

lemma document_loop:
  fixes T :: "db \<Rightarrow> 'l list"
  assumes step: "\<And>x d y d'. x \<in> set xs \<Longrightarrow> warehouse_inv d \<Longrightarrow> I d \<Longrightarrow> f x d = Inr (y, d') \<Longrightarrow>
      \<forall>r \<in> set (t_ledger d). \<not> (lg_ref r = R \<and> lg_ref_line r = ln x) \<Longrightarrow>
      warehouse_inv d' \<and> I d' \<and>
      (\<exists>l r. posts d [r] d' \<and> T d' = T d @ [l] \<and> lg_ref r = R \<and> lg_ref_line r = ln x \<and> Q x y l r)"
  shows "mapE f xs d = Inr (ys, d') \<Longrightarrow> distinct (map ln xs) \<Longrightarrow> warehouse_inv d \<Longrightarrow> I d \<Longrightarrow>
    \<forall>r \<in> set (t_ledger d). lg_ref r = R \<longrightarrow> lg_ref_line r \<notin> ln ` set xs \<Longrightarrow>
    warehouse_inv d' \<and> I d' \<and>
    (\<exists>prs. posts d (map snd prs) d' \<and> T d' = T d @ map fst prs \<and>
       list_all2 (\<lambda>(x, y) (l, r). lg_ref r = R \<and> lg_ref_line r = ln x \<and> Q x y l r) (zip xs ys) prs)"
  using step
proof (induction xs arbitrary: d ys)
  case Nil
  then show ?case by (auto intro: posting.traced_nil exI [of _ "[]"])
next
  case (Cons x xs)
  from Cons.prems(1) obtain y e zs where
    r: "f x d = Inr (y, e)" "mapE f xs e = Inr (zs, d')" "ys = y # zs"
    by (auto simp: res_simps simp del: mapE.simps)
  have free: "\<forall>r \<in> set (t_ledger d). \<not> (lg_ref r = R \<and> lg_ref_line r = ln x)"
    using Cons.prems(5) by auto
  from Cons.prems(6) [OF _ Cons.prems(3,4) r(1) free] obtain l row where
    s: "warehouse_inv e" "I e" "posts d [row] e" "T e = T d @ [l]" "lg_ref row = R"
      "lg_ref_line row = ln x" "Q x y l row"
    by (meson list.set_intros(1))
  have "t_ledger e = t_ledger d @ [row]"
    using posts_ledger [OF s(3) warehouse_invD(2) [OF Cons.prems(3)]] .
  then have free': "\<forall>r \<in> set (t_ledger e). lg_ref r = R \<longrightarrow> lg_ref_line r \<notin> ln ` set xs"
    using Cons.prems(2,5) s(5,6) by auto
  have dist: "distinct (map ln xs)" using Cons.prems(2) by simp
  have step: "\<And>x' d0 y' d0'. x' \<in> set xs \<Longrightarrow> warehouse_inv d0 \<Longrightarrow> I d0 \<Longrightarrow> f x' d0 = Inr (y', d0') \<Longrightarrow>
      \<forall>r \<in> set (t_ledger d0). \<not> (lg_ref r = R \<and> lg_ref_line r = ln x') \<Longrightarrow>
      warehouse_inv d0' \<and> I d0' \<and>
      (\<exists>l r. posts d0 [r] d0' \<and> T d0' = T d0 @ [l] \<and> lg_ref r = R \<and> lg_ref_line r = ln x' \<and> Q x' y' l r)"
    by (rule Cons.prems(6)) simp_all
  from Cons.IH [OF r(2) dist s(1,2) free' step] obtain prs where
    i: "warehouse_inv d'" "I d'" "posts e (map snd prs) d'" "T d' = T e @ map fst prs"
      "list_all2 (\<lambda>(x, y) (l, r). lg_ref r = R \<and> lg_ref_line r = ln x \<and> Q x y l r) (zip xs zs) prs"
    by blast
  have "posts d (map snd ((l, row) # prs)) d'" using posting.traced_app [OF s(3) i(3)] by simp
  moreover have "T d' = T d @ map fst ((l, row) # prs)" using i(4) s(4) by simp
  moreover have "list_all2 (\<lambda>(x, y) (l, r). lg_ref r = R \<and> lg_ref_line r = ln x \<and> Q x y l r)
      (zip (x # xs) ys) ((l, row) # prs)" using i(5) s(5-7) r(3) by simp
  ultimately show ?case using i(1,2) by blast
qed

lemma ledger_sum_pairs:
  "list_all2 (\<lambda>x p. ledger_slot (snd p) = sl x \<and> lg_delta (snd p) = dl x) xs prs \<Longrightarrow>
   ledger_sum (map snd prs) s = (\<Sum>x \<leftarrow> xs. if sl x = s then dl x else 0)"
  by (induction rule: list_all2_induct) auto

text \<open>Row \<open>r\<close> of the ledger books line \<open>l\<close> of an inbound document, in or out.\<close>

definition books_inbound_line :: "int \<Rightarrow> string \<Rightarrow> int \<Rightarrow> inbound_event_line \<Rightarrow> stock_ledger \<Rightarrow> bool" where
  "books_inbound_line w event_no sign l r \<longleftrightarrow>
     lg_ref r = event_no \<and> lg_ref_line r = il_line_no l \<and> lg_event_id r = Some (il_event_id l) \<and>
     lg_delta r = sign * il_qty_base l \<and>
     (\<exists>n. il_lot_id l = Some n \<and> ledger_slot r = (w, il_item_id l, n))"

definition books_outbound_line :: "int \<Rightarrow> string \<Rightarrow> int \<Rightarrow> outbound_event_line \<Rightarrow> stock_ledger \<Rightarrow> bool" where
  "books_outbound_line w ref sign l r \<longleftrightarrow>
     lg_ref r = ref \<and> lg_ref_line r = ol_ref_line l \<and> lg_event_id r = Some (ol_event_id l) \<and>
     lg_delta r = sign * ol_qty_outbound l \<and> ledger_slot r = (w, ol_item_id l, ol_lot_id l)"

end
