(* ===== verification/Outbound.thy ===== *)
theory Outbound
  imports Events
begin

text \<open>
  Shipping: \<open>app/wms/outbound/services/outbound_event_submit_service.py\<close> with its contracts
  (\<open>order_submit.py\<close>, \<open>manual_submit.py\<close>, \<open>manual_doc.py\<close>), its repositories
  (\<open>outbound_event_repo.py\<close>, \<open>manual_doc_repo.py\<close>), the order view of OMS it reads
  (\<open>order_outbound_view_repo.py\<close>) and its routers. Unlike receipts, shipments do not go through
  the adjustment kernel: the service reads the slot, inserts the ledger row and sets the balance
  itself.
\<close>

section \<open>Contracts\<close>

record submit_line_in =
  so_source_line_id :: int
  so_item_id :: int
  so_qty_outbound :: int
  so_lot_id :: int
  so_remark :: "string option"

record order_submit_in =
  os_warehouse_id :: int
  os_remark :: "string option"
  os_lines :: "submit_line_in list"

record manual_submit_in =
  ms_remark :: "string option"
  ms_lines :: "submit_line_in list"

definition submit_line_valid :: "submit_line_in \<Rightarrow> bool" where
  "submit_line_valid l \<longleftrightarrow> 1 \<le> so_source_line_id l \<and> 1 \<le> so_item_id l \<and> 0 < so_qty_outbound l \<and>
     1 \<le> so_lot_id l"

definition order_submit_valid :: "order_submit_in \<Rightarrow> bool" where
  "order_submit_valid p \<longleftrightarrow> 1 \<le> os_warehouse_id p \<and> list_all submit_line_valid (os_lines p)"

definition manual_submit_valid :: "manual_submit_in \<Rightarrow> bool" where
  "manual_submit_valid p \<longleftrightarrow> list_all submit_line_valid (ms_lines p)"

record outbound_submit_out =
  oo_event_id :: int
  oo_trace_id :: string
  oo_source_type :: string
  oo_source_ref :: string
  oo_warehouse_id :: int
  oo_occurred_at :: int
  oo_lines_count :: nat

section \<open>outbound\_event\_repo.py\<close>

text \<open>\<open>str(remark).strip() if remark else None\<close>: a blank remark becomes the empty string.\<close>

definition strip_if_truthy :: "string option \<Rightarrow> string option" where
  "strip_if_truthy v = (case v of None \<Rightarrow> None | Some s \<Rightarrow> if s = [] then None else Some (py_strip s))"

definition outbound_event_row ::
  "int \<Rightarrow> int \<Rightarrow> string \<Rightarrow> string \<Rightarrow> int \<Rightarrow> string \<Rightarrow> int option \<Rightarrow> string option \<Rightarrow> wms_event" where
  "outbound_event_row now w src_type src_ref ts trace user_id remark =
     \<lparr>ev_id = 0, ev_event_no = take 64 trace, ev_event_type = ''OUTBOUND'', ev_warehouse_id = w,
      ev_source_type = src_type, ev_source_ref = Some src_ref, ev_occurred_at = ts,
      ev_committed_at = now, ev_trace_id = trace, ev_event_kind = ''COMMIT'',
      ev_target_event_id = None, ev_status = ''COMMITTED'', ev_created_by = user_id,
      ev_remark = strip_if_truthy remark\<rparr>"

definition insert_outbound_event ::
  "int \<Rightarrow> int \<Rightarrow> string \<Rightarrow> string \<Rightarrow> int \<Rightarrow> string \<Rightarrow> int option \<Rightarrow> string option \<Rightarrow> int tx" where
  "insert_outbound_event now w src_type src_ref ts trace user_id remark d =
     insert_event (outbound_event_row now w src_type src_ref ts trace user_id remark) d"

definition load_stocks_lot_for_update :: "int \<Rightarrow> int \<Rightarrow> int \<Rightarrow> db \<Rightarrow> int option" where
  "load_stocks_lot_for_update w i lid d = map_option sl_qty (slot_row d (w, i, lid))"

definition update_stocks_lot_qty :: "int \<Rightarrow> int \<Rightarrow> int \<Rightarrow> int \<Rightarrow> db \<Rightarrow> db" where
  "update_stocks_lot_qty w i lid n d =
     d\<lparr>t_stocks := update_where (\<lambda>x. stock_slot x = (w, i, lid)) (\<lambda>x. x\<lparr>sl_qty := n\<rparr>) (t_stocks d)\<rparr>"

definition outbound_ledger_row ::
  "int \<Rightarrow> int \<Rightarrow> int \<Rightarrow> int \<Rightarrow> int \<Rightarrow> int \<Rightarrow> string \<Rightarrow> int \<Rightarrow> string \<Rightarrow> int \<Rightarrow> stock_ledger" where
  "outbound_ledger_row i w lid qty after ts src_ref ref_line trace event_id =
     \<lparr>lg_id = 0, lg_warehouse_id = w, lg_item_id = i, lg_lot_id = lid, lg_reason = ''OUTBOUND_SHIP'',
      lg_reason_canon = Some ''OUTBOUND'', lg_sub_reason = Some ''ORDER_OUTBOUND'', lg_ref = src_ref,
      lg_ref_line = ref_line, lg_delta = - qty, lg_after_qty = after, lg_occurred_at = ts,
      lg_trace_id = Some trace, lg_event_id = Some event_id, lg_production_date = None,
      lg_expiry_date = None\<rparr>"

text \<open>A plain \<open>INSERT\<close>: a row with the same key is a unique violation here, not a conflict to skip.\<close>

definition insert_outbound_stock_ledger :: "stock_ledger \<Rightarrow> db \<Rightarrow> db result" where
  "insert_outbound_stock_ledger row d =
     (let (nid, d1) = next_id STOCK_LEDGER d in
      if \<not> ledger_row_ints row then Inl (DataError ''integer out of range'')
      else if ledger_key row \<in> ledger_key ` set (t_ledger d)
      then Inl (IntegrityError ''uq_ledger_wh_lot_item_reason_ref_line'')
      else if \<not> ledger_fks d row then Inl (IntegrityError ''fk_stock_ledger'')
      else Inr (d1\<lparr>t_ledger := t_ledger d1 @ [row\<lparr>lg_id := nid\<rparr>]\<rparr>))"

section \<open>outbound\_event\_submit\_service.py\<close>

record norm_line =
  nl_ref_line :: int
  nl_order_line_id :: "int option"
  nl_manual_doc_line_id :: "int option"
  nl_item_id :: int
  nl_qty_outbound :: int
  nl_lot_id :: int
  nl_item_name_snapshot :: "string option"
  nl_item_sku_snapshot :: "string option"
  nl_item_spec_snapshot :: "string option"
  nl_remark :: "string option"

definition load_order_outbound_head :: "db \<Rightarrow> int \<Rightarrow> order_head result" where
  "load_order_outbound_head d oid =
     of_option (ValueError ''order not found'') (find (\<lambda>o'. or_id o' = oid) (t_orders d))"

text \<open>\<open>order_lines JOIN items\<close>, in id order.\<close>

definition load_order_outbound_lines :: "db \<Rightarrow> int \<Rightarrow> (order_line \<times> item) list" where
  "load_order_outbound_lines d oid =
     List.map_filter (\<lambda>l. if orl_order_id l = oid
         then map_option (\<lambda>it. (l, it)) (find_item (t_items d) (orl_item_id l)) else None)
       (t_order_lines d)"

record order_submit_context =
  oc_order_lines :: "(order_line \<times> item) list"
  oc_source_ref :: string

definition load_order_submit_context :: "db \<Rightarrow> int \<Rightarrow> order_submit_context result" where
  "load_order_submit_context d oid =
     bindE (load_order_outbound_head d oid) (\<lambda>head.
     let rows = load_order_outbound_lines d oid in
     if rows = [] then Inl (ValueError ''order_lines_not_found'')
     else Inr \<lparr>oc_order_lines = rows,
       oc_source_ref = ''ORD:'' @ py_upper (or_platform head) @ '':'' @ or_store_code head @ '':'' @
         or_ext_order_no head\<rparr>)"

record manual_submit_context =
  mc_doc_lines :: "manual_line list"
  mc_source_ref :: string
  mc_warehouse_id :: int

definition find_manual_doc :: "db \<Rightarrow> int \<Rightarrow> manual_doc option" where
  "find_manual_doc d doc_id = find (\<lambda>m. md_id m = doc_id) (t_manual_docs d)"

definition load_manual_submit_context :: "db \<Rightarrow> int \<Rightarrow> manual_submit_context result" where
  "load_manual_submit_context d doc_id =
     (case find_manual_doc d doc_id of
        None \<Rightarrow> Inl (ValueError ''manual_doc_not_found'')
      | Some head \<Rightarrow>
          if md_status head \<noteq> ''RELEASED'' then Inl (ValueError ''manual_doc_not_released'')
          else
            let rows = sort_key ml_line_no (filter (\<lambda>l. ml_doc_id l = doc_id) (t_manual_lines d)) in
            if rows = [] then Inl (ValueError ''manual_doc_lines_not_found'')
            else Inr \<lparr>mc_doc_lines = rows, mc_source_ref = md_doc_no head,
                      mc_warehouse_id = md_warehouse_id head\<rparr>)"

text \<open>The requested and the submitted quantity of every line of an order.\<close>

definition load_order_submit_progress :: "db \<Rightarrow> int \<Rightarrow> (int \<times> int \<times> int) list" where
  "load_order_submit_progress d oid =
     map (\<lambda>l. (orl_id l, orl_req_qty l,
         sum_where (\<lambda>e. ol_order_line_id e = Some (orl_id l)) ol_qty_outbound (t_outbound_lines d)))
       (filter (\<lambda>l. orl_order_id l = oid) (t_order_lines d))"

definition has_orphan_order_outbound_ledger ::
  "db \<Rightarrow> string \<Rightarrow> int \<Rightarrow> int \<Rightarrow> int \<Rightarrow> int \<Rightarrow> bool" where
  "has_orphan_order_outbound_ledger d src_ref ref_line i w lid \<longleftrightarrow>
     (\<exists>r \<in> set (t_ledger d). lg_reason r = ''OUTBOUND_SHIP'' \<and> lg_ref r = src_ref \<and>
        lg_ref_line r = ref_line \<and> lg_item_id r = i \<and> lg_warehouse_id r = w \<and> lg_lot_id r = lid \<and>
        lg_event_id r = None)"

definition normalize_order_line ::
  "order_submit_context \<Rightarrow> int \<times> submit_line_in \<Rightarrow> norm_line result" where
  "normalize_order_line ctx nl =
     (case nl of (ref_line, raw) \<Rightarrow>
      case find (\<lambda>(l, _). orl_id l = so_source_line_id raw) (oc_order_lines ctx) of
        None \<Rightarrow> Inl (ValueError ''order_line_not_in_order'')
      | Some (src, it) \<Rightarrow>
          if so_item_id raw \<noteq> orl_item_id src then Inl (ValueError ''order_line_item_mismatch'')
          else Inr \<lparr>nl_ref_line = ref_line, nl_order_line_id = Some (so_source_line_id raw),
            nl_manual_doc_line_id = None, nl_item_id = so_item_id raw,
            nl_qty_outbound = so_qty_outbound raw, nl_lot_id = so_lot_id raw,
            nl_item_name_snapshot = strip_or_none (Some (it_name it)),
            nl_item_sku_snapshot = strip_or_none (Some (it_sku it)),
            nl_item_spec_snapshot = strip_or_none (it_spec it),
            nl_remark = strip_or_none (so_remark raw)\<rparr>)"

definition normalize_manual_line ::
  "manual_submit_context \<Rightarrow> int \<times> submit_line_in \<Rightarrow> norm_line result" where
  "normalize_manual_line ctx nl =
     (case nl of (ref_line, raw) \<Rightarrow>
      case find (\<lambda>l. ml_id l = so_source_line_id raw) (mc_doc_lines ctx) of
        None \<Rightarrow> Inl (ValueError ''manual_doc_line_not_in_doc'')
      | Some src \<Rightarrow>
          if so_item_id raw \<noteq> ml_item_id src then Inl (ValueError ''manual_doc_line_item_mismatch'')
          else Inr \<lparr>nl_ref_line = ref_line, nl_order_line_id = None,
            nl_manual_doc_line_id = Some (so_source_line_id raw), nl_item_id = so_item_id raw,
            nl_qty_outbound = so_qty_outbound raw, nl_lot_id = so_lot_id raw,
            nl_item_name_snapshot = strip_or_none (ml_item_name_snapshot src),
            nl_item_sku_snapshot = strip_or_none (ml_item_sku_snapshot src),
            nl_item_spec_snapshot = strip_or_none (ml_item_spec_snapshot src),
            nl_remark = strip_or_none (so_remark raw)\<rparr>)"

text \<open>The reference line numbers start at 1 in every submission.\<close>

definition number_submit_lines :: "submit_line_in list \<Rightarrow> (int \<times> submit_line_in) list" where
  "number_submit_lines ls = zip (map int [1 ..< length ls + 1]) ls"

definition normalize_submit_lines ::
  "(int \<times> submit_line_in \<Rightarrow> norm_line result) \<Rightarrow> submit_line_in list \<Rightarrow> norm_line list result" where
  "normalize_submit_lines check ls =
     (if ls = [] then Inl (ValueError ''empty_outbound_lines'')
      else bindE (mapE (\<lambda>x u. bindE (check x) (\<lambda>y. Inr (y, u))) (number_submit_lines ls) ())
        (\<lambda>(ys, _). Inr ys))"

definition check_order_line ::
  "db \<Rightarrow> (int \<times> int \<times> int) list \<Rightarrow> string \<Rightarrow> int \<Rightarrow> norm_line \<Rightarrow> unit result" where
  "check_order_line d progress src_ref w ln =
     (let (req, submitted) = (case nl_order_line_id ln of
            None \<Rightarrow> (0, 0)
          | Some n \<Rightarrow> (case map_of progress n of None \<Rightarrow> (0, 0) | Some p \<Rightarrow> p));
          submit = nl_qty_outbound ln
      in if req \<le> 0 then Inl (ValueError ''order_line_not_found_or_invalid'')
         else if req \<le> submitted then Inl (ValueError ''order_line_already_completed'')
         else if req < submitted + submit then Inl (ValueError ''order_line_over_submit'')
         else if has_orphan_order_outbound_ledger d src_ref (nl_ref_line ln) (nl_item_id ln) w
                   (nl_lot_id ln)
         then Inl (ValueError ''legacy_orphan_ledger_conflict'')
         else Inr ())"

definition load_lot_code_snapshot :: "db \<Rightarrow> int \<Rightarrow> string option" where
  "load_lot_code_snapshot d lid = (case find_lot d lid of None \<Rightarrow> None | Some l \<Rightarrow> lot_code l)"

definition outbound_line_of :: "int \<Rightarrow> (int \<Rightarrow> string option) \<Rightarrow> norm_line \<Rightarrow> outbound_event_line" where
  "outbound_line_of event_id codes ln =
     \<lparr>ol_id = 0, ol_event_id = event_id, ol_ref_line = nl_ref_line ln, ol_item_id = nl_item_id ln,
      ol_qty_outbound = nl_qty_outbound ln, ol_lot_id = nl_lot_id ln,
      ol_lot_code_snapshot = codes (nl_lot_id ln),
      ol_order_line_id = nl_order_line_id ln, ol_manual_doc_line_id = nl_manual_doc_line_id ln,
      ol_item_name_snapshot = nl_item_name_snapshot ln,
      ol_item_sku_snapshot = nl_item_sku_snapshot ln,
      ol_item_spec_snapshot = nl_item_spec_snapshot ln, ol_remark = nl_remark ln\<rparr>"

definition insert_outbound_event_line ::
  "int \<Rightarrow> (int \<Rightarrow> string option) \<Rightarrow> norm_line \<Rightarrow> outbound_event_line tx" where
  "insert_outbound_event_line event_id codes ln d =
     bindE (insert_outbound_line (outbound_line_of event_id codes ln) d) (\<lambda>(n, d1).
     Inr (outbound_line_of event_id codes ln\<lparr>ol_id := n\<rparr>, d1))"

text \<open>One saved line: read the slot, refuse a shortage, book the row, set the balance.\<close>

definition ship_line :: "int \<Rightarrow> string \<Rightarrow> string \<Rightarrow> int \<Rightarrow> outbound_event_line \<Rightarrow> unit tx" where
  "ship_line w src_ref trace ts ln d =
     (case load_stocks_lot_for_update w (ol_item_id ln) (ol_lot_id ln) d of
        None \<Rightarrow> Inl (ValueError ''stock_slot_not_found'')
      | Some current_qty \<Rightarrow>
          if current_qty < ol_qty_outbound ln then Inl (ValueError ''insufficient_stock'')
          else
            let after_qty = current_qty - ol_qty_outbound ln in
            bindE (insert_outbound_stock_ledger (outbound_ledger_row (ol_item_id ln) w (ol_lot_id ln)
                (ol_qty_outbound ln) after_qty ts src_ref (ol_ref_line ln) trace (ol_event_id ln)) d)
              (\<lambda>d1. Inr ((), update_stocks_lot_qty w (ol_item_id ln) (ol_lot_id ln) after_qty d1)))"

definition write_event_and_ledger ::
  "int \<Rightarrow> int \<Rightarrow> string \<Rightarrow> string \<Rightarrow> int option \<Rightarrow> string \<Rightarrow> int option \<Rightarrow> string option \<Rightarrow>
   norm_line list \<Rightarrow> outbound_submit_out tx" where
  "write_event_and_ledger now w src_type src_ref operator_id trace occurred_at remark lines d =
     (let ts = (case occurred_at of Some t \<Rightarrow> t | None \<Rightarrow> now) in
      bindE (ensure_warehouse_not_frozen d w) (\<lambda>_.
      bindE (insert_outbound_event now w src_type src_ref ts trace operator_id remark d) (\<lambda>(eid, d1).
      bindE (mapE (insert_outbound_event_line eid (load_lot_code_snapshot d1)) lines d1) (\<lambda>(saved, d2).
      bindE (mapE (ship_line w src_ref trace ts) saved d2) (\<lambda>(_, d3).
      Inr (\<lparr>oo_event_id = eid, oo_trace_id = trace, oo_source_type = src_type,
            oo_source_ref = src_ref, oo_warehouse_id = w, oo_occurred_at = ts,
            oo_lines_count = length saved\<rparr>, d3))))))"

definition submit_order_outbound_event ::
  "int \<Rightarrow> int \<Rightarrow> int \<Rightarrow> int option \<Rightarrow> string \<Rightarrow> order_submit_in \<Rightarrow> int option \<Rightarrow> outbound_submit_out tx"
  where
  "submit_order_outbound_event now oid w operator_id trace p occurred_at d =
     bindE (load_order_submit_context d oid) (\<lambda>ctx.
     bindE (normalize_submit_lines (normalize_order_line ctx) (os_lines p)) (\<lambda>lines.
     let progress = load_order_submit_progress d oid in
     bindE (foldE (\<lambda>ln _. check_order_line d progress (oc_source_ref ctx) w ln) lines ()) (\<lambda>_.
     write_event_and_ledger now w ''ORDER'' (oc_source_ref ctx) operator_id trace occurred_at
       (os_remark p) lines d)))"

section \<open>manual\_doc\_repo.py\<close>

definition list_manual_doc_progress :: "db \<Rightarrow> int \<Rightarrow> (int \<times> int \<times> int) list" where
  "list_manual_doc_progress d doc_id =
     map (\<lambda>l. (ml_id l, ml_requested_qty l,
         sum_where (\<lambda>e. ol_manual_doc_line_id e = Some (ml_id l)) ol_qty_outbound (t_outbound_lines d)))
       (sort_key ml_line_no (filter (\<lambda>l. ml_doc_id l = doc_id) (t_manual_lines d)))"

text \<open>
  \<open>UPDATE ... SET status WHERE id = ... AND status IN (...)\<close> and the row count test after it.
\<close>

definition set_manual_doc ::
  "string \<Rightarrow> (manual_doc \<Rightarrow> bool) \<Rightarrow> (manual_doc \<Rightarrow> manual_doc) \<Rightarrow> int \<Rightarrow> db \<Rightarrow> db result" where
  "set_manual_doc err from upd doc_id d =
     (let hit = (\<lambda>m. md_id m = doc_id \<and> from m) in
      if length (filter hit (t_manual_docs d)) \<noteq> 1 then Inl (ValueError err)
      else Inr (d\<lparr>t_manual_docs := update_where hit upd (t_manual_docs d)\<rparr>))"

definition complete_manual_doc :: "int \<Rightarrow> db \<Rightarrow> db result" where
  "complete_manual_doc doc_id d =
     set_manual_doc ''manual_doc_complete_reject'' (\<lambda>m. md_status m = ''RELEASED'')
       (\<lambda>m. m\<lparr>md_status := ''COMPLETED''\<rparr>) doc_id d"

definition release_manual_doc :: "int \<Rightarrow> int \<Rightarrow> int option \<Rightarrow> db \<Rightarrow> db result" where
  "release_manual_doc now doc_id released_by d =
     (if filter (\<lambda>l. ml_doc_id l = doc_id) (t_manual_lines d) = []
      then Inl (ValueError ''manual_doc_has_no_lines'')
      else set_manual_doc ''manual_doc_release_reject'' (\<lambda>m. md_status m = ''DRAFT'')
        (\<lambda>m. m\<lparr>md_status := ''RELEASED'', md_released_by := released_by, md_released_at := Some now\<rparr>)
        doc_id d)"

definition void_manual_doc :: "int \<Rightarrow> int \<Rightarrow> int option \<Rightarrow> db \<Rightarrow> db result" where
  "void_manual_doc now doc_id voided_by d =
     set_manual_doc ''manual_doc_void_reject'' (\<lambda>m. md_status m \<in> {''DRAFT'', ''RELEASED''})
       (\<lambda>m. m\<lparr>md_status := ''VOIDED'', md_voided_by := voided_by, md_voided_at := Some now\<rparr>)
       doc_id d"

record manual_doc_line_in =
  mi_item_id :: int
  mi_item_uom_id :: int
  mi_requested_qty :: int
  mi_item_name_snapshot :: "string option"
  mi_item_sku_snapshot :: "string option"
  mi_item_spec_snapshot :: "string option"
  mi_uom_name_snapshot :: "string option"

record manual_doc_in =
  mdi_warehouse_id :: int
  mdi_doc_type :: string
  mdi_recipient_name :: string
  mdi_remark :: "string option"
  mdi_lines :: "manual_doc_line_in list"

definition manual_doc_in_valid :: "manual_doc_in \<Rightarrow> bool" where
  "manual_doc_in_valid p \<longleftrightarrow> 1 \<le> mdi_warehouse_id p \<and> mdi_doc_type p \<noteq> [] \<and>
     mdi_recipient_name p \<noteq> [] \<and>
     list_all (\<lambda>l. 1 \<le> mi_item_id l \<and> 1 \<le> mi_item_uom_id l \<and> 0 < mi_requested_qty l) (mdi_lines p)"

definition insert_manual_line :: "int \<Rightarrow> int \<times> manual_doc_line_in \<Rightarrow> db \<Rightarrow> db result" where
  "insert_manual_line doc_id nl d =
     (case nl of (line_no, l) \<Rightarrow>
      let (nid, d1) = next_id MANUAL_OUTBOUND_LINES d in
      if \<not> int4 (mi_requested_qty l) then Inl (DataError ''integer out of range'')
      else if (doc_id, line_no) \<in> (\<lambda>x. (ml_doc_id x, ml_line_no x)) ` set (t_manual_lines d)
      then Inl (IntegrityError ''uq_internal_outbound_lines_doc_line_no'')
      else if mi_item_id l \<notin> it_id ` set (t_items d) \<or> mi_item_uom_id l \<notin> uo_id ` set (t_item_uoms d)
      then Inl (IntegrityError ''manual_outbound_lines foreign key'')
      else Inr (d1\<lparr>t_manual_lines := t_manual_lines d1 @
        [\<lparr>ml_id = nid, ml_doc_id = doc_id, ml_line_no = line_no, ml_item_id = mi_item_id l,
          ml_item_uom_id = mi_item_uom_id l, ml_requested_qty = mi_requested_qty l,
          ml_item_name_snapshot = strip_if_truthy (mi_item_name_snapshot l),
          ml_item_sku_snapshot = strip_if_truthy (mi_item_sku_snapshot l),
          ml_item_spec_snapshot = strip_if_truthy (mi_item_spec_snapshot l),
          ml_uom_name_snapshot = strip_if_truthy (mi_uom_name_snapshot l)\<rparr>]\<rparr>))"

definition create_manual_doc :: "int \<Rightarrow> string \<Rightarrow> int option \<Rightarrow> manual_doc_in \<Rightarrow> int tx" where
  "create_manual_doc now doc_no created_by p d =
     (let (doc_id, d1) = next_id MANUAL_OUTBOUND_DOCS d in
      if (mdi_warehouse_id p, doc_no) \<in> (\<lambda>m. (md_warehouse_id m, md_doc_no m)) ` set (t_manual_docs d)
      then Inl (IntegrityError ''ix_internal_outbound_docs_warehouse_doc_no'')
      else
        let d2 = d1\<lparr>t_manual_docs := t_manual_docs d1 @
          [\<lparr>md_id = doc_id, md_warehouse_id = mdi_warehouse_id p, md_doc_no = doc_no,
            md_doc_type = py_strip (mdi_doc_type p), md_status = ''DRAFT'',
            md_recipient_name = py_strip (mdi_recipient_name p),
            md_remark = strip_if_truthy (mdi_remark p), md_created_by = created_by,
            md_created_at = now, md_released_by = None, md_released_at = None,
            md_voided_by = None, md_voided_at = None\<rparr>]\<rparr>
        in bindE (foldE (insert_manual_line doc_id)
             (zip (map int [1 ..< length (mdi_lines p) + 1]) (mdi_lines p)) d2) (\<lambda>d3.
           Inr (doc_id, d3)))"

text \<open>A manual submission completes its document once every line has reached its request.\<close>

definition submit_manual_outbound_event ::
  "int \<Rightarrow> int \<Rightarrow> int option \<Rightarrow> string \<Rightarrow> manual_submit_in \<Rightarrow> int option \<Rightarrow> outbound_submit_out tx" where
  "submit_manual_outbound_event now doc_id operator_id trace p occurred_at d =
     bindE (load_manual_submit_context d doc_id) (\<lambda>ctx.
     bindE (normalize_submit_lines (normalize_manual_line ctx) (ms_lines p)) (\<lambda>lines.
     bindE (write_event_and_ledger now (mc_warehouse_id ctx) ''MANUAL'' (mc_source_ref ctx) operator_id
              trace occurred_at (ms_remark p) lines d) (\<lambda>(out, d1).
     let progress = list_manual_doc_progress d1 doc_id in
     if progress \<noteq> [] \<and> list_all (\<lambda>(_, requested, submitted). requested \<le> submitted) progress
     then bindE (complete_manual_doc doc_id d1) (\<lambda>d2. Inr (out, d2))
     else Inr (out, d1))))"

section \<open>The routes\<close>

text \<open>The order route answers 409 for every \<open>ValueError\<close>; the manual route lets it through.\<close>

definition submit_order_outbound ::
  "int \<Rightarrow> int \<Rightarrow> int option \<Rightarrow> string \<Rightarrow> order_submit_in \<Rightarrow> outbound_submit_out tx" where
  "submit_order_outbound now oid user_id trace p d =
     (case submit_order_outbound_event now oid (os_warehouse_id p) user_id trace p None d of
        Inl (ValueError m) \<Rightarrow> Inl (HTTPException 409 m)
      | r \<Rightarrow> r)"

definition submit_manual_outbound ::
  "int \<Rightarrow> int \<Rightarrow> int option \<Rightarrow> string \<Rightarrow> manual_submit_in \<Rightarrow> outbound_submit_out tx" where
  "submit_manual_outbound now doc_id user_id trace p d =
     submit_manual_outbound_event now doc_id user_id trace p None d"

section \<open>What a shipment does\<close>

lemma outbound_ledger_row_sel [simp]:
  "lg_delta (outbound_ledger_row i w lid q a ts r rl tr e) = - q"
  "lg_after_qty (outbound_ledger_row i w lid q a ts r rl tr e) = a"
  "lg_ref (outbound_ledger_row i w lid q a ts r rl tr e) = r"
  "lg_ref_line (outbound_ledger_row i w lid q a ts r rl tr e) = rl"
  "lg_reason (outbound_ledger_row i w lid q a ts r rl tr e) = ''OUTBOUND_SHIP''"
  "lg_reason_canon (outbound_ledger_row i w lid q a ts r rl tr e) = Some ''OUTBOUND''"
  "lg_event_id (outbound_ledger_row i w lid q a ts r rl tr e) = Some e"
  "ledger_slot (outbound_ledger_row i w lid q a ts r rl tr e) = (w, i, lid)"
  "ledger_key (outbound_ledger_row i w lid q a ts r rl tr e) = (''OUTBOUND_SHIP'', r, rl, i, w, lid)"
  "dates_only_on_receipt (outbound_ledger_row i w lid q a ts r rl tr e)"
  by (simp_all add: outbound_ledger_row_def ledger_slot_def ledger_key_def dates_only_on_receipt_def)

lemma ledger_id_update [simp]:
  "ledger_slot (r\<lparr>lg_id := n\<rparr>) = ledger_slot r" "ledger_key (r\<lparr>lg_id := n\<rparr>) = ledger_key r"
  "dates_only_on_receipt (r\<lparr>lg_id := n\<rparr>) = dates_only_on_receipt r"
  by (simp_all add: ledger_slot_def ledger_key_def dates_only_on_receipt_def)

definition ship_slot :: "int \<Rightarrow> outbound_event_line \<Rightarrow> slot" where
  "ship_slot w l = (w, ol_item_id l, ol_lot_id l)"

lemma ship_line_Inr:
  assumes "ship_line w src_ref trace ts ln d = Inr (u, d')"
  obtains r where "posts d [r] d'" "rest_of d' = rest_of d" "books_outbound_line w src_ref (- 1) ln r"
    "lg_reason r = ''OUTBOUND_SHIP''" "lg_reason_canon r = Some ''OUTBOUND''"
    "ledger_key r \<notin> ledger_key ` set (t_ledger d)"
    "ol_qty_outbound ln \<le> slot_qty d (ship_slot w ln)"
proof -
  let ?row = "\<lambda>a. outbound_ledger_row (ol_item_id ln) w (ol_lot_id ln) (ol_qty_outbound ln) a ts src_ref
      (ol_ref_line ln) trace (ol_event_id ln)"
  let ?n = "t_next_id d STOCK_LEDGER"
  from assms obtain s where s: "slot_row d (ship_slot w ln) = Some s" "ol_qty_outbound ln \<le> sl_qty s"
      "ledger_key (?row (sl_qty s - ol_qty_outbound ln)) \<notin> ledger_key ` set (t_ledger d)" and
    d': "d' = update_stocks_lot_qty w (ol_item_id ln) (ol_lot_id ln) (sl_qty s - ol_qty_outbound ln)
      (d\<lparr>t_next_id := (t_next_id d)(STOCK_LEDGER := ?n + 1),
         t_ledger := t_ledger d @ [?row (sl_qty s - ol_qty_outbound ln)\<lparr>lg_id := ?n\<rparr>]\<rparr>)"
    by (auto simp: ship_line_def load_stocks_lot_for_update_def insert_outbound_stock_ledger_def
        next_id_def Let_def res_simps ship_slot_def split: if_splits)
  let ?r = "?row (sl_qty s - ol_qty_outbound ln)\<lparr>lg_id := ?n\<rparr>"
  show thesis
  proof (rule that [of ?r])
    show "posts d [?r] d'"
      by (rule posts_row [where s = s])
        (use s in \<open>simp_all add: d' update_stocks_lot_qty_def ship_slot_def\<close>)
    show "rest_of d' = rest_of d"
      by (simp add: d' update_stocks_lot_qty_def rest_of_def fun_eq_iff)
    show "ol_qty_outbound ln \<le> slot_qty d (ship_slot w ln)" using s by (simp add: slot_qty_def)
  qed (use s in \<open>simp_all add: books_outbound_line_def\<close>)
qed

lemma ship_line_warehouse_inv:
  assumes "ship_line w src_ref trace ts ln d = Inr (u, d')" and "warehouse_inv d"
  shows "warehouse_inv d'"
proof -
  from ship_line_Inr [OF assms(1)] obtain r where
    r: "posts d [r] d'" "rest_of d' = rest_of d" by metis
  note rest = rest_ofD [OF r(2)]
  have "lots_inv d' = lots_inv d" by (rule lots_inv_cong) (simp_all add: rest)
  moreover have "events_inv d' = events_inv d" by (rule events_inv_cong) (simp_all add: rest)
  ultimately show ?thesis using posts_inv [OF r(1)] assms(2) by (simp add: warehouse_inv_def)
qed

text \<open>The ledger rows a loop of \<open>ship_line\<close> writes, one per saved line.\<close>

lemma ship_loop:
  "mapE (ship_line w src_ref trace ts) ls d = Inr (us, d') \<Longrightarrow> warehouse_inv d \<Longrightarrow>
   warehouse_inv d' \<and> rest_of d' = rest_of d \<and>
   (\<exists>rs. posts d rs d' \<and> list_all2 (\<lambda>l r. books_outbound_line w src_ref (- 1) l r \<and>
       lg_reason r = ''OUTBOUND_SHIP'' \<and> lg_reason_canon r = Some ''OUTBOUND'') ls rs \<and>
     (\<forall>r \<in> set rs. ledger_key r \<notin> ledger_key ` set (t_ledger d)))"
proof (induction ls arbitrary: d us)
  case Nil
  then show ?case by (auto intro: posting.traced_nil exI [of _ "[]"])
next
  case (Cons l ls)
  from Cons.prems(1) obtain u d1 vs where
    1: "ship_line w src_ref trace ts l d = Inr (u, d1)" and
    2: "mapE (ship_line w src_ref trace ts) ls d1 = Inr (vs, d')"
    by (auto simp: res_simps simp del: mapE.simps)
  obtain r where
    r: "posts d [r] d1" "rest_of d1 = rest_of d" "books_outbound_line w src_ref (- 1) l r"
      "lg_reason r = ''OUTBOUND_SHIP''" "lg_reason_canon r = Some ''OUTBOUND''"
      "ledger_key r \<notin> ledger_key ` set (t_ledger d)" by (rule ship_line_Inr [OF 1])
  have led: "t_ledger d1 = t_ledger d @ [r]"
    using posts_ledger [OF r(1) warehouse_invD(2) [OF Cons.prems(2)]] .
  from Cons.IH [OF 2 ship_line_warehouse_inv [OF 1 Cons.prems(2)]] obtain rs where
    i: "warehouse_inv d'" "rest_of d' = rest_of d1" "posts d1 rs d'"
      "list_all2 (\<lambda>l r. books_outbound_line w src_ref (- 1) l r \<and>
       lg_reason r = ''OUTBOUND_SHIP'' \<and> lg_reason_canon r = Some ''OUTBOUND'') ls rs"
      "\<forall>r \<in> set rs. ledger_key r \<notin> ledger_key ` set (t_ledger d1)" by blast
  have "posts d (r # rs) d'" using posting.traced_app [OF r(1) i(3)] by simp
  moreover have "list_all2 (\<lambda>l r. books_outbound_line w src_ref (- 1) l r \<and>
       lg_reason r = ''OUTBOUND_SHIP'' \<and> lg_reason_canon r = Some ''OUTBOUND'') (l # ls) (r # rs)"
    using i(4) r by simp
  moreover have "\<forall>x \<in> set (r # rs). ledger_key x \<notin> ledger_key ` set (t_ledger d)"
    using i(5) r(6) led by auto
  ultimately show ?case using i(1,2) r(2) by (intro conjI exI [of _ "r # rs"]) simp_all
qed

definition ship_rest :: "db \<Rightarrow> _" where
  "ship_rest d = (t_items d, t_item_uoms d, t_lots d, t_inbound_lines d, t_orders d, t_order_lines d,
     t_manual_docs d, t_manual_lines d, t_count_docs d, t_count_lines d, t_count_snapshots d,
     t_completion d, t_purchase_orders d, t_purchase_lines d,
     \<lambda>t. if t \<in> {STOCKS_LOT, STOCK_LEDGER, WMS_EVENTS, OUTBOUND_EVENT_LINES} then 0 else t_next_id d t)"

lemma ship_restD [row_simps]:
  assumes "ship_rest d' = ship_rest d"
  shows "t_items d' = t_items d" "t_item_uoms d' = t_item_uoms d" "t_lots d' = t_lots d"
    "t_inbound_lines d' = t_inbound_lines d" "t_orders d' = t_orders d"
    "t_order_lines d' = t_order_lines d" "t_manual_docs d' = t_manual_docs d"
    "t_manual_lines d' = t_manual_lines d" "t_count_docs d' = t_count_docs d"
    "t_count_lines d' = t_count_lines d" "t_count_snapshots d' = t_count_snapshots d"
    "t_completion d' = t_completion d"
    "t \<notin> {STOCKS_LOT, STOCK_LEDGER, WMS_EVENTS, OUTBOUND_EVENT_LINES} \<Longrightarrow> t_next_id d' t = t_next_id d t"
    "t_purchase_orders d' = t_purchase_orders d" "t_purchase_lines d' = t_purchase_lines d"
  using assms by (auto simp: ship_rest_def dest: fun_cong [where x = t])

text \<open>The event lines the submission saves.\<close>

definition saved_line_of :: "int \<Rightarrow> norm_line \<Rightarrow> outbound_event_line \<Rightarrow> bool" where
  "saved_line_of eid n l \<longleftrightarrow> ol_event_id l = eid \<and> ol_ref_line l = nl_ref_line n \<and>
     ol_item_id l = nl_item_id n \<and> ol_qty_outbound l = nl_qty_outbound n \<and>
     ol_lot_id l = nl_lot_id n \<and> ol_order_line_id l = nl_order_line_id n \<and>
     ol_manual_doc_line_id l = nl_manual_doc_line_id n \<and> 0 < ol_qty_outbound l"

lemma insert_lines_loop:
  "mapE (insert_outbound_event_line eid codes) ns d = Inr (saved, d') \<Longrightarrow> warehouse_inv d \<Longrightarrow>
   warehouse_inv d' \<and> posts d [] d' \<and> t_outbound_lines d' = t_outbound_lines d @ saved \<and>
   list_all2 (saved_line_of eid) ns saved \<and>
   ship_rest d' = ship_rest d \<and> t_events d' = t_events d \<and> t_ledger d' = t_ledger d"
proof (induction ns arbitrary: d saved)
  case Nil
  then show ?case by (simp add: posting.traced_nil)
next
  case (Cons n ns)
  from Cons.prems(1) obtain l d1 ls where
    1: "insert_outbound_event_line eid codes n d = Inr (l, d1)" and
    2: "mapE (insert_outbound_event_line eid codes) ns d1 = Inr (ls, d')" and
    3: "saved = l # ls"
    by (auto simp: res_simps simp del: mapE.simps)
  from 1 obtain k where
    k: "insert_outbound_line (outbound_line_of eid codes n) d = Inr (k, d1)"
      "l = outbound_line_of eid codes n\<lparr>ol_id := k\<rparr>"
    by (auto simp: insert_outbound_event_line_def res_simps)
  note i = insert_outbound_line_Inr [OF k(1)]
  have inv1: "warehouse_inv d1"
    by (rule insert_outbound_line_warehouse_inv [OF k(1) Cons.prems(2)])
  note ih = Cons.IH [OF 2 inv1]
  have "posts d [] d'"
    using posting.traced_app [OF insert_outbound_line_posts [OF k(1)], of "[]" d'] ih by simp
  moreover have "t_outbound_lines d' = t_outbound_lines d @ saved" using ih 3 by (simp add: i(1) k(2))
  moreover have "saved_line_of eid n l"
    using i(2) by (simp add: saved_line_of_def k(2) outbound_line_of_def outbound_line_checks_def)
  moreover have "ship_rest d1 = ship_rest d" "t_events d1 = t_events d" "t_ledger d1 = t_ledger d"
    by (simp_all add: i(1) ship_rest_def fun_eq_iff)
  ultimately show ?case using ih 3 by simp
qed

lemma write_event_and_ledger_Inr:
  assumes "write_event_and_ledger now w st src_ref op tr occ remark lines d = Inr (out, d')"
    and "warehouse_inv d"
  obtains saved rs where "warehouse_inv d'" "ship_rest d' = ship_rest d"
    "ensure_warehouse_not_frozen d w = Inr ()"
    "t_events d' = t_events d @ [outbound_event_row now w st src_ref
       (case occ of Some t \<Rightarrow> t | None \<Rightarrow> now) tr op remark\<lparr>ev_id := oo_event_id out\<rparr>]"
    "oo_event_id out = t_next_id d WMS_EVENTS"
    "t_outbound_lines d' = t_outbound_lines d @ saved"
    "list_all2 (saved_line_of (oo_event_id out)) lines saved" "posts d rs d'"
    "list_all2 (\<lambda>l r. books_outbound_line w src_ref (- 1) l r \<and> lg_reason r = ''OUTBOUND_SHIP'' \<and>
       lg_reason_canon r = Some ''OUTBOUND'') saved rs"
    "\<forall>r \<in> set rs. ledger_key r \<notin> ledger_key ` set (t_ledger d)"
proof -
  let ?ev = "outbound_event_row now w st src_ref (case occ of Some t \<Rightarrow> t | None \<Rightarrow> now) tr op remark"
  from assms(1) obtain codes d1 saved d2 us where
    1: "ensure_warehouse_not_frozen d w = Inr ()" and
    2: "insert_event ?ev d = Inr (oo_event_id out, d1)" and
    3: "mapE (insert_outbound_event_line (oo_event_id out) codes) lines d1 = Inr (saved, d2)" and
    4: "mapE (ship_line w src_ref tr (case occ of Some t \<Rightarrow> t | None \<Rightarrow> now)) saved d2 = Inr (us, d')"
    by (auto simp: write_event_and_ledger_def insert_outbound_event_def Let_def res_simps)
  note e = insert_event_Inr(1,2) [OF 2]
  have inv1: "warehouse_inv d1" by (rule insert_event_warehouse_inv [OF 2 assms(2)])
  from insert_lines_loop [OF 3 inv1] have
    l: "warehouse_inv d2" "posts d1 [] d2" "t_outbound_lines d2 = t_outbound_lines d1 @ saved"
      "list_all2 (saved_line_of (oo_event_id out)) lines saved"
      "ship_rest d2 = ship_rest d1" "t_events d2 = t_events d1" "t_ledger d2 = t_ledger d1"
    by blast+
  from ship_loop [OF 4 l(1)] obtain rs where
    s: "warehouse_inv d'" "rest_of d' = rest_of d2" "posts d2 rs d'"
      "list_all2 (\<lambda>l r. books_outbound_line w src_ref (- 1) l r \<and>
       lg_reason r = ''OUTBOUND_SHIP'' \<and> lg_reason_canon r = Some ''OUTBOUND'') saved rs"
      "\<forall>r \<in> set rs. ledger_key r \<notin> ledger_key ` set (t_ledger d2)" by blast
  note rest = rest_ofD [OF s(2)]
  have "t_ledger d2 = t_ledger d" by (simp add: l(7) e(2))
  with s(5) have new: "\<forall>r \<in> set rs. ledger_key r \<notin> ledger_key ` set (t_ledger d)" by simp
  have p: "posts d rs d'"
    using posting.traced_app [OF insert_event_posts [OF 2] posting.traced_app [OF l(2) s(3)]] by simp
  have "ship_rest d' = ship_rest d2" by (auto simp: ship_rest_def rest)
  moreover have "ship_rest d1 = ship_rest d" by (simp add: ship_rest_def e(2) fun_eq_iff)
  ultimately have "ship_rest d' = ship_rest d" using l(5) by simp
  moreover have "t_events d' = t_events d @ [?ev\<lparr>ev_id := oo_event_id out\<rparr>]"
    by (simp add: rest l(6) e(2))
  moreover have "t_outbound_lines d' = t_outbound_lines d @ saved"
    using l(3) by (simp add: rest e(2))
  ultimately show thesis using that [OF s(1) _ 1 _ e(1) _ l(4) p s(4) new] by blast
qed

section \<open>Normalisation and checks\<close>

lemma normalize_submit_lines_Inr:
  assumes "normalize_submit_lines check ls = Inr ns"
  shows "ls \<noteq> []" and "list_all2 (\<lambda>x n. check x = Inr n) (number_submit_lines ls) ns"
proof -
  from assms show "ls \<noteq> []" by (auto simp: normalize_submit_lines_def)
  from assms obtain u where "mapE (\<lambda>x u. bindE (check x) (\<lambda>y. Inr (y, u))) (number_submit_lines ls) () = Inr (ns, u)"
    by (auto simp: normalize_submit_lines_def res_simps split: if_splits)
  then show "list_all2 (\<lambda>x n. check x = Inr n) (number_submit_lines ls) ns"
    by (rule mapE_list_all2) (auto simp: res_simps)
qed

lemma snd_number_submit_lines [simp]: "map snd (number_submit_lines ls) = ls"
  by (simp add: number_submit_lines_def del: upt_Suc)

lemma number_submit_lines_nth:
  "k < length ls \<Longrightarrow> number_submit_lines ls ! k = (int k + 1, ls ! k)"
  by (simp add: number_submit_lines_def del: upt_Suc)

lemma length_number_submit_lines [simp]: "length (number_submit_lines ls) = length ls"
  by (simp add: number_submit_lines_def del: upt_Suc)

text \<open>A normalised line repeats the raw one under its source line.\<close>

definition norm_of :: "bool \<Rightarrow> int \<times> submit_line_in \<Rightarrow> norm_line \<Rightarrow> bool" where
  "norm_of order nl n \<longleftrightarrow> nl_ref_line n = fst nl \<and> nl_item_id n = so_item_id (snd nl) \<and>
     nl_qty_outbound n = so_qty_outbound (snd nl) \<and> nl_lot_id n = so_lot_id (snd nl) \<and>
     nl_order_line_id n = (if order then Some (so_source_line_id (snd nl)) else None) \<and>
     nl_manual_doc_line_id n = (if order then None else Some (so_source_line_id (snd nl)))"

lemma normalize_order_line_Inr: "normalize_order_line ctx nl = Inr n \<Longrightarrow> norm_of True nl n"
  by (auto simp: normalize_order_line_def norm_of_def res_simps)

lemma normalize_manual_line_Inr: "normalize_manual_line ctx nl = Inr n \<Longrightarrow> norm_of False nl n"
  by (auto simp: normalize_manual_line_def norm_of_def res_simps)

lemma foldE_unit_all: "foldE (\<lambda>x _. f x) xs () = Inr u \<longleftrightarrow> (\<forall>x \<in> set xs. f x = Inr ())"
  by (induction xs) (auto simp: res_simps)

definition order_submitted :: "db \<Rightarrow> int \<Rightarrow> int" where
  "order_submitted d n = sum_where (\<lambda>e. ol_order_line_id e = Some n) ol_qty_outbound (t_outbound_lines d)"

definition manual_submitted :: "db \<Rightarrow> int \<Rightarrow> int" where
  "manual_submitted d n =
     sum_where (\<lambda>e. ol_manual_doc_line_id e = Some n) ol_qty_outbound (t_outbound_lines d)"

lemma check_order_line_Inr:
  assumes "check_order_line d (load_order_submit_progress d oid) r w ln = Inr u"
    and "nl_order_line_id ln = Some n"
  shows "\<exists>l \<in> set (t_order_lines d). orl_order_id l = oid \<and> orl_id l = n \<and>
    order_submitted d n + nl_qty_outbound ln \<le> orl_req_qty l"
proof -
  from assms obtain req sub where p: "map_of (load_order_submit_progress d oid) n = Some (req, sub)"
      "sub + nl_qty_outbound ln \<le> req"
    by (auto simp: check_order_line_def Let_def split: option.splits if_splits)
  then have "(n, req, sub) \<in> set (load_order_submit_progress d oid)" by (meson map_of_SomeD)
  with p(2) show ?thesis by (auto simp: load_order_submit_progress_def order_submitted_def)
qed

text \<open>What a list of saved lines adds to a quantity of the lines that satisfy a test.\<close>

lemma saved_sum:
  assumes "list_all2 (norm_of b) (number_submit_lines ls) ns" and "list_all2 (saved_line_of eid) ns saved"
  shows "list_all2 (\<lambda>l s. ol_item_id s = so_item_id l \<and> ol_lot_id s = so_lot_id l \<and>
      ol_qty_outbound s = so_qty_outbound l \<and>
      ol_order_line_id s = (if b then Some (so_source_line_id l) else None) \<and>
      ol_manual_doc_line_id s = (if b then None else Some (so_source_line_id l)) \<and>
      0 < so_qty_outbound l) ls saved"
proof -
  have "list_all2 (\<lambda>nl s. (\<lambda>l. ol_item_id s = so_item_id l \<and> ol_lot_id s = so_lot_id l \<and>
      ol_qty_outbound s = so_qty_outbound l \<and>
      ol_order_line_id s = (if b then Some (so_source_line_id l) else None) \<and>
      ol_manual_doc_line_id s = (if b then None else Some (so_source_line_id l)) \<and>
      0 < so_qty_outbound l) (snd nl)) (number_submit_lines ls) saved"
    by (rule list_all2_trans [OF _ assms]) (auto simp: norm_of_def saved_line_of_def)
  then have "list_all2 (\<lambda>l s. ol_item_id s = so_item_id l \<and> ol_lot_id s = so_lot_id l \<and>
      ol_qty_outbound s = so_qty_outbound l \<and>
      ol_order_line_id s = (if b then Some (so_source_line_id l) else None) \<and>
      ol_manual_doc_line_id s = (if b then None else Some (so_source_line_id l)) \<and>
      0 < so_qty_outbound l) (map snd (number_submit_lines ls)) saved"
    by (simp only: list_all2_map1)
  then show ?thesis by simp
qed

lemma list_all2_sum_list:
  "list_all2 (\<lambda>x y. f x = g y) xs ys \<Longrightarrow> (\<Sum>x \<leftarrow> xs. f x) = (\<Sum>y \<leftarrow> ys. (g y :: int))"
  by (induction rule: list_all2_induct) auto

lemma sum_where_sum_list: "sum_where p v rs = (\<Sum>r \<leftarrow> rs. if p r then v r else 0)"
  by (induction rs) auto

lemma sum_if_none:
  "(\<And>x. x \<in> set xs \<Longrightarrow> \<not> q x) \<Longrightarrow> (\<Sum>x \<leftarrow> xs. if q x then f x else 0) = (0 :: int)"
  by (induction xs) auto

lemma order_context_ref:
  assumes "load_order_submit_context d oid = Inr ctx" and "load_order_submit_context d2 oid = Inr ctx2"
    and "t_orders d2 = t_orders d"
  shows "oc_source_ref ctx2 = oc_source_ref ctx"
  using assms by (auto simp: load_order_submit_context_def load_order_outbound_head_def Let_def res_simps)

text \<open>The effect of a submission that succeeded, for both kinds of source.\<close>

definition shipped :: "int \<Rightarrow> submit_line_in list \<Rightarrow> slot \<Rightarrow> int" where
  "shipped w ls s = (\<Sum>l \<leftarrow> ls. if (w, so_item_id l, so_lot_id l) = s then so_qty_outbound l else 0)"

lemma submission_Inr:
  assumes run: "write_event_and_ledger now w st src_ref op tr occ remark ns d = Inr (out, d')"
    and inv: "warehouse_inv d" and nrm: "list_all2 (norm_of b) (number_submit_lines ls) ns"
  shows "warehouse_inv d' \<and> ship_rest d' = ship_rest d \<and> ensure_warehouse_not_frozen d w = Inr () \<and>
    slot_qty d' s = slot_qty d s - shipped w ls s \<and>
    order_submitted d' n = order_submitted d n +
      (if b then \<Sum>l \<leftarrow> ls. if so_source_line_id l = n then so_qty_outbound l else 0 else 0) \<and>
    manual_submitted d' n = manual_submitted d n +
      (if b then 0 else \<Sum>l \<leftarrow> ls. if so_source_line_id l = n then so_qty_outbound l else 0) \<and>
    (\<forall>l \<in> set ls. 0 < so_qty_outbound l) \<and>
    (\<exists>rs. t_ledger d' = t_ledger d @ rs \<and> length rs = length ls \<and>
       (\<forall>r \<in> set rs. lg_reason r = ''OUTBOUND_SHIP'' \<and> lg_event_id r = Some (oo_event_id out) \<and>
          ledger_key r \<notin> ledger_key ` set (t_ledger d)) \<and>
       (\<forall>k < length ls. ledger_key (rs ! k) = (''OUTBOUND_SHIP'', src_ref, int k + 1,
          so_item_id (ls ! k), w, so_lot_id (ls ! k)) \<and> lg_delta (rs ! k) = - so_qty_outbound (ls ! k)))"
proof -
  obtain saved rs where w: "warehouse_inv d'" "ship_rest d' = ship_rest d"
    "ensure_warehouse_not_frozen d w = Inr ()"
    "t_outbound_lines d' = t_outbound_lines d @ saved"
    "list_all2 (saved_line_of (oo_event_id out)) ns saved" "posts d rs d'"
    "list_all2 (\<lambda>l r. books_outbound_line w src_ref (- 1) l r \<and> lg_reason r = ''OUTBOUND_SHIP'' \<and>
       lg_reason_canon r = Some ''OUTBOUND'') saved rs"
    "\<forall>r \<in> set rs. ledger_key r \<notin> ledger_key ` set (t_ledger d)"
    by (rule write_event_and_ledger_Inr [OF run inv])
  note sv = saved_sum [OF nrm w(5)]
  have led: "t_ledger d' = t_ledger d @ rs" by (rule posts_ledger [OF w(6) warehouse_invD(2) [OF inv]])
  have row: "list_all2 (\<lambda>l r. ledger_slot r = (w, so_item_id l, so_lot_id l) \<and>
      lg_delta r = - so_qty_outbound l) ls rs"
    by (rule list_all2_trans [OF _ sv w(7)]) (auto simp: books_outbound_line_def)
  have "ledger_sum rs s = - shipped w ls s"
    unfolding shipped_def using row by (induction rule: list_all2_induct) auto
  then have qty: "slot_qty d' s = slot_qty d s - shipped w ls s"
    using posts_qty [OF w(6) warehouse_invD(2) [OF inv], of s] by simp
  have len: "length rs = length ls" using list_all2_lengthD [OF row] by simp
  have os: "order_submitted d' n = order_submitted d n +
      (if b then \<Sum>l \<leftarrow> ls. if so_source_line_id l = n then so_qty_outbound l else 0 else 0)"
    and ms: "manual_submitted d' n = manual_submitted d n +
      (if b then 0 else \<Sum>l \<leftarrow> ls. if so_source_line_id l = n then so_qty_outbound l else 0)"
    unfolding order_submitted_def manual_submitted_def w(4) sum_where_append sum_where_sum_list
    using sv by (induction rule: list_all2_induct) (auto split: if_splits)
  have pos: "\<forall>l \<in> set ls. 0 < so_qty_outbound l"
    using sv by (induction rule: list_all2_induct) auto
  have rows: "list_all2 (\<lambda>n r. lg_event_id r = Some (oo_event_id out) \<and> ledger_key r =
      (''OUTBOUND_SHIP'', src_ref, nl_ref_line n, nl_item_id n, w, nl_lot_id n) \<and>
      lg_delta r = - nl_qty_outbound n) ns rs"
    by (rule list_all2_trans [OF _ w(5,7)])
      (auto simp: books_outbound_line_def saved_line_of_def ledger_key_def ledger_slot_def)
  then have ev: "\<forall>r \<in> set rs. lg_reason r = ''OUTBOUND_SHIP'' \<and> lg_event_id r = Some (oo_event_id out)"
    by (induction rule: list_all2_induct) (auto simp: ledger_key_def)
  have "ledger_key (rs ! k) = (''OUTBOUND_SHIP'', src_ref, int k + 1,
          so_item_id (ls ! k), w, so_lot_id (ls ! k)) \<and> lg_delta (rs ! k) = - so_qty_outbound (ls ! k)"
    if k: "k < length ls" for k
  proof -
    have "list_all2 (\<lambda>x r. ledger_key r = (''OUTBOUND_SHIP'', src_ref, fst x, so_item_id (snd x), w,
        so_lot_id (snd x)) \<and> lg_delta r = - so_qty_outbound (snd x)) (number_submit_lines ls) rs"
      by (rule list_all2_trans [OF _ nrm rows]) (auto simp: norm_of_def)
    from list_all2_nthD [OF this, of k] k show ?thesis by (simp add: number_submit_lines_nth)
  qed
  with w(1-3,8) qty os ms pos led len ev show ?thesis by blast
qed

lemma submit_order_Inr:
  assumes "submit_order_outbound_event now oid w op tr p occ d = Inr (out, d')"
  obtains ctx ns where "load_order_submit_context d oid = Inr ctx"
    "list_all2 (norm_of True) (number_submit_lines (os_lines p)) ns"
    "\<forall>n \<in> set ns. check_order_line d (load_order_submit_progress d oid) (oc_source_ref ctx) w n = Inr ()"
    "write_event_and_ledger now w ''ORDER'' (oc_source_ref ctx) op tr occ (os_remark p) ns d = Inr (out, d')"
proof -
  from assms obtain ctx ns where
    1: "load_order_submit_context d oid = Inr ctx"
      "normalize_submit_lines (normalize_order_line ctx) (os_lines p) = Inr ns" and
    2: "\<forall>n \<in> set ns. check_order_line d (load_order_submit_progress d oid) (oc_source_ref ctx) w n = Inr ()"
      "write_event_and_ledger now w ''ORDER'' (oc_source_ref ctx) op tr occ (os_remark p) ns d = Inr (out, d')"
    by (auto simp: submit_order_outbound_event_def Let_def res_simps foldE_unit_all)
  have "list_all2 (norm_of True) (number_submit_lines (os_lines p)) ns"
    by (rule list_all2_mono [OF normalize_submit_lines_Inr(2) [OF 1(2)]]) (rule normalize_order_line_Inr)
  with 1(1) 2 that show thesis by blast
qed

lemma submit_manual_Inr:
  assumes "submit_manual_outbound_event now doc_id op tr p occ d = Inr (out, d')"
  obtains ctx ns d1 where "load_manual_submit_context d doc_id = Inr ctx"
    "list_all2 (norm_of False) (number_submit_lines (ms_lines p)) ns"
    "write_event_and_ledger now (mc_warehouse_id ctx) ''MANUAL'' (mc_source_ref ctx) op tr occ
       (ms_remark p) ns d = Inr (out, d1)"
    "if list_manual_doc_progress d1 doc_id \<noteq> [] \<and>
        list_all (\<lambda>(_, requested, submitted). requested \<le> submitted) (list_manual_doc_progress d1 doc_id)
     then complete_manual_doc doc_id d1 = Inr d' else d' = d1"
proof -
  from assms obtain ctx ns d1 where
    1: "load_manual_submit_context d doc_id = Inr ctx"
      "normalize_submit_lines (normalize_manual_line ctx) (ms_lines p) = Inr ns" and
    2: "write_event_and_ledger now (mc_warehouse_id ctx) ''MANUAL'' (mc_source_ref ctx) op tr occ
       (ms_remark p) ns d = Inr (out, d1)" and
    3: "if list_manual_doc_progress d1 doc_id \<noteq> [] \<and>
        list_all (\<lambda>(_, requested, submitted). requested \<le> submitted) (list_manual_doc_progress d1 doc_id)
     then complete_manual_doc doc_id d1 = Inr d' else d' = d1"
    by (auto simp: submit_manual_outbound_event_def Let_def res_simps split: if_splits)
  have "list_all2 (norm_of False) (number_submit_lines (ms_lines p)) ns"
    by (rule list_all2_mono [OF normalize_submit_lines_Inr(2) [OF 1(2)]]) (rule normalize_manual_line_Inr)
  with 1(1) 2 3 that show thesis by blast
qed

section \<open>Sample data\<close>

text \<open>
  Thirty pieces of item 1 on lot 1, eight of item 2 on lot 2, an order for five of item 2 and
  twenty of item 1, and a released manual document for six of item 1.
\<close>

definition sample_row :: "int \<Rightarrow> int \<Rightarrow> int \<Rightarrow> int \<Rightarrow> stock_ledger" where
  "sample_row n i lid q =
     ledger_values 7 i lid ''RECEIPT'' None q q ''R'' n 0 None None None None\<lparr>lg_id := n\<rparr>"

definition ship_db :: db where
  "ship_db = lots_db\<lparr>
     t_stocks := [\<lparr>sl_id = 1, sl_warehouse_id = 7, sl_item_id = 1, sl_lot_id = 1, sl_qty = 30\<rparr>,
                  \<lparr>sl_id = 2, sl_warehouse_id = 7, sl_item_id = 2, sl_lot_id = 2, sl_qty = 8\<rparr>],
     t_ledger := [sample_row 1 1 1 30, sample_row 2 2 2 8],
     t_orders := [\<lparr>or_id = 1, or_platform = ''pdd'', or_store_code = ''S1'', or_ext_order_no = ''E1'',
       or_store_id = 1, or_status = Some ''CREATED'', or_buyer_name = None, or_buyer_phone = None,
       or_trace_id = None, or_created_at = 0, or_updated_at = None\<rparr>],
     t_order_lines := [\<lparr>orl_id = 1, orl_order_id = 1, orl_item_id = 2, orl_req_qty = 5\<rparr>,
                       \<lparr>orl_id = 2, orl_order_id = 1, orl_item_id = 1, orl_req_qty = 20\<rparr>],
     t_manual_docs := [\<lparr>md_id = 1, md_warehouse_id = 7, md_doc_no = ''MOB-1'', md_doc_type = ''SCRAP'',
         md_status = ''RELEASED'', md_recipient_name = ''Li'', md_remark = None, md_created_by = None,
         md_created_at = 0, md_released_by = None, md_released_at = Some 0, md_voided_by = None,
         md_voided_at = None\<rparr>],
     t_manual_lines := [\<lparr>ml_id = 1, ml_doc_id = 1, ml_line_no = 1, ml_item_id = 1, ml_item_uom_id = 12,
         ml_requested_qty = 6, ml_item_name_snapshot = None, ml_item_sku_snapshot = None,
         ml_item_spec_snapshot = None, ml_uom_name_snapshot = Some ''BOX''\<rparr>],
     t_next_id := (\<lambda>_. 3)\<rparr>"

lemma ship_db_inv: "warehouse_inv ship_db"
proof -
  have "lots_inv ship_db = lots_inv lots_db"
    by (rule lots_inv_cong) (simp_all add: ship_db_def lots_db_def)
  moreover have "events_inv ship_db"
    by (simp add: events_inv_def ship_db_def lots_db_def sample_db_def)
  moreover have "book_inv ship_db"
  proof (rule book_invI)
    show "distinct (map sl_id (t_stocks ship_db))" by (simp add: ship_db_def)
    show "distinct (map stock_slot (t_stocks ship_db))" by (simp add: ship_db_def stock_slot_def)
    show "distinct (map ledger_key (t_ledger ship_db))"
      by (simp add: ship_db_def sample_row_def ledger_key_def ledger_values_def)
    show "after_chain (t_ledger ship_db)" by code_simp
  next
    fix s assume "s \<in> set (t_stocks ship_db)"
    moreover have "list_all (\<lambda>s. sl_id s < t_next_id ship_db STOCKS_LOT \<and> 0 \<le> sl_qty s \<and>
        sl_qty s = ledger_sum (t_ledger ship_db) (stock_slot s) \<and>
        lot_at ship_db (sl_warehouse_id s) (sl_item_id s) (sl_lot_id s)) (t_stocks ship_db)" by code_simp
    ultimately show "sl_id s < t_next_id ship_db STOCKS_LOT \<and> 0 \<le> sl_qty s \<and>
        sl_qty s = ledger_sum (t_ledger ship_db) (stock_slot s) \<and>
        lot_at ship_db (sl_warehouse_id s) (sl_item_id s) (sl_lot_id s)"
      unfolding list_all_iff by blast
  next
    fix r assume "r \<in> set (t_ledger ship_db)"
    then show "ledger_slot r \<in> stock_slot ` set (t_stocks ship_db) \<and> dates_only_on_receipt r"
      by (auto simp: ship_db_def sample_row_def ledger_slot_def stock_slot_def ledger_values_def
          dates_only_on_receipt_def)
  qed
  ultimately show ?thesis using lots_db_inv by (simp add: warehouse_inv_def)
qed

definition sample_ship_line :: "int \<Rightarrow> int \<Rightarrow> int \<Rightarrow> int \<Rightarrow> submit_line_in" where
  "sample_ship_line src i q lid =
     \<lparr>so_source_line_id = src, so_item_id = i, so_qty_outbound = q, so_lot_id = lid, so_remark = None\<rparr>"

definition sample_order_submit :: order_submit_in where
  "sample_order_submit = \<lparr>os_warehouse_id = 7, os_remark = None,
     os_lines = [sample_ship_line 1 2 4 2, sample_ship_line 2 1 12 1]\<rparr>"

lemma sample_order_submit_runs:
  "\<exists>out d'. submit_order_outbound_event 9 1 7 None ''T-1'' sample_order_submit None ship_db = Inr (out, d')"
proof -
  have "returns (submit_order_outbound_event 9 1 7 None ''T-1'' sample_order_submit None ship_db) (\<lambda>_. True)"
    by code_simp
  then show ?thesis by (auto simp: returns_pair)
qed

section \<open>Properties\<close>

text \<open>
  C10. A submitted order shipment takes exactly what its lines say: the warehouse is not frozen,
  every balance falls by the quantities shipped from its slot and stays non-negative and equal to
  the sum of its ledger rows, one \<open>OUTBOUND_SHIP\<close> row per line is added under the event, numbered
  from 1, and the submitted quantity of every order line grows by the lines that name it.
\<close>

theorem submit_order_books:
  assumes "warehouse_inv d"
    and "submit_order_outbound_event now oid w op tr p occ d = Inr (out, d')"
  shows "warehouse_inv d' \<and> ensure_warehouse_not_frozen d w = Inr () \<and>
    slot_qty d' s = slot_qty d s - shipped w (os_lines p) s \<and>
    order_submitted d' n = order_submitted d n +
      (\<Sum>l \<leftarrow> os_lines p. if so_source_line_id l = n then so_qty_outbound l else 0) \<and>
    (\<exists>rs. t_ledger d' = t_ledger d @ rs \<and> length rs = length (os_lines p) \<and>
       (\<forall>r \<in> set rs. lg_reason r = ''OUTBOUND_SHIP'' \<and> lg_event_id r = Some (oo_event_id out)))"
proof -
  obtain ctx ns where "load_order_submit_context d oid = Inr ctx"
    and r: "list_all2 (norm_of True) (number_submit_lines (os_lines p)) ns"
    and "\<forall>n \<in> set ns. check_order_line d (load_order_submit_progress d oid) (oc_source_ref ctx) w n = Inr ()"
    and r2: "write_event_and_ledger now w ''ORDER'' (oc_source_ref ctx) op tr occ (os_remark p) ns d = Inr (out, d')"
    by (rule submit_order_Inr [OF assms(2)])
  show ?thesis using submission_Inr [OF r2 assms(1) r, of s n] by auto
qed

lemma submit_order_books_witness:
  "\<exists>out d'. submit_order_outbound_event 9 1 7 None ''T-1'' sample_order_submit None ship_db = Inr (out, d') \<and>
     warehouse_inv d' \<and> slot_qty d' (7, 1, 1) = 18 \<and> order_submitted d' 1 = 4"
proof -
  from sample_order_submit_runs obtain out d' where
    r: "submit_order_outbound_event 9 1 7 None ''T-1'' sample_order_submit None ship_db = Inr (out, d')"
    by (elim exE)
  have "slot_qty ship_db (7, 1, 1) = 30" "shipped 7 (os_lines sample_order_submit) (7, 1, 1) = 12"
    "order_submitted ship_db 1 = 0"
    "(\<Sum>l \<leftarrow> os_lines sample_order_submit. if so_source_line_id l = 1 then so_qty_outbound l else 0) = 4"
    by code_simp+
  with submit_order_books [OF ship_db_inv r, of "(7, 1, 1)" 1] r show ?thesis by auto
qed

lemma order_shipment_within:
  assumes "warehouse_inv d"
    and "submit_order_outbound_event now oid w op tr p occ d = Inr (out, d')"
    and "distinct (map so_source_line_id (os_lines p))" and "l \<in> set (os_lines p)"
  shows "\<exists>ol \<in> set (t_order_lines d). orl_order_id ol = oid \<and> orl_id ol = so_source_line_id l \<and>
    order_submitted d' (so_source_line_id l) \<le> orl_req_qty ol"
proof -
  obtain ctx ns where "load_order_submit_context d oid = Inr ctx"
    and r: "list_all2 (norm_of True) (number_submit_lines (os_lines p)) ns"
    "\<forall>n \<in> set ns. check_order_line d (load_order_submit_progress d oid) (oc_source_ref ctx) w n = Inr ()"
    "write_event_and_ledger now w ''ORDER'' (oc_source_ref ctx) op tr occ (os_remark p) ns d = Inr (out, d')"
    by (rule submit_order_Inr [OF assms(2)])
  have sub: "order_submitted d' n = order_submitted d n +
      (\<Sum>l \<leftarrow> os_lines p. if so_source_line_id l = n then so_qty_outbound l else 0)" for n
    using submission_Inr [OF r(3) assms(1) r(1)] by simp
  have one: "(\<Sum>x \<leftarrow> ls. if so_source_line_id x = so_source_line_id l then so_qty_outbound x else 0) =
      so_qty_outbound l" if "distinct (map so_source_line_id ls)" "l \<in> set ls" for ls
    using that
  proof (induction ls)
    case (Cons x xs)
    have "(\<Sum>y \<leftarrow> xs. if so_source_line_id y = so_source_line_id l then so_qty_outbound y else 0) = 0"
      if "x = l" by (rule sum_if_none) (use Cons.prems(1) that in \<open>auto simp: image_iff\<close>)
    with Cons show ?case by (cases "x = l") (auto simp: image_iff)
  qed simp
  from assms(4) obtain nl where nl: "nl \<in> set (number_submit_lines (os_lines p))" "snd nl = l"
    by (metis (no_types, lifting) imageE list.set_map snd_number_submit_lines)
  with list_all2_in [OF r(1)] obtain n where n: "n \<in> set ns" "norm_of True nl n" by blast
  then have "nl_order_line_id n = Some (so_source_line_id l)" "nl_qty_outbound n = so_qty_outbound l"
    using nl(2) by (simp_all add: norm_of_def)
  with check_order_line_Inr [of d oid "oc_source_ref ctx" w n] r(2) n(1) one [OF assms(3,4)] sub
  show ?thesis by fastforce
qed

text \<open>
  C11. A submission that names every order line at most once never ships more than was ordered:
  every line it names belongs to the order, and its submitted quantity, this shipment included,
  is within the requested one.
\<close>

theorem submit_order_within_request:
  assumes "warehouse_inv d"
    and "submit_order_outbound_event now oid w op tr p occ d = Inr (out, d')"
    and "distinct (map so_source_line_id (os_lines p))" and "l \<in> set (os_lines p)"
  shows "\<exists>ol \<in> set (t_order_lines d). orl_order_id ol = oid \<and> orl_id ol = so_source_line_id l \<and>
    order_submitted d' (so_source_line_id l) \<le> orl_req_qty ol"
  by (rule order_shipment_within [OF assms])

lemma submit_order_within_request_witness:
  "\<exists>out d'. submit_order_outbound_event 9 1 7 None ''T-1'' sample_order_submit None ship_db = Inr (out, d') \<and>
     order_submitted d' 1 \<le> 5"
proof -
  from sample_order_submit_runs obtain out d' where
    r: "submit_order_outbound_event 9 1 7 None ''T-1'' sample_order_submit None ship_db = Inr (out, d')"
    by (elim exE)
  have l: "distinct (map so_source_line_id (os_lines sample_order_submit))"
    "sample_ship_line 1 2 4 2 \<in> set (os_lines sample_order_submit)"
    by (simp_all add: sample_order_submit_def sample_ship_line_def)
  from submit_order_within_request [OF ship_db_inv r l] have "order_submitted d' 1 \<le> 5"
    by (auto simp: ship_db_def sample_ship_line_def)
  with r show ?thesis by blast
qed

definition split_order_submit :: order_submit_in where
  "split_order_submit = \<lparr>os_warehouse_id = 7, os_remark = None,
     os_lines = [sample_ship_line 1 2 4 2, sample_ship_line 1 2 4 2]\<rparr>"

text \<open>
  The over-submission check looks at each payload line alone: a valid payload that names one
  order line twice ships eight pieces of an order line that asks for five.
\<close>

theorem order_over_submit_by_split:
  "order_submit_valid split_order_submit \<and>
   returns (submit_order_outbound_event 9 1 7 None ''T-1'' split_order_submit None ship_db)
     (\<lambda>(_, d'). order_submitted d' 1 = 8) \<and>
   map orl_req_qty (filter (\<lambda>l. orl_id l = 1) (t_order_lines ship_db)) = [5]"
  by code_simp

text \<open>
  C12. Partial shipments of an order collide: every submission numbers its lines from 1 under the
  same reference and reason, so whatever happens in between, a later shipment of the order from
  the same warehouse that has the same item and lot at a position an earlier one had fails on
  the unique key of the ledger.
\<close>

theorem partial_shipments_collide:
  assumes "warehouse_inv d" and "warehouse_inv e"
    and "submit_order_outbound_event now oid w op tr p occ d = Inr (out, d1)"
    and "t_orders e = t_orders d" and "set (t_ledger d1) \<subseteq> set (t_ledger e)"
    and "submit_order_outbound_event now2 oid w op2 tr2 p2 occ2 e = Inr (out2, e1)"
    and "k < length (os_lines p)" and "k < length (os_lines p2)"
  shows "(so_item_id (os_lines p2 ! k), so_lot_id (os_lines p2 ! k)) \<noteq>
    (so_item_id (os_lines p ! k), so_lot_id (os_lines p ! k))"
proof
  assume same: "(so_item_id (os_lines p2 ! k), so_lot_id (os_lines p2 ! k)) =
    (so_item_id (os_lines p ! k), so_lot_id (os_lines p ! k))"
  obtain ctx ns where a: "load_order_submit_context d oid = Inr ctx"
    "list_all2 (norm_of True) (number_submit_lines (os_lines p)) ns"
    and "\<forall>n \<in> set ns. check_order_line d (load_order_submit_progress d oid) (oc_source_ref ctx) w n = Inr ()"
    and a2: "write_event_and_ledger now w ''ORDER'' (oc_source_ref ctx) op tr occ (os_remark p) ns d = Inr (out, d1)"
    by (rule submit_order_Inr [OF assms(3)])
  obtain ctx2 ns2 where b: "load_order_submit_context e oid = Inr ctx2"
    "list_all2 (norm_of True) (number_submit_lines (os_lines p2)) ns2"
    and "\<forall>n \<in> set ns2. check_order_line e (load_order_submit_progress e oid) (oc_source_ref ctx2) w n = Inr ()"
    and b2: "write_event_and_ledger now2 w ''ORDER'' (oc_source_ref ctx2) op2 tr2 occ2 (os_remark p2) ns2 e = Inr (out2, e1)"
    by (rule submit_order_Inr [OF assms(6)])
  have ref: "oc_source_ref ctx2 = oc_source_ref ctx" by (rule order_context_ref [OF a(1) b(1) assms(4)])
  from submission_Inr [OF a2 assms(1) a(2)] obtain rs where
    r: "t_ledger d1 = t_ledger d @ rs" "length rs = length (os_lines p)"
      "\<forall>k < length (os_lines p). ledger_key (rs ! k) = (''OUTBOUND_SHIP'', oc_source_ref ctx, int k + 1,
          so_item_id (os_lines p ! k), w, so_lot_id (os_lines p ! k))" by blast
  from submission_Inr [OF b2 assms(2) b(2)] obtain rs2 where
    r2: "length rs2 = length (os_lines p2)" "\<forall>r \<in> set rs2. ledger_key r \<notin> ledger_key ` set (t_ledger e)"
      "\<forall>k < length (os_lines p2). ledger_key (rs2 ! k) = (''OUTBOUND_SHIP'', oc_source_ref ctx2, int k + 1,
          so_item_id (os_lines p2 ! k), w, so_lot_id (os_lines p2 ! k))" by blast
  have "ledger_key (rs2 ! k) = ledger_key (rs ! k)" using r(3) r2(3) assms(7,8) ref same by simp
  moreover have "rs ! k \<in> set (t_ledger e)" using r(1,2) assms(5,7) by auto
  moreover have "ledger_key (rs2 ! k) \<notin> ledger_key ` set (t_ledger e)" using r2(1,2) assms(8) by simp
  ultimately show False by (metis imageI)
qed

definition second_order_submit :: order_submit_in where
  "second_order_submit = \<lparr>os_warehouse_id = 7, os_remark = None, os_lines = [sample_ship_line 2 1 3 1]\<rparr>"

lemma partial_shipments_collide_witness:
  "\<exists>out d1 out2 d2. submit_order_outbound_event 9 1 7 None ''T-1'' sample_order_submit None ship_db = Inr (out, d1) \<and>
     submit_order_outbound_event 9 1 7 None ''T-2'' second_order_submit None d1 = Inr (out2, d2) \<and>
     so_item_id (os_lines second_order_submit ! 0) \<noteq> so_item_id (os_lines sample_order_submit ! 0)"
proof -
  have "returns (submit_order_outbound_event 9 1 7 None ''T-1'' sample_order_submit None ship_db)
    (\<lambda>(_, d1). t_orders d1 = t_orders ship_db \<and>
      returns (submit_order_outbound_event 9 1 7 None ''T-2'' second_order_submit None d1) (\<lambda>_. True))"
    by code_simp
  then obtain out d1 out2 d2 where
    r: "submit_order_outbound_event 9 1 7 None ''T-1'' sample_order_submit None ship_db = Inr (out, d1)"
      "t_orders d1 = t_orders ship_db"
      "submit_order_outbound_event 9 1 7 None ''T-2'' second_order_submit None d1 = Inr (out2, d2)"
    by (auto simp: returns_pair)
  have inv: "warehouse_inv d1" using submit_order_books [OF ship_db_inv r(1), of undefined 0] by simp
  from partial_shipments_collide [OF ship_db_inv inv r(1,2) subset_refl r(3), of 0] r
  show ?thesis by (auto simp: sample_order_submit_def second_order_submit_def sample_ship_line_def)
qed

end
