(* ===== verification/ThreeBooks.thy ===== *)
theory ThreeBooks
  imports Outbound
begin

text \<open>
  The daily stock snapshot (\<open>app/wms/snapshot/services/snapshot_run.py\<close>) and the consistency gate
  of the three books (\<open>app/wms/shared/services/three_books_consistency.py\<close>,
  \<open>three_books_enforcer.py\<close>): ledger, balances and snapshot. The snapshot table stands beside the
  warehouse database; its serial ids are not modelled. A timestamp counts microseconds, a snapshot
  date is the number of its day in UTC. The summary \<open>run_snapshot\<close> returns is read from a view or
  computed by \<open>compute_summary\<close>; nothing depends on it.
\<close>

section \<open>stock\_snapshot.py, snapshot\_run.py\<close>

record stock_snapshot =
  ss_date :: int
  ss_warehouse_id :: int
  ss_item_id :: int
  ss_lot_id :: int
  ss_qty :: int
  ss_qty_allocated :: int
  ss_qty_available :: int

definition day_of :: "int \<Rightarrow> int" where
  "day_of ts = ts div 86400000000"

text \<open>\<open>SELECT ... SUM(qty) ... GROUP BY warehouse_id, item_id, lot_id\<close>.\<close>

definition snapshot_row :: "int \<Rightarrow> db \<Rightarrow> slot \<Rightarrow> stock_snapshot" where
  "snapshot_row today d s = (case s of (w, i, lid) \<Rightarrow>
     let q = sum_where (\<lambda>r. stock_slot r = s) sl_qty (t_stocks d) in
     \<lparr>ss_date = today, ss_warehouse_id = w, ss_item_id = i, ss_lot_id = lid, ss_qty = q,
      ss_qty_allocated = 0, ss_qty_available = q\<rparr>)"

definition rebuild_snapshot_today_from_lot ::
  "int \<Rightarrow> db \<Rightarrow> stock_snapshot list \<Rightarrow> (int \<times> stock_snapshot list) result" where
  "rebuild_snapshot_today_from_lot today d snaps =
     (let rows = map (snapshot_row today d) (remdups (map stock_slot (t_stocks d))) in
      if \<not> list_all (\<lambda>r. lot_at d (ss_warehouse_id r) (ss_item_id r) (ss_lot_id r)) rows
      then Inl (IntegrityError ''fk_stock_snapshots_lot_dims'')
      else Inr (int (length rows), filter (\<lambda>r. ss_date r \<noteq> today) snaps @ rows))"

record books_summary =
  bs_sum_stocks_lot :: int
  bs_sum_stocks :: int
  bs_sum_ledger :: int
  bs_sum_snapshot_qty :: int
  bs_sum_snapshot_available :: int

definition compute_summary :: "db \<Rightarrow> stock_snapshot list \<Rightarrow> books_summary" where
  "compute_summary d snaps =
     \<lparr>bs_sum_stocks_lot = sum_list (map sl_qty (t_stocks d)), bs_sum_stocks = sum_list (map sl_qty (t_stocks d)),
      bs_sum_ledger = sum_list (map lg_delta (t_ledger d)), bs_sum_snapshot_qty = sum_list (map ss_qty snaps),
      bs_sum_snapshot_available = sum_list (map ss_qty_available snaps)\<rparr>"

definition run_snapshot :: "int \<Rightarrow> db \<Rightarrow> stock_snapshot list \<Rightarrow> stock_snapshot list result" where
  "run_snapshot today d snaps = bindE (rebuild_snapshot_today_from_lot today d snaps) (\<lambda>(_, s). Inr s)"

section \<open>three\_books\_consistency.py\<close>

record effect =
  ef_warehouse_id :: int
  ef_item_id :: int
  ef_lot_id :: "int option"
  ef_batch_code :: "string option"
  ef_qty :: int
  ef_ref_line :: int
  ef_reason :: "string option"

text \<open>The lot with a code, unless there are several.\<close>

definition resolve_lot_id_by_lot_code :: "db \<Rightarrow> int \<Rightarrow> int \<Rightarrow> string option \<Rightarrow> int option" where
  "resolve_lot_id_by_lot_code d w i code =
     (case norm_lot_code code of
        None \<Rightarrow> None
      | Some c \<Rightarrow> (case filter (\<lambda>l. lot_warehouse_id l = w \<and> lot_item_id l = i \<and>
            lot_code_source l = SUPPLIER \<and> lot_code l = Some c) (t_lots d) of
            [l] \<Rightarrow> Some (lot_id l) | _ \<Rightarrow> None))"

text \<open>
  Step 1 for one effect: its ledger row exists and has its delta. Under a reason the key of the
  ledger leaves one row at most; without one the code's \<open>LIMIT 1\<close> takes any row of the reference and
  line, here the oldest.
\<close>

definition effect_booked :: "db \<Rightarrow> int \<Rightarrow> string \<Rightarrow> effect \<Rightarrow> bool result" where
  "effect_booked d w ref e =
     (let lid = (case ef_lot_id e of Some n \<Rightarrow> Some n
          | None \<Rightarrow> resolve_lot_id_by_lot_code d w (ef_item_id e) (ef_batch_code e)) in
      case lid of
        None \<Rightarrow> Inl (ValueError ''three_books_consistency requires lot_id in effects'')
      | Some n \<Rightarrow>
          (let same_reason = (\<lambda>r. case ef_reason e of None \<Rightarrow> True
                 | Some x \<Rightarrow> py_strip x = [] \<or> lg_reason r = x) in
           case find (\<lambda>r. ledger_slot r = (w, ef_item_id e, n) \<and> lg_ref r = ref \<and>
               lg_ref_line r = ef_ref_line e \<and> same_reason r) (t_ledger d) of
             None \<Rightarrow> Inr False
           | Some r \<Rightarrow> Inr (lg_delta r = ef_qty e)))"

definition stocks_lot_total :: "db \<Rightarrow> int \<Rightarrow> int \<Rightarrow> int" where
  "stocks_lot_total d w i = sum_where (\<lambda>r. sl_warehouse_id r = w \<and> sl_item_id r = i) sl_qty (t_stocks d)"

definition snapshot_total :: "stock_snapshot list \<Rightarrow> int \<Rightarrow> int \<Rightarrow> int \<Rightarrow> int" where
  "snapshot_total snaps day w i =
     sum_where (\<lambda>r. ss_date r = day \<and> ss_warehouse_id r = w \<and> ss_item_id r = i) ss_qty snaps"

definition verify_commit_three_books ::
  "db \<Rightarrow> stock_snapshot list \<Rightarrow> int \<Rightarrow> string \<Rightarrow> effect list \<Rightarrow> int \<Rightarrow> unit result" where
  "verify_commit_three_books d snaps w ref effects at =
     (if effects = [] then Inr ()
      else
        bindE (foldE (\<lambda>e good. bindE (effect_booked d w ref e) (\<lambda>b. Inr (good \<and> b))) effects True) (\<lambda>good.
        if \<not> good then Inl (ValueError ''three books: ledger missing or delta mismatch'')
        else if list_all (\<lambda>i. stocks_lot_total d w i = snapshot_total snaps (day_of at) w i)
            (sort (remdups (map ef_item_id effects)))
        then Inr ()
        else Inl (ValueError ''three books: snapshot_total != stocks_lot_total'')))"

section \<open>three\_books\_enforcer.py\<close>

text \<open>The keys of a Python dict in the order they were first set.\<close>

definition first_seen :: "'a list \<Rightarrow> 'a list" where
  "first_seen xs = rev (remdups (rev xs))"

definition enforce_three_books ::
  "int \<Rightarrow> string \<Rightarrow> effect list \<Rightarrow> int \<Rightarrow> db \<Rightarrow> stock_snapshot list \<Rightarrow> stock_snapshot list result" where
  "enforce_three_books today ref effects at d snaps =
     (if effects = [] then Inr snaps
      else
        bindE (run_snapshot today d snaps) (\<lambda>snaps'.
        bindE (foldE (\<lambda>w _. verify_commit_three_books d snaps' w ref
                  (filter (\<lambda>e. ef_warehouse_id e = w) effects) at)
                (first_seen (map ef_warehouse_id effects)) ()) (\<lambda>_.
        Inr snaps')))"

section \<open>What the gate checks\<close>

lemma set_first_seen [simp]: "set (first_seen xs) = set xs"
  by (simp add: first_seen_def)

text \<open>The rebuilt snapshot of a day agrees with the balances.\<close>

lemma sum_where_map: "sum_where p v (map f xs) = sum_where (\<lambda>x. p (f x)) (\<lambda>x. v (f x)) xs"
  by (induction xs) simp_all

lemma sum_single_slot:
  assumes "distinct (map stock_slot rows)" and "r \<in> set rows"
  shows "sum_where (\<lambda>x. stock_slot x = stock_slot r) sl_qty rows = sl_qty r"
  using assms
proof (induction rows)
  case (Cons x xs)
  then show ?case
    by (cases "x = r") (auto simp: image_iff intro!: sum_where_none)
qed simp

lemma snapshot_row_stock:
  assumes "book_inv d" and "r \<in> set (t_stocks d)"
  shows "snapshot_row today d (stock_slot r) =
    \<lparr>ss_date = today, ss_warehouse_id = sl_warehouse_id r, ss_item_id = sl_item_id r, ss_lot_id = sl_lot_id r,
     ss_qty = sl_qty r, ss_qty_allocated = 0, ss_qty_available = sl_qty r\<rparr>"
  using sum_single_slot [OF book_invD(3) [OF assms(1)] assms(2)]
  by (simp add: snapshot_row_def stock_slot_def Let_def)

lemma run_snapshot_total:
  assumes "book_inv d"
  shows "\<exists>snaps'. run_snapshot today d snaps = Inr snaps' \<and>
    (\<forall>w i. snapshot_total snaps' today w i = stocks_lot_total d w i) \<and>
    (\<forall>day w i. day \<noteq> today \<longrightarrow> snapshot_total snaps' day w i = snapshot_total snaps day w i)"
proof -
  let ?rows = "map (\<lambda>r. snapshot_row today d (stock_slot r)) (t_stocks d)"
  have rows: "map (snapshot_row today d) (remdups (map stock_slot (t_stocks d))) = ?rows"
    using book_invD(3) [OF assms] by (simp add: distinct_remdups_id)
  have eq: "?rows = map (\<lambda>r. \<lparr>ss_date = today, ss_warehouse_id = sl_warehouse_id r, ss_item_id = sl_item_id r,
      ss_lot_id = sl_lot_id r, ss_qty = sl_qty r, ss_qty_allocated = 0, ss_qty_available = sl_qty r\<rparr>) (t_stocks d)"
    using snapshot_row_stock [OF assms] by simp
  have fk: "list_all (\<lambda>r. lot_at d (ss_warehouse_id r) (ss_item_id r) (ss_lot_id r)) ?rows"
    unfolding eq using book_invD(8) [OF assms] by (simp add: list_all_iff)
  have run: "run_snapshot today d snaps = Inr (filter (\<lambda>r. ss_date r \<noteq> today) snaps @ ?rows)"
    unfolding run_snapshot_def rebuild_snapshot_today_from_lot_def Let_def rows using fk by simp
  have kept: "sum_where (\<lambda>r. ss_date r = day \<and> ss_warehouse_id r = w \<and> ss_item_id r = i) ss_qty
      (filter (\<lambda>r. ss_date r \<noteq> today) snaps) = (if day = today then 0 else snapshot_total snaps day w i)" for day w i
    unfolding snapshot_total_def by (induction snaps) auto
  have new: "sum_where (\<lambda>r. ss_date r = day \<and> ss_warehouse_id r = w \<and> ss_item_id r = i) ss_qty ?rows =
      (if day = today then stocks_lot_total d w i else 0)" for day w i
    unfolding eq stocks_lot_total_def by (simp add: sum_where_map sum_where_none)
  show ?thesis
    unfolding run by (simp add: snapshot_total_def [of "_ @ _"] kept new)
qed

text \<open>Loops that only check.\<close>

lemma foldE_check: "foldE (\<lambda>w _. g w) ws () = Inr () \<longleftrightarrow> (\<forall>w \<in> set ws. g w = Inr ())"
  by (induction ws) (auto simp: bindE_eq_Inr)

lemma foldE_all:
  "foldE (\<lambda>e good. bindE (f e) (\<lambda>b. Inr (good \<and> b))) es g = Inr True \<longleftrightarrow> g \<and> (\<forall>e \<in> set es. f e = Inr True)"
proof (induction es arbitrary: g)
  case (Cons e es)
  show ?case by (cases "f e") (auto simp: Cons.IH)
qed simp

lemma verify_passes:
  "verify_commit_three_books d snaps w ref effects at = Inr () \<longleftrightarrow> (\<forall>e \<in> set effects.
     effect_booked d w ref e = Inr True \<and>
     stocks_lot_total d w (ef_item_id e) = snapshot_total snaps (day_of at) w (ef_item_id e))"
proof -
  let ?good = "foldE (\<lambda>e good. bindE (effect_booked d w ref e) (\<lambda>b. Inr (good \<and> b))) effects True"
  have good: "?good = Inr True \<longleftrightarrow> (\<forall>e \<in> set effects. effect_booked d w ref e = Inr True)"
    by (simp add: foldE_all)
  have all: "list_all P (sort (remdups (map ef_item_id effects))) \<longleftrightarrow> (\<forall>e \<in> set effects. P (ef_item_id e))" for P
    by (auto simp: list_all_iff)
  show ?thesis
  proof (cases "effects = []")
    case True
    then show ?thesis by (simp add: verify_commit_three_books_def)
  next
    case False
    show ?thesis
    proof (cases "?good = Inr True")
      case True
      with good False show ?thesis by (simp add: verify_commit_three_books_def all del: foldE.simps)
    next
      case no: False
      with False have "verify_commit_three_books d snaps w ref effects at \<noteq> Inr ()"
        by (cases ?good) (auto simp: verify_commit_three_books_def)
      with no good show ?thesis by blast
    qed
  qed
qed

lemma gate_passes:
  assumes "book_inv d"
  shows "(\<exists>snaps'. enforce_three_books today ref effects at d snaps = Inr snaps') \<longleftrightarrow>
    (\<forall>e \<in> set effects. effect_booked d (ef_warehouse_id e) ref e = Inr True \<and>
       (day_of at = today \<or> stocks_lot_total d (ef_warehouse_id e) (ef_item_id e) =
          snapshot_total snaps (day_of at) (ef_warehouse_id e) (ef_item_id e)))"
proof (cases "effects = []")
  case True
  then show ?thesis by (simp add: enforce_three_books_def)
next
  case False
  obtain snaps' where s: "run_snapshot today d snaps = Inr snaps'"
    "\<forall>w i. snapshot_total snaps' today w i = stocks_lot_total d w i"
    "\<forall>day w i. day \<noteq> today \<longrightarrow> snapshot_total snaps' day w i = snapshot_total snaps day w i"
    using run_snapshot_total [OF assms] by blast
  have "(\<exists>t. enforce_three_books today ref effects at d snaps = Inr t) \<longleftrightarrow>
      foldE (\<lambda>w _. verify_commit_three_books d snaps' w ref (filter (\<lambda>e. ef_warehouse_id e = w) effects) at)
        (first_seen (map ef_warehouse_id effects)) () = Inr ()"
    using False by (simp add: enforce_three_books_def s(1) bindE_eq_Inr)
  also have "\<dots> \<longleftrightarrow> (\<forall>e \<in> set effects. effect_booked d (ef_warehouse_id e) ref e = Inr True \<and>
      stocks_lot_total d (ef_warehouse_id e) (ef_item_id e) =
        snapshot_total snaps' (day_of at) (ef_warehouse_id e) (ef_item_id e))"
    unfolding foldE_check verify_passes by auto
  finally show ?thesis using s(2,3) by metis
qed

text \<open>What step 1 asks of an effect that names its reason, without the search.\<close>

lemma effect_lot_iff:
  "(case ef_lot_id e of Some m \<Rightarrow> Some m | None \<Rightarrow> resolve_lot_id_by_lot_code d w (ef_item_id e) (ef_batch_code e)) = Some n \<longleftrightarrow>
   (case ef_lot_id e of Some m \<Rightarrow> n = m
      | None \<Rightarrow> \<exists>c l. norm_lot_code (ef_batch_code e) = Some c \<and> lot_id l = n \<and>
          filter (\<lambda>l. lot_warehouse_id l = w \<and> lot_item_id l = ef_item_id e \<and> lot_code_source l = SUPPLIER \<and>
            lot_code l = Some c) (t_lots d) = [l])"
  by (auto simp: resolve_lot_id_by_lot_code_def split: option.splits list.splits)

lemma effect_booked_iff:
  assumes keys: "distinct (map ledger_key (t_ledger d))" and x: "ef_reason e = Some x" "py_strip x \<noteq> []"
  shows "effect_booked d w ref e = Inr True \<longleftrightarrow>
    (\<exists>n. (case ef_lot_id e of Some m \<Rightarrow> n = m
         | None \<Rightarrow> \<exists>c l. norm_lot_code (ef_batch_code e) = Some c \<and> lot_id l = n \<and>
             filter (\<lambda>l. lot_warehouse_id l = w \<and> lot_item_id l = ef_item_id e \<and> lot_code_source l = SUPPLIER \<and>
               lot_code l = Some c) (t_lots d) = [l]) \<and>
      (\<exists>r \<in> set (t_ledger d). ledger_slot r = (w, ef_item_id e, n) \<and> lg_ref r = ref \<and>
         lg_ref_line r = ef_ref_line e \<and> lg_reason r = x \<and> lg_delta r = ef_qty e))"
proof -
  let ?lid = "case ef_lot_id e of Some m \<Rightarrow> Some m | None \<Rightarrow> resolve_lot_id_by_lot_code d w (ef_item_id e) (ef_batch_code e)"
  let ?p = "\<lambda>n r. ledger_slot r = (w, ef_item_id e, n) \<and> lg_ref r = ref \<and> lg_ref_line r = ef_ref_line e \<and> lg_reason r = x"
  have one: "r = r'" if "r \<in> set (t_ledger d)" "r' \<in> set (t_ledger d)" "?p n r" "?p n r'" for n r r'
  proof -
    have "ledger_key r = ledger_key r'" using that(3,4) by (auto simp: ledger_key_def ledger_slot_def)
    with keys that(1,2) show ?thesis by (auto simp: distinct_map dest: inj_onD)
  qed
  have search: "(case find (?p n) (t_ledger d) of None \<Rightarrow> False | Some r \<Rightarrow> lg_delta r = ef_qty e) \<longleftrightarrow>
      (\<exists>r \<in> set (t_ledger d). ?p n r \<and> lg_delta r = ef_qty e)" for n
  proof (cases "find (?p n) (t_ledger d)")
    case (Some r)
    with find_SomeD [OF this] one show ?thesis by auto
  next
    case None
    then have "\<forall>r \<in> set (t_ledger d). \<not> ?p n r" by (simp add: find_None_iff_all)
    then show ?thesis unfolding None by auto
  qed
  have "effect_booked d w ref e = (case ?lid of
      None \<Rightarrow> Inl (ValueError ''three_books_consistency requires lot_id in effects'')
    | Some n \<Rightarrow> Inr (case find (?p n) (t_ledger d) of None \<Rightarrow> False | Some r \<Rightarrow> lg_delta r = ef_qty e))"
    using x by (auto simp: effect_booked_def Let_def split: option.splits)
  then have "effect_booked d w ref e = Inr True \<longleftrightarrow>
      (\<exists>n. ?lid = Some n \<and> (\<exists>r \<in> set (t_ledger d). ?p n r \<and> lg_delta r = ef_qty e))"
    unfolding search by (cases ?lid) simp_all
  then show ?thesis unfolding effect_lot_iff by (simp only: conj_assoc)
qed

section \<open>Properties\<close>

text \<open>
  C23. What the gate of the three books tests, exactly: on a consistent warehouse it lets effects that
  name their reason (as every booked return line does) pass if and only if each of them has its
  lot, given or the only lot of the item with its code, has a ledger row in the slot of that lot
  under the reference, its line and its reason whose delta is its quantity, and, unless the
  commit is dated today, the snapshot of the commit's day already agreed with the balances of the
  touched items. On the day of the commit the comparison of snapshot and balances can never fail,
  since the gate rebuilds that snapshot from the balances first; a commit dated on any other day is
  measured by an old snapshot.
\<close>

theorem three_books_gate:
  assumes "book_inv d" and "\<forall>e \<in> set effects. \<exists>x. ef_reason e = Some x \<and> py_strip x \<noteq> []"
  shows "(\<exists>snaps'. enforce_three_books today ref effects at d snaps = Inr snaps') \<longleftrightarrow>
    (\<forall>e \<in> set effects.
       (\<exists>n. (case ef_lot_id e of Some m \<Rightarrow> n = m
            | None \<Rightarrow> \<exists>c l. norm_lot_code (ef_batch_code e) = Some c \<and> lot_id l = n \<and>
                filter (\<lambda>l. lot_warehouse_id l = ef_warehouse_id e \<and> lot_item_id l = ef_item_id e \<and>
                  lot_code_source l = SUPPLIER \<and> lot_code l = Some c) (t_lots d) = [l]) \<and>
          (\<exists>r \<in> set (t_ledger d). ledger_slot r = (ef_warehouse_id e, ef_item_id e, n) \<and> lg_ref r = ref \<and>
             lg_ref_line r = ef_ref_line e \<and> Some (lg_reason r) = ef_reason e \<and> lg_delta r = ef_qty e)) \<and>
       (day_of at = today \<or> stocks_lot_total d (ef_warehouse_id e) (ef_item_id e) =
          snapshot_total snaps (day_of at) (ef_warehouse_id e) (ef_item_id e)))"
proof -
  have "effect_booked d (ef_warehouse_id e) ref e = Inr True \<longleftrightarrow>
      (\<exists>n. (case ef_lot_id e of Some m \<Rightarrow> n = m
            | None \<Rightarrow> \<exists>c l. norm_lot_code (ef_batch_code e) = Some c \<and> lot_id l = n \<and>
                filter (\<lambda>l. lot_warehouse_id l = ef_warehouse_id e \<and> lot_item_id l = ef_item_id e \<and>
                  lot_code_source l = SUPPLIER \<and> lot_code l = Some c) (t_lots d) = [l]) \<and>
          (\<exists>r \<in> set (t_ledger d). ledger_slot r = (ef_warehouse_id e, ef_item_id e, n) \<and> lg_ref r = ref \<and>
             lg_ref_line r = ef_ref_line e \<and> Some (lg_reason r) = ef_reason e \<and> lg_delta r = ef_qty e))"
    if e: "e \<in> set effects" for e
  proof -
    from assms(2) e obtain x where x: "ef_reason e = Some x" "py_strip x \<noteq> []" by blast
    show ?thesis unfolding effect_booked_iff [OF book_invD(4) [OF assms(1)] x] x(1) by simp
  qed
  then show ?thesis unfolding gate_passes [OF assms(1)] by (intro ball_cong refl conj_cong)
qed

definition sample_effect :: effect where
  "sample_effect = \<lparr>ef_warehouse_id = 7, ef_item_id = 1, ef_lot_id = Some 1, ef_batch_code = None, ef_qty = 30,
     ef_ref_line = 1, ef_reason = Some ''RECEIPT''\<rparr>"

text \<open>The receipt of the sample passes on its own day and is stopped when the clock has moved on.\<close>

lemma three_books_gate_witness:
  "(\<exists>t. enforce_three_books 0 ''R'' [sample_effect] 9 ship_db [] = Inr t) \<and>
   \<not> (\<exists>t. enforce_three_books 5 ''R'' [sample_effect] 9 ship_db [] = Inr t)"
proof -
  note gate = three_books_gate [OF warehouse_invD(2) [OF ship_db_inv]]
  have "list_ex (\<lambda>r. ledger_slot r = (7, 1, 1) \<and> lg_ref r = ''R'' \<and> lg_ref_line r = 1 \<and> lg_reason r = ''RECEIPT'' \<and>
      lg_delta r = 30) (t_ledger ship_db)" by code_simp
  moreover have "stocks_lot_total ship_db 7 1 = 30 \<and> snapshot_total [] 0 7 1 = 0 \<and> day_of 9 = 0" by code_simp
  moreover have "py_strip ''RECEIPT'' \<noteq> []" by code_simp
  ultimately show ?thesis
    by (subst (1 2) gate) (auto simp: sample_effect_def list_ex_iff)
qed

end
