(* ===== verification/Completion.thy ===== *)
theory Completion
  imports Events
begin

text \<open>
  The completion read model of purchase orders: \<open>purchase_order_line_completion_repo.py\<close> applies
  a committed receipt event to it, \<open>purchase_order_completion_sync.py\<close> is the call the warehouse
  makes, and \<open>purchase_order_completion.py\<close> derives the status of a whole order.
\<close>

definition completion_status_of :: "int \<Rightarrow> int \<Rightarrow> string" where
  "completion_status_of received ordered =
     (if received \<le> 0 then ''NOT_RECEIVED'' else if received < ordered then ''PARTIAL''
      else ''RECEIVED'')"

text \<open>\<open>SUM(iel.qty_base)\<close> of one event and purchase order line.\<close>

definition event_line_qty :: "db \<Rightarrow> int \<Rightarrow> int \<Rightarrow> int" where
  "event_line_qty d event_id po_line =
     sum_where (\<lambda>l. il_event_id l = event_id \<and> il_po_line_id l = Some po_line) il_qty_base
       (t_inbound_lines d)"

definition completion_add :: "int \<Rightarrow> int \<Rightarrow> po_completion \<Rightarrow> po_completion" where
  "completion_add occurred_at add_qty c =
     (let received = pc_qty_received_base c + add_qty in
      c\<lparr>pc_qty_received_base := received,
        pc_qty_remaining_base := max (pc_qty_ordered_base c - received) 0,
        pc_line_completion_status := completion_status_of received (pc_qty_ordered_base c),
        pc_last_received_at := (case pc_last_received_at c of
            None \<Rightarrow> Some occurred_at
          | Some t \<Rightarrow> if t < occurred_at then Some occurred_at else Some t)\<rparr>)"

text \<open>
  The update touches the rows with at least one line of the event; it re-checks their
  constraints and the range of the columns.
\<close>

definition apply_completion_delta_for_event :: "int \<Rightarrow> int \<Rightarrow> unit tx" where
  "apply_completion_delta_for_event event_id occurred_at d =
     (let hit = (\<lambda>c. \<exists>l \<in> set (t_inbound_lines d).
            il_event_id l = event_id \<and> il_po_line_id l = Some (pc_po_line_id c));
          upd = (\<lambda>c. completion_add occurred_at (event_line_qty d event_id (pc_po_line_id c)) c)
      in if \<exists>c \<in> set (t_completion d). hit c \<and> \<not> int4 (pc_qty_received_base (upd c))
         then Inl (DataError ''integer out of range'')
         else if \<exists>c \<in> set (t_completion d). hit c \<and> \<not> completion_checks (upd c)
         then Inl (IntegrityError ''purchase_order_line_completion check constraint'')
         else Inr ((), d\<lparr>t_completion := update_where hit upd (t_completion d)\<rparr>))"

definition sync_purchase_completion_for_inbound_event :: "int \<Rightarrow> int \<Rightarrow> unit tx" where
  "sync_purchase_completion_for_inbound_event event_id occurred_at d =
     apply_completion_delta_for_event event_id occurred_at d"

definition derive_completion_status :: "int \<Rightarrow> int \<Rightarrow> string" where
  "derive_completion_status qty_ordered_base qty_received_base =
     (let ordered = max qty_ordered_base 0; received = max qty_received_base 0 in
      if received \<le> 0 then ''NOT_RECEIVED'' else if received < ordered then ''PARTIAL''
      else ''RECEIVED'')"

section \<open>What the update keeps\<close>

definition completion_inv :: "db \<Rightarrow> bool" where
  "completion_inv d \<longleftrightarrow> distinct (map pc_po_line_id (t_completion d)) \<and>
     (\<forall>c \<in> set (t_completion d). completion_checks c \<and>
        pc_line_completion_status c = completion_status_of (pc_qty_received_base c) (pc_qty_ordered_base c))"

lemma completion_add_sel [simp]:
  "pc_po_line_id (completion_add t q c) = pc_po_line_id c"
  "pc_qty_ordered_base (completion_add t q c) = pc_qty_ordered_base c"
  "pc_qty_received_base (completion_add t q c) = pc_qty_received_base c + q"
  "pc_line_completion_status (completion_add t q c) =
     completion_status_of (pc_qty_received_base c + q) (pc_qty_ordered_base c)"
  by (simp_all add: completion_add_def Let_def)

lemma apply_completion_Inr:
  assumes "apply_completion_delta_for_event ev t d = Inr (u, d')"
  shows "d' = d\<lparr>t_completion := map (\<lambda>c.
      if \<exists>l \<in> set (t_inbound_lines d). il_event_id l = ev \<and> il_po_line_id l = Some (pc_po_line_id c)
      then completion_add t (event_line_qty d ev (pc_po_line_id c)) c else c) (t_completion d)\<rparr>"
  using assms
  by (auto simp: apply_completion_delta_for_event_def Let_def update_where_def split: if_splits)

lemma apply_completion_inv:
  assumes "apply_completion_delta_for_event ev t d = Inr (u, d')" and "completion_inv d"
  shows "completion_inv d'"
proof -
  have ids: "map pc_po_line_id (t_completion d') = map pc_po_line_id (t_completion d)"
    unfolding apply_completion_Inr [OF assms(1)] by auto
  have "completion_checks c \<and>
      pc_line_completion_status c = completion_status_of (pc_qty_received_base c) (pc_qty_ordered_base c)"
    if "c \<in> set (t_completion d')" for c
  proof -
    let ?hit = "\<lambda>c. \<exists>l \<in> set (t_inbound_lines d).
        il_event_id l = ev \<and> il_po_line_id l = Some (pc_po_line_id c)"
    let ?upd = "\<lambda>c. completion_add t (event_line_qty d ev (pc_po_line_id c)) c"
    let ?f = "\<lambda>c. if ?hit c then ?upd c else c"
    have "t_completion d' = map ?f (t_completion d)"
      unfolding apply_completion_Inr [OF assms(1)] by simp
    with that have "c \<in> ?f ` set (t_completion d)" by (simp only: set_map)
    then obtain c0 where c0: "c0 \<in> set (t_completion d)" "c = ?f c0" by (rule imageE)
    have "\<not> (\<exists>c \<in> set (t_completion d). ?hit c \<and> \<not> completion_checks (?upd c))"
      using assms(1) unfolding apply_completion_delta_for_event_def Let_def by (meson sum.distinct)
    with c0(1) have "?hit c0 \<Longrightarrow> completion_checks (?upd c0)" by blast
    with c0 assms(2) show ?thesis by (cases "?hit c0") (simp_all add: completion_inv_def)
  qed
  with ids assms(2) show ?thesis by (simp add: completion_inv_def)
qed

text \<open>The receipts of an order line in the committed events.\<close>

lemma event_line_qty_none:
  "\<not> (\<exists>l \<in> set (t_inbound_lines d). il_event_id l = ev \<and> il_po_line_id l = Some p) \<Longrightarrow>
   event_line_qty d ev p = 0"
  unfolding event_line_qty_def by (rule sum_where_none) auto

lemma apply_completion_received:
  assumes "apply_completion_delta_for_event ev t d = Inr (u, d')"
  shows "map pc_qty_received_base (t_completion d') =
    map (\<lambda>c. pc_qty_received_base c + event_line_qty d ev (pc_po_line_id c)) (t_completion d)"
  unfolding apply_completion_Inr [OF assms] by (auto simp: event_line_qty_none)

end
