(* ===== verification/Inbound.thy ===== *)
theory Inbound
  imports Completion
begin

text \<open>
  Committing a receipt: \<open>app/wms/inbound/services/inbound_commit_service.py\<close> with its contract
  (\<open>contracts/inbound_commit.py\<close>), repositories (\<open>barcode_resolve_repo.py\<close>,
  \<open>item_lookup_repo.py\<close>, \<open>inbound_stock_write_repo.py\<close>) and route (\<open>routers/inbound_commit.py\<close>).
  The event number, the trace id and the database clock are arguments.
\<close>

section \<open>The contract\<close>

record commit_line_in =
  cli_item_id :: "int option"
  cli_barcode :: "string option"
  cli_uom_id :: "int option"
  cli_qty_input :: int
  cli_lot_code_input :: "string option"
  cli_production_date :: "date option"
  cli_expiry_date :: "date option"
  cli_po_line_id :: "int option"
  cli_remark :: "string option"

record commit_in =
  ci_warehouse_id :: int
  ci_source_type :: string
  ci_source_ref :: "string option"
  ci_occurred_at :: int
  ci_remark :: "string option"
  ci_lines :: "commit_line_in list"

definition inbound_source_types :: "string list" where
  "inbound_source_types = [''PURCHASE_ORDER'', ''MANUAL'', ''RETURN'', ''TRANSFER_IN'', ''ADJUST_IN'']"

definition ge1 :: "int option \<Rightarrow> bool" where
  "ge1 v = (case v of None \<Rightarrow> True | Some n \<Rightarrow> 1 \<le> n)"

definition truthy :: "string option \<Rightarrow> bool" where
  "truthy v = (case v of None \<Rightarrow> False | Some s \<Rightarrow> s \<noteq> [])"

text \<open>The pydantic validation of a line and of the payload, after stripping.\<close>

definition commit_line_in_valid :: "commit_line_in \<Rightarrow> bool" where
  "commit_line_in_valid l \<longleftrightarrow>
     ge1 (cli_item_id l) \<and> ge1 (cli_uom_id l) \<and> ge1 (cli_po_line_id l) \<and> 0 < cli_qty_input l \<and>
     cli_barcode l \<noteq> Some [] \<and>
     (cli_item_id l \<noteq> None \<or> truthy (cli_barcode l)) \<and>
     (cli_uom_id l \<noteq> None \<or> truthy (cli_barcode l)) \<and>
     (case (cli_production_date l, cli_expiry_date l) of (Some p, Some e) \<Rightarrow> p \<le> e | _ \<Rightarrow> True)"

definition commit_in_valid :: "commit_in \<Rightarrow> bool" where
  "commit_in_valid p \<longleftrightarrow> 1 \<le> ci_warehouse_id p \<and> ci_source_type p \<in> set inbound_source_types \<and>
     ci_lines p \<noteq> [] \<and> list_all commit_line_in_valid (ci_lines p)"

section \<open>Repositories\<close>

record barcode_resolved =
  br_item_id :: int
  br_item_uom_id :: "int option"
  br_ratio_to_base :: "int option"

definition resolve_inbound_barcode :: "db \<Rightarrow> string \<Rightarrow> barcode_resolved option" where
  "resolve_inbound_barcode d barcode =
     (let code = py_strip barcode in
      if code = [] then None
      else
        (let probe = aprobe (t_item_uoms d) (t_item_barcodes d) code in
         if pb_status probe \<noteq> PROBE_BOUND then None
         else map_option (\<lambda>i. \<lparr>br_item_id = i, br_item_uom_id = pb_item_uom_id probe,
                               br_ratio_to_base = pb_ratio_to_base probe\<rparr>) (pb_item_id probe)))"

definition get_item_policy_by_id :: "db \<Rightarrow> int \<Rightarrow> item_policy option result" where
  "get_item_policy_by_id d i = aget_policy_by_id (t_items d) i"

definition find_item_uom :: "db \<Rightarrow> int \<Rightarrow> int \<Rightarrow> item_uom option" where
  "find_item_uom d i u = find (\<lambda>x. uo_id x = u \<and> uo_item_id x = i) (t_item_uoms d)"

definition require_ratio_to_base :: "db \<Rightarrow> int \<Rightarrow> int \<Rightarrow> int result" where
  "require_ratio_to_base d i u =
     (case find_item_uom d i u of
        None \<Rightarrow> Inl (HTTPException 400 ''uom_id not found for item'')
      | Some x \<Rightarrow> if uo_ratio_to_base x \<le> 0
          then Inl (HTTPException 400 ''item_uoms.ratio_to_base invalid'')
          else Inr (uo_ratio_to_base x))"

definition load_item_display_snapshot ::
  "db \<Rightarrow> int \<Rightarrow> int \<Rightarrow> (string option \<times> string option \<times> string option) result" where
  "load_item_display_snapshot d i u =
     (case (find_item (t_items d) i, find_item_uom d i u) of
        (Some it, Some x) \<Rightarrow> Inr (strip_or_none (Some (it_name it)), strip_or_none (it_spec it),
          strip_or_none (Some (uom_name x)))
      | _ \<Rightarrow> Inl (HTTPException 422 ''item_display_snapshot_not_found''))"

text \<open>\<open>apply_inbound_stock\<close>: the guard, then one receipt through the kernel.\<close>

definition opt_meta :: "string option \<Rightarrow> pyval" where
  "opt_meta v = (case v of None \<Rightarrow> PNone | Some s \<Rightarrow> PStr s)"

definition apply_inbound_stock ::
  "int \<Rightarrow> int \<Rightarrow> int \<Rightarrow> int \<Rightarrow> int \<Rightarrow> string \<Rightarrow> int \<Rightarrow> int option \<Rightarrow> string option \<Rightarrow>
   date option \<Rightarrow> date option \<Rightarrow> int option \<Rightarrow> string \<Rightarrow> string \<Rightarrow> string option \<Rightarrow>
   string option \<Rightarrow> string option \<Rightarrow> adjust_out tx" where
  "apply_inbound_stock now w i lid qty ref ref_line occurred_at lcode pd ed event_id trace
     source_type source_biz_type source_ref remark d =
     bindE (ensure_warehouse_not_frozen d w) (\<lambda>_.
     adjust_lot now
       \<lparr>aq_item_id = i, aq_warehouse_id = w, aq_lot_id = Some lid, aq_delta = qty,
        aq_reason = Inr RECEIPT, aq_ref = ref, aq_ref_line = Some ref_line,
        aq_occurred_at = occurred_at,
        aq_meta = [(''sub_reason'', PStr ''ATOMIC_INBOUND''),
                   (''event_id'', case event_id of None \<Rightarrow> PNone | Some e \<Rightarrow> PInt e),
                   (''source_type'', PStr source_type),
                   (''source_biz_type'', opt_meta source_biz_type),
                   (''source_ref'', opt_meta source_ref), (''remark'', opt_meta remark)],
        aq_lot_code = lcode, aq_production_date = pd, aq_expiry_date = ed,
        aq_trace_id = Some trace\<rparr> d)"

section \<open>inbound\_commit\_service.py\<close>

definition pseudo_lot_code_tokens :: "string list" where
  "pseudo_lot_code_tokens = [''NOEXP'', ''NONE'']"

definition validate_source :: "commit_in \<Rightarrow> unit result" where
  "validate_source p =
     (if ci_source_type p = ''PURCHASE_ORDER'' then
        (if strip_or_none (ci_source_ref p) = None
         then Inl (HTTPException 400 ''source_ref required for purchase order'')
         else if \<exists>l \<in> set (ci_lines p). cli_po_line_id l = None
         then Inl (HTTPException 400 ''po_line_id required for purchase order line'')
         else Inr ())
      else Inr ())"

record resolved_line =
  rl_line_no :: int
  rl_item_id :: int
  rl_item_name_snapshot :: "string option"
  rl_item_spec_snapshot :: "string option"
  rl_uom_id :: int
  rl_actual_uom_name_snapshot :: "string option"
  rl_qty_input :: int
  rl_ratio_to_base_snapshot :: int
  rl_qty_base :: int
  rl_barcode_input :: "string option"
  rl_lot_code_input :: "string option"
  rl_production_date :: "date option"
  rl_expiry_date :: "date option"
  rl_lot_id :: "int option"
  rl_po_line_id :: "int option"
  rl_remark :: "string option"

text \<open>The first part of \<open>_resolve_line\<close>: item and unit from the line and its barcode.\<close>

definition resolve_line_identity :: "db \<Rightarrow> commit_line_in \<Rightarrow> string option \<Rightarrow> (int \<times> int) result" where
  "resolve_line_identity d l barcode =
     bindE (case barcode of None \<Rightarrow> Inr None
            | Some b \<Rightarrow> (case resolve_inbound_barcode d b of
                None \<Rightarrow> Inl (HTTPException 422 ''barcode_unbound'')
              | Some r \<Rightarrow> Inr (Some r))) (\<lambda>br.
     bindE (case br of None \<Rightarrow> Inr (cli_item_id l)
            | Some r \<Rightarrow> (case cli_item_id l of None \<Rightarrow> Inr (Some (br_item_id r))
                | Some i \<Rightarrow> if i \<noteq> br_item_id r then Inl (HTTPException 422 ''barcode_item_mismatch'')
                            else Inr (Some i))) (\<lambda>item.
     bindE (case br of None \<Rightarrow> Inr (cli_uom_id l)
            | Some r \<Rightarrow> (case br_item_uom_id r of None \<Rightarrow> Inr (cli_uom_id l)
                | Some bu \<Rightarrow> (case cli_uom_id l of None \<Rightarrow> Inr (Some bu)
                    | Some u \<Rightarrow> if u \<noteq> bu then Inl (HTTPException 422 ''barcode_uom_mismatch'')
                                else Inr (Some u)))) (\<lambda>uom.
     bindE (of_option (HTTPException 422 ''item_unresolved'') item) (\<lambda>i.
     bindE (of_option (HTTPException 422 ''uom_unresolved'') uom) (\<lambda>u. Inr (i, u))))))"

text \<open>The dates of a line: none for a \<open>NONE\<close> item, both for a \<open>REQUIRED\<close> one.\<close>

definition resolve_line_dates ::
  "db \<Rightarrow> item_policy \<Rightarrow> int \<Rightarrow> date option \<Rightarrow> date option \<Rightarrow> (date option \<times> date option) result" where
  "resolve_line_dates d pol i pd_in ed_in =
     (if ip_expiry_policy pol = EXPIRY_NONE then Inr (None, None)
      else bindE (normalize_batch_dates_for_item (t_items d) i pd_in ed_in) (\<lambda>(pd, ed, _).
        if pd = None then Inl (HTTPException 422 ''production_date_unresolved'')
        else if ed = None then Inl (HTTPException 422 ''expiry_date_unresolved'')
        else Inr (pd, ed)))"

definition resolve_line :: "int \<Rightarrow> string \<Rightarrow> int \<times> commit_line_in \<Rightarrow> resolved_line tx" where
  "resolve_line w source_type nl d =
     (let (line_no, l) = nl;
          barcode = strip_or_none (cli_barcode l);
          lot_code_input = strip_or_none (cli_lot_code_input l) in
      if cli_qty_input l \<le> 0 then Inl (HTTPException 400 ''qty_input must be > 0'')
      else
        bindE (resolve_line_identity d l barcode) (\<lambda>(i, u).
        bindE (get_item_policy_by_id d i) (\<lambda>policy.
        bindE (of_option (HTTPException 422 ''item_not_found'') policy) (\<lambda>pol.
        bindE (require_ratio_to_base d i u) (\<lambda>ratio.
        if cli_qty_input l * ratio \<le> 0 then Inl (HTTPException 400 ''qty_base must be > 0'')
        else
          bindE (load_item_display_snapshot d i u) (\<lambda>(name, spec, uname).
          if (case lot_code_input of None \<Rightarrow> False
              | Some c \<Rightarrow> py_upper c \<in> set pseudo_lot_code_tokens)
          then Inl (HTTPException 400 ''pseudo lot_code forbidden'')
          else if ip_lot_source_policy pol = SUPPLIER_ONLY \<and> lot_code_input = None
          then Inl (HTTPException 400 ''supplier lot_code required'')
          else
            bindE (resolve_line_dates d pol i (cli_production_date l) (cli_expiry_date l))
              (\<lambda>(pd, ed).
            bindE (resolve_inbound_lot w pol lot_code_input pd ed d) (\<lambda>(lid, d1).
            Inr (\<lparr>rl_line_no = line_no, rl_item_id = i, rl_item_name_snapshot = name,
                  rl_item_spec_snapshot = spec, rl_uom_id = u, rl_actual_uom_name_snapshot = uname,
                  rl_qty_input = cli_qty_input l, rl_ratio_to_base_snapshot = ratio,
                  rl_qty_base = cli_qty_input l * ratio, rl_barcode_input = barcode,
                  rl_lot_code_input = lot_code_input, rl_production_date = pd,
                  rl_expiry_date = ed, rl_lot_id = Some lid,
                  rl_po_line_id = (if source_type \<noteq> ''PURCHASE_ORDER'' then None else cli_po_line_id l),
                  rl_remark = strip_or_none (cli_remark l)\<rparr>, d1)))))))))"

record commit_row =
  cr_line_no :: int
  cr_item_id :: int
  cr_uom_id :: int
  cr_qty_input :: int
  cr_ratio_to_base_snapshot :: int
  cr_qty_base :: int
  cr_lot_id :: "int option"
  cr_lot_code :: "string option"
  cr_po_line_id :: "int option"
  cr_remark :: "string option"

record commit_out =
  co_event_id :: int
  co_event_no :: string
  co_trace_id :: string
  co_warehouse_id :: int
  co_source_type :: string
  co_source_ref :: "string option"
  co_occurred_at :: int
  co_remark :: "string option"
  co_rows :: "commit_row list"

text \<open>The event line of a resolved line; the flush gives it its id.\<close>

definition commit_event_line :: "int \<Rightarrow> resolved_line \<Rightarrow> inbound_event_line" where
  "commit_event_line event_id r =
     \<lparr>il_id = 0, il_event_id = event_id, il_line_no = rl_line_no r, il_item_id = rl_item_id r,
      il_item_name_snapshot = rl_item_name_snapshot r,
      il_item_spec_snapshot = rl_item_spec_snapshot r, il_actual_uom_id = rl_uom_id r,
      il_actual_uom_name_snapshot = rl_actual_uom_name_snapshot r,
      il_barcode_input = rl_barcode_input r, il_actual_qty_input = rl_qty_input r,
      il_actual_ratio_to_base_snapshot = rl_ratio_to_base_snapshot r, il_qty_base = rl_qty_base r,
      il_lot_code_input = rl_lot_code_input r, il_production_date = rl_production_date r,
      il_expiry_date = rl_expiry_date r, il_lot_id = rl_lot_id r, il_po_line_id = rl_po_line_id r,
      il_remark = rl_remark r\<rparr>"

text \<open>The body of the second loop: the event line, then its stock.\<close>

definition commit_line ::
  "int \<Rightarrow> commit_in \<Rightarrow> int \<Rightarrow> string \<Rightarrow> string \<Rightarrow> resolved_line \<Rightarrow> commit_row tx" where
  "commit_line now p event_id event_no trace r d =
     bindE (insert_inbound_line (commit_event_line event_id r) d) (\<lambda>(_, d1).
     bindE (apply_inbound_stock now (ci_warehouse_id p) (rl_item_id r)
              (case rl_lot_id r of None \<Rightarrow> 0 | Some n \<Rightarrow> n) (rl_qty_base r) event_no (rl_line_no r)
              (Some (ci_occurred_at p)) (rl_lot_code_input r) (rl_production_date r)
              (rl_expiry_date r) (Some event_id) trace (ci_source_type p) None
              (strip_or_none (ci_source_ref p)) (strip_or_none (ci_remark p)) d1) (\<lambda>(_, d2).
     Inr (\<lparr>cr_line_no = rl_line_no r, cr_item_id = rl_item_id r, cr_uom_id = rl_uom_id r,
           cr_qty_input = rl_qty_input r, cr_ratio_to_base_snapshot = rl_ratio_to_base_snapshot r,
           cr_qty_base = rl_qty_base r, cr_lot_id = rl_lot_id r, cr_lot_code = rl_lot_code_input r,
           cr_po_line_id = rl_po_line_id r, cr_remark = rl_remark r\<rparr>, d2)))"

definition number_lines :: "'a list \<Rightarrow> (int \<times> 'a) list" where
  "number_lines xs = map (\<lambda>(k, x). (int k, x)) (enumerate 1 xs)"

definition commit_event :: "int \<Rightarrow> int option \<Rightarrow> string \<Rightarrow> string \<Rightarrow> commit_in \<Rightarrow> wms_event" where
  "commit_event now user_id event_no trace p =
     \<lparr>ev_id = 0, ev_event_no = event_no, ev_event_type = ''INBOUND'',
      ev_warehouse_id = ci_warehouse_id p, ev_source_type = ci_source_type p,
      ev_source_ref = strip_or_none (ci_source_ref p), ev_occurred_at = ci_occurred_at p,
      ev_committed_at = now, ev_trace_id = trace, ev_event_kind = ''COMMIT'',
      ev_target_event_id = None, ev_status = ''COMMITTED'', ev_created_by = user_id,
      ev_remark = strip_or_none (ci_remark p)\<rparr>"

definition commit_inbound ::
  "int \<Rightarrow> string \<Rightarrow> string \<Rightarrow> int option \<Rightarrow> commit_in \<Rightarrow> commit_out tx" where
  "commit_inbound now event_no trace user_id p d =
     bindE (validate_source p) (\<lambda>_.
     bindE (mapE (resolve_line (ci_warehouse_id p) (ci_source_type p)) (number_lines (ci_lines p)) d)
       (\<lambda>(resolved, d1).
     bindE (insert_event (commit_event now user_id event_no trace p) d1) (\<lambda>(event_id, d2).
     bindE (mapE (commit_line now p event_id event_no trace) resolved d2) (\<lambda>(rows, d3).
     bindE (if ci_source_type p = ''PURCHASE_ORDER''
            then sync_purchase_completion_for_inbound_event event_id (ci_occurred_at p) d3
            else Inr ((), d3)) (\<lambda>(_, d4).
     Inr (\<lparr>co_event_id = event_id, co_event_no = event_no, co_trace_id = trace,
           co_warehouse_id = ci_warehouse_id p, co_source_type = ci_source_type p,
           co_source_ref = strip_or_none (ci_source_ref p), co_occurred_at = ci_occurred_at p,
           co_remark = strip_or_none (ci_remark p), co_rows = rows\<rparr>, d4))))))"

text \<open>
  The route: an invalid payload is a 422; an \<open>HTTPException\<close> goes through, any other exception
  becomes a 400 with its text.
\<close>

definition error_text :: "error \<Rightarrow> string" where
  "error_text e = (case e of ValueError s \<Rightarrow> s | HTTPException _ s \<Rightarrow> s | LookupError s \<Rightarrow> s
     | RuntimeError s \<Rightarrow> s | OverflowError s \<Rightarrow> s | IntegrityError s \<Rightarrow> s | DataError s \<Rightarrow> s)"

definition commit_inbound_endpoint ::
  "int \<Rightarrow> string \<Rightarrow> string \<Rightarrow> commit_in \<Rightarrow> commit_out tx" where
  "commit_inbound_endpoint now event_no trace p d =
     (if \<not> commit_in_valid p then Inl (HTTPException 422 ''request validation error'')
      else case commit_inbound now event_no trace None p d of
        Inr r \<Rightarrow> Inr r
      | Inl (HTTPException c s) \<Rightarrow> Inl (HTTPException c s)
      | Inl e \<Rightarrow> Inl (HTTPException 400 (error_text e)))"

section \<open>What committing does\<close>

lemma resolve_line_Inr:
  assumes "resolve_line w st nl d = Inr (r, d')"
  shows "lots_grow d d'" and "rl_line_no r = fst nl" and "0 < rl_qty_base r"
    and "rl_qty_base r = rl_qty_input r * rl_ratio_to_base_snapshot r"
    and "\<exists>pol. aget_policy_by_id (t_items d) (rl_item_id r) = Inr (Some pol) \<and>
      (ip_expiry_policy pol = EXPIRY_NONE \<longrightarrow> rl_production_date r = None) \<and>
      resolve_inbound_lot w pol (rl_lot_code_input r) (rl_production_date r) (rl_expiry_date r) d =
        Inr (the (rl_lot_id r), d')"
    and "rl_lot_id r \<noteq> None"
  using assms
  by (auto simp: resolve_line_def Let_def res_simps get_item_policy_by_id_def resolve_line_dates_def
      split: if_splits intro: resolve_inbound_lot_grow)

lemma resolve_lines_Inr:
  assumes "mapE (resolve_line w st) nls d = Inr (rs, d')"
  shows "lots_grow d d'" and "map rl_line_no rs = map fst nls"
    and "\<forall>r \<in> set rs. 0 < rl_qty_base r \<and> rl_lot_id r \<noteq> None"
proof -
  show "lots_grow d d'" by (rule lots_evo.evo_mapE [OF _ assms]) (rule resolve_line_Inr)
  have "list_all2 (\<lambda>nl r. rl_line_no r = fst nl \<and> 0 < rl_qty_base r \<and> rl_lot_id r \<noteq> None) nls rs"
    by (rule mapE_list_all2 [OF assms]) (use resolve_line_Inr(2,3,6) in blast)
  then show "map rl_line_no rs = map fst nls"
    and "\<forall>r \<in> set rs. 0 < rl_qty_base r \<and> rl_lot_id r \<noteq> None"
    by (induction rule: list_all2_induct) auto
qed

lemma number_lines_fst: "map fst (number_lines xs) = map int [1..<Suc (length xs)]"
  unfolding number_lines_def by (rule nth_equalityI) (simp_all add: nth_enumerate_eq del: upt_Suc)

lemma distinct_number_lines: "distinct (map fst (number_lines xs))"
  unfolding number_lines_fst by (simp add: distinct_map)

lemma length_number_lines [simp]: "length (number_lines xs) = length xs"
  by (simp add: number_lines_def)

text \<open>The kernel's date rules refuse a positive movement of an item without expiry under a code.\<close>

lemma none_item_takes_no_code:
  assumes "adjust_prep now q d = Inr (Some c)" and "0 < aq_delta q"
    and "find_item (t_items d) (aq_item_id q) = Some it" and "it_expiry_policy it = EXPIRY_NONE"
  shows "norm_lot_code (aq_lot_code q) = None"
proof (rule ccontr)
  assume code: "norm_lot_code (aq_lot_code q) \<noteq> None"
  let ?n = "normalize_batch_dates_for_item (t_items d) (aq_item_id q) (aq_production_date q) (aq_expiry_date q)"
  have "(\<exists>e. ?n = Inl e) \<or> ?n = Inr (None, None, None)"
    using assms(3,4) by (cases "map_item_to_policy it")
      (auto simp: normalize_batch_dates_for_item_def aget_policy_by_id_def map_item_to_policy_Inr(2))
  then have "\<exists>e. resolve_and_validate_dates_for_inbound d (aq_item_id q) (aq_delta q)
      (norm_lot_code (aq_lot_code q)) (aq_production_date q) (aq_expiry_date q) = Inl e"
    using code assms(2) by (auto simp: resolve_and_validate_dates_for_inbound_def)
  then obtain e where e: "resolve_and_validate_dates_for_inbound d (aq_item_id q) (aq_delta q)
      (norm_lot_code (aq_lot_code q)) (aq_production_date q) (aq_expiry_date q) = Inl e" by blast
  from assms(1) obtain x where "adjust_check now q d = Inr (Some x)"
    by (auto simp: adjust_prep_def res_simps)
  with e assms(2) show False
    by (auto simp: adjust_check_def Let_def res_simps)
qed

text \<open>One step of the commit loop.\<close>

lemma commit_line_step:
  assumes step: "commit_line now p eid eno tr r d = Inr (row, d')" and inv: "warehouse_inv d"
    and qty: "0 < rl_qty_base r" and lid: "rl_lot_id r = Some lid" and eid: "0 < eid"
    and new: "\<forall>x \<in> set (t_ledger d). \<not> (lg_ref x = eno \<and> lg_ref_line x = rl_line_no r)"
  shows "warehouse_inv d'" and "t_items d' = t_items d \<and> t_events d' = t_events d \<and> t_count_docs d' = t_count_docs d \<and>
      t_completion d' = t_completion d"
    and "\<exists>l x. posts d [x] d' \<and> t_inbound_lines d' = t_inbound_lines d @ [l] \<and> lg_ref x = eno \<and>
      lg_ref_line x = rl_line_no r \<and> lg_reason x = ''RECEIPT'' \<and> il_event_id l = eid \<and>
      il_lot_id l = cr_lot_id row \<and> il_item_id l = cr_item_id row \<and> il_qty_base l = cr_qty_base row \<and>
      il_po_line_id l = cr_po_line_id row \<and>
      books_inbound_line (ci_warehouse_id p) eno 1 l x"
    and "ensure_warehouse_not_frozen d (ci_warehouse_id p) = Inr ()"
    and "find_item (t_items d) (rl_item_id r) = Some it \<Longrightarrow> it_expiry_policy it = EXPIRY_NONE \<Longrightarrow>
      norm_lot_code (cr_lot_code row) = None"
proof -
  from step obtain n d1 out q where
    1: "insert_inbound_line (commit_event_line eid r) d = Inr (n, d1)" and
    2: "ensure_warehouse_not_frozen d1 (ci_warehouse_id p) = Inr ()" and
    3: "adjust_lot now q d1 = Inr (out, d')" and
    q: "aq_item_id q = rl_item_id r" "aq_warehouse_id q = ci_warehouse_id p" "aq_lot_id q = Some lid"
      "aq_delta q = rl_qty_base r" "aq_reason q = Inr RECEIPT" "aq_ref q = eno"
      "aq_ref_line q = Some (rl_line_no r)" "aq_lot_code q = rl_lot_code_input r"
      "aq_production_date q = rl_production_date r"
      "meta_int (aq_meta q) ''event_id'' = Inr (Some eid)" and
    row: "cr_lot_id row = rl_lot_id r" "cr_item_id row = rl_item_id r" "cr_qty_base row = rl_qty_base r"
      "cr_lot_code row = rl_lot_code_input r" "cr_po_line_id row = rl_po_line_id r"
    using lid eid
    by (auto simp: commit_line_def apply_inbound_stock_def res_simps meta_int_def meta_get_def Let_def)
  note i = insert_inbound_line_Inr [OF 1]
  have inv1: "warehouse_inv d1" by (rule insert_inbound_line_warehouse_inv [OF 1 inv])
  show inv': "warehouse_inv d'" by (rule adjust_lot_warehouse_inv [OF 3 inv1])
  note rest = rest_ofD [OF adjust_lot_rest [OF 3]]
  show "t_items d' = t_items d \<and> t_events d' = t_events d \<and> t_count_docs d' = t_count_docs d \<and>
      t_completion d' = t_completion d"
    by (simp add: rest i(1))
  show "ensure_warehouse_not_frozen d (ci_warehouse_id p) = Inr ()"
    using 2 by (simp add: ensure_warehouse_not_frozen_def get_frozen_count_doc_brief_def i(1))
  have "adjust_key q lid \<notin> ledger_key ` set (t_ledger d1)"
    using new q by (auto simp: adjust_key_def ledger_key_def i(1))
  from adjust_lot_applied [OF 3 warehouse_invD(2) [OF inv1] _ q(3) this] qty q(4) obtain c where
    c: "adjust_prep now q d1 = Inr (Some c)" "cx_lot_id c = lid"
      "posts d1 [adjust_row q c (slot_qty d1 (adjust_slot q lid)) (t_next_id d1 STOCK_LEDGER)] d'"
      (is "posts d1 [?x] d'")
    by auto
  have cx: "cx_ref_line c = rl_line_no r" "cx_event_id c = Some eid"
    using adjust_prep_Some(3,5) [OF c(1)] q(7,10) by simp_all
  have "posts d [?x] d'" using posting.traced_app [OF insert_inbound_line_posts [OF 1] c(3)] by simp
  moreover have "t_inbound_lines d' = t_inbound_lines d @ [(commit_event_line eid r)\<lparr>il_id := n\<rparr>]"
    by (simp add: rest i(1))
  ultimately show "\<exists>l x. posts d [x] d' \<and> t_inbound_lines d' = t_inbound_lines d @ [l] \<and> lg_ref x = eno \<and>
      lg_ref_line x = rl_line_no r \<and> lg_reason x = ''RECEIPT'' \<and> il_event_id l = eid \<and>
      il_lot_id l = cr_lot_id row \<and> il_item_id l = cr_item_id row \<and> il_qty_base l = cr_qty_base row \<and>
      il_po_line_id l = cr_po_line_id row \<and>
      books_inbound_line (ci_warehouse_id p) eno 1 l x"
    using q cx c(2) lid row
    by (intro exI [of _ "(commit_event_line eid r)\<lparr>il_id := n\<rparr>"] exI [of _ ?x])
      (simp add: books_inbound_line_def commit_event_line_def adjust_slot_def reason_val_def)
  show "norm_lot_code (cr_lot_code row) = None"
    if "find_item (t_items d) (rl_item_id r) = Some it" "it_expiry_policy it = EXPIRY_NONE"
    using none_item_takes_no_code [OF c(1)] that q(1,4,8) qty row(4) by (simp add: i(1))
qed

text \<open>The whole loop: one event line and one ledger row per resolved line.\<close>

definition commit_pair_ok ::
  "item list \<Rightarrow> commit_in \<Rightarrow> int \<Rightarrow> string \<Rightarrow> commit_row \<Rightarrow> inbound_event_line \<Rightarrow> stock_ledger \<Rightarrow> bool" where
  "commit_pair_ok its p eid eno row l x \<longleftrightarrow>
     (\<forall>it. find_item its (cr_item_id row) = Some it \<and> it_expiry_policy it = EXPIRY_NONE \<longrightarrow>
        norm_lot_code (cr_lot_code row) = None) \<and> lg_reason x = ''RECEIPT'' \<and> il_event_id l = eid \<and>
     il_lot_id l = cr_lot_id row \<and> il_item_id l = cr_item_id row \<and> il_qty_base l = cr_qty_base row \<and>
     il_po_line_id l = cr_po_line_id row \<and>
     books_inbound_line (ci_warehouse_id p) eno 1 l x"

lemma commit_loop:
  assumes run: "mapE (commit_line now p eid eno tr) rs d = Inr (rows, d')" and inv: "warehouse_inv d"
    and dist: "distinct (map rl_line_no rs)"
    and rs: "\<forall>r \<in> set rs. 0 < rl_qty_base r \<and> rl_lot_id r \<noteq> None" and eid: "0 < eid"
    and new: "\<forall>x \<in> set (t_ledger d). lg_ref x \<noteq> eno"
  shows "warehouse_inv d'"
    and "t_events d' = t_events d \<and> t_count_docs d' = t_count_docs d \<and> t_completion d' = t_completion d"
    and "\<exists>prs. posts d (map snd prs) d' \<and> t_inbound_lines d' = t_inbound_lines d @ map fst prs \<and>
      list_all2 (\<lambda>row (l, x). commit_pair_ok (t_items d) p eid eno row l x) rows prs"
proof -
  let ?I = "\<lambda>e. t_items e = t_items d \<and> t_events e = t_events d \<and> t_count_docs e = t_count_docs d \<and> t_completion e = t_completion d"
  have "warehouse_inv d' \<and> ?I d' \<and>
    (\<exists>prs. posts d (map snd prs) d' \<and> t_inbound_lines d' = t_inbound_lines d @ map fst prs \<and>
       list_all2 (\<lambda>(x, y) (l, r). lg_ref r = eno \<and> lg_ref_line r = rl_line_no x \<and>
         commit_pair_ok (t_items d) p eid eno y l r) (zip rs rows) prs)"
  proof (rule document_loop [OF _ run dist inv])
    fix r e row e'
    assume r: "r \<in> set rs" and e: "warehouse_inv e" and I: "?I e"
      and st: "commit_line now p eid eno tr r e = Inr (row, e')"
      and n: "\<forall>x \<in> set (t_ledger e). \<not> (lg_ref x = eno \<and> lg_ref_line x = rl_line_no r)"
    from rs r obtain lid where "0 < rl_qty_base r" "rl_lot_id r = Some lid" by auto
    note step = commit_line_step [OF st e this eid n]
    have its: "t_items e = t_items d" using I by simp
    have "cr_item_id row = rl_item_id r" using st by (auto simp: commit_line_def res_simps)
    then have "\<forall>it. find_item (t_items d) (cr_item_id row) = Some it \<and> it_expiry_policy it = EXPIRY_NONE \<longrightarrow>
        norm_lot_code (cr_lot_code row) = None" using step(5) unfolding its by metis
    with step(1-3) I show "warehouse_inv e' \<and> ?I e' \<and>
        (\<exists>l x. posts e [x] e' \<and> t_inbound_lines e' = t_inbound_lines e @ [l] \<and>
          lg_ref x = eno \<and> lg_ref_line x = rl_line_no r \<and> commit_pair_ok (t_items d) p eid eno row l x)"
      unfolding commit_pair_ok_def by metis
  qed (use new in auto)
  then obtain prs where *: "warehouse_inv d'" "?I d'" "posts d (map snd prs) d'"
    "t_inbound_lines d' = t_inbound_lines d @ map fst prs"
    "list_all2 (\<lambda>(x, y) (l, r). lg_ref r = eno \<and> lg_ref_line r = rl_line_no x \<and>
       commit_pair_ok (t_items d) p eid eno y l r) (zip rs rows) prs" by blast
  have len: "length rs = length rows" using mapE_length [OF run] by simp
  have "list_all2 (\<lambda>row (l, x). commit_pair_ok (t_items d) p eid eno row l x) (map snd (zip rs rows)) prs"
    unfolding list_all2_map1 by (rule list_all2_mono [OF *(5)]) auto
  with * len show "warehouse_inv d'" "t_events d' = t_events d \<and> t_count_docs d' = t_count_docs d \<and> t_completion d' = t_completion d"
    "\<exists>prs. posts d (map snd prs) d' \<and> t_inbound_lines d' = t_inbound_lines d @ map fst prs \<and>
      list_all2 (\<lambda>row (l, x). commit_pair_ok (t_items d) p eid eno row l x) rows prs"
    by auto
qed

lemma apply_completion_warehouse_inv:
  assumes "apply_completion_delta_for_event ev t d = Inr (u, d')"
  shows "warehouse_inv d' = warehouse_inv d" "posts d [] d'" "t_events d' = t_events d"
    "t_count_docs d' = t_count_docs d" "t_inbound_lines d' = t_inbound_lines d"
proof -
  have "lots_inv d' = lots_inv d" "book_inv d' = book_inv d" "events_inv d' = events_inv d"
    unfolding apply_completion_Inr [OF assms]
    by (rule lots_inv_cong book_inv_cong events_inv_cong; simp)+
  then show "warehouse_inv d' = warehouse_inv d" by (simp add: warehouse_inv_def)
  show "posts d [] d'" by (rule posts_nothing) (simp_all add: apply_completion_Inr [OF assms])
  show "t_events d' = t_events d" "t_count_docs d' = t_count_docs d"
    "t_inbound_lines d' = t_inbound_lines d"
    by (simp_all add: apply_completion_Inr [OF assms])
qed

lemma commit_inbound_Inr:
  assumes run: "commit_inbound now eno tr u p d = Inr (out, d')" and inv: "warehouse_inv d"
    and new: "\<forall>x \<in> set (t_ledger d). lg_ref x \<noteq> eno"
  obtains d1 d2 d3 rs prs where
    "mapE (resolve_line (ci_warehouse_id p) (ci_source_type p)) (number_lines (ci_lines p)) d = Inr (rs, d1)"
    "lots_grow d d1" "warehouse_inv d1" "insert_event (commit_event now u eno tr p) d1 = Inr (co_event_id out, d2)"
    "mapE (commit_line now p (co_event_id out) eno tr) rs d2 = Inr (co_rows out, d3)"
    "warehouse_inv d'" "posts d1 (map snd prs) d'" "t_inbound_lines d' = t_inbound_lines d @ map fst prs"
    "t_events d' = t_events d @ [(commit_event now u eno tr p)\<lparr>ev_id := co_event_id out\<rparr>]"
    "list_all2 (\<lambda>row (l, x). commit_pair_ok (t_items d) p (co_event_id out) eno row l x) (co_rows out) prs"
    "t_count_docs d' = t_count_docs d" "length prs = length (ci_lines p)"
    "if ci_source_type p = ''PURCHASE_ORDER''
     then apply_completion_delta_for_event (co_event_id out) (ci_occurred_at p) d3 = Inr ((), d') \<and>
       t_completion d3 = t_completion d else d' = d3"
proof -
  from run obtain d1 d2 d3 rs where
    1: "mapE (resolve_line (ci_warehouse_id p) (ci_source_type p)) (number_lines (ci_lines p)) d = Inr (rs, d1)" and
    2: "insert_event (commit_event now u eno tr p) d1 = Inr (co_event_id out, d2)" and
    3: "mapE (commit_line now p (co_event_id out) eno tr) rs d2 = Inr (co_rows out, d3)" and
    4: "(if ci_source_type p = ''PURCHASE_ORDER''
         then apply_completion_delta_for_event (co_event_id out) (ci_occurred_at p) d3
         else Inr ((), d3)) = Inr ((), d')"
    by (auto simp: commit_inbound_def res_simps sync_purchase_completion_for_inbound_event_def)
  note res = resolve_lines_Inr [OF 1]
  note fr = lots_grow_frame [OF res(1)]
  have inv1: "warehouse_inv d1" by (rule lots_grow_warehouse_inv [OF res(1) inv])
  note ie = insert_event_Inr(1,2) [OF 2]
  have inv2: "warehouse_inv d2" by (rule insert_event_warehouse_inv [OF 2 inv1])
  have "0 < co_event_id out" using warehouse_invD(3) [OF inv1] ie(1) by (simp add: events_inv_def)
  moreover have "distinct (map rl_line_no rs)" unfolding res(2) by (rule distinct_number_lines)
  moreover have "\<forall>x \<in> set (t_ledger d2). lg_ref x \<noteq> eno" using new ie(2) fr(5) by simp
  ultimately obtain prs where loop: "warehouse_inv d3" "t_events d3 = t_events d2"
    "t_count_docs d3 = t_count_docs d2" "t_completion d3 = t_completion d2"
    "posts d2 (map snd prs) d3" "t_inbound_lines d3 = t_inbound_lines d2 @ map fst prs"
    "list_all2 (\<lambda>row (l, x). commit_pair_ok (t_items d) p (co_event_id out) eno row l x) (co_rows out) prs"
    using commit_loop [OF 3 inv2 _ res(3)] ie(2) fr(1) by auto
  have cmp: "warehouse_inv d'" "posts d3 [] d'" "t_events d' = t_events d3"
    "t_count_docs d' = t_count_docs d3" "t_inbound_lines d' = t_inbound_lines d3"
  proof -
    have "warehouse_inv d' \<and> posts d3 [] d' \<and> t_events d' = t_events d3 \<and>
      t_count_docs d' = t_count_docs d3 \<and> t_inbound_lines d' = t_inbound_lines d3"
    proof (cases "ci_source_type p = ''PURCHASE_ORDER''")
      case True
      with 4 have "apply_completion_delta_for_event (co_event_id out) (ci_occurred_at p) d3 = Inr ((), d')"
        by (simp only: simp_thms if_True)
      from apply_completion_warehouse_inv [OF this] loop(1) show ?thesis by blast
    next
      case False
      with 4 have "d' = d3" by (simp only: if_False sum.inject prod.inject)
      with loop(1) show ?thesis by (simp only: posting.traced_nil)
    qed
    then show "warehouse_inv d'" "posts d3 [] d'" "t_events d' = t_events d3"
      "t_count_docs d' = t_count_docs d3" "t_inbound_lines d' = t_inbound_lines d3" by blast+
  qed
  have posted: "posts d1 (map snd prs) d'"
    using posting.traced_app [OF insert_event_posts [OF 2] posting.traced_app [OF loop(5) cmp(2)]] by simp
  have len: "length prs = length (ci_lines p)"
    using list_all2_lengthD [OF loop(7)] mapE_length [OF 3] mapE_length [OF 1] by simp
  have lines: "t_inbound_lines d' = t_inbound_lines d @ map fst prs"
    unfolding cmp(5) loop(6) ie(2) using fr(7) by simp
  have events: "t_events d' = t_events d @ [(commit_event now u eno tr p)\<lparr>ev_id := co_event_id out\<rparr>]"
    unfolding cmp(3) loop(2) ie(2) using fr(6) by simp
  have docs: "t_count_docs d' = t_count_docs d"
    unfolding cmp(4) loop(3) ie(2) using fr(13) by simp
  have "t_completion d3 = t_completion d" unfolding loop(4) ie(2) using fr(16) by simp
  with 4 have "if ci_source_type p = ''PURCHASE_ORDER''
     then apply_completion_delta_for_event (co_event_id out) (ci_occurred_at p) d3 = Inr ((), d') \<and>
       t_completion d3 = t_completion d else d' = d3"
    by (simp split: if_splits)
  from that [OF 1 res(1) inv1 2 3 cmp(1) posted lines events loop(7) docs len this] show ?thesis .
qed

section \<open>Properties\<close>

text \<open>
  C8. A committed receipt is booked line by line: the commit adds one \<open>COMMITTED\<close> event with its
  number, one event line per payload line, and exactly one ledger row per event line, with the
  same event, reference, line number, item, lot and base quantity and reason \<open>RECEIPT\<close>. Lots,
  books and event tables stay consistent. (The event number is a fresh random one: no ledger row
  carries it yet.)
\<close>

theorem commit_inbound_books:
  assumes "warehouse_inv d" and "\<forall>x \<in> set (t_ledger d). lg_ref x \<noteq> event_no"
    and "commit_inbound now event_no trace u p d = Inr (out, d')"
  shows "warehouse_inv d' \<and>
    t_events d' = t_events d @ [(commit_event now u event_no trace p)\<lparr>ev_id := co_event_id out\<rparr>] \<and>
    (\<exists>prs. length prs = length (ci_lines p) \<and>
       t_inbound_lines d' = t_inbound_lines d @ map fst prs \<and>
       t_ledger d' = t_ledger d @ map snd prs \<and>
       (\<forall>(l, r) \<in> set prs. il_event_id l = co_event_id out \<and> lg_reason r = ''RECEIPT'' \<and>
          books_inbound_line (ci_warehouse_id p) event_no 1 l r))"
proof -
  from commit_inbound_Inr [OF assms(3,1,2)] obtain d1 prs where
    *: "lots_grow d d1" "warehouse_inv d1" "warehouse_inv d'" "posts d1 (map snd prs) d'"
      "t_inbound_lines d' = t_inbound_lines d @ map fst prs"
      "t_events d' = t_events d @ [(commit_event now u event_no trace p)\<lparr>ev_id := co_event_id out\<rparr>]"
      "list_all2 (\<lambda>row (l, x). commit_pair_ok (t_items d) p (co_event_id out) event_no row l x) (co_rows out) prs"
      "length prs = length (ci_lines p)" by metis
  have "t_ledger d' = t_ledger d @ map snd prs"
    using posts_ledger [OF *(4) warehouse_invD(2) [OF *(2)]] lots_grow_frame(5) [OF *(1)] by simp
  moreover have "\<forall>(l, r) \<in> set prs. il_event_id l = co_event_id out \<and> lg_reason r = ''RECEIPT'' \<and>
          books_inbound_line (ci_warehouse_id p) event_no 1 l r"
    using *(7) by (fastforce simp: list_all2_conv_all_nth in_set_conv_nth commit_pair_ok_def)
  ultimately show ?thesis using *(3,5,6,8) by blast
qed

definition sample_receipt :: commit_in where
  "sample_receipt =
     \<lparr>ci_warehouse_id = 7, ci_source_type = ''MANUAL'', ci_source_ref = None, ci_occurred_at = 5,
      ci_remark = None, ci_lines =
       [\<lparr>cli_item_id = Some 1, cli_barcode = None, cli_uom_id = Some 12, cli_qty_input = 3,
         cli_lot_code_input = Some ''A'', cli_production_date = Some (Date 2024 1 1),
         cli_expiry_date = None, cli_po_line_id = None, cli_remark = None\<rparr>,
        \<lparr>cli_item_id = Some 2, cli_barcode = None, cli_uom_id = Some 21, cli_qty_input = 4,
         cli_lot_code_input = None, cli_production_date = None,
         cli_expiry_date = None, cli_po_line_id = None, cli_remark = None\<rparr>]\<rparr>"

lemma sample_db_inv: "warehouse_inv sample_db"
proof -
  have "events_inv sample_db" by (simp add: events_inv_def sample_db_def)
  with sample_db_lots_inv empty_books [of sample_db] show ?thesis
    by (simp add: warehouse_inv_def sample_db_def)
qed

lemma sample_receipt_runs:
  "\<exists>out d'. commit_inbound 9 ''IE-1'' ''T-1'' None sample_receipt sample_db = Inr (out, d') \<and>
     map cr_qty_base (co_rows out) = [30, 4] \<and> map cr_lot_id (co_rows out) = [Some 1, Some 2]"
proof -
  have "returns (commit_inbound 9 ''IE-1'' ''T-1'' None sample_receipt sample_db)
    (\<lambda>(out, _). map cr_qty_base (co_rows out) = [30, 4] \<and>
       map cr_lot_id (co_rows out) = [Some 1, Some 2])"
    by code_simp
  then show ?thesis by (auto simp: returns_pair)
qed

lemma sample_db_new_ref: "\<forall>x \<in> set (t_ledger sample_db). lg_ref x \<noteq> ''IE-1''"
  by (simp add: sample_db_def)

lemma commit_inbound_books_witness:
  "\<exists>out d'. commit_inbound 9 ''IE-1'' ''T-1'' None sample_receipt sample_db = Inr (out, d') \<and>
     warehouse_inv d' \<and> length (t_ledger d') = 2"
proof -
  from sample_receipt_runs obtain out d' where
    r: "commit_inbound 9 ''IE-1'' ''T-1'' None sample_receipt sample_db = Inr (out, d')"
    by (elim exE conjE)
  from commit_inbound_books [OF sample_db_inv sample_db_new_ref r] have "warehouse_inv d'"
    "length (t_ledger d') = length (t_ledger sample_db) + length (ci_lines sample_receipt)"
    by auto
  with r show ?thesis by (auto simp: sample_db_def sample_receipt_def)
qed

text \<open>
  C9. A receipt moves exactly what it reports: after a commit the balance of every slot has grown
  by the base quantities of the result rows for that warehouse, item and lot, each of which is
  positive and the input quantity times the unit's ratio; every other balance is as before.
\<close>

theorem commit_inbound_quantities:
  assumes "warehouse_inv d" and "\<forall>x \<in> set (t_ledger d). lg_ref x \<noteq> event_no"
    and "commit_inbound now event_no trace u p d = Inr (out, d')"
  shows "slot_qty d' s = slot_qty d s + (\<Sum>row \<leftarrow> co_rows out.
      if (ci_warehouse_id p, cr_item_id row, the (cr_lot_id row)) = s then cr_qty_base row else 0) \<and>
    (\<forall>row \<in> set (co_rows out). 0 < cr_qty_base row \<and>
       cr_qty_base row = cr_qty_input row * cr_ratio_to_base_snapshot row)"
proof -
  from commit_inbound_Inr [OF assms(3,1,2)] obtain d1 d2 d3 rs prs where
    *: "mapE (resolve_line (ci_warehouse_id p) (ci_source_type p)) (number_lines (ci_lines p)) d = Inr (rs, d1)"
      "lots_grow d d1" "warehouse_inv d1" "posts d1 (map snd prs) d'"
      "mapE (commit_line now p (co_event_id out) event_no trace) rs d2 = Inr (co_rows out, d3)"
      "list_all2 (\<lambda>row (l, x). commit_pair_ok (t_items d) p (co_event_id out) event_no row l x) (co_rows out) prs"
    by metis
  have "slot_qty d' s = slot_qty d1 s + ledger_sum (map snd prs) s"
    by (rule posts_qty [OF *(4) warehouse_invD(2) [OF *(3)]])
  also have "slot_qty d1 s = slot_qty d s"
    using lots_grow_frame(4) [OF *(2)] by (simp add: slot_qty_def slot_row_def)
  also have "ledger_sum (map snd prs) s = (\<Sum>row \<leftarrow> co_rows out.
      if (ci_warehouse_id p, cr_item_id row, the (cr_lot_id row)) = s then cr_qty_base row else 0)"
    by (rule ledger_sum_pairs, rule list_all2_mono [OF *(6)])
      (auto simp: commit_pair_ok_def books_inbound_line_def; metis option.sel)
  finally have q: "slot_qty d' s = slot_qty d s + \<dots>" .
  have "list_all2 (\<lambda>nl r. 0 < rl_qty_base r \<and> rl_qty_base r = rl_qty_input r * rl_ratio_to_base_snapshot r)
      (number_lines (ci_lines p)) rs"
    by (rule mapE_list_all2 [OF *(1)]) (use resolve_line_Inr(3,4) in blast)
  then have rs: "\<forall>r \<in> set rs. 0 < rl_qty_base r \<and> rl_qty_base r = rl_qty_input r * rl_ratio_to_base_snapshot r"
    by (induction rule: list_all2_induct) auto
  have "list_all2 (\<lambda>r row. r \<in> set rs \<and> cr_qty_base row = rl_qty_base r \<and>
      cr_qty_input row = rl_qty_input r \<and> cr_ratio_to_base_snapshot row = rl_ratio_to_base_snapshot r)
      rs (co_rows out)"
    by (rule mapE_list_all2 [OF *(5)]) (auto simp: commit_line_def res_simps)
  then have "\<forall>row \<in> set (co_rows out). \<exists>r \<in> set rs. cr_qty_base row = rl_qty_base r \<and>
      cr_qty_input row = rl_qty_input r \<and> cr_ratio_to_base_snapshot row = rl_ratio_to_base_snapshot r"
    by (fastforce simp: list_all2_conv_all_nth in_set_conv_nth)
  with rs q show ?thesis by fastforce
qed

lemma commit_inbound_quantities_witness:
  "\<exists>out d'. commit_inbound 9 ''IE-1'' ''T-1'' None sample_receipt sample_db = Inr (out, d') \<and>
     slot_qty d' (7, 1, 5) = 0 \<and> (\<forall>row \<in> set (co_rows out). 0 < cr_qty_base row)"
proof -
  from sample_receipt_runs obtain out d' where
    r: "commit_inbound 9 ''IE-1'' ''T-1'' None sample_receipt sample_db = Inr (out, d')"
      "map cr_lot_id (co_rows out) = [Some 1, Some 2]" by (elim exE conjE)
  then have "\<forall>row \<in> set (co_rows out). cr_lot_id row \<noteq> Some 5"
    by (auto simp: Cons_eq_map_conv map_eq_Cons_conv)
  moreover have "slot_qty sample_db (7, 1, 5) = 0"
    by (simp add: slot_qty_def slot_row_def sample_db_def)
  ultimately show ?thesis
    using commit_inbound_quantities [OF sample_db_inv sample_db_new_ref r(1), of "(7, 1, 5)"] r
    by (auto simp: map_eq_Cons_conv)
qed

text \<open>
  Stock of an item without expiry cannot be received under a lot code: although the contract
  accepts a lot code on every line and \<open>resolve_inbound_lot\<close> ignores it for such an item, the
  kernel is handed the code, asks for the dates the item does not have, and the commit fails. So
  every line of a successful commit for such an item carries no lot code.
\<close>

theorem none_item_lot_code_rejected:
  assumes "warehouse_inv d" and "\<forall>x \<in> set (t_ledger d). lg_ref x \<noteq> event_no"
    and "commit_inbound now event_no trace u p d = Inr (out, d')" and "row \<in> set (co_rows out)"
    and "find_item (t_items d) (cr_item_id row) = Some it" and "it_expiry_policy it = EXPIRY_NONE"
  shows "norm_lot_code (cr_lot_code row) = None"
proof -
  from commit_inbound_Inr [OF assms(3,1,2)] obtain prs where
    "list_all2 (\<lambda>row (l, x). commit_pair_ok (t_items d) p (co_event_id out) event_no row l x) (co_rows out) prs"
    by metis
  then have "\<exists>l x. commit_pair_ok (t_items d) p (co_event_id out) event_no row l x"
    using assms(4) by (fastforce simp: list_all2_conv_all_nth in_set_conv_nth)
  with assms(5,6) show ?thesis unfolding commit_pair_ok_def by blast
qed

lemma none_item_lot_code_rejected_witness:
  "\<exists>out d' row. commit_inbound 9 ''IE-1'' ''T-1'' None sample_receipt sample_db = Inr (out, d') \<and>
     row \<in> set (co_rows out) \<and> cr_item_id row = 2 \<and> norm_lot_code (cr_lot_code row) = None"
proof -
  have "returns (commit_inbound 9 ''IE-1'' ''T-1'' None sample_receipt sample_db)
    (\<lambda>(out, _). map cr_item_id (co_rows out) = [1, 2])" by code_simp
  then obtain out d' where
    r: "commit_inbound 9 ''IE-1'' ''T-1'' None sample_receipt sample_db = Inr (out, d')"
      "map cr_item_id (co_rows out) = [1, 2]" by (auto simp: returns_pair)
  then have "co_rows out ! 1 \<in> set (co_rows out)" "cr_item_id (co_rows out ! 1) = 2"
    by (auto simp: map_eq_Cons_conv)
  then obtain row where row: "row \<in> set (co_rows out)" "cr_item_id row = 2" by blast
  have "find_item (t_items sample_db) (cr_item_id row) = Some (sample_item 2 ''MUG'' INTERNAL_ONLY EXPIRY_NONE)"
    unfolding row(2) by code_simp
  from none_item_lot_code_rejected [OF sample_db_inv sample_db_new_ref r(1) row(1) this] r(1) row
  show ?thesis by (auto simp: sample_item_def)
qed

end
