(* ===== verification/Reversal.thy ===== *)
theory Reversal
  imports Inbound Outbound
begin

text \<open>
  Taking documents back: \<open>app/wms/inventory_adjustment/inbound_reversal\<close> and
  \<open>app/wms/inventory_adjustment/outbound_reversal\<close>. A reversal is a new event that repeats the
  lines of the original with the opposite movement and marks the original as superseded.
\<close>

section \<open>What the two services share\<close>

record reversal_in =
  ri_occurred_at :: int
  ri_operator_name_snapshot :: string
  ri_remark :: "string option"

text \<open>The newest committed reversal of an event.\<close>

definition find_committed_reversal :: "string \<Rightarrow> db \<Rightarrow> int \<Rightarrow> wms_event option" where
  "find_committed_reversal etype d target =
     find (\<lambda>e. ev_event_type e = etype \<and> ev_event_kind e = ''REVERSAL'' \<and>
        ev_target_event_id e = Some target \<and> ev_status e = ''COMMITTED'') (rev (t_events d))"

definition reversible_event :: "string \<Rightarrow> db \<Rightarrow> int \<Rightarrow> wms_event result" where
  "reversible_event etype d event_id =
     (case find (\<lambda>e. ev_id e = event_id \<and> ev_event_type e = etype) (t_events d) of
        None \<Rightarrow> Inl (HTTPException 404 ''event_not_found'')
      | Some e \<Rightarrow>
          if ev_event_kind e \<noteq> ''COMMIT'' then Inl (HTTPException 409 ''event_not_reversible_kind'')
          else if ev_status e \<noteq> ''COMMITTED'' then Inl (HTTPException 409 ''event_not_reversible_status'')
          else Inr e)"

definition mark_superseded :: "string \<Rightarrow> int \<Rightarrow> db \<Rightarrow> db" where
  "mark_superseded etype event_id d =
     d\<lparr>t_events := update_where (\<lambda>e. ev_id e = event_id \<and> ev_event_type e = etype \<and>
          ev_event_kind e = ''COMMIT'' \<and> ev_status e = ''COMMITTED'')
        (\<lambda>e. e\<lparr>ev_status := ''SUPERSEDED''\<rparr>) (t_events d)\<rparr>"

definition reversal_remark :: "reversal_in \<Rightarrow> wms_event \<Rightarrow> string" where
  "reversal_remark p orig = (case strip_or_none (ri_remark p) of
       Some r \<Rightarrow> r | None \<Rightarrow> ''reversal of '' @ ev_event_no orig)"

definition reversal_event ::
  "int \<Rightarrow> string \<Rightarrow> string \<Rightarrow> string \<Rightarrow> int option \<Rightarrow> reversal_in \<Rightarrow> wms_event \<Rightarrow> wms_event" where
  "reversal_event now etype event_no trace user_id p orig =
     \<lparr>ev_id = 0, ev_event_no = event_no, ev_event_type = etype,
      ev_warehouse_id = ev_warehouse_id orig, ev_source_type = ev_source_type orig,
      ev_source_ref = strip_or_none (ev_source_ref orig), ev_occurred_at = ri_occurred_at p,
      ev_committed_at = now, ev_trace_id = trace, ev_event_kind = ''REVERSAL'',
      ev_target_event_id = Some (ev_id orig), ev_status = ''COMMITTED'', ev_created_by = user_id,
      ev_remark = Some (reversal_remark p orig)\<rparr>"

definition reversal_request ::
  "string \<Rightarrow> int \<Rightarrow> string \<Rightarrow> string \<Rightarrow> reversal_in \<Rightarrow> wms_event \<Rightarrow> int \<Rightarrow> int \<Rightarrow> int \<Rightarrow> int \<Rightarrow> adjust_req" where
  "reversal_request sub event_id event_no trace p orig i lid delta ref_line =
     \<lparr>aq_item_id = i, aq_warehouse_id = ev_warehouse_id orig, aq_lot_id = Some lid, aq_delta = delta,
      aq_reason = Inr ADJUSTMENT, aq_ref = event_no, aq_ref_line = Some ref_line,
      aq_occurred_at = Some (ri_occurred_at p),
      aq_meta = [(''sub_reason'', PStr sub), (''event_id'', PInt event_id),
        (''target_event_id'', PInt (ev_id orig)), (''source_type'', PStr (ev_source_type orig)),
        (''source_ref'', opt_meta (strip_or_none (ev_source_ref orig))),
        (''operator_name_snapshot'', opt_meta (strip_or_none (Some (ri_operator_name_snapshot p)))),
        (''remark'', PStr (py_strip (reversal_remark p orig)))],
      aq_lot_code = None, aq_production_date = None, aq_expiry_date = None,
      aq_trace_id = Some trace\<rparr>"

record reversal_out =
  ro_event_id :: int
  ro_event_no :: string
  ro_target_event_id :: int
  ro_warehouse_id :: int
  ro_rows :: "(int \<times> int \<times> int \<times> int) list"

section \<open>inbound\_reversal\<close>

definition find_committed_inbound_reversal :: "db \<Rightarrow> int \<Rightarrow> wms_event option" where
  "find_committed_inbound_reversal d target = find_committed_reversal ''INBOUND'' d target"

definition get_inbound_event_for_reversal :: "db \<Rightarrow> int \<Rightarrow> wms_event result" where
  "get_inbound_event_for_reversal d event_id = reversible_event ''INBOUND'' d event_id"

definition list_inbound_event_lines_for_reversal ::
  "db \<Rightarrow> int \<Rightarrow> bool \<Rightarrow> inbound_event_line list result" where
  "list_inbound_event_lines_for_reversal d event_id require_nonempty =
     (let rows = sort_key il_line_no (filter (\<lambda>l. il_event_id l = event_id) (t_inbound_lines d)) in
      if require_nonempty \<and> rows = [] then Inl (HTTPException 409 ''inbound_event_has_no_lines'')
      else Inr rows)"

definition mark_inbound_event_superseded :: "int \<Rightarrow> db \<Rightarrow> db" where
  "mark_inbound_event_superseded event_id d = mark_superseded ''INBOUND'' event_id d"

text \<open>Why an event cannot be taken back, in the order the service looks.\<close>

definition inbound_non_reversible_reason :: "db \<Rightarrow> wms_event \<Rightarrow> string option" where
  "inbound_non_reversible_reason d e =
     (if ev_event_kind e \<noteq> ''COMMIT'' then Some ''event kind''
      else if ev_status e \<noteq> ''COMMITTED'' then Some ''event status''
      else if find_committed_inbound_reversal d (ev_id e) \<noteq> None then Some ''already reversed''
      else case ensure_warehouse_not_frozen d (ev_warehouse_id e) of
        Inl _ \<Rightarrow> Some ''warehouse frozen'' | Inr _ \<Rightarrow> None)"

text \<open>\<open>reversible\<close> and its reason in the detail view.\<close>

definition get_reversible_inbound_event_detail :: "db \<Rightarrow> int \<Rightarrow> (bool \<times> string option) result" where
  "get_reversible_inbound_event_detail d event_id =
     (case find (\<lambda>e. ev_id e = event_id \<and> ev_event_type e = ''INBOUND'') (t_events d) of
        None \<Rightarrow> Inl (HTTPException 404 ''inbound_event_not_found'')
      | Some e \<Rightarrow>
          bindE (list_inbound_event_lines_for_reversal d event_id False) (\<lambda>line_rows.
          let reason0 = inbound_non_reversible_reason d e;
              reason = (if line_rows = [] \<and> reason0 = None then Some ''no lines'' else reason0)
          in Inr (reason = None, reason)))"

definition reverse_inbound_line ::
  "int \<Rightarrow> int \<Rightarrow> string \<Rightarrow> string \<Rightarrow> reversal_in \<Rightarrow> wms_event \<Rightarrow> inbound_event_line \<Rightarrow>
   (int \<times> int \<times> int \<times> int) tx" where
  "reverse_inbound_line now event_id event_no trace p orig src d =
     (case il_lot_id src of
        None \<Rightarrow> Inl (HTTPException 409 ''inbound_event_line_missing_lot'')
      | Some lid \<Rightarrow>
          if il_qty_base src \<le> 0 then Inl (HTTPException 409 ''inbound_event_line_invalid_qty_base'')
          else
            bindE (insert_inbound_line (src\<lparr>il_id := 0, il_event_id := event_id,
                il_item_name_snapshot := strip_or_none (il_item_name_snapshot src),
                il_item_spec_snapshot := strip_or_none (il_item_spec_snapshot src),
                il_actual_uom_name_snapshot := strip_or_none (il_actual_uom_name_snapshot src),
                il_barcode_input := strip_or_none (il_barcode_input src),
                il_lot_code_input := strip_or_none (il_lot_code_input src),
                il_remark := strip_or_none (il_remark src)\<rparr>) d) (\<lambda>(_, d1).
            bindE (adjust_lot now (reversal_request ''INBOUND_REVERSAL'' event_id event_no trace p orig
                     (il_item_id src) lid (- il_qty_base src) (il_line_no src)) d1) (\<lambda>(_, d2).
            Inr ((il_line_no src, il_item_id src, lid, il_qty_base src), d2))))"

definition reverse_inbound_event ::
  "int \<Rightarrow> string \<Rightarrow> string \<Rightarrow> int option \<Rightarrow> int \<Rightarrow> reversal_in \<Rightarrow> reversal_out tx" where
  "reverse_inbound_event now event_no trace user_id event_id p d =
     (case find_committed_inbound_reversal d event_id of
        Some _ \<Rightarrow> Inl (HTTPException 409 ''inbound_event_already_reversed'')
      | None \<Rightarrow>
          bindE (get_inbound_event_for_reversal d event_id) (\<lambda>orig.
          bindE (list_inbound_event_lines_for_reversal d (ev_id orig) True) (\<lambda>source_lines.
          bindE (ensure_warehouse_not_frozen d (ev_warehouse_id orig)) (\<lambda>_.
          bindE (insert_event (reversal_event now ''INBOUND'' event_no trace user_id p orig) d)
            (\<lambda>(eid, d1).
          bindE (mapE (reverse_inbound_line now eid event_no trace p orig) source_lines d1)
            (\<lambda>(rows, d2).
          Inr (\<lparr>ro_event_id = eid, ro_event_no = event_no, ro_target_event_id = ev_id orig,
                ro_warehouse_id = ev_warehouse_id orig, ro_rows = rows\<rparr>,
               mark_inbound_event_superseded (ev_id orig) d2)))))))"

section \<open>outbound\_reversal\<close>

definition find_committed_outbound_reversal :: "db \<Rightarrow> int \<Rightarrow> wms_event option" where
  "find_committed_outbound_reversal d target = find_committed_reversal ''OUTBOUND'' d target"

definition get_outbound_event_for_reversal :: "db \<Rightarrow> int \<Rightarrow> wms_event result" where
  "get_outbound_event_for_reversal d event_id = reversible_event ''OUTBOUND'' d event_id"

definition list_outbound_event_lines_for_reversal ::
  "db \<Rightarrow> int \<Rightarrow> outbound_event_line list result" where
  "list_outbound_event_lines_for_reversal d event_id =
     (let rows = sort_key ol_ref_line (filter (\<lambda>l. ol_event_id l = event_id) (t_outbound_lines d)) in
      if rows = [] then Inl (HTTPException 409 ''outbound_event_has_no_lines'') else Inr rows)"

definition mark_outbound_event_superseded :: "int \<Rightarrow> db \<Rightarrow> db" where
  "mark_outbound_event_superseded event_id d = mark_superseded ''OUTBOUND'' event_id d"

definition reverse_outbound_line ::
  "int \<Rightarrow> int \<Rightarrow> string \<Rightarrow> string \<Rightarrow> reversal_in \<Rightarrow> wms_event \<Rightarrow> outbound_event_line \<Rightarrow>
   (int \<times> int \<times> int \<times> int) tx" where
  "reverse_outbound_line now event_id event_no trace p orig src d =
     (if ol_qty_outbound src \<le> 0 then Inl (HTTPException 409 ''outbound_event_line_invalid_qty'')
      else
        bindE (insert_outbound_line (src\<lparr>ol_id := 0, ol_event_id := event_id,
            ol_lot_code_snapshot := strip_or_none (ol_lot_code_snapshot src),
            ol_item_name_snapshot := strip_or_none (ol_item_name_snapshot src),
            ol_item_sku_snapshot := strip_or_none (ol_item_sku_snapshot src),
            ol_item_spec_snapshot := strip_or_none (ol_item_spec_snapshot src),
            ol_remark := strip_or_none (ol_remark src)\<rparr>) d) (\<lambda>(_, d1).
        bindE (adjust_lot now (reversal_request ''OUTBOUND_REVERSAL'' event_id event_no trace p orig
                 (ol_item_id src) (ol_lot_id src) (ol_qty_outbound src) (ol_ref_line src)) d1) (\<lambda>(_, d2).
        Inr ((ol_ref_line src, ol_item_id src, ol_lot_id src, ol_qty_outbound src), d2))))"

definition reverse_outbound_event ::
  "int \<Rightarrow> string \<Rightarrow> string \<Rightarrow> int option \<Rightarrow> int \<Rightarrow> reversal_in \<Rightarrow> reversal_out tx" where
  "reverse_outbound_event now event_no trace user_id event_id p d =
     (case find_committed_outbound_reversal d event_id of
        Some _ \<Rightarrow> Inl (HTTPException 409 ''outbound_event_already_reversed'')
      | None \<Rightarrow>
          bindE (get_outbound_event_for_reversal d event_id) (\<lambda>orig.
          bindE (list_outbound_event_lines_for_reversal d (ev_id orig)) (\<lambda>source_lines.
          bindE (ensure_warehouse_not_frozen d (ev_warehouse_id orig)) (\<lambda>_.
          bindE (insert_event (reversal_event now ''OUTBOUND'' event_no trace user_id p orig) d)
            (\<lambda>(eid, d1).
          bindE (mapE (reverse_outbound_line now eid event_no trace p orig) source_lines d1)
            (\<lambda>(rows, d2).
          Inr (\<lparr>ro_event_id = eid, ro_event_no = event_no, ro_target_event_id = ev_id orig,
                ro_warehouse_id = ev_warehouse_id orig, ro_rows = rows\<rparr>,
               mark_outbound_event_superseded (ev_id orig) d2)))))))"

section \<open>What a reversal does\<close>

lemma reversal_request_sel [simp]:
  "aq_item_id (reversal_request sub eid eno tr p orig i lid q rl) = i"
  "aq_warehouse_id (reversal_request sub eid eno tr p orig i lid q rl) = ev_warehouse_id orig"
  "aq_lot_id (reversal_request sub eid eno tr p orig i lid q rl) = Some lid"
  "aq_delta (reversal_request sub eid eno tr p orig i lid q rl) = q"
  "aq_reason (reversal_request sub eid eno tr p orig i lid q rl) = Inr ADJUSTMENT"
  "aq_ref (reversal_request sub eid eno tr p orig i lid q rl) = eno"
  "aq_ref_line (reversal_request sub eid eno tr p orig i lid q rl) = Some rl"
  by (simp_all add: reversal_request_def)

lemma reversal_request_event:
  "0 < eid \<Longrightarrow> meta_int (aq_meta (reversal_request sub eid eno tr p orig i lid q rl)) ''event_id'' =
     Inr (Some eid)"
  by (simp add: reversal_request_def meta_int_def meta_get_def)

text \<open>One adjustment of a reversal: it books one row for its line.\<close>

lemma reversal_adjust_step:
  assumes run: "adjust_lot now (reversal_request sub eid eno tr p orig i lid q rl) d = Inr (out, d')"
    and inv: "warehouse_inv d" and q: "q \<noteq> 0" and eid: "0 < eid"
    and new: "\<forall>x \<in> set (t_ledger d). \<not> (lg_ref x = eno \<and> lg_ref_line x = rl)"
  shows "\<exists>x. posts d [x] d' \<and> lg_ref x = eno \<and> lg_ref_line x = rl \<and> lg_event_id x = Some eid \<and>
    lg_delta x = q \<and> lg_reason x = ''ADJUSTMENT'' \<and> ledger_slot x = (ev_warehouse_id orig, i, lid)"
proof -
  let ?q = "reversal_request sub eid eno tr p orig i lid q rl"
  have "adjust_key ?q lid \<notin> ledger_key ` set (t_ledger d)"
    using new by (auto simp: adjust_key_def ledger_key_def)
  from adjust_lot_applied [OF run warehouse_invD(2) [OF inv] _ _ this] q obtain c where
    c: "adjust_prep now ?q d = Inr (Some c)" "cx_lot_id c = lid"
      "posts d [adjust_row ?q c (slot_qty d (adjust_slot ?q lid)) (t_next_id d STOCK_LEDGER)] d'"
    by auto
  have "cx_ref_line c = rl" "cx_event_id c = Some eid"
    using adjust_prep_Some(3,5) [OF c(1)] reversal_request_event [OF eid] by simp_all
  with c(2,3) show ?thesis
    by (intro exI [of _ "adjust_row ?q c (slot_qty d (adjust_slot ?q lid)) (t_next_id d STOCK_LEDGER)"])
      (simp add: adjust_slot_def reason_val_def)
qed

definition reversed_inbound :: "wms_event \<Rightarrow> int \<Rightarrow> string \<Rightarrow> inbound_event_line \<Rightarrow>
    inbound_event_line \<Rightarrow> stock_ledger \<Rightarrow> bool" where
  "reversed_inbound orig eid eno src l x \<longleftrightarrow> il_event_id l = eid \<and> il_line_no l = il_line_no src \<and>
     il_item_id l = il_item_id src \<and> il_lot_id l = il_lot_id src \<and> il_qty_base l = il_qty_base src \<and>
     il_po_line_id l = il_po_line_id src \<and>
     lg_reason x = ''ADJUSTMENT'' \<and> books_inbound_line (ev_warehouse_id orig) eno (- 1) l x"

lemma reverse_inbound_line_step:
  assumes run: "reverse_inbound_line now eid eno tr p orig src d = Inr (row, d')"
    and inv: "warehouse_inv d" and eid: "0 < eid"
    and new: "\<forall>x \<in> set (t_ledger d). \<not> (lg_ref x = eno \<and> lg_ref_line x = il_line_no src)"
  shows "warehouse_inv d' \<and> (t_events d' = t_events d \<and> t_completion d' = t_completion d) \<and>
    (\<exists>l x. posts d [x] d' \<and> t_inbound_lines d' = t_inbound_lines d @ [l] \<and> lg_ref x = eno \<and>
      lg_ref_line x = il_line_no src \<and> reversed_inbound orig eid eno src l x)"
proof -
  from run obtain lid n l d1 out where
    1: "il_lot_id src = Some lid" "0 < il_qty_base src" "insert_inbound_line l d = Inr (n, d1)" and
    l: "il_event_id l = eid" "il_line_no l = il_line_no src" "il_item_id l = il_item_id src"
      "il_lot_id l = il_lot_id src" "il_qty_base l = il_qty_base src" "il_po_line_id l = il_po_line_id src" and
    2: "adjust_lot now (reversal_request ''INBOUND_REVERSAL'' eid eno tr p orig
          (il_item_id src) lid (- il_qty_base src) (il_line_no src)) d1 = Inr (out, d')"
    by (auto simp: reverse_inbound_line_def res_simps)
  note i = insert_inbound_line_Inr [OF 1(3)]
  have inv1: "warehouse_inv d1" by (rule insert_inbound_line_warehouse_inv [OF 1(3) inv])
  note rest = rest_ofD [OF adjust_lot_rest [OF 2]]
  have "\<forall>x \<in> set (t_ledger d1). \<not> (lg_ref x = eno \<and> lg_ref_line x = il_line_no src)"
    using new by (simp add: i(1))
  from reversal_adjust_step [OF 2 inv1 _ eid this] 1(2) obtain x where
    x: "posts d1 [x] d'" "lg_ref x = eno" "lg_ref_line x = il_line_no src" "lg_event_id x = Some eid"
      "lg_delta x = - il_qty_base src" "lg_reason x = ''ADJUSTMENT''"
      "ledger_slot x = (ev_warehouse_id orig, il_item_id src, lid)" by auto
  have "posts d [x] d'"
    using posting.traced_app [OF insert_inbound_line_posts [OF 1(3)] x(1)] by simp
  moreover have "t_inbound_lines d' = t_inbound_lines d @ [l\<lparr>il_id := n\<rparr>]"
    "t_events d' = t_events d" "t_completion d' = t_completion d"
    by (simp_all add: rest i(1))
  moreover have "reversed_inbound orig eid eno src (l\<lparr>il_id := n\<rparr>) x"
    using l x 1(1) by (simp add: reversed_inbound_def books_inbound_line_def)
  ultimately show ?thesis
    using adjust_lot_warehouse_inv [OF 2 inv1] x(2,3) by blast
qed

lemma mark_superseded_warehouse_inv:
  assumes "warehouse_inv d" shows "warehouse_inv (mark_superseded etype n d)"
proof -
  let ?d = "mark_superseded etype n d"
  have lb: "lots_inv ?d = lots_inv d" "book_inv ?d = book_inv d"
    by (rule lots_inv_cong book_inv_cong; simp add: mark_superseded_def)+
  have "map ev_id (t_events ?d) = map ev_id (t_events d)"
    "map ev_event_no (t_events ?d) = map ev_event_no (t_events d)"
    "map ev_trace_id (t_events ?d) = map ev_trace_id (t_events d)"
    unfolding mark_superseded_def by (simp_all, (rule map_update_where, simp)+)
  note maps = this
  then have "ev_id ` set (t_events ?d) = ev_id ` set (t_events d)" by (metis list.set_map)
  moreover have "ev_id e < t_next_id d WMS_EVENTS \<and> event_checks e" if "e \<in> set (t_events ?d)" for e
    using that warehouse_invD(3) [OF assms]
    by (auto simp: mark_superseded_def in_set_update_where events_inv_def event_checks_def
        event_statuses_def split: if_splits)
  moreover have "t_inbound_lines ?d = t_inbound_lines d" "t_outbound_lines ?d = t_outbound_lines d"
    "t_next_id ?d = t_next_id d" by (simp_all add: mark_superseded_def)
  ultimately have "events_inv ?d"
    using maps warehouse_invD(3) [OF assms] unfolding events_inv_def by simp
  with lb assms show ?thesis by (simp add: warehouse_inv_def)
qed

lemma mark_superseded_posts: "posts d [] (mark_superseded etype n d)"
  by (rule posts_nothing) (simp_all add: mark_superseded_def)

lemma sorted_lines_distinct:
  assumes "distinct (map (\<lambda>l. (ev l, ln l)) xs)"
  shows "distinct (map ln (sort_key ln (filter (\<lambda>l. ev l = n) xs)))"
proof -
  have "distinct (map ln (filter (\<lambda>l. ev l = n) xs))"
    using assms by (induction xs) (auto simp: image_iff)
  then show ?thesis by (simp add: distinct_map)
qed

text \<open>
  The contract of a reversal service: documents of type \<open>etype\<close> with lines in table \<open>T\<close>; \<open>run\<close>
  checks, inserts the reversal event, runs \<open>step\<close> over the original's lines and marks the
  original. Each step repeats its line under the new event and books \<open>delta_of\<close> on \<open>slot_of\<close>.
\<close>

locale document_reversal =
  fixes etype :: string and T :: "db \<Rightarrow> 'l list" and ev_of ln :: "'l \<Rightarrow> int"
    and step :: "int \<Rightarrow> int \<Rightarrow> string \<Rightarrow> string \<Rightarrow> reversal_in \<Rightarrow> wms_event \<Rightarrow> 'l \<Rightarrow> (int \<times> int \<times> int \<times> int) tx"
    and ok :: "wms_event \<Rightarrow> int \<Rightarrow> string \<Rightarrow> 'l \<Rightarrow> 'l \<Rightarrow> stock_ledger \<Rightarrow> bool"
    and slot_of :: "wms_event \<Rightarrow> 'l \<Rightarrow> slot" and delta_of :: "'l \<Rightarrow> int"
    and run :: "int \<Rightarrow> string \<Rightarrow> string \<Rightarrow> int option \<Rightarrow> int \<Rightarrow> reversal_in \<Rightarrow> reversal_out tx"
    and again :: string
  assumes step_law: "step now eid eno tr p orig src d = Inr (row, d') \<Longrightarrow> warehouse_inv d \<Longrightarrow> 0 < eid \<Longrightarrow>
      \<forall>x \<in> set (t_ledger d). \<not> (lg_ref x = eno \<and> lg_ref_line x = ln src) \<Longrightarrow>
      warehouse_inv d' \<and> (t_events d' = t_events d \<and> t_completion d' = t_completion d) \<and>
      (\<exists>l x. posts d [x] d' \<and> T d' = T d @ [l] \<and> lg_ref x = eno \<and> lg_ref_line x = ln src \<and>
         ok orig eid eno src l x)"
    and ok_books: "ok orig eid eno src l x \<Longrightarrow> ledger_slot x = slot_of orig src \<and> lg_delta x = delta_of src"
    and T_event: "insert_event e d = Inr (n, d1) \<Longrightarrow> T d1 = T d"
    and T_mark: "T (mark_superseded et n d) = T d"
    and T_distinct: "warehouse_inv d \<Longrightarrow> distinct (map (\<lambda>l. (ev_of l, ln l)) (T d))"
    and run_Inr: "run now eno tr u n p d = Inr (out, d') \<Longrightarrow> \<exists>orig srcs d1 d2 rows.
      reversible_event etype d n = Inr orig \<and> find_committed_reversal etype d n = None \<and>
      srcs = sort_key ln (filter (\<lambda>l. ev_of l = n) (T d)) \<and>
      ensure_warehouse_not_frozen d (ev_warehouse_id orig) = Inr () \<and>
      insert_event (reversal_event now etype eno tr u p orig) d = Inr (ro_event_id out, d1) \<and>
      mapE (step now (ro_event_id out) eno tr p orig) srcs d1 = Inr (rows, d2) \<and>
      d' = mark_superseded etype n d2"
    and run_again: "find_committed_reversal etype d n = Some e \<Longrightarrow>
      run now eno tr u n p d = Inl (HTTPException 409 again)"
begin

lemma reverse_Inr:
  assumes run: "run now eno tr u n p d = Inr (out, d')" and inv: "warehouse_inv d"
    and new: "\<forall>x \<in> set (t_ledger d). lg_ref x \<noteq> eno"
  obtains orig prs d2 where
    "reversible_event etype d n = Inr orig"
    "ensure_warehouse_not_frozen d (ev_warehouse_id orig) = Inr ()"
    "warehouse_inv d'" "posts d (map snd prs) d'" "T d' = T d @ map fst prs"
    "list_all2 (\<lambda>src (l, x). ok orig (ro_event_id out) eno src l x)
       (sort_key ln (filter (\<lambda>l. ev_of l = n) (T d))) prs"
    "t_completion d' = t_completion d" "d' = mark_superseded etype n d2"
    "t_events d2 = t_events d @ [(reversal_event now etype eno tr u p orig)\<lparr>ev_id := ro_event_id out\<rparr>]"
proof -
  from run_Inr [OF run] obtain orig srcs d1 d2 rows where
    1: "reversible_event etype d n = Inr orig" and
    srcs: "srcs = sort_key ln (filter (\<lambda>l. ev_of l = n) (T d))" and
    3: "ensure_warehouse_not_frozen d (ev_warehouse_id orig) = Inr ()" and
    4: "insert_event (reversal_event now etype eno tr u p orig) d = Inr (ro_event_id out, d1)" and
    5: "mapE (step now (ro_event_id out) eno tr p orig) srcs d1 = Inr (rows, d2)" and
    6: "d' = mark_superseded etype n d2" by blast
  note ie = insert_event_Inr [OF 4]
  have inv1: "warehouse_inv d1" by (rule insert_event_warehouse_inv [OF 4 inv])
  have eid: "0 < ro_event_id out" using warehouse_invD(3) [OF inv] ie(1) by (simp add: events_inv_def)
  have dist: "distinct (map ln srcs)"
    unfolding srcs by (rule sorted_lines_distinct [OF T_distinct [OF inv]])
  have new1: "\<forall>r \<in> set (t_ledger d1). lg_ref r = eno \<longrightarrow> lg_ref_line r \<notin> ln ` set srcs"
    using new ie(2) by simp
  let ?I = "\<lambda>e. t_events e = t_events d1 \<and> t_completion e = t_completion d1"
  have "warehouse_inv d2 \<and> ?I d2 \<and>
    (\<exists>prs. posts d1 (map snd prs) d2 \<and> T d2 = T d1 @ map fst prs \<and>
       list_all2 (\<lambda>(x, y) (l, r). lg_ref r = eno \<and> lg_ref_line r = ln x \<and>
         ok orig (ro_event_id out) eno x l r) (zip srcs rows) prs)"
  proof (rule document_loop [OF _ 5 dist inv1 _ new1])
    fix src e row e'
    assume "warehouse_inv e" and I: "?I e"
      and st: "step now (ro_event_id out) eno tr p orig src e = Inr (row, e')"
      and "\<forall>x \<in> set (t_ledger e). \<not> (lg_ref x = eno \<and> lg_ref_line x = ln src)"
    from step_law [OF st this(1) eid this(4)] I
    show "warehouse_inv e' \<and> ?I e' \<and> (\<exists>l x. posts e [x] e' \<and> T e' = T e @ [l] \<and> lg_ref x = eno \<and>
        lg_ref_line x = ln src \<and> ok orig (ro_event_id out) eno src l x)" by simp
  qed simp
  then obtain prs where L: "warehouse_inv d2" "?I d2" "posts d1 (map snd prs) d2" "T d2 = T d1 @ map fst prs"
    "list_all2 (\<lambda>(x, y) (l, r). lg_ref r = eno \<and> lg_ref_line r = ln x \<and>
         ok orig (ro_event_id out) eno x l r) (zip srcs rows) prs" by blast
  have "list_all2 (\<lambda>src (l, x). ok orig (ro_event_id out) eno src l x) (map fst (zip srcs rows)) prs"
    unfolding list_all2_map1 by (rule list_all2_mono [OF L(5)]) auto
  then have pairs: "list_all2 (\<lambda>src (l, x). ok orig (ro_event_id out) eno src l x)
      (sort_key ln (filter (\<lambda>l. ev_of l = n) (T d))) prs"
    using mapE_length [OF 5] srcs by simp
  have posted: "posts d (map snd prs) d'"
    using posting.traced_app [OF insert_event_posts [OF 4]
        posting.traced_app [OF L(3) mark_superseded_posts]] by (simp add: 6)
  have d': "T d' = T d @ map fst prs" using L(4) T_event [OF 4] by (simp add: 6 T_mark)
  have c: "t_completion d' = t_completion d" using L(2) by (simp add: 6 mark_superseded_def ie(2))
  have d2: "t_events d2 = t_events d @ [(reversal_event now etype eno tr u p orig)\<lparr>ev_id := ro_event_id out\<rparr>]"
    using L(2) by (simp add: ie(2))
  have inv': "warehouse_inv d'" unfolding 6 by (rule mark_superseded_warehouse_inv [OF L(1)])
  show ?thesis by (rule that [OF 1 3 inv' posted d' pairs c 6 d2])
qed

text \<open>The balances move by the opposite of the original's lines.\<close>

lemma reverse_quantities:
  assumes "run now eno tr u n p d = Inr (out, d')" and "warehouse_inv d"
    and "\<forall>x \<in> set (t_ledger d). lg_ref x \<noteq> eno"
  shows "\<exists>orig. reversible_event etype d n = Inr orig \<and> slot_qty d' s = slot_qty d s +
    (\<Sum>l \<leftarrow> filter (\<lambda>l. ev_of l = n) (T d). if slot_of orig l = s then delta_of l else 0)"
proof -
  from reverse_Inr [OF assms] obtain orig prs where
    *: "reversible_event etype d n = Inr orig" "posts d (map snd prs) d'"
      "list_all2 (\<lambda>src (l, x). ok orig (ro_event_id out) eno src l x)
         (sort_key ln (filter (\<lambda>l. ev_of l = n) (T d))) prs" by metis
  have "ledger_sum (map snd prs) s = (\<Sum>l \<leftarrow> sort_key ln (filter (\<lambda>l. ev_of l = n) (T d)).
      if slot_of orig l = s then delta_of l else 0)"
    by (rule ledger_sum_pairs, rule list_all2_mono [OF *(3)]) (auto dest: ok_books)
  with posts_qty [OF *(2) warehouse_invD(2) [OF assms(2)], of s] *(1) show ?thesis by simp
qed

text \<open>Once is enough: the reversal event is there, and the original is superseded.\<close>

lemma reverse_once:
  assumes "run now eno tr u n p d = Inr (out, d')" and "warehouse_inv d"
    and "\<forall>x \<in> set (t_ledger d). lg_ref x \<noteq> eno"
  shows "run now2 eno2 tr2 u2 n p2 d' = Inl (HTTPException 409 again)"
    and "\<exists>c. reversible_event etype d' n = Inl c"
proof -
  from reverse_Inr [OF assms] obtain orig d2 where
    *: "reversible_event etype d n = Inr orig" "d' = mark_superseded etype n d2"
      "t_events d2 = t_events d @ [(reversal_event now etype eno tr u p orig)\<lparr>ev_id := ro_event_id out\<rparr>]"
    by metis
  have id: "ev_id orig = n" "orig \<in> set (t_events d)" "ev_event_type orig = etype"
    "ev_event_kind orig = ''COMMIT''" "ev_status orig = ''COMMITTED''"
    "find (\<lambda>e. ev_id e = n \<and> ev_event_type e = etype) (t_events d) = Some orig"
    using *(1) by (auto simp: reversible_event_def split: option.splits if_splits dest!: find_SomeD)
  let ?r = "(reversal_event now etype eno tr u p orig)\<lparr>ev_id := ro_event_id out\<rparr>"
  have "?r \<in> set (t_events d')"
    by (auto simp: *(2,3) mark_superseded_def in_set_update_where reversal_event_def)
  then have "find_committed_reversal etype d' n \<noteq> None"
    unfolding find_committed_reversal_def find_None_iff_all
    by (auto simp: reversal_event_def id(1) intro!: bexI [of _ ?r])
  then show "run now2 eno2 tr2 u2 n p2 d' = Inl (HTTPException 409 again)"
    using run_again by blast
  have "find (\<lambda>e. ev_id e = n \<and> ev_event_type e = etype) (t_events d') =
      Some (orig\<lparr>ev_status := ''SUPERSEDED''\<rparr>)"
    using id by (simp add: *(2,3) mark_superseded_def find_update_where_same find_append)
  then show "\<exists>c. reversible_event etype d' n = Inl c"
    using id(4) by (simp add: reversible_event_def)
qed

end

interpretation inbound_reversal: document_reversal "''INBOUND''" t_inbound_lines il_event_id il_line_no
  reverse_inbound_line reversed_inbound
  "\<lambda>e l. (ev_warehouse_id e, il_item_id l, case il_lot_id l of None \<Rightarrow> 0 | Some n \<Rightarrow> n)"
  "\<lambda>l. - il_qty_base l" reverse_inbound_event "''inbound_event_already_reversed''"
proof (unfold_locales, goal_cases)
  case (1 now eid eno tr p orig src d row d')
  then show ?case by (rule reverse_inbound_line_step)
next
  case (2 orig eid eno src l x)
  then show ?case by (auto simp: reversed_inbound_def books_inbound_line_def split: option.splits)
next
  case (3 e d n d1)
  show ?case by (simp add: insert_event_Inr(2) [OF 3])
next
  case (4 et n d)
  then show ?case by (simp add: mark_superseded_def)
next
  case (5 d)
  then show ?case by (simp add: warehouse_inv_def events_inv_def)
next
  case (6 now eno tr u n p d out d')
  then obtain orig where o: "reversible_event ''INBOUND'' d n = Inr orig"
    by (auto simp: reverse_inbound_event_def res_simps get_inbound_event_for_reversal_def)
  then have "ev_id orig = n"
    by (auto simp: reversible_event_def split: option.splits if_splits dest!: find_SomeD)
  with 6 o show ?case
    by (auto simp: reverse_inbound_event_def res_simps get_inbound_event_for_reversal_def
        find_committed_inbound_reversal_def list_inbound_event_lines_for_reversal_def Let_def
        mark_inbound_event_superseded_def split: if_splits)
next
  case (7 d n e now eno tr u p)
  then show ?case by (simp add: reverse_inbound_event_def find_committed_inbound_reversal_def)
qed

definition reversed_outbound :: "wms_event \<Rightarrow> int \<Rightarrow> string \<Rightarrow> outbound_event_line \<Rightarrow>
    outbound_event_line \<Rightarrow> stock_ledger \<Rightarrow> bool" where
  "reversed_outbound orig eid eno src l x \<longleftrightarrow> ol_event_id l = eid \<and> ol_ref_line l = ol_ref_line src \<and>
     ol_item_id l = ol_item_id src \<and> ol_lot_id l = ol_lot_id src \<and>
     ol_qty_outbound l = ol_qty_outbound src \<and> ol_order_line_id l = ol_order_line_id src \<and>
     lg_reason x = ''ADJUSTMENT'' \<and> books_outbound_line (ev_warehouse_id orig) eno 1 l x"

lemma reverse_outbound_line_step:
  assumes run: "reverse_outbound_line now eid eno tr p orig src d = Inr (row, d')"
    and inv: "warehouse_inv d" and eid: "0 < eid"
    and new: "\<forall>x \<in> set (t_ledger d). \<not> (lg_ref x = eno \<and> lg_ref_line x = ol_ref_line src)"
  shows "warehouse_inv d' \<and> (t_events d' = t_events d \<and> t_completion d' = t_completion d) \<and>
    (\<exists>l x. posts d [x] d' \<and> t_outbound_lines d' = t_outbound_lines d @ [l] \<and> lg_ref x = eno \<and>
      lg_ref_line x = ol_ref_line src \<and> reversed_outbound orig eid eno src l x)"
proof -
  from run obtain n l d1 out where
    1: "0 < ol_qty_outbound src" "insert_outbound_line l d = Inr (n, d1)" and
    l: "ol_event_id l = eid" "ol_ref_line l = ol_ref_line src" "ol_item_id l = ol_item_id src"
      "ol_lot_id l = ol_lot_id src" "ol_qty_outbound l = ol_qty_outbound src"
      "ol_order_line_id l = ol_order_line_id src" and
    2: "adjust_lot now (reversal_request ''OUTBOUND_REVERSAL'' eid eno tr p orig
          (ol_item_id src) (ol_lot_id src) (ol_qty_outbound src) (ol_ref_line src)) d1 = Inr (out, d')"
    by (auto simp: reverse_outbound_line_def res_simps)
  note i = insert_outbound_line_Inr [OF 1(2)]
  have inv1: "warehouse_inv d1" by (rule insert_outbound_line_warehouse_inv [OF 1(2) inv])
  note rest = rest_ofD [OF adjust_lot_rest [OF 2]]
  have "\<forall>x \<in> set (t_ledger d1). \<not> (lg_ref x = eno \<and> lg_ref_line x = ol_ref_line src)"
    using new by (simp add: i(1))
  from reversal_adjust_step [OF 2 inv1 _ eid this] 1(1) obtain x where
    x: "posts d1 [x] d'" "lg_ref x = eno" "lg_ref_line x = ol_ref_line src" "lg_event_id x = Some eid"
      "lg_delta x = ol_qty_outbound src" "lg_reason x = ''ADJUSTMENT''"
      "ledger_slot x = (ev_warehouse_id orig, ol_item_id src, ol_lot_id src)" by auto
  have "posts d [x] d'"
    using posting.traced_app [OF insert_outbound_line_posts [OF 1(2)] x(1)] by simp
  moreover have "t_outbound_lines d' = t_outbound_lines d @ [l\<lparr>ol_id := n\<rparr>]"
    "t_events d' = t_events d" "t_completion d' = t_completion d"
    by (simp_all add: rest i(1))
  moreover have "reversed_outbound orig eid eno src (l\<lparr>ol_id := n\<rparr>) x"
    using l x by (simp add: reversed_outbound_def books_outbound_line_def)
  ultimately show ?thesis
    using adjust_lot_warehouse_inv [OF 2 inv1] x(2,3) by blast
qed

interpretation outbound_reversal: document_reversal "''OUTBOUND''" t_outbound_lines ol_event_id ol_ref_line
  reverse_outbound_line reversed_outbound
  "\<lambda>e l. (ev_warehouse_id e, ol_item_id l, ol_lot_id l)"
  ol_qty_outbound reverse_outbound_event "''outbound_event_already_reversed''"
proof (unfold_locales, goal_cases)
  case (1 now eid eno tr p orig src d row d')
  then show ?case by (rule reverse_outbound_line_step)
next
  case (2 orig eid eno src l x)
  then show ?case by (auto simp: reversed_outbound_def books_outbound_line_def)
next
  case (3 e d n d1)
  show ?case by (simp add: insert_event_Inr(2) [OF 3])
next
  case (4 et n d)
  then show ?case by (simp add: mark_superseded_def)
next
  case (5 d)
  then show ?case by (simp add: warehouse_inv_def events_inv_def)
next
  case (6 now eno tr u n p d out d')
  then obtain orig where o: "reversible_event ''OUTBOUND'' d n = Inr orig"
    by (auto simp: reverse_outbound_event_def res_simps get_outbound_event_for_reversal_def)
  then have "ev_id orig = n"
    by (auto simp: reversible_event_def split: option.splits if_splits dest!: find_SomeD)
  with 6 o show ?case
    by (auto simp: reverse_outbound_event_def res_simps get_outbound_event_for_reversal_def
        find_committed_outbound_reversal_def list_outbound_event_lines_for_reversal_def Let_def
        mark_outbound_event_superseded_def split: if_splits)
next
  case (7 d n e now eno tr u p)
  then show ?case by (simp add: reverse_outbound_event_def find_committed_outbound_reversal_def)
qed

lemma sum_list_if_neg:
  "(\<Sum>l \<leftarrow> ls. if f l = s then - g l else 0) = - (\<Sum>l \<leftarrow> ls. if f l = s then g l else (0 :: int))"
  by (induction ls) auto

text \<open>The lines of a receipt that was just committed are the ones the commit wrote.\<close>

lemma committed_lines_only:
  assumes "events_inv d" and "n = t_next_id d WMS_EVENTS"
  shows "filter (\<lambda>l. il_event_id l = n) (t_inbound_lines d) = []"
proof -
  have "il_event_id l \<in> ev_id ` set (t_events d)" if "l \<in> set (t_inbound_lines d)" for l
    using assms(1) that by (simp add: events_inv_def)
  moreover have "ev_id e < n" if "e \<in> set (t_events d)" for e
    using assms that by (simp add: events_inv_def)
  ultimately show ?thesis by (fastforce simp: filter_empty_conv)
qed

lemma commit_pairs_in:
  "list_all2 (\<lambda>row (l, x). commit_pair_ok its p eid eno row l x) rows prs \<Longrightarrow> (l, x) \<in> set prs \<Longrightarrow>
   \<exists>row. commit_pair_ok its p eid eno row l x"
  by (induction rule: list_all2_induct) auto

section \<open>Properties\<close>

definition sample_reversal :: reversal_in where
  "sample_reversal = \<lparr>ri_occurred_at = 6, ri_operator_name_snapshot = ''Li'', ri_remark = None\<rparr>"

lemma sample_reversal_runs:
  "\<exists>out d1 out2 d2. commit_inbound 9 ''IE-1'' ''T-1'' None sample_receipt sample_db = Inr (out, d1) \<and>
     co_event_id out = 1 \<and> warehouse_inv d1 \<and> (\<forall>x \<in> set (t_ledger d1). lg_ref x \<noteq> ''RV-1'') \<and>
     map (\<lambda>l. (il_event_id l, il_item_id l, il_lot_id l, il_qty_base l)) (t_inbound_lines d1) =
       [(1, 1, Some 1, 30), (1, 2, Some 2, 4)] \<and>
     map (\<lambda>e. (ev_id e, ev_warehouse_id e)) (t_events d1) = [(1, 7)] \<and>
     slot_qty d1 (7, 1, 1) = 30 \<and>
     reverse_inbound_event 10 ''RV-1'' ''T-2'' None 1 sample_reversal d1 = Inr (out2, d2)"
proof -
  have "returns (commit_inbound 9 ''IE-1'' ''T-1'' None sample_receipt sample_db)
    (\<lambda>(out, d1). co_event_id out = 1 \<and> list_all (\<lambda>x. lg_ref x \<noteq> ''RV-1'') (t_ledger d1) \<and>
      map (\<lambda>l. (il_event_id l, il_item_id l, il_lot_id l, il_qty_base l)) (t_inbound_lines d1) =
        [(1, 1, Some 1, 30), (1, 2, Some 2, 4)] \<and>
      map (\<lambda>e. (ev_id e, ev_warehouse_id e)) (t_events d1) = [(1, 7)] \<and>
      slot_qty d1 (7, 1, 1) = 30 \<and>
      returns (reverse_inbound_event 10 ''RV-1'' ''T-2'' None 1 sample_reversal d1) (\<lambda>_. True))"
    by code_simp
  then show ?thesis
    using commit_inbound_books [OF sample_db_inv sample_db_new_ref]
    by (fastforce simp: returns_pair list_all_iff)
qed

text \<open>
  Reversing a receipt undoes its movements: the balance of every slot falls by the base
  quantities of the lines of the reversed event on that slot, the whole warehouse stays
  consistent (so a reversal that would make a balance negative cannot succeed), and the event
  was a committed receipt of a warehouse that is not frozen.
\<close>

theorem reverse_inbound_quantities:
  assumes "warehouse_inv d" and "\<forall>x \<in> set (t_ledger d). lg_ref x \<noteq> event_no"
    and "reverse_inbound_event now event_no trace u n p d = Inr (out, d')"
  shows "\<exists>orig. get_inbound_event_for_reversal d n = Inr orig \<and> warehouse_inv d' \<and>
    ensure_warehouse_not_frozen d (ev_warehouse_id orig) = Inr () \<and>
    (\<forall>s. slot_qty d' s = slot_qty d s -
      (\<Sum>l \<leftarrow> filter (\<lambda>l. il_event_id l = n) (t_inbound_lines d).
         if (ev_warehouse_id orig, il_item_id l, case il_lot_id l of None \<Rightarrow> 0 | Some n \<Rightarrow> n) = s
         then il_qty_base l else 0))"
proof -
  from inbound_reversal.reverse_Inr [OF assms(3,1,2)] obtain orig where
    o: "reversible_event ''INBOUND'' d n = Inr orig" "warehouse_inv d'"
      "ensure_warehouse_not_frozen d (ev_warehouse_id orig) = Inr ()" by metis
  from inbound_reversal.reverse_quantities [OF assms(3,1,2)] o(1) have
    "slot_qty d' s = slot_qty d s - (\<Sum>l \<leftarrow> filter (\<lambda>l. il_event_id l = n) (t_inbound_lines d).
         if (ev_warehouse_id orig, il_item_id l, case il_lot_id l of None \<Rightarrow> 0 | Some n \<Rightarrow> n) = s
         then il_qty_base l else 0)" for s
    unfolding sum_list_if_neg by fastforce
  with o show ?thesis by (auto simp: get_inbound_event_for_reversal_def)
qed

lemma reverse_inbound_quantities_witness:
  "\<exists>out d1 out2 d2. commit_inbound 9 ''IE-1'' ''T-1'' None sample_receipt sample_db = Inr (out, d1) \<and>
     reverse_inbound_event 10 ''RV-1'' ''T-2'' None 1 sample_reversal d1 = Inr (out2, d2) \<and>
     warehouse_inv d2 \<and> slot_qty d1 (7, 1, 1) = 30 \<and> slot_qty d2 (7, 1, 1) = 0"
proof -
  from sample_reversal_runs obtain out d1 out2 d2 where
    r: "commit_inbound 9 ''IE-1'' ''T-1'' None sample_receipt sample_db = Inr (out, d1)"
      "co_event_id out = 1" "warehouse_inv d1" "\<forall>x \<in> set (t_ledger d1). lg_ref x \<noteq> ''RV-1''"
      "map (\<lambda>l. (il_event_id l, il_item_id l, il_lot_id l, il_qty_base l)) (t_inbound_lines d1) =
        [(1, 1, Some 1, 30), (1, 2, Some 2, 4)]"
      "map (\<lambda>e. (ev_id e, ev_warehouse_id e)) (t_events d1) = [(1, 7)]"
      "slot_qty d1 (7, 1, 1) = 30"
      "reverse_inbound_event 10 ''RV-1'' ''T-2'' None 1 sample_reversal d1 = Inr (out2, d2)"
    by (elim exE conjE)
  from reverse_inbound_quantities [OF r(3,4,8)] obtain orig where
    o: "get_inbound_event_for_reversal d1 1 = Inr orig" "warehouse_inv d2"
      "slot_qty d2 (7, 1, 1) = slot_qty d1 (7, 1, 1) -
        (\<Sum>l \<leftarrow> filter (\<lambda>l. il_event_id l = 1) (t_inbound_lines d1).
         if (ev_warehouse_id orig, il_item_id l, case il_lot_id l of None \<Rightarrow> 0 | Some n \<Rightarrow> n) = (7, 1, 1)
         then il_qty_base l else 0)" by blast
  have "ev_warehouse_id orig = 7"
    using o(1) r(6) by (auto simp: get_inbound_event_for_reversal_def reversible_event_def map_eq_Cons_conv
        split: if_splits)
  with o r(5,7) have "slot_qty d2 (7, 1, 1) = 0" by (auto simp: map_eq_Cons_conv)
  with r o show ?thesis by blast
qed

text \<open>
  C14. Receiving and taking back is a round trip on the stock: committing a receipt and then
  reversing its event leaves every balance of the warehouse as it was before, and adds exactly
  two ledger rows per line.
\<close>

theorem commit_then_reverse:
  assumes "warehouse_inv d" and "\<forall>x \<in> set (t_ledger d). lg_ref x \<noteq> event_no"
    and "commit_inbound now event_no trace u p d = Inr (out, d1)"
    and "\<forall>x \<in> set (t_ledger d1). lg_ref x \<noteq> rev_no"
    and "reverse_inbound_event now2 rev_no trace2 u2 (co_event_id out) q d1 = Inr (out2, d2)"
  shows "slot_qty d2 s = slot_qty d s \<and>
    length (t_ledger d2) = length (t_ledger d) + 2 * length (ci_lines p)"
proof -
  from commit_inbound_Inr [OF assms(3,1,2)] obtain e1 e2 prs where
    c: "lots_grow d e1" "warehouse_inv e1"
      "insert_event (commit_event now u event_no trace p) e1 = Inr (co_event_id out, e2)"
      "warehouse_inv d1" "posts e1 (map snd prs) d1" "t_inbound_lines d1 = t_inbound_lines d @ map fst prs"
      "t_events d1 = t_events d @ [(commit_event now u event_no trace p)\<lparr>ev_id := co_event_id out\<rparr>]"
      "list_all2 (\<lambda>row (l, x). commit_pair_ok (t_items d) p (co_event_id out) event_no row l x) (co_rows out) prs"
      "length prs = length (ci_lines p)" by metis
  let ?n = "co_event_id out"
  have n: "?n = t_next_id e1 WMS_EVENTS" using insert_event_Inr(1) [OF c(3)] .
  have "filter (\<lambda>l. il_event_id l = ?n) (t_inbound_lines d) = []"
    using committed_lines_only [OF warehouse_invD(3) [OF c(2)] n] lots_grow_frame(7) [OF c(1)] by simp
  moreover have "filter (\<lambda>l. il_event_id l = ?n) (map fst prs) = map fst prs"
    by (auto simp: filter_id_conv commit_pair_ok_def dest!: commit_pairs_in [OF c(8)])
  ultimately have lines: "filter (\<lambda>l. il_event_id l = ?n) (t_inbound_lines d1) = map fst prs"
    by (simp add: c(6))
  from inbound_reversal.reverse_Inr [OF assms(5) c(4) assms(4)] obtain orig rprs where
    r: "reversible_event ''INBOUND'' d1 ?n = Inr orig" "posts d1 (map snd rprs) d2"
      "list_all2 (\<lambda>src (l, x). reversed_inbound orig (ro_event_id out2) rev_no src l x)
       (sort_key il_line_no (filter (\<lambda>l. il_event_id l = ?n) (t_inbound_lines d1))) rprs" by metis
  have len: "length rprs = length prs" using list_all2_lengthD [OF r(3)] lines by simp
  have w: "ev_warehouse_id orig = ci_warehouse_id p"
  proof -
    have "ev_id x \<noteq> ?n" if "x \<in> set (t_events d)" for x
      using that warehouse_invD(3) [OF c(2)] n lots_grow_frame(6) [OF c(1)] by (auto simp: events_inv_def)
    then have "find (\<lambda>e. ev_id e = ?n \<and> ev_event_type e = ''INBOUND'') (t_events d) = None"
      by (auto simp: find_None_iff_all)
    then have "orig = (commit_event now u event_no trace p)\<lparr>ev_id := ?n\<rparr>"
      using r(1) by (simp add: reversible_event_def c(7) find_append commit_event_def split: if_splits)
    then show ?thesis by (simp add: commit_event_def)
  qed
  from inbound_reversal.reverse_quantities [OF assms(5) c(4) assms(4), of s] r(1) have
    bk: "slot_qty d2 s = slot_qty d1 s + (\<Sum>l \<leftarrow> map fst prs. if (ci_warehouse_id p, il_item_id l,
        case il_lot_id l of None \<Rightarrow> 0 | Some n \<Rightarrow> n) = s then - il_qty_base l else 0)"
    by (auto simp: lines w)
  have "slot_qty d1 s = slot_qty e1 s + ledger_sum (map snd prs) s"
    by (rule posts_qty [OF c(5) warehouse_invD(2) [OF c(2)]])
  also have "ledger_sum (map snd prs) s = (\<Sum>l \<leftarrow> map fst prs. if (ci_warehouse_id p, il_item_id l,
        case il_lot_id l of None \<Rightarrow> 0 | Some n \<Rightarrow> n) = s then il_qty_base l else 0)"
    using c(8) by (induction rule: list_all2_induct)
      (auto simp: commit_pair_ok_def books_inbound_line_def split: option.splits)
  finally have qty1: "slot_qty d1 s = slot_qty e1 s + (\<Sum>l \<leftarrow> map fst prs. if (ci_warehouse_id p, il_item_id l,
        case il_lot_id l of None \<Rightarrow> 0 | Some n \<Rightarrow> n) = s then il_qty_base l else 0)" .
  have "slot_qty d2 s = slot_qty e1 s"
    unfolding bk sum_list_if_neg qty1 by simp
  moreover have "slot_qty e1 s = slot_qty d s"
    using lots_grow_frame(4) [OF c(1)] by (simp add: slot_qty_def slot_row_def)
  moreover have "t_ledger d2 = t_ledger d @ map snd prs @ map snd rprs"
    using posts_ledger [OF c(5) warehouse_invD(2) [OF c(2)]] lots_grow_frame(5) [OF c(1)]
      posts_ledger [OF r(2) warehouse_invD(2) [OF c(4)]] by simp
  ultimately show ?thesis using len c(9) by simp
qed

lemma commit_then_reverse_witness:
  "\<exists>out d1 out2 d2. commit_inbound 9 ''IE-1'' ''T-1'' None sample_receipt sample_db = Inr (out, d1) \<and>
     reverse_inbound_event 10 ''RV-1'' ''T-2'' None 1 sample_reversal d1 = Inr (out2, d2) \<and>
     (\<forall>s. slot_qty d2 s = slot_qty sample_db s) \<and> length (t_ledger d2) = 4"
proof -
  from sample_reversal_runs obtain out d1 out2 d2 where
    r: "commit_inbound 9 ''IE-1'' ''T-1'' None sample_receipt sample_db = Inr (out, d1)"
      "co_event_id out = 1" "warehouse_inv d1" "\<forall>x \<in> set (t_ledger d1). lg_ref x \<noteq> ''RV-1''"
      "map (\<lambda>l. (il_event_id l, il_item_id l, il_lot_id l, il_qty_base l)) (t_inbound_lines d1) =
        [(1, 1, Some 1, 30), (1, 2, Some 2, 4)]"
      "map (\<lambda>e. (ev_id e, ev_warehouse_id e)) (t_events d1) = [(1, 7)]"
      "slot_qty d1 (7, 1, 1) = 30"
      "reverse_inbound_event 10 ''RV-1'' ''T-2'' None 1 sample_reversal d1 = Inr (out2, d2)"
    by (elim exE conjE)
  have "reverse_inbound_event 10 ''RV-1'' ''T-2'' None (co_event_id out) sample_reversal d1 = Inr (out2, d2)"
    using r(2,8) by simp
  from commit_then_reverse [OF sample_db_inv sample_db_new_ref r(1,4) this]
  have "slot_qty d2 s = slot_qty sample_db s \<and> length (t_ledger d2) = 4" for s
    by (simp add: sample_receipt_def sample_db_def)
  with r show ?thesis by blast
qed

text \<open>
  C15. A receipt can be taken back once: after a successful reversal the same event is refused as
  already reversed, whoever asks and with whatever payload, and the event is superseded.
\<close>

theorem reverse_inbound_once:
  assumes "warehouse_inv d" and "\<forall>x \<in> set (t_ledger d). lg_ref x \<noteq> event_no"
    and "reverse_inbound_event now event_no trace u n p d = Inr (out, d')"
  shows "reverse_inbound_event now2 event_no2 trace2 u2 n p2 d' =
      Inl (HTTPException 409 ''inbound_event_already_reversed'') \<and>
    (\<exists>e. get_inbound_event_for_reversal d' n = Inl e)"
  using inbound_reversal.reverse_once [OF assms(3,1,2)]
  by (auto simp: get_inbound_event_for_reversal_def)

lemma reverse_inbound_once_witness:
  "\<exists>out d1 out2 d2. commit_inbound 9 ''IE-1'' ''T-1'' None sample_receipt sample_db = Inr (out, d1) \<and>
     reverse_inbound_event 10 ''RV-1'' ''T-2'' None 1 sample_reversal d1 = Inr (out2, d2) \<and>
     reverse_inbound_event 11 ''RV-2'' ''T-3'' None 1 sample_reversal d2 =
       Inl (HTTPException 409 ''inbound_event_already_reversed'')"
proof -
  from sample_reversal_runs obtain out d1 out2 d2 where
    r: "commit_inbound 9 ''IE-1'' ''T-1'' None sample_receipt sample_db = Inr (out, d1)"
      "co_event_id out = 1" "warehouse_inv d1" "\<forall>x \<in> set (t_ledger d1). lg_ref x \<noteq> ''RV-1''"
      "map (\<lambda>l. (il_event_id l, il_item_id l, il_lot_id l, il_qty_base l)) (t_inbound_lines d1) =
        [(1, 1, Some 1, 30), (1, 2, Some 2, 4)]"
      "map (\<lambda>e. (ev_id e, ev_warehouse_id e)) (t_events d1) = [(1, 7)]"
      "slot_qty d1 (7, 1, 1) = 30"
      "reverse_inbound_event 10 ''RV-1'' ''T-2'' None 1 sample_reversal d1 = Inr (out2, d2)"
    by (elim exE conjE)
  from reverse_inbound_once [OF r(3,4,8), of 11 "''RV-2''" "''T-3''" None sample_reversal] r
  show ?thesis by blast
qed

text \<open>
  C16. Reversing a shipment puts back exactly what its lines took, keeps the warehouse consistent,
  and can be done once only.
\<close>

theorem reverse_outbound_sound:
  assumes "warehouse_inv d" and "\<forall>x \<in> set (t_ledger d). lg_ref x \<noteq> event_no"
    and "reverse_outbound_event now event_no trace u n p d = Inr (out, d')"
  shows "\<exists>orig. get_outbound_event_for_reversal d n = Inr orig \<and> warehouse_inv d' \<and>
    (\<forall>s. slot_qty d' s = slot_qty d s +
      (\<Sum>l \<leftarrow> filter (\<lambda>l. ol_event_id l = n) (t_outbound_lines d).
         if (ev_warehouse_id orig, ol_item_id l, ol_lot_id l) = s then ol_qty_outbound l else 0)) \<and>
    reverse_outbound_event now2 event_no2 trace2 u2 n p2 d' =
      Inl (HTTPException 409 ''outbound_event_already_reversed'')"
proof -
  from outbound_reversal.reverse_Inr [OF assms(3,1,2)] obtain orig where
    o: "reversible_event ''OUTBOUND'' d n = Inr orig" "warehouse_inv d'" by metis
  from outbound_reversal.reverse_quantities [OF assms(3,1,2)] o(1) have
    "slot_qty d' s = slot_qty d s + (\<Sum>l \<leftarrow> filter (\<lambda>l. ol_event_id l = n) (t_outbound_lines d).
         if (ev_warehouse_id orig, ol_item_id l, ol_lot_id l) = s then ol_qty_outbound l else 0)" for s
    by fastforce
  with o outbound_reversal.reverse_once(1) [OF assms(3,1,2)] show ?thesis
    by (auto simp: get_outbound_event_for_reversal_def)
qed

lemma reverse_outbound_sound_witness:
  "\<exists>out d1 out2 d2. submit_order_outbound_event 9 1 7 None ''T-1'' sample_order_submit None ship_db = Inr (out, d1) \<and>
     reverse_outbound_event 10 ''RV-1'' ''T-2'' None 3 sample_reversal d1 = Inr (out2, d2) \<and>
     warehouse_inv d2 \<and> slot_qty d1 (7, 2, 2) = 4 \<and> slot_qty d2 (7, 2, 2) = 8"
proof -
  have "returns (submit_order_outbound_event 9 1 7 None ''T-1'' sample_order_submit None ship_db)
    (\<lambda>(_, d1). list_all (\<lambda>x. lg_ref x \<noteq> ''RV-1'') (t_ledger d1) \<and> slot_qty d1 (7, 2, 2) = 4 \<and>
      map (\<lambda>l. (ol_event_id l, ol_item_id l, ol_lot_id l, ol_qty_outbound l)) (t_outbound_lines d1) =
        [(3, 2, 2, 4), (3, 1, 1, 12)] \<and>
      map (\<lambda>e. (ev_id e, ev_warehouse_id e)) (t_events d1) = [(3, 7)] \<and>
      returns (reverse_outbound_event 10 ''RV-1'' ''T-2'' None 3 sample_reversal d1) (\<lambda>_. True))"
    by code_simp
  then obtain out d1 out2 d2 where
    r: "submit_order_outbound_event 9 1 7 None ''T-1'' sample_order_submit None ship_db = Inr (out, d1)"
      "\<forall>x \<in> set (t_ledger d1). lg_ref x \<noteq> ''RV-1''" "slot_qty d1 (7, 2, 2) = 4"
      "map (\<lambda>l. (ol_event_id l, ol_item_id l, ol_lot_id l, ol_qty_outbound l)) (t_outbound_lines d1) =
        [(3, 2, 2, 4), (3, 1, 1, 12)]"
      "map (\<lambda>e. (ev_id e, ev_warehouse_id e)) (t_events d1) = [(3, 7)]"
      "reverse_outbound_event 10 ''RV-1'' ''T-2'' None 3 sample_reversal d1 = Inr (out2, d2)"
    unfolding returns_pair list_all_iff prod.case by (elim exE conjE)
  have inv: "warehouse_inv d1" using submit_order_books [OF ship_db_inv r(1), of undefined 0] by simp
  from reverse_outbound_sound [OF inv r(2,6)] obtain orig where
    o: "get_outbound_event_for_reversal d1 3 = Inr orig" "warehouse_inv d2"
      "slot_qty d2 (7, 2, 2) = slot_qty d1 (7, 2, 2) +
        (\<Sum>l \<leftarrow> filter (\<lambda>l. ol_event_id l = 3) (t_outbound_lines d1).
         if (ev_warehouse_id orig, ol_item_id l, ol_lot_id l) = (7, 2, 2) then ol_qty_outbound l else 0)"
    by blast
  have "ev_warehouse_id orig = 7"
    using o(1) r(5) by (auto simp: get_outbound_event_for_reversal_def reversible_event_def map_eq_Cons_conv
        split: if_splits)
  with o r(3,4) have "slot_qty d2 (7, 2, 2) = 8" by (auto simp: map_eq_Cons_conv)
  with r o show ?thesis by blast
qed

text \<open>
  Taking a shipment back does not give its quantity back to the order: the lines of the
  reversal event repeat the order lines of the original, and the progress query adds the lines of
  every event, so a reversed shipment counts twice against the order.
\<close>

theorem reversed_shipment_counts_twice:
  "returns (submit_order_outbound_event 9 1 7 None ''T-1'' sample_order_submit None ship_db)
    (\<lambda>(_, d1). load_order_submit_progress d1 1 = [(1, 5, 4), (2, 20, 12)] \<and>
       returns (reverse_outbound_event 10 ''RV-1'' ''T-2'' None 3 sample_reversal d1)
         (\<lambda>(_, d2). load_order_submit_progress d2 1 = [(1, 5, 8), (2, 20, 24)] \<and>
            slot_qty d2 (7, 2, 2) = slot_qty ship_db (7, 2, 2)))"
  by code_simp

text \<open>
  Reversing a receipt leaves the completion of its purchase order lines as it is, although
  the goods are gone: no reversal ever changes a received quantity.
\<close>

theorem reversal_keeps_completion:
  assumes "warehouse_inv d" and "\<forall>x \<in> set (t_ledger d). lg_ref x \<noteq> event_no"
    and "reverse_inbound_event now event_no trace u n p d = Inr (out, d')"
  shows "t_completion d' = t_completion d"
  using inbound_reversal.reverse_Inr [OF assms(3,1,2)] by metis

lemma reversal_keeps_completion_witness:
  "\<exists>out d1 out2 d2. commit_inbound 9 ''IE-1'' ''T-1'' None sample_receipt sample_db = Inr (out, d1) \<and>
     reverse_inbound_event 10 ''RV-1'' ''T-2'' None 1 sample_reversal d1 = Inr (out2, d2) \<and>
     t_completion d2 = t_completion d1"
proof -
  from sample_reversal_runs obtain out d1 out2 d2 where
    r: "commit_inbound 9 ''IE-1'' ''T-1'' None sample_receipt sample_db = Inr (out, d1)"
      "warehouse_inv d1" "\<forall>x \<in> set (t_ledger d1). lg_ref x \<noteq> ''RV-1''"
      "reverse_inbound_event 10 ''RV-1'' ''T-2'' None 1 sample_reversal d1 = Inr (out2, d2)"
    by (elim exE conjE)
  from reversal_keeps_completion [OF r(2,3,4)] r show ?thesis by blast
qed

end
