(* ===== verification/ManualDocs.thy ===== *)
theory ManualDocs
  imports Outbound
begin

text \<open>
  The life of a manual outbound document, as a state machine over the operations of
  \<open>manual_doc_repo.py\<close> and \<open>submit_manual_outbound_event\<close>: drafts are released, released
  documents are shipped and complete themselves, drafts and released documents can be voided,
  completed and voided ones are final.
\<close>

section \<open>Steps\<close>

inductive manual_step :: "db \<Rightarrow> db \<Rightarrow> bool" where
  create: "create_manual_doc now doc_no u p d = Inr (n, d') \<Longrightarrow> manual_step d d'"
| release: "release_manual_doc now n u d = Inr d' \<Longrightarrow> manual_step d d'"
| void: "void_manual_doc now n u d = Inr d' \<Longrightarrow> manual_step d d'"
| submit: "submit_manual_outbound now n u tr p d = Inr (out, d') \<Longrightarrow> manual_step d d'"

definition manual_moves :: "(string \<times> string) list" where
  "manual_moves = [(''DRAFT'', ''RELEASED''), (''DRAFT'', ''VOIDED''), (''RELEASED'', ''VOIDED''),
     (''RELEASED'', ''COMPLETED'')]"

definition manual_statuses :: "string list" where
  "manual_statuses = [''DRAFT'', ''RELEASED'', ''COMPLETED'', ''VOIDED'']"

definition doc_lines_of :: "db \<Rightarrow> int \<Rightarrow> manual_line list" where
  "doc_lines_of d n = filter (\<lambda>l. ml_doc_id l = n) (t_manual_lines d)"

definition numbers_reached :: "db \<Rightarrow> int \<Rightarrow> bool" where
  "numbers_reached d n \<longleftrightarrow> doc_lines_of d n \<noteq> [] \<and>
     (\<forall>l \<in> set (doc_lines_of d n). ml_requested_qty l \<le> manual_submitted d (ml_id l))"

text \<open>
  Documents have distinct ids below the sequence, lines belong to older documents, released ones
  have lines, and a completed document has shipped everything it asked for.
\<close>

definition manual_inv :: "db \<Rightarrow> bool" where
  "manual_inv d \<longleftrightarrow> distinct (map md_id (t_manual_docs d)) \<and>
     (\<forall>m \<in> set (t_manual_docs d). md_id m < t_next_id d MANUAL_OUTBOUND_DOCS \<and>
        md_status m \<in> set manual_statuses \<and>
        (md_status m = ''RELEASED'' \<longrightarrow> doc_lines_of d (md_id m) \<noteq> []) \<and>
        (md_status m = ''COMPLETED'' \<longrightarrow> numbers_reached d (md_id m))) \<and>
     (\<forall>l \<in> set (t_manual_lines d). ml_doc_id l < t_next_id d MANUAL_OUTBOUND_DOCS)"

section \<open>What the repository operations do\<close>

text \<open>What a status update changes: one document, along one edge.\<close>

lemma set_manual_doc_Inr:
  assumes "set_manual_doc err from upd n d = Inr d'"
  obtains m where "m \<in> set (t_manual_docs d)" "md_id m = n" "from m"
    "d' = d\<lparr>t_manual_docs := update_where (\<lambda>m. md_id m = n \<and> from m) upd (t_manual_docs d)\<rparr>"
proof -
  from assms have one: "length (filter (\<lambda>m. md_id m = n \<and> from m) (t_manual_docs d)) = 1"
    and d': "d' = d\<lparr>t_manual_docs := update_where (\<lambda>m. md_id m = n \<and> from m) upd (t_manual_docs d)\<rparr>"
    by (auto simp: set_manual_doc_def Let_def split: if_splits)
  from one have "filter (\<lambda>m. md_id m = n \<and> from m) (t_manual_docs d) \<noteq> []" by auto
  with d' that show thesis by (auto simp: filter_empty_conv)
qed

text \<open>The status of a document may stay or take an edge of the machine.\<close>

definition moves_ok :: "db \<Rightarrow> db \<Rightarrow> bool" where
  "moves_ok d d' \<longleftrightarrow> (\<forall>m \<in> set (t_manual_docs d). \<exists>m' \<in> set (t_manual_docs d'). md_id m' = md_id m \<and>
     (md_status m, md_status m') \<in> set manual_moves \<union> Id)"

lemma moves_ok_same: "t_manual_docs d' = t_manual_docs d \<Longrightarrow> moves_ok d d'"
  by (auto simp: moves_ok_def)

lemma moves_ok_update:
  assumes "d' = d\<lparr>t_manual_docs := update_where hit upd (t_manual_docs d)\<rparr>"
    and "\<And>m. hit m \<Longrightarrow> md_id (upd m) = md_id m \<and> (md_status m, md_status (upd m)) \<in> set manual_moves"
  shows "moves_ok d d'"
  unfolding moves_ok_def
proof
  fix m assume m: "m \<in> set (t_manual_docs d)"
  have "(if hit m then upd m else m) \<in> set (t_manual_docs d')"
    using m by (auto simp: assms(1) in_set_update_where)
  with assms(2) [of m] show "\<exists>m' \<in> set (t_manual_docs d'). md_id m' = md_id m \<and>
     (md_status m, md_status m') \<in> set manual_moves \<union> Id"
    by (intro bexI) (auto split: if_splits)
qed

text \<open>A status update that keeps ids keeps the invariant when the new status is earned.\<close>

lemma manual_inv_update:
  assumes "manual_inv d"
    and "d' = d\<lparr>t_manual_docs := update_where (\<lambda>m. md_id m = n \<and> from m) upd (t_manual_docs d)\<rparr>"
    and "\<And>m. md_id (upd m) = md_id m" and "\<And>m. md_status (upd m) = st" and "st \<in> set manual_statuses"
    and "st = ''RELEASED'' \<Longrightarrow> doc_lines_of d n \<noteq> []" and "st = ''COMPLETED'' \<Longrightarrow> numbers_reached d n"
  shows "manual_inv d'"
proof -
  have ids: "map md_id (t_manual_docs d') = map md_id (t_manual_docs d)"
    unfolding assms(2) using map_update_where [of _ md_id upd] assms(3) by simp
  have same: "doc_lines_of d' = doc_lines_of d" "numbers_reached d' = numbers_reached d"
    "t_manual_lines d' = t_manual_lines d" "t_next_id d' = t_next_id d"
    by (auto simp: assms(2) doc_lines_of_def numbers_reached_def manual_submitted_def fun_eq_iff)
  have "md_id m < t_next_id d MANUAL_OUTBOUND_DOCS \<and> md_status m \<in> set manual_statuses \<and>
        (md_status m = ''RELEASED'' \<longrightarrow> doc_lines_of d (md_id m) \<noteq> []) \<and>
        (md_status m = ''COMPLETED'' \<longrightarrow> numbers_reached d (md_id m))" if "m \<in> set (t_manual_docs d')" for m
  proof -
    from that obtain m0 where m0: "m0 \<in> set (t_manual_docs d)"
      "m = (if md_id m0 = n \<and> from m0 then upd m0 else m0)"
      by (auto simp: assms(2) in_set_update_where)
    then show ?thesis
      using assms(1,5-7) assms(3,4) [of m0] by (cases "md_id m0 = n \<and> from m0") (auto simp: manual_inv_def)
  qed
  with assms(1) ids same show ?thesis by (simp add: manual_inv_def)
qed

lemma status_update_warehouse_inv:
  "warehouse_inv d \<Longrightarrow> warehouse_inv (d\<lparr>t_manual_docs := ms\<rparr>)"
  by (subst warehouse_inv_cong [where d = d]) simp_all

lemma release_manual_doc_step:
  assumes "release_manual_doc now n u d = Inr d'" and "warehouse_inv d" and "manual_inv d"
  shows "warehouse_inv d' \<and> manual_inv d' \<and> moves_ok d d'"
proof -
  from assms(1) have ne: "doc_lines_of d n \<noteq> []" and
    run: "set_manual_doc ''manual_doc_release_reject'' (\<lambda>m. md_status m = ''DRAFT'')
        (\<lambda>m. m\<lparr>md_status := ''RELEASED'', md_released_by := u, md_released_at := Some now\<rparr>) n d = Inr d'"
    by (auto simp: release_manual_doc_def doc_lines_of_def split: if_splits)
  from run obtain m where "m \<in> set (t_manual_docs d)" "md_id m = n" "md_status m = ''DRAFT''" and d': "d' = d\<lparr>t_manual_docs :=
      update_where (\<lambda>m. md_id m = n \<and> md_status m = ''DRAFT'')
        (\<lambda>m. m\<lparr>md_status := ''RELEASED'', md_released_by := u, md_released_at := Some now\<rparr>) (t_manual_docs d)\<rparr>"
    by (rule set_manual_doc_Inr)
  show ?thesis
    using manual_inv_update [OF assms(3) d', of "''RELEASED''"] ne status_update_warehouse_inv [OF assms(2)]
      moves_ok_update [OF d'] by (auto simp: d' manual_statuses_def manual_moves_def)
qed

lemma void_manual_doc_step:
  assumes "void_manual_doc now n u d = Inr d'" and "warehouse_inv d" and "manual_inv d"
  shows "warehouse_inv d' \<and> manual_inv d' \<and> moves_ok d d'"
proof -
  from assms(1) obtain m where "m \<in> set (t_manual_docs d)" "md_id m = n" "md_status m \<in> {''DRAFT'', ''RELEASED''}" and d': "d' = d\<lparr>t_manual_docs :=
      update_where (\<lambda>m. md_id m = n \<and> md_status m \<in> {''DRAFT'', ''RELEASED''})
        (\<lambda>m. m\<lparr>md_status := ''VOIDED'', md_voided_by := u, md_voided_at := Some now\<rparr>) (t_manual_docs d)\<rparr>"
    unfolding void_manual_doc_def by (rule set_manual_doc_Inr)
  show ?thesis
    using manual_inv_update [OF assms(3) d', of "''VOIDED''"] status_update_warehouse_inv [OF assms(2)]
      moves_ok_update [OF d'] by (auto simp: d' manual_statuses_def manual_moves_def)
qed

text \<open>A new document and its lines.\<close>

lemma insert_manual_line_Inr:
  assumes "insert_manual_line n nl d = Inr d'"
  shows "\<exists>l. t_manual_lines d' = t_manual_lines d @ [l] \<and> ml_doc_id l = n"
    and "d' = d\<lparr>t_next_id := (t_next_id d)(MANUAL_OUTBOUND_LINES := t_next_id d MANUAL_OUTBOUND_LINES + 1),
      t_manual_lines := t_manual_lines d'\<rparr>"
  using assms by (auto simp: insert_manual_line_def next_id_def Let_def split: prod.splits if_splits)

definition lines_added :: "int \<Rightarrow> db \<Rightarrow> db \<Rightarrow> bool" where
  "lines_added n d d' \<longleftrightarrow> (\<exists>ls. t_manual_lines d' = t_manual_lines d @ ls \<and> (\<forall>l \<in> set ls. ml_doc_id l = n)) \<and>
     t_manual_docs d' = t_manual_docs d \<and> t_outbound_lines d' = t_outbound_lines d \<and>
     (warehouse_inv d \<longrightarrow> warehouse_inv d') \<and>
     (\<forall>t. t \<noteq> MANUAL_OUTBOUND_LINES \<longrightarrow> t_next_id d' t = t_next_id d t)"

interpretation manual_lines: evolution "lines_added n"
proof
  show "lines_added n d d" for d by (auto simp: lines_added_def)
  show "lines_added n d e" if "lines_added n d c" "lines_added n c e" for d c e
    using that by (fastforce simp: lines_added_def)
qed

lemma insert_manual_line_added:
  assumes "insert_manual_line n nl d = Inr d'" shows "lines_added n d d'"
proof -
  note i = insert_manual_line_Inr [OF assms]
  have "t_manual_docs d' = t_manual_docs d" "t_outbound_lines d' = t_outbound_lines d"
    "t \<noteq> MANUAL_OUTBOUND_LINES \<Longrightarrow> t_next_id d' t = t_next_id d t" for t
    by (subst i(2), simp)+
  moreover have "warehouse_inv d' = warehouse_inv d" by (rule warehouse_inv_cong; subst i(2); simp)
  ultimately show ?thesis using i(1) by (auto simp: lines_added_def)
qed

lemma create_manual_doc_step:
  assumes "create_manual_doc now doc_no u p d = Inr (n, d')" and "warehouse_inv d" and "manual_inv d"
  shows "warehouse_inv d' \<and> manual_inv d' \<and> moves_ok d d'"
proof -
  define m where "m = \<lparr>md_id = n, md_warehouse_id = mdi_warehouse_id p, md_doc_no = doc_no,
      md_doc_type = py_strip (mdi_doc_type p), md_status = ''DRAFT'',
      md_recipient_name = py_strip (mdi_recipient_name p), md_remark = strip_if_truthy (mdi_remark p),
      md_created_by = u, md_created_at = now, md_released_by = None, md_released_at = None,
      md_voided_by = None, md_voided_at = None\<rparr>"
  define d2 where
    "d2 = d\<lparr>t_next_id := (t_next_id d)(MANUAL_OUTBOUND_DOCS := n + 1), t_manual_docs := t_manual_docs d @ [m]\<rparr>"
  have n: "n = t_next_id d MANUAL_OUTBOUND_DOCS" and
    run: "foldE (insert_manual_line n) (zip (map int [1 ..< length (mdi_lines p) + 1]) (mdi_lines p)) d2 = Inr d'"
    using assms(1) unfolding d2_def m_def
    by (auto simp: create_manual_doc_def next_id_def Let_def res_simps simp del: upt_Suc split: if_splits)
  note m = n m_def
  note d2 = d2_def
  have "lines_added n d2 d'" by (rule manual_lines.evo_foldE [OF insert_manual_line_added run])
  then obtain ls where l: "t_manual_lines d' = t_manual_lines d2 @ ls" "\<forall>l \<in> set ls. ml_doc_id l = n"
    "t_manual_docs d' = t_manual_docs d2" "t_outbound_lines d' = t_outbound_lines d2"
    "warehouse_inv d2 \<longrightarrow> warehouse_inv d'"
    "t_next_id d' MANUAL_OUTBOUND_DOCS = t_next_id d2 MANUAL_OUTBOUND_DOCS"
    by (auto simp: lines_added_def)
  have "warehouse_inv d2 = warehouse_inv d" by (rule warehouse_inv_cong) (simp_all add: d2)
  moreover have "doc_lines_of d' k = doc_lines_of d k \<and> numbers_reached d' k = numbers_reached d k"
    if "k < n" for k
  proof -
    have "doc_lines_of d' k = doc_lines_of d k"
      using l(1,2) that by (auto simp: doc_lines_of_def d2 filter_empty_conv)
    then show ?thesis by (simp add: numbers_reached_def manual_submitted_def l(4) d2)
  qed
  note old = this
  have docs: "t_manual_docs d' = t_manual_docs d @ [m]"
    and nxt: "t_next_id d' MANUAL_OUTBOUND_DOCS = n + 1" using l(3,6) by (simp_all add: d2)
  have "manual_inv d'"
    unfolding manual_inv_def docs nxt
  proof (intro conjI ballI)
    show "distinct (map md_id (t_manual_docs d @ [m]))"
      using assms(3) m by (auto simp: manual_inv_def)
  next
    fix x assume x: "x \<in> set (t_manual_docs d @ [m])"
    then consider "x = m" | "x \<in> set (t_manual_docs d)" "md_id x < n"
      using assms(3) m(1) by (auto simp: manual_inv_def)
    then show "md_id x < n + 1" "md_status x \<in> set manual_statuses"
      "md_status x = ''RELEASED'' \<longrightarrow> doc_lines_of d' (md_id x) \<noteq> []"
      "md_status x = ''COMPLETED'' \<longrightarrow> numbers_reached d' (md_id x)"
      by (cases; use assms(3) m old in \<open>auto simp: manual_inv_def manual_statuses_def\<close>)+
  next
    fix x assume "x \<in> set (t_manual_lines d')"
    then show "ml_doc_id x < n + 1" using assms(3) l(1,2) m(1) by (fastforce simp: d2 manual_inv_def)
  qed
  moreover have "moves_ok d d'" by (auto simp: moves_ok_def docs)
  ultimately show ?thesis using assms(2) l(5) by simp
qed

text \<open>A shipment only adds to the quantities a document has shipped.\<close>

lemma numbers_reached_mono:
  assumes "t_manual_lines d' = t_manual_lines d" and "\<And>n. manual_submitted d n \<le> manual_submitted d' n"
  shows "numbers_reached d n \<Longrightarrow> numbers_reached d' n"
  using assms by (fastforce simp: numbers_reached_def doc_lines_of_def intro: order_trans)

lemma sort_key_eq_Nil [simp]: "sort_key k xs = [] \<longleftrightarrow> xs = []"
  by (metis length_0_conv length_sort)

lemma progress_reached_numbers:
  assumes "list_manual_doc_progress d n \<noteq> []"
    and "list_all (\<lambda>(_, requested, submitted). requested \<le> submitted) (list_manual_doc_progress d n)"
  shows "numbers_reached d n"
  using assms
  by (auto simp: list_manual_doc_progress_def numbers_reached_def doc_lines_of_def manual_submitted_def
      list_all_iff filter_empty_conv)

lemma submit_manual_step:
  assumes "submit_manual_outbound now n u tr p d = Inr (out, d')" and "warehouse_inv d" and "manual_inv d"
  shows "warehouse_inv d' \<and> manual_inv d' \<and> moves_ok d d'"
proof -
  obtain ctx ns d1 where c: "load_manual_submit_context d n = Inr ctx"
    "list_all2 (norm_of False) (number_submit_lines (ms_lines p)) ns"
    "write_event_and_ledger now (mc_warehouse_id ctx) ''MANUAL'' (mc_source_ref ctx) u tr None
       (ms_remark p) ns d = Inr (out, d1)"
    "if list_manual_doc_progress d1 n \<noteq> [] \<and>
        list_all (\<lambda>(_, requested, submitted). requested \<le> submitted) (list_manual_doc_progress d1 n)
     then complete_manual_doc n d1 = Inr d' else d' = d1"
    by (rule submit_manual_Inr [OF assms(1) [unfolded submit_manual_outbound_def]])
  note sub = submission_Inr [OF c(3) assms(2) c(2)]
  have s: "warehouse_inv d1" "ship_rest d1 = ship_rest d" "\<forall>l \<in> set (ms_lines p). 0 < so_qty_outbound l"
    using sub [of undefined 0] by blast+
  note rest = ship_restD(7,8) [OF s(2)]
  have pos: "\<And>k. manual_submitted d k \<le> manual_submitted d1 k"
  proof -
    fix k
    from s(3) have "0 \<le> (\<Sum>l \<leftarrow> ms_lines p. if so_source_line_id l = k then so_qty_outbound l else 0)"
      by (intro sum_list_nonneg) (auto dest: bspec intro: less_imp_le)
    then show "manual_submitted d k \<le> manual_submitted d1 k"
      using sub [of undefined k] by simp
  qed
  have nxt: "t_next_id d1 MANUAL_OUTBOUND_DOCS = t_next_id d MANUAL_OUTBOUND_DOCS"
    by (rule ship_restD [OF s(2)]) simp
  have lines: "doc_lines_of d1 = doc_lines_of d" by (auto simp: doc_lines_of_def rest)
  have inv1: "manual_inv d1"
    using assms(3) numbers_reached_mono [OF rest(2) pos] unfolding manual_inv_def rest nxt lines by blast
  show ?thesis
  proof (cases "d' = d1")
    case True
    then show ?thesis using s(1) inv1 moves_ok_same [OF rest(1)] by simp
  next
    case False
    with c(4) have full: "numbers_reached d1 n" and run: "complete_manual_doc n d1 = Inr d'"
      using progress_reached_numbers by (auto split: if_splits)
    from run obtain m where "m \<in> set (t_manual_docs d1)" "md_id m = n" "md_status m = ''RELEASED''" and
      d': "d' = d1\<lparr>t_manual_docs := update_where (\<lambda>m. md_id m = n \<and> md_status m = ''RELEASED'')
          (\<lambda>m. m\<lparr>md_status := ''COMPLETED''\<rparr>) (t_manual_docs d1)\<rparr>"
      unfolding complete_manual_doc_def by (rule set_manual_doc_Inr)
    have "manual_inv d'"
      using manual_inv_update [OF inv1 d', of "''COMPLETED''"] full by (auto simp: manual_statuses_def)
    moreover have "moves_ok d1 d'" by (rule moves_ok_update [OF d']) (auto simp: manual_moves_def)
    then have "moves_ok d d'" by (simp add: moves_ok_def rest)
    ultimately show ?thesis using status_update_warehouse_inv [OF s(1)] d' by blast
  qed
qed

section \<open>Runs\<close>

lemma manual_step_inv:
  assumes "manual_step d d'" and "warehouse_inv d" and "manual_inv d"
  shows "warehouse_inv d' \<and> manual_inv d' \<and> moves_ok d d'"
  using assms
  by (cases rule: manual_step.cases)
    (rule create_manual_doc_step release_manual_doc_step void_manual_doc_step submit_manual_step; assumption)+

definition final_kept :: "db \<Rightarrow> db \<Rightarrow> bool" where
  "final_kept d d' \<longleftrightarrow> (\<forall>m \<in> set (t_manual_docs d). md_status m \<in> {''COMPLETED'', ''VOIDED''} \<longrightarrow>
     (\<exists>m' \<in> set (t_manual_docs d'). md_id m' = md_id m \<and> md_status m' = md_status m))"

interpretation final: evolution final_kept
proof
  show "final_kept d d" for d by (auto simp: final_kept_def)
  show "final_kept d e" if "final_kept d c" "final_kept c e" for d c e
    using that unfolding final_kept_def by metis
qed

lemma moves_ok_final: "moves_ok d d' \<Longrightarrow> final_kept d d'"
  by (fastforce simp: moves_ok_def final_kept_def manual_moves_def)

lemma manual_run:
  assumes "manual_step\<^sup>*\<^sup>* d d'" and "warehouse_inv d" and "manual_inv d"
  shows "warehouse_inv d' \<and> manual_inv d' \<and> final_kept d d'"
  using assms
proof (induction rule: rtranclp_induct)
  case (step e f)
  then have e: "warehouse_inv e" "manual_inv e" "final_kept d e" by auto
  with manual_step_inv [OF step.hyps(2) e(1,2)] show ?case
    by (blast intro: final.evo_trans moves_ok_final)
qed (simp add: final.evo_refl)

section \<open>Sample data\<close>

definition sample_manual_submit :: manual_submit_in where
  "sample_manual_submit = \<lparr>ms_remark = None, ms_lines = [sample_ship_line 1 1 6 1]\<rparr>"

definition sample_manual_doc :: manual_doc_in where
  "sample_manual_doc = \<lparr>mdi_warehouse_id = 7, mdi_doc_type = ''SCRAP'', mdi_recipient_name = ''Wu'',
     mdi_remark = None, mdi_lines = [\<lparr>mi_item_id = 1, mi_item_uom_id = 11, mi_requested_qty = 4,
       mi_item_name_snapshot = None, mi_item_sku_snapshot = None, mi_item_spec_snapshot = None,
       mi_uom_name_snapshot = None\<rparr>]\<rparr>"

lemma ship_db_manual_inv: "manual_inv ship_db"
  by (simp add: manual_inv_def ship_db_def doc_lines_of_def manual_statuses_def)

lemma sample_manual_run:
  "\<exists>out d1 n d2. submit_manual_outbound 9 1 None ''T-1'' sample_manual_submit ship_db = Inr (out, d1) \<and>
     create_manual_doc 9 ''MOB-2'' None sample_manual_doc d1 = Inr (n, d2) \<and>
     map md_status (t_manual_docs d1) = [''COMPLETED''] \<and> map md_id (t_manual_docs d1) = [1]"
proof -
  have "returns (submit_manual_outbound 9 1 None ''T-1'' sample_manual_submit ship_db)
    (\<lambda>(_, d1). returns (create_manual_doc 9 ''MOB-2'' None sample_manual_doc d1) (\<lambda>_. True) \<and>
       map md_status (t_manual_docs d1) = [''COMPLETED''] \<and> map md_id (t_manual_docs d1) = [1])"
    by code_simp
  then show ?thesis by (auto simp: returns_pair)
qed

section \<open>Properties\<close>

text \<open>
  C13. The states of a manual document: in every state reachable by creating, releasing, voiding
  and shipping documents, stock and ledger agree, a completed document has lines and for each of
  them the number shipped, in base units, has reached the requested number as the code compares the
  two (the request counts the unit of the line, which the comparison ignores: see
  \<open>manual_document_ignores_unit\<close>), and a document that was completed or voided still is.
\<close>

theorem manual_document_life:
  assumes "warehouse_inv d" and "manual_inv d" and "manual_step\<^sup>*\<^sup>* d d'"
  shows "warehouse_inv d' \<and>
    (\<forall>m \<in> set (t_manual_docs d'). md_status m \<in> {''DRAFT'', ''RELEASED'', ''COMPLETED'', ''VOIDED''} \<and>
       (md_status m = ''COMPLETED'' \<longrightarrow> numbers_reached d' (md_id m))) \<and>
    (\<forall>m \<in> set (t_manual_docs d). md_status m \<in> {''COMPLETED'', ''VOIDED''} \<longrightarrow>
       (\<exists>m' \<in> set (t_manual_docs d'). md_id m' = md_id m \<and> md_status m' = md_status m))"
  using manual_run [OF assms(3,1,2)]
  by (simp add: manual_inv_def final_kept_def manual_statuses_def)

lemma manual_document_life_witness:
  "\<exists>d1 d2. manual_step ship_db d1 \<and> manual_step d1 d2 \<and>
     (\<exists>m \<in> set (t_manual_docs d2). md_id m = 1 \<and> md_status m = ''COMPLETED'' \<and> numbers_reached d2 1)"
proof -
  from sample_manual_run obtain out d1 n d2 where
    r: "submit_manual_outbound 9 1 None ''T-1'' sample_manual_submit ship_db = Inr (out, d1)"
      "create_manual_doc 9 ''MOB-2'' None sample_manual_doc d1 = Inr (n, d2)"
      "map md_status (t_manual_docs d1) = [''COMPLETED'']" "map md_id (t_manual_docs d1) = [1]"
    by (elim exE conjE)
  have s: "manual_step ship_db d1" "manual_step d1 d2"
    using manual_step.submit [OF r(1)] manual_step.create [OF r(2)] .
  have inv1: "warehouse_inv d1 \<and> manual_inv d1"
    using manual_run [OF _ ship_db_inv ship_db_manual_inv] s(1) by blast
  from r(3,4) obtain m where m: "m \<in> set (t_manual_docs d1)" "md_id m = 1" "md_status m = ''COMPLETED''"
    by (auto simp: map_eq_Cons_conv)
  have "manual_step\<^sup>*\<^sup>* d1 d2" using s(2) by blast
  from manual_document_life [OF _ _ this] inv1 m s show ?thesis by fastforce
qed

text \<open>
  A shipment of a manual document completes it exactly when on every line the shipped base units
  have reached the requested number, and leaves it released otherwise; it needs the document released, and a
  line may ship more than was asked.
\<close>

theorem manual_submission_completes:
  assumes "warehouse_inv d" and "manual_inv d"
    and "submit_manual_outbound now n u tr p d = Inr (out, d')"
  shows "\<exists>m m'. find_manual_doc d n = Some m \<and> md_status m = ''RELEASED'' \<and>
    find_manual_doc d' n = Some m' \<and>
    md_status m' = (if numbers_reached d' n then ''COMPLETED'' else ''RELEASED'') \<and>
    manual_submitted d' k = manual_submitted d k +
      (\<Sum>l \<leftarrow> ms_lines p. if so_source_line_id l = k then so_qty_outbound l else 0)"
proof -
  obtain ctx ns d1 where c: "load_manual_submit_context d n = Inr ctx"
    "list_all2 (norm_of False) (number_submit_lines (ms_lines p)) ns"
    "write_event_and_ledger now (mc_warehouse_id ctx) ''MANUAL'' (mc_source_ref ctx) u tr None
       (ms_remark p) ns d = Inr (out, d1)"
    "if list_manual_doc_progress d1 n \<noteq> [] \<and>
        list_all (\<lambda>(_, requested, submitted). requested \<le> submitted) (list_manual_doc_progress d1 n)
     then complete_manual_doc n d1 = Inr d' else d' = d1"
    by (rule submit_manual_Inr [OF assms(3) [unfolded submit_manual_outbound_def]])
  from c(1) obtain m where m: "find_manual_doc d n = Some m" "md_status m = ''RELEASED''"
    by (auto simp: load_manual_submit_context_def Let_def split: option.splits if_splits)
  then have id: "md_id m = n" by (auto simp: find_manual_doc_def dest: find_SomeD)
  note sub = submission_Inr [OF c(3) assms(1) c(2)]
  have rest: "t_manual_docs d1 = t_manual_docs d" "t_manual_lines d1 = t_manual_lines d"
    by (rule ship_restD(7,8), use sub in blast)+
  have qty: "manual_submitted d1 k = manual_submitted d k +
      (\<Sum>l \<leftarrow> ms_lines p. if so_source_line_id l = k then so_qty_outbound l else 0)"
    using sub [of undefined k] by simp
  have m1: "find_manual_doc d1 n = Some m" using m(1) by (simp add: find_manual_doc_def rest)
  have prog: "list_manual_doc_progress d1 n \<noteq> [] \<and>
        list_all (\<lambda>(_, requested, submitted). requested \<le> submitted) (list_manual_doc_progress d1 n)
      \<longleftrightarrow> numbers_reached d1 n"
    by (auto simp: list_manual_doc_progress_def numbers_reached_def doc_lines_of_def manual_submitted_def
      list_all_iff filter_empty_conv)
  show ?thesis
  proof (cases "numbers_reached d1 n")
    case False
    with c(4) prog have "d' = d1" by auto
    with m m1 qty False show ?thesis by auto
  next
    case True
    with c(4) prog have "complete_manual_doc n d1 = Inr d'" by auto
    then have d': "d' = d1\<lparr>t_manual_docs := update_where (\<lambda>m. md_id m = n \<and> md_status m = ''RELEASED'')
          (\<lambda>m. m\<lparr>md_status := ''COMPLETED''\<rparr>) (t_manual_docs d1)\<rparr>"
      unfolding complete_manual_doc_def by (auto elim: set_manual_doc_Inr)
    have "find_manual_doc d' n = Some (m\<lparr>md_status := ''COMPLETED''\<rparr>)"
      using m1 m(2) id by (simp add: find_manual_doc_def d' find_update_where_same)
    moreover have "numbers_reached d' n" "manual_submitted d' k = manual_submitted d1 k"
      using True by (simp_all add: d' numbers_reached_def doc_lines_of_def manual_submitted_def)
    ultimately show ?thesis using m qty by auto
  qed
qed

lemma manual_submission_completes_witness:
  "\<exists>out d1 m. submit_manual_outbound 9 1 None ''T-1'' sample_manual_submit ship_db = Inr (out, d1) \<and>
     find_manual_doc ship_db 1 = Some m \<and> md_status m = ''RELEASED'' \<and> manual_submitted d1 1 = 6"
proof -
  from sample_manual_run obtain out d1 where
    r: "submit_manual_outbound 9 1 None ''T-1'' sample_manual_submit ship_db = Inr (out, d1)"
    by (elim exE conjE)
  have "manual_submitted ship_db 1 = 0"
    "(\<Sum>l \<leftarrow> ms_lines sample_manual_submit. if so_source_line_id l = 1 then so_qty_outbound l else 0) = 6"
    by code_simp+
  with manual_submission_completes [OF ship_db_inv ship_db_manual_inv r, of 1] r show ?thesis by auto
qed

text \<open>
  The request of a manual document is counted in its packaging unit, the shipped quantity in
  base units, and the service compares the two numbers: a document for six boxes of ten is
  completed by a shipment that takes six pieces off the stock.
\<close>

theorem manual_document_ignores_unit:
  "map (\<lambda>l. (ml_requested_qty l, ml_item_uom_id l)) (t_manual_lines ship_db) = [(6, 12)] \<and>
   map uo_ratio_to_base (filter (\<lambda>u. uo_id u = 12) (t_item_uoms ship_db)) = [10] \<and>
   returns (submit_manual_outbound 9 1 None ''T-1'' sample_manual_submit ship_db)
     (\<lambda>(_, d'). map md_status (t_manual_docs d') = [''COMPLETED''] \<and>
        slot_qty d' (7, 1, 1) = slot_qty ship_db (7, 1, 1) - 6)"
  by code_simp

end
