(* ===== verification/CountDocs.thy ===== *)
theory CountDocs
  imports Events
begin

text \<open>
  Stock counts: \<open>app/wms/inventory_adjustment/count/services/count_doc_service.py\<close> with its
  repository (\<open>count_doc_repo.py\<close>), contract (\<open>contracts/count_doc.py\<close>) and routes. A document is
  drafted, frozen (the stock of its warehouse is copied into lines and lot snapshots), counted,
  and posted through the inventory kernel, or voided. One statement that inserts several rows
  inserts them in the order of their row numbers; the document number, the event number, the
  trace id and the clock are arguments.
\<close>

section \<open>Contract\<close>

record count_create_in =
  cci_warehouse_id :: int
  cci_snapshot_at :: int
  cci_remark :: "string option"

record count_patch =
  cp_line_id :: int
  cp_counted_qty_input :: int

record count_update_in =
  cui_counted_by_name_snapshot :: string
  cui_lines :: "count_patch list"

definition count_create_valid :: "count_create_in \<Rightarrow> bool" where
  "count_create_valid p \<longleftrightarrow> 1 \<le> cci_warehouse_id p"

definition count_update_valid :: "count_update_in \<Rightarrow> bool" where
  "count_update_valid p \<longleftrightarrow> cui_lines p \<noteq> [] \<and>
     list_all (\<lambda>l. 1 \<le> cp_line_id l \<and> 0 \<le> cp_counted_qty_input l) (cui_lines p)"

section \<open>count\_doc\_repo.py\<close>

definition find_count_doc :: "db \<Rightarrow> int \<Rightarrow> count_doc option" where
  "find_count_doc d n = find (\<lambda>c. cd_id c = n) (t_count_docs d)"

definition active_count_statuses :: "string list" where
  "active_count_statuses = [''DRAFT'', ''FROZEN'', ''COUNTED'']"

definition created_later :: "count_doc \<Rightarrow> count_doc \<Rightarrow> bool" where
  "created_later a b \<longleftrightarrow> cd_created_at a < cd_created_at b \<or>
     cd_created_at a = cd_created_at b \<and> cd_id a < cd_id b"

definition get_active_doc_by_warehouse :: "db \<Rightarrow> int \<Rightarrow> count_doc option" where
  "get_active_doc_by_warehouse d w =
     (case filter (\<lambda>c. cd_warehouse_id c = w \<and> cd_status c \<in> set active_count_statuses) (t_count_docs d) of
        [] \<Rightarrow> None
      | c # cs \<Rightarrow> Some (foldl (\<lambda>a b. if created_later a b then b else a) c cs))"

definition insert_count_doc :: "int \<Rightarrow> string \<Rightarrow> int option \<Rightarrow> count_create_in \<Rightarrow> count_doc tx" where
  "insert_count_doc now count_no u p d =
     (let (nid, d1) = next_id COUNT_DOCS d;
          doc = \<lparr>cd_id = nid, cd_count_no = count_no, cd_warehouse_id = cci_warehouse_id p,
            cd_snapshot_at = cci_snapshot_at p, cd_status = ''DRAFT'', cd_posted_event_id = None,
            cd_created_by = u, cd_counted_by_name_snapshot = None,
            cd_reviewed_by_name_snapshot = None, cd_remark = map_option py_strip (cci_remark p),
            cd_created_at = now, cd_counted_at = None, cd_posted_at = None\<rparr>
      in if count_no \<in> cd_count_no ` set (t_count_docs d)
         then Inl (IntegrityError ''uq_count_docs_count_no'')
         else Inr (doc, d1\<lparr>t_count_docs := t_count_docs d1 @ [doc]\<rparr>))"

definition doc_count_lines :: "db \<Rightarrow> int \<Rightarrow> count_line list" where
  "doc_count_lines d n = filter (\<lambda>l. cl_doc_id l = n) (t_count_lines d)"

text \<open>The grouped query of the freeze: items with stock in the warehouse, by item id.\<close>

definition freeze_rows :: "db \<Rightarrow> int \<Rightarrow> (int \<times> item \<times> int) list" where
  "freeze_rows d w =
     List.map_filter (\<lambda>i. let q = get_available_for_item d w i in
         if 0 < q then map_option (\<lambda>it. (i, it, q)) (find_item (t_items d) i) else None)
       (sort (remdups (map sl_item_id (filter (\<lambda>s. sl_warehouse_id s = w) (t_stocks d)))))"

definition insert_count_line :: "int \<Rightarrow> int \<times> int \<times> item \<times> int \<Rightarrow> db \<Rightarrow> db result" where
  "insert_count_line doc_id x d =
     (case x of (line_no, i, it, q) \<Rightarrow>
      let (nid, d1) = next_id COUNT_DOC_LINES d;
          row = \<lparr>cl_id = nid, cl_doc_id = doc_id, cl_line_no = line_no, cl_item_id = i,
            cl_item_name_snapshot = Some (it_name it), cl_item_spec_snapshot = it_spec it,
            cl_snapshot_qty_base = q, cl_counted_item_uom_id = None,
            cl_counted_uom_name_snapshot = None, cl_counted_ratio_to_base_snapshot = None,
            cl_counted_qty_input = None, cl_counted_qty_base = None, cl_diff_qty_base = None\<rparr>
      in if \<not> int4 q then Inl (DataError ''integer out of range'')
         else if \<not> count_line_checks row then Inl (IntegrityError ''count_doc_lines check constraint'')
         else if (doc_id, line_no) \<in> (\<lambda>l. (cl_doc_id l, cl_line_no l)) ` set (t_count_lines d)
         then Inl (IntegrityError ''uq_count_doc_lines_doc_line'')
         else if (doc_id, i) \<in> (\<lambda>l. (cl_doc_id l, cl_item_id l)) ` set (t_count_lines d)
         then Inl (IntegrityError ''uq_count_doc_lines_doc_item'')
         else Inr (d1\<lparr>t_count_lines := t_count_lines d1 @ [row]\<rparr>))"

definition freeze_snapshot_rows :: "db \<Rightarrow> int \<Rightarrow> count_line \<Rightarrow> (int \<times> int \<times> string option \<times> int) list" where
  "freeze_snapshot_rows d w l =
     List.map_filter (\<lambda>s. if sl_item_id s = cl_item_id l \<and> sl_warehouse_id s = w \<and> 0 < sl_qty s
         then map_option (\<lambda>lo. (cl_id l, sl_lot_id s, lot_code lo, sl_qty s)) (find_lot d (sl_lot_id s))
         else None) (t_stocks d)"

definition insert_count_snapshot :: "int \<times> int \<times> string option \<times> int \<Rightarrow> db \<Rightarrow> db result" where
  "insert_count_snapshot x d =
     (case x of (line_id, lid, code, q) \<Rightarrow>
      let (nid, d1) = next_id COUNT_DOC_LINE_LOT_SNAPSHOTS d in
      if \<not> int4 q then Inl (DataError ''integer out of range'')
      else if (line_id, lid) \<in> (\<lambda>s. (cs_line_id s, cs_lot_id s)) ` set (t_count_snapshots d)
      then Inl (IntegrityError ''uq_count_doc_line_lot_snapshots_line_lot'')
      else Inr (d1\<lparr>t_count_snapshots := t_count_snapshots d1 @
        [\<lparr>cs_id = nid, cs_line_id = line_id, cs_lot_id = lid, cs_lot_code_snapshot = code,
          cs_snapshot_qty_base = q\<rparr>]\<rparr>))"

definition delete_count_lines :: "int \<Rightarrow> db \<Rightarrow> db" where
  "delete_count_lines doc_id d =
     d\<lparr>t_count_snapshots := filter (\<lambda>s. cs_line_id s \<notin> cl_id ` set (doc_count_lines d doc_id))
         (t_count_snapshots d),
       t_count_lines := filter (\<lambda>l. cl_doc_id l \<noteq> doc_id) (t_count_lines d)\<rparr>"

definition set_count_doc :: "(count_doc \<Rightarrow> bool) \<Rightarrow> (count_doc \<Rightarrow> count_doc) \<Rightarrow> db \<Rightarrow> db" where
  "set_count_doc hit upd d = d\<lparr>t_count_docs := update_where hit upd (t_count_docs d)\<rparr>"

definition freeze_doc_lines_from_current_stock :: "int \<Rightarrow> (nat \<times> nat) tx" where
  "freeze_doc_lines_from_current_stock doc_id d =
     (case find_count_doc d doc_id of
        None \<Rightarrow> Inl (LookupError ''count_doc_not_found'')
      | Some doc \<Rightarrow>
          let w = cd_warehouse_id doc; d0 = delete_count_lines doc_id d; rows = freeze_rows d0 w in
          bindE (foldE (insert_count_line doc_id) (zip (map int [1 ..< length rows + 1]) rows) d0)
            (\<lambda>d1.
          bindE (foldE insert_count_snapshot
                   (concat (map (freeze_snapshot_rows d1 w) (doc_count_lines d1 doc_id))) d1) (\<lambda>d2.
          let d3 = set_count_doc (\<lambda>c. cd_id c = doc_id) (\<lambda>c. c\<lparr>cd_status := ''FROZEN''\<rparr>) d2 in
          Inr ((length (doc_count_lines d3 doc_id),
                length (filter (\<lambda>s. cs_line_id s \<in> cl_id ` set (doc_count_lines d3 doc_id))
                  (t_count_snapshots d3))), d3))))"

definition counted_line :: "item_uom \<Rightarrow> int \<Rightarrow> count_line \<Rightarrow> count_line" where
  "counted_line u n l = l\<lparr>cl_counted_item_uom_id := Some (uo_id u),
     cl_counted_uom_name_snapshot := Some (uom_name u), cl_counted_ratio_to_base_snapshot := Some 1,
     cl_counted_qty_input := Some n, cl_counted_qty_base := Some n,
     cl_diff_qty_base := Some (n - cl_snapshot_qty_base l)\<rparr>"

definition update_count_line :: "int \<Rightarrow> count_patch \<Rightarrow> db \<Rightarrow> db result" where
  "update_count_line doc_id p d =
     (case find (\<lambda>l. cl_id l = cp_line_id p \<and> cl_doc_id l = doc_id) (t_count_lines d) of
        None \<Rightarrow> Inl (LookupError ''count_doc_line_not_found'')
      | Some l \<Rightarrow> (case find (\<lambda>u. uo_item_id u = cl_item_id l \<and> uo_is_base u) (t_item_uoms d) of
          None \<Rightarrow> Inl (LookupError ''count_doc_line_base_uom_not_found'')
        | Some u \<Rightarrow>
            let n = cp_counted_qty_input p; l' = counted_line u n l in
            if \<not> (int4 n \<and> int4 (n - cl_snapshot_qty_base l)) then Inl (DataError ''integer out of range'')
            else if \<not> count_line_checks l'
            then Inl (IntegrityError ''count_doc_lines check constraint'')
            else Inr (d\<lparr>t_count_lines := update_where (\<lambda>x. cl_id x = cl_id l) (\<lambda>_. l') (t_count_lines d)\<rparr>)))"

definition update_line_counts :: "int \<Rightarrow> string \<Rightarrow> count_patch list \<Rightarrow> db \<Rightarrow> db result" where
  "update_line_counts doc_id counted_by ps d =
     bindE (foldE (update_count_line doc_id) ps d) (\<lambda>d1.
     Inr (set_count_doc (\<lambda>c. cd_id c = doc_id)
       (\<lambda>c. c\<lparr>cd_counted_by_name_snapshot := Some (py_strip counted_by),
               cd_reviewed_by_name_snapshot := None\<rparr>) d1))"

definition all_counted :: "db \<Rightarrow> int \<Rightarrow> bool" where
  "all_counted d doc_id \<longleftrightarrow> doc_count_lines d doc_id \<noteq> [] \<and>
     (\<forall>l \<in> set (doc_count_lines d doc_id). cl_counted_qty_base l \<noteq> None)"

definition try_mark_doc_counted :: "int \<Rightarrow> int \<Rightarrow> db \<Rightarrow> db" where
  "try_mark_doc_counted now doc_id d =
     (if all_counted d doc_id
      then set_count_doc (\<lambda>c. cd_id c = doc_id \<and> cd_status c = ''FROZEN'')
        (\<lambda>c. c\<lparr>cd_status := ''COUNTED'',
                cd_counted_at := (case cd_counted_at c of None \<Rightarrow> Some now | Some t \<Rightarrow> Some t)\<rparr>) d
      else d)"

definition set_reviewed_by_name_snapshot :: "int \<Rightarrow> string \<Rightarrow> db \<Rightarrow> db" where
  "set_reviewed_by_name_snapshot doc_id reviewed_by d =
     set_count_doc (\<lambda>c. cd_id c = doc_id)
       (\<lambda>c. c\<lparr>cd_reviewed_by_name_snapshot := Some (py_strip reviewed_by)\<rparr>) d"

definition mark_doc_posted :: "int \<Rightarrow> int \<Rightarrow> int \<Rightarrow> db \<Rightarrow> db result" where
  "mark_doc_posted doc_id event_id posted_at d =
     (let hit = (\<lambda>c. cd_id c = doc_id \<and> cd_status c = ''COUNTED'') in
      if filter hit (t_count_docs d) = [] then Inl (LookupError ''count_doc_not_counted_or_not_found'')
      else Inr (set_count_doc hit (\<lambda>c. c\<lparr>cd_status := ''POSTED'',
        cd_posted_event_id := Some event_id, cd_posted_at := Some posted_at\<rparr>) d))"

definition mark_doc_voided :: "int \<Rightarrow> db \<Rightarrow> db result" where
  "mark_doc_voided doc_id d =
     (let hit = (\<lambda>c. cd_id c = doc_id \<and> cd_status c \<in> set active_count_statuses) in
      if filter hit (t_count_docs d) = [] then Inl (LookupError ''count_doc_not_voidable_or_not_found'')
      else Inr (set_count_doc hit (\<lambda>c. c\<lparr>cd_status := ''VOIDED''\<rparr>) d))"

text \<open>\<open>ORDER BY snapshot_qty_base DESC, lot_id ASC, id ASC\<close>, as three stable sorts.\<close>

definition sorted_lot_snapshots :: "count_snapshot list \<Rightarrow> count_snapshot list" where
  "sorted_lot_snapshots ss =
     sort_key (\<lambda>s. - cs_snapshot_qty_base s) (sort_key cs_lot_id (sort_key cs_id ss))"

definition get_line_lot_snapshots :: "db \<Rightarrow> int \<Rightarrow> count_snapshot list" where
  "get_line_lot_snapshots d line_id =
     sorted_lot_snapshots (filter (\<lambda>s. cs_line_id s = line_id) (t_count_snapshots d))"

text \<open>Line count, lines with a difference, and the sum of the differences.\<close>

definition get_doc_line_stats :: "db \<Rightarrow> int \<Rightarrow> nat \<times> nat \<times> int" where
  "get_doc_line_stats d doc_id =
     (let ls = doc_count_lines d doc_id;
          diff = (\<lambda>l. case cl_diff_qty_base l of None \<Rightarrow> 0 | Some n \<Rightarrow> n)
      in (length ls, length (filter (\<lambda>l. diff l \<noteq> 0) ls), sum_list (map diff ls)))"

section \<open>count\_doc\_service.py\<close>

definition require_doc :: "db \<Rightarrow> int \<Rightarrow> count_doc result" where
  "require_doc d doc_id = of_option (LookupError ''count_doc_not_found'') (find_count_doc d doc_id)"

definition count_create_doc :: "int \<Rightarrow> string \<Rightarrow> int option \<Rightarrow> count_create_in \<Rightarrow> count_doc tx" where
  "count_create_doc now count_no u p d =
     (case get_active_doc_by_warehouse d (cci_warehouse_id p) of
        Some _ \<Rightarrow> Inl (ValueError ''count_doc_active_exists'')
      | None \<Rightarrow> insert_count_doc now count_no u p d)"

definition freeze_doc :: "int \<Rightarrow> (int \<times> nat \<times> nat) tx" where
  "freeze_doc doc_id d =
     bindE (require_doc d doc_id) (\<lambda>doc.
     if cd_status doc \<noteq> ''DRAFT'' then Inl (ValueError ''count_doc_freeze_requires_draft'')
     else bindE (freeze_doc_lines_from_current_stock doc_id d) (\<lambda>((lines, snaps), d1).
       Inr ((cd_snapshot_at doc, lines, snaps), d1)))"

definition update_doc_lines :: "int \<Rightarrow> int \<Rightarrow> count_update_in \<Rightarrow> (string \<times> nat) tx" where
  "update_doc_lines now doc_id p d =
     bindE (require_doc d doc_id) (\<lambda>doc.
     if cd_status doc \<notin> {''FROZEN'', ''COUNTED''}
     then Inl (ValueError ''count_doc_lines_update_requires_frozen_or_counted'')
     else (case strip_or_none (Some (cui_counted_by_name_snapshot p)) of
        None \<Rightarrow> Inl (ValueError ''count_doc_lines_update_requires_counted_by_name_snapshot'')
      | Some counted_by \<Rightarrow>
          bindE (update_line_counts doc_id counted_by (cui_lines p) d) (\<lambda>d1.
          let d2 = try_mark_doc_counted now doc_id d1 in
          bindE (require_doc d2 doc_id) (\<lambda>doc2. Inr ((cd_status doc2, length (cui_lines p)), d2)))))"

definition count_line_meta :: "count_doc \<Rightarrow> count_line \<Rightarrow> int \<Rightarrow> string \<Rightarrow> meta" where
  "count_line_meta doc l event_id sub_reason =
     [(''sub_reason'', PStr sub_reason), (''count_doc_id'', PInt (cd_id doc)),
      (''count_doc_line_id'', PInt (cl_id l)), (''count_no'', PStr (cd_count_no doc)),
      (''event_id'', PInt event_id)] @
     (case strip_or_none (cd_counted_by_name_snapshot doc) of None \<Rightarrow> []
      | Some n \<Rightarrow> [(''counted_by_name_snapshot'', PStr n)]) @
     (case strip_or_none (cd_reviewed_by_name_snapshot doc) of None \<Rightarrow> []
      | Some n \<Rightarrow> [(''reviewed_by_name_snapshot'', PStr n)]) @
     (if sub_reason = ''COUNT_CONFIRM'' then [(''allow_zero_delta_ledger'', PBool True)] else [])"

definition count_request ::
  "count_doc \<Rightarrow> count_line \<Rightarrow> int \<Rightarrow> string \<Rightarrow> int \<Rightarrow> string \<Rightarrow> string \<Rightarrow> count_snapshot \<Rightarrow> int \<Rightarrow>
   adjust_req" where
  "count_request doc l event_id event_no posted_at trace sub_reason snap delta =
     \<lparr>aq_item_id = cl_item_id l, aq_warehouse_id = cd_warehouse_id doc,
      aq_lot_id = Some (cs_lot_id snap), aq_delta = delta, aq_reason = Inr ADJUSTMENT,
      aq_ref = event_no, aq_ref_line = Some (cl_line_no l), aq_occurred_at = Some posted_at,
      aq_meta = count_line_meta doc l event_id sub_reason, aq_lot_code = cs_lot_code_snapshot snap,
      aq_production_date = None, aq_expiry_date = None, aq_trace_id = Some trace\<rparr>"

text \<open>
  The loop that spreads a shortage over the lots of the line: what is left over and how many
  adjustments it made.
\<close>

fun consume_snapshots ::
  "int \<Rightarrow> (count_snapshot \<Rightarrow> int \<Rightarrow> adjust_req) \<Rightarrow> int \<Rightarrow> count_snapshot list \<Rightarrow> (int \<times> nat) tx" where
  "consume_snapshots now req remaining [] d = Inr ((remaining, 0), d)"
| "consume_snapshots now req remaining (s # ss) d =
     (if remaining \<le> 0 then Inr ((remaining, 0), d)
      else if cs_snapshot_qty_base s \<le> 0 then consume_snapshots now req remaining ss d
      else
        (let consume = min remaining (cs_snapshot_qty_base s) in
         bindE (adjust_lot now (req s (- consume)) d) (\<lambda>(_, d1).
         bindE (consume_snapshots now req (remaining - consume) ss d1) (\<lambda>((rest, written), d2).
         Inr ((rest, written + 1), d2)))))"

definition post_line_diff ::
  "count_doc \<Rightarrow> int \<Rightarrow> string \<Rightarrow> int \<Rightarrow> string \<Rightarrow> count_line \<Rightarrow> nat tx" where
  "post_line_diff doc event_id event_no posted_at trace l d =
     (let diff = (case cl_diff_qty_base l of None \<Rightarrow> 0 | Some n \<Rightarrow> n);
          req = count_request doc l event_id event_no posted_at trace
      in case get_line_lot_snapshots d (cl_id l) of
        [] \<Rightarrow> Inl (RuntimeError ''count_doc_post_missing_lot_snapshots'')
      | target # rest \<Rightarrow>
          if diff = 0 then
            bindE (adjust_lot posted_at (req ''COUNT_CONFIRM'' target 0) d) (\<lambda>(_, d1). Inr (1, d1))
          else if 0 < diff then
            bindE (adjust_lot posted_at (req ''COUNT_ADJUST'' target diff) d) (\<lambda>(_, d1). Inr (1, d1))
          else
            bindE (consume_snapshots posted_at (req ''COUNT_ADJUST'') (- diff) (target # rest) d)
              (\<lambda>((remaining, written), d1).
            if remaining \<noteq> 0 then Inl (RuntimeError ''count_doc_post_unallocated_negative_diff'')
            else Inr (written, d1)))"

definition count_event :: "int \<Rightarrow> int \<Rightarrow> string \<Rightarrow> string \<Rightarrow> count_doc \<Rightarrow> wms_event" where
  "count_event now posted_at event_no trace doc =
     \<lparr>ev_id = 0, ev_event_no = event_no, ev_event_type = ''COUNT'',
      ev_warehouse_id = cd_warehouse_id doc, ev_source_type = ''MANUAL_COUNT'',
      ev_source_ref = Some (cd_count_no doc), ev_occurred_at = posted_at,
      ev_committed_at = now, ev_trace_id = trace, ev_event_kind = ''COMMIT'',
      ev_target_event_id = None, ev_status = ''COMMITTED'', ev_created_by = cd_created_by doc,
      ev_remark = Some (case cd_remark doc of
          Some r \<Rightarrow> if r \<noteq> [] then py_strip r else ''post count doc '' @ cd_count_no doc
        | None \<Rightarrow> ''post count doc '' @ cd_count_no doc)\<rparr>"

text \<open>Posting a posted document again answers with the first posting.\<close>

definition post_doc :: "int \<Rightarrow> int \<Rightarrow> string \<Rightarrow> string \<Rightarrow> int \<Rightarrow> string \<Rightarrow> (int \<times> int) tx" where
  "post_doc now posted_at event_no trace doc_id reviewed_by d =
     bindE (require_doc d doc_id) (\<lambda>doc.
     if cd_status doc = ''POSTED'' then
       (case (cd_posted_event_id doc, cd_posted_at doc) of
          (Some e, Some t) \<Rightarrow> Inr ((e, t), d)
        | _ \<Rightarrow> Inl (RuntimeError ''count_doc_posted_missing_bridge_fields''))
     else if cd_status doc \<noteq> ''COUNTED'' then Inl (ValueError ''count_doc_post_requires_counted'')
     else (case strip_or_none (Some reviewed_by) of
        None \<Rightarrow> Inl (ValueError ''count_doc_post_requires_reviewed_by_name_snapshot'')
      | Some reviewer \<Rightarrow>
          let d1 = set_reviewed_by_name_snapshot doc_id reviewer d in
          bindE (require_doc d1 doc_id) (\<lambda>doc1.
          if strip_or_none (cd_counted_by_name_snapshot doc1) = None
          then Inl (ValueError ''count_doc_post_requires_counted_by_name_snapshot'')
          else if strip_or_none (cd_reviewed_by_name_snapshot doc1) = None
          then Inl (ValueError ''count_doc_post_requires_reviewed_by_name_snapshot'')
          else
            let ls = doc_count_lines d1 doc_id in
            if ls = [] then Inl (ValueError ''count_doc_post_requires_lines'')
            else if \<exists>l \<in> set ls. cl_counted_qty_base l = None \<or> cl_diff_qty_base l = None
            then Inl (ValueError ''count_doc_post_requires_all_lines_counted'')
            else
              bindE (insert_event (count_event now posted_at event_no trace doc1) d1) (\<lambda>(eid, d2).
              bindE (mapE (post_line_diff doc1 eid event_no posted_at trace) ls d2) (\<lambda>(_, d3).
              bindE (mark_doc_posted doc_id eid posted_at d3) (\<lambda>d4. Inr ((eid, posted_at), d4)))))))"

definition void_doc :: "int \<Rightarrow> db \<Rightarrow> db result" where
  "void_doc doc_id d =
     bindE (require_doc d doc_id) (\<lambda>doc.
     if cd_status doc = ''POSTED'' then Inl (ValueError ''count_doc_void_forbidden_after_posted'')
     else mark_doc_voided doc_id d)"

text \<open>How every count route answers an exception.\<close>

definition count_route :: "'a result \<Rightarrow> 'a result" where
  "count_route r = (case r of
     Inl (ValueError m) \<Rightarrow> Inl (HTTPException 400 m)
   | Inl (LookupError m) \<Rightarrow> Inl (HTTPException 404 m)
   | Inl (HTTPException c m) \<Rightarrow> Inl (HTTPException c m)
   | Inl (RuntimeError m) \<Rightarrow> Inl (HTTPException 500 m)
   | Inl (OverflowError m) \<Rightarrow> Inl (HTTPException 500 m)
   | Inl (IntegrityError m) \<Rightarrow> Inl (HTTPException 500 m)
   | Inl (DataError m) \<Rightarrow> Inl (HTTPException 500 m)
   | Inr x \<Rightarrow> Inr x)"

end
