(* ===== verification/CountRuns.thy ===== *)
theory CountRuns
  imports CountDocs
begin

text \<open>
  What the count operations do: the rows a posting books, the invariant of the count tables, and
  the life of a document as a state machine.
\<close>

section \<open>Totals of an item\<close>

definition item_rows :: "int \<Rightarrow> int \<Rightarrow> stock_ledger list \<Rightarrow> int" where
  "item_rows w i rows = sum_where (\<lambda>r. lg_warehouse_id r = w \<and> lg_item_id r = i) lg_delta rows"

lemma item_rows_simps [simp]:
  "item_rows w i [] = 0" "item_rows w i (xs @ ys) = item_rows w i xs + item_rows w i ys"
  "item_rows w i (r # rs) = (if lg_warehouse_id r = w \<and> lg_item_id r = i then lg_delta r else 0) +
     item_rows w i rs"
  by (simp_all add: item_rows_def)

lemma sum_one_key:
  assumes "distinct (map key xs)"
  shows "(\<Sum>x \<leftarrow> xs. if q x \<and> key x = k then v else 0) = (if \<exists>x \<in> set xs. q x \<and> key x = k then v else (0 :: int))"
  using assms
proof (induction xs)
  case (Cons x xs)
  then show ?case by (cases "q x \<and> key x = k") (auto simp: image_iff)
qed simp

lemma sum_where_eq:
  "(\<And>x. x \<in> set xs \<Longrightarrow> v x = f x) \<Longrightarrow> sum_where q v xs = (\<Sum>x \<leftarrow> xs. if q x then f x else 0)"
  by (induction xs) auto

text \<open>The stock of a set of slots is the sum of the ledger rows of the slots.\<close>

lemma slots_total_ledger:
  assumes "book_inv d"
  shows "sum_where (\<lambda>s. Q (stock_slot s)) sl_qty (t_stocks d) = sum_where (\<lambda>r. Q (ledger_slot r)) lg_delta (t_ledger d)"
proof -
  note inv = book_invD [OF assms]
  have *: "(\<Sum>s \<leftarrow> t_stocks d. if Q (stock_slot s) then ledger_sum rows (stock_slot s) else 0) =
      sum_where (\<lambda>r. Q (ledger_slot r)) lg_delta rows"
    if "\<forall>r \<in> set rows. ledger_slot r \<in> stock_slot ` set (t_stocks d)" for rows
    using that
  proof (induction rows)
    case Nil
    show ?case by (simp cong: if_cong)
  next
    case (Cons r rows)
    let ?hit = "\<lambda>s. Q (stock_slot s) \<and> stock_slot s = ledger_slot r"
    have "(\<Sum>s \<leftarrow> t_stocks d. if Q (stock_slot s) then ledger_sum (r # rows) (stock_slot s) else 0) =
        (\<Sum>s \<leftarrow> t_stocks d. (if ?hit s then lg_delta r else 0) +
          (if Q (stock_slot s) then ledger_sum rows (stock_slot s) else 0))"
      by (rule arg_cong [where f = sum_list], rule map_cong) auto
    also have "\<dots> = (\<Sum>s \<leftarrow> t_stocks d. if ?hit s then lg_delta r else 0) + sum_where (\<lambda>r. Q (ledger_slot r)) lg_delta rows"
      using Cons by (simp add: sum_list_addf)
    also have "(\<Sum>s \<leftarrow> t_stocks d. if ?hit s then lg_delta r else 0) =
        (if \<exists>s \<in> set (t_stocks d). ?hit s then lg_delta r else 0)"
      by (rule sum_one_key [OF inv(3)])
    also have "(\<exists>s \<in> set (t_stocks d). ?hit s) \<longleftrightarrow> Q (ledger_slot r)"
      using Cons.prems by (auto simp: image_iff)
    finally show ?case by simp
  qed
  have "sum_where (\<lambda>s. Q (stock_slot s)) sl_qty (t_stocks d) =
      (\<Sum>s \<leftarrow> t_stocks d. if Q (stock_slot s) then ledger_sum (t_ledger d) (stock_slot s) else 0)"
    by (rule sum_where_eq) (rule inv(6))
  with * [of "t_ledger d"] inv(7) show ?thesis by simp
qed

lemma posts_slots_total:
  assumes "posts d rows d'" and "book_inv d"
  shows "sum_where (\<lambda>s. Q (stock_slot s)) sl_qty (t_stocks d') =
    sum_where (\<lambda>s. Q (stock_slot s)) sl_qty (t_stocks d) + sum_where (\<lambda>r. Q (ledger_slot r)) lg_delta rows"
  by (simp add: slots_total_ledger assms(2) posts_inv [OF assms] posts_ledger [OF assms])

lemma item_total_ledger:
  assumes "book_inv d"
  shows "get_available_for_item d w i = item_rows w i (t_ledger d)"
  using slots_total_ledger [OF assms, of "\<lambda>(w', i', _). i' = i \<and> w' = w"]
  by (simp add: get_available_for_item_def item_rows_def stock_slot_def ledger_slot_def conj_commute)

lemma posts_item_total:
  "posts d rows d' \<Longrightarrow> book_inv d \<Longrightarrow>
   get_available_for_item d' w i = get_available_for_item d w i + item_rows w i rows"
  by (simp add: item_total_ledger posts_inv posts_ledger)

section \<open>Booking a line\<close>

lemma count_request_sel [simp]:
  "aq_item_id (count_request doc l eid eno t tr sub s q) = cl_item_id l"
  "aq_warehouse_id (count_request doc l eid eno t tr sub s q) = cd_warehouse_id doc"
  "aq_lot_id (count_request doc l eid eno t tr sub s q) = Some (cs_lot_id s)"
  "aq_delta (count_request doc l eid eno t tr sub s q) = q"
  "aq_reason (count_request doc l eid eno t tr sub s q) = Inr ADJUSTMENT"
  "aq_ref (count_request doc l eid eno t tr sub s q) = eno"
  "aq_ref_line (count_request doc l eid eno t tr sub s q) = Some (cl_line_no l)"
  "aq_meta (count_request doc l eid eno t tr sub s q) = count_line_meta doc l eid sub"
  by (simp_all add: count_request_def)

lemma count_line_meta_event:
  "0 < eid \<Longrightarrow> meta_int (count_line_meta doc l eid sub) ''event_id'' = Inr (Some eid)"
  by (simp add: count_line_meta_def meta_int_def meta_get_def)

lemma count_line_meta_zero: "meta_bool (count_line_meta doc l eid ''COUNT_CONFIRM'') ''allow_zero_delta_ledger''"
  by (simp add: count_line_meta_def meta_bool_def meta_get_def split: option.splits)

text \<open>A count adjustment whose key is free books one row, also for a difference of zero.\<close>

definition count_row :: "count_doc \<Rightarrow> int \<Rightarrow> string \<Rightarrow> count_line \<Rightarrow> stock_ledger \<Rightarrow> bool" where
  "count_row doc eid eno l r \<longleftrightarrow> lg_ref r = eno \<and> lg_ref_line r = cl_line_no l \<and>
     lg_event_id r = Some eid \<and> lg_reason r = ''ADJUSTMENT'' \<and>
     lg_warehouse_id r = cd_warehouse_id doc \<and> lg_item_id r = cl_item_id l"

lemma adjust_prep_None:
  assumes "adjust_prep now q d = Inr None"
  shows "aq_delta q = 0 \<and> \<not> meta_bool (aq_meta q) ''allow_zero_delta_ledger'' \<or>
    (\<exists>lid. aq_lot_id q = Some lid \<and> adjust_key q lid \<in> ledger_key ` set (t_ledger d))"
  using assms
  by (auto simp: adjust_prep_def adjust_check_def idem_hit_by_lot_key_def res_simps Let_def)

lemma adjust_lot_booked:
  assumes "adjust_lot now q d = Inr (out, d')" and "book_inv d"
    and "aq_delta q \<noteq> 0 \<or> meta_bool (aq_meta q) ''allow_zero_delta_ledger''"
    and "aq_lot_id q = Some lid" and "adjust_key q lid \<notin> ledger_key ` set (t_ledger d)"
  obtains c where "adjust_prep now q d = Inr (Some c)" "cx_lot_id c = lid"
    "posts d [adjust_row q c (slot_qty d (adjust_slot q lid)) (t_next_id d STOCK_LEDGER)] d'"
proof -
  have "adjust_prep now q d \<noteq> Inr None" using adjust_prep_None [of now q d] assms(3-5) by auto
  moreover from assms(1) obtain ctx where "adjust_prep now q d = Inr ctx"
    by (auto simp: adjust_lot_def adjust_lot_impl_def bindE_eq_Inr)
  ultimately obtain c where c: "adjust_prep now q d = Inr (Some c)" by (cases ctx) auto
  with assms(1) have ap: "adjust_apply q c d = Inr (out, d')"
    by (simp add: adjust_lot_def adjust_lot_impl_def)
  note pr = adjust_prep_Some [OF c]
  have lid: "cx_lot_id c = lid" using pr(1) assms(4) by simp
  have "(reason_val (aq_reason q), aq_ref q, cx_ref_line c, aq_item_id q, aq_warehouse_id q,
      cx_lot_id c) \<notin> ledger_key ` set (t_ledger d)"
    using pr(2) unfolding adjust_key_def pr(3) .
  from adjust_apply_Inr(1) [OF ap assms(2) this] show ?thesis
    by (intro that [OF c lid]) (simp add: lid)
qed

lemma count_adjust_step:
  assumes run: "adjust_lot now (count_request doc l eid eno t tr sub s q) d = Inr (out, d')"
    and inv: "warehouse_inv d" and eid: "0 < eid" and q: "q \<noteq> 0 \<or> sub = ''COUNT_CONFIRM''"
    and new: "\<forall>x \<in> set (t_ledger d). \<not> (lg_ref x = eno \<and> lg_ref_line x = cl_line_no l \<and> lg_lot_id x = cs_lot_id s)"
  shows "\<exists>x. posts d [x] d' \<and> count_row doc eid eno l x \<and> lg_lot_id x = cs_lot_id s \<and> lg_delta x = q"
proof -
  let ?q = "count_request doc l eid eno t tr sub s q"
  have key: "adjust_key ?q (cs_lot_id s) \<notin> ledger_key ` set (t_ledger d)"
    using new by (auto simp: adjust_key_def ledger_key_def)
  have zero: "aq_delta ?q \<noteq> 0 \<or> meta_bool (aq_meta ?q) ''allow_zero_delta_ledger''"
    using q count_line_meta_zero [of doc l eid] by auto
  obtain c where c: "adjust_prep now ?q d = Inr (Some c)" "cx_lot_id c = cs_lot_id s"
    "posts d [adjust_row ?q c (slot_qty d (adjust_slot ?q (cs_lot_id s))) (t_next_id d STOCK_LEDGER)] d'"
    by (rule adjust_lot_booked [OF run warehouse_invD(2) [OF inv] zero _ key]) simp
  note pr = adjust_prep_Some [OF c(1)]
  have "cx_ref_line c = cl_line_no l" "cx_event_id c = Some eid"
    using pr(3,5) count_line_meta_event [OF eid] by simp_all
  moreover have "ledger_slot (adjust_row ?q c b n) = (cd_warehouse_id doc, cl_item_id l, cs_lot_id s)" for b n
    by (simp add: adjust_slot_def c(2))
  ultimately show ?thesis using c(3)
    by (intro exI [of _ "adjust_row ?q c (slot_qty d (adjust_slot ?q (cs_lot_id s))) (t_next_id d STOCK_LEDGER)"])
      (simp add: count_row_def reason_val_def ledger_slot_def)
qed

text \<open>What an adjustment of a line leaves behind.\<close>

definition count_posts :: "count_doc \<Rightarrow> int \<Rightarrow> string \<Rightarrow> count_line \<Rightarrow> int \<Rightarrow> nat \<Rightarrow> db \<Rightarrow> db \<Rightarrow> bool" where
  "count_posts doc eid eno l q n d d' \<longleftrightarrow> warehouse_inv d' \<and> rest_of d' = rest_of d \<and>
     (\<exists>rows. posts d rows d' \<and> (\<forall>r \<in> set rows. count_row doc eid eno l r) \<and>
        sum_list (map lg_delta rows) = q \<and> length rows = n)"

lemma count_posts_nil: "warehouse_inv d \<Longrightarrow> count_posts doc eid eno l 0 0 d d"
  by (auto simp: count_posts_def posting.traced_nil intro!: exI [of _ "[]"])

lemma count_posts_trans:
  assumes "count_posts doc eid eno l q n d e" and "count_posts doc eid eno l q' n' e f"
  shows "count_posts doc eid eno l (q + q') (n + n') d f"
proof -
  from assms obtain xs ys where
    "posts d xs e" "\<forall>r \<in> set xs. count_row doc eid eno l r" "sum_list (map lg_delta xs) = q" "length xs = n"
    "posts e ys f" "\<forall>r \<in> set ys. count_row doc eid eno l r" "sum_list (map lg_delta ys) = q'" "length ys = n'"
    by (auto simp: count_posts_def)
  with posting.traced_app [of d xs e ys f] assms show ?thesis
    unfolding count_posts_def by (intro conjI exI [of _ "xs @ ys"]) auto
qed

lemma count_posts_one:
  assumes "adjust_lot now (count_request doc l eid eno t tr sub s q) d = Inr (out, d')"
    and "warehouse_inv d" and "0 < eid" and "q \<noteq> 0 \<or> sub = ''COUNT_CONFIRM''"
    and "\<forall>x \<in> set (t_ledger d). \<not> (lg_ref x = eno \<and> lg_ref_line x = cl_line_no l \<and> lg_lot_id x = cs_lot_id s)"
  shows "count_posts doc eid eno l q 1 d d' \<and>
    (\<exists>x. t_ledger d' = t_ledger d @ [x] \<and> lg_lot_id x = cs_lot_id s)"
proof -
  from count_adjust_step [OF assms] obtain x where
    x: "posts d [x] d'" "count_row doc eid eno l x" "lg_lot_id x = cs_lot_id s" "lg_delta x = q" by blast
  have "warehouse_inv d'" by (rule adjust_lot_warehouse_inv [OF assms(1,2)])
  moreover have "rest_of d' = rest_of d" by (rule adjust_lot_rest [OF assms(1)])
  moreover have "t_ledger d' = t_ledger d @ [x]"
    by (rule posts_ledger [OF x(1) warehouse_invD(2) [OF assms(2)]])
  ultimately show ?thesis using x unfolding count_posts_def
    by (intro conjI exI [of _ "[x]"] exI [of _ x]) auto
qed

lemma consume_snapshots_Inr:
  assumes "consume_snapshots now (count_request doc l eid eno t tr sub) rem ss d = Inr ((rest, n), d')"
    and "warehouse_inv d" and "0 < eid" and "0 \<le> rem" and "distinct (map cs_lot_id ss)"
    and "\<forall>x \<in> set (t_ledger d). lg_ref x = eno \<and> lg_ref_line x = cl_line_no l \<longrightarrow>
      lg_lot_id x \<notin> cs_lot_id ` set ss"
  shows "count_posts doc eid eno l (rest - rem) n d d' \<and>
    rest = max 0 (rem - (\<Sum>s \<leftarrow> ss. max 0 (cs_snapshot_qty_base s)))"
  using assms
proof (induction ss arbitrary: rem d n)
  case Nil
  then show ?case by (simp add: count_posts_nil)
next
  case (Cons s ss)
  have nn: "0 \<le> (\<Sum>s \<leftarrow> ss. max 0 (cs_snapshot_qty_base s))" by (rule sum_list_nonneg) auto
  consider "rem = 0" | "0 < rem" "cs_snapshot_qty_base s \<le> 0" | "0 < rem" "0 < cs_snapshot_qty_base s"
    using Cons.prems(4) by linarith
  then show ?case
  proof cases
    case 1
    with Cons.prems nn show ?thesis by (simp add: count_posts_nil)
  next
    case 2
    with Cons show ?thesis by simp
  next
    case 3
    let ?c = "min rem (cs_snapshot_qty_base s)"
    from 3 Cons.prems(1) obtain out d1 m where
      r: "adjust_lot now (count_request doc l eid eno t tr sub s (- ?c)) d = Inr (out, d1)"
        "consume_snapshots now (count_request doc l eid eno t tr sub) (rem - ?c) ss d1 = Inr ((rest, m), d')"
        "n = m + 1"
      by (auto simp: res_simps Let_def)
    have c: "- ?c \<noteq> 0 \<or> sub = ''COUNT_CONFIRM''" using 3 by auto
    have new: "\<forall>x \<in> set (t_ledger d). \<not> (lg_ref x = eno \<and> lg_ref_line x = cl_line_no l \<and> lg_lot_id x = cs_lot_id s)"
      using Cons.prems(6) by auto
    note one = count_posts_one [OF r(1) Cons.prems(2,3) c new]
    then obtain x where x: "t_ledger d1 = t_ledger d @ [x]" "lg_lot_id x = cs_lot_id s" by blast
    have inv1: "warehouse_inv d1" using one by (simp add: count_posts_def)
    have free: "\<forall>x \<in> set (t_ledger d1). lg_ref x = eno \<and> lg_ref_line x = cl_line_no l \<longrightarrow>
      lg_lot_id x \<notin> cs_lot_id ` set ss"
      using Cons.prems(5,6) x by auto
    have "0 \<le> rem - ?c" by simp
    from Cons.IH [OF r(2) inv1 Cons.prems(3) this _ free] Cons.prems(5)
    have ih: "count_posts doc eid eno l (rest - (rem - ?c)) m d1 d'"
      "rest = max 0 (rem - ?c - (\<Sum>s \<leftarrow> ss. max 0 (cs_snapshot_qty_base s)))" by auto
    have "count_posts doc eid eno l (- ?c + (rest - (rem - ?c))) (1 + m) d d'"
      by (rule count_posts_trans [OF _ ih(1)]) (use one in blast)
    then have "count_posts doc eid eno l (rest - rem) n d d'" by (simp add: r(3) algebra_simps)
    moreover have "rest = max 0 (rem - (\<Sum>s \<leftarrow> s # ss. max 0 (cs_snapshot_qty_base s)))"
      using ih(2) 3 nn by (simp add: min_def max_def)
    ultimately show ?thesis by blast
  qed
qed

definition line_diff :: "count_line \<Rightarrow> int" where
  "line_diff l = (case cl_diff_qty_base l of None \<Rightarrow> 0 | Some n \<Rightarrow> n)"

lemma sorted_lot_snapshots_set:
  "set (sorted_lot_snapshots ss) = set ss" "length (sorted_lot_snapshots ss) = length ss"
  "distinct (map cs_lot_id (sorted_lot_snapshots ss)) = distinct (map cs_lot_id ss)"
  "(\<Sum>s \<leftarrow> sorted_lot_snapshots ss. f s) = (\<Sum>s \<leftarrow> ss. f s :: int)"
  by (simp_all add: sorted_lot_snapshots_def distinct_map)

lemma post_line_diff_Inr:
  assumes run: "post_line_diff doc eid eno t tr l d = Inr (n, d')"
    and inv: "warehouse_inv d" and eid: "0 < eid"
    and dist: "distinct (map cs_lot_id (filter (\<lambda>s. cs_line_id s = cl_id l) (t_count_snapshots d)))"
    and new: "\<forall>x \<in> set (t_ledger d). \<not> (lg_ref x = eno \<and> lg_ref_line x = cl_line_no l)"
  shows "count_posts doc eid eno l (line_diff l) n d d'"
proof -
  let ?req = "count_request doc l eid eno t tr"
  let ?ss = "get_line_lot_snapshots d (cl_id l)"
  from run obtain target rest where ss: "?ss = target # rest"
    by (auto simp: post_line_diff_def Let_def split: list.splits)
  consider "line_diff l = 0" | "0 < line_diff l" | "line_diff l < 0" by linarith
  then show ?thesis
  proof cases
    case 1
    with run ss obtain out where
      "adjust_lot t (?req ''COUNT_CONFIRM'' target 0) d = Inr (out, d')" "n = 1"
      by (auto simp: post_line_diff_def Let_def res_simps line_diff_def [symmetric])
    with count_posts_one [OF this(1) inv eid] new 1 show ?thesis by auto
  next
    case 2
    with run ss obtain out where
      "adjust_lot t (?req ''COUNT_ADJUST'' target (line_diff l)) d = Inr (out, d')" "n = 1"
      by (auto simp: post_line_diff_def Let_def res_simps line_diff_def [symmetric])
    with count_posts_one [OF this(1) inv eid] new 2 show ?thesis by auto
  next
    case 3
    with run ss have c: "consume_snapshots t (?req ''COUNT_ADJUST'') (- line_diff l) ?ss d = Inr ((0, n), d')"
      by (auto simp: post_line_diff_def Let_def res_simps line_diff_def [symmetric])
    have "distinct (map cs_lot_id ?ss)"
      using dist by (simp add: get_line_lot_snapshots_def sorted_lot_snapshots_set)
    with consume_snapshots_Inr [OF c inv eid] new 3 show ?thesis by auto
  qed
qed

text \<open>The loop over the lines of a document.\<close>

lemma post_lines_Inr:
  "mapE (post_line_diff doc eid eno t tr) ls d = Inr (ns, d') \<Longrightarrow> warehouse_inv d \<Longrightarrow> 0 < eid \<Longrightarrow>
   distinct (map cl_line_no ls) \<Longrightarrow>
   \<forall>l \<in> set ls. distinct (map cs_lot_id (filter (\<lambda>s. cs_line_id s = cl_id l) (t_count_snapshots d))) \<Longrightarrow>
   \<forall>x \<in> set (t_ledger d). lg_ref x = eno \<longrightarrow> lg_ref_line x \<notin> cl_line_no ` set ls \<Longrightarrow>
   warehouse_inv d' \<and> rest_of d' = rest_of d \<and>
   (\<exists>rows. posts d rows d' \<and>
      (\<forall>r \<in> set rows. \<exists>l \<in> set ls. count_row doc eid eno l r) \<and>
      (\<forall>i. item_rows (cd_warehouse_id doc) i rows = (\<Sum>l \<leftarrow> ls. if cl_item_id l = i then line_diff l else 0)))"
proof (induction ls arbitrary: d ns)
  case Nil
  then show ?case by (auto intro: posting.traced_nil exI [of _ "[]"])
next
  case (Cons l ls)
  from Cons.prems(1) obtain n d1 ms where
    1: "post_line_diff doc eid eno t tr l d = Inr (n, d1)" and
    2: "mapE (post_line_diff doc eid eno t tr) ls d1 = Inr (ms, d')"
    by (auto simp: res_simps simp del: mapE.simps)
  have "count_posts doc eid eno l (line_diff l) n d d1"
    by (rule post_line_diff_Inr [OF 1 Cons.prems(2,3)]) (use Cons.prems(5,6) in auto)
  then obtain rs where r: "warehouse_inv d1" "rest_of d1 = rest_of d" "posts d rs d1"
    "\<forall>r \<in> set rs. count_row doc eid eno l r" "sum_list (map lg_delta rs) = line_diff l"
    by (auto simp: count_posts_def)
  have led: "t_ledger d1 = t_ledger d @ rs" by (rule posts_ledger [OF r(3) warehouse_invD(2) [OF Cons.prems(2)]])
  have free: "\<forall>x \<in> set (t_ledger d1). lg_ref x = eno \<longrightarrow> lg_ref_line x \<notin> cl_line_no ` set ls"
    using Cons.prems(4,6) r(4) led by (auto simp: count_row_def)
  have snaps: "t_count_snapshots d1 = t_count_snapshots d" by (rule rest_ofD [OF r(2)])
  have dist: "\<forall>l \<in> set ls. distinct (map cs_lot_id (filter (\<lambda>s. cs_line_id s = cl_id l) (t_count_snapshots d1)))"
    using Cons.prems(5) unfolding snaps by simp
  have dn: "distinct (map cl_line_no ls)" using Cons.prems(4) by simp
  from Cons.IH [OF 2 r(1) Cons.prems(3) dn dist free] obtain rows where
    i: "warehouse_inv d'" "rest_of d' = rest_of d1" "posts d1 rows d'"
      "\<forall>r \<in> set rows. \<exists>l \<in> set ls. count_row doc eid eno l r"
      "\<forall>i. item_rows (cd_warehouse_id doc) i rows = (\<Sum>l \<leftarrow> ls. if cl_item_id l = i then line_diff l else 0)"
    by blast
  have "item_rows (cd_warehouse_id doc) i rs = (if cl_item_id l = i then line_diff l else 0)" for i
    using r(4) unfolding r(5) [symmetric] by (induction rs) (auto simp: count_row_def)
  then have "\<forall>i. item_rows (cd_warehouse_id doc) i (rs @ rows) =
      (\<Sum>l \<leftarrow> l # ls. if cl_item_id l = i then line_diff l else 0)" using i(5) by simp
  moreover have "posts d (rs @ rows) d'" by (rule posting.traced_app [OF r(3) i(3)])
  moreover have "\<forall>r \<in> set (rs @ rows). \<exists>l \<in> set (l # ls). count_row doc eid eno l r" using r(4) i(4) by auto
  ultimately show ?case using i(1,2) r(2) by metis
qed

end
