(* ===== verification/CountTables.thy ===== *)
theory CountTables
  imports CountRuns
begin

text \<open>
  The invariant of the count tables and what each operation of \<open>count_doc_service.py\<close> does to
  them: freezing (one line per item in stock, snapshots that add up to it), entering counts,
  posting, voiding, and the moves between the states of a document.
\<close>

section \<open>The invariant of the count tables\<close>

definition is_active :: "count_doc \<Rightarrow> bool" where
  "is_active c \<longleftrightarrow> cd_status c \<in> set active_count_statuses"

definition line_snapshots :: "db \<Rightarrow> int \<Rightarrow> count_snapshot list" where
  "line_snapshots d n = filter (\<lambda>s. cs_line_id s = n) (t_count_snapshots d)"

definition count_docs_inv :: "db \<Rightarrow> bool" where
  "count_docs_inv d \<longleftrightarrow> distinct (map cd_id (t_count_docs d)) \<and>
     (\<forall>c \<in> set (t_count_docs d). cd_id c < t_next_id d COUNT_DOCS \<and>
        cd_status c \<in> set count_statuses \<and>
        (cd_status c = ''POSTED'' \<longrightarrow> cd_posted_event_id c \<noteq> None \<and> cd_posted_at c \<noteq> None)) \<and>
     distinct (map cd_warehouse_id (filter is_active (t_count_docs d)))"

definition count_lines_inv :: "db \<Rightarrow> bool" where
  "count_lines_inv d \<longleftrightarrow> distinct (map cl_id (t_count_lines d)) \<and>
     distinct (map (\<lambda>l. (cl_doc_id l, cl_line_no l)) (t_count_lines d)) \<and>
     distinct (map (\<lambda>l. (cl_doc_id l, cl_item_id l)) (t_count_lines d)) \<and>
     (\<forall>l \<in> set (t_count_lines d). cl_id l < t_next_id d COUNT_DOC_LINES \<and> count_line_checks l)"

definition count_snapshots_inv :: "db \<Rightarrow> bool" where
  "count_snapshots_inv d \<longleftrightarrow> distinct (map (\<lambda>s. (cs_line_id s, cs_lot_id s)) (t_count_snapshots d)) \<and>
     (\<forall>s \<in> set (t_count_snapshots d). 0 < cs_snapshot_qty_base s \<and>
        cs_line_id s \<in> cl_id ` set (t_count_lines d)) \<and>
     (\<forall>l \<in> set (t_count_lines d).
        sum_list (map cs_snapshot_qty_base (line_snapshots d (cl_id l))) = cl_snapshot_qty_base l)"

text \<open>A counted document has a count for every line.\<close>

definition counted_inv :: "db \<Rightarrow> bool" where
  "counted_inv d \<longleftrightarrow> (\<forall>c \<in> set (t_count_docs d). cd_status c = ''COUNTED'' \<longrightarrow> all_counted d (cd_id c))"

definition count_inv :: "db \<Rightarrow> bool" where
  "count_inv d \<longleftrightarrow> count_docs_inv d \<and> count_lines_inv d \<and> count_snapshots_inv d \<and> counted_inv d"

lemma count_inv_cong:
  assumes "t_count_docs d' = t_count_docs d" and "t_count_lines d' = t_count_lines d"
    and "t_count_snapshots d' = t_count_snapshots d"
    and "t_next_id d' COUNT_DOCS = t_next_id d COUNT_DOCS"
    and "t_next_id d' COUNT_DOC_LINES = t_next_id d COUNT_DOC_LINES"
  shows "count_inv d' = count_inv d"
  unfolding count_inv_def count_docs_inv_def count_lines_inv_def count_snapshots_inv_def counted_inv_def
    line_snapshots_def all_counted_def doc_count_lines_def assms ..

lemma count_inv_line_lots:
  assumes "count_inv d"
  shows "distinct (map cs_lot_id (filter (\<lambda>s. cs_line_id s = n) (t_count_snapshots d)))"
proof -
  have "distinct (map (\<lambda>s. (cs_line_id s, cs_lot_id s)) (t_count_snapshots d))"
    using assms by (simp add: count_inv_def count_snapshots_inv_def)
  then show ?thesis by (induction "t_count_snapshots d" rule: list.induct) (auto simp: distinct_map inj_on_def)
qed

lemma count_inv_doc_lines:
  assumes "count_inv d"
  shows "distinct (map cl_line_no (doc_count_lines d n))" "distinct (map cl_item_id (doc_count_lines d n))"
proof -
  have "distinct (map (\<lambda>l. (cl_doc_id l, cl_line_no l)) (t_count_lines d))"
    "distinct (map (\<lambda>l. (cl_doc_id l, cl_item_id l)) (t_count_lines d))"
    using assms by (simp_all add: count_inv_def count_lines_inv_def)
  then show "distinct (map cl_line_no (doc_count_lines d n))" "distinct (map cl_item_id (doc_count_lines d n))"
    by (auto simp: doc_count_lines_def distinct_map inj_on_def)
qed

section \<open>What an operation on the documents leaves alone\<close>

definition count_frame :: "db \<Rightarrow> db \<Rightarrow> bool" where
  "count_frame d d' \<longleftrightarrow> t_lots d' = t_lots d \<and> t_items d' = t_items d \<and> t_item_uoms d' = t_item_uoms d \<and>
     t_stocks d' = t_stocks d \<and>
     t_ledger d' = t_ledger d \<and> t_events d' = t_events d \<and> t_inbound_lines d' = t_inbound_lines d \<and>
     t_outbound_lines d' = t_outbound_lines d \<and>
     (\<forall>t \<in> {LOTS, STOCKS_LOT, STOCK_LEDGER, WMS_EVENTS}. t_next_id d' t = t_next_id d t)"

interpretation count_frame: evolution count_frame
  by standard (auto simp: count_frame_def)

lemma count_frame_inv: "count_frame d d' \<Longrightarrow> warehouse_inv d' = warehouse_inv d"
  by (rule warehouse_inv_cong) (simp_all add: count_frame_def)

lemma insert_count_line_Inr:
  assumes "insert_count_line n x d = Inr d'"
  shows "count_frame d d'" "t_count_docs d' = t_count_docs d" "t_count_snapshots d' = t_count_snapshots d"
    "t_next_id d' COUNT_DOCS = t_next_id d COUNT_DOCS" "count_lines_inv d \<Longrightarrow> count_lines_inv d'"
    "t_next_id d' COUNT_DOC_LINES = t_next_id d COUNT_DOC_LINES + 1"
    "\<exists>l. t_count_lines d' = t_count_lines d @ [l] \<and> cl_doc_id l = n \<and> cl_counted_qty_base l = None \<and>
       cl_id l = t_next_id d COUNT_DOC_LINES \<and> int4 (cl_snapshot_qty_base l) \<and>
       (cl_line_no l, cl_item_id l, cl_snapshot_qty_base l) = (fst x, fst (snd x), snd (snd (snd x)))"
proof -
  obtain k i it q where x: "x = (k, i, it, q)" by (cases x)
  note run = assms [unfolded insert_count_line_def x prod.case next_id_def Let_def]
  show "count_frame d d'" "t_count_docs d' = t_count_docs d" "t_count_snapshots d' = t_count_snapshots d"
    "t_next_id d' COUNT_DOCS = t_next_id d COUNT_DOCS"
    "t_next_id d' COUNT_DOC_LINES = t_next_id d COUNT_DOC_LINES + 1"
    using run by (auto simp: count_frame_def split: if_splits)
  show "\<exists>l. t_count_lines d' = t_count_lines d @ [l] \<and> cl_doc_id l = n \<and> cl_counted_qty_base l = None \<and>
       cl_id l = t_next_id d COUNT_DOC_LINES \<and> int4 (cl_snapshot_qty_base l) \<and>
       (cl_line_no l, cl_item_id l, cl_snapshot_qty_base l) = (fst x, fst (snd x), snd (snd (snd x)))"
    using run by (auto simp: x split: if_splits)
  show "count_lines_inv d'" if "count_lines_inv d"
    using run that by (fastforce simp: count_lines_inv_def split: if_splits)
qed

lemma insert_count_snapshot_Inr:
  assumes "insert_count_snapshot x d = Inr d'"
  shows "count_frame d d'" "t_count_docs d' = t_count_docs d" "t_count_lines d' = t_count_lines d"
    "t_next_id d' COUNT_DOCS = t_next_id d COUNT_DOCS"
    "t_next_id d' COUNT_DOC_LINES = t_next_id d COUNT_DOC_LINES"
    "\<exists>s. t_count_snapshots d' = t_count_snapshots d @ [s] \<and>
       (cs_line_id s, cs_lot_id s) \<notin> (\<lambda>s. (cs_line_id s, cs_lot_id s)) ` set (t_count_snapshots d) \<and>
       (cs_line_id s, cs_lot_id s, cs_lot_code_snapshot s, cs_snapshot_qty_base s) = x"
proof -
  obtain n lid code q where x: "x = (n, lid, code, q)" by (cases x)
  note run = assms [unfolded insert_count_snapshot_def x prod.case next_id_def Let_def]
  show "count_frame d d'" "t_count_docs d' = t_count_docs d" "t_count_lines d' = t_count_lines d"
    "t_next_id d' COUNT_DOCS = t_next_id d COUNT_DOCS"
    "t_next_id d' COUNT_DOC_LINES = t_next_id d COUNT_DOC_LINES"
    using run by (auto simp: count_frame_def split: if_splits)
  show "\<exists>s. t_count_snapshots d' = t_count_snapshots d @ [s] \<and>
       (cs_line_id s, cs_lot_id s) \<notin> (\<lambda>s. (cs_line_id s, cs_lot_id s)) ` set (t_count_snapshots d) \<and>
       (cs_line_id s, cs_lot_id s, cs_lot_code_snapshot s, cs_snapshot_qty_base s) = x"
    using run by (auto simp: x split: if_splits)
qed

section \<open>Freezing\<close>

text \<open>The loop that writes the lines.\<close>

definition line_view :: "count_line \<Rightarrow> int \<times> int \<times> int" where
  "line_view l = (cl_line_no l, cl_item_id l, cl_snapshot_qty_base l)"

lemma insert_lines:
  "foldE (insert_count_line n) xs d = Inr d' \<Longrightarrow> count_lines_inv d \<Longrightarrow>
   count_frame d d' \<and> count_lines_inv d' \<and> t_count_docs d' = t_count_docs d \<and>
   t_count_snapshots d' = t_count_snapshots d \<and> t_next_id d' COUNT_DOCS = t_next_id d COUNT_DOCS \<and>
   t_next_id d COUNT_DOC_LINES \<le> t_next_id d' COUNT_DOC_LINES \<and>
   (\<exists>ls. t_count_lines d' = t_count_lines d @ ls \<and>
      map line_view ls = map (\<lambda>(k, i, it, q). (k, i, q)) xs \<and>
      (\<forall>l \<in> set ls. cl_doc_id l = n \<and> cl_counted_qty_base l = None \<and> t_next_id d COUNT_DOC_LINES \<le> cl_id l))"
proof (induction xs arbitrary: d)
  case Nil
  then show ?case by (auto simp: count_frame.evo_refl)
next
  case (Cons x xs)
  from Cons.prems(1) obtain d1 where r: "insert_count_line n x d = Inr d1"
    "foldE (insert_count_line n) xs d1 = Inr d'" by (auto simp: bindE_eq_Inr)
  note i = insert_count_line_Inr [OF r(1)]
  from i(7) obtain l where l: "t_count_lines d1 = t_count_lines d @ [l]" "cl_doc_id l = n"
    "cl_counted_qty_base l = None" "cl_id l = t_next_id d COUNT_DOC_LINES"
    "line_view l = (case x of (k, i, it, q) \<Rightarrow> (k, i, q))"
    by (cases x) (auto simp: line_view_def)
  from Cons.IH [OF r(2) i(5) [OF Cons.prems(2)]] obtain ls where
    h: "count_frame d1 d'" "count_lines_inv d'" "t_count_docs d' = t_count_docs d1"
      "t_count_snapshots d' = t_count_snapshots d1" "t_next_id d' COUNT_DOCS = t_next_id d1 COUNT_DOCS"
      "t_next_id d1 COUNT_DOC_LINES \<le> t_next_id d' COUNT_DOC_LINES"
      "t_count_lines d' = t_count_lines d1 @ ls" "map line_view ls = map (\<lambda>(k, i, it, q). (k, i, q)) xs"
      "\<forall>l \<in> set ls. cl_doc_id l = n \<and> cl_counted_qty_base l = None \<and> t_next_id d1 COUNT_DOC_LINES \<le> cl_id l"
    by blast
  have "\<forall>l' \<in> set (l # ls). cl_doc_id l' = n \<and> cl_counted_qty_base l' = None \<and> t_next_id d COUNT_DOC_LINES \<le> cl_id l'"
    using l h(9) i(6) by auto
  moreover have "t_count_lines d' = t_count_lines d @ l # ls" using h(7) l(1) by simp
  moreover have "map line_view (l # ls) = map (\<lambda>(k, i, it, q). (k, i, q)) (x # xs)" using h(8) l(5) by simp
  ultimately show ?case
    using h(2-6) i(2-4,6) count_frame.evo_trans [OF i(1) h(1)] by (intro conjI exI [of _ "l # ls"]) simp_all
qed

text \<open>The loop that writes the lot snapshots.\<close>

definition snapshot_view :: "count_snapshot \<Rightarrow> int \<times> int \<times> string option \<times> int" where
  "snapshot_view s = (cs_line_id s, cs_lot_id s, cs_lot_code_snapshot s, cs_snapshot_qty_base s)"

abbreviation snapshot_keys :: "db \<Rightarrow> (int \<times> int) list" where
  "snapshot_keys d \<equiv> map (\<lambda>s. (cs_line_id s, cs_lot_id s)) (t_count_snapshots d)"

lemma insert_snapshots:
  "foldE insert_count_snapshot xs d = Inr d' \<Longrightarrow> distinct (snapshot_keys d) \<Longrightarrow>
   count_frame d d' \<and> distinct (snapshot_keys d') \<and> t_count_docs d' = t_count_docs d \<and>
   t_count_lines d' = t_count_lines d \<and> t_next_id d' COUNT_DOCS = t_next_id d COUNT_DOCS \<and>
   t_next_id d' COUNT_DOC_LINES = t_next_id d COUNT_DOC_LINES \<and>
   (\<exists>ss. t_count_snapshots d' = t_count_snapshots d @ ss \<and> map snapshot_view ss = xs)"
proof (induction xs arbitrary: d)
  case Nil
  then show ?case by (auto simp: count_frame.evo_refl)
next
  case (Cons x xs)
  from Cons.prems(1) obtain d1 where r: "insert_count_snapshot x d = Inr d1"
    "foldE insert_count_snapshot xs d1 = Inr d'" by (auto simp: bindE_eq_Inr)
  note i = insert_count_snapshot_Inr [OF r(1)]
  from i(6) obtain s where s: "t_count_snapshots d1 = t_count_snapshots d @ [s]"
    "(cs_line_id s, cs_lot_id s) \<notin> set (snapshot_keys d)" "snapshot_view s = x"
    by (auto simp: snapshot_view_def)
  with Cons.prems(2) have "distinct (snapshot_keys d1)" by auto
  from Cons.IH [OF r(2) this] obtain ss where
    h: "count_frame d1 d'" "distinct (snapshot_keys d')" "t_count_docs d' = t_count_docs d1"
      "t_count_lines d' = t_count_lines d1" "t_next_id d' COUNT_DOCS = t_next_id d1 COUNT_DOCS"
      "t_next_id d' COUNT_DOC_LINES = t_next_id d1 COUNT_DOC_LINES"
      "t_count_snapshots d' = t_count_snapshots d1 @ ss" "map snapshot_view ss = xs" by blast
  then show ?case using i(2-5) s count_frame.evo_trans [OF i(1) h(1)]
    by (intro conjI exI [of _ "s # ss"]) simp_all
qed

text \<open>What the two queries of the freeze select.\<close>

lemma sum_map_filter:
  "(\<And>x. x \<in> set xs \<Longrightarrow> (case f x of None \<Rightarrow> 0 | Some y \<Rightarrow> g y) = h x) \<Longrightarrow>
   sum_list (map g (List.map_filter f xs)) = (\<Sum>x \<leftarrow> xs. h x :: int)"
proof (induction xs)
  case (Cons x xs)
  have "(case f x of None \<Rightarrow> 0 | Some y \<Rightarrow> g y) = h x" by (rule Cons.prems) simp
  moreover have "sum_list (map g (List.map_filter f xs)) = sum_list (map h xs)"
    by (rule Cons.IH) (simp add: Cons.prems)
  ultimately show ?case by (cases "f x") (simp_all add: List.map_filter_simps)
qed (simp add: List.map_filter_simps)

lemma in_map_filter: "y \<in> set (List.map_filter f xs) \<longleftrightarrow> (\<exists>x \<in> set xs. f x = Some y)"
  by (induction xs) (auto simp: List.map_filter_simps split: option.splits)

lemma freeze_snapshot_rows_sum:
  assumes "book_inv d"
  shows "(\<Sum>(n, lid, code, q) \<leftarrow> freeze_snapshot_rows d w l. q) = get_available_for_item d w (cl_item_id l)"
  unfolding freeze_snapshot_rows_def get_available_for_item_def
proof (subst sum_map_filter)
  show "(case if sl_item_id s = cl_item_id l \<and> sl_warehouse_id s = w \<and> 0 < sl_qty s
         then map_option (\<lambda>lo. (cl_id l, sl_lot_id s, lot_code lo, sl_qty s)) (find_lot d (sl_lot_id s)) else None of
        None \<Rightarrow> 0 | Some y \<Rightarrow> case y of (n, lid, code, q) \<Rightarrow> q) =
      (if sl_item_id s = cl_item_id l \<and> sl_warehouse_id s = w then sl_qty s else 0)" if "s \<in> set (t_stocks d)" for s
    using book_invD(5,8) [OF assms that] by (auto simp: lot_at_def)
qed (simp add: sum_where_eq)

lemma freeze_snapshot_rows_in:
  "(n, lid, code, q) \<in> set (freeze_snapshot_rows d w l) \<Longrightarrow> n = cl_id l \<and> 0 < q"
  by (auto simp: freeze_snapshot_rows_def in_map_filter split: if_splits)

lemma freeze_rows_in:
  "(i, it, q) \<in> set (freeze_rows d w) \<Longrightarrow> 0 < q \<and> q = get_available_for_item d w i"
  by (auto simp: freeze_rows_def in_map_filter Let_def split: if_splits)

lemma freeze_rows_all:
  assumes "warehouse_inv d" and "0 < get_available_for_item d w i"
  shows "\<exists>it. (i, it, get_available_for_item d w i) \<in> set (freeze_rows d w)"
proof -
  have "\<exists>s \<in> set (t_stocks d). sl_item_id s = i \<and> sl_warehouse_id s = w"
    using assms(2) sum_where_none [of "t_stocks d" "\<lambda>s. sl_item_id s = i \<and> sl_warehouse_id s = w" sl_qty]
    by (auto simp: get_available_for_item_def)
  then obtain s where s: "s \<in> set (t_stocks d)" "sl_item_id s = i" "sl_warehouse_id s = w" by blast
  have "lot_at d w i (sl_lot_id s)"
    using book_invD(8) [OF warehouse_invD(2) [OF assms(1)] s(1)] s by simp
  then obtain l where "l \<in> set (t_lots d)" "lot_item_id l = i"
    by (auto simp: lot_at_def find_lot_def dest: find_SomeD)
  then have "i \<in> it_id ` set (t_items d)" using lots_invD(6) [OF warehouse_invD(1) [OF assms(1)]] by auto
  then obtain it where "find_item (t_items d) i = Some it"
    by (auto simp: find_item_def find_None_iff_all dest: option.exhaust_sel)
      (metis (mono_tags, lifting) find_None_iff_all imageE not_Some_eq)
  then show ?thesis using assms(2) s by (auto simp: freeze_rows_def in_map_filter Let_def intro!: bexI [of _ i])
qed

lemma filter_concat_key:
  assumes "distinct (map key ls)" and "\<And>l r. l \<in> set ls \<Longrightarrow> r \<in> set (rows l) \<Longrightarrow> k r = key l" and "l \<in> set ls"
  shows "filter (\<lambda>r. k r = key l) (concat (map rows ls)) = rows l"
proof -
  have none: "filter (\<lambda>r. k r = key l) (concat (map rows ys)) = []"
    if "set ys \<subseteq> set ls" "key l \<notin> key ` set ys" for ys
    unfolding filter_empty_conv
  proof
    fix r assume "r \<in> set (concat (map rows ys))"
    then obtain y where y: "y \<in> set ys" "r \<in> set (rows y)" by auto
    with that(1) have "k r = key y" by (intro assms(2)) auto
    with y(1) that(2) show "k r \<noteq> key l" by (auto simp: image_iff)
  qed
  from assms(3) obtain as bs where ls: "ls = as @ l # bs" by (auto simp: in_set_conv_decomp)
  have "filter (\<lambda>r. k r = key l) (rows l) = rows l" using assms(2,3) by (simp add: filter_id_conv)
  moreover have "filter (\<lambda>r. k r = key l) (concat (map rows as)) = []"
    "filter (\<lambda>r. k r = key l) (concat (map rows bs)) = []"
    using assms(1) by (auto simp: ls intro!: none)
  ultimately show ?thesis by (simp add: ls)
qed

text \<open>A status update of documents.\<close>

lemma active_warehouses_update:
  assumes "distinct (map cd_warehouse_id (filter is_active cs))"
    and "\<And>c. c \<in> set cs \<Longrightarrow> hit c \<Longrightarrow> cd_warehouse_id (upd c) = cd_warehouse_id c \<and> (is_active (upd c) \<longrightarrow> is_active c)"
  shows "distinct (map cd_warehouse_id (filter is_active (update_where hit upd cs))) \<and>
    cd_warehouse_id ` set (filter is_active (update_where hit upd cs)) \<subseteq> cd_warehouse_id ` set (filter is_active cs)"
  using assms
proof (induction cs)
  case (Cons c cs)
  have ih: "distinct (map cd_warehouse_id (filter is_active (update_where hit upd cs)))"
    "cd_warehouse_id ` set (filter is_active (update_where hit upd cs)) \<subseteq> cd_warehouse_id ` set (filter is_active cs)"
    using Cons.IH Cons.prems by (auto split: if_splits)
  let ?c = "if hit c then upd c else c"
  have c: "cd_warehouse_id ?c = cd_warehouse_id c" "is_active ?c \<Longrightarrow> is_active c"
    using Cons.prems(2) [of c] by (auto split: if_splits)
  show ?case
  proof (cases "is_active ?c")
    case True
    then have "cd_warehouse_id c \<notin> cd_warehouse_id ` set (filter is_active (update_where hit upd cs))"
      using Cons.prems(1) c(2) ih(2) by auto
    with True ih c show ?thesis by auto
  next
    case False
    with ih show ?thesis by auto
  qed
qed simp

lemma count_docs_inv_update:
  assumes "count_docs_inv d" and "t_count_docs d' = update_where hit upd (t_count_docs d)"
    and "t_next_id d' COUNT_DOCS = t_next_id d COUNT_DOCS"
    and "\<And>c. hit c \<Longrightarrow> cd_id (upd c) = cd_id c \<and> cd_warehouse_id (upd c) = cd_warehouse_id c"
    and "\<And>c. c \<in> set (t_count_docs d) \<Longrightarrow> hit c \<Longrightarrow> (is_active (upd c) \<longrightarrow> is_active c) \<and>
      cd_status (upd c) \<in> set count_statuses \<and>
      (cd_status (upd c) = ''POSTED'' \<longrightarrow> cd_posted_event_id (upd c) \<noteq> None \<and> cd_posted_at (upd c) \<noteq> None)"
  shows "count_docs_inv d'"
  unfolding count_docs_inv_def assms(2,3)
proof (intro conjI ballI)
  show "distinct (map cd_id (update_where hit upd (t_count_docs d)))"
    using assms(1,4) by (simp add: map_update_where count_docs_inv_def)
  show "distinct (map cd_warehouse_id (filter is_active (update_where hit upd (t_count_docs d))))"
    using active_warehouses_update [of "t_count_docs d" hit upd] assms(1,4,5) by (simp add: count_docs_inv_def)
  fix c assume "c \<in> set (update_where hit upd (t_count_docs d))"
  then obtain c0 where c: "c0 \<in> set (t_count_docs d)" "c = (if hit c0 then upd c0 else c0)"
    by (auto simp: in_set_update_where)
  with assms(1) have old: "cd_id c0 < t_next_id d COUNT_DOCS" "cd_status c0 \<in> set count_statuses"
    "cd_status c0 = ''POSTED'' \<longrightarrow> cd_posted_event_id c0 \<noteq> None \<and> cd_posted_at c0 \<noteq> None"
    by (auto simp: count_docs_inv_def)
  show "cd_id c < t_next_id d COUNT_DOCS" using c(2) old(1) assms(4) [of c0] by auto
  show "cd_status c \<in> set count_statuses"
    "cd_status c = ''POSTED'' \<longrightarrow> cd_posted_event_id c \<noteq> None \<and> cd_posted_at c \<noteq> None"
    using c old(2,3) assms(5) [of c0] by auto
qed

text \<open>Deleting the lines of a document, with their snapshots.\<close>

lemma delete_count_lines_inv:
  assumes "count_inv d"
  shows "count_lines_inv (delete_count_lines n d)" "count_snapshots_inv (delete_count_lines n d)"
    "count_frame d (delete_count_lines n d)" "doc_count_lines (delete_count_lines n d) n = []"
    "t_count_lines (delete_count_lines n d) = filter (\<lambda>l. cl_doc_id l \<noteq> n) (t_count_lines d)"
proof -
  have li: "count_lines_inv d" and si: "count_snapshots_inv d" using assms by (simp_all add: count_inv_def)
  show "count_lines_inv (delete_count_lines n d)"
    using li by (auto simp: count_lines_inv_def delete_count_lines_def distinct_map_filter)
  show "count_frame d (delete_count_lines n d)" by (simp add: count_frame_def delete_count_lines_def)
  show "doc_count_lines (delete_count_lines n d) n = []"
    by (simp add: doc_count_lines_def delete_count_lines_def filter_empty_conv)
  show "t_count_lines (delete_count_lines n d) = filter (\<lambda>l. cl_doc_id l \<noteq> n) (t_count_lines d)"
    by (simp add: delete_count_lines_def)
  have same: "line_snapshots (delete_count_lines n d) (cl_id l) = line_snapshots d (cl_id l)"
    if "l \<in> set (t_count_lines d)" "cl_doc_id l \<noteq> n" for l
  proof -
    have "cl_id l \<notin> cl_id ` set (doc_count_lines d n)"
    proof
      assume "cl_id l \<in> cl_id ` set (doc_count_lines d n)"
      then obtain k where "k \<in> set (t_count_lines d)" "cl_doc_id k = n" "cl_id l = cl_id k"
        by (auto simp: doc_count_lines_def)
      moreover have "inj_on cl_id (set (t_count_lines d))" using li by (simp add: count_lines_inv_def distinct_map)
      ultimately show False using that by (auto dest: inj_onD)
    qed
    then show ?thesis
      by (auto simp: line_snapshots_def delete_count_lines_def intro!: filter_cong) (metis imageI)
  qed
  show "count_snapshots_inv (delete_count_lines n d)"
    unfolding count_snapshots_inv_def
  proof (intro conjI ballI)
    show "distinct (map (\<lambda>s. (cs_line_id s, cs_lot_id s)) (t_count_snapshots (delete_count_lines n d)))"
      using si by (simp add: count_snapshots_inv_def delete_count_lines_def distinct_map_filter)
  next
    fix s assume "s \<in> set (t_count_snapshots (delete_count_lines n d))"
    then have s: "s \<in> set (t_count_snapshots d)" "cs_line_id s \<notin> cl_id ` set (doc_count_lines d n)"
      by (simp_all add: delete_count_lines_def)
    from si s(1) have o: "0 < cs_snapshot_qty_base s" "cs_line_id s \<in> cl_id ` set (t_count_lines d)"
      by (simp_all add: count_snapshots_inv_def)
    show "0 < cs_snapshot_qty_base s" by (rule o)
    from o(2) s(2) show "cs_line_id s \<in> cl_id ` set (t_count_lines (delete_count_lines n d))"
      by (auto simp: delete_count_lines_def doc_count_lines_def)
  next
    fix l assume "l \<in> set (t_count_lines (delete_count_lines n d))"
    then have l: "l \<in> set (t_count_lines d)" "cl_doc_id l \<noteq> n" by (simp_all add: delete_count_lines_def)
    with si show "sum_list (map cs_snapshot_qty_base (line_snapshots (delete_count_lines n d) (cl_id l))) =
        cl_snapshot_qty_base l"
      by (simp add: same count_snapshots_inv_def)
  qed
qed


lemma find_count_doc_in: "find_count_doc d n = Some c \<Longrightarrow> c \<in> set (t_count_docs d) \<and> cd_id c = n"
  by (auto simp: find_count_doc_def dest: find_SomeD)

lemma find_count_doc_unique:
  "count_docs_inv d \<Longrightarrow> c \<in> set (t_count_docs d) \<Longrightarrow> find_count_doc d (cd_id c) = Some c"
  unfolding find_count_doc_def by (rule find_unique_key) (simp_all add: count_docs_inv_def)

text \<open>
  What the freeze writes: a line for every item with stock in the warehouse, with the stock of
  the item as its quantity, and lot snapshots that add up to it.
\<close>

definition lines_of_stock :: "db \<Rightarrow> int \<Rightarrow> count_line list \<Rightarrow> bool" where
  "lines_of_stock d w ls \<longleftrightarrow>
     (\<forall>l \<in> set ls. cl_counted_qty_base l = None \<and> 0 < cl_snapshot_qty_base l \<and>
        cl_snapshot_qty_base l = get_available_for_item d w (cl_item_id l)) \<and>
     (\<forall>i. 0 < get_available_for_item d w i \<longrightarrow> i \<in> cl_item_id ` set ls)"

lemma count_frame_available:
  "count_frame d d' \<Longrightarrow> get_available_for_item d' w i = get_available_for_item d w i"
  by (simp add: count_frame_def get_available_for_item_def)

lemma freeze_tables:
  assumes lines: "foldE (insert_count_line n) (zip (map int [1 ..< length (freeze_rows d0 w) + 1]) (freeze_rows d0 w)) d0 = Inr d1"
    and snaps: "foldE insert_count_snapshot
      (concat (map (freeze_snapshot_rows d1 w) (doc_count_lines d1 n))) d1 = Inr d2"
    and inv: "count_lines_inv d0" "count_snapshots_inv d0" "warehouse_inv d0" "doc_count_lines d0 n = []"
  shows "count_frame d0 d2" "count_lines_inv d2" "count_snapshots_inv d2"
    "t_count_docs d2 = t_count_docs d0" "t_next_id d2 COUNT_DOCS = t_next_id d0 COUNT_DOCS"
    "lines_of_stock d0 w (doc_count_lines d2 n)"
    "m \<noteq> n \<Longrightarrow> doc_count_lines d2 m = doc_count_lines d0 m"
proof -
  from insert_lines [OF lines inv(1)] obtain ls where
    1: "count_frame d0 d1" "count_lines_inv d1" "t_count_docs d1 = t_count_docs d0"
      "t_count_snapshots d1 = t_count_snapshots d0" "t_next_id d1 COUNT_DOCS = t_next_id d0 COUNT_DOCS"
      "t_count_lines d1 = t_count_lines d0 @ ls"
      "map line_view ls = map (\<lambda>(k, i, it, q). (k, i, q))
         (zip (map int [1 ..< length (freeze_rows d0 w) + 1]) (freeze_rows d0 w))"
      "\<forall>l \<in> set ls. cl_doc_id l = n \<and> cl_counted_qty_base l = None \<and> t_next_id d0 COUNT_DOC_LINES \<le> cl_id l"
    by blast
  have inv1: "warehouse_inv d1" using inv(3) count_frame_inv [OF 1(1)] by simp
  have doc: "doc_count_lines d1 n = ls" "m \<noteq> n \<Longrightarrow> doc_count_lines d1 m = doc_count_lines d0 m" for m
    using 1(6,8) inv(4) by (auto simp: doc_count_lines_def filter_id_conv)
  have "distinct (snapshot_keys d1)" using inv(2) 1(4) by (simp add: count_snapshots_inv_def)
  from insert_snapshots [OF snaps this] obtain ss where
    2: "count_frame d1 d2" "distinct (snapshot_keys d2)" "t_count_docs d2 = t_count_docs d1"
      "t_count_lines d2 = t_count_lines d1" "t_next_id d2 COUNT_DOCS = t_next_id d1 COUNT_DOCS"
      "t_next_id d2 COUNT_DOC_LINES = t_next_id d1 COUNT_DOC_LINES"
      "t_count_snapshots d2 = t_count_snapshots d1 @ ss"
      "map snapshot_view ss = concat (map (freeze_snapshot_rows d1 w) ls)" unfolding doc by blast
  show "count_frame d0 d2" by (rule count_frame.evo_trans [OF 1(1) 2(1)])
  show "count_lines_inv d2" using 1(2) 2(4,6) by (simp add: count_lines_inv_def)
  show "t_count_docs d2 = t_count_docs d0" "t_next_id d2 COUNT_DOCS = t_next_id d0 COUNT_DOCS"
    using 1(3,5) 2(3,5) by simp_all
  show "m \<noteq> n \<Longrightarrow> doc_count_lines d2 m = doc_count_lines d0 m"
    using doc(2) [of m] 2(4) by (simp add: doc_count_lines_def)
  have views: "line_view ` set ls = (\<lambda>(k, i, it, q). (k, i, q)) `
      set (zip (map int [1 ..< length (freeze_rows d0 w) + 1]) (freeze_rows d0 w))"
    using arg_cong [OF 1(7), of set] by simp
  have q: "0 < cl_snapshot_qty_base l \<and> cl_snapshot_qty_base l = get_available_for_item d0 w (cl_item_id l)"
    if "l \<in> set ls" for l
  proof -
    from that have "line_view l \<in> line_view ` set ls" by simp
    then obtain it where "(cl_item_id l, it, cl_snapshot_qty_base l) \<in> set (freeze_rows d0 w)"
      unfolding views line_view_def by (auto dest: set_zip_rightD)
    then show ?thesis by (rule freeze_rows_in)
  qed
  have lines2: "doc_count_lines d2 n = ls" using doc(1) 2(4) by (simp add: doc_count_lines_def)
  have all: "i \<in> cl_item_id ` set ls" if "0 < get_available_for_item d0 w i" for i
  proof -
    from freeze_rows_all [OF inv(3) that] obtain it where
      "(i, it, get_available_for_item d0 w i) \<in> set (freeze_rows d0 w)" by blast
    then obtain j where "j < length (freeze_rows d0 w)" "freeze_rows d0 w ! j = (i, it, get_available_for_item d0 w i)"
      by (auto simp: in_set_conv_nth)
    then have "(int (Suc j), i, it, get_available_for_item d0 w i) \<in>
        set (zip (map int [1 ..< length (freeze_rows d0 w) + 1]) (freeze_rows d0 w))"
      by (auto simp: in_set_zip simp del: upt_Suc intro!: exI [of _ j])
    then have "(int (Suc j), i, get_available_for_item d0 w i) \<in> line_view ` set ls"
      unfolding views by (force simp del: upt_Suc)
    then show ?thesis by (auto simp: line_view_def)
  qed
  show "lines_of_stock d0 w (doc_count_lines d2 n)"
    unfolding lines_of_stock_def lines2 using q all 1(8) by blast
  have ids: "distinct (map cl_id ls)" using 1(2,6) by (simp add: count_lines_inv_def)
  have ss: "snapshot_view s \<in> set (concat (map (freeze_snapshot_rows d1 w) ls))" if "s \<in> set ss" for s
    using that arg_cong [OF 2(8), of set] by auto
  have sums: "sum_list (map cs_snapshot_qty_base (filter (\<lambda>s. cs_line_id s = cl_id l) ss)) = cl_snapshot_qty_base l"
    if "l \<in> set ls" for l
  proof -
    have "sum_list (map cs_snapshot_qty_base (filter (\<lambda>s. cs_line_id s = cl_id l) ss)) =
        (\<Sum>(k, lid, code, q) \<leftarrow> filter (\<lambda>x. fst x = cl_id l) (map snapshot_view ss). q)"
      by (simp add: filter_map comp_def snapshot_view_def)
    also have "filter (\<lambda>x. fst x = cl_id l) (map snapshot_view ss) = freeze_snapshot_rows d1 w l"
      unfolding 2(8) by (rule filter_concat_key [OF ids _ that]) (auto dest: freeze_snapshot_rows_in)
    also have "(\<Sum>(k, lid, code, q) \<leftarrow> freeze_snapshot_rows d1 w l. q) = cl_snapshot_qty_base l"
      using freeze_snapshot_rows_sum [OF warehouse_invD(2) [OF inv1]] q [OF that]
        count_frame_available [OF 1(1)] by simp
    finally show ?thesis .
  qed
  show "count_snapshots_inv d2"
    unfolding count_snapshots_inv_def
  proof (intro conjI ballI)
    show "distinct (snapshot_keys d2)" by fact
  next
    fix s assume "s \<in> set (t_count_snapshots d2)"
    then consider "s \<in> set (t_count_snapshots d0)" | "s \<in> set ss" using 1(4) 2(7) by auto
    then have "0 < cs_snapshot_qty_base s \<and> cs_line_id s \<in> cl_id ` set (t_count_lines d2)"
    proof cases
      case 1
      with inv(2) show ?thesis using \<open>t_count_lines d1 = _\<close> 2(4) by (auto simp: count_snapshots_inv_def)
    next
      case new: 2
      from ss [OF new] obtain l where "l \<in> set ls" "snapshot_view s \<in> set (freeze_snapshot_rows d1 w l)" by auto
      then show ?thesis using 1(6) 2(4) by (auto simp: snapshot_view_def dest: freeze_snapshot_rows_in)
    qed
    then show "0 < cs_snapshot_qty_base s" "cs_line_id s \<in> cl_id ` set (t_count_lines d2)" by auto
  next
    fix l assume "l \<in> set (t_count_lines d2)"
    then consider "l \<in> set (t_count_lines d0)" | "l \<in> set ls" using 1(6) 2(4) by auto
    then show "sum_list (map cs_snapshot_qty_base (line_snapshots d2 (cl_id l))) = cl_snapshot_qty_base l"
    proof cases
      case 1
      then have "cl_id l < t_next_id d0 COUNT_DOC_LINES" using inv(1) by (auto simp: count_lines_inv_def)
      then have "cs_line_id s \<noteq> cl_id l" if "s \<in> set ss" for s
        using ss [OF that] \<open>\<forall>l \<in> set ls. _\<close> by (fastforce simp: snapshot_view_def dest: freeze_snapshot_rows_in)
      then have "line_snapshots d2 (cl_id l) = line_snapshots d0 (cl_id l)"
        using \<open>t_count_snapshots d1 = _\<close> 2(7) by (simp add: line_snapshots_def filter_empty_conv)
      with 1 inv(2) show ?thesis by (simp add: count_snapshots_inv_def)
    next
      case new: 2
      then have "t_next_id d0 COUNT_DOC_LINES \<le> cl_id l" using 1(8) by auto
      moreover have "cs_line_id s < t_next_id d0 COUNT_DOC_LINES" if "s \<in> set (t_count_snapshots d0)" for s
        using inv(1,2) that by (force simp: count_snapshots_inv_def count_lines_inv_def)
      ultimately have "filter (\<lambda>s. cs_line_id s = cl_id l) (t_count_snapshots d0) = []"
        by (force simp: filter_empty_conv)
      then show ?thesis using sums [OF new] 1(4) 2(7) by (simp add: line_snapshots_def)
    qed
  qed
qed


lemma freeze_lines_Inr:
  assumes "freeze_doc_lines_from_current_stock n d = Inr (r, d')" and "find_count_doc d n = Some doc"
    and "w = cd_warehouse_id doc" and "d0 = delete_count_lines n d"
  shows "\<exists>d1 d2. foldE (insert_count_line n)
        (zip (map int [1 ..< length (freeze_rows d0 w) + 1]) (freeze_rows d0 w)) d0 = Inr d1 \<and>
      foldE insert_count_snapshot (concat (map (freeze_snapshot_rows d1 w) (doc_count_lines d1 n))) d1 = Inr d2 \<and>
      d' = set_count_doc (\<lambda>c. cd_id c = n) (\<lambda>c. c\<lparr>cd_status := ''FROZEN''\<rparr>) d2"
  using assms(1) unfolding freeze_doc_lines_from_current_stock_def assms(2) option.case Let_def bindE_eq_Inr
    assms(3,4) [symmetric]
  by (elim exE conjE) (intro exI conjI, assumption+, simp)

lemma freeze_doc_Inr:
  assumes "freeze_doc n d = Inr (r, d')" and inv: "warehouse_inv d" "count_inv d"
  obtains doc where "find_count_doc d n = Some doc" "cd_status doc = ''DRAFT''" "count_frame d d'"
    "count_inv d'" "t_count_docs d' = update_where (\<lambda>c. cd_id c = n) (\<lambda>c. c\<lparr>cd_status := ''FROZEN''\<rparr>) (t_count_docs d)"
    "lines_of_stock d (cd_warehouse_id doc) (doc_count_lines d' n)"
proof -
  let ?d0 = "delete_count_lines n d"
  from assms(1) obtain doc r' where doc: "find_count_doc d n = Some doc" "cd_status doc = ''DRAFT''"
    and run: "freeze_doc_lines_from_current_stock n d = Inr (r', d')"
    by (auto simp: freeze_doc_def require_doc_def res_simps split: if_splits)
  note del = delete_count_lines_inv [OF inv(2), of n]
  from freeze_lines_Inr [OF run doc(1) refl refl] obtain d1 d2 where
    f1: "foldE (insert_count_line n) (zip (map int [1 ..< length (freeze_rows ?d0 (cd_warehouse_id doc)) + 1])
        (freeze_rows ?d0 (cd_warehouse_id doc))) ?d0 = Inr d1"
    and f2: "foldE insert_count_snapshot
      (concat (map (freeze_snapshot_rows d1 (cd_warehouse_id doc)) (doc_count_lines d1 n))) d1 = Inr d2"
    and d': "d' = set_count_doc (\<lambda>c. cd_id c = n) (\<lambda>c. c\<lparr>cd_status := ''FROZEN''\<rparr>) d2" by blast
  have "warehouse_inv ?d0" using count_frame_inv [OF del(3)] inv(1) by simp
  note t = freeze_tables [OF f1 f2 del(1,2) this del(4)]
  have frame: "count_frame d d'"
    using count_frame.evo_trans [OF del(3) t(1)] by (auto simp: d' set_count_doc_def count_frame_def)
  have docs: "t_count_docs d' = update_where (\<lambda>c. cd_id c = n) (\<lambda>c. c\<lparr>cd_status := ''FROZEN''\<rparr>) (t_count_docs d)"
    using t(4) by (simp add: d' set_count_doc_def delete_count_lines_def)
  have lines: "doc_count_lines d' m = doc_count_lines d2 m" for m
    by (simp add: d' set_count_doc_def doc_count_lines_def)
  have "count_docs_inv d'"
  proof (rule count_docs_inv_update [OF _ docs])
    show "count_docs_inv d" using inv(2) by (simp add: count_inv_def)
    show "t_next_id d' COUNT_DOCS = t_next_id d COUNT_DOCS"
      using t(5) by (simp add: d' set_count_doc_def delete_count_lines_def)
    fix c assume "c \<in> set (t_count_docs d)" "cd_id c = n"
    with doc inv(2) have "cd_status c = ''DRAFT''"
      using find_count_doc_unique [of d c] by (simp add: count_inv_def)
    then show "(is_active (c\<lparr>cd_status := ''FROZEN''\<rparr>) \<longrightarrow> is_active c) \<and>
      cd_status (c\<lparr>cd_status := ''FROZEN''\<rparr>) \<in> set count_statuses \<and>
      (cd_status (c\<lparr>cd_status := ''FROZEN''\<rparr>) = ''POSTED'' \<longrightarrow>
        cd_posted_event_id (c\<lparr>cd_status := ''FROZEN''\<rparr>) \<noteq> None \<and> cd_posted_at (c\<lparr>cd_status := ''FROZEN''\<rparr>) \<noteq> None)"
      by (simp add: is_active_def active_count_statuses_def count_statuses_def)
  qed simp
  moreover have "count_lines_inv d'" using t(2) by (simp add: d' set_count_doc_def count_lines_inv_def)
  moreover have "count_snapshots_inv d'"
    using t(3) by (simp add: d' set_count_doc_def count_snapshots_inv_def line_snapshots_def)
  moreover have "counted_inv d'"
    unfolding counted_inv_def docs
  proof (intro ballI impI)
    fix c assume "c \<in> set (update_where (\<lambda>c. cd_id c = n) (\<lambda>c. c\<lparr>cd_status := ''FROZEN''\<rparr>) (t_count_docs d))"
      and s: "cd_status c = ''COUNTED''"
    then obtain c0 where "c0 \<in> set (t_count_docs d)"
      "c = (if cd_id c0 = n then c0\<lparr>cd_status := ''FROZEN''\<rparr> else c0)" by (auto simp: in_set_update_where)
    with s have c: "c \<in> set (t_count_docs d)" "cd_id c \<noteq> n" by (simp_all split: if_splits)
    with inv(2) s have "all_counted d (cd_id c)" by (simp add: count_inv_def counted_inv_def)
    moreover have "doc_count_lines d' (cd_id c) = doc_count_lines d (cd_id c)"
      unfolding lines t(7) [OF c(2)] using c(2) by (auto simp: doc_count_lines_def del(5) intro!: filter_cong)
    ultimately show "all_counted d' (cd_id c)" by (simp add: all_counted_def)
  qed
  ultimately have "count_inv d'" by (simp add: count_inv_def)
  moreover have "lines_of_stock d (cd_warehouse_id doc) (doc_count_lines d' n)"
    using t(6) unfolding lines lines_of_stock_def count_frame_available [OF del(3)] .
  ultimately show ?thesis by (intro that [OF doc frame _ docs])
qed


section \<open>Counting\<close>

text \<open>The count a line ends with: the last patch that names it, or what it had.\<close>

fun last_count :: "count_patch list \<Rightarrow> int \<Rightarrow> int option \<Rightarrow> int option" where
  "last_count [] n v = v"
| "last_count (p # ps) n v =
     last_count ps n (if cp_line_id p = n then Some (cp_counted_qty_input p) else v)"

lemma last_count_some: "v \<noteq> None \<Longrightarrow> last_count ps n v \<noteq> None"
  by (induction ps arbitrary: v) auto

lemma list_all2_from: "list_all2 P xs ys \<Longrightarrow> y \<in> set ys \<Longrightarrow> \<exists>x \<in> set xs. P x y"
  by (induction rule: list_all2_induct) auto

text \<open>How a line may change while it is counted.\<close>

definition line_counted :: "count_patch list \<Rightarrow> count_line \<Rightarrow> count_line \<Rightarrow> bool" where
  "line_counted ps l l' \<longleftrightarrow> cl_id l' = cl_id l \<and> cl_doc_id l' = cl_doc_id l \<and>
     cl_line_no l' = cl_line_no l \<and> cl_item_id l' = cl_item_id l \<and>
     cl_snapshot_qty_base l' = cl_snapshot_qty_base l \<and> (count_line_checks l \<longrightarrow> count_line_checks l') \<and>
     cl_counted_qty_base l' = last_count ps (cl_id l) (cl_counted_qty_base l)"

lemma update_count_line_Inr:
  assumes "update_count_line n p d = Inr d'" and "count_lines_inv d"
  shows "count_frame d d'" "t_count_docs d' = t_count_docs d" "t_count_snapshots d' = t_count_snapshots d"
    "t_next_id d' = t_next_id d" "list_all2 (line_counted [p]) (t_count_lines d) (t_count_lines d')"
proof -
  from assms(1) obtain l u where l: "find (\<lambda>l. cl_id l = cp_line_id p \<and> cl_doc_id l = n) (t_count_lines d) = Some l"
    and c: "count_line_checks (counted_line u (cp_counted_qty_input p) l)"
    and d': "d' = d\<lparr>t_count_lines := update_where (\<lambda>x. cl_id x = cl_id l)
        (\<lambda>_. counted_line u (cp_counted_qty_input p) l) (t_count_lines d)\<rparr>"
    by (auto simp: update_count_line_def Let_def split: option.splits if_splits)
  show "count_frame d d'" "t_count_docs d' = t_count_docs d" "t_count_snapshots d' = t_count_snapshots d"
    "t_next_id d' = t_next_id d" by (simp_all add: d' count_frame_def)
  have lin: "l \<in> set (t_count_lines d)" "cl_id l = cp_line_id p" using l by (auto dest: find_SomeD)
  have same: "x = l" if "x \<in> set (t_count_lines d)" "cl_id x = cl_id l" for x
    using assms(2) that lin(1) by (auto simp: count_lines_inv_def distinct_map dest: inj_onD)
  show "list_all2 (line_counted [p]) (t_count_lines d) (t_count_lines d')"
    using same c lin(2)
    by (auto simp: d' update_where_def list_all2_map2 list_all2_same line_counted_def counted_line_def)
qed

lemma list_all2_line_counted_trans:
  "list_all2 (line_counted [p]) xs ys \<Longrightarrow> list_all2 (line_counted ps) ys zs \<Longrightarrow>
   list_all2 (line_counted (p # ps)) xs zs"
  by (rule list_all2_trans) (auto simp: line_counted_def)

lemma line_counted_keys:
  assumes "list_all2 (line_counted ps) xs ys"
  shows "map cl_id ys = map cl_id xs" "map (\<lambda>l. (cl_doc_id l, cl_line_no l)) ys = map (\<lambda>l. (cl_doc_id l, cl_line_no l)) xs"
    "map (\<lambda>l. (cl_doc_id l, cl_item_id l)) ys = map (\<lambda>l. (cl_doc_id l, cl_item_id l)) xs"
    "list_all2 (line_counted ps) (filter (\<lambda>l. cl_doc_id l = n) xs) (filter (\<lambda>l. cl_doc_id l = n) ys)"
  using assms by (induction rule: list_all2_induct) (auto simp: line_counted_def)

lemma line_counted_inv:
  assumes "list_all2 (line_counted ps) (t_count_lines d) (t_count_lines d')" and "t_next_id d' = t_next_id d"
    and "count_lines_inv d"
  shows "count_lines_inv d'"
proof -
  have "\<exists>l \<in> set (t_count_lines d). line_counted ps l l'" if "l' \<in> set (t_count_lines d')" for l'
    by (rule list_all2_from [OF assms(1) that])
  then have "cl_id l' < t_next_id d COUNT_DOC_LINES \<and> count_line_checks l'" if "l' \<in> set (t_count_lines d')" for l'
    using that assms(3) by (fastforce simp: count_lines_inv_def line_counted_def)
  with assms(3) show ?thesis
    unfolding count_lines_inv_def line_counted_keys(1-3) [OF assms(1)] assms(2) by blast
qed

lemma update_lines_Inr:
  "foldE (update_count_line n) ps d = Inr d' \<Longrightarrow> count_lines_inv d \<Longrightarrow>
   count_frame d d' \<and> t_count_docs d' = t_count_docs d \<and> t_count_snapshots d' = t_count_snapshots d \<and>
   t_next_id d' = t_next_id d \<and> list_all2 (line_counted ps) (t_count_lines d) (t_count_lines d')"
proof (induction ps arbitrary: d)
  case Nil
  then show ?case by (auto simp: count_frame.evo_refl line_counted_def list_all2_same)
next
  case (Cons p ps)
  from Cons.prems(1) obtain d1 where r: "update_count_line n p d = Inr d1"
    "foldE (update_count_line n) ps d1 = Inr d'" by (auto simp: bindE_eq_Inr)
  note i = update_count_line_Inr [OF r(1) Cons.prems(2)]
  have "count_lines_inv d1" by (rule line_counted_inv [OF i(5,4) Cons.prems(2)])
  from Cons.IH [OF r(2) this] i show ?case
    by (auto intro: count_frame.evo_trans list_all2_line_counted_trans)
qed

lemma line_counted_snapshots_inv:
  assumes "list_all2 (line_counted ps) (t_count_lines d) (t_count_lines d')"
    and "t_count_snapshots d' = t_count_snapshots d" and "count_snapshots_inv d"
  shows "count_snapshots_inv d'"
proof -
  have "cl_id ` set (t_count_lines d') = cl_id ` set (t_count_lines d)"
    using arg_cong [OF line_counted_keys(1) [OF assms(1)], of set] by simp
  moreover have "\<exists>l \<in> set (t_count_lines d). line_counted ps l l'" if "l' \<in> set (t_count_lines d')" for l'
    by (rule list_all2_from [OF assms(1) that])
  ultimately show ?thesis
    using assms(2,3) by (fastforce simp: count_snapshots_inv_def line_snapshots_def line_counted_def)
qed

lemma line_counted_all:
  assumes "list_all2 (line_counted ps) (t_count_lines d) (t_count_lines d')" and "all_counted d n"
  shows "all_counted d' n"
proof -
  have l: "list_all2 (line_counted ps) (doc_count_lines d n) (doc_count_lines d' n)"
    unfolding doc_count_lines_def by (rule line_counted_keys(4) [OF assms(1)])
  then have "\<exists>l \<in> set (doc_count_lines d n). line_counted ps l l'" if "l' \<in> set (doc_count_lines d' n)" for l'
    by (rule list_all2_from [OF _ that])
  then have "cl_counted_qty_base l' \<noteq> None" if "l' \<in> set (doc_count_lines d' n)" for l'
    using that assms(2) last_count_some by (fastforce simp: all_counted_def line_counted_def)
  with l assms(2) show ?thesis by (auto simp: all_counted_def)
qed


section \<open>The states of a document\<close>

definition count_moves :: "(string \<times> string) set" where
  "count_moves = {(''DRAFT'', ''FROZEN''), (''FROZEN'', ''COUNTED''), (''COUNTED'', ''POSTED''),
     (''DRAFT'', ''VOIDED''), (''FROZEN'', ''VOIDED''), (''COUNTED'', ''VOIDED'')}"

definition doc_moves :: "count_doc \<Rightarrow> count_doc \<Rightarrow> bool" where
  "doc_moves c c' \<longleftrightarrow> cd_id c' = cd_id c \<and> cd_warehouse_id c' = cd_warehouse_id c \<and>
     (cd_status c' = cd_status c \<or> (cd_status c, cd_status c') \<in> count_moves) \<and>
     (\<not> is_active c \<longrightarrow> c' = c)"

definition docs_move :: "db \<Rightarrow> db \<Rightarrow> bool" where
  "docs_move d d' \<longleftrightarrow> (\<forall>c \<in> set (t_count_docs d). \<exists>c' \<in> set (t_count_docs d'). doc_moves c c')"

lemma doc_moves_refl [simp]: "doc_moves c c"
  by (simp add: doc_moves_def)

lemma docs_move_same: "t_count_docs d' = t_count_docs d \<Longrightarrow> docs_move d d'"
  using doc_moves_refl unfolding docs_move_def by metis

lemma docs_move_update:
  assumes "t_count_docs d' = update_where hit upd (t_count_docs d)"
    and "\<And>c. c \<in> set (t_count_docs d) \<Longrightarrow> hit c \<Longrightarrow> doc_moves c (upd c)"
  shows "docs_move d d'"
  unfolding docs_move_def
proof
  fix c assume c: "c \<in> set (t_count_docs d)"
  then have "(if hit c then upd c else c) \<in> set (t_count_docs d')"
    unfolding assms(1) in_set_update_where by blast
  moreover have "doc_moves c (if hit c then upd c else c)" using assms(2) [OF c] by simp
  ultimately show "\<exists>c' \<in> set (t_count_docs d'). doc_moves c c'" by blast
qed

text \<open>Two updates of the same rows.\<close>

lemma update_where_twice:
  assumes "\<And>r. q r \<Longrightarrow> p r"
  shows "update_where q g (update_where p f rows) =
    update_where p (\<lambda>r. if q (f r) then g (f r) else f r) rows"
  using assms by (induction rows) auto

definition count_entered :: "int \<Rightarrow> string \<Rightarrow> bool \<Rightarrow> count_doc \<Rightarrow> count_doc" where
  "count_entered now counted_by full c =
     (let c1 = c\<lparr>cd_counted_by_name_snapshot := Some (py_strip counted_by),
                 cd_reviewed_by_name_snapshot := None\<rparr>
      in if full \<and> cd_status c = ''FROZEN''
         then c1\<lparr>cd_status := ''COUNTED'',
            cd_counted_at := (case cd_counted_at c of None \<Rightarrow> Some now | Some t \<Rightarrow> Some t)\<rparr>
         else c1)"

lemma count_entered_sel [simp]:
  "cd_id (count_entered now b full c) = cd_id c"
  "cd_warehouse_id (count_entered now b full c) = cd_warehouse_id c"
  "cd_status (count_entered now b full c) = (if full \<and> cd_status c = ''FROZEN'' then ''COUNTED'' else cd_status c)"
  by (simp_all add: count_entered_def Let_def)

lemma update_doc_lines_Inr:
  assumes "update_doc_lines now n p d = Inr (r, d')" and inv: "count_inv d"
  obtains doc counted_by where "find_count_doc d n = Some doc" "cd_status doc \<in> {''FROZEN'', ''COUNTED''}"
    "count_frame d d'" "count_inv d'" "docs_move d d'"
    "list_all2 (line_counted (cui_lines p)) (t_count_lines d) (t_count_lines d')"
    "find_count_doc d' n = Some (count_entered now counted_by (all_counted d' n) doc)"
proof -
  from assms(1) obtain doc b d1 where doc: "find_count_doc d n = Some doc" "cd_status doc \<in> {''FROZEN'', ''COUNTED''}"
    and run: "update_line_counts n b (cui_lines p) d = Inr d1" and d': "d' = try_mark_doc_counted now n d1"
    by (auto simp: update_doc_lines_def require_doc_def res_simps Let_def split: if_splits)
  from run obtain d2 where f: "foldE (update_count_line n) (cui_lines p) d = Inr d2"
    and d1: "d1 = set_count_doc (\<lambda>c. cd_id c = n)
       (\<lambda>c. c\<lparr>cd_counted_by_name_snapshot := Some (py_strip b), cd_reviewed_by_name_snapshot := None\<rparr>) d2"
    by (auto simp: update_line_counts_def res_simps)
  have li: "count_lines_inv d" and si: "count_snapshots_inv d" and di: "count_docs_inv d" and ci: "counted_inv d"
    using inv by (simp_all add: count_inv_def)
  note u = update_lines_Inr [OF f li]
  have tabs: "t_count_lines d' = t_count_lines d2" "t_count_snapshots d' = t_count_snapshots d2"
    "t_next_id d' = t_next_id d2" "count_frame d2 d'"
    by (simp_all add: d' d1 try_mark_doc_counted_def set_count_doc_def count_frame_def)
  have lines: "list_all2 (line_counted (cui_lines p)) (t_count_lines d) (t_count_lines d')"
    using u by (simp add: tabs)
  have all: "all_counted d1 n = all_counted d' n"
    by (simp add: d' try_mark_doc_counted_def all_counted_def doc_count_lines_def set_count_doc_def)
  have docs: "t_count_docs d' = update_where (\<lambda>c. cd_id c = n) (count_entered now b (all_counted d' n)) (t_count_docs d)"
    unfolding all [symmetric] using u
    by (auto simp: d' try_mark_doc_counted_def d1 set_count_doc_def update_where_twice update_where_def
        count_entered_def Let_def)
  have stat: "cd_status c = cd_status doc" "c = doc" if "c \<in> set (t_count_docs d)" "cd_id c = n" for c
    using find_count_doc_unique [OF di that(1)] doc(1) that(2) by simp_all
  have frame: "count_frame d d'" using u count_frame.evo_trans [OF _ tabs(4)] by blast
  have nxt: "t_next_id d' = t_next_id d" using u tabs(3) by simp
  have move: "docs_move d d'"
    by (rule docs_move_update [OF docs])
      (use stat doc(2) in \<open>auto simp: doc_moves_def count_moves_def is_active_def active_count_statuses_def\<close>)
  have "count_docs_inv d'"
    by (rule count_docs_inv_update [OF di docs])
      (use stat doc(2) in \<open>auto simp: nxt is_active_def active_count_statuses_def count_statuses_def\<close>)
  moreover have "counted_inv d'"
    unfolding counted_inv_def docs in_set_update_where Ball_def
  proof (intro allI impI, elim bexE)
    fix c c0 assume c0: "c0 \<in> set (t_count_docs d)"
      "c = (if cd_id c0 = n then count_entered now b (all_counted d' n) c0 else c0)" and s: "cd_status c = ''COUNTED''"
    show "all_counted d' (cd_id c)"
    proof (cases "cd_status c0 = ''COUNTED''")
      case True
      with ci c0(1) have "all_counted d (cd_id c0)" by (simp add: counted_inv_def)
      from line_counted_all [OF lines this] c0(2) show ?thesis by (cases "cd_id c0 = n") simp_all
    next
      case False
      with c0 s have "cd_id c0 = n" "all_counted d' n" by (simp_all split: if_splits)
      with c0(2) show ?thesis by simp
    qed
  qed
  ultimately have "count_inv d'"
    using line_counted_inv [OF lines nxt li] line_counted_snapshots_inv [OF lines _ si] u tabs(2)
    by (simp add: count_inv_def)
  moreover have "find_count_doc d' n = Some (count_entered now b (all_counted d' n) doc)"
    using doc(1) find_count_doc_in [OF doc(1)] by (simp add: find_count_doc_def docs find_update_where_same)
  ultimately show ?thesis using lines by (intro that [OF doc frame _ move])
qed


lemma get_active_doc_None:
  "get_active_doc_by_warehouse d w = None \<longleftrightarrow>
     (\<forall>c \<in> set (t_count_docs d). is_active c \<longrightarrow> cd_warehouse_id c \<noteq> w)"
  by (auto simp: get_active_doc_by_warehouse_def is_active_def filter_empty_conv split: list.splits
      dest: filter_eq_ConsD)

lemma count_create_Inr:
  assumes "count_create_doc now no u p d = Inr (c, d')" and inv: "count_inv d"
  shows "count_frame d d'" "count_inv d'" "docs_move d d'" "t_count_docs d' = t_count_docs d @ [c]"
    "cd_status c = ''DRAFT''" "cd_warehouse_id c = cci_warehouse_id p"
    "\<forall>c \<in> set (t_count_docs d). is_active c \<longrightarrow> cd_warehouse_id c \<noteq> cci_warehouse_id p"
proof -
  from assms(1) have free: "get_active_doc_by_warehouse d (cci_warehouse_id p) = None"
    and run: "insert_count_doc now no u p d = Inr (c, d')"
    by (auto simp: count_create_doc_def split: option.splits)
  show free': "\<forall>c \<in> set (t_count_docs d). is_active c \<longrightarrow> cd_warehouse_id c \<noteq> cci_warehouse_id p"
    using free by (simp only: get_active_doc_None)
  from run have c: "t_count_docs d' = t_count_docs d @ [c]" "cd_id c = t_next_id d COUNT_DOCS"
    "cd_status c = ''DRAFT''" "cd_warehouse_id c = cci_warehouse_id p"
    and tabs: "count_frame d d'" "t_count_lines d' = t_count_lines d" "t_count_snapshots d' = t_count_snapshots d"
      "t_next_id d' COUNT_DOCS = t_next_id d COUNT_DOCS + 1" "t_next_id d' COUNT_DOC_LINES = t_next_id d COUNT_DOC_LINES"
    by (auto simp: insert_count_doc_def next_id_def Let_def count_frame_def split: if_splits)
  show "count_frame d d'" "t_count_docs d' = t_count_docs d @ [c]" "cd_status c = ''DRAFT''"
    "cd_warehouse_id c = cci_warehouse_id p" by fact+
  show "docs_move d d'" using doc_moves_refl unfolding docs_move_def c(1) by (metis Un_iff set_append)
  have "count_docs_inv d'"
    unfolding count_docs_inv_def c(1) tabs(4)
  proof (intro conjI ballI)
    show "distinct (map cd_id (t_count_docs d @ [c]))"
      using inv c(2) by (force simp: count_inv_def count_docs_inv_def)
    show "distinct (map cd_warehouse_id (filter is_active (t_count_docs d @ [c])))"
      using inv free' c(4) by (auto simp: count_inv_def count_docs_inv_def)
    fix x assume "x \<in> set (t_count_docs d @ [c])"
    then consider "x = c" | "x \<in> set (t_count_docs d)" by auto
    then show "cd_id x < t_next_id d COUNT_DOCS + 1" "cd_status x \<in> set count_statuses"
      "cd_status x = ''POSTED'' \<longrightarrow> cd_posted_event_id x \<noteq> None \<and> cd_posted_at x \<noteq> None"
      using inv c(2,3) by (cases; force simp: count_inv_def count_docs_inv_def count_statuses_def)+
  qed
  then show "count_inv d'"
    using inv c(3) tabs
    by (auto simp: count_inv_def count_lines_inv_def count_snapshots_inv_def counted_inv_def line_snapshots_def
        all_counted_def doc_count_lines_def c(1))
qed

text \<open>A status update that needs no lines: posting and voiding.\<close>

lemma count_close_inv:
  assumes d': "d' = set_count_doc hit upd d" and inv: "count_inv d"
    and hit: "\<And>c. c \<in> set (t_count_docs d) \<Longrightarrow> hit c \<Longrightarrow> is_active c \<and>
      (cd_status c, cd_status (upd c)) \<in> count_moves"
    and upd: "\<And>c. cd_id (upd c) = cd_id c \<and> cd_warehouse_id (upd c) = cd_warehouse_id c \<and>
      (cd_status (upd c) = ''VOIDED'' \<or>
       cd_status (upd c) = ''POSTED'' \<and> cd_posted_event_id (upd c) \<noteq> None \<and> cd_posted_at (upd c) \<noteq> None)"
  shows "count_inv d'" "docs_move d d'"
proof -
  have docs: "t_count_docs d' = update_where hit upd (t_count_docs d)" by (simp add: d' set_count_doc_def)
  show "docs_move d d'"
    by (rule docs_move_update [OF docs]) (use hit upd in \<open>auto simp: doc_moves_def\<close>)
  have "count_docs_inv d'"
  proof (rule count_docs_inv_update [OF _ docs])
    show "count_docs_inv d" using inv by (simp add: count_inv_def)
    fix c assume c: "c \<in> set (t_count_docs d)" "hit c"
    show "(is_active (upd c) \<longrightarrow> is_active c) \<and> cd_status (upd c) \<in> set count_statuses \<and>
      (cd_status (upd c) = ''POSTED'' \<longrightarrow> cd_posted_event_id (upd c) \<noteq> None \<and> cd_posted_at (upd c) \<noteq> None)"
      using hit [OF c] upd [of c] by (auto simp: count_statuses_def)
  qed (use upd in \<open>auto simp: d' set_count_doc_def\<close>)
  moreover have "counted_inv d'"
    unfolding counted_inv_def docs in_set_update_where
  proof (intro ballI impI)
    fix c assume "c \<in> set (update_where hit upd (t_count_docs d))" and s: "cd_status c = ''COUNTED''"
    then obtain c0 where "c0 \<in> set (t_count_docs d)" "c = (if hit c0 then upd c0 else c0)"
      by (auto simp: in_set_update_where)
    with s upd [of c0] have "c \<in> set (t_count_docs d)" by (auto split: if_splits)
    with s inv show "all_counted d' (cd_id c)"
      by (auto simp: count_inv_def counted_inv_def all_counted_def doc_count_lines_def d' set_count_doc_def)
  qed
  ultimately show "count_inv d'"
    using inv by (simp add: count_inv_def count_lines_inv_def count_snapshots_inv_def line_snapshots_def d' set_count_doc_def)
qed

lemma void_doc_Inr:
  assumes "void_doc n d = Inr d'" and inv: "count_inv d"
  shows "count_frame d d'" "count_inv d'" "docs_move d d'"
proof -
  from assms(1) have d': "d' = set_count_doc (\<lambda>c. cd_id c = n \<and> cd_status c \<in> set active_count_statuses)
      (\<lambda>c. c\<lparr>cd_status := ''VOIDED''\<rparr>) d"
    by (auto simp: void_doc_def mark_doc_voided_def res_simps Let_def split: if_splits)
  show "count_frame d d'" by (simp add: d' set_count_doc_def count_frame_def)
  show "count_inv d'" "docs_move d d'"
    by (rule count_close_inv [OF d' inv];
        auto simp: is_active_def active_count_statuses_def count_moves_def)+
qed


section \<open>Posting\<close>

lemma doc_count_lines_rest:
  assumes "rest_of d' = rest_of d"
  shows "doc_count_lines d' = doc_count_lines d"
  by (rule ext) (simp add: doc_count_lines_def rest_ofD(13) [OF assms])

lemma reviewed_inv:
  assumes "d' = set_reviewed_by_name_snapshot n b d"
  shows "count_inv d \<Longrightarrow> count_inv d'" "count_frame d d'" "t_count_lines d' = t_count_lines d"
    "t_count_snapshots d' = t_count_snapshots d" "t_next_id d' = t_next_id d"
    "t_count_docs d' = update_where (\<lambda>c. cd_id c = n) (\<lambda>c. c\<lparr>cd_reviewed_by_name_snapshot := Some (py_strip b)\<rparr>) (t_count_docs d)"
proof -
  show docs: "t_count_docs d' = update_where (\<lambda>c. cd_id c = n) (\<lambda>c. c\<lparr>cd_reviewed_by_name_snapshot := Some (py_strip b)\<rparr>) (t_count_docs d)"
    and tabs: "t_count_lines d' = t_count_lines d" "t_count_snapshots d' = t_count_snapshots d"
      "t_next_id d' = t_next_id d" "count_frame d d'"
    by (simp_all add: assms set_reviewed_by_name_snapshot_def set_count_doc_def count_frame_def)
  assume inv: "count_inv d"
  have di: "count_docs_inv d" and ci: "counted_inv d" using inv by (simp_all add: count_inv_def)
  have "count_docs_inv d'"
    by (rule count_docs_inv_update [OF di docs])
      (use di in \<open>simp_all add: count_docs_inv_def is_active_def tabs\<close>)
  moreover have "all_counted d' = all_counted d"
    by (rule ext) (simp add: all_counted_def doc_count_lines_def tabs)
  then have "counted_inv d'"
    using ci by (auto simp: counted_inv_def docs in_set_update_where)
  ultimately show "count_inv d'"
    using inv by (simp add: count_inv_def count_lines_inv_def count_snapshots_inv_def line_snapshots_def tabs)
qed

text \<open>The first posting, taken apart.\<close>

lemma post_doc_first:
  assumes "post_doc now t eno tr n reviewed_by d = Inr (out, d')"
    and "find_count_doc d n = Some doc" and "cd_status doc \<noteq> ''POSTED''"
  obtains b doc1 d2 ns d3 where "cd_status doc = ''COUNTED''"
    "find_count_doc (set_reviewed_by_name_snapshot n b d) n = Some doc1"
    "insert_event (count_event now t eno tr doc1) (set_reviewed_by_name_snapshot n b d) = Inr (fst out, d2)"
    "mapE (post_line_diff doc1 (fst out) eno t tr) (doc_count_lines d n) d2 = Inr (ns, d3)"
    "mark_doc_posted n (fst out) t d3 = Inr d'" "snd out = t"
proof -
  have lines: "doc_count_lines (set_reviewed_by_name_snapshot n b d) n = doc_count_lines d n" for b
    by (simp add: doc_count_lines_def set_reviewed_by_name_snapshot_def set_count_doc_def)
  from assms have "cd_status doc = ''COUNTED''"
    by (auto simp: post_doc_def require_doc_def split: if_splits)
  moreover from assms obtain b doc1 where 1:
    "find_count_doc (set_reviewed_by_name_snapshot n b d) n = Some doc1"
    "bindE (insert_event (count_event now t eno tr doc1) (set_reviewed_by_name_snapshot n b d)) (\<lambda>(eid, d2).
      bindE (mapE (post_line_diff doc1 eid eno t tr) (doc_count_lines d n) d2) (\<lambda>(_, d3).
      bindE (mark_doc_posted n eid t d3) (\<lambda>d4. Inr ((eid, t), d4)))) = Inr (out, d')"
    by (auto simp: post_doc_def require_doc_def lines Let_def bindE_eq_Inr [of "of_option _ _"] of_option_eq_Inr
        split: if_splits option.splits)
  moreover from 1(2) obtain eid d2 ns d3 where
    "insert_event (count_event now t eno tr doc1) (set_reviewed_by_name_snapshot n b d) = Inr (eid, d2)"
    "mapE (post_line_diff doc1 eid eno t tr) (doc_count_lines d n) d2 = Inr (ns, d3)"
    "mark_doc_posted n eid t d3 = Inr d'" "out = (eid, t)"
    by (auto simp: res_simps)
  ultimately show ?thesis using that by simp
qed


lemma count_frame_posts: "count_frame d d' \<Longrightarrow> posts d [] d'"
  by (rule posts_nothing) (simp_all add: count_frame_def)

lemma post_doc_Inr:
  assumes run: "post_doc now t eno tr n reviewed_by d = Inr (out, d')"
    and doc: "find_count_doc d n = Some doc" "cd_status doc \<noteq> ''POSTED''"
    and inv: "warehouse_inv d" "count_inv d" and new: "\<forall>x \<in> set (t_ledger d). lg_ref x \<noteq> eno"
  obtains rows doc' where "cd_status doc = ''COUNTED''" "warehouse_inv d'" "count_inv d'" "docs_move d d'"
    "posts d rows d'" "\<forall>r \<in> set rows. \<exists>l \<in> set (doc_count_lines d n). count_row doc (fst out) eno l r"
    "\<forall>i. item_rows (cd_warehouse_id doc) i rows =
       (\<Sum>l \<leftarrow> doc_count_lines d n. if cl_item_id l = i then line_diff l else 0)"
    "t_count_lines d' = t_count_lines d" "find_count_doc d' n = Some doc'" "cd_status doc' = ''POSTED''"
    "cd_posted_event_id doc' = Some (fst out)" "cd_posted_at doc' = Some (snd out)"
proof -
  from post_doc_first [OF run doc] obtain b doc1 d2 ns d3 where
    r: "cd_status doc = ''COUNTED''" "find_count_doc (set_reviewed_by_name_snapshot n b d) n = Some doc1"
      "insert_event (count_event now t eno tr doc1) (set_reviewed_by_name_snapshot n b d) = Inr (fst out, d2)"
      "mapE (post_line_diff doc1 (fst out) eno t tr) (doc_count_lines d n) d2 = Inr (ns, d3)"
      "mark_doc_posted n (fst out) t d3 = Inr d'" "snd out = t" .
  obtain d1 where d1: "d1 = set_reviewed_by_name_snapshot n b d" by blast
  note rv = reviewed_inv [OF d1]
  have doc1: "doc1 = doc\<lparr>cd_reviewed_by_name_snapshot := Some (py_strip b)\<rparr>"
    using r(2) doc(1) find_count_doc_in [OF doc(1)]
    by (simp add: find_count_doc_def d1 [symmetric] rv(6) find_update_where_same)
  note ev = insert_event_Inr [OF r(3) [folded d1]]
  have inv1: "warehouse_inv d1" using inv(1) count_frame_inv [OF rv(2)] by simp
  have inv2: "warehouse_inv d2" by (rule insert_event_warehouse_inv [OF r(3) [folded d1] inv1])
  have cinv2: "count_inv d2 = count_inv d1" by (rule count_inv_cong) (simp_all add: ev(2))
  have eid: "0 < fst out" using warehouse_invD(3) [OF inv1] ev(1) by (simp add: events_inv_def)
  have snaps: "\<forall>l \<in> set (doc_count_lines d n).
      distinct (map cs_lot_id (filter (\<lambda>s. cs_line_id s = cl_id l) (t_count_snapshots d2)))"
    using count_inv_line_lots rv(1) inv(2) cinv2 by blast
  have free: "\<forall>x \<in> set (t_ledger d2). lg_ref x = eno \<longrightarrow> lg_ref_line x \<notin> cl_line_no ` set (doc_count_lines d n)"
    using new rv(2) by (auto simp: ev(2) count_frame_def)
  from post_lines_Inr [OF r(4) inv2 eid count_inv_doc_lines(1) [OF inv(2)] snaps free] obtain rows where
    b: "warehouse_inv d3" "rest_of d3 = rest_of d2" "posts d2 rows d3"
      "\<forall>r \<in> set rows. \<exists>l \<in> set (doc_count_lines d n). count_row doc1 (fst out) eno l r"
      "\<forall>i. item_rows (cd_warehouse_id doc1) i rows =
         (\<Sum>l \<leftarrow> doc_count_lines d n. if cl_item_id l = i then line_diff l else 0)" by blast
  have cinv3: "count_inv d3"
    using count_inv_cong [OF rest_ofD(12-14) [OF b(2)] rest_ofD(16) [OF b(2)] rest_ofD(16) [OF b(2)]]
      cinv2 rv(1) inv(2) by simp
  let ?hit = "\<lambda>c. cd_id c = n \<and> cd_status c = ''COUNTED''"
  let ?upd = "\<lambda>c. c\<lparr>cd_status := ''POSTED'', cd_posted_event_id := Some (fst out), cd_posted_at := Some t\<rparr>"
  have d': "d' = set_count_doc ?hit ?upd d3" using r(5) by (simp add: mark_doc_posted_def Let_def split: if_splits)
  have frame: "count_frame d3 d'" by (simp add: d' set_count_doc_def count_frame_def)
  have docs3: "t_count_docs d3 = update_where (\<lambda>c. cd_id c = n)
      (\<lambda>c. c\<lparr>cd_reviewed_by_name_snapshot := Some (py_strip b)\<rparr>) (t_count_docs d)"
    using rest_ofD(12) [OF b(2)] rv(6) by (simp add: ev(2))
  have docs: "t_count_docs d' = update_where (\<lambda>c. cd_id c = n)
      (\<lambda>c. if cd_status c = ''COUNTED'' then ?upd (c\<lparr>cd_reviewed_by_name_snapshot := Some (py_strip b)\<rparr>)
         else c\<lparr>cd_reviewed_by_name_snapshot := Some (py_strip b)\<rparr>) (t_count_docs d)"
    by (auto simp: d' set_count_doc_def docs3 update_where_def)
  have di: "count_docs_inv d" using inv(2) by (simp add: count_inv_def)
  have one: "c = doc" if "c \<in> set (t_count_docs d)" "cd_id c = n" for c
    using find_count_doc_unique [OF di that(1)] doc(1) that(2) by simp
  have "docs_move d d'"
    by (rule docs_move_update [OF docs])
      (use one r(1) in \<open>auto simp: doc_moves_def is_active_def active_count_statuses_def count_moves_def\<close>)
  moreover have "count_inv d'"
    by (rule count_close_inv(1) [OF d' cinv3]; auto simp: is_active_def active_count_statuses_def count_moves_def)
  moreover have "warehouse_inv d'" using b(1) count_frame_inv [OF frame] by simp
  moreover have "posts d rows d'"
    using posting.traced_app [OF count_frame_posts [OF rv(2)] posting.traced_app
        [OF insert_event_posts [OF r(3) [folded d1]] posting.traced_app [OF b(3) count_frame_posts [OF frame]]]]
    by simp
  moreover have "t_count_lines d' = t_count_lines d"
    using rest_ofD(13) [OF b(2)] rv(3) by (simp add: d' set_count_doc_def ev(2))
  moreover have "find_count_doc d' n = Some (?upd (doc\<lparr>cd_reviewed_by_name_snapshot := Some (py_strip b)\<rparr>))"
    using doc(1) find_count_doc_in [OF doc(1)] r(1)
    by (simp add: find_count_doc_def docs find_update_where_same)
  moreover have "\<forall>r \<in> set rows. \<exists>l \<in> set (doc_count_lines d n). count_row doc (fst out) eno l r"
    using b(4) by (simp add: doc1 count_row_def)
  moreover have "\<forall>i. item_rows (cd_warehouse_id doc) i rows =
         (\<Sum>l \<leftarrow> doc_count_lines d n. if cl_item_id l = i then line_diff l else 0)"
    using b(5) by (simp add: doc1)
  ultimately show ?thesis using r(1,6) 
    by (intro that [of rows "?upd (doc\<lparr>cd_reviewed_by_name_snapshot := Some (py_strip b)\<rparr>)"]) simp_all
qed

end
