(* ===== verification/CountLife.thy ===== *)
theory CountLife
  imports CountTables Outbound
begin

text \<open>
  The life of a count document: a step relation over the operations of the service, its
  invariant in every reachable state, and the properties of counts. The last of them shows what
  the freeze does not cover.
\<close>

section \<open>Runs\<close>

text \<open>The operations of the service on the documents, as steps.\<close>

inductive count_step :: "db \<Rightarrow> db \<Rightarrow> bool" where
  create: "count_create_doc now no u p d = Inr (c, d') \<Longrightarrow> count_step d d'"
| freeze: "freeze_doc n d = Inr (r, d') \<Longrightarrow> count_step d d'"
| enter: "update_doc_lines now n p' d = Inr (r', d') \<Longrightarrow> count_step d d'"
| post: "post_doc now t eno tr n by d = Inr (out, d') \<Longrightarrow>
    \<forall>x \<in> set (t_ledger d). lg_ref x \<noteq> eno \<Longrightarrow> count_step d d'"
| void: "void_doc n d = Inr d' \<Longrightarrow> count_step d d'"

lemma post_doc_again:
  assumes "find_count_doc d n = Some doc" and "cd_status doc = ''POSTED''"
    and "cd_posted_event_id doc = Some e" and "cd_posted_at doc = Some t"
  shows "post_doc now t' eno tr n by d = Inr ((e, t), d)"
  using assms by (simp add: post_doc_def require_doc_def)

lemma post_doc_posted:
  assumes "post_doc now t eno tr n by d = Inr (out, d')" and "find_count_doc d n = Some doc"
    and "cd_status doc = ''POSTED''"
  shows "d' = d \<and> cd_posted_event_id doc = Some (fst out) \<and> cd_posted_at doc = Some (snd out)"
  using assms by (auto simp: post_doc_def require_doc_def split: option.splits)

lemma post_doc_step:
  assumes run: "post_doc now t eno tr n by d = Inr (out, d')" and inv: "warehouse_inv d" "count_inv d"
    and new: "\<forall>x \<in> set (t_ledger d). lg_ref x \<noteq> eno"
  shows "warehouse_inv d' \<and> count_inv d' \<and> docs_move d d'"
proof -
  from run obtain doc where doc: "find_count_doc d n = Some doc"
    by (auto simp: post_doc_def require_doc_def bindE_eq_Inr of_option_eq_Inr)
  show ?thesis
  proof (cases "cd_status doc = ''POSTED''")
    case True
    with post_doc_posted [OF run doc] inv show ?thesis by (simp add: docs_move_same)
  next
    case False
    from post_doc_Inr [OF run doc False inv new] show ?thesis by metis
  qed
qed

lemma count_step_inv:
  assumes "count_step d d'" and "warehouse_inv d" and "count_inv d"
  shows "warehouse_inv d' \<and> count_inv d' \<and> docs_move d d'"
  using assms(1)
proof cases
  case (create now no u p c)
  note c = count_create_Inr [OF create(1) assms(3)]
  from c(2,3) assms(2) count_frame_inv [OF c(1)] show ?thesis by simp
next
  case (freeze n r)
  obtain doc where f: "find_count_doc d n = Some doc" "cd_status doc = ''DRAFT''" "count_frame d d'" "count_inv d'"
    "t_count_docs d' = update_where (\<lambda>c. cd_id c = n) (\<lambda>c. c\<lparr>cd_status := ''FROZEN''\<rparr>) (t_count_docs d)"
    "lines_of_stock d (cd_warehouse_id doc) (doc_count_lines d' n)"
    by (rule freeze_doc_Inr [OF freeze(1) assms(2,3)])
  have "c = doc" if "c \<in> set (t_count_docs d)" "cd_id c = n" for c
    using find_count_doc_unique [OF _ that(1)] f(1) that(2) assms(3) by (simp add: count_inv_def)
  then have "docs_move d d'"
    using f(2) by (intro docs_move_update [OF f(5)])
      (auto simp: doc_moves_def count_moves_def is_active_def active_count_statuses_def)
  with f(4) assms(2) count_frame_inv [OF f(3)] show ?thesis by simp
next
  case (enter now n p r)
  from update_doc_lines_Inr [OF enter(1) assms(3)] have "count_frame d d'" "count_inv d'" "docs_move d d'"
    by metis+
  with assms(2) count_frame_inv [OF this(1)] show ?thesis by simp
next
  case (post now t eno tr n b out)
  from post_doc_step [OF post(1) assms(2,3) post(2)] show ?thesis .
next
  case (void n)
  note v = void_doc_Inr [OF void(1) assms(3)]
  from v(2,3) assms(2) count_frame_inv [OF v(1)] show ?thesis by simp
qed

definition closed_kept :: "db \<Rightarrow> db \<Rightarrow> bool" where
  "closed_kept d d' \<longleftrightarrow> (\<forall>c \<in> set (t_count_docs d). cd_status c \<in> {''POSTED'', ''VOIDED''} \<longrightarrow>
     c \<in> set (t_count_docs d'))"

interpretation closed: evolution closed_kept
  by standard (auto simp: closed_kept_def)

lemma docs_move_closed: "docs_move d d' \<Longrightarrow> closed_kept d d'"
  by (fastforce simp: docs_move_def closed_kept_def doc_moves_def is_active_def active_count_statuses_def)

lemma count_run:
  assumes "count_step\<^sup>*\<^sup>* d d'" and "warehouse_inv d" and "count_inv d"
  shows "warehouse_inv d' \<and> count_inv d' \<and> closed_kept d d'"
  using assms
proof (induction rule: rtranclp_induct)
  case (step e f)
  then have e: "warehouse_inv e" "count_inv e" "closed_kept d e" by auto
  with count_step_inv [OF step.hyps(2) e(1,2)] show ?case
    by (blast intro: closed.evo_trans docs_move_closed)
qed (simp add: closed.evo_refl)

section \<open>Sample data\<close>

definition sample_count_create :: count_create_in where
  "sample_count_create = \<lparr>cci_warehouse_id = 7, cci_snapshot_at = 4, cci_remark = None\<rparr>"

definition sample_counts :: "int \<Rightarrow> int \<Rightarrow> count_update_in" where
  "sample_counts a b = \<lparr>cui_counted_by_name_snapshot = ''Li'',
     cui_lines = [\<lparr>cp_line_id = 3, cp_counted_qty_input = a\<rparr>, \<lparr>cp_line_id = 4, cp_counted_qty_input = b\<rparr>]\<rparr>"

text \<open>The warehouse with a drafted, a frozen and a counted document.\<close>

definition drafted_db :: db where
  "drafted_db = (case count_create_doc 5 ''CT-1'' None sample_count_create ship_db of
     Inr (_, d) \<Rightarrow> d | Inl _ \<Rightarrow> ship_db)"

definition frozen_db :: db where
  "frozen_db = (case freeze_doc 3 drafted_db of Inr (_, d) \<Rightarrow> d | Inl _ \<Rightarrow> drafted_db)"

definition counted_db :: "int \<Rightarrow> int \<Rightarrow> db" where
  "counted_db a b = (case update_doc_lines 6 3 (sample_counts a b) frozen_db of
     Inr (_, d) \<Rightarrow> d | Inl _ \<Rightarrow> frozen_db)"

lemma stage_run: "returns r (\<lambda>_. True) \<Longrightarrow> \<exists>x. r = Inr (x, case r of Inr (_, d) \<Rightarrow> d | Inl _ \<Rightarrow> e)"
  by (cases r) (auto simp: returns_def)

lemma drafted_run: "\<exists>c. count_create_doc 5 ''CT-1'' None sample_count_create ship_db = Inr (c, drafted_db)"
  unfolding drafted_db_def by (rule stage_run) code_simp

lemma frozen_run: "\<exists>x. freeze_doc 3 drafted_db = Inr (x, frozen_db)"
  unfolding frozen_db_def by (rule stage_run) code_simp

lemma counted_run:
  "\<exists>x. update_doc_lines 6 3 (sample_counts 25 11) frozen_db = Inr (x, counted_db 25 11)"
  unfolding counted_db_def by (rule stage_run) code_simp

lemma ship_db_count_inv: "count_inv ship_db"
  by (simp add: count_inv_def count_docs_inv_def count_lines_inv_def count_snapshots_inv_def counted_inv_def
      ship_db_def lots_db_def sample_db_def)

lemma counted_db_steps:
  "count_step\<^sup>*\<^sup>* ship_db drafted_db" "count_step\<^sup>*\<^sup>* ship_db frozen_db" "count_step\<^sup>*\<^sup>* ship_db (counted_db 25 11)"
proof -
  from drafted_run show 1: "count_step\<^sup>*\<^sup>* ship_db drafted_db" by (auto intro: count_step.create)
  from frozen_run 1 show 2: "count_step\<^sup>*\<^sup>* ship_db frozen_db"
    by (auto intro: count_step.freeze rtranclp.rtrancl_into_rtrancl)
  from counted_run 2 show "count_step\<^sup>*\<^sup>* ship_db (counted_db 25 11)"
    by (auto intro: count_step.enter rtranclp.rtrancl_into_rtrancl)
qed

lemmas staged_inv = counted_db_steps [THEN count_run, OF ship_db_inv ship_db_count_inv]


section \<open>Surplus of lots with a code\<close>

text \<open>
  A positive adjustment of a lot that has a code needs a production date, and a count sends none.
\<close>

lemma coded_surplus_fails:
  assumes "0 < q" and "norm_lot_code (cs_lot_code_snapshot s) \<noteq> None" and "sub = ''COUNT_ADJUST''"
  shows "adjust_lot now (count_request doc l eid eno t tr sub s q) d \<noteq> Inr r"
proof
  assume "adjust_lot now (count_request doc l eid eno t tr sub s q) d = Inr r"
  then obtain ctx where c: "adjust_check now (count_request doc l eid eno t tr sub s q) d = Inr ctx"
    by (auto simp: adjust_lot_def adjust_lot_impl_def adjust_prep_def bindE_eq_Inr)
  have dates: "resolve_and_validate_dates_for_inbound d i q c None None \<noteq> Inr x" if "c \<noteq> None" for i c x
    using that assms(1)
    by (auto simp: resolve_and_validate_dates_for_inbound_def normalize_batch_dates_for_item_def)
  have "aq_lot_code (count_request doc l eid eno t tr sub s q) = cs_lot_code_snapshot s"
    "aq_production_date (count_request doc l eid eno t tr sub s q) = None"
    "aq_expiry_date (count_request doc l eid eno t tr sub s q) = None"
    by (simp_all add: count_request_def)
  with c dates [OF assms(2)] assms(1) show False
    by (auto simp: adjust_check_def Let_def res_simps)
qed

lemma consume_rest: "consume_snapshots now req rem ss d = Inr (r, d') \<Longrightarrow> rest_of d' = rest_of d"
proof (induction ss arbitrary: rem d r)
  case (Cons s ss)
  show ?case
  proof (cases "rem \<le> 0 \<or> cs_snapshot_qty_base s \<le> 0")
    case True
    with Cons show ?thesis by (cases "rem \<le> 0") auto
  next
    case False
    with Cons.prems obtain out d1 r1 where
      "adjust_lot now (req s (- min rem (cs_snapshot_qty_base s))) d = Inr (out, d1)"
      "consume_snapshots now req (rem - min rem (cs_snapshot_qty_base s)) ss d1 = Inr (r1, d')"
      by (auto simp: res_simps Let_def)
    with Cons.IH [OF this(2)] adjust_lot_rest [OF this(1)] show ?thesis by simp
  qed
qed simp

lemma post_line_diff_rest:
  "post_line_diff doc eid eno t tr l d = Inr (n, d') \<Longrightarrow> rest_of d' = rest_of d"
  by (auto simp: post_line_diff_def Let_def res_simps dest!: adjust_lot_rest consume_rest split: if_splits list.splits)

lemma mapE_rest_body:
  assumes "\<And>x s y s'. f x s = Inr (y, s') \<Longrightarrow> rest_of s' = rest_of s"
  shows "mapE f xs s = Inr (ys, s') \<Longrightarrow> x \<in> set xs \<Longrightarrow> \<exists>t y t'. f x t = Inr (y, t') \<and> rest_of t = rest_of s"
proof (induction xs arbitrary: s ys)
  case (Cons z zs)
  from Cons.prems(1) obtain y t us where r: "f z s = Inr (y, t)" "mapE f zs t = Inr (us, s')"
    by (auto simp: res_simps simp del: mapE.simps)
  show ?case
  proof (cases "x = z")
    case True
    with r(1) show ?thesis by blast
  next
    case False
    with Cons.IH [OF r(2)] Cons.prems(2) assms [OF r(1)] show ?thesis by auto
  qed
qed simp

lemma sum_at_key:
  assumes "distinct (map key xs)" and "x \<in> set xs"
  shows "(\<Sum>y \<leftarrow> xs. if key y = key x then f y else 0) = (f x :: int)"
proof -
  from assms(2) obtain as bs where xs: "xs = as @ x # bs" by (auto simp: in_set_conv_decomp)
  with assms(1) have "\<forall>y \<in> set as \<union> set bs. key y \<noteq> key x" by (auto simp: image_iff)
  then show ?thesis by (simp add: xs sum_if_none)
qed

section \<open>Properties\<close>

text \<open>
  A freeze copies the stock of the warehouse and nothing else: the draft becomes frozen, stock
  and ledger stay, every line holds the current stock of its item, every item with stock has a
  line, and no line is counted yet.
\<close>

theorem freeze_copies_stock:
  assumes "warehouse_inv d" and "count_inv d" and "freeze_doc n d = Inr (r, d')"
  shows "\<exists>doc. find_count_doc d n = Some doc \<and> cd_status doc = ''DRAFT'' \<and>
    find_count_doc d' n = Some (doc\<lparr>cd_status := ''FROZEN''\<rparr>) \<and>
    t_stocks d' = t_stocks d \<and> t_ledger d' = t_ledger d \<and>
    (\<forall>l \<in> set (doc_count_lines d' n). cl_counted_qty_base l = None \<and>
       cl_snapshot_qty_base l = get_available_for_item d (cd_warehouse_id doc) (cl_item_id l)) \<and>
    (\<forall>i. 0 < get_available_for_item d (cd_warehouse_id doc) i \<longrightarrow>
       (\<exists>l \<in> set (doc_count_lines d' n). cl_item_id l = i)) \<and>
    (\<forall>l \<in> set (doc_count_lines d' n).
       sum_list (map cs_snapshot_qty_base (line_snapshots d' (cl_id l))) = cl_snapshot_qty_base l)"
proof -
  obtain doc where f: "find_count_doc d n = Some doc" "cd_status doc = ''DRAFT''" "count_frame d d'" "count_inv d'"
    "t_count_docs d' = update_where (\<lambda>c. cd_id c = n) (\<lambda>c. c\<lparr>cd_status := ''FROZEN''\<rparr>) (t_count_docs d)"
    "lines_of_stock d (cd_warehouse_id doc) (doc_count_lines d' n)"
    by (rule freeze_doc_Inr [OF assms(3,1,2)])
  have "find_count_doc d' n = Some (doc\<lparr>cd_status := ''FROZEN''\<rparr>)"
    using f(1) find_count_doc_in [OF f(1)] by (simp add: find_count_doc_def f(5) find_update_where_same)
  moreover have "t_stocks d' = t_stocks d" "t_ledger d' = t_ledger d" using f(3) by (simp_all add: count_frame_def)
  moreover have "\<forall>l \<in> set (doc_count_lines d' n).
      sum_list (map cs_snapshot_qty_base (line_snapshots d' (cl_id l))) = cl_snapshot_qty_base l"
    using f(4) by (simp add: count_inv_def count_snapshots_inv_def doc_count_lines_def)
  ultimately show ?thesis using f(1,2,6) unfolding lines_of_stock_def by (auto simp: image_iff)
qed

lemma freeze_copies_stock_witness:
  "\<exists>l \<in> set (doc_count_lines frozen_db 3). cl_item_id l = 1 \<and> cl_snapshot_qty_base l = 30"
proof -
  from frozen_run obtain x where r: "freeze_doc 3 drafted_db = Inr (x, frozen_db)" ..
  have doc: "returns (case find_count_doc drafted_db 3 of None \<Rightarrow> Inl () | Some c \<Rightarrow> Inr c)
      (\<lambda>c. cd_warehouse_id c = 7)" by code_simp
  have q: "get_available_for_item drafted_db 7 1 = 30" by code_simp
  from freeze_copies_stock [OF _ _ r] staged_inv(1) doc q show ?thesis
    by (auto simp: returns_def split: option.splits) force
qed

text \<open>
  Entering counts: the last count sent for a line is the one it keeps, the difference of every
  counted line is its count minus the frozen quantity, and the document is counted as soon as every
  line has a count (and stays counted while counts are corrected).
\<close>

theorem entered_counts:
  assumes "count_inv d" and "update_doc_lines now n p d = Inr (r, d')"
  shows "count_inv d' \<and> t_stocks d' = t_stocks d \<and> t_ledger d' = t_ledger d \<and>
    list_all2 (\<lambda>l l'. cl_id l' = cl_id l \<and> cl_snapshot_qty_base l' = cl_snapshot_qty_base l \<and>
        cl_counted_qty_base l' = last_count (cui_lines p) (cl_id l) (cl_counted_qty_base l) \<and>
        cl_diff_qty_base l' = map_option (\<lambda>q. q - cl_snapshot_qty_base l) (cl_counted_qty_base l'))
      (doc_count_lines d n) (doc_count_lines d' n) \<and>
    (\<exists>doc doc'. find_count_doc d n = Some doc \<and> find_count_doc d' n = Some doc' \<and>
       cd_status doc \<in> {''FROZEN'', ''COUNTED''} \<and>
       cd_status doc' = (if all_counted d' n then ''COUNTED'' else ''FROZEN''))"
proof -
  from update_doc_lines_Inr [OF assms(2,1)] obtain doc b where
    u: "find_count_doc d n = Some doc" "cd_status doc \<in> {''FROZEN'', ''COUNTED''}" "count_frame d d'" "count_inv d'"
      "list_all2 (line_counted (cui_lines p)) (t_count_lines d) (t_count_lines d')"
      "find_count_doc d' n = Some (count_entered now b (all_counted d' n) doc)" by metis
  have ok: "count_line_checks l" if "l \<in> set (doc_count_lines d' n)" for l
    using u(4) that by (auto simp: count_inv_def count_lines_inv_def doc_count_lines_def)
  have diff: "cl_diff_qty_base l = map_option (\<lambda>q. q - cl_snapshot_qty_base l) (cl_counted_qty_base l)"
    if "count_line_checks l" for l
    using that by (auto simp: count_line_checks_def split: option.splits)
  have "list_all2 (line_counted (cui_lines p)) (doc_count_lines d n) (doc_count_lines d' n)"
    unfolding doc_count_lines_def by (rule line_counted_keys(4) [OF u(5)])
  then have "list_all2 (\<lambda>l l'. cl_id l' = cl_id l \<and> cl_snapshot_qty_base l' = cl_snapshot_qty_base l \<and>
        cl_counted_qty_base l' = last_count (cui_lines p) (cl_id l) (cl_counted_qty_base l) \<and>
        cl_diff_qty_base l' = map_option (\<lambda>q. q - cl_snapshot_qty_base l) (cl_counted_qty_base l'))
      (doc_count_lines d n) (doc_count_lines d' n)"
    by (rule list.rel_mono_strong) (use ok diff in \<open>simp add: line_counted_def\<close>)
  moreover have "cd_status doc = ''COUNTED'' \<longrightarrow> all_counted d' n"
    using assms(1) find_count_doc_in [OF u(1)] line_counted_all [OF u(5), of n]
    by (auto simp: count_inv_def counted_inv_def)
  ultimately show ?thesis using u(1-4,6) by (auto simp: count_frame_def)
qed

lemma entered_counts_witness:
  "\<exists>doc'. find_count_doc (counted_db 25 11) 3 = Some doc' \<and> cd_status doc' = ''COUNTED''"
proof -
  from counted_run obtain x where "update_doc_lines 6 3 (sample_counts 25 11) frozen_db = Inr (x, counted_db 25 11)" ..
  from entered_counts [OF _ this] staged_inv(2)
  have "\<exists>doc'. find_count_doc (counted_db 25 11) 3 = Some doc' \<and>
      cd_status doc' = (if all_counted (counted_db 25 11) 3 then ''COUNTED'' else ''FROZEN'')" by blast
  moreover have "all_counted (counted_db 25 11) 3" by code_simp
  ultimately show ?thesis by simp
qed


text \<open>
  C17. Posting a count settles the difference of every line: the first posting of a counted document,
  under an event number the ledger does not know, moves the stock of an item of the document by
  exactly counted minus frozen quantity and leaves every other item of the warehouse alone, through
  ledger rows that carry the new event; a line whose stock did not move since the freeze ends at its
  count.
\<close>

theorem post_settles_counts:
  assumes "warehouse_inv d" and "count_inv d" and "find_count_doc d n = Some doc"
    and "cd_status doc \<noteq> ''POSTED''" and "post_doc now t eno tr n by d = Inr ((eid, t'), d')"
    and "\<forall>x \<in> set (t_ledger d). lg_ref x \<noteq> eno"
  shows "warehouse_inv d' \<and>
    (\<forall>l \<in> set (doc_count_lines d n). \<exists>q. cl_counted_qty_base l = Some q \<and>
       get_available_for_item d' (cd_warehouse_id doc) (cl_item_id l) =
         get_available_for_item d (cd_warehouse_id doc) (cl_item_id l) + q - cl_snapshot_qty_base l) \<and>
    (\<forall>i. i \<notin> cl_item_id ` set (doc_count_lines d n) \<longrightarrow>
       get_available_for_item d' (cd_warehouse_id doc) i = get_available_for_item d (cd_warehouse_id doc) i) \<and>
    (\<exists>rows. t_ledger d' = t_ledger d @ rows \<and> (\<forall>r \<in> set rows. lg_event_id r = Some eid \<and> lg_ref r = eno)) \<and>
    (\<exists>doc'. find_count_doc d' n = Some doc' \<and> cd_status doc' = ''POSTED'' \<and> cd_posted_event_id doc' = Some eid)"
proof -
  let ?w = "cd_warehouse_id doc" and ?ls = "doc_count_lines d n"
  obtain rows doc' where p: "cd_status doc = ''COUNTED''" "warehouse_inv d'" "count_inv d'" "docs_move d d'"
      "posts d rows d'" "\<forall>r \<in> set rows. \<exists>l \<in> set ?ls. count_row doc eid eno l r"
      "\<forall>i. item_rows ?w i rows = (\<Sum>l \<leftarrow> ?ls. if cl_item_id l = i then line_diff l else 0)"
      "t_count_lines d' = t_count_lines d" "find_count_doc d' n = Some doc'" "cd_status doc' = ''POSTED''"
      "cd_posted_event_id doc' = Some eid" "cd_posted_at doc' = Some t'"
    by (rule post_doc_Inr [OF assms(5,3,4,1,2,6), unfolded fst_conv snd_conv])
  note book = warehouse_invD(2) [OF assms(1)]
  have total: "get_available_for_item d' ?w i = get_available_for_item d ?w i +
      (\<Sum>l \<leftarrow> ?ls. if cl_item_id l = i then line_diff l else 0)" for i
    using posts_item_total [OF p(5) book, of ?w i] p(7) by simp
  have full: "all_counted d n"
    using assms(2) find_count_doc_in [OF assms(3)] p(1) by (auto simp: count_inv_def counted_inv_def)
  have one: "(\<Sum>k \<leftarrow> ?ls. if cl_item_id k = cl_item_id l then line_diff k else 0) = line_diff l"
    if "l \<in> set ?ls" for l
    by (rule sum_at_key [OF count_inv_doc_lines(2) [OF assms(2)] that])
  have line: "\<exists>q. cl_counted_qty_base l = Some q \<and> line_diff l = q - cl_snapshot_qty_base l" if "l \<in> set ?ls" for l
  proof -
    from that assms(2) have "count_line_checks l" by (auto simp: count_inv_def count_lines_inv_def doc_count_lines_def)
    with that full show ?thesis
      by (auto simp: all_counted_def count_line_checks_def line_diff_def split: option.splits)
  qed
  have "\<exists>rows. t_ledger d' = t_ledger d @ rows \<and> (\<forall>r \<in> set rows. lg_event_id r = Some eid \<and> lg_ref r = eno)"
    using posts_ledger [OF p(5) book] p(6) by (auto simp: count_row_def)
  moreover have "get_available_for_item d' ?w i = get_available_for_item d ?w i"
    if "i \<notin> cl_item_id ` set ?ls" for i
    using total [of i] sum_where_none [of ?ls "\<lambda>l. cl_item_id l = i" line_diff] that
    by (auto simp: sum_where_eq image_iff)
  moreover have "\<exists>q. cl_counted_qty_base l = Some q \<and> get_available_for_item d' ?w (cl_item_id l) =
      get_available_for_item d ?w (cl_item_id l) + q - cl_snapshot_qty_base l" if "l \<in> set ?ls" for l
    using line [OF that] one [OF that] total [of "cl_item_id l"] by auto
  ultimately show ?thesis using p(2,9-11) by blast
qed


definition sample_post :: "db \<Rightarrow> ((int \<times> int) \<times> db) result" where
  "sample_post d = post_doc 8 8 ''CNT-1'' ''T-9'' 3 ''Wu'' d"

lemma sample_post_runs:
  "\<exists>out d'. post_doc 8 8 ''CNT-1'' ''T-9'' 3 ''Wu'' (counted_db 25 11) = Inr (out, d')"
proof -
  have "returns (sample_post (counted_db 25 11)) (\<lambda>_. True)" by code_simp
  then show ?thesis by (auto simp: returns_pair sample_post_def)
qed

lemma post_settles_counts_witness:
  "\<exists>out d'. post_doc 8 8 ''CNT-1'' ''T-9'' 3 ''Wu'' (counted_db 25 11) = Inr (out, d') \<and>
     get_available_for_item (counted_db 25 11) 7 2 = 8 \<and> get_available_for_item d' 7 2 = 11"
proof -
  from sample_post_runs obtain eid t' d' where
    r: "post_doc 8 8 ''CNT-1'' ''T-9'' 3 ''Wu'' (counted_db 25 11) = Inr ((eid, t'), d')" by auto
  have "returns (case find_count_doc (counted_db 25 11) 3 of None \<Rightarrow> Inl () | Some c \<Rightarrow> Inr c)
      (\<lambda>c. cd_warehouse_id c = 7 \<and> cd_status c = ''COUNTED'')" by code_simp
  then obtain doc where doc: "find_count_doc (counted_db 25 11) 3 = Some doc" "cd_warehouse_id doc = 7"
    "cd_status doc \<noteq> ''POSTED''" by (auto simp: returns_def split: option.splits)
  have "list_all (\<lambda>x. lg_ref x \<noteq> ''CNT-1'') (t_ledger (counted_db 25 11))" by code_simp
  then have new: "\<forall>x \<in> set (t_ledger (counted_db 25 11)). lg_ref x \<noteq> ''CNT-1''" by (simp add: list_all_iff)
  have "list_ex (\<lambda>l. cl_item_id l = 2 \<and> cl_counted_qty_base l = Some 11 \<and> cl_snapshot_qty_base l = 8)
      (doc_count_lines (counted_db 25 11) 3)" by code_simp
  then obtain l where l: "l \<in> set (doc_count_lines (counted_db 25 11) 3)" "cl_item_id l = 2"
    "cl_counted_qty_base l = Some 11" "cl_snapshot_qty_base l = 8" by (auto simp: list_ex_iff)
  have q: "get_available_for_item (counted_db 25 11) 7 2 = 8" by code_simp
  have inv: "warehouse_inv (counted_db 25 11)" "count_inv (counted_db 25 11)" using staged_inv(3) by blast+
  from post_settles_counts [OF inv doc(1,3) r new]
  have "\<forall>l \<in> set (doc_count_lines (counted_db 25 11) 3). \<exists>q. cl_counted_qty_base l = Some q \<and>
       get_available_for_item d' (cd_warehouse_id doc) (cl_item_id l) =
         get_available_for_item (counted_db 25 11) (cd_warehouse_id doc) (cl_item_id l) + q - cl_snapshot_qty_base l"
    by blast
  from bspec [OF this l(1)] l(2-4) doc(2) q have "get_available_for_item d' 7 2 = 11" by simp
  with r q show ?thesis by blast
qed

text \<open>
  Posting is idempotent: once a posting has succeeded, every later posting of the document,
  whoever reviews it and whatever event number it brings, answers with the same event and changes
  nothing.
\<close>

theorem posting_again:
  assumes "warehouse_inv d" and "count_inv d" and "post_doc now t eno tr n by d = Inr (out, d')"
    and "\<forall>x \<in> set (t_ledger d). lg_ref x \<noteq> eno"
  shows "post_doc now2 t2 eno2 tr2 n by2 d' = Inr (out, d')"
proof -
  from assms(3) obtain doc where doc: "find_count_doc d n = Some doc"
    by (auto simp: post_doc_def require_doc_def bindE_eq_Inr of_option_eq_Inr)
  show ?thesis
  proof (cases "cd_status doc = ''POSTED''")
    case True
    with post_doc_posted [OF assms(3) doc] post_doc_again [OF doc] show ?thesis by auto
  next
    case False
    obtain rows doc' where "cd_status doc = ''COUNTED''" "warehouse_inv d'" "count_inv d'" "docs_move d d'"
      "posts d rows d'" "\<forall>r \<in> set rows. \<exists>l \<in> set (doc_count_lines d n). count_row doc (fst out) eno l r"
      "\<forall>i. item_rows (cd_warehouse_id doc) i rows =
         (\<Sum>l \<leftarrow> doc_count_lines d n. if cl_item_id l = i then line_diff l else 0)"
      "t_count_lines d' = t_count_lines d" and
      doc': "find_count_doc d' n = Some doc'" "cd_status doc' = ''POSTED''"
      "cd_posted_event_id doc' = Some (fst out)" "cd_posted_at doc' = Some (snd out)"
      by (rule post_doc_Inr [OF assms(3) doc False assms(1,2,4)])
    from post_doc_again [OF doc'] show ?thesis by simp
  qed
qed

lemma posting_again_witness:
  "\<exists>out d'. post_doc 8 8 ''CNT-1'' ''T-9'' 3 ''Wu'' (counted_db 25 11) = Inr (out, d') \<and>
     post_doc 9 9 ''CNT-2'' ''T-10'' 3 ''Zhao'' d' = Inr (out, d')"
proof -
  from sample_post_runs obtain out d' where
    r: "post_doc 8 8 ''CNT-1'' ''T-9'' 3 ''Wu'' (counted_db 25 11) = Inr (out, d')" by blast
  have "list_all (\<lambda>x. lg_ref x \<noteq> ''CNT-1'') (t_ledger (counted_db 25 11))" by code_simp
  with posting_again [OF _ _ r] staged_inv(3) r show ?thesis by (auto simp: list_all_iff)
qed

text \<open>
  C18. The states of a count document: in every state reachable by creating, freezing, counting,
  posting (under new event numbers) and voiding, stock and ledger agree, a warehouse has at most
  one document that is neither posted nor voided, a counted document has a count for each line, and
  a document that was posted or voided is still there, unchanged.
\<close>

theorem count_document_life:
  assumes "warehouse_inv d" and "count_inv d" and "count_step\<^sup>*\<^sup>* d d'"
  shows "warehouse_inv d' \<and>
    (\<forall>a \<in> set (t_count_docs d'). \<forall>b \<in> set (t_count_docs d'). is_active a \<and> is_active b \<and>
       cd_warehouse_id a = cd_warehouse_id b \<longrightarrow> a = b) \<and>
    (\<forall>c \<in> set (t_count_docs d'). cd_status c = ''COUNTED'' \<longrightarrow> all_counted d' (cd_id c)) \<and>
    (\<forall>c \<in> set (t_count_docs d). cd_status c \<in> {''POSTED'', ''VOIDED''} \<longrightarrow> c \<in> set (t_count_docs d'))"
proof -
  note r = count_run [OF assms(3,1,2)]
  have "distinct (map cd_warehouse_id (filter is_active (t_count_docs d')))"
    using r by (simp add: count_inv_def count_docs_inv_def)
  then have "inj_on cd_warehouse_id (set (filter is_active (t_count_docs d')))" by (simp only: distinct_map)
  then have "a = b" if "a \<in> set (t_count_docs d')" "b \<in> set (t_count_docs d')" "is_active a" "is_active b"
    "cd_warehouse_id a = cd_warehouse_id b" for a b
    using that by (auto dest: inj_onD)
  then show ?thesis using r by (auto simp: count_inv_def counted_inv_def closed_kept_def)
qed

lemma count_document_life_witness:
  "count_step\<^sup>*\<^sup>* ship_db (counted_db 25 11) \<and>
   (\<exists>c \<in> set (t_count_docs (counted_db 25 11)). cd_status c = ''COUNTED'' \<and> all_counted (counted_db 25 11) (cd_id c))"
proof -
  have "list_ex (\<lambda>c. cd_status c = ''COUNTED'') (t_count_docs (counted_db 25 11))" by code_simp
  then obtain c where "c \<in> set (t_count_docs (counted_db 25 11))" "cd_status c = ''COUNTED''"
    by (auto simp: list_ex_iff)
  with count_document_life [OF ship_db_inv ship_db_count_inv counted_db_steps(3)] counted_db_steps(3)
  show ?thesis by blast
qed

text \<open>
  A surplus of a lot with a code cannot be posted: if a counted line has more stock than was
  frozen and the lot the surplus would go to has a code, every posting of the document fails, in
  every state (the adjustment asks for a production date, which a count has no field for).
\<close>

theorem coded_surplus_never_posts:
  assumes "find_count_doc d n = Some doc" and "cd_status doc \<noteq> ''POSTED''"
    and "l \<in> set (doc_count_lines d n)" and "cl_diff_qty_base l = Some q" and "0 < q"
    and "get_line_lot_snapshots d (cl_id l) = target # rest"
    and "norm_lot_code (cs_lot_code_snapshot target) \<noteq> None"
  shows "\<exists>e. post_doc now t eno tr n by d = Inl e"
proof (rule ccontr)
  assume "\<nexists>e. post_doc now t eno tr n by d = Inl e"
  then obtain out d' where run: "post_doc now t eno tr n by d = Inr (out, d')"
    by (cases "post_doc now t eno tr n by d") auto
  from post_doc_first [OF run assms(1,2)] obtain b doc1 d2 ns d3 where
    r: "insert_event (count_event now t eno tr doc1) (set_reviewed_by_name_snapshot n b d) = Inr (fst out, d2)"
      "mapE (post_line_diff doc1 (fst out) eno t tr) (doc_count_lines d n) d2 = Inr (ns, d3)" by metis
  have "\<exists>s y s'. post_line_diff doc1 (fst out) eno t tr l s = Inr (y, s') \<and> rest_of s = rest_of d2"
    by (rule mapE_rest_body [OF _ r(2) assms(3)]) (rule post_line_diff_rest)
  then obtain s y s' where
    s: "post_line_diff doc1 (fst out) eno t tr l s = Inr (y, s')" "rest_of s = rest_of d2" by blast
  have "t_count_snapshots s = t_count_snapshots d"
    using rest_ofD(14) [OF s(2)] by (simp add: insert_event_Inr(2) [OF r(1)] set_reviewed_by_name_snapshot_def set_count_doc_def)
  then have snaps: "get_line_lot_snapshots s (cl_id l) = target # rest"
    using assms(6) by (simp add: get_line_lot_snapshots_def)
  with s(1) assms(4,5) obtain r d4 where
    "adjust_lot t (count_request doc1 l (fst out) eno t tr ''COUNT_ADJUST'' target q) s = Inr (r, d4)"
    by (auto simp: post_line_diff_def Let_def res_simps)
  with coded_surplus_fails [OF assms(5,7) refl] show False by blast
qed

lemma coded_surplus_never_posts_witness:
  "\<exists>e. sample_post (counted_db 31 8) = Inl e"
proof -
  have "returns (case find_count_doc (counted_db 31 8) 3 of None \<Rightarrow> Inl () | Some c \<Rightarrow> Inr c)
      (\<lambda>c. cd_status c = ''COUNTED'')" by code_simp
  then obtain doc where doc: "find_count_doc (counted_db 31 8) 3 = Some doc" "cd_status doc \<noteq> ''POSTED''"
    by (auto simp: returns_def split: option.splits)
  have "list_ex (\<lambda>l. cl_diff_qty_base l = Some 1 \<and> cl_id l = 3) (doc_count_lines (counted_db 31 8) 3)" by code_simp
  then obtain l where l: "l \<in> set (doc_count_lines (counted_db 31 8) 3)" "cl_diff_qty_base l = Some 1" "cl_id l = 3"
    by (auto simp: list_ex_iff)
  have "map (\<lambda>s. norm_lot_code (cs_lot_code_snapshot s)) (get_line_lot_snapshots (counted_db 31 8) 3) = [Some ''A'']"
    by code_simp
  then obtain target where target: "get_line_lot_snapshots (counted_db 31 8) (cl_id l) = [target]"
    "norm_lot_code (cs_lot_code_snapshot target) \<noteq> None" unfolding l(3) by (auto simp: map_eq_Cons_conv)
  show ?thesis unfolding sample_post_def
    by (rule coded_surplus_never_posts [OF doc l(1,2) _ target]) simp
qed

text \<open>
  The freeze ends when the last line is counted, not when the count is posted: a warehouse
  whose document is counted accepts shipments again, the posting then books the difference against
  the frozen quantity, and the stock ends below what was counted by what was shipped in between.
\<close>

theorem counted_warehouse_ships:
  "returns (submit_order_outbound_event 9 1 7 None ''T-1'' sample_order_submit None (counted_db 25 8))
     (\<lambda>(_, d1). get_available_for_item d1 7 1 = 18 \<and>
        returns (sample_post d1) (\<lambda>(_, d2). get_available_for_item d2 7 1 = 13)) \<and>
   \<not> returns (submit_order_outbound_event 9 1 7 None ''T-1'' sample_order_submit None frozen_db) (\<lambda>_. True)"
proof
  show "returns (submit_order_outbound_event 9 1 7 None ''T-1'' sample_order_submit None (counted_db 25 8))
     (\<lambda>(_, d1). get_available_for_item d1 7 1 = 18 \<and>
        returns (sample_post d1) (\<lambda>(_, d2). get_available_for_item d2 7 1 = 13))" by code_simp
  show "\<not> returns (submit_order_outbound_event 9 1 7 None ''T-1'' sample_order_submit None frozen_db) (\<lambda>_. True)"
    by code_simp
qed

end
