(* ===== verification/SpotCount.thy ===== *)
theory SpotCount
  imports CountRuns Outbound
begin

text \<open>
  Counts of a single lot, without a document: \<open>count_service.py\<close> with its repository
  (\<open>count_repo.py\<close>), contract (\<open>contracts/count.py\<close>) and route (\<open>routers/count.py\<close>), and the
  maintenance route \<open>stock_inventory_recount.py\<close>. A \<open>datetime\<close> in a date field stands for its
  date: both users of it (\<open>ensure_lot_full\<close>, \<open>normalize_batch_dates_for_item\<close>) take the date
  first. The reference of a recount, built from the device and the clock, and the row it adds to
  \<open>event_log\<close> are left out of the state; the reference is an argument.
\<close>

section \<open>contracts/count.py, count\_repo.py\<close>

record count_request_in =
  cq_item_id :: int
  cq_warehouse_id :: int
  cq_qty :: int
  cq_ref :: string
  cq_lot_code :: "string option"
  cq_occurred_at :: int
  cq_production_date :: "date option"
  cq_expiry_date :: "date option"

record count_response =
  cr_after :: int
  cr_ref :: string
  cr_item_id :: int
  cr_warehouse_id :: int
  cr_lot_code :: "string option"
  cr_occurred_at :: int

text \<open>\<open>str_strip_whitespace\<close> and the bounds of the fields.\<close>

definition count_request_parsed :: "count_request_in \<Rightarrow> count_request_in option" where
  "count_request_parsed p =
     (if 1 \<le> cq_warehouse_id p \<and> 0 \<le> cq_qty p
      then Some (p\<lparr>cq_ref := py_strip (cq_ref p), cq_lot_code := map_option py_strip (cq_lot_code p)\<rparr>)
      else None)"

definition get_item_expiry_policy_text :: "db \<Rightarrow> int \<Rightarrow> expiry_policy result" where
  "get_item_expiry_policy_text d i =
     of_option (LookupError ''unknown item_id'') (fetch_item_expiry_policy_map d {i} i)"

text \<open>The left join on \<open>lots\<close>, and a null code that equals a null code.\<close>

definition slot_lot_code :: "db \<Rightarrow> int \<Rightarrow> string option" where
  "slot_lot_code d lid = (case find_lot d lid of None \<Rightarrow> None | Some l \<Rightarrow> lot_code l)"

definition get_current_qty_by_lot_code :: "db \<Rightarrow> int \<Rightarrow> int \<Rightarrow> string option \<Rightarrow> int" where
  "get_current_qty_by_lot_code d i w code =
     sum_where (\<lambda>s. sl_item_id s = i \<and> sl_warehouse_id s = w \<and> slot_lot_code d (sl_lot_id s) = code)
       sl_qty (t_stocks d)"

section \<open>count\_service.py and its route\<close>

definition spot_request :: "count_request_in \<Rightarrow> int \<Rightarrow> string option \<Rightarrow> int \<Rightarrow> adjust_req" where
  "spot_request p lid lcode delta =
     \<lparr>aq_item_id = cq_item_id p, aq_warehouse_id = cq_warehouse_id p, aq_lot_id = Some lid,
      aq_delta = delta, aq_reason = Inr ADJUSTMENT, aq_ref = cq_ref p, aq_ref_line = Some 1,
      aq_occurred_at = Some (cq_occurred_at p),
      aq_meta = (''sub_reason'', PStr (if delta \<noteq> 0 then ''COUNT_ADJUST'' else ''COUNT_CONFIRM'')) #
        (if delta = 0 then [(''allow_zero_delta_ledger'', PBool True)] else []),
      aq_lot_code = lcode, aq_production_date = cq_production_date p,
      aq_expiry_date = cq_expiry_date p, aq_trace_id = None\<rparr>"

definition count_submit :: "count_request_in \<Rightarrow> count_response tx" where
  "count_submit p d =
     bindE (ensure_warehouse_not_frozen d (cq_warehouse_id p)) (\<lambda>_.
     bindE (get_item_expiry_policy_text d (cq_item_id p)) (\<lambda>policy.
     let rb = (policy = EXPIRY_REQUIRED) in
     bindE (validate_lot_code_contract rb (cq_lot_code p)) (\<lambda>lcode.
     if rb \<and> cq_production_date p = None \<and> cq_expiry_date p = None
     then Inl (ValueError ''requires production_date or expiry_date'')
     else
       bindE (resolve_lot_for_stock_adjust (cq_item_id p) (cq_warehouse_id p) lcode None
                (cq_production_date p) (cq_expiry_date p) d) (\<lambda>((lid, lcode'), d1).
       let current = get_current_qty_by_lot_code d1 (cq_item_id p) (cq_warehouse_id p) lcode';
           delta = cq_qty p - current in
       bindE (adjust_lot (cq_occurred_at p) (spot_request p lid lcode' delta) d1) (\<lambda>(out, d2).
       Inr (\<lparr>cr_after = (case out of Applied r \<Rightarrow> ar_after r | Noop \<Rightarrow> cq_qty p), cr_ref = cq_ref p,
              cr_item_id = cq_item_id p, cr_warehouse_id = cq_warehouse_id p, cr_lot_code = lcode',
              cr_occurred_at = cq_occurred_at p\<rparr>, d2))))))"

text \<open>
  The route: how it answers an exception, and what is left in the database after the request. It
  never commits, and the session of a request is closed, with a roll back, when the request ends.
\<close>

definition count_inventory :: "count_request_in \<Rightarrow> count_response tx" where
  "count_inventory p d = (case count_submit p d of
       Inr (out, _) \<Rightarrow> Inr (out, d)
     | Inl (LookupError m) \<Rightarrow> Inl (HTTPException 422 m)
     | Inl (ValueError m) \<Rightarrow> Inl (HTTPException 400 m)
     | Inl (HTTPException c m) \<Rightarrow> Inl (HTTPException c m)
     | Inl (RuntimeError m) \<Rightarrow> Inl (HTTPException 500 m)
     | Inl (OverflowError m) \<Rightarrow> Inl (HTTPException 500 m)
     | Inl (IntegrityError m) \<Rightarrow> Inl (HTTPException 500 m)
     | Inl (DataError m) \<Rightarrow> Inl (HTTPException 500 m))"

section \<open>stock\_inventory\_recount.py\<close>

record recount_in =
  rc_item_id :: int
  rc_warehouse_id :: int
  rc_lot_code :: "string option"
  rc_actual :: int

record recount_out =
  ro_on_hand :: int
  ro_actual :: int
  ro_delta :: int

definition recount_valid :: "recount_in \<Rightarrow> bool" where
  "recount_valid p \<longleftrightarrow> 1 \<le> rc_warehouse_id p \<and> 0 \<le> rc_actual p"

definition recount_request :: "recount_in \<Rightarrow> string \<Rightarrow> int \<Rightarrow> string option \<Rightarrow> int \<Rightarrow> adjust_req" where
  "recount_request p scan_ref lid lcode delta =
     \<lparr>aq_item_id = rc_item_id p, aq_warehouse_id = rc_warehouse_id p, aq_lot_id = Some lid,
      aq_delta = delta, aq_reason = Inl ''COUNT'', aq_ref = scan_ref, aq_ref_line = None,
      aq_occurred_at = None, aq_meta = [], aq_lot_code = lcode, aq_production_date = None,
      aq_expiry_date = None, aq_trace_id = None\<rparr>"

definition stock_recount :: "int \<Rightarrow> string \<Rightarrow> recount_in \<Rightarrow> recount_out tx" where
  "stock_recount now scan_ref p d =
     bindE (ensure_warehouse_not_frozen d (rc_warehouse_id p)) (\<lambda>_.
     let on_hand = get_current_qty_by_lot_code d (rc_item_id p) (rc_warehouse_id p) (rc_lot_code p);
         delta = rc_actual p - on_hand;
         out = \<lparr>ro_on_hand = on_hand, ro_actual = rc_actual p, ro_delta = delta\<rparr> in
     if delta = 0 then Inr (out, d)
     else
       bindE (resolve_lot_for_stock_adjust (rc_item_id p) (rc_warehouse_id p) (rc_lot_code p) None
                None None d) (\<lambda>((lid, lcode), d1).
       bindE (adjust_lot now (recount_request p scan_ref lid lcode delta) d1) (\<lambda>(_, d2).
       Inr (out, d2))))"

section \<open>The lot that is resolved\<close>

lemma resolve_lot_code_normal:
  assumes "resolve_lot_for_stock_adjust i w code None pd ed d = Inr ((n, c), d1)"
  shows "c = None \<longleftrightarrow> code = None" "c \<noteq> None \<Longrightarrow> requires_batch d i = Inr True"
    "c = None \<Longrightarrow> requires_batch d i = Inr False"
  using assms
  by (auto simp: resolve_lot_for_stock_adjust_def validate_lot_code_contract_def res_simps Let_def
      normalize_optional_lot_code_def split: if_splits option.splits)

lemma resolve_internal_code:
  assumes "resolve_lot_for_stock_adjust i w None None pd ed d = Inr ((n, c), d1)" and "lots_inv d"
  shows "slot_lot_code d1 n = None" "c = None"
proof -
  show c: "c = None" using resolve_lot_code_normal(1) [OF assms(1)] by simp
  from assms(1) have "ensure_internal_lot_singleton i w None None d = Inr (n, d1)"
    by (auto simp: resolve_lot_for_stock_adjust_def validate_lot_code_contract_def res_simps
        normalize_optional_lot_code_def ensure_internal_lot_id_def split: if_splits)
  with assms(2) have g: "get_internal_lot d1 i w = Some n" and inv: "lots_inv d1"
    using ensure_internal_lot_singleton_get ensure_internal_lot_singleton_grow lots_grow_inv by blast+
  from g obtain l where "l \<in> set (t_lots d1)" "lot_id l = n" "lot_code l = None"
    unfolding internal_lot_iff [OF inv] by blast
  with lots_inv_find [OF inv this(1)] show "slot_lot_code d1 n = None" by (simp add: slot_lot_code_def)
qed


lemma resolve_supplier_code:
  assumes "resolve_lot_for_stock_adjust i w (Some code) None None None d = Inr ((n, c), d1)"
    and "lots_inv d" and "py_strip code = code"
  shows "slot_lot_code d1 n = Some code" "c = Some code"
proof -
  have "c \<noteq> None" using resolve_lot_code_normal(1) [OF assms(1)] by simp
  note req = resolve_lot_code_normal(2) [OF assms(1) this]
  from assms(1,3) req show c: "c = Some code"
    by (auto simp: resolve_lot_for_stock_adjust_def validate_lot_code_contract_def res_simps Let_def
        normalize_optional_lot_code_def split: if_splits option.splits)
  from assms(1) c have full: "ensure_lot_full i w code None None d = Inr (n, d1)"
    by (auto simp: resolve_lot_for_stock_adjust_def res_simps ensure_supplier_lot_id_def)
  have "get_supplier_lot_ids_by_lot_code d i w code = [n]"
    using full assms(3)
    by (auto simp: ensure_lot_full_def normalize_lot_code_def complete_lot_dates_def res_simps Let_def
        split: if_splits)
  then have "n \<in> set (get_supplier_lot_ids_by_lot_code d i w code)" by simp
  then obtain l where l: "l \<in> set (t_lots d)" "lot_id l = n" "lot_code l = Some code"
    unfolding get_supplier_lot_ids_by_lot_code_def by (auto dest!: in_set_takeD)
  have g: "lots_grow d d1" by (rule ensure_lot_full_grow [OF full])
  from lots_inv_find [OF assms(2) l(1)] l(2) have "find_lot d n = Some l" by simp
  from lots_grow_find [OF g this] l(3) show "slot_lot_code d1 n = Some code"
    by (auto simp: slot_lot_code_def lot_le_def)
qed

text \<open>The stock under a code after an adjustment of a lot that carries the code.\<close>

lemma code_total_adjusted:
  assumes run: "adjust_lot now q d = Inr (out, d')" and inv: "warehouse_inv d"
    and q: "aq_delta q \<noteq> 0 \<or> meta_bool (aq_meta q) ''allow_zero_delta_ledger''" "aq_lot_id q = Some n"
    and code: "slot_lot_code d n = c" and new: "\<forall>x \<in> set (t_ledger d). lg_ref x \<noteq> aq_ref q"
  shows "get_current_qty_by_lot_code d' (aq_item_id q) (aq_warehouse_id q) c =
      get_current_qty_by_lot_code d (aq_item_id q) (aq_warehouse_id q) c + aq_delta q"
    "s \<noteq> (aq_warehouse_id q, aq_item_id q, n) \<Longrightarrow> slot_qty d' s = slot_qty d s"
    "\<exists>x. t_ledger d' = t_ledger d @ [x] \<and> lg_ref x = aq_ref q \<and> lg_delta x = aq_delta q"
proof -
  have key: "adjust_key q n \<notin> ledger_key ` set (t_ledger d)"
    using new by (auto simp: adjust_key_def ledger_key_def)
  note book = warehouse_invD(2) [OF inv]
  obtain cx where cx: "adjust_prep now q d = Inr (Some cx)" "cx_lot_id cx = n"
    "posts d [adjust_row q cx (slot_qty d (adjust_slot q n)) (t_next_id d STOCK_LEDGER)] d'"
    by (rule adjust_lot_booked [OF run book q key])
  let ?row = "adjust_row q cx (slot_qty d (adjust_slot q n)) (t_next_id d STOCK_LEDGER)"
  have slot: "ledger_slot ?row = (aq_warehouse_id q, aq_item_id q, n)" by (simp add: adjust_slot_def cx(2))
  let ?Q = "\<lambda>(w, i, lid). i = aq_item_id q \<and> w = aq_warehouse_id q \<and> slot_lot_code d lid = c"
  have lots: "slot_lot_code d' = slot_lot_code d"
    using posts_lots [OF cx(3)] by (intro ext) (simp add: slot_lot_code_def find_lot_def)
  show "get_current_qty_by_lot_code d' (aq_item_id q) (aq_warehouse_id q) c =
      get_current_qty_by_lot_code d (aq_item_id q) (aq_warehouse_id q) c + aq_delta q"
    using posts_slots_total [OF cx(3) book, of ?Q] code slot
    by (simp add: get_current_qty_by_lot_code_def lots stock_slot_def)
  show "slot_qty d' s = slot_qty d s" if "s \<noteq> (aq_warehouse_id q, aq_item_id q, n)"
    using posts_qty [OF cx(3) book, of s] that slot by simp
  show "\<exists>x. t_ledger d' = t_ledger d @ [x] \<and> lg_ref x = aq_ref q \<and> lg_delta x = aq_delta q"
    using posts_ledger [OF cx(3) book] by (intro exI [of _ ?row]) simp
qed


lemma grown_frame:
  assumes "lots_grow d d1" and "warehouse_inv d"
  shows "warehouse_inv d1" "t_ledger d1 = t_ledger d" "slot_qty d1 s = slot_qty d s"
  using lots_grow_warehouse_inv [OF assms] lots_grow_frame [OF assms(1)]
  by (simp_all add: slot_qty_def slot_row_def)

section \<open>Properties\<close>

definition sample_spot :: "int \<Rightarrow> int \<Rightarrow> string option \<Rightarrow> date option \<Rightarrow> string \<Rightarrow> count_request_in" where
  "sample_spot i q lcode pd ref = \<lparr>cq_item_id = i, cq_warehouse_id = 7, cq_qty = q, cq_ref = ref,
     cq_lot_code = lcode, cq_occurred_at = 5, cq_production_date = pd, cq_expiry_date = None\<rparr>"

text \<open>
  C19. Counting an item that is not managed by batch settles its stock: under a reference the ledger
  does not know, in a warehouse that is not frozen, the stock of the item that carries no lot code
  becomes the counted quantity, through exactly one ledger row (of zero when nothing changes), and
  no slot of another item or warehouse moves.
\<close>

theorem spot_count_settles:
  assumes "warehouse_inv d" and "count_submit p d = Inr (out, d')" and "cq_lot_code p = None"
    and "\<forall>x \<in> set (t_ledger d). lg_ref x \<noteq> cq_ref p"
  shows "warehouse_inv d' \<and> ensure_warehouse_not_frozen d (cq_warehouse_id p) = Inr () \<and>
    get_current_qty_by_lot_code d' (cq_item_id p) (cq_warehouse_id p) None = cq_qty p \<and>
    (\<exists>x. t_ledger d' = t_ledger d @ [x] \<and> lg_ref x = cq_ref p) \<and>
    (\<forall>w i n. (w, i) \<noteq> (cq_warehouse_id p, cq_item_id p) \<longrightarrow> slot_qty d' (w, i, n) = slot_qty d (w, i, n))"
proof -
  let ?i = "cq_item_id p" and ?w = "cq_warehouse_id p"
  from assms(2) obtain rb lcode lid lcode' d1 out' where
    frozen: "ensure_warehouse_not_frozen d ?w = Inr ()" and
    val: "validate_lot_code_contract rb (cq_lot_code p) = Inr lcode" and
    res: "resolve_lot_for_stock_adjust ?i ?w lcode None (cq_production_date p) (cq_expiry_date p) d
      = Inr ((lid, lcode'), d1)" and
    adj: "adjust_lot (cq_occurred_at p)
      (spot_request p lid lcode' (cq_qty p - get_current_qty_by_lot_code d1 ?i ?w lcode')) d1 = Inr (out', d')"
    by (auto simp: count_submit_def res_simps Let_def split: if_splits)
  have "lcode = None" using val assms(3) by (auto simp: validate_lot_code_contract_def normalize_optional_lot_code_def split: if_splits)
  note lot = resolve_internal_code [OF res [unfolded this] warehouse_invD(1) [OF assms(1)]]
  note g = grown_frame [OF resolve_lot_for_stock_adjust_grow [OF res] assms(1)]
  let ?q = "spot_request p lid lcode' (cq_qty p - get_current_qty_by_lot_code d1 ?i ?w lcode')"
  have q: "aq_delta ?q \<noteq> 0 \<or> meta_bool (aq_meta ?q) ''allow_zero_delta_ledger''" "aq_lot_id ?q = Some lid"
    by (auto simp: spot_request_def meta_bool_def meta_get_def)
  have new: "\<forall>x \<in> set (t_ledger d1). lg_ref x \<noteq> aq_ref ?q" using assms(4) g(2) by (simp add: spot_request_def)
  note t = code_total_adjusted [OF adj g(1) q _ new, of None]
  have "get_current_qty_by_lot_code d' ?i ?w None = cq_qty p" using t(1) lot by (simp add: spot_request_def)
  moreover have "slot_qty d' (w, i, n) = slot_qty d (w, i, n)" if "(w, i) \<noteq> (?w, ?i)" for w i n
    using t(2) [OF lot(1), of "(w, i, n)"] that g(3) by (auto simp: spot_request_def)
  moreover have "\<exists>x. t_ledger d' = t_ledger d @ [x] \<and> lg_ref x = cq_ref p"
    using t(3) [OF lot(1)] g(2) by (auto simp: spot_request_def)
  ultimately show ?thesis using adjust_lot_warehouse_inv [OF adj g(1)] frozen by blast
qed

lemma spot_count_settles_witness:
  "\<exists>out d'. count_submit (sample_spot 2 5 None None ''R-1'') ship_db = Inr (out, d') \<and>
     get_current_qty_by_lot_code ship_db 2 7 None = 8 \<and> get_current_qty_by_lot_code d' 2 7 None = 5"
proof -
  have "returns (count_submit (sample_spot 2 5 None None ''R-1'') ship_db) (\<lambda>_. True)" by code_simp
  then obtain out d' where r: "count_submit (sample_spot 2 5 None None ''R-1'') ship_db = Inr (out, d')"
    by (auto simp: returns_pair)
  have p: "cq_lot_code (sample_spot 2 5 None None ''R-1'') = None" "cq_qty (sample_spot 2 5 None None ''R-1'') = 5"
    "cq_item_id (sample_spot 2 5 None None ''R-1'') = 2" "cq_warehouse_id (sample_spot 2 5 None None ''R-1'') = 7"
    "cq_ref (sample_spot 2 5 None None ''R-1'') = ''R-1''"
    by (simp_all add: sample_spot_def)
  have "list_all (\<lambda>x. lg_ref x \<noteq> ''R-1'') (t_ledger ship_db)" by code_simp
  then have new: "\<forall>x \<in> set (t_ledger ship_db). lg_ref x \<noteq> cq_ref (sample_spot 2 5 None None ''R-1'')"
    unfolding p(5) list_all_iff .
  have "get_current_qty_by_lot_code ship_db 2 7 None = 8" by code_simp
  moreover have "get_current_qty_by_lot_code d' 2 7 None = 5"
    using spot_count_settles [OF ship_db_inv r p(1) new] unfolding p(2-4) by blast
  ultimately show ?thesis using r by blast
qed

text \<open>
  C20. The maintenance recount settles the stock under a lot code: under a reference the ledger does
  not know, a recount that returns leaves exactly the actual quantity under the code (given without
  white space around it, or missing), and for an item with lot codes it can only ever lower it.
\<close>

theorem recount_settles:
  assumes "warehouse_inv d" and "stock_recount now ref p d = Inr (out, d')"
    and "map_option py_strip (rc_lot_code p) = rc_lot_code p"
    and "\<forall>x \<in> set (t_ledger d). lg_ref x \<noteq> ref"
  shows "warehouse_inv d' \<and>
    get_current_qty_by_lot_code d' (rc_item_id p) (rc_warehouse_id p) (rc_lot_code p) = rc_actual p \<and>
    (rc_lot_code p \<noteq> None \<longrightarrow> rc_actual p \<le> get_current_qty_by_lot_code d (rc_item_id p) (rc_warehouse_id p) (rc_lot_code p))"
proof -
  let ?i = "rc_item_id p" and ?w = "rc_warehouse_id p" and ?c = "rc_lot_code p"
  let ?delta = "rc_actual p - get_current_qty_by_lot_code d ?i ?w ?c"
  show ?thesis
  proof (cases "?delta = 0")
    case True
    with assms(2) have "d' = d" by (auto simp: stock_recount_def res_simps Let_def)
    with True assms(1) show ?thesis by simp
  next
    case False
    with assms(2) obtain lid lcode d1 out' where
      res: "resolve_lot_for_stock_adjust ?i ?w ?c None None None d = Inr ((lid, lcode), d1)" and
      adj: "adjust_lot now (recount_request p ref lid lcode ?delta) d1 = Inr (out', d')"
      by (auto simp: stock_recount_def res_simps Let_def)
    note linv = warehouse_invD(1) [OF assms(1)]
    note grow = resolve_lot_for_stock_adjust_grow [OF res]
    have code: "slot_lot_code d1 lid = ?c \<and> lcode = ?c"
    proof (cases ?c)
      case None
      with resolve_internal_code [OF res [unfolded None] linv] show ?thesis by simp
    next
      case (Some c)
      with assms(3) have "py_strip c = c" by simp
      from resolve_supplier_code [OF res [unfolded Some] linv this] Some show ?thesis by simp
    qed
    note g = grown_frame [OF grow assms(1)]
    have same: "get_current_qty_by_lot_code d1 ?i ?w ?c = get_current_qty_by_lot_code d ?i ?w ?c"
    proof -
      have "slot_lot_code d1 (sl_lot_id s) = slot_lot_code d (sl_lot_id s)" if "s \<in> set (t_stocks d)" for s
      proof -
        from book_invD(8) [OF warehouse_invD(2) [OF assms(1)] that] obtain l where
          l: "find_lot d (sl_lot_id s) = Some l" by (auto simp: lot_at_def)
        from lots_grow_find [OF grow l] l show ?thesis by (auto simp: slot_lot_code_def lot_le_def)
      qed
      then show ?thesis using lots_grow_frame [OF grow]
        by (auto simp: get_current_qty_by_lot_code_def intro!: sum_where_cong)
    qed
    let ?q = "recount_request p ref lid lcode ?delta"
    have q: "aq_delta ?q \<noteq> 0 \<or> meta_bool (aq_meta ?q) ''allow_zero_delta_ledger''" "aq_lot_id ?q = Some lid"
      using False by (simp_all add: recount_request_def)
    have new: "\<forall>x \<in> set (t_ledger d1). lg_ref x \<noteq> aq_ref ?q" using assms(4) g(2) by (simp add: recount_request_def)
    have "get_current_qty_by_lot_code d' ?i ?w ?c = rc_actual p"
      using code_total_adjusted(1) [OF adj g(1) q _ new, of ?c] code same by (simp add: recount_request_def)
    moreover have "?delta \<le> 0" if "?c \<noteq> None"
    proof (rule ccontr)
      assume "\<not> ?delta \<le> 0"
      from adj obtain ctx where "adjust_check now ?q d1 = Inr ctx"
        by (auto simp: adjust_lot_def adjust_lot_impl_def adjust_prep_def bindE_eq_Inr)
      with \<open>\<not> ?delta \<le> 0\<close> have "norm_lot_code lcode = None"
        by (auto simp: adjust_check_def Let_def res_simps recount_request_def
            resolve_and_validate_dates_for_inbound_def normalize_batch_dates_for_item_def split: if_splits)
      moreover have "norm_lot_code lcode \<noteq> None"
        using resolve_lot_code_normal [OF res] res that
        by (auto simp: norm_lot_code_def resolve_lot_for_stock_adjust_def validate_lot_code_contract_def
            normalize_optional_lot_code_def res_simps Let_def split: if_splits)
      ultimately show False by simp
    qed
    ultimately show ?thesis using adjust_lot_warehouse_inv [OF adj g(1)] by auto
  qed
qed


definition sample_recount :: recount_in where
  "sample_recount = \<lparr>rc_item_id = 1, rc_warehouse_id = 7, rc_lot_code = Some ''A'', rc_actual = 21\<rparr>"

lemma recount_settles_witness:
  "\<exists>out d'. stock_recount 5 ''scan'' sample_recount ship_db = Inr (out, d') \<and>
     get_current_qty_by_lot_code ship_db 1 7 (Some ''A'') = 30 \<and> get_current_qty_by_lot_code d' 1 7 (Some ''A'') = 21"
proof -
  have "returns (stock_recount 5 ''scan'' sample_recount ship_db) (\<lambda>_. True)" by code_simp
  then obtain out d' where r: "stock_recount 5 ''scan'' sample_recount ship_db = Inr (out, d')"
    by (auto simp: returns_pair)
  have p: "rc_item_id sample_recount = 1" "rc_warehouse_id sample_recount = 7"
    "rc_lot_code sample_recount = Some ''A''" "rc_actual sample_recount = 21"
    by (simp_all add: sample_recount_def)
  have strip: "map_option py_strip (rc_lot_code sample_recount) = rc_lot_code sample_recount" by code_simp
  have "list_all (\<lambda>x. lg_ref x \<noteq> ''scan'') (t_ledger ship_db)" by code_simp
  then have new: "\<forall>x \<in> set (t_ledger ship_db). lg_ref x \<noteq> ''scan''" by (simp add: list_all_iff)
  have "get_current_qty_by_lot_code ship_db 1 7 (Some ''A'') = 30" by code_simp
  with recount_settles [OF ship_db_inv r strip new] r show ?thesis unfolding p by blast
qed

text \<open>
  A count of a batch item is compared with the stock under its lot code and booked on the lot of
  its production date: counting 12 pieces under a new code for the production date of lot A, which
  holds 30, adds the 12 to lot A instead of settling anything.
\<close>

theorem spot_count_adds_to_other_lot:
  "slot_qty ship_db (7, 1, 1) = 30 \<and>
   returns (count_submit (sample_spot 1 12 (Some ''B'') (Some (Date 2024 1 1)) ''R-1'') ship_db)
     (\<lambda>(out, d'). slot_qty d' (7, 1, 1) = 42 \<and> cr_after out = 42 \<and>
        get_current_qty_by_lot_code d' 1 7 (Some ''B'') = 0)"
  by code_simp

text \<open>
  The count route reports what it did not keep: it answers that the stock of the item is now 5,
  and the database still holds 8, because the route ends its session without a commit.
\<close>

theorem count_route_keeps_nothing:
  "get_available_for_item ship_db 7 2 = 8 \<and>
   returns (count_inventory (sample_spot 2 5 None None ''R-1'') ship_db)
     (\<lambda>(out, d'). cr_after out = 5 \<and> get_available_for_item d' 7 2 = 8)"
  by code_simp

end
