(* ===== verification/Warehouse.thy ===== *)
theory Warehouse
  imports Reversal ManualDocs CountLife SpotCount
begin

text \<open>
  The warehouse as a whole: one step relation over every operation of the modelled services that
  can move stock (receipts, order and manual shipments, reversals, counts), what holds in every
  reachable state, and what the freeze of a warehouse guarantees.
\<close>

section \<open>Steps\<close>

text \<open>
  Operations that draw a new event number do so under a number the ledger does not know: the code
  makes it from the clock and a random part.
\<close>

inductive warehouse_step :: "db \<Rightarrow> db \<Rightarrow> bool" where
  receive: "commit_inbound now eno tr u p d = Inr (out, d') \<Longrightarrow>
    \<forall>x \<in> set (t_ledger d). lg_ref x \<noteq> eno \<Longrightarrow> warehouse_step d d'"
| ship: "submit_order_outbound_event now oid w op tr p1 occ d = Inr (out1, d') \<Longrightarrow> warehouse_step d d'"
| manual: "manual_step d d' \<Longrightarrow> warehouse_step d d'"
| take_back_receipt: "reverse_inbound_event now eno tr u n p2 d = Inr (out2, d') \<Longrightarrow>
    \<forall>x \<in> set (t_ledger d). lg_ref x \<noteq> eno \<Longrightarrow> warehouse_step d d'"
| take_back_shipment: "reverse_outbound_event now eno tr u n p2 d = Inr (out2, d') \<Longrightarrow>
    \<forall>x \<in> set (t_ledger d). lg_ref x \<noteq> eno \<Longrightarrow> warehouse_step d d'"
| count: "count_step d d' \<Longrightarrow> warehouse_step d d'"
| spot: "count_submit p3 d = Inr (out3, d') \<Longrightarrow> warehouse_step d d'"
| recount: "stock_recount now ref p4 d = Inr (out4, d') \<Longrightarrow> warehouse_step d d'"

section \<open>What a step books\<close>

text \<open>A step appends rows to the ledger, all of warehouses that are not frozen.\<close>

definition books :: "db \<Rightarrow> db \<Rightarrow> bool" where
  "books d d' \<longleftrightarrow> (\<exists>rows. t_ledger d' = t_ledger d @ rows \<and>
     (\<forall>r \<in> set rows. ensure_warehouse_not_frozen d (lg_warehouse_id r) = Inr ()))"

lemma books_none: "t_ledger d' = t_ledger d \<Longrightarrow> books d d'"
  by (auto simp: books_def)

lemma booksI:
  "t_ledger d' = t_ledger d @ rows \<Longrightarrow> (\<And>r. r \<in> set rows \<Longrightarrow> lg_warehouse_id r = w) \<Longrightarrow>
   ensure_warehouse_not_frozen d w = Inr () \<Longrightarrow> books d d'"
  unfolding books_def by (intro exI [of _ rows]) simp

lemma ledger_slot_warehouse: "ledger_slot r = (w, i, n) \<Longrightarrow> lg_warehouse_id r = w"
  by (simp add: ledger_slot_def)

lemma adjust_lot_rows:
  assumes "adjust_lot now q d = Inr (out, d')" and "book_inv d"
  shows "\<exists>rows. t_ledger d' = t_ledger d @ rows \<and> (\<forall>r \<in> set rows. lg_warehouse_id r = aq_warehouse_id q)"
  using assms
proof (cases rule: adjust_lot_cases)
  case noop
  then show ?thesis by simp
next
  case (posted lid c r)
  have "lg_warehouse_id (adjust_row q c b n) = aq_warehouse_id q" for b n
    by (rule ledger_slot_warehouse) (simp add: adjust_slot_def)
  then show ?thesis using posts_ledger [OF posted(5) assms(2)]
    by (intro exI [of _ "[adjust_row q c (slot_qty d (adjust_slot q lid)) (t_next_id d STOCK_LEDGER)]"])
      auto
qed

text \<open>The count tables.\<close>

definition count_view :: "db \<Rightarrow> _" where
  "count_view d = (t_count_docs d, t_count_lines d, t_count_snapshots d,
     t_next_id d COUNT_DOCS, t_next_id d COUNT_DOC_LINES)"

lemma count_view_inv: "count_view d' = count_view d \<Longrightarrow> count_inv d' = count_inv d"
  by (rule count_inv_cong) (simp_all add: count_view_def)

lemma count_view_frozen:
  "count_view d' = count_view d \<Longrightarrow> ensure_warehouse_not_frozen d' w = ensure_warehouse_not_frozen d w"
  by (simp add: count_view_def ensure_warehouse_not_frozen_def get_frozen_count_doc_brief_def)

definition keeps_counts :: "db \<Rightarrow> db \<Rightarrow> bool" where
  "keeps_counts d d' \<longleftrightarrow> count_view d' = count_view d"

interpretation counts: evolution keeps_counts
  by standard (simp_all add: keeps_counts_def)

lemma keeps_counts_adjust:
  assumes "adjust_lot now q d = Inr (out, d')" shows "keeps_counts d d'"
  by (simp add: keeps_counts_def count_view_def rest_ofD [OF adjust_lot_rest [OF assms]])

lemma keeps_counts_grow:
  assumes "lots_grow d d'" shows "keeps_counts d d'"
  by (simp add: keeps_counts_def count_view_def lots_grow_frame [OF assms])

lemma keeps_counts_event:
  assumes "insert_event e d = Inr (n, d')" shows "keeps_counts d d'"
  by (simp add: keeps_counts_def count_view_def insert_event_Inr(2) [OF assms])

lemma keeps_counts_inbound_line:
  assumes "insert_inbound_line l d = Inr (n, d')" shows "keeps_counts d d'"
  by (simp add: keeps_counts_def count_view_def insert_inbound_line_Inr(1) [OF assms])

lemma keeps_counts_outbound_line:
  assumes "insert_outbound_line l d = Inr (n, d')" shows "keeps_counts d d'"
  by (simp add: keeps_counts_def count_view_def insert_outbound_line_Inr(1) [OF assms])

lemmas keeps_counts_lines = keeps_counts_inbound_line keeps_counts_outbound_line

lemma keeps_counts_commit_line: "commit_line now p eid eno tr r d = Inr (row, d') \<Longrightarrow> keeps_counts d d'"
  by (auto simp: commit_line_def apply_inbound_stock_def res_simps
      dest!: keeps_counts_adjust keeps_counts_lines intro: counts.evo_trans)

lemma keeps_counts_reverse_line:
  "reverse_inbound_line now eid eno tr p orig src d = Inr (row, d') \<Longrightarrow> keeps_counts d d'"
  "reverse_outbound_line now eid eno tr p orig src2 d = Inr (row, d') \<Longrightarrow> keeps_counts d d'"
  by (auto simp: reverse_inbound_line_def reverse_outbound_line_def res_simps
      dest!: keeps_counts_adjust keeps_counts_lines intro: counts.evo_trans)

lemma keeps_counts_mark: "keeps_counts d (mark_superseded et n d)"
  by (simp add: keeps_counts_def count_view_def mark_superseded_def)

lemma keeps_counts_completion:
  assumes "apply_completion_delta_for_event ev t d = Inr (u, d')" shows "keeps_counts d d'"
  by (simp add: keeps_counts_def count_view_def apply_completion_Inr [OF assms])

lemma keeps_counts_ship:
  assumes "ship_rest d' = ship_rest d" shows "keeps_counts d d'"
  by (simp add: keeps_counts_def count_view_def ship_restD [OF assms])

section \<open>Every step\<close>

text \<open>The contract of a step on a consistent warehouse.\<close>

definition sound_step :: "db \<Rightarrow> db \<Rightarrow> bool" where
  "sound_step d d' \<longleftrightarrow> warehouse_inv d' \<and> count_inv d' \<and> books d d'"

lemma sound_stepI:
  "warehouse_inv d' \<Longrightarrow> keeps_counts d d' \<Longrightarrow> count_inv d \<Longrightarrow> books d d' \<Longrightarrow> sound_step d d'"
  using count_view_inv [of d' d] by (simp add: sound_step_def keeps_counts_def)

lemma receive_sound:
  assumes run: "commit_inbound now eno tr u p d = Inr (out, d')" and inv: "warehouse_inv d" "count_inv d"
    and new: "\<forall>x \<in> set (t_ledger d). lg_ref x \<noteq> eno"
  shows "sound_step d d'"
proof -
  obtain d1 d2 d3 rs prs where
    c: "mapE (resolve_line (ci_warehouse_id p) (ci_source_type p)) (number_lines (ci_lines p)) d = Inr (rs, d1)"
    "lots_grow d d1" "warehouse_inv d1" "insert_event (commit_event now u eno tr p) d1 = Inr (co_event_id out, d2)"
    "mapE (commit_line now p (co_event_id out) eno tr) rs d2 = Inr (co_rows out, d3)"
    "warehouse_inv d'" "posts d1 (map snd prs) d'" "t_inbound_lines d' = t_inbound_lines d @ map fst prs"
    "t_events d' = t_events d @ [(commit_event now u eno tr p)\<lparr>ev_id := co_event_id out\<rparr>]"
    "list_all2 (\<lambda>row (l, x). commit_pair_ok (t_items d) p (co_event_id out) eno row l x) (co_rows out) prs"
    "t_count_docs d' = t_count_docs d" "length prs = length (ci_lines p)"
    "if ci_source_type p = ''PURCHASE_ORDER''
     then apply_completion_delta_for_event (co_event_id out) (ci_occurred_at p) d3 = Inr ((), d') \<and>
       t_completion d3 = t_completion d else d' = d3"
    by (rule commit_inbound_Inr [OF run inv(1) new])
  have "keeps_counts d2 d3" by (rule counts.evo_mapE [OF _ c(5)]) (rule keeps_counts_commit_line)
  moreover have "keeps_counts d3 d'"
    using c(13) counts.evo_refl by (auto intro: keeps_counts_completion split: if_splits)
  moreover have k2: "keeps_counts d d2"
    by (rule counts.evo_trans [OF keeps_counts_grow [OF c(2)] keeps_counts_event [OF c(4)]])
  ultimately have keep: "keeps_counts d d'" by (blast intro: counts.evo_trans)
  have led: "t_ledger d' = t_ledger d @ map snd prs"
    using posts_ledger [OF c(7) warehouse_invD(2) [OF c(3)]] lots_grow_frame [OF c(2)] by simp
  have wh: "lg_warehouse_id r = ci_warehouse_id p" if r: "r \<in> set (map snd prs)" for r
  proof -
    from r obtain l where "(l, r) \<in> set prs" by auto
    from list_all2_from [OF c(10) this] show ?thesis
      by (auto simp: commit_pair_ok_def books_inbound_line_def dest: ledger_slot_warehouse)
  qed
  have "books d d'"
  proof (cases rs)
    case Nil
    with c(5) have "co_rows out = []" by simp
    with c(10) have "prs = []" by simp
    with led show ?thesis by (intro books_none) simp
  next
    case (Cons r rs')
    with c(5) obtain row d2' where "commit_line now p (co_event_id out) eno tr r d2 = Inr (row, d2')"
      by (auto simp: res_simps simp del: mapE.simps)
    then obtain n d2a where "insert_inbound_line (commit_event_line (co_event_id out) r) d2 = Inr (n, d2a)"
      "ensure_warehouse_not_frozen d2a (ci_warehouse_id p) = Inr ()"
      by (auto simp: commit_line_def apply_inbound_stock_def res_simps)
    moreover from this(1) k2 have "keeps_counts d d2a"
      by (blast intro: counts.evo_trans keeps_counts_inbound_line)
    ultimately have "ensure_warehouse_not_frozen d (ci_warehouse_id p) = Inr ()"
      using count_view_frozen [of d2a d] by (simp add: keeps_counts_def)
    with booksI [OF led wh] show ?thesis by blast
  qed
  with c(6) keep inv(2) show ?thesis by (blast intro: sound_stepI)
qed


lemma shipment_sound:
  assumes "write_event_and_ledger now w st src_ref op tr occ remark ns d = Inr (out, d')"
    and "warehouse_inv d" and "list_all2 (norm_of b) (number_submit_lines ls) ns"
  shows "warehouse_inv d' \<and> keeps_counts d d' \<and> books d d'"
proof -
  note s = submission_Inr [OF assms]
  from s obtain rs where rs: "t_ledger d' = t_ledger d @ rs" "length rs = length ls"
    "\<forall>k < length ls. ledger_key (rs ! k) = (''OUTBOUND_SHIP'', src_ref, int k + 1,
          so_item_id (ls ! k), w, so_lot_id (ls ! k)) \<and> lg_delta (rs ! k) = - so_qty_outbound (ls ! k)"
    by blast
  have "books d d'"
  proof (rule booksI [OF rs(1)])
    show "lg_warehouse_id r = w" if "r \<in> set rs" for r
      using that rs(2,3) by (auto simp: in_set_conv_nth ledger_key_def)
    show "ensure_warehouse_not_frozen d w = Inr ()" using s by blast
  qed
  moreover have "keeps_counts d d'" by (rule keeps_counts_ship) (use s in blast)
  ultimately show ?thesis using s by blast
qed

lemma ship_sound:
  assumes "submit_order_outbound_event now oid w op tr p occ d = Inr (out, d')" and "warehouse_inv d" and "count_inv d"
  shows "sound_step d d'"
proof -
  obtain ctx ns where "load_order_submit_context d oid = Inr ctx"
    and r: "list_all2 (norm_of True) (number_submit_lines (os_lines p)) ns"
    and "\<forall>n \<in> set ns. check_order_line d (load_order_submit_progress d oid) (oc_source_ref ctx) w n = Inr ()"
    and r2: "write_event_and_ledger now w ''ORDER'' (oc_source_ref ctx) op tr occ (os_remark p) ns d = Inr (out, d')"
    by (rule submit_order_Inr [OF assms(1)])
  from shipment_sound [OF r2 assms(2) r] assms(3) show ?thesis by (blast intro: sound_stepI)
qed

text \<open>Operations on manual documents touch neither stock, ledger, events nor counts.\<close>

definition quiet :: "db \<Rightarrow> db \<Rightarrow> bool" where
  "quiet d d' \<longleftrightarrow> keeps_counts d d' \<and> t_ledger d' = t_ledger d \<and> warehouse_inv d' = warehouse_inv d"

interpretation quiet_evo: evolution quiet
  by standard (auto simp: quiet_def intro: counts.evo_refl counts.evo_trans)

lemma quietI:
  assumes "count_view d' = count_view d" and "t_lots d' = t_lots d" and "t_items d' = t_items d"
    and "t_stocks d' = t_stocks d" and "t_ledger d' = t_ledger d" and "t_events d' = t_events d"
    and "t_inbound_lines d' = t_inbound_lines d" and "t_outbound_lines d' = t_outbound_lines d"
    and "t_next_id d' LOTS = t_next_id d LOTS" and "t_next_id d' STOCKS_LOT = t_next_id d STOCKS_LOT"
    and "t_next_id d' WMS_EVENTS = t_next_id d WMS_EVENTS"
  shows "quiet d d'"
  using warehouse_inv_cong [OF assms(2-11)] assms(1,5) by (simp add: quiet_def keeps_counts_def)

lemma quiet_sound: "quiet d d' \<Longrightarrow> warehouse_inv d \<Longrightarrow> count_inv d \<Longrightarrow> sound_step d d'"
  by (auto simp: quiet_def intro: sound_stepI books_none)

lemma set_manual_doc_quiet:
  assumes "set_manual_doc err from upd n d = Inr d'"
  shows "quiet d d'"
proof -
  obtain m where "m \<in> set (t_manual_docs d)" "md_id m = n" "from m"
    "d' = d\<lparr>t_manual_docs := update_where (\<lambda>m. md_id m = n \<and> from m) upd (t_manual_docs d)\<rparr>"
    using assms by (rule set_manual_doc_Inr)
  then show ?thesis by (intro quietI) (simp_all add: count_view_def)
qed

lemma insert_manual_line_quiet:
  assumes "insert_manual_line n x d = Inr d'" shows "quiet d d'"
proof -
  obtain k l where "x = (k, l)" by (cases x)
  with assms show ?thesis
    by (intro quietI) (auto simp: insert_manual_line_def next_id_def Let_def count_view_def split: if_splits)
qed

lemma create_manual_doc_quiet:
  assumes "create_manual_doc now no u p d = Inr (n, d')"
  shows "quiet d d'"
proof -
  from assms obtain m d2 where
    d2: "d2 = d\<lparr>t_next_id := (t_next_id d)(MANUAL_OUTBOUND_DOCS := t_next_id d MANUAL_OUTBOUND_DOCS + 1),
      t_manual_docs := t_manual_docs d @ [m]\<rparr>"
    and f: "foldE (insert_manual_line (t_next_id d MANUAL_OUTBOUND_DOCS))
      (zip (map int [1 ..< length (mdi_lines p) + 1]) (mdi_lines p)) d2 = Inr d'"
    by (auto simp: create_manual_doc_def next_id_def Let_def res_simps simp del: upt_Suc split: if_splits)
  have "quiet d d2" by (rule quietI) (simp_all add: d2 count_view_def)
  moreover have "quiet d2 d'" by (rule quiet_evo.evo_foldE [OF _ f]) (rule insert_manual_line_quiet)
  ultimately show ?thesis by (rule quiet_evo.evo_trans)
qed

lemma manual_sound:
  assumes "manual_step d d'" and inv: "warehouse_inv d" "count_inv d"
  shows "sound_step d d'"
  using assms(1)
proof cases
  case (create now no u p n)
  show ?thesis by (rule quiet_sound [OF create_manual_doc_quiet [OF create] inv])
next
  case (release now n u)
  then show ?thesis
    by (auto simp: release_manual_doc_def split: if_splits intro: quiet_sound [OF set_manual_doc_quiet inv])
next
  case (void now n u)
  then show ?thesis
    by (auto simp: void_manual_doc_def intro: quiet_sound [OF set_manual_doc_quiet inv])
next
  case (submit now n u tr p out)
  obtain ctx ns d1 where c: "load_manual_submit_context d n = Inr ctx"
    "list_all2 (norm_of False) (number_submit_lines (ms_lines p)) ns"
    "write_event_and_ledger now (mc_warehouse_id ctx) ''MANUAL'' (mc_source_ref ctx) u tr None
       (ms_remark p) ns d = Inr (out, d1)"
    "if list_manual_doc_progress d1 n \<noteq> [] \<and>
        list_all (\<lambda>(_, requested, submitted). requested \<le> submitted) (list_manual_doc_progress d1 n)
     then complete_manual_doc n d1 = Inr d' else d' = d1"
    by (rule submit_manual_Inr [OF submit [unfolded submit_manual_outbound_def]])
  note s = shipment_sound [OF c(3) inv(1) c(2)]
  have "quiet d1 d'"
    using c(4) quiet_evo.evo_refl by (auto simp: complete_manual_doc_def intro: set_manual_doc_quiet split: if_splits)
  then have "warehouse_inv d'" "keeps_counts d d'" "books d d'"
    using s counts.evo_trans by (auto simp: quiet_def books_def)
  with inv(2) show ?thesis by (blast intro: sound_stepI)
qed


lemma reverse_run_keeps:
  assumes "insert_event e d = Inr (eid, d1)" and "mapE f srcs d1 = Inr (rows, d2)"
    and "\<And>src d row d'. f src d = Inr (row, d') \<Longrightarrow> keeps_counts d d'"
  shows "keeps_counts d (mark_superseded et n d2)"
proof -
  have "keeps_counts d1 d2" by (rule counts.evo_mapE [OF _ assms(2)]) (rule assms(3))
  then show ?thesis
    by (blast intro: counts.evo_trans keeps_counts_event [OF assms(1)] keeps_counts_mark)
qed

lemma booksI_pairs:
  assumes "posts d (map snd prs) d'" and "book_inv d" and "list_all2 (\<lambda>src (l, x). ok src l x) srcs prs"
    and "\<And>src l x. ok src l x \<Longrightarrow> lg_warehouse_id x = w" and "ensure_warehouse_not_frozen d w = Inr ()"
  shows "books d d'"
proof (rule booksI [OF posts_ledger [OF assms(1,2)]])
  fix r assume "r \<in> set (map snd prs)"
  then obtain l where "(l, r) \<in> set prs" by auto
  from list_all2_from [OF assms(3) this] show "lg_warehouse_id r = w" using assms(4) by auto
qed (rule assms(5))

lemma take_back_receipt_sound:
  assumes run: "reverse_inbound_event now eno tr u n p d = Inr (out, d')" and inv: "warehouse_inv d" "count_inv d"
    and new: "\<forall>x \<in> set (t_ledger d). lg_ref x \<noteq> eno"
  shows "sound_step d d'"
proof -
  obtain orig prs d2 where r: "reversible_event ''INBOUND'' d n = Inr orig"
    "ensure_warehouse_not_frozen d (ev_warehouse_id orig) = Inr ()"
    "warehouse_inv d'" "posts d (map snd prs) d'" "t_inbound_lines d' = t_inbound_lines d @ map fst prs"
    "list_all2 (\<lambda>src (l, x). reversed_inbound orig (ro_event_id out) eno src l x)
       (sort_key il_line_no (filter (\<lambda>l. il_event_id l = n) (t_inbound_lines d))) prs"
    "t_completion d' = t_completion d" "d' = mark_superseded ''INBOUND'' n d2"
    "t_events d2 = t_events d @ [(reversal_event now ''INBOUND'' eno tr u p orig)\<lparr>ev_id := ro_event_id out\<rparr>]"
    by (rule inbound_reversal.reverse_Inr [OF run inv(1) new])
  from inbound_reversal.run_Inr [OF run] obtain orig' srcs d1 d3 rows where
    m: "insert_event (reversal_event now ''INBOUND'' eno tr u p orig') d = Inr (ro_event_id out, d1)"
    "mapE (reverse_inbound_line now (ro_event_id out) eno tr p orig') srcs d1 = Inr (rows, d3)"
    "d' = mark_superseded ''INBOUND'' n d3" by blast
  have "keeps_counts d d'"
    unfolding m(3) by (rule reverse_run_keeps [OF m(1,2)]) (rule keeps_counts_reverse_line(1))
  moreover have "books d d'"
    by (rule booksI_pairs [OF r(4) warehouse_invD(2) [OF inv(1)] r(6) _ r(2)])
      (auto simp: reversed_inbound_def books_inbound_line_def dest: ledger_slot_warehouse)
  ultimately show ?thesis using r(3) inv(2) by (blast intro: sound_stepI)
qed

lemma take_back_shipment_sound:
  assumes run: "reverse_outbound_event now eno tr u n p d = Inr (out, d')" and inv: "warehouse_inv d" "count_inv d"
    and new: "\<forall>x \<in> set (t_ledger d). lg_ref x \<noteq> eno"
  shows "sound_step d d'"
proof -
  obtain orig prs d2 where r: "reversible_event ''OUTBOUND'' d n = Inr orig"
    "ensure_warehouse_not_frozen d (ev_warehouse_id orig) = Inr ()"
    "warehouse_inv d'" "posts d (map snd prs) d'" "t_outbound_lines d' = t_outbound_lines d @ map fst prs"
    "list_all2 (\<lambda>src (l, x). reversed_outbound orig (ro_event_id out) eno src l x)
       (sort_key ol_ref_line (filter (\<lambda>l. ol_event_id l = n) (t_outbound_lines d))) prs"
    "t_completion d' = t_completion d" "d' = mark_superseded ''OUTBOUND'' n d2"
    "t_events d2 = t_events d @ [(reversal_event now ''OUTBOUND'' eno tr u p orig)\<lparr>ev_id := ro_event_id out\<rparr>]"
    by (rule outbound_reversal.reverse_Inr [OF run inv(1) new])
  from outbound_reversal.run_Inr [OF run] obtain orig' srcs d1 d3 rows where
    m: "insert_event (reversal_event now ''OUTBOUND'' eno tr u p orig') d = Inr (ro_event_id out, d1)"
    "mapE (reverse_outbound_line now (ro_event_id out) eno tr p orig') srcs d1 = Inr (rows, d3)"
    "d' = mark_superseded ''OUTBOUND'' n d3" by blast
  have "keeps_counts d d'"
    unfolding m(3) by (rule reverse_run_keeps [OF m(1,2)]) (rule keeps_counts_reverse_line(2))
  moreover have "books d d'"
    by (rule booksI_pairs [OF r(4) warehouse_invD(2) [OF inv(1)] r(6) _ r(2)])
      (auto simp: reversed_outbound_def books_outbound_line_def dest: ledger_slot_warehouse)
  ultimately show ?thesis using r(3) inv(2) by (blast intro: sound_stepI)
qed


lemma one_active_doc:
  assumes "count_inv d" and "a \<in> set (t_count_docs d)" and "b \<in> set (t_count_docs d)"
    and "is_active a" and "is_active b" and "cd_warehouse_id a = cd_warehouse_id b"
  shows "a = b"
proof -
  have "inj_on cd_warehouse_id (set (filter is_active (t_count_docs d)))"
    using assms(1) by (simp add: count_inv_def count_docs_inv_def distinct_map)
  with assms(2-6) show ?thesis by (auto dest: inj_onD)
qed

lemma counted_not_frozen:
  assumes "count_inv d" and "find_count_doc d n = Some doc" and "cd_status doc = ''COUNTED''"
  shows "ensure_warehouse_not_frozen d (cd_warehouse_id doc) = Inr ()"
proof -
  have "cd_status c \<noteq> ''FROZEN''"
    if "c \<in> set (t_count_docs d)" "cd_warehouse_id c = cd_warehouse_id doc" for c
    using one_active_doc [OF assms(1) that(1), of doc] find_count_doc_in [OF assms(2)] that(2) assms(3)
    by (auto simp: is_active_def active_count_statuses_def)
  then show ?thesis by (simp add: ensure_warehouse_not_frozen_iff)
qed

lemma post_books:
  assumes run: "post_doc now t eno tr n b d = Inr (out, d')" and inv: "warehouse_inv d" "count_inv d"
    and new: "\<forall>x \<in> set (t_ledger d). lg_ref x \<noteq> eno"
  shows "books d d'"
proof -
  from run obtain doc where doc: "find_count_doc d n = Some doc"
    by (auto simp: post_doc_def require_doc_def bindE_eq_Inr of_option_eq_Inr)
  show ?thesis
  proof (cases "cd_status doc = ''POSTED''")
    case True
    with post_doc_posted [OF run doc] show ?thesis by (intro books_none) simp
  next
    case False
    obtain rows doc' where p: "cd_status doc = ''COUNTED''" "warehouse_inv d'" "count_inv d'" "docs_move d d'"
      "posts d rows d'" "\<forall>r \<in> set rows. \<exists>l \<in> set (doc_count_lines d n). count_row doc (fst out) eno l r"
      "\<forall>i. item_rows (cd_warehouse_id doc) i rows =
         (\<Sum>l \<leftarrow> doc_count_lines d n. if cl_item_id l = i then line_diff l else 0)"
      "t_count_lines d' = t_count_lines d" "find_count_doc d' n = Some doc'" "cd_status doc' = ''POSTED''"
      "cd_posted_event_id doc' = Some (fst out)" "cd_posted_at doc' = Some (snd out)"
      by (rule post_doc_Inr [OF run doc False inv new])
    show ?thesis
      by (rule booksI [OF posts_ledger [OF p(5) warehouse_invD(2) [OF inv(1)]] _ counted_not_frozen [OF inv(2) doc p(1)]])
        (use p(6) in \<open>auto simp: count_row_def\<close>)
  qed
qed

lemma count_sound:
  assumes "count_step d d'" and inv: "warehouse_inv d" "count_inv d"
  shows "sound_step d d'"
proof -
  have "books d d'"
    using assms(1)
  proof cases
    case (create now no u p c)
    from count_create_Inr(1) [OF create inv(2)] show ?thesis by (intro books_none) (simp add: count_frame_def)
  next
    case (freeze n r)
    obtain doc where "find_count_doc d n = Some doc" "cd_status doc = ''DRAFT''" and f: "count_frame d d'"
      and "count_inv d'"
      "t_count_docs d' = update_where (\<lambda>c. cd_id c = n) (\<lambda>c. c\<lparr>cd_status := ''FROZEN''\<rparr>) (t_count_docs d)"
      "lines_of_stock d (cd_warehouse_id doc) (doc_count_lines d' n)"
      by (rule freeze_doc_Inr [OF freeze inv])
    then show ?thesis by (intro books_none) (simp add: count_frame_def)
  next
    case (enter now n p r)
    from update_doc_lines_Inr [OF enter inv(2)] have "count_frame d d'" by metis
    then show ?thesis by (intro books_none) (simp add: count_frame_def)
  next
    case (post now t eno tr n b out)
    from post_books [OF post(1) inv post(2)] show ?thesis .
  next
    case (void n)
    from void_doc_Inr(1) [OF void inv(2)] show ?thesis by (intro books_none) (simp add: count_frame_def)
  qed
  with count_step_inv [OF assms] show ?thesis by (simp add: sound_step_def)
qed

text \<open>A lot is resolved, then adjusted.\<close>

lemma resolved_adjust_sound:
  assumes res: "resolve_lot_for_stock_adjust i w code None pd ed d = Inr (r, d1)"
    and adj: "adjust_lot now q d1 = Inr (out, d')" and q: "aq_warehouse_id q = w"
    and inv: "warehouse_inv d" "count_inv d" and ok: "ensure_warehouse_not_frozen d w = Inr ()"
  shows "sound_step d d'"
proof -
  note grow = resolve_lot_for_stock_adjust_grow [OF res]
  note g = grown_frame [OF grow inv(1)]
  obtain rows where "t_ledger d' = t_ledger d1 @ rows" "\<forall>r \<in> set rows. lg_warehouse_id r = w"
    using adjust_lot_rows [OF adj warehouse_invD(2) [OF g(1)]] q by blast
  then have "books d d'" using g(2) ok by (intro booksI [of _ _ rows w]) auto
  moreover have "keeps_counts d d'"
    by (rule counts.evo_trans [OF keeps_counts_grow [OF grow] keeps_counts_adjust [OF adj]])
  ultimately show ?thesis using adjust_lot_warehouse_inv [OF adj g(1)] inv(2) by (blast intro: sound_stepI)
qed

lemma spot_sound:
  assumes "count_submit p d = Inr (out, d')" and inv: "warehouse_inv d" "count_inv d"
  shows "sound_step d d'"
proof -
  from assms(1) obtain lcode lid lcode' d1 out' where
    ok: "ensure_warehouse_not_frozen d (cq_warehouse_id p) = Inr ()" and
    res: "resolve_lot_for_stock_adjust (cq_item_id p) (cq_warehouse_id p) lcode None (cq_production_date p)
      (cq_expiry_date p) d = Inr ((lid, lcode'), d1)" and
    adj: "adjust_lot (cq_occurred_at p) (spot_request p lid lcode'
      (cq_qty p - get_current_qty_by_lot_code d1 (cq_item_id p) (cq_warehouse_id p) lcode')) d1 = Inr (out', d')"
    by (auto simp: count_submit_def res_simps Let_def split: if_splits)
  show ?thesis by (rule resolved_adjust_sound [OF res adj _ inv ok]) (simp add: spot_request_def)
qed

lemma recount_sound:
  assumes "stock_recount now ref p d = Inr (out, d')" and inv: "warehouse_inv d" "count_inv d"
  shows "sound_step d d'"
proof -
  let ?delta = "rc_actual p - get_current_qty_by_lot_code d (rc_item_id p) (rc_warehouse_id p) (rc_lot_code p)"
  show ?thesis
  proof (cases "?delta = 0")
    case True
    with assms(1) have "d' = d" by (auto simp: stock_recount_def res_simps Let_def)
    with inv show ?thesis by (simp add: sound_step_def books_none)
  next
    case False
    with assms(1) obtain lid lcode d1 out' where
      ok: "ensure_warehouse_not_frozen d (rc_warehouse_id p) = Inr ()" and
      res: "resolve_lot_for_stock_adjust (rc_item_id p) (rc_warehouse_id p) (rc_lot_code p) None None None d
        = Inr ((lid, lcode), d1)" and
      adj: "adjust_lot now (recount_request p ref lid lcode ?delta) d1 = Inr (out', d')"
      by (auto simp: stock_recount_def res_simps Let_def)
    show ?thesis by (rule resolved_adjust_sound [OF res adj _ inv ok]) (simp add: recount_request_def)
  qed
qed

lemma warehouse_step_sound:
  assumes "warehouse_step d d'" and inv: "warehouse_inv d" "count_inv d"
  shows "sound_step d d'"
  using assms(1)
  by (cases rule: warehouse_step.cases)
    (rule receive_sound ship_sound manual_sound take_back_receipt_sound take_back_shipment_sound
      count_sound spot_sound recount_sound; (assumption | rule inv))+

section \<open>Runs\<close>

definition grows :: "db \<Rightarrow> db \<Rightarrow> bool" where
  "grows d d' \<longleftrightarrow> (\<exists>rows. t_ledger d' = t_ledger d @ rows)"

interpretation growth: evolution grows
  by standard (auto simp: grows_def)

lemma warehouse_run:
  assumes "warehouse_step\<^sup>*\<^sup>* d d'" and "warehouse_inv d" and "count_inv d"
  shows "warehouse_inv d' \<and> count_inv d' \<and> grows d d'"
  using assms
proof (induction rule: rtranclp_induct)
  case (step e f)
  then have e: "warehouse_inv e" "count_inv e" "grows d e" by auto
  from warehouse_step_sound [OF step.hyps(2) e(1,2)] have "warehouse_inv f" "count_inv f" "grows e f"
    by (auto simp: sound_step_def books_def grows_def)
  with e(3) show ?case by (blast intro: growth.evo_trans)
qed (simp add: growth.evo_refl)


text \<open>The last row of a slot carries its balance.\<close>

lemma last_row_of_slot:
  assumes "after_chain rows" and "filter (\<lambda>r. ledger_slot r = s) rows \<noteq> []"
  shows "lg_after_qty (last (filter (\<lambda>r. ledger_slot r = s) rows)) = ledger_sum rows s"
  using assms
proof (induction rows rule: rev_induct)
  case (snoc r rows)
  from snoc.prems(1) have chain: "after_chain rows" "lg_after_qty r = ledger_sum (rows @ [r]) (ledger_slot r)"
    by (simp_all add: after_chain_snoc)
  show ?case
  proof (cases "ledger_slot r = s")
    case True
    with chain(2) show ?thesis by simp
  next
    case False
    with snoc.prems(2) snoc.IH [OF chain(1)] show ?thesis by simp
  qed
qed simp

section \<open>Properties\<close>

text \<open>
  C1. Stock and ledger in every reachable state: whatever sequence of receipts, shipments,
  reversals, manual documents and counts the services run from a consistent warehouse, the ledger is
  only ever appended to, the balance of every slot is the sum of its ledger rows, it is never
  negative, every row records the running balance of its slot, no warehouse has two open counts,
  and the invariants of the warehouse (lots, balances, ledger, events) and of the count tables
  (documents, lines, snapshots, counted totals) hold again.
\<close>

theorem warehouse_consistent:
  assumes "warehouse_inv d" and "count_inv d" and "warehouse_step\<^sup>*\<^sup>* d d'"
  shows "(\<exists>rows. t_ledger d' = t_ledger d @ rows) \<and>
    (\<forall>s. slot_qty d' s = ledger_sum (t_ledger d') s \<and> 0 \<le> slot_qty d' s) \<and>
    (\<forall>k < length (t_ledger d'). lg_after_qty (t_ledger d' ! k) =
       ledger_sum (take (Suc k) (t_ledger d')) (ledger_slot (t_ledger d' ! k))) \<and>
    (\<forall>a \<in> set (t_count_docs d'). \<forall>b \<in> set (t_count_docs d'). is_active a \<and> is_active b \<and>
       cd_warehouse_id a = cd_warehouse_id b \<longrightarrow> a = b) \<and>
    warehouse_inv d' \<and> count_inv d'"
proof -
  note r = warehouse_run [OF assms(3,1,2)]
  then have book: "book_inv d'" and "grows d d'" by (simp_all add: warehouse_inv_def)
  then show ?thesis
    using slot_qty_ledger [OF book] slot_qty_nonneg [OF book] one_active_doc [of d'] r book_invD(9) [OF book]
    unfolding grows_def after_chain_def by blast
qed

lemma sample_site_run:
  "\<exists>out d1 out2 d2. submit_order_outbound_event 9 1 7 None ''T-1'' sample_order_submit None ship_db = Inr (out, d1) \<and>
     count_submit (sample_spot 2 5 None None ''R-1'') d1 = Inr (out2, d2) \<and> slot_qty d2 (7, 2, 2) = 5 \<and>
     slot_qty d2 (7, 1, 1) = 18"
proof -
  have "returns (submit_order_outbound_event 9 1 7 None ''T-1'' sample_order_submit None ship_db)
    (\<lambda>(_, d1). returns (count_submit (sample_spot 2 5 None None ''R-1'') d1)
       (\<lambda>(_, d2). slot_qty d2 (7, 2, 2) = 5 \<and> slot_qty d2 (7, 1, 1) = 18))" by code_simp
  then show ?thesis by (auto simp: returns_pair)
qed

lemma warehouse_consistent_witness:
  "\<exists>d2. warehouse_step\<^sup>*\<^sup>* ship_db d2 \<and> slot_qty d2 (7, 1, 1) = 18 \<and> ledger_sum (t_ledger d2) (7, 1, 1) = 18"
proof -
  from sample_site_run obtain out d1 out2 d2 where
    r: "submit_order_outbound_event 9 1 7 None ''T-1'' sample_order_submit None ship_db = Inr (out, d1)"
      "count_submit (sample_spot 2 5 None None ''R-1'') d1 = Inr (out2, d2)" "slot_qty d2 (7, 1, 1) = 18" by blast
  have run: "warehouse_step\<^sup>*\<^sup>* ship_db d2"
    using warehouse_step.ship [OF r(1)] warehouse_step.spot [OF r(2)] by (meson converse_rtranclp_into_rtranclp rtranclp.rtrancl_refl)
  from warehouse_consistent [OF ship_db_inv ship_db_count_inv run] r(3) run show ?thesis by metis
qed

text \<open>
  C2. A frozen warehouse stands still: as long as a count of the warehouse is frozen, no step of
  \<open>warehouse_step\<close> (receipts, shipments, reversals, manual documents, counts, spot counts and
  recounts, on whatever document) changes any balance of the warehouse. The commits of return tasks
  are no such step: they never ask for the freeze, see \<open>frozen_warehouse_takes_returns\<close>.
\<close>

theorem frozen_warehouse_still:
  assumes "warehouse_inv d" and "count_inv d" and "warehouse_step d d'"
    and "c \<in> set (t_count_docs d)" and "cd_status c = ''FROZEN''"
  shows "slot_qty d' (cd_warehouse_id c, i, n) = slot_qty d (cd_warehouse_id c, i, n)"
proof -
  from warehouse_step_sound [OF assms(3,1,2)] obtain rows where
    inv: "warehouse_inv d'" and led: "t_ledger d' = t_ledger d @ rows"
    and ok: "\<forall>r \<in> set rows. ensure_warehouse_not_frozen d (lg_warehouse_id r) = Inr ()"
    by (auto simp: sound_step_def books_def)
  have "lg_warehouse_id r \<noteq> cd_warehouse_id c" if "r \<in> set rows" for r
    using ok that assms(4,5) by (force simp: ensure_warehouse_not_frozen_iff)
  then have "ledger_sum rows (cd_warehouse_id c, i, n) = 0"
    unfolding ledger_sum_def by (intro sum_where_none) (auto dest: ledger_slot_warehouse)
  then show ?thesis
    using slot_qty_ledger [OF warehouse_invD(2) [OF inv]] slot_qty_ledger [OF warehouse_invD(2) [OF assms(1)]] led
    by simp
qed

lemma frozen_warehouse_still_witness:
  "\<exists>d'. warehouse_step frozen_db d' \<and> slot_qty d' (7, 1, 1) = slot_qty frozen_db (7, 1, 1)"
proof -
  have "list_ex (\<lambda>c. cd_status c = ''FROZEN'' \<and> cd_warehouse_id c = 7) (t_count_docs frozen_db)" by code_simp
  then obtain c where c: "c \<in> set (t_count_docs frozen_db)" "cd_status c = ''FROZEN''" "cd_warehouse_id c = 7"
    by (auto simp: list_ex_iff)
  have inv: "warehouse_inv frozen_db" "count_inv frozen_db" using staged_inv(2) by blast+
  from counted_run have step: "warehouse_step frozen_db (counted_db 25 11)"
    by (auto intro: warehouse_step.count count_step.enter)
  from frozen_warehouse_still [OF inv step c(1,2)] c(3) step show ?thesis by auto
qed

text \<open>
  The balance table and the ledger tell the same: in every reachable state the balance of a slot
  is the \<open>after_qty\<close> of its latest ledger row, and zero when it has none.
\<close>

theorem balance_is_latest_row:
  assumes "warehouse_inv d" and "count_inv d" and "warehouse_step\<^sup>*\<^sup>* d d'"
  shows "slot_qty d' s = (let rows = filter (\<lambda>r. ledger_slot r = s) (t_ledger d') in
    if rows = [] then 0 else lg_after_qty (last rows))"
proof -
  have book: "book_inv d'" using warehouse_run [OF assms(3,1,2)] by (simp add: warehouse_inv_def)
  show ?thesis
  proof (cases "filter (\<lambda>r. ledger_slot r = s) (t_ledger d') = []")
    case True
    then have "ledger_sum (t_ledger d') s = 0"
      unfolding ledger_sum_def by (intro sum_where_none) (simp add: filter_empty_conv)
    with True slot_qty_ledger [OF book] show ?thesis by simp
  next
    case False
    with last_row_of_slot [OF book_invD(9) [OF book]] slot_qty_ledger [OF book] show ?thesis
      by (simp add: Let_def)
  qed
qed

lemma balance_is_latest_row_witness:
  "\<exists>d2. warehouse_step\<^sup>*\<^sup>* ship_db d2 \<and>
     map lg_after_qty (filter (\<lambda>r. ledger_slot r = (7, 2, 2)) (t_ledger d2)) \<noteq> [] \<and>
     last (map lg_after_qty (filter (\<lambda>r. ledger_slot r = (7, 2, 2)) (t_ledger d2))) = 5"
proof -
  from sample_site_run obtain out d1 out2 d2 where
    r: "submit_order_outbound_event 9 1 7 None ''T-1'' sample_order_submit None ship_db = Inr (out, d1)"
      "count_submit (sample_spot 2 5 None None ''R-1'') d1 = Inr (out2, d2)" "slot_qty d2 (7, 2, 2) = 5" by blast
  have run: "warehouse_step\<^sup>*\<^sup>* ship_db d2"
    using warehouse_step.ship [OF r(1)] warehouse_step.spot [OF r(2)] by (meson converse_rtranclp_into_rtranclp rtranclp.rtrancl_refl)
  from balance_is_latest_row [OF ship_db_inv ship_db_count_inv run, of "(7, 2, 2)"] r(3)
  show ?thesis by (intro exI [of _ d2] conjI run) (auto simp: Let_def last_map split: if_splits)
qed

end
