(* ===== verification/Returns.thy ===== *)
theory Returns
  imports ThreeBooks Warehouse "HOL-Library.Multiset"
begin

text \<open>
  Return tasks, \<open>app/wms/inventory_adjustment/return_inbound/\<close>: a task is made from what an order
  took out (the ledger rows under its reference), collects what came back, and its commit books
  the goods back on the lots they came from, behind the gate of the three books
  (\<open>services/return_task_service_impl.py\<close>, \<open>routers/tasks.py\<close>, \<open>models/return_task.py\<close>). The two tables
  and the snapshots stand beside the warehouse database in the record \<open>desk\<close>. The order in
  which the database returns the lines of a task is an argument; the two clocks of a commit (the service's and the snapshot's) are
  arguments. The list read is not modelled.
\<close>

section \<open>return\_task.py\<close>

datatype return_table = RETURN_TASKS | RETURN_TASK_LINES

record return_task =
  rt_id :: int
  rt_order_id :: string
  rt_warehouse_id :: int
  rt_status :: string
  rt_remark :: "string option"
  rt_created_at :: int
  rt_updated_at :: int

record return_task_line =
  rtl_id :: int
  rtl_task_id :: int
  rtl_order_line_id :: "int option"
  rtl_item_id :: int
  rtl_lot_id :: int
  rtl_lot_code_snapshot :: string
  rtl_expected_qty :: "int option"
  rtl_picked_qty :: int
  rtl_committed_qty :: "int option"
  rtl_status :: string
  rtl_remark :: "string option"

record desk =
  k_core :: db
  k_snapshots :: "stock_snapshot list"
  k_tasks :: "return_task list"
  k_lines :: "return_task_line list"
  k_next_id :: "return_table \<Rightarrow> int"

type_synonym 'a dtx = "desk \<Rightarrow> ('a \<times> desk) result"

definition desk_next_id :: "return_table \<Rightarrow> desk \<Rightarrow> int \<times> desk" where
  "desk_next_id t k = (k_next_id k t, k\<lparr>k_next_id := (k_next_id k)(t := k_next_id k t + 1)\<rparr>)"

section \<open>return\_task\_service\_impl.py\<close>

text \<open>The module's own copy of the code normalisation.\<close>

definition norm_lot_code_snapshot :: "string option \<Rightarrow> string option" where
  "norm_lot_code_snapshot v = (case v of None \<Rightarrow> None
     | Some c \<Rightarrow> (let s = py_strip c in if s = [] \<or> py_lower s = ''none'' then None else Some s))"

definition load_lot_snapshot_by_id :: "db \<Rightarrow> int \<Rightarrow> lot option" where
  "load_lot_snapshot_by_id d n = find_lot d n"

definition ship_out_reasons :: "string list" where
  "ship_out_reasons = [''SHIPMENT'', ''OUTBOUND_SHIP'']"

record shipped =
  sh_item_id :: int
  sh_warehouse_id :: int
  sh_lot_id :: int
  sh_lot_code_snapshot :: "string option"
  sh_qty :: int

text \<open>The quantities an order took out, per slot, in the order the slots first appear.\<close>

definition shipped_rows :: "db \<Rightarrow> string \<Rightarrow> stock_ledger list" where
  "shipped_rows d order_ref = filter (\<lambda>r. lg_ref r = order_ref \<and> lg_delta r < 0 \<and>
     py_upper (py_strip (lg_reason r)) \<in> set ship_out_reasons) (t_ledger d)"

definition load_shipped_summary :: "db \<Rightarrow> string \<Rightarrow> shipped list" where
  "load_shipped_summary d order_ref =
     (let rows = shipped_rows d order_ref;
          total = (\<lambda>s. sum_where (\<lambda>r. ledger_slot r = s) (\<lambda>r. - lg_delta r) rows) in
      map (\<lambda>(w, i, lid). \<lparr>sh_item_id = i, sh_warehouse_id = w, sh_lot_id = lid,
             sh_lot_code_snapshot = (case find_lot d lid of None \<Rightarrow> None | Some l \<Rightarrow> lot_code l),
             sh_qty = total (w, i, lid)\<rparr>)
        (filter (\<lambda>s. 0 < total s) (first_seen (map ledger_slot rows))))"

text \<open>
  The relationship to the lines has no \<open>order_by\<close>, so the database may return them in any order, and
  in another one for the next call: the argument \<open>ord\<close> is the order it chooses for this call.
\<close>

type_synonym row_order = "return_task_line list \<Rightarrow> return_task_line list"

definition row_order_ok :: "row_order \<Rightarrow> bool" where
  "row_order_ok ord \<longleftrightarrow> (\<forall>ls. mset (ord ls) = mset ls)"

definition task_with_lines :: "row_order \<Rightarrow> desk \<Rightarrow> return_task \<Rightarrow> return_task \<times> return_task_line list" where
  "task_with_lines ord k t = (t, ord (filter (\<lambda>l. rtl_task_id l = rt_id t) (k_lines k)))"

definition get_with_lines :: "row_order \<Rightarrow> desk \<Rightarrow> int \<Rightarrow> (return_task \<times> return_task_line list) result" where
  "get_with_lines ord k n = (case find (\<lambda>t. rt_id t = n) (k_tasks k) of
       None \<Rightarrow> Inl (ValueError ''return_task not found'')
     | Some t \<Rightarrow> Inr (task_with_lines ord k t))"

text \<open>The lines of a new task, flushed together after a lot without a code has stopped the creation.\<close>

definition return_line_of :: "int \<Rightarrow> shipped \<Rightarrow> return_task_line option" where
  "return_line_of task_id x = map_option (\<lambda>code.
     \<lparr>rtl_id = 0, rtl_task_id = task_id, rtl_order_line_id = None, rtl_item_id = sh_item_id x,
      rtl_lot_id = sh_lot_id x, rtl_lot_code_snapshot = code, rtl_expected_qty = Some (sh_qty x),
      rtl_picked_qty = 0, rtl_committed_qty = Some 0, rtl_status = ''OPEN'', rtl_remark = None\<rparr>)
     (norm_lot_code_snapshot (sh_lot_code_snapshot x))"

definition insert_return_line :: "return_task_line \<Rightarrow> desk \<Rightarrow> desk result" where
  "insert_return_line l k =
     (let (n, k1) = desk_next_id RETURN_TASK_LINES k in
      if \<not> (case rtl_expected_qty l of None \<Rightarrow> True | Some q \<Rightarrow> int4 q)
      then Inl (DataError ''integer out of range'')
      else if find_lot (k_core k) (rtl_lot_id l) = None \<or> rtl_task_id l \<notin> rt_id ` set (k_tasks k)
      then Inl (IntegrityError ''fk_return_task_lines'')
      else Inr (k1\<lparr>k_lines := k_lines k1 @ [l\<lparr>rtl_id := n\<rparr>]\<rparr>))"

text \<open>\<open>include_zero_shipped\<close> changes nothing: the summary has no zero rows.\<close>

definition create_for_order ::
  "row_order \<Rightarrow> int \<Rightarrow> string \<Rightarrow> int option \<Rightarrow> bool \<Rightarrow> (return_task \<times> return_task_line list) dtx" where
  "create_for_order ord now order_id warehouse_id include_zero_shipped k =
     (let order_ref = py_strip order_id in
      if order_ref = [] then Inl (ValueError ''order_id(order_ref) is required'')
      else case find (\<lambda>t. rt_order_id t = order_ref \<and> rt_status t \<noteq> ''COMMITTED'') (rev (k_tasks k)) of
        Some t \<Rightarrow> Inr (task_with_lines ord k t, k)
      | None \<Rightarrow>
          (let all = load_shipped_summary (k_core k) order_ref;
               here = (case warehouse_id of None \<Rightarrow> all
                 | Some w \<Rightarrow> filter (\<lambda>x. sh_warehouse_id x = w) all);
               xs = (if include_zero_shipped then here else filter (\<lambda>x. 0 < sh_qty x) here) in
           if xs = [] then Inl (ValueError ''no shippable ledger facts for return'')
           else case sort (remdups (map sh_warehouse_id xs)) of
             [w] \<Rightarrow>
               (let (n, k1) = desk_next_id RETURN_TASKS k;
                    t = \<lparr>rt_id = n, rt_order_id = order_ref, rt_warehouse_id = w, rt_status = ''OPEN'',
                         rt_remark = None, rt_created_at = now, rt_updated_at = now\<rparr> in
                bindE (foldE (\<lambda>x ls. bindE (of_option
                    (ValueError ''return_task_lot_code_snapshot_required_for_display'') (return_line_of n x))
                  (\<lambda>l. Inr (ls @ [l]))) xs []) (\<lambda>ls.
                bindE (foldE insert_return_line ls (k1\<lparr>k_tasks := k_tasks k1 @ [t]\<rparr>)) (\<lambda>k2.
                bindE (get_with_lines ord k2 n) (\<lambda>out. Inr (out, k2)))))
           | _ \<Rightarrow> Inl (ValueError ''order_ref is multi-warehouse'')))"

text \<open>
  The first line of the item, in the order the database returned, takes the quantity; negative to
  undo a scan.
\<close>

definition record_receive ::
  "row_order \<Rightarrow> int \<Rightarrow> int \<Rightarrow> int \<Rightarrow> (return_task \<times> return_task_line list) dtx" where
  "record_receive ord task_id item_id qty k =
     bindE (get_with_lines ord k task_id) (\<lambda>(task, ls).
     if rt_status task = ''COMMITTED'' then Inr ((task, ls), k)
     else case find (\<lambda>l. rtl_item_id l = item_id) ls of
       None \<Rightarrow> Inl (ValueError ''task_line not found'')
     | Some target \<Rightarrow>
         (let expected = (case rtl_expected_qty target of None \<Rightarrow> 0 | Some n \<Rightarrow> n);
              next_qty = rtl_picked_qty target + qty in
          if next_qty < 0 then Inl (ValueError ''picked_qty cannot be < 0'')
          else if expected < next_qty then Inl (ValueError ''picked_qty > expected_qty'')
          else
            let k1 = k\<lparr>k_lines := update_where (\<lambda>l. rtl_id l = rtl_id target)
                  (\<lambda>l. l\<lparr>rtl_picked_qty := next_qty\<rparr>) (k_lines k)\<rparr> in
            bindE (get_with_lines ord k1 task_id) (\<lambda>out. Inr (out, k1))))"

definition return_request :: "return_task \<Rightarrow> return_task_line \<Rightarrow> lot \<Rightarrow> int \<Rightarrow> string option \<Rightarrow> adjust_req" where
  "return_request task ln l ts trace =
     \<lparr>aq_item_id = rtl_item_id ln, aq_warehouse_id = rt_warehouse_id task, aq_lot_id = Some (rtl_lot_id ln),
      aq_delta = rtl_picked_qty ln, aq_reason = Inr RECEIPT, aq_ref = rt_order_id task,
      aq_ref_line = Some (if rtl_id ln = 0 then 1 else rtl_id ln), aq_occurred_at = Some ts,
      aq_meta = [(''sub_reason'', PStr ''RETURN_RECEIPT'')], aq_lot_code = None,
      aq_production_date = lot_production_date l, aq_expiry_date = lot_expiry_date l,
      aq_trace_id = trace\<rparr>"

definition return_effect :: "return_task \<Rightarrow> return_task_line \<Rightarrow> adjust_out \<Rightarrow> effect" where
  "return_effect task ln res =
     \<lparr>ef_warehouse_id = rt_warehouse_id task, ef_item_id = rtl_item_id ln,
      ef_lot_id = Some (case res of Noop \<Rightarrow> rtl_lot_id ln | Applied r \<Rightarrow> if ar_lot_id r = 0 then rtl_lot_id ln else ar_lot_id r),
      ef_batch_code = None, ef_qty = rtl_picked_qty ln, ef_ref_line = (if rtl_id ln = 0 then 1 else rtl_id ln),
      ef_reason = Some (case res of Noop \<Rightarrow> [] | Applied r \<Rightarrow> ar_reason r)\<rparr>"

text \<open>One line of a commit: nothing came back, or it is booked on its lot and marked.\<close>

definition commit_return_line ::
  "int \<Rightarrow> int \<Rightarrow> return_task \<Rightarrow> string option \<Rightarrow> return_task_line \<Rightarrow> (return_task_line \<times> effect option) tx" where
  "commit_return_line now ts task trace ln d =
     (if rtl_picked_qty ln \<le> 0 then Inr ((ln, None), d)
      else if rtl_lot_id ln \<le> 0 then Inl (ValueError ''return_task_line_lot_id_required'')
      else case load_lot_snapshot_by_id d (rtl_lot_id ln) of
        None \<Rightarrow> Inl (ValueError ''return_task_line_lot_not_found'')
      | Some l \<Rightarrow>
          if lot_warehouse_id l \<noteq> rt_warehouse_id task
          then Inl (ValueError ''return_task_line_lot_warehouse_mismatch'')
          else if lot_item_id l \<noteq> rtl_item_id ln then Inl (ValueError ''return_task_line_lot_item_mismatch'')
          else if norm_lot_code_snapshot (Some (rtl_lot_code_snapshot ln)) \<noteq> norm_lot_code_snapshot (lot_code l)
          then Inl (ValueError ''return_task_line_lot_code_snapshot_mismatch'')
          else
            bindE (adjust_lot now (return_request task ln l ts trace) d) (\<lambda>(res, d1).
            Inr ((ln\<lparr>rtl_committed_qty := Some (rtl_picked_qty ln), rtl_status := ''COMMITTED''\<rparr>,
                  Some (return_effect task ln res)), d1)))"

definition put_lines :: "return_task_line list \<Rightarrow> return_task_line list \<Rightarrow> return_task_line list" where
  "put_lines new rows = map (\<lambda>l. case find (\<lambda>x. rtl_id x = rtl_id l) new of None \<Rightarrow> l | Some x \<Rightarrow> x) rows"

definition line_effects :: "(return_task_line \<times> effect option) list \<Rightarrow> effect list" where
  "line_effects outs = concat (map (\<lambda>(_, e). case e of None \<Rightarrow> [] | Some x \<Rightarrow> [x]) outs)"

definition commit_return_task ::
  "row_order \<Rightarrow> int \<Rightarrow> int \<Rightarrow> int \<Rightarrow> string option \<Rightarrow> int option \<Rightarrow> (return_task \<times> return_task_line list) dtx" where
  "commit_return_task ord now today task_id trace occurred_at k =
     bindE (get_with_lines ord k task_id) (\<lambda>(task, ls).
     if rt_status task = ''COMMITTED'' then Inr ((task, ls), k)
     else
       let ts = (case occurred_at of None \<Rightarrow> now | Some t \<Rightarrow> t) in
       bindE (mapE (commit_return_line now ts task trace) ls (k_core k)) (\<lambda>(outs, d).
       let effects = line_effects outs;
           k1 = k\<lparr>k_core := d, k_lines := put_lines (map fst outs) (k_lines k),
             k_tasks := update_where (\<lambda>t. rt_id t = task_id)
               (\<lambda>t. t\<lparr>rt_status := ''COMMITTED'',
                      rt_updated_at := (if effects = [] then now else ts)\<rparr>) (k_tasks k)\<rparr> in
       bindE (enforce_three_books today (rt_order_id task) effects ts d (k_snapshots k)) (\<lambda>snaps.
       let k2 = k1\<lparr>k_snapshots := snaps\<rparr> in
       bindE (get_with_lines ord k2 task_id) (\<lambda>out. Inr (out, k2)))))"

section \<open>routers/tasks.py\<close>

text \<open>A \<open>ValueError\<close> is answered with 400, any other exception is not caught.\<close>

definition return_route :: "'a result \<Rightarrow> 'a result" where
  "return_route m = (case m of Inl (ValueError t) \<Rightarrow> Inl (HTTPException 400 t) | _ \<Rightarrow> m)"

definition create_return_task_from_order ::
  "row_order \<Rightarrow> int \<Rightarrow> string \<Rightarrow> int option \<Rightarrow> bool \<Rightarrow> (return_task \<times> return_task_line list) dtx" where
  "create_return_task_from_order ord now order_id warehouse_id include_zero_shipped k =
     return_route (create_for_order ord now order_id warehouse_id include_zero_shipped k)"

definition receive_return_task :: "row_order \<Rightarrow> int \<Rightarrow> int \<Rightarrow> int \<Rightarrow> (return_task \<times> return_task_line list) dtx" where
  "receive_return_task ord task_id item_id qty k = return_route (record_receive ord task_id item_id qty k)"

definition commit_return_task_route ::
  "row_order \<Rightarrow> int \<Rightarrow> int \<Rightarrow> int \<Rightarrow> string option \<Rightarrow> (return_task \<times> return_task_line list) dtx" where
  "commit_return_task_route ord now today task_id trace k =
     return_route (commit_return_task ord now today task_id trace None k)"

definition get_return_task :: "row_order \<Rightarrow> desk \<Rightarrow> int \<Rightarrow> (return_task \<times> return_task_line list) result" where
  "get_return_task ord k n = (case get_with_lines ord k n of
       Inl (ValueError t) \<Rightarrow> Inl (HTTPException 404 t) | m \<Rightarrow> m)"

end
