(* ===== verification/ReturnsLife.thy ===== *)
theory ReturnsLife
  imports Returns
begin

text \<open>
  The life of a return task: the invariant of the two tables (nobody returns more than the order
  took out, a task is open once per order, closed tasks keep what they booked) and that creation,
  receiving and committing keep it while the warehouse moves on.
\<close>

section \<open>The invariant\<close>

definition shipped_total :: "db \<Rightarrow> string \<Rightarrow> slot \<Rightarrow> int" where
  "shipped_total d ref s = sum_where (\<lambda>r. ledger_slot r = s) (\<lambda>r. - lg_delta r) (shipped_rows d ref)"

lemma shipped_rows_in: "r \<in> set (shipped_rows d ref) \<Longrightarrow> r \<in> set (t_ledger d) \<and> lg_delta r < 0"
  by (simp add: shipped_rows_def)

lemma shipped_total_grows:
  assumes "grows d d'" shows "shipped_total d ref s \<le> shipped_total d' ref s"
proof -
  from assms obtain rows where "t_ledger d' = t_ledger d @ rows" by (auto simp: grows_def)
  moreover have "0 \<le> sum_where (\<lambda>r. ledger_slot r = s) (\<lambda>r. - lg_delta r) (filter (\<lambda>r. lg_ref r = ref \<and>
      lg_delta r < 0 \<and> py_upper (py_strip (lg_reason r)) \<in> set ship_out_reasons) rows)"
    by (rule sum_where_nonneg) simp
  ultimately show ?thesis by (simp add: shipped_total_def shipped_rows_def)
qed

text \<open>A line: what it may hold and where its goods came from.\<close>

definition return_line_ok :: "db \<Rightarrow> return_task \<Rightarrow> return_task_line \<Rightarrow> bool" where
  "return_line_ok d t l \<longleftrightarrow>
     0 \<le> rtl_picked_qty l \<and>
     (\<exists>e. rtl_expected_qty l = Some e \<and> rtl_picked_qty l \<le> e \<and>
        e \<le> shipped_total d (rt_order_id t) (rt_warehouse_id t, rtl_item_id l, rtl_lot_id l)) \<and>
     (\<exists>r \<in> set (t_ledger d). ledger_slot r = (rt_warehouse_id t, rtl_item_id l, rtl_lot_id l)) \<and>
     rtl_committed_qty l = Some (if rt_status t = ''COMMITTED'' then rtl_picked_qty l else 0)"

definition desk_inv :: "desk \<Rightarrow> bool" where
  "desk_inv k \<longleftrightarrow>
     distinct (map rt_id (k_tasks k)) \<and> (\<forall>t \<in> set (k_tasks k). rt_id t < k_next_id k RETURN_TASKS) \<and>
     distinct (map rtl_id (k_lines k)) \<and> 0 < k_next_id k RETURN_TASK_LINES \<and>
     (\<forall>l \<in> set (k_lines k). 0 < rtl_id l \<and> rtl_id l < k_next_id k RETURN_TASK_LINES) \<and>
     distinct (map rt_order_id (filter (\<lambda>t. rt_status t \<noteq> ''COMMITTED'') (k_tasks k))) \<and>
     (\<forall>l \<in> set (k_lines k). \<exists>t \<in> set (k_tasks k). rt_id t = rtl_task_id l \<and>
        return_line_ok (k_core k) t l)"

lemma desk_invD:
  assumes "desk_inv k"
  shows "distinct (map rt_id (k_tasks k))"
    and "t \<in> set (k_tasks k) \<Longrightarrow> rt_id t < k_next_id k RETURN_TASKS"
    and "distinct (map rtl_id (k_lines k))" and "0 < k_next_id k RETURN_TASK_LINES"
    and "l \<in> set (k_lines k) \<Longrightarrow> 0 < rtl_id l \<and> rtl_id l < k_next_id k RETURN_TASK_LINES"
    and "distinct (map rt_order_id (filter (\<lambda>t. rt_status t \<noteq> ''COMMITTED'') (k_tasks k)))"
    and "l \<in> set (k_lines k) \<Longrightarrow> \<exists>t \<in> set (k_tasks k). rt_id t = rtl_task_id l \<and>
        return_line_ok (k_core k) t l"
  using assms unfolding desk_inv_def by blast+

lemma desk_invI:
  assumes "distinct (map rt_id (k_tasks k))" and "distinct (map rtl_id (k_lines k))"
    and "distinct (map rt_order_id (filter (\<lambda>t. rt_status t \<noteq> ''COMMITTED'') (k_tasks k)))"
    and "0 < k_next_id k RETURN_TASK_LINES"
    and "\<And>t. t \<in> set (k_tasks k) \<Longrightarrow> rt_id t < k_next_id k RETURN_TASKS"
    and "\<And>l. l \<in> set (k_lines k) \<Longrightarrow> 0 < rtl_id l \<and> rtl_id l < k_next_id k RETURN_TASK_LINES"
    and "\<And>l. l \<in> set (k_lines k) \<Longrightarrow> \<exists>t \<in> set (k_tasks k). rt_id t = rtl_task_id l \<and>
        return_line_ok (k_core k) t l"
  shows "desk_inv k"
  using assms unfolding desk_inv_def by blast

lemma task_unique:
  assumes "desk_inv k" and "t \<in> set (k_tasks k)" and "u \<in> set (k_tasks k)" and "rt_id t = rt_id u"
  shows "t = u"
  using assms(2-) desk_invD(1) [OF assms(1)] by (auto simp: distinct_map dest: inj_onD)

lemma line_of_task:
  assumes "desk_inv k" and "t \<in> set (k_tasks k)" and "l \<in> set (k_lines k)" and "rtl_task_id l = rt_id t"
  shows "return_line_ok (k_core k) t l"
  using desk_invD(7) [OF assms(1,3)] task_unique [OF assms(1)] assms(2,4) by metis

text \<open>The warehouse may move on under the desk.\<close>

lemma return_line_ok_grows:
  assumes "return_line_ok d t l" and "grows d d'"
  shows "return_line_ok d' t l"
  using assms(1) shipped_total_grows [OF assms(2)] assms(2) unfolding return_line_ok_def grows_def
  by (smt (verit) Un_iff set_append)

lemma desk_inv_core:
  assumes "desk_inv k" and "grows (k_core k) d'"
  shows "desk_inv (k\<lparr>k_core := d'\<rparr>)"
proof (rule desk_invI)
  fix l assume "l \<in> set (k_lines (k\<lparr>k_core := d'\<rparr>))"
  then show "\<exists>t \<in> set (k_tasks (k\<lparr>k_core := d'\<rparr>)). rt_id t = rtl_task_id l \<and>
      return_line_ok (k_core (k\<lparr>k_core := d'\<rparr>)) t l"
    using desk_invD(7) [OF assms(1), of l] return_line_ok_grows [OF _ assms(2)] by fastforce
qed (use desk_invD [OF assms(1)] in simp_all)

section \<open>Creating a task\<close>

fun number_from :: "int \<Rightarrow> return_task_line list \<Rightarrow> return_task_line list" where
  "number_from n [] = []"
| "number_from n (l # ls) = l\<lparr>rtl_id := n\<rparr> # number_from (n + 1) ls"

lemma number_from_in: "x \<in> set (number_from n ls) \<Longrightarrow>
    \<exists>l \<in> set ls. x = l\<lparr>rtl_id := rtl_id x\<rparr> \<and> n \<le> rtl_id x \<and> rtl_id x < n + int (length ls)"
  by (induction ls arbitrary: n) fastforce+

lemma number_from_distinct: "distinct (map rtl_id (number_from n ls))"
proof (induction ls arbitrary: n)
  case (Cons l ls)
  have "n \<notin> rtl_id ` set (number_from (n + 1) ls)" using number_from_in by fastforce
  with Cons.IH [of "n + 1"] show ?case by simp
qed simp

lemma insert_return_lines:
  "foldE insert_return_line ls k = Inr k' \<Longrightarrow>
   k' = k\<lparr>k_next_id := (k_next_id k)(RETURN_TASK_LINES := k_next_id k RETURN_TASK_LINES + int (length ls)),
          k_lines := k_lines k @ number_from (k_next_id k RETURN_TASK_LINES) ls\<rparr>"
proof (induction ls arbitrary: k)
  case (Cons l ls)
  from Cons.prems obtain k1 where k1: "insert_return_line l k = Inr k1" "foldE insert_return_line ls k1 = Inr k'"
    by (auto simp: bindE_eq_Inr)
  from k1(1) have one: "k1 = k\<lparr>k_next_id := (k_next_id k)(RETURN_TASK_LINES := k_next_id k RETURN_TASK_LINES + 1),
      k_lines := k_lines k @ [l\<lparr>rtl_id := k_next_id k RETURN_TASK_LINES\<rparr>]\<rparr>"
    by (auto simp: insert_return_line_def desk_next_id_def Let_def split: if_splits)
  show ?case unfolding Cons.IH [OF k1(2)] one by (simp add: add.assoc fun_upd_def cong: if_cong)
qed simp

lemma collect_lines:
  "foldE (\<lambda>x ls. bindE (of_option e (f x)) (\<lambda>l. Inr (ls @ [l]))) xs acc = Inr ls \<Longrightarrow>
   \<exists>new. ls = acc @ new \<and> list_all2 (\<lambda>x l. f x = Some l) xs new"
proof (induction xs arbitrary: acc)
  case (Cons x xs)
  from Cons.prems obtain l where l: "f x = Some l"
    "foldE (\<lambda>x ls. bindE (of_option e (f x)) (\<lambda>l. Inr (ls @ [l]))) xs (acc @ [l]) = Inr ls"
    by (auto simp: bindE_eq_Inr res_simps)
  from Cons.IH [OF l(2)] obtain new where "ls = acc @ l # new" "list_all2 (\<lambda>x l. f x = Some l) xs new"
    by auto
  with l(1) show ?case by (intro exI [of _ "l # new"]) simp
qed simp

lemma load_shipped_summary_in:
  assumes "x \<in> set (load_shipped_summary d ref)"
  shows "0 < sh_qty x" and "sh_qty x = shipped_total d ref (sh_warehouse_id x, sh_item_id x, sh_lot_id x)"
    and "\<exists>r \<in> set (t_ledger d). ledger_slot r = (sh_warehouse_id x, sh_item_id x, sh_lot_id x)"
  using assms by (auto simp: load_shipped_summary_def shipped_total_def Let_def dest: shipped_rows_in)

lemma create_for_order_cases:
  assumes "create_for_order ord now oid w z k = Inr (out, k')"
  obtains (old) "k' = k"
    | (new) xs ls t where "list_all2 (\<lambda>x l. return_line_of (k_next_id k RETURN_TASKS) x = Some l) xs ls"
      "set xs \<subseteq> set (load_shipped_summary (k_core k) (py_strip oid))"
      "\<forall>x \<in> set xs. sh_warehouse_id x = rt_warehouse_id t" "rt_id t = k_next_id k RETURN_TASKS"
      "rt_order_id t = py_strip oid" "rt_status t = ''OPEN''"
      "\<forall>u \<in> set (k_tasks k). rt_order_id u = py_strip oid \<longrightarrow> rt_status u = ''COMMITTED''"
      "k_core k' = k_core k" "k_snapshots k' = k_snapshots k" "k_tasks k' = k_tasks k @ [t]"
      "k_lines k' = k_lines k @ number_from (k_next_id k RETURN_TASK_LINES) ls"
      "k_next_id k' RETURN_TASKS = k_next_id k RETURN_TASKS + 1"
      "k_next_id k' RETURN_TASK_LINES = k_next_id k RETURN_TASK_LINES + int (length ls)"
proof (cases "find (\<lambda>t. rt_order_id t = py_strip oid \<and> rt_status t \<noteq> ''COMMITTED'') (rev (k_tasks k))")
  case (Some t)
  with assms show thesis by (intro old) (auto simp: create_for_order_def Let_def split: if_splits)
next
  case None
  let ?here = "case w of None \<Rightarrow> load_shipped_summary (k_core k) (py_strip oid)
      | Some w \<Rightarrow> filter (\<lambda>x. sh_warehouse_id x = w) (load_shipped_summary (k_core k) (py_strip oid))"
  let ?xs = "if z then ?here else filter (\<lambda>x. 0 < sh_qty x) ?here"
  let ?n = "k_next_id k RETURN_TASKS"
  let ?e = "ValueError ''return_task_lot_code_snapshot_required_for_display''"
  from assms None obtain wh where wh: "sort (remdups (map sh_warehouse_id ?xs)) = [wh]"
    by (auto simp: create_for_order_def Let_def desk_next_id_def split: if_splits list.splits)
  let ?t = "\<lparr>rt_id = ?n, rt_order_id = py_strip oid, rt_warehouse_id = wh, rt_status = ''OPEN'',
                         rt_remark = None, rt_created_at = now, rt_updated_at = now\<rparr>"
  let ?k1 = "k\<lparr>k_next_id := (k_next_id k)(RETURN_TASKS := ?n + 1), k_tasks := k_tasks k @ [?t]\<rparr>"
  from assms None wh obtain ls where
    ls: "foldE (\<lambda>x ls. bindE (of_option ?e (return_line_of ?n x)) (\<lambda>l. Inr (ls @ [l]))) ?xs [] = Inr ls" and
    k2: "foldE insert_return_line ls ?k1 = Inr k'"
    by (auto simp: create_for_order_def Let_def desk_next_id_def bindE_eq_Inr split: if_splits)
  from collect_lines [OF ls] have l2: "list_all2 (\<lambda>x l. return_line_of ?n x = Some l) ?xs ls" by simp
  have "set (map sh_warehouse_id ?xs) = {wh}"
    using arg_cong [OF wh, of set] by simp
  then have all: "\<forall>x \<in> set ?xs. sh_warehouse_id x = wh" by auto
  have sub: "set ?xs \<subseteq> set (load_shipped_summary (k_core k) (py_strip oid))"
    by (auto split: option.splits if_splits)
  have none: "\<forall>u \<in> set (k_tasks k). rt_order_id u = py_strip oid \<longrightarrow> rt_status u = ''COMMITTED''"
    using None by (auto simp: find_None_iff_all)
  from insert_return_lines [OF k2] show thesis
    by (intro new [OF l2 sub, of ?t]) (use all none in simp_all)
qed

lemma create_for_order_inv:
  assumes run: "create_for_order ord now oid w z k = Inr (out, k')" and inv: "desk_inv k"
  shows "desk_inv k'"
  using run
proof (cases rule: create_for_order_cases)
  case old
  with inv show ?thesis by simp
next
  case (new xs ls t)
  let ?n = "k_next_id k RETURN_TASK_LINES"
  note D = desk_invD [OF inv]
  have made: "\<exists>x \<in> set xs. rtl_task_id l = rt_id t \<and> rtl_item_id l = sh_item_id x \<and> rtl_lot_id l = sh_lot_id x \<and>
      rtl_expected_qty l = Some (sh_qty x) \<and> rtl_picked_qty l = 0 \<and> rtl_committed_qty l = Some 0 \<and>
      ?n \<le> rtl_id l \<and> rtl_id l < ?n + int (length ls)" if l: "l \<in> set (number_from ?n ls)" for l
  proof -
    from number_from_in [OF l] obtain m where m: "m \<in> set ls" "l = m\<lparr>rtl_id := rtl_id l\<rparr>"
      "?n \<le> rtl_id l" "rtl_id l < ?n + int (length ls)" by blast
    from list_all2_in_right [OF new(1) m(1)] obtain x where x: "x \<in> set xs" "return_line_of (rt_id t) x = Some m"
      by (auto simp: new(4))
    then have "rtl_task_id m = rt_id t \<and> rtl_item_id m = sh_item_id x \<and> rtl_lot_id m = sh_lot_id x \<and>
      rtl_expected_qty m = Some (sh_qty x) \<and> rtl_picked_qty m = 0 \<and> rtl_committed_qty m = Some 0"
      by (auto simp: return_line_of_def)
    moreover have "rtl_task_id l = rtl_task_id m" "rtl_item_id l = rtl_item_id m" "rtl_lot_id l = rtl_lot_id m"
      "rtl_expected_qty l = rtl_expected_qty m" "rtl_picked_qty l = rtl_picked_qty m" "rtl_committed_qty l = rtl_committed_qty m"
      by (subst m(2), simp)+
    ultimately show ?thesis using x(1) m(3,4) by auto
  qed
  have fresh: "rt_id t \<notin> rt_id ` set (k_tasks k)" using D(2) new(4) by force
  show ?thesis
  proof (rule desk_invI; unfold new(8,10-13))
    show "distinct (map rt_id (k_tasks k @ [t]))" using D(1) fresh by simp
    show "distinct (map rtl_id (k_lines k @ number_from ?n ls))"
      using D(3,5) made number_from_distinct by fastforce
    show "distinct (map rt_order_id (filter (\<lambda>t. rt_status t \<noteq> ''COMMITTED'') (k_tasks k @ [t])))"
      using D(6) new(5,6,7) by auto
    show "rt_id u < k_next_id k RETURN_TASKS + 1" if "u \<in> set (k_tasks k @ [t])" for u
      using that D(2) [of u] new(4) by auto
    show "0 < rtl_id l \<and> rtl_id l < ?n + int (length ls)" if "l \<in> set (k_lines k @ number_from ?n ls)" for l
      using that D(4) D(5) [of l] made [of l] by auto
    fix l assume "l \<in> set (k_lines k @ number_from ?n ls)"
    then consider "l \<in> set (k_lines k)" | "l \<in> set (number_from ?n ls)" by auto
    then show "\<exists>u \<in> set (k_tasks k @ [t]). rt_id u = rtl_task_id l \<and>
        return_line_ok (k_core k) u l"
    proof cases
      case 1
      with D(7) obtain u where "u \<in> set (k_tasks k)" "rt_id u = rtl_task_id l" "return_line_ok (k_core k) u l"
        by blast
      then show ?thesis by (intro bexI [of _ u]) (auto simp: return_line_ok_def)
    next
      case 2
      from made [OF this] obtain x where x: "x \<in> set xs" "rtl_task_id l = rt_id t" "rtl_item_id l = sh_item_id x"
        "rtl_lot_id l = sh_lot_id x" "rtl_expected_qty l = Some (sh_qty x)" "rtl_picked_qty l = 0" "rtl_committed_qty l = Some 0"
        by blast
      moreover have "x \<in> set (load_shipped_summary (k_core k) (py_strip oid))" "sh_warehouse_id x = rt_warehouse_id t"
        using x(1) new(2,3) by auto
      ultimately have "return_line_ok (k_core k) t l"
        using load_shipped_summary_in [of x "k_core k" "py_strip oid"] new(5,6) x by (auto simp: return_line_ok_def)
      with x(2) show ?thesis by simp
    qed
  qed (use D(4) in simp)
qed

section \<open>Changing lines\<close>

lemma find_map_same: "(\<And>x. x \<in> set rows \<Longrightarrow> p (g x) = p x) \<Longrightarrow> find p (map g rows) = map_option g (find p rows)"
  by (induction rows) auto

text \<open>Lines keep their place: only counts and statuses change.\<close>

definition same_line :: "return_task_line \<Rightarrow> return_task_line \<Rightarrow> bool" where
  "same_line a b \<longleftrightarrow> rtl_id b = rtl_id a \<and> rtl_task_id b = rtl_task_id a \<and> rtl_item_id b = rtl_item_id a \<and>
     rtl_lot_id b = rtl_lot_id a \<and> rtl_expected_qty b = rtl_expected_qty a \<and>
     rtl_lot_code_snapshot b = rtl_lot_code_snapshot a"

lemma return_line_ok_map:
  assumes ok: "return_line_ok d t l" and same: "same_line l (g l)"
    and "rt_order_id t' = rt_order_id t" and "rt_warehouse_id t' = rt_warehouse_id t"
    and picked: "0 \<le> rtl_picked_qty (g l)" "\<And>e. rtl_expected_qty l = Some e \<Longrightarrow> rtl_picked_qty (g l) \<le> e"
    and "rtl_committed_qty (g l) = Some (if rt_status t' = ''COMMITTED'' then rtl_picked_qty (g l) else 0)"
  shows "return_line_ok d t' (g l)"
proof -
  have gl: "rtl_task_id (g l) = rtl_task_id l" "rtl_item_id (g l) = rtl_item_id l" "rtl_lot_id (g l) = rtl_lot_id l"
    "rtl_expected_qty (g l) = rtl_expected_qty l"
    using same by (simp_all add: same_line_def)
  with ok picked assms(3,4,7) show ?thesis by (auto simp: return_line_ok_def)
qed

lemma desk_inv_map_lines:
  assumes inv: "desk_inv k" and lines: "k_lines k' = map g (k_lines k)" and same: "\<And>x. x \<in> set (k_lines k) \<Longrightarrow> same_line x (g x)"
    and tasks: "k_tasks k' = map h (k_tasks k)"
    and task: "\<And>t. t \<in> set (k_tasks k) \<Longrightarrow> rt_id (h t) = rt_id t \<and> rt_order_id (h t) = rt_order_id t \<and>
      rt_warehouse_id (h t) = rt_warehouse_id t \<and> (rt_status t = ''COMMITTED'' \<longrightarrow> rt_status (h t) = ''COMMITTED'')"
    and next': "k_next_id k' = k_next_id k" and grow: "grows (k_core k) (k_core k')"
    and line: "\<And>t l. t \<in> set (k_tasks k) \<Longrightarrow> l \<in> set (k_lines k) \<Longrightarrow> rt_id t = rtl_task_id l \<Longrightarrow>
      return_line_ok (k_core k) t l \<Longrightarrow>
      0 \<le> rtl_picked_qty (g l) \<and> (\<forall>e. rtl_expected_qty l = Some e \<longrightarrow> rtl_picked_qty (g l) \<le> e) \<and>
      rtl_committed_qty (g l) = Some (if rt_status (h t) = ''COMMITTED'' then rtl_picked_qty (g l) else 0)"
  shows "desk_inv k'"
proof (rule desk_invI; unfold lines tasks next')
  note D = desk_invD [OF inv]
  have ids: "map rt_id (map h (k_tasks k)) = map rt_id (k_tasks k)" "map rtl_id (map g (k_lines k)) = map rtl_id (k_lines k)"
    using task same by (simp_all add: same_line_def)
  show "distinct (map rt_id (map h (k_tasks k)))" "distinct (map rtl_id (map g (k_lines k)))"
    unfolding ids by (rule D)+
  have "distinct (map rt_order_id (filter (\<lambda>t. rt_status t \<noteq> ''COMMITTED'') (map h ts)))"
    if "distinct (map rt_order_id (filter (\<lambda>t. rt_status t \<noteq> ''COMMITTED'') ts))" "set ts \<subseteq> set (k_tasks k)" for ts
    using that
  proof (induction ts)
    case (Cons t ts)
    then have "rt_order_id (h t) = rt_order_id t" "rt_status t = ''COMMITTED'' \<longrightarrow> rt_status (h t) = ''COMMITTED''"
      "\<forall>u \<in> set ts. rt_order_id (h u) = rt_order_id u \<and> (rt_status u = ''COMMITTED'' \<longrightarrow> rt_status (h u) = ''COMMITTED'')"
      using task by auto
    with Cons show ?case by (auto split: if_splits)
  qed simp
  then show "distinct (map rt_order_id (filter (\<lambda>t. rt_status t \<noteq> ''COMMITTED'') (map h (k_tasks k))))"
    using D(6) by blast
  show "rt_id u < k_next_id k RETURN_TASKS" if "u \<in> set (map h (k_tasks k))" for u
    using that D(2) task by auto
  show "0 < rtl_id l \<and> rtl_id l < k_next_id k RETURN_TASK_LINES" if "l \<in> set (map g (k_lines k))" for l
    using that D(5) same by (auto simp: same_line_def)
  fix m assume "m \<in> set (map g (k_lines k))"
  then obtain l where l: "l \<in> set (k_lines k)" "m = g l" by auto
  with D(7) obtain t where t: "t \<in> set (k_tasks k)" "rt_id t = rtl_task_id l" "return_line_ok (k_core k) t l" by blast
  have "return_line_ok (k_core k) (h t) (g l)"
    using line [OF t(1) l(1) t(2,3)] task [OF t(1)] same [OF l(1)] by (intro return_line_ok_map [OF t(3)]) auto
  from return_line_ok_grows [OF this grow] show "\<exists>u \<in> set (map h (k_tasks k)). rt_id u = rtl_task_id m \<and>
      return_line_ok (k_core k') u m"
    using l t task [OF t(1)] same [OF l(1)] by (auto simp: same_line_def)
qed (rule desk_invD(4) [OF inv])

lemma row_order_set: "row_order_ok ord \<Longrightarrow> set (ord ls) = set ls"
  unfolding row_order_ok_def by (metis mset_eq_setD)

lemma row_order_id: "row_order_ok (\<lambda>ls. ls)"
  by (simp add: row_order_ok_def)

lemma get_with_lines_Inr:
  assumes "get_with_lines ord k n = Inr (t, ls)"
  shows "t \<in> set (k_tasks k)" and "rt_id t = n" and "ls = ord (filter (\<lambda>l. rtl_task_id l = n) (k_lines k))"
    and "row_order_ok ord \<Longrightarrow> set ls = {l \<in> set (k_lines k). rtl_task_id l = n}"
  using assms by (auto simp: get_with_lines_def task_with_lines_def row_order_set dest!: find_SomeD split: option.splits)

lemma record_receive_inv:
  assumes run: "record_receive ord n i q k = Inr (out, k')" and ord: "row_order_ok ord" and inv: "desk_inv k"
  shows "desk_inv k' \<and> k_core k' = k_core k"
proof -
  from run obtain task ls where g: "get_with_lines ord k n = Inr (task, ls)" by (auto simp: record_receive_def res_simps)
  note G = get_with_lines_Inr [OF g]
  note D = desk_invD [OF inv]
  show ?thesis
  proof (cases "rt_status task = ''COMMITTED''")
    case True
    with run g inv show ?thesis by (simp add: record_receive_def)
  next
    case False
    with run g obtain target where
      t: "find (\<lambda>l. rtl_item_id l = i) ls = Some target" "0 \<le> rtl_picked_qty target + q"
        "rtl_picked_qty target + q \<le> (case rtl_expected_qty target of None \<Rightarrow> 0 | Some n \<Rightarrow> n)" and
      k': "k' = k\<lparr>k_lines := update_where (\<lambda>l. rtl_id l = rtl_id target)
        (\<lambda>l. l\<lparr>rtl_picked_qty := rtl_picked_qty target + q\<rparr>) (k_lines k)\<rparr>"
      by (auto simp: record_receive_def Let_def bindE_eq_Inr split: option.splits if_splits)
    have tin: "target \<in> set (k_lines k)" "rtl_task_id target = n"
      using find_SomeD [OF t(1)] G(4) [OF ord] by simp_all
    have same_id: "l = target" if "l \<in> set (k_lines k)" "rtl_id l = rtl_id target" for l
      using that D(3) tin(1) by (auto simp: distinct_map dest: inj_onD)
    let ?g = "\<lambda>l. if rtl_id l = rtl_id target then l\<lparr>rtl_picked_qty := rtl_picked_qty target + q\<rparr> else l"
    have "desk_inv k'"
    proof (rule desk_inv_map_lines [OF inv, where g = ?g and h = "\<lambda>t. t"])
      fix u l assume u: "u \<in> set (k_tasks k)" and l: "l \<in> set (k_lines k)" and id: "rt_id u = rtl_task_id l"
        and ok: "return_line_ok (k_core k) u l"
      show "0 \<le> rtl_picked_qty (?g l) \<and> (\<forall>e. rtl_expected_qty l = Some e \<longrightarrow> rtl_picked_qty (?g l) \<le> e) \<and>
        rtl_committed_qty (?g l) = Some (if rt_status u = ''COMMITTED'' then rtl_picked_qty (?g l) else 0)"
      proof (cases "rtl_id l = rtl_id target")
        case True
        with l same_id have lt: "l = target" by blast
        have "u = task" using task_unique [OF inv u G(1)] id lt tin(2) G(2) by simp
        with lt ok t(2,3) False show ?thesis by (auto simp: return_line_ok_def)
      qed (use ok in \<open>auto simp: return_line_ok_def\<close>)
    qed (auto simp: k' update_where_def same_line_def growth.evo_refl)
    then show ?thesis by (simp add: k')
  qed
qed

end
