(* ===== verification/ReturnsRuns.thy ===== *)
theory ReturnsRuns
  imports ReturnsLife
begin

text \<open>
  Committing return tasks: what a commit books, that it always can be booked when the lots and the
  balances allow it, the steps of the desk, and the properties of returns.
\<close>

section \<open>One line of a commit\<close>

definition mark_returned :: "return_task_line \<Rightarrow> return_task_line" where
  "mark_returned l = (if rtl_picked_qty l \<le> 0 then l
     else l\<lparr>rtl_committed_qty := Some (rtl_picked_qty l), rtl_status := ''COMMITTED''\<rparr>)"

lemma commit_return_line_Inr:
  assumes "commit_return_line now ts task tr ln d = Inr ((ln', e), d')"
  shows "ln' = mark_returned ln" and "(rtl_picked_qty ln \<le> 0 \<and> e = None \<and> d' = d) \<or>
    (0 < rtl_picked_qty ln \<and> e \<noteq> None \<and> (\<exists>l out. adjust_lot now (return_request task ln l ts tr) d = Inr (out, d')))"
  using assms by (auto simp: commit_return_line_def mark_returned_def res_simps split: if_splits)

definition sound_core :: "db \<Rightarrow> bool" where
  "sound_core d \<longleftrightarrow> warehouse_inv d \<and> count_inv d"

lemma commit_return_line_sound:
  assumes "commit_return_line now ts task tr ln d = Inr ((ln', e), d')" and "sound_core d"
  shows "sound_core d' \<and> grows d d'"
proof (cases "rtl_picked_qty ln \<le> 0")
  case True
  with commit_return_line_Inr(2) [OF assms(1)] assms(2) show ?thesis by (auto simp: growth.evo_refl)
next
  case False
  with commit_return_line_Inr(2) [OF assms(1)] obtain l out where
    adj: "adjust_lot now (return_request task ln l ts tr) d = Inr (out, d')" by auto
  note w = assms(2) [unfolded sound_core_def]
  have "count_inv d'" using w count_view_inv [of d' d] keeps_counts_adjust [OF adj] by (simp add: keeps_counts_def)
  moreover have "grows d d'" using adjust_lot_rows [OF adj] w by (auto simp: grows_def warehouse_inv_def)
  ultimately show ?thesis using adjust_lot_warehouse_inv [OF adj] w by (simp add: sound_core_def)
qed

lemma commit_return_lines_sound:
  "mapE (commit_return_line now ts task tr) ls d = Inr (outs, d') \<Longrightarrow> sound_core d \<Longrightarrow>
   map fst outs = map mark_returned ls \<and> sound_core d' \<and> grows d d'"
proof (induction ls arbitrary: d outs)
  case Nil
  then show ?case by (simp add: growth.evo_refl)
next
  case (Cons l ls)
  from Cons.prems(1) obtain l' e d1 os where 1: "commit_return_line now ts task tr l d = Inr ((l', e), d1)"
    "mapE (commit_return_line now ts task tr) ls d1 = Inr (os, d')" "outs = (l', e) # os"
    by (auto simp: res_simps simp del: mapE.simps)
  note s = commit_return_line_sound [OF 1(1) Cons.prems(2)]
  from Cons.IH [OF 1(2)] s commit_return_line_Inr(1) [OF 1(1)] 1(3) show ?case
    by (auto intro: growth.evo_trans)
qed

lemma put_marked_lines:
  assumes "distinct (map rtl_id rows)" and ls: "mset ls = mset (filter p rows)"
  shows "put_lines (map mark_returned ls) rows = map (\<lambda>l. if p l then mark_returned l else l) rows"
proof -
  have in_ls: "set ls = {l \<in> set rows. p l}" using mset_eq_setD [OF ls] by auto
  have dist: "distinct (map rtl_id ls)"
    using distinct_map_filter [OF assms(1), of p] mset_eq_imp_distinct_iff [of "map rtl_id ls" "map rtl_id (filter p rows)"] ls
    by simp
  have "(case find (\<lambda>x. rtl_id x = rtl_id l) (map mark_returned ls) of None \<Rightarrow> l | Some x \<Rightarrow> x) =
      (if p l then mark_returned l else l)" if l: "l \<in> set rows" for l
  proof -
    have "find (\<lambda>x. rtl_id x = rtl_id l) (map mark_returned ls) =
        map_option mark_returned (find (\<lambda>x. rtl_id x = rtl_id l) ls)"
      by (rule find_map_same) (simp add: mark_returned_def)
    also have "find (\<lambda>x. rtl_id x = rtl_id l) ls = (if p l then Some l else None)"
    proof (cases "p l")
      case True
      then have "l \<in> set ls" using l in_ls by simp
      from find_unique_key [OF dist this] True show ?thesis by simp
    next
      case False
      have "x = l" if "x \<in> set rows" "rtl_id x = rtl_id l" for x
        using that l assms(1) by (auto simp: distinct_map dest: inj_onD)
      with False show ?thesis using in_ls by (auto simp: find_None_iff_all)
    qed
    finally show ?thesis by simp
  qed
  then show ?thesis by (simp add: put_lines_def)
qed

lemma commit_return_task_cases:
  assumes "commit_return_task ord now today n tr occ k = Inr (out, k')"
  obtains (closed) t ls where "get_with_lines ord k n = Inr (t, ls)" "rt_status t = ''COMMITTED''" "k' = k" "out = (t, ls)"
    | (books) t ls outs snaps f where "get_with_lines ord k n = Inr (t, ls)" "rt_status t \<noteq> ''COMMITTED''"
      "mapE (commit_return_line now (case occ of None \<Rightarrow> now | Some x \<Rightarrow> x) t tr) ls (k_core k) = Inr (outs, k_core k')"
      "k_lines k' = put_lines (map fst outs) (k_lines k)" "k_next_id k' = k_next_id k"
      "k_tasks k' = map (\<lambda>u. if rt_id u = n then f u else u) (k_tasks k)"
      "\<forall>u. rt_id (f u) = rt_id u \<and> rt_order_id (f u) = rt_order_id u \<and>
         rt_warehouse_id (f u) = rt_warehouse_id u \<and> rt_status (f u) = ''COMMITTED''"
      "k_snapshots k' = snaps" "get_with_lines ord k' n = Inr out"
proof -
  from assms obtain t ls where g: "get_with_lines ord k n = Inr (t, ls)" by (auto simp: commit_return_task_def res_simps)
  show thesis
  proof (cases "rt_status t = ''COMMITTED''")
    case True
    with assms g show thesis by (intro closed) (auto simp: commit_return_task_def)
  next
    case False
    with assms g obtain outs d snaps where
      "mapE (commit_return_line now (case occ of None \<Rightarrow> now | Some x \<Rightarrow> x) t tr) ls (k_core k) = Inr (outs, d)"
      "k' = k\<lparr>k_core := d, k_lines := put_lines (map fst outs) (k_lines k),
         k_tasks := update_where (\<lambda>t. rt_id t = n) (\<lambda>u. u\<lparr>rt_status := ''COMMITTED'',
            rt_updated_at := (if line_effects outs = [] then now else (case occ of None \<Rightarrow> now | Some x \<Rightarrow> x))\<rparr>) (k_tasks k),
         k_snapshots := snaps\<rparr>"
      "get_with_lines ord k' n = Inr out"
      by (auto simp: commit_return_task_def Let_def bindE_eq_Inr)
    with g False show thesis
      by (intro books [where f = "\<lambda>u. u\<lparr>rt_status := ''COMMITTED'',
            rt_updated_at := (if line_effects outs = [] then now else (case occ of None \<Rightarrow> now | Some x \<Rightarrow> x))\<rparr>"])
        (auto simp: update_where_def)
  qed
qed

lemma commit_return_task_inv:
  assumes run: "commit_return_task ord now today n tr occ k = Inr (out, k')" and ord: "row_order_ok ord"
    and inv: "desk_inv k" and core: "sound_core (k_core k)"
  shows "desk_inv k' \<and> sound_core (k_core k') \<and> grows (k_core k) (k_core k')"
  using run
proof (cases rule: commit_return_task_cases)
  case closed
  with inv core show ?thesis by (simp add: growth.evo_refl)
next
  case (books t ls outs snaps f)
  note G = get_with_lines_Inr [OF books(1)]
  note s = commit_return_lines_sound [OF books(3) core]
  let ?g = "\<lambda>l. if rtl_task_id l = n then mark_returned l else l"
  have lines: "k_lines k' = map ?g (k_lines k)"
    unfolding books(4) conjunct1 [OF s] G(3)
    by (rule put_marked_lines [OF desk_invD(3) [OF inv]]) (use ord in \<open>simp add: row_order_ok_def\<close>)
  have "desk_inv k'"
  proof (rule desk_inv_map_lines [OF inv lines _ books(6)])
    show "same_line x (?g x)" for x by (simp add: same_line_def mark_returned_def)
    show "grows (k_core k) (k_core k')" using s by simp
    fix u l assume u: "u \<in> set (k_tasks k)" and l: "l \<in> set (k_lines k)" and id: "rt_id u = rtl_task_id l"
      and ok: "return_line_ok (k_core k) u l"
    show "0 \<le> rtl_picked_qty (?g l) \<and> (\<forall>e. rtl_expected_qty l = Some e \<longrightarrow> rtl_picked_qty (?g l) \<le> e) \<and>
      rtl_committed_qty (?g l) = Some (if rt_status (if rt_id u = n then f u else u) = ''COMMITTED''
         then rtl_picked_qty (?g l) else 0)"
    proof (cases "rtl_task_id l = n")
      case True
      have "u = t" using task_unique [OF inv u G(1)] id True G(2) by simp
      with True id ok books(2,7) show ?thesis by (auto simp: return_line_ok_def mark_returned_def)
    qed (use ok id in \<open>auto simp: return_line_ok_def\<close>)
  qed (use books(5,7) in auto)
  with s show ?thesis by blast
qed

section \<open>The desk\<close>

inductive desk_step :: "desk \<Rightarrow> desk \<Rightarrow> bool" where
  warehouse: "warehouse_step (k_core k) d' \<Longrightarrow> desk_step k (k\<lparr>k_core := d'\<rparr>)"
| create: "row_order_ok ord \<Longrightarrow> create_for_order ord now oid w z k = Inr (out, k') \<Longrightarrow> desk_step k k'"
| receive: "row_order_ok ord \<Longrightarrow> record_receive ord n i q k = Inr (out, k') \<Longrightarrow> desk_step k k'"
| commit: "row_order_ok ord \<Longrightarrow> commit_return_task ord now today n tr occ k = Inr (out, k') \<Longrightarrow> desk_step k k'"

lemma create_for_order_core: "create_for_order ord now oid w z k = Inr (out, k') \<Longrightarrow> k_core k' = k_core k"
  by (erule create_for_order_cases) simp_all

lemma desk_step_sound:
  assumes "desk_step k k'" and "desk_inv k" and "sound_core (k_core k)"
  shows "desk_inv k' \<and> sound_core (k_core k') \<and> grows (k_core k) (k_core k')"
  using assms(1)
proof cases
  case (warehouse d')
  from warehouse_step_sound [OF warehouse(2)] assms(3) have "sound_core d'" "grows (k_core k) d'"
    by (auto simp: sound_core_def sound_step_def books_def grows_def)
  with desk_inv_core [OF assms(2)] warehouse(1) show ?thesis by simp
next
  case (create ord now oid w z out)
  with create_for_order_inv [OF create(2) assms(2)] create_for_order_core [OF create(2)] assms(3) show ?thesis
    by (simp add: growth.evo_refl)
next
  case (receive ord n i q out)
  with record_receive_inv [OF receive(2,1) assms(2)] assms(3) show ?thesis by (simp add: growth.evo_refl)
next
  case (commit ord now today n tr occ out)
  with commit_return_task_inv [OF commit(2,1) assms(2,3)] show ?thesis by blast
qed

lemma desk_run:
  "desk_step\<^sup>*\<^sup>* k k' \<Longrightarrow> desk_inv k \<Longrightarrow> sound_core (k_core k) \<Longrightarrow>
   desk_inv k' \<and> sound_core (k_core k') \<and> grows (k_core k) (k_core k')"
proof (induction rule: rtranclp_induct)
  case (step e f)
  then have e: "desk_inv e" "sound_core (k_core e)" "grows (k_core k) (k_core e)" by auto
  from desk_step_sound [OF step.hyps(2) e(1,2)] e(3) show ?case by (blast intro: growth.evo_trans)
qed (simp add: growth.evo_refl)

section \<open>A commit that can be booked\<close>

text \<open>What a line needs: its lot with the code of its snapshot, and no receipt under its number yet.\<close>

definition return_ready :: "db \<Rightarrow> return_task \<Rightarrow> return_task_line \<Rightarrow> bool" where
  "return_ready d t ln \<longleftrightarrow> 0 < rtl_lot_id ln \<and> 0 < rtl_id ln \<and> int4 (rtl_id ln) \<and>
     (case find_lot d (rtl_lot_id ln) of None \<Rightarrow> False
      | Some l \<Rightarrow> lot_warehouse_id l = rt_warehouse_id t \<and> lot_item_id l = rtl_item_id ln \<and>
        norm_lot_code_snapshot (Some (rtl_lot_code_snapshot ln)) = norm_lot_code_snapshot (lot_code l)) \<and>
     (\<forall>r \<in> set (t_ledger d). \<not> (lg_reason r = ''RECEIPT'' \<and> lg_ref r = rt_order_id t \<and> lg_ref_line r = rtl_id ln))"

lemma return_ready_iff: "return_ready d t ln \<longleftrightarrow> 0 < rtl_lot_id ln \<and> 0 < rtl_id ln \<and> int4 (rtl_id ln) \<and>
     (\<exists>l. find_lot d (rtl_lot_id ln) = Some l \<and> lot_warehouse_id l = rt_warehouse_id t \<and> lot_item_id l = rtl_item_id ln \<and>
        norm_lot_code_snapshot (Some (rtl_lot_code_snapshot ln)) = norm_lot_code_snapshot (lot_code l)) \<and>
     (\<forall>r \<in> set (t_ledger d). \<not> (lg_reason r = ''RECEIPT'' \<and> lg_ref r = rt_order_id t \<and> lg_ref_line r = rtl_id ln))"
  by (cases "find_lot d (rtl_lot_id ln)") (auto simp: return_ready_def)

definition return_slot :: "return_task \<Rightarrow> return_task_line \<Rightarrow> slot" where
  "return_slot t ln = (rt_warehouse_id t, rtl_item_id ln, rtl_lot_id ln)"

definition returned_to :: "return_task \<Rightarrow> return_task_line list \<Rightarrow> slot \<Rightarrow> int" where
  "returned_to t ls s = sum_where (\<lambda>l. return_slot t l = s) rtl_picked_qty ls"

definition return_booked :: "return_task \<Rightarrow> return_task_line \<Rightarrow> stock_ledger \<Rightarrow> bool" where
  "return_booked t ln r \<longleftrightarrow> ledger_slot r = return_slot t ln \<and> lg_delta r = rtl_picked_qty ln \<and>
     lg_reason r = ''RECEIPT'' \<and> lg_ref r = rt_order_id t \<and> lg_ref_line r = rtl_id ln"

lemma reason_val_RECEIPT [simp]: "reason_val (Inr RECEIPT) = ''RECEIPT''"
  by (simp add: reason_val_def)

lemma return_adjust_total:
  assumes inv: "book_inv d" "lots_inv d" and ready: "return_ready d t ln" and l: "find_lot d (rtl_lot_id ln) = Some l"
    and pos: "0 < rtl_picked_qty ln" and room: "slot_qty d (return_slot t ln) + rtl_picked_qty ln \<le> 2147483647"
  shows "\<exists>r d' row. adjust_lot now (return_request t ln l ts tr) d = Inr (Applied r, d') \<and> ar_lot_id r = rtl_lot_id ln \<and>
    ar_reason r = ''RECEIPT'' \<and> posts d [row] d' \<and> rest_of d' = rest_of d \<and> return_booked t ln row"
proof -
  let ?q = "return_request t ln l ts tr"
  let ?c = "\<lparr>cx_lot_id = rtl_lot_id ln, cx_ref_line = rtl_id ln, cx_ts = ts, cx_sub_reason = Some ''RETURN_RECEIPT'',
      cx_event_id = None, cx_production_date = None, cx_expiry_date = None\<rparr>"
  have at: "lot_at d (rt_warehouse_id t) (rtl_item_id ln) (rtl_lot_id ln)"
    using ready l by (auto simp: return_ready_iff lot_at_def)
  have "lot_item_id l \<in> it_id ` set (t_items d)" using lots_invD(6) [OF inv(2)] l find_SomeD by (fastforce simp: find_lot_def)
  then have "find_item (t_items d) (rtl_item_id ln) \<noteq> None"
    using ready l by (auto simp: return_ready_iff find_item_def find_None_iff_all image_iff)
  then obtain b where batch: "item_requires_batch d (rtl_item_id ln) = Inr b" by (auto simp: item_requires_batch_def)
  have id: "(if rtl_id ln = 0 then 1 else rtl_id ln) = rtl_id ln" "rtl_lot_id ln \<noteq> 0" using ready by (auto simp: return_ready_iff)
  have req: "aq_item_id ?q = rtl_item_id ln" "aq_warehouse_id ?q = rt_warehouse_id t" "aq_lot_id ?q = Some (rtl_lot_id ln)"
    "aq_delta ?q = rtl_picked_qty ln" "aq_reason ?q = Inr RECEIPT" "aq_ref ?q = rt_order_id t"
    "aq_ref_line ?q = Some (rtl_id ln)" "aq_lot_code ?q = None" "aq_occurred_at ?q = Some ts"
    "meta_str (aq_meta ?q) ''sub_reason'' = Inr (Some ''RETURN_RECEIPT'')" "meta_int (aq_meta ?q) ''event_id'' = Inr None"
    using id(1) by (simp_all add: return_request_def meta_str_def meta_int_def meta_get_def strip_or_none_def
        py_strip_def is_space_def Let_def)
  have fresh: "(''RECEIPT'', rt_order_id t, rtl_id ln, i, w, n) \<notin> ledger_key ` set (t_ledger d)" for i w n
    using ready by (auto simp: return_ready_iff ledger_key_def)
  have "adjust_prep now ?q d = Inr (Some ?c)"
    using pos id at batch assert_lot_belongs_to_Some [of d "rt_warehouse_id t" "rtl_item_id ln" "rtl_lot_id ln"] fresh
    by (simp add: adjust_prep_def adjust_check_def req Let_def norm_lot_code_def
        resolve_and_validate_dates_for_inbound_def idem_hit_by_lot_key_def adjust_key_def)
  then have run: "adjust_lot now ?q d = adjust_apply ?q ?c d" by (simp add: adjust_lot_def adjust_lot_impl_def)
  have slot: "adjust_slot ?q (cx_lot_id ?c) = return_slot t ln" by (simp add: adjust_slot_def return_slot_def req)
  have nonneg: "0 \<le> slot_qty d (return_slot t ln)" by (rule slot_qty_nonneg [OF inv(1)])
  have fits: "adjust_fits ?q ?c d"
    unfolding adjust_fits_def slot using pos room nonneg ready by (simp add: req int4_def return_ready_iff)
  have key: "(reason_val (aq_reason ?q), aq_ref ?q, cx_ref_line ?c, aq_item_id ?q, aq_warehouse_id ?q, cx_lot_id ?c)
      \<notin> ledger_key ` set (t_ledger d)" using fresh by (simp add: req)
  obtain out d' where ap: "adjust_apply ?q ?c d = Inr (out, d')"
    using adjust_apply_total [of d ?q ?c] at key fits pos nonneg slot by (auto simp: req)
  from adjust_apply_Inr [OF ap inv(1) key] obtain row r where
    p: "posts d [row] d'" "out = Applied r" "ar_lot_id r = rtl_lot_id ln"
      "row = adjust_row ?q ?c (slot_qty d (adjust_slot ?q (cx_lot_id ?c))) (t_next_id d STOCK_LEDGER)" by auto
  have "ar_reason r = ''RECEIPT''" using ap p(2) by (auto simp: adjust_apply_def Let_def res_simps req split: if_splits)
  moreover have "return_booked t ln row" using p(4) slot by (simp add: return_booked_def req)
  moreover have "rest_of d' = rest_of d" using adjust_lot_rest [of now ?q d out d'] run ap by simp
  ultimately show ?thesis using run ap p by auto
qed

text \<open>The effect a line hands to the gate is the row it wrote.\<close>

definition effect_of :: "return_task \<Rightarrow> return_task_line \<Rightarrow> effect" where
  "effect_of t ln = \<lparr>ef_warehouse_id = rt_warehouse_id t, ef_item_id = rtl_item_id ln, ef_lot_id = Some (rtl_lot_id ln),
     ef_batch_code = None, ef_qty = rtl_picked_qty ln, ef_ref_line = rtl_id ln, ef_reason = Some ''RECEIPT''\<rparr>"

lemma commit_return_line_total:
  assumes inv: "book_inv d" "lots_inv d" and ready: "0 < rtl_picked_qty ln \<longrightarrow> return_ready d t ln"
    and room: "slot_qty d (return_slot t ln) + rtl_picked_qty ln \<le> 2147483647" and nonneg: "0 \<le> rtl_picked_qty ln"
  shows "\<exists>d' rows. commit_return_line now ts t tr ln d =
      Inr ((mark_returned ln, if rtl_picked_qty ln = 0 then None else Some (effect_of t ln)), d') \<and>
    posts d rows d' \<and> rest_of d' = rest_of d \<and>
    (if rtl_picked_qty ln = 0 then rows = [] else \<exists>row. rows = [row] \<and> return_booked t ln row)"
proof (cases "rtl_picked_qty ln = 0")
  case True
  then show ?thesis by (auto simp: commit_return_line_def mark_returned_def intro: posting.traced_nil)
next
  case False
  then have pos: "0 < rtl_picked_qty ln" and rd: "return_ready d t ln" using nonneg ready by auto
  then obtain l where l: "find_lot d (rtl_lot_id ln) = Some l" "lot_warehouse_id l = rt_warehouse_id t"
    "lot_item_id l = rtl_item_id ln"
    "norm_lot_code_snapshot (Some (rtl_lot_code_snapshot ln)) = norm_lot_code_snapshot (lot_code l)"
    and ids: "0 < rtl_lot_id ln" "0 < rtl_id ln" by (auto simp: return_ready_iff)
  from return_adjust_total [OF inv rd l(1) pos room] obtain r d' row where
    a: "adjust_lot now (return_request t ln l ts tr) d = Inr (Applied r, d')" "ar_lot_id r = rtl_lot_id ln"
    "ar_reason r = ''RECEIPT''" "posts d [row] d'" "rest_of d' = rest_of d" "return_booked t ln row" by blast
  have "commit_return_line now ts t tr ln d = Inr ((mark_returned ln, Some (effect_of t ln)), d')"
    using pos ids l a(1-3)
    by (simp add: commit_return_line_def load_lot_snapshot_by_id_def mark_returned_def return_effect_def effect_of_def)
  with False a(4-6) show ?thesis by auto
qed

lemma return_ready_keeps:
  assumes "return_ready d t ln" and "posts d rows d'" and "book_inv d"
    and "\<forall>r \<in> set rows. lg_ref_line r \<noteq> rtl_id ln"
  shows "return_ready d' t ln"
  using assms posts_ledger [OF assms(2,3)] posts_lots [OF assms(2)] by (auto simp: return_ready_iff find_lot_def)

lemma commit_return_lines_total:
  assumes "book_inv d" and "lots_inv d" and "\<forall>ln \<in> set ls. 0 \<le> rtl_picked_qty ln \<and> (0 < rtl_picked_qty ln \<longrightarrow> return_ready d t ln)"
    and "distinct (map rtl_id ls)" and "\<forall>s. slot_qty d s + returned_to t ls s \<le> 2147483647"
  shows "\<exists>d' rows. mapE (commit_return_line now ts t tr) ls d =
      Inr (map (\<lambda>ln. (mark_returned ln, if rtl_picked_qty ln = 0 then None else Some (effect_of t ln))) ls, d') \<and>
    posts d rows d' \<and> rest_of d' = rest_of d \<and>
    list_all2 (return_booked t) (filter (\<lambda>ln. rtl_picked_qty ln \<noteq> 0) ls) rows"
  using assms
proof (induction ls arbitrary: d)
  case Nil
  then show ?case by (auto intro!: exI [of _ "[]"] posting.traced_nil)
next
  case (Cons ln ls)
  have nn: "0 \<le> rtl_picked_qty ln" and rest0: "0 \<le> returned_to t ls s" for s
    using Cons.prems(3) by (auto simp: returned_to_def intro!: sum_where_nonneg)
  have "slot_qty d (return_slot t ln) + rtl_picked_qty ln \<le> 2147483647"
    using spec [OF Cons.prems(5), of "return_slot t ln"] rest0 [of "return_slot t ln"] by (simp add: returned_to_def)
  then obtain d1 rows where 1: "commit_return_line now ts t tr ln d =
      Inr ((mark_returned ln, if rtl_picked_qty ln = 0 then None else Some (effect_of t ln)), d1)"
    "posts d rows d1" "rest_of d1 = rest_of d"
    "if rtl_picked_qty ln = 0 then rows = [] else \<exists>row. rows = [row] \<and> return_booked t ln row"
    using commit_return_line_total [OF Cons.prems(1,2) _ _ nn] Cons.prems(3) by fastforce
  have lines: "\<forall>r \<in> set rows. lg_ref_line r = rtl_id ln" using 1(4) by (auto simp: return_booked_def split: if_splits)
  have room: "slot_qty d1 s + returned_to t ls s \<le> 2147483647" for s
  proof -
    have "ledger_sum rows s = (if return_slot t ln = s then rtl_picked_qty ln else 0)"
      using 1(4) by (auto simp: return_booked_def split: if_splits)
    with posts_qty [OF 1(2) Cons.prems(1), of s] spec [OF Cons.prems(5), of s] show ?thesis
      by (simp add: returned_to_def)
  qed
  have ready: "0 \<le> rtl_picked_qty x \<and> (0 < rtl_picked_qty x \<longrightarrow> return_ready d1 t x)" if x: "x \<in> set ls" for x
  proof -
    have "rtl_id x \<noteq> rtl_id ln" using x Cons.prems(4) by (metis distinct.simps(2) image_eqI list.set_map list.simps(9))
    then have "\<forall>r \<in> set rows. lg_ref_line r \<noteq> rtl_id x" using lines by auto
    with x Cons.prems(3) return_ready_keeps [OF _ 1(2) Cons.prems(1)] show ?thesis by auto
  qed
  have "lots_inv d1" by (rule posts_lots_inv [OF 1(2) _ Cons.prems(2)]) (simp add: rest_ofD [OF 1(3)])
  from Cons.IH [OF posts_inv [OF 1(2) Cons.prems(1)] this] ready room Cons.prems(4) obtain d2 rows2 where
    2: "mapE (commit_return_line now ts t tr) ls d1 =
      Inr (map (\<lambda>ln. (mark_returned ln, if rtl_picked_qty ln = 0 then None else Some (effect_of t ln))) ls, d2)"
    "posts d1 rows2 d2" "rest_of d2 = rest_of d1" "list_all2 (return_booked t) (filter (\<lambda>ln. rtl_picked_qty ln \<noteq> 0) ls) rows2"
    by auto
  have "posts d (rows @ rows2) d2" by (rule posting.traced_app [OF 1(2) 2(2)])
  with 1 2 show ?case by (intro exI [of _ d2] exI [of _ "rows @ rows2"]) (auto split: if_splits)
qed

lemma effect_of_booked:
  assumes "book_inv d" and "r \<in> set (t_ledger d)" and "return_booked t ln r"
  shows "effect_booked d (rt_warehouse_id t) (rt_order_id t) (effect_of t ln) = Inr True"
proof -
  let ?p = "\<lambda>r. ledger_slot r = (rt_warehouse_id t, rtl_item_id ln, rtl_lot_id ln) \<and> lg_ref r = rt_order_id t \<and>
               lg_ref_line r = rtl_id ln \<and> (py_strip ''RECEIPT'' = [] \<or> lg_reason r = ''RECEIPT'')"
  have strip: "py_strip ''RECEIPT'' \<noteq> []" by code_simp
  have "?p r" using assms(3) by (simp add: return_booked_def return_slot_def)
  then have "find ?p (t_ledger d) \<noteq> None" using assms(2) unfolding find_None_iff_all by blast
  then obtain r' where f: "find ?p (t_ledger d) = Some r'" by blast
  note r' = find_SomeD [OF f]
  have "ledger_key r' = ledger_key r"
    using r' assms(3) strip by (auto simp: ledger_key_def return_booked_def return_slot_def ledger_slot_def)
  then have "r' = r" using book_invD(4) [OF assms(1)] r' assms(2) by (auto simp: distinct_map dest: inj_onD)
  then show ?thesis using f assms(3) by (simp add: effect_booked_def effect_of_def return_booked_def)
qed

lemma line_effects_of:
  "line_effects (map (\<lambda>ln. (mark_returned ln, if rtl_picked_qty ln = 0 then None else Some (effect_of t ln))) ls) =
   map (effect_of t) (filter (\<lambda>ln. rtl_picked_qty ln \<noteq> 0) ls)"
  by (induction ls) (auto simp: line_effects_def)

lemma booked_sum:
  "list_all2 (return_booked t) ls rows \<Longrightarrow> ledger_sum rows s = sum_where (\<lambda>l. return_slot t l = s) rtl_picked_qty ls"
  by (induction rule: list_all2_induct) (auto simp: return_booked_def)

lemma returned_to_picked: "returned_to t ls s = returned_to t (filter (\<lambda>ln. rtl_picked_qty ln \<noteq> 0) ls) s"
  by (induction ls) (auto simp: returned_to_def)

text \<open>A commit whose lines are ready, dated today, goes through.\<close>

lemma commit_return_task_total:
  assumes core: "warehouse_inv (k_core k)" and g: "get_with_lines ord k n = Inr (t, ls)"
    and st: "rt_status t \<noteq> ''COMMITTED''"
    and ready: "\<forall>ln \<in> set ls. 0 \<le> rtl_picked_qty ln \<and> (0 < rtl_picked_qty ln \<longrightarrow> return_ready (k_core k) t ln)"
    and ids: "distinct (map rtl_id ls)"
    and room: "\<forall>s. slot_qty (k_core k) s + returned_to t ls s \<le> 2147483647" and day: "day_of now = today"
  shows "\<exists>u us k'. commit_return_task ord now today n tr None k = Inr ((u, us), k') \<and> rt_status u = ''COMMITTED'' \<and>
    get_with_lines ord k' n = Inr (u, us) \<and> (\<forall>s. slot_qty (k_core k') s = slot_qty (k_core k) s + returned_to t ls s)"
proof -
  note w = warehouse_invD [OF core]
  from commit_return_lines_total [OF w(2,1) ready ids room] obtain d' rows where
    run: "mapE (commit_return_line now now t tr) ls (k_core k) =
      Inr (map (\<lambda>ln. (mark_returned ln, if rtl_picked_qty ln = 0 then None else Some (effect_of t ln))) ls, d')"
      (is "_ = Inr (?outs, _)") and
    posts: "posts (k_core k) rows d'" and
    rows: "list_all2 (return_booked t) (filter (\<lambda>ln. rtl_picked_qty ln \<noteq> 0) ls) rows" by blast
  have book: "book_inv d'" by (rule posts_inv [OF posts w(2)])
  have led: "t_ledger d' = t_ledger (k_core k) @ rows" by (rule posts_ledger [OF posts w(2)])
  have "effect_booked d' (rt_warehouse_id t) (rt_order_id t) (effect_of t ln) = Inr True"
    if "ln \<in> set ls" "rtl_picked_qty ln \<noteq> 0" for ln
  proof -
    from list_all2_in [OF rows, of ln] that obtain row where "row \<in> set rows" "return_booked t ln row" by auto
    then show ?thesis by (intro effect_of_booked [OF book]) (simp_all add: led)
  qed
  then have "\<exists>snaps. enforce_three_books today (rt_order_id t) (line_effects ?outs) now d' (k_snapshots k) = Inr snaps"
    unfolding gate_passes [OF book] line_effects_of using day by (auto simp: effect_of_def)
  then obtain snaps where gate: "enforce_three_books today (rt_order_id t) (line_effects ?outs) now d' (k_snapshots k) = Inr snaps" ..
  let ?f = "\<lambda>u. u\<lparr>rt_status := ''COMMITTED'', rt_updated_at := (if line_effects ?outs = [] then now else now)\<rparr>"
  let ?k = "k\<lparr>k_core := d', k_lines := put_lines (map fst ?outs) (k_lines k),
      k_tasks := update_where (\<lambda>u. rt_id u = n) ?f (k_tasks k), k_snapshots := snaps\<rparr>"
  have found: "find (\<lambda>u. rt_id u = n) (k_tasks k) = Some t"
    using g by (auto simp: get_with_lines_def task_with_lines_def split: option.splits)
  have "find (\<lambda>u. rt_id u = n) (update_where (\<lambda>u. rt_id u = n) ?f (k_tasks k)) = Some (?f t)"
    using find_SomeD [OF found] by (subst find_update_where_same) (simp_all add: found)
  then obtain us where out: "get_with_lines ord ?k n = Inr (?f t, us)"
    by (simp add: get_with_lines_def task_with_lines_def)
  have "commit_return_task ord now today n tr None k = Inr ((?f t, us), ?k)"
    using g st run gate out by (simp add: commit_return_task_def Let_def)
  moreover have "slot_qty d' s = slot_qty (k_core k) s + returned_to t ls s" for s
    using posts_qty [OF posts w(2), of s] booked_sum [OF rows] returned_to_picked [of t ls s]
    by (simp add: returned_to_def)
  ultimately show ?thesis using out by (intro exI [of _ "?f t"] exI [of _ us] exI [of _ ?k]) simp
qed

section \<open>A sample desk\<close>

definition order_ref :: string where
  "order_ref = ''ORD:PDD:S1:E1''"

definition shipped_db :: db where
  "shipped_db = (case submit_order_outbound_event 9 1 7 None ''T-1''
       \<lparr>os_warehouse_id = 7, os_remark = None, os_lines = [sample_ship_line 2 1 12 1]\<rparr> None ship_db of
     Inr (_, d) \<Rightarrow> d | Inl _ \<Rightarrow> ship_db)"

definition sample_desk :: desk where
  "sample_desk = \<lparr>k_core = shipped_db, k_snapshots = [], k_tasks = [], k_lines = [], k_next_id = (\<lambda>_. 1)\<rparr>"

definition opened_desk :: "desk \<Rightarrow> desk" where
  "opened_desk k = (case create_for_order (\<lambda>ls. ls) 10 order_ref None False k of Inr (_, k') \<Rightarrow> k' | Inl _ \<Rightarrow> k)"

definition picked_desk :: "int \<Rightarrow> int \<Rightarrow> desk \<Rightarrow> desk" where
  "picked_desk n q k = (case record_receive (\<lambda>ls. ls) n 1 q k of Inr (_, k') \<Rightarrow> k' | Inl _ \<Rightarrow> k)"

definition returned_desk :: "int \<Rightarrow> desk \<Rightarrow> desk" where
  "returned_desk n k = (case commit_return_task (\<lambda>ls. ls) 11 0 n None None k of Inr (_, k') \<Rightarrow> k' | Inl _ \<Rightarrow> k)"

definition once_desk :: desk where
  "once_desk = picked_desk 1 12 (opened_desk sample_desk)"

definition twice_desk :: desk where
  "twice_desk = returned_desk 2 (picked_desk 2 12 (opened_desk (returned_desk 1 once_desk)))"

lemma sample_desk_inv: "warehouse_inv (k_core sample_desk)" "count_inv (k_core sample_desk)" "desk_inv sample_desk"
proof -
  have "\<exists>x. submit_order_outbound_event 9 1 7 None ''T-1''
       \<lparr>os_warehouse_id = 7, os_remark = None, os_lines = [sample_ship_line 2 1 12 1]\<rparr> None ship_db = Inr (x, shipped_db)"
    unfolding shipped_db_def by (rule stage_run) code_simp
  then obtain x where "warehouse_step ship_db shipped_db" using warehouse_step.ship by blast
  from warehouse_step_sound [OF this ship_db_inv ship_db_count_inv]
  show "warehouse_inv (k_core sample_desk)" "count_inv (k_core sample_desk)"
    by (simp_all add: sound_step_def sample_desk_def)
  show "desk_inv sample_desk" by (simp add: desk_inv_def sample_desk_def)
qed

lemma once_desk_runs:
  "\<exists>x y. create_for_order (\<lambda>ls. ls) 10 order_ref None False sample_desk = Inr (x, opened_desk sample_desk) \<and>
     record_receive (\<lambda>ls. ls) 1 1 12 (opened_desk sample_desk) = Inr (y, once_desk)"
proof -
  have "\<exists>x. create_for_order (\<lambda>ls. ls) 10 order_ref None False sample_desk = Inr (x, opened_desk sample_desk)"
    unfolding opened_desk_def by (rule stage_run) code_simp
  moreover have "\<exists>y. record_receive (\<lambda>ls. ls) 1 1 12 (opened_desk sample_desk) = Inr (y, once_desk)"
    unfolding once_desk_def picked_desk_def by (rule stage_run) code_simp
  ultimately show ?thesis by blast
qed

lemma once_desk_steps: "desk_step\<^sup>*\<^sup>* sample_desk once_desk"
  using once_desk_runs create [OF row_order_id] receive [OF row_order_id] by (meson converse_rtranclp_into_rtranclp rtranclp.rtrancl_refl)

lemma once_desk_inv: "desk_inv once_desk" "warehouse_inv (k_core once_desk)" "count_inv (k_core once_desk)"
  using desk_run [OF once_desk_steps] sample_desk_inv by (simp_all add: sound_core_def)

section \<open>Properties\<close>

text \<open>
  C24. What return tasks can hold: in every state the desk reaches, whatever the warehouse does in
  between and in whatever order the database returns the lines of a task to each call, a line has
  collected between nothing and what the order took out of its lot, a committed line is booked with
  exactly what was collected and an open one with nothing, and an order has at most one task that
  is not committed.
\<close>

theorem returns_within_shipment:
  assumes "desk_step\<^sup>*\<^sup>* k k'" and "desk_inv k" and "warehouse_inv (k_core k)" and "count_inv (k_core k)"
  shows "(\<forall>t \<in> set (k_tasks k'). \<forall>l \<in> set (k_lines k'). rtl_task_id l = rt_id t \<longrightarrow>
       0 \<le> rtl_picked_qty l \<and>
       rtl_picked_qty l \<le> shipped_total (k_core k') (rt_order_id t) (return_slot t l) \<and>
       rtl_committed_qty l = Some (if rt_status t = ''COMMITTED'' then rtl_picked_qty l else 0)) \<and>
     distinct (map rt_order_id (filter (\<lambda>t. rt_status t \<noteq> ''COMMITTED'') (k_tasks k')))"
proof -
  have inv: "desk_inv k'" using desk_run [OF assms(1,2)] assms(3,4) by (simp add: sound_core_def)
  have "0 \<le> rtl_picked_qty l \<and>
       rtl_picked_qty l \<le> shipped_total (k_core k') (rt_order_id t) (return_slot t l) \<and>
       rtl_committed_qty l = Some (if rt_status t = ''COMMITTED'' then rtl_picked_qty l else 0)"
    if "t \<in> set (k_tasks k')" "l \<in> set (k_lines k')" "rtl_task_id l = rt_id t" for t l
    using line_of_task [OF inv that] by (auto simp: return_line_ok_def return_slot_def)
  then show ?thesis using desk_invD(6) [OF inv] by blast
qed

lemma returns_within_shipment_witness:
  "desk_step\<^sup>*\<^sup>* sample_desk once_desk \<and> (\<exists>t l. k_tasks once_desk = [t] \<and> k_lines once_desk = [l] \<and>
     rtl_picked_qty l = 12 \<and> 12 \<le> shipped_total (k_core once_desk) order_ref (7, 1, 1) \<and> rtl_committed_qty l = Some 0)"
proof -
  have "map rt_id (k_tasks once_desk) = [1] \<and> map rt_order_id (k_tasks once_desk) = [order_ref] \<and>
      map rt_warehouse_id (k_tasks once_desk) = [7] \<and> map rt_status (k_tasks once_desk) = [''OPEN''] \<and>
      map (\<lambda>l. (rtl_task_id l, rtl_item_id l, rtl_lot_id l, rtl_picked_qty l)) (k_lines once_desk) = [(1, 1, 1, 12)]"
    by code_simp
  then obtain t l where "k_tasks once_desk = [t]" "k_lines once_desk = [l]" "rt_id t = rtl_task_id l"
    "rt_order_id t = order_ref" "return_slot t l = (7, 1, 1)" "rtl_picked_qty l = 12" "rt_status t \<noteq> ''COMMITTED''"
    by (auto simp: map_eq_Cons_conv return_slot_def)
  with returns_within_shipment [OF once_desk_steps sample_desk_inv(3,1,2)] once_desk_steps show ?thesis by auto
qed

text \<open>
  C25. A return task can always be closed: if every line that collected something still has its lot
  under the code it was shown with, no receipt is booked yet under the order and the line, the
  balances stay in their columns, and the clock does not cross midnight, the commit of an open task
  returns. It raises the balance of every slot by exactly what its lines collected, closes the task
  with those quantities, and a second commit answers the same task and lines (in the same order when
  the database returns the rows as before) and changes nothing.
\<close>

theorem return_commit_books:
  assumes "row_order_ok ord" and "row_order_ok ord2" and "desk_inv k" and "warehouse_inv (k_core k)" and "count_inv (k_core k)"
    and "get_with_lines ord k n = Inr (t, ls)" and "rt_status t \<noteq> ''COMMITTED''"
    and "\<forall>l \<in> set ls. 0 < rtl_picked_qty l \<longrightarrow> return_ready (k_core k) t l"
    and "\<forall>s. slot_qty (k_core k) s + returned_to t ls s \<le> 2147483647" and "day_of now = today"
  shows "\<exists>u us k'. commit_return_task ord now today n tr None k = Inr ((u, us), k') \<and>
    (\<forall>s. slot_qty (k_core k') s = slot_qty (k_core k) s + returned_to t ls s) \<and>
    rt_status u = ''COMMITTED'' \<and> (\<forall>l \<in> set us. rtl_committed_qty l = Some (rtl_picked_qty l)) \<and>
    commit_return_task ord now2 today2 n tr2 occ k' = Inr ((u, us), k') \<and>
    (\<exists>us2. mset us2 = mset us \<and> commit_return_task ord2 now2 today2 n tr2 occ k' = Inr ((u, us2), k'))"
proof -
  note G = get_with_lines_Inr [OF assms(6)]
  have picked: "\<forall>l \<in> set ls. 0 \<le> rtl_picked_qty l \<and> (0 < rtl_picked_qty l \<longrightarrow> return_ready (k_core k) t l)"
    using line_of_task [OF assms(3) G(1)] assms(8) G(2) G(4) [OF assms(1)] by (auto simp: return_line_ok_def)
  have ids: "distinct (map rtl_id ls)" 
    using distinct_map_filter [OF desk_invD(3) [OF assms(3)]] assms(1)
      mset_eq_imp_distinct_iff [of "map rtl_id ls" "map rtl_id (filter (\<lambda>l. rtl_task_id l = n) (k_lines k))"]
    by (simp add: G(3) row_order_ok_def)
  from commit_return_task_total [OF assms(4,6,7) picked ids assms(9,10)] obtain u us k' where
    *: "commit_return_task ord now today n tr None k = Inr ((u, us), k')" "rt_status u = ''COMMITTED''"
      "get_with_lines ord k' n = Inr (u, us)" "\<forall>s. slot_qty (k_core k') s = slot_qty (k_core k) s + returned_to t ls s" by blast
  have inv: "desk_inv k'" using commit_return_task_inv [OF *(1) assms(1,3)] assms(4,5) by (simp add: sound_core_def)
  note G' = get_with_lines_Inr [OF *(3)]
  have "\<forall>l \<in> set us. rtl_committed_qty l = Some (rtl_picked_qty l)"
    using line_of_task [OF inv G'(1)] *(2) G'(2) G'(4) [OF assms(1)] by (auto simp: return_line_ok_def)
  moreover have "commit_return_task ord now2 today2 n tr2 occ k' = Inr ((u, us), k')"
    using *(2,3) by (simp add: commit_return_task_def)
  moreover have "\<exists>us2. mset us2 = mset us \<and> get_with_lines ord2 k' n = Inr (u, us2)"
    using *(3) assms(1,2) by (auto simp: get_with_lines_def task_with_lines_def row_order_ok_def split: option.splits)
  then have "\<exists>us2. mset us2 = mset us \<and> commit_return_task ord2 now2 today2 n tr2 occ k' = Inr ((u, us2), k')"
    using *(2) by (auto simp: commit_return_task_def)
  ultimately show ?thesis using * by blast
qed

lemma return_commit_books_witness:
  "\<exists>u us k'. commit_return_task (\<lambda>ls. ls) 11 0 1 None None once_desk = Inr ((u, us), k') \<and> rt_status u = ''COMMITTED'' \<and>
     slot_qty (k_core once_desk) (7, 1, 1) = 18 \<and> slot_qty (k_core k') (7, 1, 1) = 30"
proof -
  have "returns (get_with_lines (\<lambda>ls. ls) once_desk 1) (\<lambda>(t, ls). rt_status t \<noteq> ''COMMITTED'' \<and>
      list_all (\<lambda>l. return_ready (k_core once_desk) t l \<and> rtl_picked_qty l = 12 \<and> return_slot t l = (7, 1, 1)) ls \<and> length ls = 1) \<and>
    map (\<lambda>r. (stock_slot r, sl_qty r)) (t_stocks (k_core once_desk)) = [((7, 1, 1), 18), ((7, 2, 2), 8)]"
    by code_simp
  then obtain t l where g: "get_with_lines (\<lambda>ls. ls) once_desk 1 = Inr (t, [l])" "rt_status t \<noteq> ''COMMITTED''"
    "return_ready (k_core once_desk) t l" "rtl_picked_qty l = 12" "return_slot t l = (7, 1, 1)"
    and st: "map (\<lambda>r. (stock_slot r, sl_qty r)) (t_stocks (k_core once_desk)) = [((7, 1, 1), 18), ((7, 2, 2), 8)]"
    by (auto simp: returns_pair length_Suc_conv)
  have ready: "\<forall>x \<in> set [l]. 0 < rtl_picked_qty x \<longrightarrow> return_ready (k_core once_desk) t x" using g by simp
  have qty: "slot_qty (k_core once_desk) s = (if s = (7, 1, 1) then 18 else if s = (7, 2, 2) then 8 else 0)" for s
    using st by (auto simp: slot_qty_def slot_row_def map_eq_Cons_conv)
  have room: "\<forall>s. slot_qty (k_core once_desk) s + returned_to t [l] s \<le> 2147483647"
    using g by (simp add: qty returned_to_def)
  have day: "day_of 11 = 0" by code_simp
  from return_commit_books [OF row_order_id row_order_id once_desk_inv g(1,2) ready room day, of None 0 0 None None] show ?thesis
    using g(4,5) qty by (auto simp: returned_to_def)
qed

text \<open>
  Two lines of one item, taken from two lots: the order of the rows alone decides which line a scan
  is credited to, and a scan of more than that line expects is refused although both together
  expect it.
\<close>

definition two_lots_desk :: desk where
  "two_lots_desk = sample_desk\<lparr>
     k_tasks := [\<lparr>rt_id = 1, rt_order_id = order_ref, rt_warehouse_id = 7, rt_status = ''OPEN'', rt_remark = None,
       rt_created_at = 10, rt_updated_at = 10\<rparr>],
     k_lines := map (\<lambda>(n, lid, q). \<lparr>rtl_id = n, rtl_task_id = 1, rtl_order_line_id = None, rtl_item_id = 1,
       rtl_lot_id = lid, rtl_lot_code_snapshot = ''L'', rtl_expected_qty = Some q, rtl_picked_qty = 0,
       rtl_committed_qty = Some 0, rtl_status = ''OPEN'', rtl_remark = None\<rparr>) [(1, 1, 6), (2, 3, 6)]\<rparr>"

definition picked_by_lot :: "row_order \<Rightarrow> int \<Rightarrow> (int \<times> int) list result" where
  "picked_by_lot ord q = bindE (record_receive ord 1 1 q two_lots_desk)
     (\<lambda>(_, k). Inr (map (\<lambda>l. (rtl_lot_id l, rtl_picked_qty l)) (k_lines k)))"

lemma row_order_decides:
  "row_order_ok rev \<and> picked_by_lot (\<lambda>ls. ls) 5 = Inr [(1, 5), (3, 0)] \<and> picked_by_lot rev 5 = Inr [(1, 0), (3, 5)] \<and>
   picked_by_lot rev 12 = Inl (ValueError ''picked_qty > expected_qty'')"
proof -
  have "row_order_ok rev" by (simp add: row_order_ok_def)
  moreover have "picked_by_lot (\<lambda>ls. ls) 5 = Inr [(1, 5), (3, 0)]" by code_simp
  moreover have "picked_by_lot rev 5 = Inr [(1, 0), (3, 5)]" by code_simp
  moreover have "picked_by_lot rev 12 = Inl (ValueError ''picked_qty > expected_qty'')" by code_simp
  ultimately show ?thesis by simp
qed

text \<open>
  The summary a task is made from does not know earlier returns, so the same goods come back
  twice: twelve pieces left, twenty-four are booked in.
\<close>

lemma returned_twice:
  "slot_qty ship_db (7, 1, 1) = 30 \<and> slot_qty (k_core sample_desk) (7, 1, 1) = 18 \<and>
   slot_qty (k_core twice_desk) (7, 1, 1) = 42 \<and> map rt_status (k_tasks twice_desk) = [''COMMITTED'', ''COMMITTED'']"
  by code_simp

text \<open>A count freezes the warehouse, and the return is booked all the same.\<close>

definition frozen_desk :: desk where
  "frozen_desk = once_desk\<lparr>k_core := (case bindE (count_create_doc 5 ''CT-1'' None sample_count_create (k_core once_desk))
       (\<lambda>(_, d). freeze_doc 3 d) of Inr (_, d) \<Rightarrow> d | Inl _ \<Rightarrow> k_core once_desk)\<rparr>"

lemma frozen_warehouse_takes_returns:
  "ensure_warehouse_not_frozen (k_core frozen_desk) 7 \<noteq> Inr () \<and>
   slot_qty (k_core frozen_desk) (7, 1, 1) = 18 \<and> slot_qty (k_core (returned_desk 1 frozen_desk)) (7, 1, 1) = 30"
  by code_simp

end
