(* ===== verification/Receiving.thy ===== *)
theory Receiving
  imports Inbound Outbound
begin

text \<open>
  Receiving by task, \<open>app/wms/inventory_adjustment/return_inbound/\<close>: an inbound receipt announces
  what is to arrive (\<open>repos/inbound_receipt_write_repo.py\<close>), and operations against the released
  receipt record what did arrive, book it and complete the receipt
  (\<open>repos/inbound_operation_write_repo.py\<close>). The tables of this module and the master data only it
  reads stand beside the warehouse database in the record \<open>site\<close>. Receipt numbers, event numbers,
  trace ids and the clock are arguments. Receipts made from return orders are not modelled, nor
  the list and progress reads.
\<close>

section \<open>Tables\<close>

datatype receiving_table =
    INBOUND_RECEIPTS | INBOUND_RECEIPT_LINES | WMS_INBOUND_OPERATIONS | WMS_INBOUND_OPERATION_LINES

record inbound_receipt =
  rh_id :: int
  rh_receipt_no :: string
  rh_source_type :: string
  rh_source_doc_id :: "int option"
  rh_source_doc_no_snapshot :: "string option"
  rh_warehouse_id :: int
  rh_warehouse_name_snapshot :: "string option"
  rh_supplier_id :: "int option"
  rh_counterparty_name_snapshot :: "string option"
  rh_status :: string
  rh_remark :: "string option"
  rh_created_by :: "int option"
  rh_released_at :: "int option"

definition receipt_source_types :: "string list" where
  "receipt_source_types = [''PURCHASE_ORDER'', ''MANUAL'', ''RETURN_ORDER'']"

definition receipt_statuses :: "string list" where
  "receipt_statuses = [''DRAFT'', ''RELEASED'', ''COMPLETED'', ''VOIDED'']"

definition receipt_checks :: "inbound_receipt \<Rightarrow> bool" where
  "receipt_checks h \<longleftrightarrow> rh_source_type h \<in> set receipt_source_types \<and> rh_status h \<in> set receipt_statuses"

record inbound_receipt_line =
  rn_id :: int
  rn_receipt_id :: int
  rn_line_no :: int
  rn_source_line_id :: "int option"
  rn_item_id :: int
  rn_item_uom_id :: int
  rn_planned_qty :: int
  rn_item_name_snapshot :: "string option"
  rn_item_spec_snapshot :: "string option"
  rn_uom_name_snapshot :: "string option"
  rn_ratio_to_base_snapshot :: int
  rn_remark :: "string option"

definition receipt_line_checks :: "inbound_receipt_line \<Rightarrow> bool" where
  "receipt_line_checks l \<longleftrightarrow> 0 < rn_planned_qty l \<and> 0 < rn_ratio_to_base_snapshot l"

record inbound_operation =
  op_id :: int
  op_receipt_no_snapshot :: string
  op_warehouse_id :: int
  op_warehouse_name_snapshot :: "string option"
  op_supplier_id :: "int option"
  op_supplier_name_snapshot :: "string option"
  op_operator_id :: "int option"
  op_operator_name_snapshot :: "string option"
  op_operated_at :: int
  op_remark :: "string option"

record inbound_operation_line =
  oq_id :: int
  oq_operation_id :: int
  oq_receipt_line_no_snapshot :: int
  oq_item_id :: int
  oq_item_name_snapshot :: "string option"
  oq_item_spec_snapshot :: "string option"
  oq_actual_item_uom_id :: int
  oq_actual_uom_name_snapshot :: "string option"
  oq_actual_ratio_to_base_snapshot :: int
  oq_actual_qty_input :: int
  oq_qty_base :: int
  oq_batch_no :: "string option"
  oq_production_date :: "date option"
  oq_expiry_date :: "date option"
  oq_lot_id :: "int option"
  oq_remark :: "string option"

definition operation_line_checks :: "inbound_operation_line \<Rightarrow> bool" where
  "operation_line_checks l \<longleftrightarrow>
     (case (oq_production_date l, oq_expiry_date l) of (Some p, Some e) \<Rightarrow> p \<le> e | _ \<Rightarrow> True) \<and>
     0 < oq_actual_ratio_to_base_snapshot l \<and> 0 < oq_actual_qty_input l \<and> 0 < oq_qty_base l \<and>
     oq_qty_base l = oq_actual_qty_input l * oq_actual_ratio_to_base_snapshot l"

record supplier =
  su_id :: int
  su_name :: string
  su_active :: bool

record site =
  s_core :: db
  s_warehouses :: "(int \<times> string) list"
  s_suppliers :: "supplier list"
  s_receipts :: "inbound_receipt list"
  s_receipt_lines :: "inbound_receipt_line list"
  s_operations :: "inbound_operation list"
  s_operation_lines :: "inbound_operation_line list"
  s_next_id :: "receiving_table \<Rightarrow> int"

definition site_next_id :: "receiving_table \<Rightarrow> site \<Rightarrow> int \<times> site" where
  "site_next_id t s = (s_next_id s t, s\<lparr>s_next_id := (s_next_id s)(t := s_next_id s t + 1)\<rparr>)"

type_synonym 'a stx = "site \<Rightarrow> ('a \<times> site) result"

text \<open>A statement on the tables of the warehouse database.\<close>

definition on_core :: "'a tx \<Rightarrow> 'a stx" where
  "on_core f s = bindE (f (s_core s)) (\<lambda>(x, d). Inr (x, s\<lparr>s_core := d\<rparr>))"

section \<open>Contracts\<close>

record manual_receipt_line_in =
  mrl_item_id :: int
  mrl_item_uom_id :: int
  mrl_planned_qty :: int
  mrl_remark :: "string option"

record manual_receipt_in =
  mri_warehouse_id :: int
  mri_supplier_id :: "int option"
  mri_remark :: "string option"
  mri_lines :: "manual_receipt_line_in list"

definition manual_receipt_in_valid :: "manual_receipt_in \<Rightarrow> bool" where
  "manual_receipt_in_valid p \<longleftrightarrow> 1 \<le> mri_warehouse_id p \<and> ge1 (mri_supplier_id p) \<and> mri_lines p \<noteq> [] \<and>
     list_all (\<lambda>l. 1 \<le> mrl_item_id l \<and> 1 \<le> mrl_item_uom_id l \<and> 1 \<le> mrl_planned_qty l) (mri_lines p)"

record purchase_receipt_in =
  pri_source_doc_id :: int
  pri_warehouse_id :: int
  pri_remark :: "string option"

definition purchase_receipt_in_valid :: "purchase_receipt_in \<Rightarrow> bool" where
  "purchase_receipt_in_valid p \<longleftrightarrow> 1 \<le> pri_source_doc_id p \<and> 1 \<le> pri_warehouse_id p"

record operation_entry_in =
  oe_qty_inbound :: int
  oe_barcode_input :: "string option"
  oe_actual_item_uom_id :: "int option"
  oe_batch_no :: "string option"
  oe_production_date :: "date option"
  oe_expiry_date :: "date option"
  oe_remark :: "string option"

record operation_line_in =
  oi_receipt_line_no :: int
  oi_entries :: "operation_entry_in list"

record operation_submit_in =
  os_receipt_no :: string
  os_op_remark :: "string option"
  os_op_lines :: "operation_line_in list"

definition operation_entry_valid :: "operation_entry_in \<Rightarrow> bool" where
  "operation_entry_valid e \<longleftrightarrow> 1 \<le> oe_qty_inbound e \<and> ge1 (oe_actual_item_uom_id e) \<and>
     (case (oe_production_date e, oe_expiry_date e) of (Some p, Some x) \<Rightarrow> p \<le> x | _ \<Rightarrow> True)"

definition operation_submit_valid :: "operation_submit_in \<Rightarrow> bool" where
  "operation_submit_valid p \<longleftrightarrow> os_receipt_no p \<noteq> [] \<and> os_op_lines p \<noteq> [] \<and>
     list_all (\<lambda>l. 1 \<le> oi_receipt_line_no l \<and> oi_entries l \<noteq> [] \<and>
       list_all operation_entry_valid (oi_entries l)) (os_op_lines p) \<and>
     distinct (map oi_receipt_line_no (os_op_lines p))"

section \<open>inbound\_receipt\_write\_repo.py\<close>

definition insert_receipt :: "inbound_receipt \<Rightarrow> int stx" where
  "insert_receipt h s =
     (let (nid, s1) = site_next_id INBOUND_RECEIPTS s in
      if \<not> receipt_checks h then Inl (IntegrityError ''inbound_receipts check constraint'')
      else if rh_receipt_no h \<in> rh_receipt_no ` set (s_receipts s)
      then Inl (IntegrityError ''uq_inbound_receipts_receipt_no'')
      else if rh_warehouse_id h \<notin> fst ` set (s_warehouses s) \<or>
        (case rh_supplier_id h of None \<Rightarrow> False | Some n \<Rightarrow> n \<notin> su_id ` set (s_suppliers s))
      then Inl (IntegrityError ''fk_inbound_receipts'')
      else Inr (nid, s1\<lparr>s_receipts := s_receipts s1 @ [h\<lparr>rh_id := nid\<rparr>]\<rparr>))"

definition insert_receipt_line :: "inbound_receipt_line \<Rightarrow> site \<Rightarrow> site result" where
  "insert_receipt_line l s =
     (let (nid, s1) = site_next_id INBOUND_RECEIPT_LINES s in
      if \<not> (int4 (rn_planned_qty l) \<and> int4 (rn_ratio_to_base_snapshot l) \<and> int4 (rn_line_no l))
      then Inl (DataError ''integer out of range'')
      else if \<not> receipt_line_checks l then Inl (IntegrityError ''inbound_receipt_lines check constraint'')
      else if (rn_receipt_id l, rn_line_no l) \<in> (\<lambda>x. (rn_receipt_id x, rn_line_no x)) ` set (s_receipt_lines s)
      then Inl (IntegrityError ''uq_inbound_receipt_lines_receipt_line'')
      else if rn_receipt_id l \<notin> rh_id ` set (s_receipts s) \<or>
        rn_item_id l \<notin> it_id ` set (t_items (s_core s)) \<or>
        rn_item_uom_id l \<notin> uo_id ` set (t_item_uoms (s_core s))
      then Inl (IntegrityError ''fk_inbound_receipt_lines'')
      else Inr (s1\<lparr>s_receipt_lines := s_receipt_lines s1 @ [l\<lparr>rn_id := nid\<rparr>]\<rparr>))"

text \<open>The header and its lines in line order.\<close>

definition get_inbound_receipt :: "site \<Rightarrow> int \<Rightarrow> (inbound_receipt \<times> inbound_receipt_line list) result" where
  "get_inbound_receipt s n =
     (case find (\<lambda>h. rh_id h = n) (s_receipts s) of
        None \<Rightarrow> Inl (HTTPException 404 ''inbound_receipt_not_found'')
      | Some h \<Rightarrow> Inr (h, sort_key rn_line_no (filter (\<lambda>l. rn_receipt_id l = n) (s_receipt_lines s))))"

definition load_warehouse_name_snapshot :: "site \<Rightarrow> int \<Rightarrow> string option" where
  "load_warehouse_name_snapshot s w = map_of (s_warehouses s) w"

definition load_supplier_name_snapshot :: "site \<Rightarrow> int \<Rightarrow> string result" where
  "load_supplier_name_snapshot s n =
     of_option (HTTPException 404 ''supplier_not_found'')
       (map_option su_name (find (\<lambda>x. su_id x = n) (s_suppliers s)))"

definition load_manual_line_snapshot :: "db \<Rightarrow> int \<Rightarrow> int \<Rightarrow> (item \<times> item_uom) result" where
  "load_manual_line_snapshot d i u =
     (case (find_item (t_items d) i, find_item_uom d i u) of
        (Some it, Some x) \<Rightarrow> Inr (it, x)
      | _ \<Rightarrow> if find_item (t_items d) i = None then Inl (HTTPException 404 ''item_not_found'')
             else if u \<notin> uo_id ` set (t_item_uoms d) then Inl (HTTPException 404 ''item_uom_not_found'')
             else Inl (HTTPException 409 ''item_uom_item_mismatch''))"

definition purchase_receipt_line :: "int \<Rightarrow> purchase_order_line \<Rightarrow> inbound_receipt_line" where
  "purchase_receipt_line receipt_id row =
     \<lparr>rn_id = 0, rn_receipt_id = receipt_id, rn_line_no = pl_line_no row,
      rn_source_line_id = Some (pl_id row), rn_item_id = pl_item_id row,
      rn_item_uom_id = pl_purchase_uom_id_snapshot row, rn_planned_qty = pl_qty_ordered_input row,
      rn_item_name_snapshot = pl_item_name row, rn_item_spec_snapshot = pl_spec_text row,
      rn_uom_name_snapshot = Some (pl_purchase_uom_name_snapshot row),
      rn_ratio_to_base_snapshot = pl_purchase_ratio_to_base_snapshot row, rn_remark = pl_remark row\<rparr>"

definition open_purchase_receipt :: "site \<Rightarrow> int \<Rightarrow> bool" where
  "open_purchase_receipt s po \<longleftrightarrow> (\<exists>h \<in> set (s_receipts s). rh_source_type h = ''PURCHASE_ORDER'' \<and>
     rh_source_doc_id h = Some po \<and> rh_status h \<noteq> ''VOIDED'')"

definition purchase_receipt_header ::
  "string \<Rightarrow> int option \<Rightarrow> purchase_receipt_in \<Rightarrow> purchase_order \<Rightarrow> string option \<Rightarrow> inbound_receipt" where
  "purchase_receipt_header receipt_no created_by p po wname =
     \<lparr>rh_id = 0, rh_receipt_no = receipt_no, rh_source_type = ''PURCHASE_ORDER'',
      rh_source_doc_id = Some (po_id po), rh_source_doc_no_snapshot = Some (po_no po),
      rh_warehouse_id = pri_warehouse_id p, rh_warehouse_name_snapshot = wname,
      rh_supplier_id = Some (po_supplier_id po),
      rh_counterparty_name_snapshot = Some (po_supplier_name po), rh_status = ''DRAFT'',
      rh_remark = (case pri_remark p of None \<Rightarrow> po_remark po | Some r \<Rightarrow> Some r),
      rh_created_by = created_by, rh_released_at = None\<rparr>"

definition create_inbound_receipt_from_purchase ::
  "string \<Rightarrow> purchase_receipt_in \<Rightarrow> int option \<Rightarrow> (inbound_receipt \<times> inbound_receipt_line list) stx" where
  "create_inbound_receipt_from_purchase receipt_no p created_by s =
     (case find (\<lambda>x. po_id x = pri_source_doc_id p) (t_purchase_orders (s_core s)) of
        None \<Rightarrow> Inl (HTTPException 404 ''purchase_order_not_found'')
      | Some po \<Rightarrow>
          if po_status po \<noteq> ''CREATED'' then Inl (HTTPException 409 ''purchase_order_not_creatable'')
          else if po_warehouse_id po \<noteq> pri_warehouse_id p
          then Inl (HTTPException 409 ''purchase_order_warehouse_mismatch'')
          else if open_purchase_receipt s (pri_source_doc_id p)
          then Inl (HTTPException 409 ''inbound_receipt_already_exists'')
          else
            let po_lines = sort_key pl_line_no
                  (filter (\<lambda>l. pl_po_id l = pri_source_doc_id p) (t_purchase_lines (s_core s))) in
            if po_lines = [] then Inl (HTTPException 409 ''purchase_order_has_no_lines'')
            else
              bindE (insert_receipt (purchase_receipt_header receipt_no created_by p po
                  (load_warehouse_name_snapshot s (pri_warehouse_id p))) s) (\<lambda>(receipt_id, s1).
              bindE (foldE (\<lambda>row. insert_receipt_line (purchase_receipt_line receipt_id row)) po_lines s1)
                (\<lambda>s2.
              bindE (get_inbound_receipt s2 receipt_id) (\<lambda>out. Inr (out, s2)))))"

definition manual_receipt_header ::
  "string \<Rightarrow> int option \<Rightarrow> manual_receipt_in \<Rightarrow> string option \<Rightarrow> string option \<Rightarrow> inbound_receipt" where
  "manual_receipt_header receipt_no created_by p wname sname =
     \<lparr>rh_id = 0, rh_receipt_no = receipt_no, rh_source_type = ''MANUAL'', rh_source_doc_id = None,
      rh_source_doc_no_snapshot = None, rh_warehouse_id = mri_warehouse_id p,
      rh_warehouse_name_snapshot = wname, rh_supplier_id = mri_supplier_id p,
      rh_counterparty_name_snapshot = sname, rh_status = ''DRAFT'', rh_remark = mri_remark p,
      rh_created_by = created_by, rh_released_at = None\<rparr>"

definition insert_manual_receipt_line :: "int \<Rightarrow> int \<times> manual_receipt_line_in \<Rightarrow> site \<Rightarrow> site result" where
  "insert_manual_receipt_line receipt_id nl s =
     (case nl of (idx, l) \<Rightarrow>
      bindE (load_manual_line_snapshot (s_core s) (mrl_item_id l) (mrl_item_uom_id l)) (\<lambda>(it, u).
      insert_receipt_line
        \<lparr>rn_id = 0, rn_receipt_id = receipt_id, rn_line_no = idx, rn_source_line_id = None,
         rn_item_id = mrl_item_id l, rn_item_uom_id = mrl_item_uom_id l,
         rn_planned_qty = mrl_planned_qty l, rn_item_name_snapshot = Some (it_name it),
         rn_item_spec_snapshot = it_spec it, rn_uom_name_snapshot = Some (uom_name u),
         rn_ratio_to_base_snapshot = uo_ratio_to_base u, rn_remark = mrl_remark l\<rparr> s))"

definition create_inbound_receipt_manual ::
  "string \<Rightarrow> manual_receipt_in \<Rightarrow> int option \<Rightarrow> (inbound_receipt \<times> inbound_receipt_line list) stx" where
  "create_inbound_receipt_manual receipt_no p created_by s =
     (if mri_warehouse_id p \<notin> fst ` set (s_warehouses s)
      then Inl (HTTPException 404 ''warehouse_not_found'')
      else
        bindE (case mri_supplier_id p of None \<Rightarrow> Inr None
               | Some n \<Rightarrow> bindE (load_supplier_name_snapshot s n) (\<lambda>x. Inr (Some x))) (\<lambda>sname.
        bindE (insert_receipt (manual_receipt_header receipt_no created_by p
            (load_warehouse_name_snapshot s (mri_warehouse_id p)) sname) s) (\<lambda>(receipt_id, s1).
        bindE (foldE (insert_manual_receipt_line receipt_id) (number_lines (mri_lines p)) s1) (\<lambda>s2.
        bindE (get_inbound_receipt s2 receipt_id) (\<lambda>out. Inr (out, s2))))))"

text \<open>\<open>UPDATE ... WHERE id AND status = 'DRAFT' RETURNING\<close>; a released receipt answers again.\<close>

record release_out =
  ro_receipt_id :: int
  ro_receipt_no :: string
  ro_released_at :: "int option"

definition release_inbound_receipt :: "int \<Rightarrow> int \<Rightarrow> release_out stx" where
  "release_inbound_receipt now n s =
     (let hit = (\<lambda>h. rh_id h = n \<and> rh_status h = ''DRAFT'');
          set_released = (\<lambda>h. h\<lparr>rh_status := ''RELEASED'',
            rh_released_at := coalesce (rh_released_at h) (Some now)\<rparr>) in
      case find hit (s_receipts s) of
        Some h \<Rightarrow> Inr (\<lparr>ro_receipt_id = rh_id h, ro_receipt_no = rh_receipt_no h,
            ro_released_at = rh_released_at (set_released h)\<rparr>,
          s\<lparr>s_receipts := update_where hit set_released (s_receipts s)\<rparr>)
      | None \<Rightarrow> (case find (\<lambda>h. rh_id h = n) (s_receipts s) of
          None \<Rightarrow> Inl (HTTPException 404 ''inbound_receipt_not_found'')
        | Some h \<Rightarrow> if rh_status h = ''RELEASED''
            then Inr (\<lparr>ro_receipt_id = rh_id h, ro_receipt_no = rh_receipt_no h,
              ro_released_at = rh_released_at h\<rparr>, s)
            else Inl (HTTPException 409 ''inbound_receipt_not_releasable'')))"

section \<open>inbound\_operation\_write\_repo.py\<close>

definition to_int_exact :: "int \<Rightarrow> int result" where
  "to_int_exact v = (if v < 0 then Inl (HTTPException 409 ''must_not_be_negative'') else Inr v)"

definition map_event_source_type :: "string \<Rightarrow> string" where
  "map_event_source_type st = (if st = ''RETURN_ORDER'' then ''RETURN'' else st)"

definition load_item_uom_snapshot :: "db \<Rightarrow> int \<Rightarrow> int \<Rightarrow> (int \<times> string option \<times> int) result" where
  "load_item_uom_snapshot d i u =
     (case find_item_uom d i u of
        None \<Rightarrow> Inl (HTTPException 409 ''actual_item_uom_not_found_or_item_mismatch'')
      | Some x \<Rightarrow> Inr (uo_id x, Some (uom_name x), uo_ratio_to_base x))"

text \<open>The active barcodes of the item with this code, joined with their unit; primary first.\<close>

definition item_barcode_units :: "db \<Rightarrow> int \<Rightarrow> string \<Rightarrow> (item_barcode \<times> item_uom) list" where
  "item_barcode_units d i code =
     filter (\<lambda>(b, u). bc_active b \<and> bc_item_id b = i) (barcode_matches (t_item_uoms d) (t_item_barcodes d) code)"

definition resolve_barcode_uom_snapshot :: "db \<Rightarrow> int \<Rightarrow> string \<Rightarrow> (int \<times> string option \<times> int) result" where
  "resolve_barcode_uom_snapshot d i barcode =
     (let ms = item_barcode_units d i (py_strip barcode);
          first = (case find (\<lambda>(b, u). bc_is_primary b) ms of
                     Some m \<Rightarrow> Some m | None \<Rightarrow> (case ms of [] \<Rightarrow> None | m # _ \<Rightarrow> Some m)) in
      case first of
        None \<Rightarrow> Inl (HTTPException 422 ''barcode_unbound_or_item_mismatch'')
      | Some (b, u) \<Rightarrow> Inr (uo_id u, Some (uom_name u), uo_ratio_to_base u))"

text \<open>What an entry is counted in: the scanned unit, the named unit, or the unit of the task line.\<close>

definition resolve_entry_unit ::
  "db \<Rightarrow> inbound_receipt_line \<Rightarrow> operation_entry_in \<Rightarrow> (int \<times> string option \<times> int) result" where
  "resolve_entry_unit d tk e =
     (case strip_or_none (oe_barcode_input e) of
        Some code \<Rightarrow>
          bindE (resolve_barcode_uom_snapshot d (rn_item_id tk) code) (\<lambda>(u, name, ratio).
          if oe_actual_item_uom_id e \<noteq> None \<and> oe_actual_item_uom_id e \<noteq> Some u
          then Inl (HTTPException 409 ''barcode_actual_item_uom_mismatch'')
          else Inr (u, name, ratio))
      | None \<Rightarrow> (case oe_actual_item_uom_id e of
            Some u \<Rightarrow> load_item_uom_snapshot d (rn_item_id tk) u
          | None \<Rightarrow> Inr (rn_item_uom_id tk, rn_uom_name_snapshot tk, rn_ratio_to_base_snapshot tk)))"

text \<open>\<open>planned_qty * ratio_to_base_snapshot\<close> and the base quantity the operations have recorded.\<close>

definition planned_qty_base :: "inbound_receipt_line \<Rightarrow> int" where
  "planned_qty_base l = rn_planned_qty l * rn_ratio_to_base_snapshot l"

definition received_qty_base :: "site \<Rightarrow> string \<Rightarrow> int \<Rightarrow> int" where
  "received_qty_base s receipt_no line_no =
     sum_where (\<lambda>l. oq_receipt_line_no_snapshot l = line_no \<and>
         (\<exists>x \<in> set (s_operations s). op_id x = oq_operation_id l \<and> op_receipt_no_snapshot x = receipt_no))
       oq_qty_base (s_operation_lines s)"

definition load_task_lines :: "site \<Rightarrow> int \<Rightarrow> inbound_receipt_line list result" where
  "load_task_lines s receipt_id =
     (let ls = sort_key rn_line_no (filter (\<lambda>l. rn_receipt_id l = receipt_id) (s_receipt_lines s)) in
      if list_all (\<lambda>l. int4 (planned_qty_base l)) ls then Inr ls
      else Inl (DataError ''integer out of range''))"

definition insert_operation :: "inbound_operation \<Rightarrow> int stx" where
  "insert_operation x s =
     (let (nid, s1) = site_next_id WMS_INBOUND_OPERATIONS s in
      if op_warehouse_id x \<notin> fst ` set (s_warehouses s) \<or>
        (case op_supplier_id x of None \<Rightarrow> False | Some n \<Rightarrow> n \<notin> su_id ` set (s_suppliers s))
      then Inl (IntegrityError ''fk_wms_inbound_operations'')
      else Inr (nid, s1\<lparr>s_operations := s_operations s1 @ [x\<lparr>op_id := nid\<rparr>]\<rparr>))"

definition insert_operation_line :: "inbound_operation_line \<Rightarrow> int stx" where
  "insert_operation_line l s =
     (let (nid, s1) = site_next_id WMS_INBOUND_OPERATION_LINES s; d = s_core s in
      if \<not> (int4 (oq_actual_qty_input l) \<and> int4 (oq_actual_ratio_to_base_snapshot l) \<and> int4 (oq_qty_base l))
      then Inl (DataError ''integer out of range'')
      else if \<not> operation_line_checks l
      then Inl (IntegrityError ''wms_inbound_operation_lines check constraint'')
      else if oq_operation_id l \<notin> op_id ` set (s_operations s) \<or> oq_item_id l \<notin> it_id ` set (t_items d) \<or>
        oq_actual_item_uom_id l \<notin> uo_id ` set (t_item_uoms d) \<or>
        (case oq_lot_id l of None \<Rightarrow> False | Some n \<Rightarrow> find_lot d n = None)
      then Inl (IntegrityError ''fk_wms_inbound_operation_lines'')
      else Inr (nid, s1\<lparr>s_operation_lines := s_operation_lines s1 @ [l\<lparr>oq_id := nid\<rparr>]\<rparr>))"

text \<open>\<open>INSERT INTO stocks_lot ... ON CONFLICT DO UPDATE SET qty = qty + EXCLUDED.qty RETURNING qty\<close>.\<close>

definition upsert_stocks_lot :: "int \<Rightarrow> int \<Rightarrow> int \<Rightarrow> int \<Rightarrow> int tx" where
  "upsert_stocks_lot w i lid delta d =
     (let (nid, d1) = next_id STOCKS_LOT d in
      if \<not> int4 delta then Inl (DataError ''integer out of range'')
      else case slot_row d (w, i, lid) of
        Some r \<Rightarrow>
          if \<not> int4 (sl_qty r + delta) then Inl (DataError ''integer out of range'')
          else Inr (sl_qty r + delta, d1\<lparr>t_stocks := update_where (\<lambda>x. stock_slot x = (w, i, lid))
                 (\<lambda>x. x\<lparr>sl_qty := sl_qty r + delta\<rparr>) (t_stocks d1)\<rparr>)
      | None \<Rightarrow>
          if \<not> lot_at d w i lid then Inl (IntegrityError ''fk_stocks_lot_lot_dims'')
          else Inr (delta, d1\<lparr>t_stocks := t_stocks d1 @
            [\<lparr>sl_id = nid, sl_warehouse_id = w, sl_item_id = i, sl_lot_id = lid, sl_qty = delta\<rparr>]\<rparr>))"

definition receiving_ledger_row ::
  "int \<Rightarrow> int \<Rightarrow> int \<Rightarrow> int \<Rightarrow> int \<Rightarrow> int \<Rightarrow> string \<Rightarrow> int \<Rightarrow> string \<Rightarrow> int \<Rightarrow> date option \<Rightarrow>
   date option \<Rightarrow> stock_ledger" where
  "receiving_ledger_row w i lid delta after ts event_no ref_line trace event_id pd ed =
     \<lparr>lg_id = 0, lg_warehouse_id = w, lg_item_id = i, lg_lot_id = lid, lg_reason = ''RECEIPT'',
      lg_reason_canon = Some ''RECEIPT'', lg_sub_reason = Some ''INBOUND_OPERATION'', lg_ref = event_no,
      lg_ref_line = ref_line, lg_delta = delta, lg_after_qty = after, lg_occurred_at = ts,
      lg_trace_id = Some trace, lg_event_id = Some event_id, lg_production_date = pd,
      lg_expiry_date = ed\<rparr>"

definition book_receipt ::
  "int \<Rightarrow> int \<Rightarrow> int \<Rightarrow> int \<Rightarrow> int \<Rightarrow> string \<Rightarrow> int \<Rightarrow> string \<Rightarrow> int \<Rightarrow> date option \<Rightarrow> date option \<Rightarrow> unit tx" where
  "book_receipt w i lid delta ts event_no ref_line trace event_id pd ed d =
     bindE (upsert_stocks_lot w i lid delta d) (\<lambda>(after, d1).
     bindE (insert_outbound_stock_ledger
              (receiving_ledger_row w i lid delta after ts event_no ref_line trace event_id pd ed) d1) (\<lambda>d2.
     Inr ((), d2)))"

text \<open>What the submission knows when it starts on its lines.\<close>

record operation_ctx =
  ox_task :: inbound_receipt
  ox_task_lines :: "inbound_receipt_line list"
  ox_operation_id :: int
  ox_event_id :: int
  ox_event_no :: string
  ox_trace_id :: string
  ox_operated_at :: int

definition operation_line_of ::
  "operation_ctx \<Rightarrow> inbound_receipt_line \<Rightarrow> operation_entry_in \<Rightarrow> int \<times> string option \<times> int \<Rightarrow> int \<Rightarrow>
   inbound_operation_line" where
  "operation_line_of c tk e unit lid =
     (case unit of (u, name, ratio) \<Rightarrow>
       \<lparr>oq_id = 0, oq_operation_id = ox_operation_id c, oq_receipt_line_no_snapshot = rn_line_no tk,
        oq_item_id = rn_item_id tk, oq_item_name_snapshot = rn_item_name_snapshot tk,
        oq_item_spec_snapshot = rn_item_spec_snapshot tk, oq_actual_item_uom_id = u,
        oq_actual_uom_name_snapshot = name, oq_actual_ratio_to_base_snapshot = ratio,
        oq_actual_qty_input = oe_qty_inbound e, oq_qty_base = oe_qty_inbound e * ratio,
        oq_batch_no = oe_batch_no e, oq_production_date = oe_production_date e,
        oq_expiry_date = oe_expiry_date e, oq_lot_id = Some lid, oq_remark = oe_remark e\<rparr>)"

definition operation_event_line ::
  "operation_ctx \<Rightarrow> inbound_receipt_line \<Rightarrow> operation_entry_in \<Rightarrow> int \<Rightarrow> inbound_operation_line \<Rightarrow>
   inbound_event_line" where
  "operation_event_line c tk e line_no l =
     \<lparr>il_id = 0, il_event_id = ox_event_id c, il_line_no = line_no, il_item_id = oq_item_id l,
      il_item_name_snapshot = oq_item_name_snapshot l, il_item_spec_snapshot = oq_item_spec_snapshot l,
      il_actual_uom_id = oq_actual_item_uom_id l, il_actual_uom_name_snapshot = oq_actual_uom_name_snapshot l,
      il_barcode_input = strip_or_none (oe_barcode_input e), il_actual_qty_input = oq_actual_qty_input l,
      il_actual_ratio_to_base_snapshot = oq_actual_ratio_to_base_snapshot l, il_qty_base = oq_qty_base l,
      il_lot_code_input = oq_batch_no l, il_production_date = oq_production_date l,
      il_expiry_date = oq_expiry_date l, il_lot_id = oq_lot_id l,
      il_po_line_id = (if rh_source_type (ox_task c) = ''PURCHASE_ORDER'' then rn_source_line_id tk else None),
      il_remark = oq_remark l\<rparr>"

text \<open>
  The running state of the loop: the event line number, and what every task line has received,
  \<open>line_progress_by_no\<close>. The inner loop's own running total is the entry of its line, to which the
  code writes it back after every entry.
\<close>

record operation_run =
  rr_site :: site
  rr_line_no :: int
  rr_progress :: "int \<Rightarrow> int"

definition receive_entry ::
  "operation_ctx \<Rightarrow> inbound_receipt_line \<Rightarrow> item_policy \<Rightarrow> operation_entry_in \<Rightarrow> operation_run \<Rightarrow>
   (inbound_operation_line \<times> operation_run) result" where
  "receive_entry c tk pol e r =
     (let s = rr_site r; w = rh_warehouse_id (ox_task c); n = rn_line_no tk in
      bindE (resolve_entry_unit (s_core s) tk e) (\<lambda>(u, name, ratio).
      let qty_base = oe_qty_inbound e * ratio in
      if planned_qty_base tk < rr_progress r n + qty_base
      then Inl (HTTPException 409 ''received_qty_base_exceeds_planned'')
      else
        bindE (to_int_exact qty_base) (\<lambda>_.
        bindE (to_int_exact (oe_qty_inbound e)) (\<lambda>_.
        bindE (to_int_exact ratio) (\<lambda>_.
        bindE (on_core (resolve_inbound_lot w pol (oe_batch_no e) (oe_production_date e) (oe_expiry_date e)) s)
          (\<lambda>(lid, s1).
        let l = operation_line_of c tk e (u, name, ratio) lid; k = rr_line_no r + 1 in
        bindE (insert_operation_line l s1) (\<lambda>(oid, s2).
        bindE (on_core (insert_inbound_line (operation_event_line c tk e k l)) s2) (\<lambda>(_, s3).
        bindE (on_core (book_receipt w (rn_item_id tk) lid qty_base (ox_operated_at c) (ox_event_no c) k
                 (ox_trace_id c) (ox_event_id c) (oe_production_date e) (oe_expiry_date e)) s3) (\<lambda>(_, s4).
        Inr (l\<lparr>oq_id := oid\<rparr>, r\<lparr>rr_site := s4, rr_line_no := k,
          rr_progress := (rr_progress r)(n := rr_progress r n + qty_base)\<rparr>))))))))))"

definition receive_line ::
  "operation_ctx \<Rightarrow> operation_line_in \<Rightarrow> operation_run \<Rightarrow> (inbound_operation_line list \<times> operation_run) result" where
  "receive_line c li r =
     (case find (\<lambda>l. rn_line_no l = oi_receipt_line_no li) (ox_task_lines c) of
        None \<Rightarrow> Inl (HTTPException 404 ''inbound_task_line_not_found'')
      | Some tk \<Rightarrow>
          bindE (get_item_policy_by_id (s_core (rr_site r)) (rn_item_id tk)) (\<lambda>policy.
          bindE (of_option (HTTPException 404 ''item_policy_not_found'') policy) (\<lambda>pol.
          mapE (receive_entry c tk pol) (oi_entries li) r)))"

definition operation_header ::
  "int \<Rightarrow> int option \<Rightarrow> string option \<Rightarrow> operation_submit_in \<Rightarrow> inbound_receipt \<Rightarrow> inbound_operation" where
  "operation_header now operator_id operator_name p task =
     \<lparr>op_id = 0, op_receipt_no_snapshot = rh_receipt_no task, op_warehouse_id = rh_warehouse_id task,
      op_warehouse_name_snapshot = rh_warehouse_name_snapshot task, op_supplier_id = rh_supplier_id task,
      op_supplier_name_snapshot = rh_counterparty_name_snapshot task, op_operator_id = operator_id,
      op_operator_name_snapshot = operator_name, op_operated_at = now, op_remark = os_op_remark p\<rparr>"

definition operation_event ::
  "int \<Rightarrow> int option \<Rightarrow> string \<Rightarrow> string \<Rightarrow> operation_submit_in \<Rightarrow> inbound_receipt \<Rightarrow> wms_event" where
  "operation_event now operator_id event_no trace p task =
     \<lparr>ev_id = 0, ev_event_no = event_no, ev_event_type = ''INBOUND'', ev_warehouse_id = rh_warehouse_id task,
      ev_source_type = map_event_source_type (rh_source_type task),
      ev_source_ref = Some (rh_receipt_no task), ev_occurred_at = now, ev_committed_at = now,
      ev_trace_id = trace, ev_event_kind = ''COMMIT'', ev_target_event_id = None,
      ev_status = ''COMMITTED'', ev_created_by = operator_id, ev_remark = os_op_remark p\<rparr>"

definition complete_receipt :: "int \<Rightarrow> site \<Rightarrow> site" where
  "complete_receipt n s = s\<lparr>s_receipts := update_where (\<lambda>h. rh_id h = n \<and> rh_status h = ''RELEASED'')
     (\<lambda>h. h\<lparr>rh_status := ''COMPLETED''\<rparr>) (s_receipts s)\<rparr>"

record operation_out =
  oo_id :: int
  oo_event :: int
  oo_receipt_no :: string
  oo_lines :: "inbound_operation_line list"

definition submit_inbound_operation ::
  "int \<Rightarrow> string \<Rightarrow> string \<Rightarrow> int option \<Rightarrow> string option \<Rightarrow> operation_submit_in \<Rightarrow> operation_out stx" where
  "submit_inbound_operation now event_no trace operator_id operator_name p s =
     (case find (\<lambda>h. rh_receipt_no h = os_receipt_no p) (s_receipts s) of
        None \<Rightarrow> Inl (HTTPException 404 ''inbound_task_not_found'')
      | Some task \<Rightarrow>
          if rh_status task \<noteq> ''RELEASED'' then Inl (HTTPException 409 ''inbound_task_not_released'')
          else
            bindE (ensure_warehouse_not_frozen (s_core s) (rh_warehouse_id task)) (\<lambda>_.
            bindE (load_task_lines s (rh_id task)) (\<lambda>task_lines.
            bindE (insert_operation (operation_header now operator_id operator_name p task) s)
              (\<lambda>(operation_id, s1).
            bindE (on_core (insert_event (operation_event now operator_id event_no trace p task)) s1)
              (\<lambda>(event_id, s2).
            let c = \<lparr>ox_task = task, ox_task_lines = task_lines, ox_operation_id = operation_id,
                  ox_event_id = event_id, ox_event_no = event_no, ox_trace_id = trace,
                  ox_operated_at = now\<rparr>;
                r = \<lparr>rr_site = s2, rr_line_no = 0,
                  rr_progress = received_qty_base s (rh_receipt_no task)\<rparr> in
            bindE (mapE (receive_line c) (os_op_lines p) r) (\<lambda>(outs, r').
            let s3 = (if task_lines \<noteq> [] \<and>
                  list_all (\<lambda>l. planned_qty_base l \<le> rr_progress r' (rn_line_no l)) task_lines
                then complete_receipt (rh_id task) (rr_site r') else rr_site r') in
            Inr (\<lparr>oo_id = operation_id, oo_event = event_id, oo_receipt_no = rh_receipt_no task,
                  oo_lines = concat outs\<rparr>, s3)))))))"

section \<open>The routes\<close>

text \<open>An \<open>HTTPException\<close> goes through, any other exception becomes a 400 with its text.\<close>

definition receiving_route :: "'a result \<Rightarrow> 'a result" where
  "receiving_route m = (case m of
       Inr r \<Rightarrow> Inr r
     | Inl (HTTPException code text) \<Rightarrow> Inl (HTTPException code text)
     | Inl e \<Rightarrow> Inl (HTTPException 400 (error_text e)))"

definition create_inbound_receipt_from_purchase_endpoint ::
  "string \<Rightarrow> purchase_receipt_in \<Rightarrow> (inbound_receipt \<times> inbound_receipt_line list) stx" where
  "create_inbound_receipt_from_purchase_endpoint receipt_no p s =
     (if \<not> purchase_receipt_in_valid p then Inl (HTTPException 422 ''request validation error'')
      else receiving_route (create_inbound_receipt_from_purchase receipt_no p None s))"

definition create_inbound_receipt_manual_endpoint ::
  "string \<Rightarrow> manual_receipt_in \<Rightarrow> (inbound_receipt \<times> inbound_receipt_line list) stx" where
  "create_inbound_receipt_manual_endpoint receipt_no p s =
     (if \<not> manual_receipt_in_valid p then Inl (HTTPException 422 ''request validation error'')
      else receiving_route (create_inbound_receipt_manual receipt_no p None s))"

definition release_inbound_receipt_endpoint :: "int \<Rightarrow> int \<Rightarrow> release_out stx" where
  "release_inbound_receipt_endpoint now n s = receiving_route (release_inbound_receipt now n s)"

definition submit_inbound_operation_endpoint ::
  "int \<Rightarrow> string \<Rightarrow> string \<Rightarrow> int option \<Rightarrow> string option \<Rightarrow> operation_submit_in \<Rightarrow> operation_out stx" where
  "submit_inbound_operation_endpoint now event_no trace operator_id operator_name p s =
     (if \<not> operation_submit_valid p then Inl (HTTPException 422 ''request validation error'')
      else receiving_route (submit_inbound_operation now event_no trace operator_id operator_name p s))"

end
