(* ===== verification/ReceivingBooks.thy ===== *)
theory ReceivingBooks
  imports Receiving Warehouse
begin

text \<open>
  What receiving does to the books: one entry of an operation adds one operation line, one event
  line and one ledger row, and moves the balance of one slot. The relation \<open>receives\<close> is the
  trace of the loops of \<open>submit_inbound_operation\<close>; it is an instance of the locale \<open>traced\<close>.
\<close>

section \<open>One movement\<close>

lemma receiving_ledger_row_sel [simp]:
  "lg_delta (receiving_ledger_row w i lid q a ts r rl tr ev pd ed) = q"
  "lg_after_qty (receiving_ledger_row w i lid q a ts r rl tr ev pd ed) = a"
  "lg_ref (receiving_ledger_row w i lid q a ts r rl tr ev pd ed) = r"
  "lg_ref_line (receiving_ledger_row w i lid q a ts r rl tr ev pd ed) = rl"
  "lg_reason (receiving_ledger_row w i lid q a ts r rl tr ev pd ed) = ''RECEIPT''"
  "lg_event_id (receiving_ledger_row w i lid q a ts r rl tr ev pd ed) = Some ev"
  "lg_warehouse_id (receiving_ledger_row w i lid q a ts r rl tr ev pd ed) = w"
  "ledger_slot (receiving_ledger_row w i lid q a ts r rl tr ev pd ed) = (w, i, lid)"
  "dates_only_on_receipt (receiving_ledger_row w i lid q a ts r rl tr ev pd ed)"
  by (simp_all add: receiving_ledger_row_def ledger_slot_def dates_only_on_receipt_def)

lemma upsert_stocks_lot_cases:
  assumes "upsert_stocks_lot w i lid delta d = Inr (after, d')"
  obtains (old) r where "slot_row d (w, i, lid) = Some r" "after = sl_qty r + delta"
      "d' = d\<lparr>t_next_id := (t_next_id d)(STOCKS_LOT := t_next_id d STOCKS_LOT + 1),
         t_stocks := update_where (\<lambda>x. stock_slot x = (w, i, lid)) (\<lambda>x. x\<lparr>sl_qty := after\<rparr>) (t_stocks d)\<rparr>"
    | (new) "slot_row d (w, i, lid) = None" "after = delta" "lot_at d w i lid"
      "d' = d\<lparr>t_next_id := (t_next_id d)(STOCKS_LOT := t_next_id d STOCKS_LOT + 1),
         t_stocks := t_stocks d @ [\<lparr>sl_id = t_next_id d STOCKS_LOT, sl_warehouse_id = w, sl_item_id = i,
            sl_lot_id = lid, sl_qty = delta\<rparr>]\<rparr>"
  using assms by (auto simp: upsert_stocks_lot_def next_id_def Let_def split: option.splits if_splits)

lemma insert_outbound_stock_ledger_Inr:
  assumes "insert_outbound_stock_ledger row d = Inr d'"
  shows "d' = d\<lparr>t_next_id := (t_next_id d)(STOCK_LEDGER := t_next_id d STOCK_LEDGER + 1),
      t_ledger := t_ledger d @ [row\<lparr>lg_id := t_next_id d STOCK_LEDGER\<rparr>]\<rparr>"
    and "ledger_key row \<notin> ledger_key ` set (t_ledger d)"
  using assms by (auto simp: insert_outbound_stock_ledger_def next_id_def Let_def split: if_splits)

lemma upsert_then_ledger_posts:
  assumes "upsert_stocks_lot w i lid delta d = Inr (after, d1)" and "insert_outbound_stock_ledger row d1 = Inr d'"
    and row: "ledger_slot row = (w, i, lid)" "lg_delta row = delta" "lg_after_qty row = after"
      "dates_only_on_receipt row"
    and "0 < delta" and inv: "book_inv d"
  shows "\<exists>n. posts d [row\<lparr>lg_id := n\<rparr>] d'"
proof -
  let ?n = "t_next_id d1 STOCK_LEDGER"
  let ?bump = "d\<lparr>t_next_id := (t_next_id d)(STOCKS_LOT := t_next_id d STOCKS_LOT + 1)\<rparr>"
  note l = insert_outbound_stock_ledger_Inr [OF assms(2)]
  from assms(1) have "posts d [row\<lparr>lg_id := ?n\<rparr>] d'"
  proof (cases rule: upsert_stocks_lot_cases)
    case (old r)
    have "posts d [] ?bump" by (rule posts_nothing) simp_all
    moreover have "posts ?bump [row\<lparr>lg_id := ?n\<rparr>] d'"
    proof (rule posts_row)
      show "slot_row ?bump (ledger_slot (row\<lparr>lg_id := ?n\<rparr>)) = Some r"
        using old(1) row(1) by (simp add: slot_row_def)
      show "0 \<le> lg_after_qty (row\<lparr>lg_id := ?n\<rparr>)"
        using book_invD(5) [OF inv, of r] slot_row_in [OF old(1)] old(2) row(3) assms(7) by simp
    qed (use l old row in simp_all)
    ultimately show ?thesis using posting.traced_app by fastforce
  next
    case new
    let ?s = "\<lparr>sl_id = t_next_id d STOCKS_LOT, sl_warehouse_id = w, sl_item_id = i, sl_lot_id = lid, sl_qty = 0\<rparr>"
    let ?m = "?bump\<lparr>t_stocks := t_stocks d @ [?s]\<rparr>"
    have slot: "stock_slot ?s = (w, i, lid)" by (simp add: stock_slot_def)
    have "posts d [] ?m"
      by (rule posts_new_slot [where r = ?s]) (use new slot in simp_all)
    moreover have "posts ?m [row\<lparr>lg_id := ?n\<rparr>] d'"
    proof (rule posts_row)
      show "slot_row ?m (ledger_slot (row\<lparr>lg_id := ?n\<rparr>)) = Some ?s"
        using new(1) row(1) slot by (simp add: slot_row_def find_append)
      have "update_where (\<lambda>x. stock_slot x = (w, i, lid)) (\<lambda>x. x\<lparr>sl_qty := delta\<rparr>) (t_stocks d) = t_stocks d"
        using new(1) unfolding update_where_def by (intro map_idI) (force simp: slot_row_None)
      then show "t_stocks d' = update_where (\<lambda>x. stock_slot x = ledger_slot (row\<lparr>lg_id := ?n\<rparr>))
          (\<lambda>x. x\<lparr>sl_qty := lg_after_qty (row\<lparr>lg_id := ?n\<rparr>)\<rparr>) (t_stocks ?m)"
        using l(1) new(2,4) row slot by (simp add: update_where_def)
    qed (use l new row assms(7) in simp_all)
    ultimately show ?thesis using posting.traced_app by fastforce
  qed
  then show ?thesis ..
qed

lemma book_receipt_Inr:
  assumes "book_receipt w i lid delta ts eno k tr ev pd ed d = Inr (u, d')"
  obtains row where "t_ledger d' = t_ledger d @ [row]" "lg_ref row = eno" "lg_ref_line row = k"
    "lg_reason row = ''RECEIPT''" "lg_event_id row = Some ev" "lg_delta row = delta"
    "ledger_slot row = (w, i, lid)" "rest_of d' = rest_of d"
    "0 < delta \<and> book_inv d \<longrightarrow> posts d [row] d'"
proof -
  from assms obtain after d1 where
    1: "upsert_stocks_lot w i lid delta d = Inr (after, d1)" and
    2: "insert_outbound_stock_ledger (receiving_ledger_row w i lid delta after ts eno k tr ev pd ed) d1 = Inr d'"
    by (auto simp: book_receipt_def res_simps)
  let ?row = "(receiving_ledger_row w i lid delta after ts eno k tr ev pd ed)\<lparr>lg_id := t_next_id d1 STOCK_LEDGER\<rparr>"
  note l = insert_outbound_stock_ledger_Inr(1) [OF 2]
  have same: "t_ledger d1 = t_ledger d" "rest_of d1 = rest_of d"
    using 1 by (cases rule: upsert_stocks_lot_cases; auto simp: rest_of_def fun_eq_iff)+
  have led: "t_ledger d' = t_ledger d @ [?row]" by (simp add: l same)
  have "rest_of d' = rest_of d1" unfolding l by (simp add: rest_of_def fun_eq_iff)
  then have rest: "rest_of d' = rest_of d" using same by simp
  have "posts d [?row] d'" if m: "0 < delta" "book_inv d"
  proof -
    obtain n where "posts d [(receiving_ledger_row w i lid delta after ts eno k tr ev pd ed)\<lparr>lg_id := n\<rparr>] d'"
      using upsert_then_ledger_posts [OF 1 2 _ _ _ _ m] by auto
    then show ?thesis using led posts_ledger [OF _ m(2)] by fastforce
  qed
  from that [OF led _ _ _ _ _ _ rest] this show thesis by simp
qed

section \<open>One entry\<close>

text \<open>The rows an entry adds: operation line, event line, ledger row.\<close>

type_synonym received = "inbound_operation_line \<times> inbound_event_line \<times> stock_ledger"

definition received_ok :: "operation_ctx \<Rightarrow> received \<Rightarrow> bool" where
  "received_ok c e \<longleftrightarrow> (case e of (l, x, row) \<Rightarrow>
     oq_operation_id l = ox_operation_id c \<and> 0 < oq_qty_base l \<and>
     (\<exists>tk \<in> set (ox_task_lines c). rn_line_no tk = oq_receipt_line_no_snapshot l \<and> rn_item_id tk = oq_item_id l) \<and>
     il_event_id x = ox_event_id c \<and> il_item_id x = oq_item_id l \<and> il_qty_base x = oq_qty_base l \<and>
     il_lot_id x = oq_lot_id l \<and> lg_reason row = ''RECEIPT'' \<and>
     books_inbound_line (rh_warehouse_id (ox_task c)) (ox_event_no c) 1 x row)"

text \<open>What receiving leaves alone, in the warehouse and in the tables of the site.\<close>

definition receiving_view :: "site \<Rightarrow> _" where
  "receiving_view s = (t_items (s_core s), t_events (s_core s), t_completion (s_core s), t_purchase_orders (s_core s),
     t_purchase_lines (s_core s), count_view (s_core s), s_warehouses s, s_suppliers s, s_receipts s, s_receipt_lines s,
     s_operations s, (s_next_id s)(WMS_INBOUND_OPERATION_LINES := 0))"

definition line_total :: "int \<Rightarrow> received list \<Rightarrow> int" where
  "line_total n es = sum_where (\<lambda>(l, _). oq_receipt_line_no_snapshot l = n) (\<lambda>(l, _). oq_qty_base l) es"

definition within_plan :: "operation_ctx \<Rightarrow> operation_run \<Rightarrow> bool" where
  "within_plan c r \<longleftrightarrow> (\<forall>tk \<in> set (ox_task_lines c). rr_progress r (rn_line_no tk) \<le> planned_qty_base tk)"

definition receives :: "operation_ctx \<Rightarrow> operation_run \<Rightarrow> received list \<Rightarrow> operation_run \<Rightarrow> bool" where
  "receives c r es r' \<longleftrightarrow>
     (\<forall>e \<in> set es. received_ok c e) \<and> receiving_view (rr_site r') = receiving_view (rr_site r) \<and>
     s_operation_lines (rr_site r') = s_operation_lines (rr_site r) @ map fst es \<and>
     (\<forall>n. rr_progress r' n = rr_progress r n + line_total n es) \<and>
     (distinct (map rn_line_no (ox_task_lines c)) \<longrightarrow> within_plan c r \<longrightarrow> within_plan c r') \<and>
     (warehouse_inv (s_core (rr_site r)) \<longrightarrow> warehouse_inv (s_core (rr_site r')) \<and>
        t_ledger (s_core (rr_site r')) = t_ledger (s_core (rr_site r)) @ map (\<lambda>(_, _, row). row) es \<and>
        t_inbound_lines (s_core (rr_site r')) =
          t_inbound_lines (s_core (rr_site r)) @ map (\<lambda>(_, x, _). x) es)"

lemma line_total_simps [simp]:
  "line_total n [] = 0" "line_total n (es @ fs) = line_total n es + line_total n fs"
  "line_total n [(l, y)] = (if oq_receipt_line_no_snapshot l = n then oq_qty_base l else 0)"
  by (simp_all add: line_total_def)

interpretation receives: traced "receives c"
proof
  show "receives c s [] s" for s by (simp add: receives_def)
next
  show "receives c s (xs @ ys) u" if "receives c s xs t" "receives c t ys u" for s xs t ys u
    using that unfolding receives_def by auto
qed

lemma insert_operation_line_Inr:
  assumes "insert_operation_line l s = Inr (n, s')"
  shows "s' = s\<lparr>s_next_id := (s_next_id s)(WMS_INBOUND_OPERATION_LINES := n + 1),
      s_operation_lines := s_operation_lines s @ [l\<lparr>oq_id := n\<rparr>]\<rparr>"
    and "operation_line_checks l"
  using assms by (auto simp: insert_operation_line_def site_next_id_def Let_def split: if_splits)

lemma on_core_Inr [res_simps]:
  "on_core f s = Inr (x, s') \<longleftrightarrow> (\<exists>d. f (s_core s) = Inr (x, d) \<and> s' = s\<lparr>s_core := d\<rparr>)"
  by (auto simp: on_core_def bindE_eq_Inr)

text \<open>The steps of an entry that returned.\<close>

lemma receive_entry_Inr:
  assumes "receive_entry c tk pol e r = Inr (l, r')"
  obtains unit lid d1 oid xid d3 d4 where
    "rr_progress r (rn_line_no tk) + oq_qty_base l \<le> planned_qty_base tk"
    "lots_grow (s_core (rr_site r)) d1" "l = (operation_line_of c tk e unit lid)\<lparr>oq_id := oid\<rparr>"
    "operation_line_checks l"
    "insert_inbound_line (operation_event_line c tk e (rr_line_no r + 1) l) d1 = Inr (xid, d3)"
    "book_receipt (rh_warehouse_id (ox_task c)) (rn_item_id tk) lid (oq_qty_base l) (ox_operated_at c)
       (ox_event_no c) (rr_line_no r + 1) (ox_trace_id c) (ox_event_id c) (oe_production_date e)
       (oe_expiry_date e) d3 = Inr ((), d4)"
    "rr_site r' = (rr_site r)\<lparr>s_next_id := (s_next_id (rr_site r))(WMS_INBOUND_OPERATION_LINES := oid + 1),
       s_operation_lines := s_operation_lines (rr_site r) @ [l], s_core := d4\<rparr>"
    "rr_progress r' = (rr_progress r)(rn_line_no tk := rr_progress r (rn_line_no tk) + oq_qty_base l)"
proof -
  let ?w = "rh_warehouse_id (ox_task c)" and ?n = "rn_line_no tk" and ?s = "rr_site r" and ?k = "rr_line_no r + 1"
  from assms obtain u name ratio lid d1 oid s2 xid d3 d4 where
    plan: "rr_progress r ?n + oe_qty_inbound e * ratio \<le> planned_qty_base tk" and
    lot: "resolve_inbound_lot ?w pol (oe_batch_no e) (oe_production_date e) (oe_expiry_date e) (s_core ?s) = Inr (lid, d1)" and
    ol: "insert_operation_line (operation_line_of c tk e (u, name, ratio) lid) (?s\<lparr>s_core := d1\<rparr>) = Inr (oid, s2)" and
    il: "insert_inbound_line (operation_event_line c tk e ?k (operation_line_of c tk e (u, name, ratio) lid)) (s_core s2)
      = Inr (xid, d3)" and
    bk: "book_receipt ?w (rn_item_id tk) lid (oe_qty_inbound e * ratio) (ox_operated_at c) (ox_event_no c) ?k (ox_trace_id c)
      (ox_event_id c) (oe_production_date e) (oe_expiry_date e) d3 = Inr ((), d4)" and
    l: "l = (operation_line_of c tk e (u, name, ratio) lid)\<lparr>oq_id := oid\<rparr>" and
    r': "r' = r\<lparr>rr_site := s2\<lparr>s_core := d4\<rparr>, rr_line_no := ?k,
      rr_progress := (rr_progress r)(?n := rr_progress r ?n + oe_qty_inbound e * ratio)\<rparr>"
    by (auto simp: receive_entry_def Let_def res_simps not_less)
  note o = insert_operation_line_Inr [OF ol]
  have q: "oq_qty_base l = oe_qty_inbound e * ratio" by (simp add: l operation_line_of_def)
  have ev: "operation_event_line c tk e ?k l =
      operation_event_line c tk e ?k (operation_line_of c tk e (u, name, ratio) lid)"
    by (simp add: l operation_event_line_def)
  show thesis
  proof (rule that [OF _ resolve_inbound_lot_grow [OF lot] l])
    show "operation_line_checks l" using o(2) by (simp add: l operation_line_checks_def cong: option.case_cong)
    show "insert_inbound_line (operation_event_line c tk e ?k l) d1 = Inr (xid, d3)"
      using il by (simp add: ev o(1))
  qed (use plan bk q in \<open>simp_all add: r' o(1) l\<close>)
qed

lemma receive_entry_receives:
  assumes run: "receive_entry c tk pol e r = Inr (l, r')" and tk: "tk \<in> set (ox_task_lines c)"
  shows "\<exists>es. receives c r es r' \<and> map fst es = [l]"
proof -
  obtain unit lid d1 oid xid d3 d4 where
    plan: "rr_progress r (rn_line_no tk) + oq_qty_base l \<le> planned_qty_base tk" and
    grow: "lots_grow (s_core (rr_site r)) d1" and l: "l = (operation_line_of c tk e unit lid)\<lparr>oq_id := oid\<rparr>" and
    chk: "operation_line_checks l" and
    il: "insert_inbound_line (operation_event_line c tk e (rr_line_no r + 1) l) d1 = Inr (xid, d3)" and
    bk: "book_receipt (rh_warehouse_id (ox_task c)) (rn_item_id tk) lid (oq_qty_base l) (ox_operated_at c)
       (ox_event_no c) (rr_line_no r + 1) (ox_trace_id c) (ox_event_id c) (oe_production_date e)
       (oe_expiry_date e) d3 = Inr ((), d4)" and
    r': "rr_site r' = (rr_site r)\<lparr>s_next_id := (s_next_id (rr_site r))(WMS_INBOUND_OPERATION_LINES := oid + 1),
       s_operation_lines := s_operation_lines (rr_site r) @ [l], s_core := d4\<rparr>"
      "rr_progress r' = (rr_progress r)(rn_line_no tk := rr_progress r (rn_line_no tk) + oq_qty_base l)"
    by (rule receive_entry_Inr [OF run])
  let ?x = "(operation_event_line c tk e (rr_line_no r + 1) l)\<lparr>il_id := xid\<rparr>"
  note i = insert_inbound_line_Inr [OF il]
  note fr = lots_grow_frame [OF grow]
  obtain row where row: "t_ledger d4 = t_ledger d3 @ [row]" "lg_ref row = ox_event_no c"
    "lg_ref_line row = rr_line_no r + 1" "lg_reason row = ''RECEIPT''" "lg_event_id row = Some (ox_event_id c)"
    "lg_delta row = oq_qty_base l" "ledger_slot row = (rh_warehouse_id (ox_task c), rn_item_id tk, lid)"
    and rest: "rest_of d4 = rest_of d3" and post: "0 < oq_qty_base l \<and> book_inv d3 \<longrightarrow> posts d3 [row] d4"
    by (rule book_receipt_Inr [OF bk])
  note rf = rest_ofD [OF rest]
  have pos: "0 < oq_qty_base l" using chk by (simp add: operation_line_checks_def)
  have fields: "oq_operation_id l = ox_operation_id c" "oq_receipt_line_no_snapshot l = rn_line_no tk"
    "oq_item_id l = rn_item_id tk" "oq_lot_id l = Some lid"
    by (cases unit; simp add: l operation_line_of_def)+
  have "warehouse_inv d4" if w: "warehouse_inv (s_core (rr_site r))"
  proof -
    have w3: "warehouse_inv d3"
      by (rule insert_inbound_line_warehouse_inv [OF il lots_grow_warehouse_inv [OF grow w]])
    have "lots_inv d4 = lots_inv d3" "events_inv d4 = events_inv d3"
      by (rule lots_inv_cong events_inv_cong; simp add: rf)+
    then show ?thesis using w3 post pos by (auto simp: warehouse_inv_def intro: posts_inv)
  qed
  moreover have "received_ok c (l, ?x, row)"
    using tk row pos fields by (auto simp: received_ok_def books_inbound_line_def operation_event_line_def)
  moreover have "keeps_counts (s_core (rr_site r)) d3"
    by (rule counts.evo_trans [OF keeps_counts_grow [OF grow] keeps_counts_inbound_line [OF il]])
  then have "receiving_view (rr_site r') = receiving_view (rr_site r)"
    by (simp add: receiving_view_def r' rf i(1) fr keeps_counts_def count_view_def fun_eq_iff)
  moreover have "within_plan c r'" if "distinct (map rn_line_no (ox_task_lines c))" "within_plan c r"
    using that tk plan by (auto simp: within_plan_def r' distinct_map dest: inj_onD)
  moreover have "t_ledger d4 = t_ledger (s_core (rr_site r)) @ [row]"
    "t_inbound_lines d4 = t_inbound_lines (s_core (rr_site r)) @ [?x]"
    using row(1) by (simp_all add: rf i(1) fr)
  ultimately have "receives c r [(l, ?x, row)] r'"
    using fields by (simp add: receives_def r')
  then show ?thesis by force
qed

text \<open>One task line with its entries, and the whole submission.\<close>

lemma receive_line_receives:
  assumes "receive_line c li r = Inr (ls, r')"
  shows "\<exists>es. receives c r es r' \<and> map fst es = ls"
proof -
  from assms obtain tk pol where
    tk: "find (\<lambda>l. rn_line_no l = oi_receipt_line_no li) (ox_task_lines c) = Some tk" and
    run: "mapE (receive_entry c tk pol) (oi_entries li) r = Inr (ls, r')"
    by (auto simp: receive_line_def res_simps)
  have "tk \<in> set (ox_task_lines c)" using find_SomeD [OF tk] by simp
  then have "\<exists>ess. receives c r (concat ess) r' \<and> length ess = length (oi_entries li) \<and>
      (\<forall>k < length (oi_entries li). map fst (ess ! k) = [ls ! k])"
    by (intro receives.traced_mapE [OF _ run]) (rule receive_entry_receives)
  then obtain ess where
    e: "receives c r (concat ess) r'" "length ess = length (oi_entries li)"
      "\<forall>k < length (oi_entries li). map fst (ess ! k) = [ls ! k]" by blast
  have "map fst (concat ess) = concat (map (map fst) ess)" by (simp add: map_concat)
  also have "map (map fst) ess = map (\<lambda>y. [y]) ls"
    using e(2,3) mapE_length [OF run] by (intro nth_equalityI) simp_all
  also have "concat (map (\<lambda>y. [y]) ls) = ls" by (induction ls) simp_all
  finally show ?thesis using e(1) by blast
qed

lemma receive_lines_receive:
  assumes "mapE (receive_line c) lis r = Inr (outs, r')"
  shows "\<exists>es. receives c r es r' \<and> map fst es = concat outs"
proof -
  have "\<exists>ess. receives c r (concat ess) r' \<and> length ess = length lis \<and>
      (\<forall>k < length lis. map fst (ess ! k) = outs ! k)"
    by (rule receives.traced_mapE [OF _ assms]) (rule receive_line_receives)
  then obtain ess where
    e: "receives c r (concat ess) r'" "length ess = length lis" "\<forall>k < length lis. map fst (ess ! k) = outs ! k"
    by blast
  have "map (map fst) ess = outs" using e(2,3) mapE_length [OF assms] by (intro nth_equalityI) simp_all
  then have "map fst (concat ess) = concat outs" by (simp add: map_concat)
  with e(1) show ?thesis by blast
qed

end
