(* ===== verification/ReceivingLife.thy ===== *)
theory ReceivingLife
  imports ReceivingBooks
begin

text \<open>
  The life of an inbound receipt: what a submission changes, the invariant of the receiving
  tables (no line is over-received, a receipt is completed exactly when every line is) and that
  creation, release and submission keep it.
\<close>

section \<open>A submission\<close>

lemma insert_operation_Inr:
  assumes "insert_operation x s = Inr (n, s')"
  shows "n = s_next_id s WMS_INBOUND_OPERATIONS"
    and "s' = s\<lparr>s_next_id := (s_next_id s)(WMS_INBOUND_OPERATIONS := n + 1), s_operations := s_operations s @ [x\<lparr>op_id := n\<rparr>]\<rparr>"
  using assms by (auto simp: insert_operation_def site_next_id_def Let_def split: if_splits)

definition task_lines_of :: "site \<Rightarrow> int \<Rightarrow> inbound_receipt_line list" where
  "task_lines_of s n = sort_key rn_line_no (filter (\<lambda>l. rn_receipt_id l = n) (s_receipt_lines s))"

lemma load_task_lines_Inr: "load_task_lines s n = Inr ls \<Longrightarrow> ls = task_lines_of s n"
  by (simp add: load_task_lines_def task_lines_of_def Let_def split: if_splits)

text \<open>Every line of the task has what it was announced to have.\<close>

definition fully_received :: "site \<Rightarrow> inbound_receipt \<Rightarrow> bool" where
  "fully_received s h \<longleftrightarrow> task_lines_of s (rh_id h) \<noteq> [] \<and>
     (\<forall>l \<in> set (task_lines_of s (rh_id h)). planned_qty_base l \<le> received_qty_base s (rh_receipt_no h) (rn_line_no l))"

lemma received_qty_base_new_operation:
  assumes "s_operations s' = s_operations s @ [x]" and "s_operation_lines s' = s_operation_lines s @ ls"
    and "op_id x \<notin> op_id ` set (s_operations s)"
    and "\<forall>l \<in> set (s_operation_lines s). oq_operation_id l \<noteq> op_id x" and "\<forall>l \<in> set ls. oq_operation_id l = op_id x"
  shows "received_qty_base s' rno n = received_qty_base s rno n +
    (if op_receipt_no_snapshot x = rno then sum_where (\<lambda>l. oq_receipt_line_no_snapshot l = n) oq_qty_base ls else 0)"
proof -
  let ?p = "\<lambda>s l. oq_receipt_line_no_snapshot l = n \<and>
      (\<exists>x \<in> set (s_operations s). op_id x = oq_operation_id l \<and> op_receipt_no_snapshot x = rno)"
  have "sum_where (?p s') oq_qty_base (s_operation_lines s) = sum_where (?p s) oq_qty_base (s_operation_lines s)"
    by (rule sum_where_cong) (use assms(1,4) in auto)
  moreover have "sum_where (?p s') oq_qty_base ls =
      sum_where (\<lambda>l. oq_receipt_line_no_snapshot l = n \<and> op_receipt_no_snapshot x = rno) oq_qty_base ls"
    by (rule sum_where_cong) (use assms(1,3,5) in \<open>auto simp: image_iff\<close>)
  moreover have "\<dots> = (if op_receipt_no_snapshot x = rno then
      sum_where (\<lambda>l. oq_receipt_line_no_snapshot l = n) oq_qty_base ls else 0)"
    by (simp add: sum_where_none)
  ultimately show ?thesis by (simp add: received_qty_base_def assms(2))
qed

lemma line_total_fst: "line_total n es = sum_where (\<lambda>l. oq_receipt_line_no_snapshot l = n) oq_qty_base (map fst es)"
  by (induction es) (auto simp: line_total_def)

lemma submit_inbound_operation_Inr:
  assumes "submit_inbound_operation now eno tr u un p s = Inr (out, s')"
  obtains task c es where
    "find (\<lambda>h. rh_receipt_no h = os_receipt_no p) (s_receipts s) = Some task" "rh_status task = ''RELEASED''"
    "ensure_warehouse_not_frozen (s_core s) (rh_warehouse_id task) = Inr ()"
    "ox_task c = task" "ox_task_lines c = task_lines_of s (rh_id task)" "ox_operation_id c = oo_id out"
    "ox_event_id c = oo_event out" "ox_event_no c = eno"
    "oo_id out = s_next_id s WMS_INBOUND_OPERATIONS" "map fst es = oo_lines out"
    "\<forall>e \<in> set es. received_ok c e"
    "s_operations s' = s_operations s @ [(operation_header now u un p task)\<lparr>op_id := oo_id out\<rparr>]"
    "s_operation_lines s' = s_operation_lines s @ oo_lines out"
    "s_next_id s' WMS_INBOUND_OPERATIONS = oo_id out + 1"
    "s_next_id s' INBOUND_RECEIPTS = s_next_id s INBOUND_RECEIPTS"
    "s_receipt_lines s' = s_receipt_lines s" "t_purchase_orders (s_core s') = t_purchase_orders (s_core s)"
    "s_receipts s' = (if task_lines_of s (rh_id task) \<noteq> [] \<and> (\<forall>l \<in> set (task_lines_of s (rh_id task)).
         planned_qty_base l \<le> received_qty_base s (rh_receipt_no task) (rn_line_no l) + line_total (rn_line_no l) es)
       then s_receipts (complete_receipt (rh_id task) s) else s_receipts s)"
    "t_events (s_core s') = t_events (s_core s) @ [(operation_event now u eno tr p task)\<lparr>ev_id := oo_event out\<rparr>]"
    "t_completion (s_core s') = t_completion (s_core s)" "keeps_counts (s_core s) (s_core s')"
    "t_items (s_core s') = t_items (s_core s)"
    "warehouse_inv (s_core s) \<longrightarrow> warehouse_inv (s_core s') \<and>
       t_ledger (s_core s') = t_ledger (s_core s) @ map (\<lambda>(_, _, row). row) es \<and>
       t_inbound_lines (s_core s') = t_inbound_lines (s_core s) @ map (\<lambda>(_, x, _). x) es"
    "distinct (map rn_line_no (task_lines_of s (rh_id task))) \<longrightarrow>
       (\<forall>l \<in> set (task_lines_of s (rh_id task)).
          received_qty_base s (rh_receipt_no task) (rn_line_no l) \<le> planned_qty_base l) \<longrightarrow>
       (\<forall>l \<in> set (task_lines_of s (rh_id task)).
          received_qty_base s (rh_receipt_no task) (rn_line_no l) + line_total (rn_line_no l) es \<le> planned_qty_base l)"
proof -
  from assms obtain task tls s1 d2 outs r' where
    task: "find (\<lambda>h. rh_receipt_no h = os_receipt_no p) (s_receipts s) = Some task" "rh_status task = ''RELEASED''" and
    ok: "ensure_warehouse_not_frozen (s_core s) (rh_warehouse_id task) = Inr ()" and
    tls: "load_task_lines s (rh_id task) = Inr tls" and
    op: "insert_operation (operation_header now u un p task) s = Inr (oo_id out, s1)" and
    ev: "insert_event (operation_event now u eno tr p task) (s_core s1) = Inr (oo_event out, d2)" and
    run: "mapE (receive_line \<lparr>ox_task = task, ox_task_lines = tls, ox_operation_id = oo_id out,
        ox_event_id = oo_event out, ox_event_no = eno, ox_trace_id = tr, ox_operated_at = now\<rparr>) (os_op_lines p)
      \<lparr>rr_site = s1\<lparr>s_core := d2\<rparr>, rr_line_no = 0, rr_progress = received_qty_base s (rh_receipt_no task)\<rparr>
      = Inr (outs, r')" and
    out: "oo_lines out = concat outs" and
    s': "s' = (if tls \<noteq> [] \<and> list_all (\<lambda>l. planned_qty_base l \<le> rr_progress r' (rn_line_no l)) tls
                then complete_receipt (rh_id task) (rr_site r') else rr_site r')"
    by (auto simp: submit_inbound_operation_def Let_def res_simps)
  let ?c = "\<lparr>ox_task = task, ox_task_lines = tls, ox_operation_id = oo_id out, ox_event_id = oo_event out,
      ox_event_no = eno, ox_trace_id = tr, ox_operated_at = now\<rparr>"
  let ?r = "\<lparr>rr_site = s1\<lparr>s_core := d2\<rparr>, rr_line_no = 0, rr_progress = received_qty_base s (rh_receipt_no task)\<rparr>"
  from receive_lines_receive [OF run] obtain es where es: "receives ?c ?r es r'" "map fst es = oo_lines out"
    by (auto simp: out)
  note o = insert_operation_Inr [OF op]
  note e = insert_event_Inr(1,2) [OF ev]
  have tl: "tls = task_lines_of s (rh_id task)" by (rule load_task_lines_Inr [OF tls])
  have view: "receiving_view (rr_site r') = receiving_view (s1\<lparr>s_core := d2\<rparr>)"
    and prog: "\<And>n. rr_progress r' n = received_qty_base s (rh_receipt_no task) n + line_total n es"
    and lines: "s_operation_lines (rr_site r') = s_operation_lines s @ oo_lines out"
    and ok_es: "\<forall>e \<in> set es. received_ok ?c e"
    using es by (simp_all add: receives_def o)
  have plan: "distinct (map rn_line_no tls) \<longrightarrow>
      (\<forall>l \<in> set tls. received_qty_base s (rh_receipt_no task) (rn_line_no l) \<le> planned_qty_base l) \<longrightarrow>
      (\<forall>l \<in> set tls. received_qty_base s (rh_receipt_no task) (rn_line_no l) + line_total (rn_line_no l) es \<le> planned_qty_base l)"
    using es(1) prog unfolding receives_def within_plan_def by simp
  have w2: "warehouse_inv (s_core s) \<longrightarrow> warehouse_inv d2"
    using insert_event_warehouse_inv [OF ev] by (simp add: o)
  have books: "warehouse_inv (s_core s) \<longrightarrow> warehouse_inv (s_core (rr_site r')) \<and>
       t_ledger (s_core (rr_site r')) = t_ledger (s_core s) @ map (\<lambda>(_, _, row). row) es \<and>
       t_inbound_lines (s_core (rr_site r')) = t_inbound_lines (s_core s) @ map (\<lambda>(_, x, _). x) es"
    using es(1) w2 unfolding receives_def by (simp add: e(2) o)
  note v = view [unfolded receiving_view_def, simplified]
  have next': "s_next_id (rr_site r') t = s_next_id s1 t" if "t \<noteq> WMS_INBOUND_OPERATION_LINES" for t
    using v that by (metis fun_upd_other)
  have keep: "keeps_counts (s_core s) (s_core (rr_site r'))"
    using v by (simp add: keeps_counts_def count_view_def e(2) o)
  have rec: "s_receipts s' = (if tls \<noteq> [] \<and> (\<forall>l \<in> set tls.
         planned_qty_base l \<le> received_qty_base s (rh_receipt_no task) (rn_line_no l) + line_total (rn_line_no l) es)
       then s_receipts (complete_receipt (rh_id task) s) else s_receipts s)"
    using v by (simp add: s' prog list_all_iff complete_receipt_def o)
  have same: "s_core s' = s_core (rr_site r')" "s_operations s' = s_operations (rr_site r')"
    "s_operation_lines s' = s_operation_lines (rr_site r')" "s_next_id s' = s_next_id (rr_site r')"
    "s_receipt_lines s' = s_receipt_lines (rr_site r')" "t_purchase_orders (s_core s') = t_purchase_orders (s_core (rr_site r'))"
    by (simp_all add: s' complete_receipt_def)
  show thesis
    by (rule that [of task ?c es, OF task ok])
      (use v next' keep rec same lines ok_es plan books es(2) in \<open>simp_all add: o e(2) tl\<close>)
qed

section \<open>The receiving tables\<close>

definition receipt_ok :: "site \<Rightarrow> inbound_receipt \<Rightarrow> bool" where
  "receipt_ok s h \<longleftrightarrow>
     (\<forall>l \<in> set (task_lines_of s (rh_id h)). received_qty_base s (rh_receipt_no h) (rn_line_no l) \<le> planned_qty_base l) \<and>
     (rh_status h = ''DRAFT'' \<longrightarrow> (\<forall>n. received_qty_base s (rh_receipt_no h) n = 0)) \<and>
     (rh_status h = ''COMPLETED'' \<longleftrightarrow> fully_received s h)"

definition open_for_purchase :: "inbound_receipt \<Rightarrow> bool" where
  "open_for_purchase h \<longleftrightarrow> rh_source_type h = ''PURCHASE_ORDER'' \<and> rh_status h \<noteq> ''VOIDED''"

definition receipts_inv :: "site \<Rightarrow> bool" where
  "receipts_inv s \<longleftrightarrow>
     distinct (map rh_id (s_receipts s)) \<and> (\<forall>h \<in> set (s_receipts s). rh_id h < s_next_id s INBOUND_RECEIPTS) \<and>
     distinct (map rh_receipt_no (s_receipts s)) \<and>
     distinct (map rh_source_doc_id (filter open_for_purchase (s_receipts s))) \<and>
     distinct (map (\<lambda>l. (rn_receipt_id l, rn_line_no l)) (s_receipt_lines s)) \<and>
     (\<forall>l \<in> set (s_receipt_lines s). receipt_line_checks l \<and> rn_receipt_id l \<in> rh_id ` set (s_receipts s)) \<and>
     distinct (map op_id (s_operations s)) \<and>
     (\<forall>x \<in> set (s_operations s). op_id x < s_next_id s WMS_INBOUND_OPERATIONS \<and>
        op_receipt_no_snapshot x \<in> rh_receipt_no ` set (s_receipts s)) \<and>
     (\<forall>l \<in> set (s_operation_lines s). 0 < oq_qty_base l \<and> oq_operation_id l \<in> op_id ` set (s_operations s)) \<and>
     (\<forall>h \<in> set (s_receipts s). receipt_ok s h)"

lemma receipts_invD:
  assumes "receipts_inv s"
  shows "distinct (map rh_id (s_receipts s))"
    and "h \<in> set (s_receipts s) \<Longrightarrow> rh_id h < s_next_id s INBOUND_RECEIPTS"
    and "distinct (map rh_receipt_no (s_receipts s))"
    and "distinct (map rh_source_doc_id (filter open_for_purchase (s_receipts s)))"
    and "distinct (map (\<lambda>l. (rn_receipt_id l, rn_line_no l)) (s_receipt_lines s))"
    and "l \<in> set (s_receipt_lines s) \<Longrightarrow> receipt_line_checks l"
    and "l \<in> set (s_receipt_lines s) \<Longrightarrow> rn_receipt_id l \<in> rh_id ` set (s_receipts s)"
    and "distinct (map op_id (s_operations s))"
    and "x \<in> set (s_operations s) \<Longrightarrow> op_id x < s_next_id s WMS_INBOUND_OPERATIONS"
    and "x \<in> set (s_operations s) \<Longrightarrow> op_receipt_no_snapshot x \<in> rh_receipt_no ` set (s_receipts s)"
    and "q \<in> set (s_operation_lines s) \<Longrightarrow> 0 < oq_qty_base q \<and> oq_operation_id q \<in> op_id ` set (s_operations s)"
    and "h \<in> set (s_receipts s) \<Longrightarrow> receipt_ok s h"
  using assms unfolding receipts_inv_def by blast+

lemma receipts_invI:
  assumes "distinct (map rh_id (s_receipts s))" and "distinct (map rh_receipt_no (s_receipts s))"
    and "distinct (map rh_source_doc_id (filter open_for_purchase (s_receipts s)))"
    and "distinct (map (\<lambda>l. (rn_receipt_id l, rn_line_no l)) (s_receipt_lines s))"
    and "distinct (map op_id (s_operations s))"
    and "\<And>h. h \<in> set (s_receipts s) \<Longrightarrow> rh_id h < s_next_id s INBOUND_RECEIPTS \<and> receipt_ok s h"
    and "\<And>l. l \<in> set (s_receipt_lines s) \<Longrightarrow> receipt_line_checks l \<and> rn_receipt_id l \<in> rh_id ` set (s_receipts s)"
    and "\<And>x. x \<in> set (s_operations s) \<Longrightarrow> op_id x < s_next_id s WMS_INBOUND_OPERATIONS \<and>
        op_receipt_no_snapshot x \<in> rh_receipt_no ` set (s_receipts s)"
    and "\<And>l. l \<in> set (s_operation_lines s) \<Longrightarrow> 0 < oq_qty_base l \<and> oq_operation_id l \<in> op_id ` set (s_operations s)"
  shows "receipts_inv s"
  using assms unfolding receipts_inv_def by blast

lemma received_unknown_receipt:
  assumes "receipts_inv s" and "rno \<notin> rh_receipt_no ` set (s_receipts s)"
  shows "received_qty_base s rno n = 0"
  unfolding received_qty_base_def by (rule sum_where_none) (use assms receipts_invD(10) in blast)

lemma task_lines_in: "l \<in> set (task_lines_of s n) \<longleftrightarrow> l \<in> set (s_receipt_lines s) \<and> rn_receipt_id l = n"
  by (auto simp: task_lines_of_def)

lemma task_lines_distinct:
  assumes "receipts_inv s" shows "distinct (map rn_line_no (task_lines_of s n))"
proof -
  have "distinct (map (\<lambda>l. (rn_receipt_id l, rn_line_no l)) (filter (\<lambda>l. rn_receipt_id l = n) (s_receipt_lines s)))"
    by (rule distinct_map_filter [OF receipts_invD(5) [OF assms]])
  then have "distinct (map rn_line_no (filter (\<lambda>l. rn_receipt_id l = n) (s_receipt_lines s)))"
    by (auto simp: distinct_map inj_on_def)
  then show ?thesis unfolding task_lines_of_def by (simp add: distinct_map)
qed

section \<open>Creating and releasing\<close>

text \<open>What the line loop of a creation adds.\<close>

definition lines_view :: "site \<Rightarrow> _" where
  "lines_view s = (s_core s, s_warehouses s, s_suppliers s,
     s_receipts s, s_operations s, s_operation_lines s, (s_next_id s)(INBOUND_RECEIPT_LINES := 0))"

definition adds_lines :: "int \<Rightarrow> site \<Rightarrow> site \<Rightarrow> bool" where
  "adds_lines n s s' \<longleftrightarrow> lines_view s' = lines_view s \<and>
     (\<exists>ls. s_receipt_lines s' = s_receipt_lines s @ ls \<and> (\<forall>l \<in> set ls. rn_receipt_id l = n \<and> receipt_line_checks l)) \<and>
     (distinct (map (\<lambda>l. (rn_receipt_id l, rn_line_no l)) (s_receipt_lines s)) \<longrightarrow>
      distinct (map (\<lambda>l. (rn_receipt_id l, rn_line_no l)) (s_receipt_lines s')))"

interpretation new_lines: evolution "adds_lines n"
proof
  show "adds_lines n s s" for s by (simp add: adds_lines_def)
next
  show "adds_lines n s u" if "adds_lines n s t" "adds_lines n t u" for s t u
    using that unfolding adds_lines_def by fastforce
qed

lemma insert_receipt_line_adds:
  assumes "insert_receipt_line l s = Inr s'"
  shows "adds_lines (rn_receipt_id l) s s'"
proof -
  from assms obtain n where s': "s' = s\<lparr>s_next_id := (s_next_id s)(INBOUND_RECEIPT_LINES := s_next_id s INBOUND_RECEIPT_LINES + 1),
      s_receipt_lines := s_receipt_lines s @ [l\<lparr>rn_id := n\<rparr>]\<rparr>" "receipt_line_checks l"
    "(rn_receipt_id l, rn_line_no l) \<notin> (\<lambda>x. (rn_receipt_id x, rn_line_no x)) ` set (s_receipt_lines s)"
    by (auto simp: insert_receipt_line_def site_next_id_def Let_def split: if_splits)
  have "receipt_line_checks (l\<lparr>rn_id := n\<rparr>)" using s'(2) by (simp add: receipt_line_checks_def)
  with s'(3) show ?thesis by (simp add: adds_lines_def s'(1) lines_view_def fun_eq_iff)
qed

lemma insert_receipt_Inr:
  assumes "insert_receipt h s = Inr (n, s')"
  shows "n = s_next_id s INBOUND_RECEIPTS"
    and "s' = s\<lparr>s_next_id := (s_next_id s)(INBOUND_RECEIPTS := n + 1), s_receipts := s_receipts s @ [h\<lparr>rh_id := n\<rparr>]\<rparr>"
    and "rh_receipt_no h \<notin> rh_receipt_no ` set (s_receipts s)"
  using assms by (auto simp: insert_receipt_def site_next_id_def Let_def split: if_splits)

text \<open>A new draft with its lines keeps the receiving tables.\<close>

lemma new_receipt_inv:
  assumes h: "insert_receipt h s = Inr (n, s1)" and ls: "adds_lines n s1 s2" and inv: "receipts_inv s"
    and draft: "rh_status h = ''DRAFT''"
    and once: "open_for_purchase h \<longrightarrow> rh_source_doc_id h \<notin> rh_source_doc_id ` set (filter open_for_purchase (s_receipts s))"
  shows "receipts_inv s2" and "s_core s2 = s_core s"
proof -
  note i = insert_receipt_Inr [OF h]
  note D = receipts_invD [OF inv]
  from ls obtain nl where view: "lines_view s2 = lines_view s1"
    and nl: "s_receipt_lines s2 = s_receipt_lines s @ nl" "\<forall>l \<in> set nl. rn_receipt_id l = n \<and> receipt_line_checks l"
    and keys: "distinct (map (\<lambda>l. (rn_receipt_id l, rn_line_no l)) (s_receipt_lines s2))"
    using D(5) by (auto simp: adds_lines_def i(2))
  note v = view [unfolded lines_view_def, simplified]
  have next': "s_next_id s2 t = s_next_id s1 t" if "t \<noteq> INBOUND_RECEIPT_LINES" for t
    using v that by (metis fun_upd_other)
  have rec: "s_receipts s2 = s_receipts s @ [h\<lparr>rh_id := n\<rparr>]" and ops: "s_operations s2 = s_operations s"
    "s_operation_lines s2 = s_operation_lines s" and core: "s_core s2 = s_core s"
    using v by (simp_all add: i(2))
  show "s_core s2 = s_core s" by (rule core)
  have fresh: "n \<notin> rh_id ` set (s_receipts s)" using D(2) i(1) by force
  have recv: "received_qty_base s2 = received_qty_base s" by (intro ext) (simp add: received_qty_base_def ops)
  have tl_old: "task_lines_of s2 (rh_id x) = task_lines_of s (rh_id x)" if "x \<in> set (s_receipts s)" for x
  proof -
    have "filter (\<lambda>l. rn_receipt_id l = rh_id x) nl = []"
      using nl(2) fresh that by (auto simp: filter_empty_conv)
    then show ?thesis by (simp add: task_lines_of_def nl(1))
  qed
  have old: "receipt_ok s2 x" if "x \<in> set (s_receipts s)" for x
    using D(12) [OF that] by (simp add: receipt_ok_def fully_received_def recv tl_old [OF that])
  have zero: "received_qty_base s (rh_receipt_no h) k = 0" for k
    by (rule received_unknown_receipt [OF inv i(3)])
  have "0 < planned_qty_base l" if "l \<in> set (task_lines_of s2 n)" for l
  proof -
    from that have "receipt_line_checks l" using nl D(6) by (auto simp: task_lines_in)
    then show ?thesis by (simp add: receipt_line_checks_def planned_qty_base_def)
  qed
  then have new: "receipt_ok s2 (h\<lparr>rh_id := n\<rparr>)"
    using draft zero by (force simp: receipt_ok_def fully_received_def recv neq_Nil_conv)
  have pur: "distinct (map rh_source_doc_id (filter open_for_purchase (s_receipts s2)))"
    using D(4) once by (auto simp: rec open_for_purchase_def)
  show "receipts_inv s2"
  proof (rule receipts_invI)
    fix x assume "x \<in> set (s_receipts s2)"
    then show "rh_id x < s_next_id s2 INBOUND_RECEIPTS \<and> receipt_ok s2 x"
      using D(2) [of x] i(1) old new by (auto simp: rec next' i(2))
  next
    fix l assume "l \<in> set (s_receipt_lines s2)"
    then show "receipt_line_checks l \<and> rn_receipt_id l \<in> rh_id ` set (s_receipts s2)"
      using D(6,7) nl by (auto simp: rec)
  next
    fix x assume "x \<in> set (s_operations s2)"
    then show "op_id x < s_next_id s2 WMS_INBOUND_OPERATIONS \<and>
        op_receipt_no_snapshot x \<in> rh_receipt_no ` set (s_receipts s2)"
      using D(9,10) [of x] by (simp add: ops rec next' i(2))
  qed (use D(1,3,8,11) keys pur fresh i(3) in \<open>simp_all add: rec ops\<close>)
qed

lemma create_from_purchase_inv:
  assumes "create_inbound_receipt_from_purchase rno p u s = Inr (out, s')" and inv: "receipts_inv s"
  shows "receipts_inv s' \<and> s_core s' = s_core s"
proof -
  let ?ls = "sort_key pl_line_no (filter (\<lambda>l. pl_po_id l = pri_source_doc_id p) (t_purchase_lines (s_core s)))"
  from assms(1) obtain po n s1 where
    po: "find (\<lambda>x. po_id x = pri_source_doc_id p) (t_purchase_orders (s_core s)) = Some po" and
    none: "\<not> open_purchase_receipt s (pri_source_doc_id p)" and
    h: "insert_receipt (purchase_receipt_header rno u p po (load_warehouse_name_snapshot s (pri_warehouse_id p))) s = Inr (n, s1)" and
    ls: "foldE (\<lambda>row. insert_receipt_line (purchase_receipt_line n row)) ?ls s1 = Inr s'"
    by (auto simp: create_inbound_receipt_from_purchase_def Let_def res_simps)
  have "adds_lines n s1 s'"
    by (rule new_lines.evo_foldE [OF _ ls])
      (use insert_receipt_line_adds in \<open>force simp: purchase_receipt_line_def\<close>)
  moreover have "Some (po_id po) \<notin> rh_source_doc_id ` set (filter open_for_purchase (s_receipts s))"
    using none find_SomeD [OF po] by (force simp: open_for_purchase_def open_purchase_receipt_def)
  ultimately show ?thesis
    using new_receipt_inv [OF h _ inv] by (simp add: purchase_receipt_header_def)
qed

lemma create_manual_inv:
  assumes "create_inbound_receipt_manual rno p u s = Inr (out, s')" and inv: "receipts_inv s"
  shows "receipts_inv s' \<and> s_core s' = s_core s"
proof -
  from assms(1) obtain sname n s1 where
    h: "insert_receipt (manual_receipt_header rno u p (load_warehouse_name_snapshot s (mri_warehouse_id p)) sname) s = Inr (n, s1)" and
    ls: "foldE (insert_manual_receipt_line n) (number_lines (mri_lines p)) s1 = Inr s'"
    by (auto simp: create_inbound_receipt_manual_def res_simps)
  have "adds_lines n s1 s'"
    by (rule new_lines.evo_foldE [OF _ ls])
      (auto simp: insert_manual_receipt_line_def res_simps dest!: insert_receipt_line_adds split: prod.splits)
  from new_receipt_inv [OF h this inv] show ?thesis
    by (auto simp: manual_receipt_header_def open_for_purchase_def)
qed

text \<open>A change of status.\<close>

definition restatus :: "(inbound_receipt \<Rightarrow> bool) \<Rightarrow> (inbound_receipt \<Rightarrow> inbound_receipt) \<Rightarrow> bool" where
  "restatus hit f \<longleftrightarrow> (\<forall>h. hit h \<longrightarrow> rh_id (f h) = rh_id h \<and> rh_receipt_no (f h) = rh_receipt_no h \<and>
     rh_source_doc_id (f h) = rh_source_doc_id h \<and> open_for_purchase (f h) = open_for_purchase h)"

lemma restatus_maps:
  assumes "restatus hit f"
  shows "map rh_id (update_where hit f hs) = map rh_id hs"
    and "map rh_receipt_no (update_where hit f hs) = map rh_receipt_no hs"
    and "map rh_source_doc_id (filter open_for_purchase (update_where hit f hs)) =
      map rh_source_doc_id (filter open_for_purchase hs)"
  using assms by (induction hs) (auto simp: restatus_def)

lemma restatus_images:
  assumes "restatus hit f"
  shows "rh_id ` set (update_where hit f hs) = rh_id ` set hs"
    and "rh_receipt_no ` set (update_where hit f hs) = rh_receipt_no ` set hs"
  using restatus_maps(1,2) [OF assms, of hs] by (metis list.set_map)+

lemma restatus_inv:
  assumes inv: "receipts_inv s" and f: "restatus hit f"
    and s': "s_receipts s' = update_where hit f (s_receipts s)" "s_receipt_lines s' = s_receipt_lines s"
      "s_next_id s' INBOUND_RECEIPTS = s_next_id s INBOUND_RECEIPTS"
    and ops: "distinct (map op_id (s_operations s'))"
      "\<And>x. x \<in> set (s_operations s') \<Longrightarrow> op_id x < s_next_id s' WMS_INBOUND_OPERATIONS \<and>
         op_receipt_no_snapshot x \<in> rh_receipt_no ` set (s_receipts s)"
      "\<And>l. l \<in> set (s_operation_lines s') \<Longrightarrow> 0 < oq_qty_base l \<and> oq_operation_id l \<in> op_id ` set (s_operations s')"
    and ok: "\<And>h. h \<in> set (s_receipts s) \<Longrightarrow> receipt_ok s' (if hit h then f h else h)"
  shows "receipts_inv s'"
proof (rule receipts_invI)
  note D = receipts_invD [OF inv]
  fix h assume "h \<in> set (s_receipts s')"
  then obtain h0 where h0: "h0 \<in> set (s_receipts s)" "h = (if hit h0 then f h0 else h0)"
    by (auto simp: s' in_set_update_where)
  moreover have "rh_id h = rh_id h0" using f h0(2) by (simp add: restatus_def)
  ultimately show "rh_id h < s_next_id s' INBOUND_RECEIPTS \<and> receipt_ok s' h"
    using ok [OF h0(1)] D(2) [OF h0(1)] s'(3) by simp
qed (use receipts_invD [OF inv] ops in \<open>simp_all add: s' restatus_maps [OF f] restatus_images [OF f]\<close>)

lemma release_inv:
  assumes "release_inbound_receipt now n s = Inr (out, s')" and inv: "receipts_inv s"
  shows "receipts_inv s' \<and> s_core s' = s_core s"
proof -
  let ?hit = "\<lambda>h. rh_id h = n \<and> rh_status h = ''DRAFT''"
  let ?f = "\<lambda>h. h\<lparr>rh_status := ''RELEASED'', rh_released_at := coalesce (rh_released_at h) (Some now)\<rparr>"
  note D = receipts_invD [OF inv]
  from assms(1) consider "s' = s" | "s' = s\<lparr>s_receipts := update_where ?hit ?f (s_receipts s)\<rparr>"
    by (auto simp: release_inbound_receipt_def Let_def split: option.splits if_splits)
  then show ?thesis
  proof cases
    case 2
    have same: "task_lines_of s' = task_lines_of s" "received_qty_base s' = received_qty_base s"
      by (simp_all add: 2 task_lines_of_def received_qty_base_def fun_eq_iff)
    have "receipts_inv s'"
    proof (rule restatus_inv [OF inv, where hit = ?hit and f = ?f])
      fix h assume "h \<in> set (s_receipts s)"
      then have ok: "receipt_ok s h" by (rule D(12))
      have "fully_received s' h = fully_received s h" "fully_received s' (?f h) = fully_received s h"
        by (simp_all add: fully_received_def same)
      with ok show "receipt_ok s' (if ?hit h then ?f h else h)"
        by (auto simp: receipt_ok_def same)
    qed (use D in \<open>auto simp: 2 restatus_def open_for_purchase_def\<close>)
    with 2 show ?thesis by simp
  qed (use inv in simp)
qed

section \<open>Submitting\<close>

lemma submit_inv:
  assumes run: "submit_inbound_operation now eno tr u un p s = Inr (out, s')" and inv: "receipts_inv s"
  shows "receipts_inv s'"
proof -
  note D = receipts_invD [OF inv]
  obtain task c es where
    task: "find (\<lambda>h. rh_receipt_no h = os_receipt_no p) (s_receipts s) = Some task" "rh_status task = ''RELEASED''" and
    "ensure_warehouse_not_frozen (s_core s) (rh_warehouse_id task) = Inr ()" "ox_task c = task" and
    c: "ox_task_lines c = task_lines_of s (rh_id task)" "ox_operation_id c = oo_id out" and
    "ox_event_id c = oo_event out" "ox_event_no c = eno" and
    oid: "oo_id out = s_next_id s WMS_INBOUND_OPERATIONS" and es: "map fst es = oo_lines out"
      "\<forall>e \<in> set es. received_ok c e" and
    s': "s_operations s' = s_operations s @ [(operation_header now u un p task)\<lparr>op_id := oo_id out\<rparr>]"
      "s_operation_lines s' = s_operation_lines s @ oo_lines out"
      "s_next_id s' WMS_INBOUND_OPERATIONS = oo_id out + 1"
      "s_next_id s' INBOUND_RECEIPTS = s_next_id s INBOUND_RECEIPTS"
      "s_receipt_lines s' = s_receipt_lines s" and
    "t_purchase_orders (s_core s') = t_purchase_orders (s_core s)" and
    rec: "s_receipts s' = (if task_lines_of s (rh_id task) \<noteq> [] \<and> (\<forall>l \<in> set (task_lines_of s (rh_id task)).
         planned_qty_base l \<le> received_qty_base s (rh_receipt_no task) (rn_line_no l) + line_total (rn_line_no l) es)
       then s_receipts (complete_receipt (rh_id task) s) else s_receipts s)" and
    "t_events (s_core s') = t_events (s_core s) @ [(operation_event now u eno tr p task)\<lparr>ev_id := oo_event out\<rparr>]"
    "t_completion (s_core s') = t_completion (s_core s)" "keeps_counts (s_core s) (s_core s')"
    "t_items (s_core s') = t_items (s_core s)"
    "warehouse_inv (s_core s) \<longrightarrow> warehouse_inv (s_core s') \<and>
       t_ledger (s_core s') = t_ledger (s_core s) @ map (\<lambda>(_, _, row). row) es \<and>
       t_inbound_lines (s_core s') = t_inbound_lines (s_core s) @ map (\<lambda>(_, x, _). x) es" and
    plan: "distinct (map rn_line_no (task_lines_of s (rh_id task))) \<longrightarrow>
       (\<forall>l \<in> set (task_lines_of s (rh_id task)).
          received_qty_base s (rh_receipt_no task) (rn_line_no l) \<le> planned_qty_base l) \<longrightarrow>
       (\<forall>l \<in> set (task_lines_of s (rh_id task)).
          received_qty_base s (rh_receipt_no task) (rn_line_no l) + line_total (rn_line_no l) es \<le> planned_qty_base l)"
    by (rule submit_inbound_operation_Inr [OF run])
  let ?x = "(operation_header now u un p task)\<lparr>op_id := oo_id out\<rparr>"
  let ?done = "task_lines_of s (rh_id task) \<noteq> [] \<and> (\<forall>l \<in> set (task_lines_of s (rh_id task)).
         planned_qty_base l \<le> received_qty_base s (rh_receipt_no task) (rn_line_no l) + line_total (rn_line_no l) es)"
  let ?hit = "\<lambda>h. ?done \<and> rh_id h = rh_id task \<and> rh_status h = ''RELEASED''"
  let ?f = "\<lambda>h. h\<lparr>rh_status := ''COMPLETED''\<rparr>"
  have in_s: "task \<in> set (s_receipts s)" using find_SomeD [OF task(1)] by simp
  have new: "oq_operation_id l = oo_id out \<and> 0 < oq_qty_base l" if "l \<in> set (oo_lines out)" for l
    using that es c(2) unfolding es(1) [symmetric] by (auto simp: received_ok_def)
  have fresh: "oo_id out \<notin> op_id ` set (s_operations s)" using D(9) oid by force
  have recv: "received_qty_base s' rno n = received_qty_base s rno n +
      (if rh_receipt_no task = rno then line_total n es else 0)" for rno n
  proof -
    have "op_id ?x \<notin> op_id ` set (s_operations s)" using fresh by (simp add: operation_header_def)
    moreover have "\<forall>l \<in> set (s_operation_lines s). oq_operation_id l \<noteq> op_id ?x"
      using D(11) fresh by (metis inbound_operation.select_convs(1) inbound_operation.update_convs(1) inbound_operation.surjective)
    moreover have "\<forall>l \<in> set (oo_lines out). oq_operation_id l = op_id ?x"
      using new by (simp add: operation_header_def)
    ultimately show ?thesis
      using received_qty_base_new_operation [OF s'(1,2)] by (simp add: line_total_fst es(1) operation_header_def)
  qed
  have same: "task_lines_of s' = task_lines_of s" by (simp add: task_lines_of_def s' fun_eq_iff)
  have other: "rh_receipt_no h \<noteq> rh_receipt_no task" if "h \<in> set (s_receipts s)" "h \<noteq> task" for h
    using that in_s D(3) by (auto simp: distinct_map dest: inj_onD)
  have ids: "h = task" if "h \<in> set (s_receipts s)" "rh_id h = rh_id task" for h
    using that in_s D(1) by (auto simp: distinct_map dest: inj_onD)
  show ?thesis
  proof (rule restatus_inv [OF inv, where hit = ?hit and f = ?f])
    show "restatus ?hit ?f" by (auto simp: restatus_def open_for_purchase_def)
    show "s_receipts s' = update_where ?hit ?f (s_receipts s)"
    proof (cases ?done)
      case True
      then have hit: "?hit = (\<lambda>h. rh_id h = rh_id task \<and> rh_status h = ''RELEASED'')" by (intro ext) blast
      show ?thesis unfolding rec if_P [OF True] hit complete_receipt_def by simp
    next
      case False
      then have hit: "?hit = (\<lambda>h. False)" by (intro ext) blast
      show ?thesis unfolding rec if_not_P [OF False] hit by (simp add: update_where_def)
    qed
    show "distinct (map op_id (s_operations s'))" using D(8) fresh by (simp add: s')
    show "op_id x < s_next_id s' WMS_INBOUND_OPERATIONS \<and>
         op_receipt_no_snapshot x \<in> rh_receipt_no ` set (s_receipts s)" if "x \<in> set (s_operations s')" for x
      using that D(9,10) [of x] in_s oid by (auto simp: s' operation_header_def)
    show "0 < oq_qty_base l \<and> oq_operation_id l \<in> op_id ` set (s_operations s')"
      if "l \<in> set (s_operation_lines s')" for l
      using that D(11) [of l] new by (auto simp: s')
    fix h assume h: "h \<in> set (s_receipts s)"
    note ok = D(12) [OF h]
    show "receipt_ok s' (if ?hit h then ?f h else h)"
    proof (cases "h = task")
      case False
      then have "\<not> ?hit h" using ids [OF h] by blast
      moreover have "received_qty_base s' (rh_receipt_no h) = received_qty_base s (rh_receipt_no h)"
        using recv other [OF h False] by (simp add: fun_eq_iff)
      then have "receipt_ok s' h" using ok by (simp add: receipt_ok_def fully_received_def same)
      ultimately show ?thesis by (simp only: if_False)
    next
      case True
      have full: "fully_received s' task \<longleftrightarrow> ?done" "fully_received s' (?f task) \<longleftrightarrow> ?done"
        by (simp_all add: fully_received_def same recv)
      have "\<forall>l \<in> set (task_lines_of s (rh_id task)).
          received_qty_base s' (rh_receipt_no task) (rn_line_no l) \<le> planned_qty_base l"
        using plan task_lines_distinct [OF inv] D(12) [OF in_s] by (simp add: recv receipt_ok_def)
      with True task(2) full show ?thesis by (auto simp: receipt_ok_def same)
    qed
  qed (simp_all add: s')
qed

end
