(* ===== verification/ReceivingRuns.thy ===== *)
theory ReceivingRuns
  imports ReceivingLife
begin

text \<open>
  Runs of the site: the warehouse steps together with announcing, releasing and receiving inbound
  receipts, a sample purchase from announcement to completion, and the properties of receiving.
\<close>

section \<open>The site\<close>

inductive site_step :: "site \<Rightarrow> site \<Rightarrow> bool" where
  warehouse: "warehouse_step (s_core s) d' \<Longrightarrow> site_step s (s\<lparr>s_core := d'\<rparr>)"
| announce_purchase: "create_inbound_receipt_from_purchase rno p u s = Inr (out, s') \<Longrightarrow> site_step s s'"
| announce_manual: "create_inbound_receipt_manual rno p2 u s = Inr (out, s') \<Longrightarrow> site_step s s'"
| release: "release_inbound_receipt now n s = Inr (out2, s') \<Longrightarrow> site_step s s'"
| operate: "submit_inbound_operation now eno tr u un p3 s = Inr (out3, s') \<Longrightarrow> site_step s s'"

lemma submit_sound:
  assumes run: "submit_inbound_operation now eno tr u un p s = Inr (out, s')"
    and inv: "warehouse_inv (s_core s)" "count_inv (s_core s)"
  shows "sound_step (s_core s) (s_core s')"
proof -
  from submit_inbound_operation_Inr [OF run] obtain task c es where
    *: "ensure_warehouse_not_frozen (s_core s) (rh_warehouse_id task) = Inr ()" "ox_task c = task"
    "\<forall>e \<in> set es. received_ok c e" "keeps_counts (s_core s) (s_core s')"
    "warehouse_inv (s_core s) \<longrightarrow> warehouse_inv (s_core s') \<and>
       t_ledger (s_core s') = t_ledger (s_core s) @ map (\<lambda>(_, _, row). row) es \<and>
       t_inbound_lines (s_core s') = t_inbound_lines (s_core s) @ map (\<lambda>(_, x, _). x) es" by metis
  have "lg_warehouse_id r = rh_warehouse_id task" if "r \<in> set (map (\<lambda>(_, _, row). row) es)" for r
    using that *(2,3) by (auto simp: received_ok_def books_inbound_line_def dest: ledger_slot_warehouse)
  with * inv show ?thesis by (blast intro: sound_stepI booksI)
qed

lemma sound_step_refl: "warehouse_inv d \<Longrightarrow> count_inv d \<Longrightarrow> sound_step d d"
  by (simp add: sound_step_def books_none)

lemma site_step_sound:
  assumes "site_step s s'" and "warehouse_inv (s_core s)" and "count_inv (s_core s)" and "receipts_inv s"
  shows "sound_step (s_core s) (s_core s') \<and> receipts_inv s'"
  using assms(1)
proof cases
  case (warehouse d')
  have "receipts_inv (s\<lparr>s_core := d'\<rparr>) = receipts_inv s"
    by (simp add: receipts_inv_def receipt_ok_def fully_received_def task_lines_of_def received_qty_base_def)
  with warehouse warehouse_step_sound [OF warehouse(2) assms(2,3)] assms(4) show ?thesis by simp
next
  case (announce_purchase rno p u out)
  from create_from_purchase_inv [OF this assms(4)] sound_step_refl [OF assms(2,3)] show ?thesis by simp
next
  case (announce_manual rno p u out)
  from create_manual_inv [OF this assms(4)] sound_step_refl [OF assms(2,3)] show ?thesis by simp
next
  case (release now n out)
  from release_inv [OF this assms(4)] sound_step_refl [OF assms(2,3)] show ?thesis by simp
next
  case (operate now eno tr u un p out)
  from submit_sound [OF this assms(2,3)] submit_inv [OF this assms(4)] show ?thesis by blast
qed

lemma site_run:
  assumes "site_step\<^sup>*\<^sup>* s s'" and "warehouse_inv (s_core s)" and "count_inv (s_core s)" and "receipts_inv s"
  shows "warehouse_inv (s_core s') \<and> count_inv (s_core s') \<and> receipts_inv s' \<and> grows (s_core s) (s_core s')"
  using assms
proof (induction rule: rtranclp_induct)
  case (step e f)
  then have e: "warehouse_inv (s_core e)" "count_inv (s_core e)" "receipts_inv e" "grows (s_core s) (s_core e)"
    by auto
  from site_step_sound [OF step.hyps(2) e(1-3)] have "warehouse_inv (s_core f)" "count_inv (s_core f)"
    "receipts_inv f" "grows (s_core e) (s_core f)"
    by (auto simp: sound_step_def books_def grows_def)
  with e(4) show ?case by (blast intro: growth.evo_trans)
qed (simp add: growth.evo_refl)

section \<open>A sample site\<close>

definition sample_site :: site where
  "sample_site =
     \<lparr>s_core = sample_db\<lparr>t_items := [sample_item 2 ''MUG'' INTERNAL_ONLY EXPIRY_NONE],
        t_item_uoms := [sample_uom 21 2 ''PC'' 1, sample_uom 22 2 ''BX'' 10],
        t_purchase_orders := [\<lparr>po_id = 40, po_no = ''PO-40'', po_supplier_id = 3, po_supplier_name = ''MUGS'',
          po_warehouse_id = 7, po_purchaser = ''ANN'', po_purchase_time = 5, po_total_amount = Some 0,
          po_status = ''CREATED'', po_close_reason = None, po_close_note = None, po_remark = None,
          po_closed_at = None\<rparr>],
        t_purchase_lines := [\<lparr>pl_id = 400, pl_po_id = 40, pl_line_no = 1, pl_item_id = 2,
          pl_item_name = None, pl_item_sku = None, pl_spec_text = None, pl_purchase_uom_id_snapshot = 22,
          pl_purchase_uom_name_snapshot = ''BOX'', pl_purchase_ratio_to_base_snapshot = 10,
          pl_qty_ordered_input = 3, pl_qty_ordered_base = 30, pl_supply_price = None, pl_remark = None\<rparr>]\<rparr>,
      s_warehouses = [(7, ''SOUTH'')],
      s_suppliers = [\<lparr>su_id = 3, su_name = ''MUGS'', su_active = True\<rparr>],
      s_receipts = [], s_receipt_lines = [], s_operations = [], s_operation_lines = [],
      s_next_id = (\<lambda>_. 1)\<rparr>"

definition sample_entry :: "int \<Rightarrow> int option \<Rightarrow> operation_entry_in" where
  "sample_entry n u =
     \<lparr>oe_qty_inbound = n, oe_barcode_input = None, oe_actual_item_uom_id = u, oe_batch_no = None,
      oe_production_date = None, oe_expiry_date = None, oe_remark = None\<rparr>"

definition sample_operation :: "operation_entry_in list \<Rightarrow> operation_submit_in" where
  "sample_operation es =
     \<lparr>os_receipt_no = ''IR-1'', os_op_remark = None,
      os_op_lines = [\<lparr>oi_receipt_line_no = 1, oi_entries = es\<rparr>]\<rparr>"

text \<open>An order for three boxes of ten: announced, released, and received as two boxes and ten pieces.\<close>

definition sample_purchase :: purchase_receipt_in where
  "sample_purchase = \<lparr>pri_source_doc_id = 40, pri_warehouse_id = 7, pri_remark = None\<rparr>"

definition two_boxes :: operation_entry_in where
  "two_boxes = sample_entry 2 None"

definition ten_pieces :: operation_entry_in where
  "ten_pieces = sample_entry 10 (Some 21)"

definition released_site :: site where
  "released_site = (case bindE (create_inbound_receipt_from_purchase ''IR-1'' sample_purchase None sample_site)
       (\<lambda>(_, s). release_inbound_receipt 5 1 s) of Inr (_, s) \<Rightarrow> s | Inl _ \<Rightarrow> sample_site)"

definition received_site :: "operation_entry_in list \<Rightarrow> site" where
  "received_site es = (case submit_inbound_operation 6 ''IE-1'' ''T-1'' None None (sample_operation es) released_site of
     Inr (_, s) \<Rightarrow> s | Inl _ \<Rightarrow> released_site)"

lemma released_run: "site_step\<^sup>*\<^sup>* sample_site released_site"
proof -
  have "\<exists>x. bindE (create_inbound_receipt_from_purchase ''IR-1'' sample_purchase None sample_site)
       (\<lambda>(_, s). release_inbound_receipt 5 1 s) = Inr (x, released_site)"
    unfolding released_site_def by (rule stage_run) code_simp
  then obtain o1 s1 o2 where "create_inbound_receipt_from_purchase ''IR-1'' sample_purchase None sample_site = Inr (o1, s1)"
    "release_inbound_receipt 5 1 s1 = Inr (o2, released_site)" by (auto simp: res_simps)
  then show ?thesis by (meson announce_purchase release converse_rtranclp_into_rtranclp rtranclp.rtrancl_refl)
qed

lemma received_run:
  assumes "es \<in> {[two_boxes], [two_boxes, ten_pieces]}"
  shows "\<exists>out. submit_inbound_operation 6 ''IE-1'' ''T-1'' None None (sample_operation es) released_site
    = Inr (out, received_site es)"
proof -
  have "list_all (\<lambda>es. returns (submit_inbound_operation 6 ''IE-1'' ''T-1'' None None (sample_operation es) released_site)
    (\<lambda>_. True)) [[two_boxes], [two_boxes, ten_pieces]]" by code_simp
  with assms show ?thesis unfolding received_site_def by (intro stage_run) auto
qed

lemma received_values:
  "map rh_status (s_receipts (received_site [two_boxes])) = [''RELEASED''] \<and>
   received_qty_base (received_site [two_boxes]) ''IR-1'' 1 = 20"
  "map rh_status (s_receipts (received_site [two_boxes, ten_pieces])) = [''COMPLETED''] \<and>
   received_qty_base (received_site [two_boxes, ten_pieces]) ''IR-1'' 1 = 30"
  by code_simp+

lemma sample_site_inv: "warehouse_inv (s_core sample_site)" "count_inv (s_core sample_site)" "receipts_inv sample_site"
proof -
  have "lots_inv (s_core sample_site)" by (rule lots_invI) (simp_all add: sample_site_def sample_db_def)
  moreover have "events_inv (s_core sample_site)" by (simp add: events_inv_def sample_site_def sample_db_def)
  ultimately show "warehouse_inv (s_core sample_site)"
    using empty_books [of "s_core sample_site"] by (simp add: warehouse_inv_def sample_site_def sample_db_def)
  show "count_inv (s_core sample_site)"
    by (simp add: sample_site_def sample_db_def count_inv_def count_docs_inv_def count_lines_inv_def
        count_snapshots_inv_def counted_inv_def)
  show "receipts_inv sample_site" by (simp add: receipts_inv_def sample_site_def)
qed

section \<open>Properties\<close>

text \<open>
  C21. Receiving never goes past the plan: in every state the site reaches, through any sequence of
  announcements, releases, operations and other movements of the warehouse, each line of an
  inbound receipt has received between nothing and what was planned, a receipt is \<open>COMPLETED\<close> exactly
  when every line has received its plan, a purchase order has at most one receipt that is not voided,
  and every balance is the sum of its ledger rows and not negative.
\<close>

theorem receipts_never_over_received:
  assumes "site_step\<^sup>*\<^sup>* s s'" and "warehouse_inv (s_core s)" and "count_inv (s_core s)" and "receipts_inv s"
  shows "(\<forall>h \<in> set (s_receipts s'). (rh_status h = ''COMPLETED'' \<longleftrightarrow> fully_received s' h) \<and>
       (\<forall>l \<in> set (task_lines_of s' (rh_id h)).
          0 \<le> received_qty_base s' (rh_receipt_no h) (rn_line_no l) \<and>
          received_qty_base s' (rh_receipt_no h) (rn_line_no l) \<le> planned_qty_base l)) \<and>
     distinct (map rh_source_doc_id (filter open_for_purchase (s_receipts s'))) \<and>
     (\<forall>q. slot_qty (s_core s') q = ledger_sum (t_ledger (s_core s')) q \<and> 0 \<le> slot_qty (s_core s') q)"
proof -
  from site_run [OF assms] have inv: "receipts_inv s'" and book: "book_inv (s_core s')"
    by (auto simp: warehouse_inv_def)
  have "0 \<le> received_qty_base s' rno n" for rno n
    unfolding received_qty_base_def
    by (rule sum_where_nonneg) (use receipts_invD(11) [OF inv] in \<open>auto intro: less_imp_le\<close>)
  then show ?thesis
    using receipts_invD(12) [OF inv] receipts_invD(4) [OF inv] slot_qty_ledger [OF book] slot_qty_nonneg [OF book]
    unfolding receipt_ok_def by blast
qed

lemma receipts_never_over_received_witness:
  "site_step\<^sup>*\<^sup>* sample_site (received_site [two_boxes]) \<and>
   (\<exists>h l. s_receipts (received_site [two_boxes]) = [h] \<and> task_lines_of (received_site [two_boxes]) (rh_id h) = [l] \<and>
      rh_status h = ''RELEASED'' \<and> planned_qty_base l = 30 \<and>
      received_qty_base (received_site [two_boxes]) (rh_receipt_no h) (rn_line_no l) \<in> {0..30})"
proof -
  let ?s = "received_site [two_boxes]"
  obtain out where "submit_inbound_operation 6 ''IE-1'' ''T-1'' None None (sample_operation [two_boxes]) released_site
      = Inr (out, ?s)" using received_run [of "[two_boxes]"] by auto
  then have run: "site_step\<^sup>*\<^sup>* sample_site ?s" by (rule rtranclp.rtrancl_into_rtrancl [OF released_run operate])
  have "map rh_status (s_receipts ?s) = [''RELEASED''] \<and>
      concat (map (\<lambda>h. map planned_qty_base (task_lines_of ?s (rh_id h))) (s_receipts ?s)) = [30]" by code_simp
  then obtain h l where hl: "s_receipts ?s = [h]" "rh_status h = ''RELEASED''"
      "task_lines_of ?s (rh_id h) = [l]" "planned_qty_base l = 30"
    by (auto simp: map_eq_Cons_conv)
  with receipts_never_over_received [OF run sample_site_inv] run show ?thesis by simp
qed

section \<open>Entries and what is recorded of them\<close>

text \<open>The entries of a submission with the numbers of their lines, in their order.\<close>

definition payload_entries :: "operation_submit_in \<Rightarrow> (int \<times> operation_entry_in) list" where
  "payload_entries p = concat (map (\<lambda>li. map (Pair (oi_receipt_line_no li)) (oi_entries li)) (os_op_lines p))"

text \<open>
  The unit an entry is counted in, as the tables have it: the unit of a barcode of the item, the
  unit of the item the entry names, or the unit and ratio of the receipt line.
\<close>

definition counted_in :: "db \<Rightarrow> inbound_receipt_line \<Rightarrow> operation_entry_in \<Rightarrow> int \<Rightarrow> int \<Rightarrow> bool" where
  "counted_in d tk e u ratio \<longleftrightarrow>
     (case strip_or_none (oe_barcode_input e) of
        None \<Rightarrow> (case oe_actual_item_uom_id e of
            None \<Rightarrow> u = rn_item_uom_id tk \<and> ratio = rn_ratio_to_base_snapshot tk
          | Some n \<Rightarrow> u = n \<and> (\<exists>x \<in> set (t_item_uoms d).
              uo_id x = n \<and> uo_item_id x = rn_item_id tk \<and> uo_ratio_to_base x = ratio))
      | Some code \<Rightarrow> oe_actual_item_uom_id e \<in> {None, Some u} \<and>
          (\<exists>x \<in> set (t_item_uoms d). uo_id x = u \<and> uo_item_id x = rn_item_id tk \<and> uo_ratio_to_base x = ratio \<and>
             (\<exists>b \<in> set (t_item_barcodes d). bc_barcode b = code \<and> bc_active b \<and> bc_item_id b = rn_item_id tk \<and>
                bc_item_uom_id b = u)))"

definition entry_recorded :: "db \<Rightarrow> inbound_receipt_line list \<Rightarrow> int \<times> operation_entry_in \<Rightarrow> inbound_operation_line \<Rightarrow> bool" where
  "entry_recorded d tls ne l \<longleftrightarrow> (\<exists>tk \<in> set tls.
     rn_line_no tk = fst ne \<and> oq_receipt_line_no_snapshot l = fst ne \<and> oq_item_id l = rn_item_id tk \<and>
     counted_in d tk (snd ne) (oq_actual_item_uom_id l) (oq_actual_ratio_to_base_snapshot l) \<and>
     oq_actual_qty_input l = oe_qty_inbound (snd ne) \<and>
     oq_qty_base l = oe_qty_inbound (snd ne) * oq_actual_ratio_to_base_snapshot l \<and>
     oq_batch_no l = oe_batch_no (snd ne) \<and> oq_production_date l = oe_production_date (snd ne) \<and>
     oq_expiry_date l = oe_expiry_date (snd ne))"

definition unit_tables :: "db \<Rightarrow> _" where
  "unit_tables d = (t_item_uoms d, t_item_barcodes d)"

lemma mapE_list_all2_inv:
  "mapE f xs s = Inr (ys, s') \<Longrightarrow> P s \<Longrightarrow>
   (\<And>x s y s'. x \<in> set xs \<Longrightarrow> P s \<Longrightarrow> f x s = Inr (y, s') \<Longrightarrow> Q x y \<and> P s') \<Longrightarrow> list_all2 Q xs ys \<and> P s'"
proof (induction xs arbitrary: s ys)
  case (Cons x xs)
  from Cons.prems(1) obtain y t ys' where
    t: "f x s = Inr (y, t)" "mapE f xs t = Inr (ys', s')" "ys = y # ys'"
    by (auto simp: res_simps simp del: mapE.simps)
  have "Q x y \<and> P t" using Cons.prems(3) [OF _ Cons.prems(2) t(1)] by simp
  with Cons.IH [OF t(2)] Cons.prems(3) t(3) show ?case by auto
qed simp

lemma resolve_entry_unit_counted:
  assumes "resolve_entry_unit d tk e = Inr (u, name, ratio)"
  shows "counted_in d tk e u ratio"
proof (cases "strip_or_none (oe_barcode_input e)")
  case None
  with assms show ?thesis
    by (auto simp: resolve_entry_unit_def counted_in_def load_item_uom_snapshot_def find_item_uom_def
      split: option.splits dest!: find_SomeD)
next
  case (Some code)
  with assms obtain b x where m: "(b, x) \<in> set (item_barcode_units d (rn_item_id tk) (py_strip code))"
    "u = uo_id x" "ratio = uo_ratio_to_base x" "oe_actual_item_uom_id e \<in> {None, Some u}"
    by (auto simp: resolve_entry_unit_def resolve_barcode_uom_snapshot_def res_simps Let_def
      split: option.splits list.splits if_splits dest!: find_SomeD)
  have "py_strip code = code" using Some by (auto simp: strip_or_none_def Let_def split: option.splits if_splits)
  with m Some show ?thesis by (fastforce simp: counted_in_def item_barcode_units_def barcode_matches_def)
qed

lemma receive_entry_recorded:
  assumes run: "receive_entry c tk pol e r = Inr (l, r')" and tk: "tk \<in> set (ox_task_lines c)"
    and d: "unit_tables (s_core (rr_site r)) = unit_tables d"
  shows "entry_recorded d (ox_task_lines c) (rn_line_no tk, e) l \<and> unit_tables (s_core (rr_site r')) = unit_tables d"
proof -
  obtain unit lid d1 oid xid d3 d4 where
    grow: "lots_grow (s_core (rr_site r)) d1" and
    il: "insert_inbound_line (operation_event_line c tk e (rr_line_no r + 1) l) d1 = Inr (xid, d3)" and
    bk: "book_receipt (rh_warehouse_id (ox_task c)) (rn_item_id tk) lid (oq_qty_base l) (ox_operated_at c)
       (ox_event_no c) (rr_line_no r + 1) (ox_trace_id c) (ox_event_id c) (oe_production_date e)
       (oe_expiry_date e) d3 = Inr ((), d4)" and
    r': "rr_site r' = (rr_site r)\<lparr>s_next_id := (s_next_id (rr_site r))(WMS_INBOUND_OPERATION_LINES := oid + 1),
       s_operation_lines := s_operation_lines (rr_site r) @ [l], s_core := d4\<rparr>"
    by (rule receive_entry_Inr [OF run])
  from book_receipt_Inr [OF bk] have rest: "rest_of d4 = rest_of d3" by blast
  have tables: "unit_tables (s_core (rr_site r')) = unit_tables d"
    using d by (simp add: unit_tables_def r' rest_ofD [OF rest] insert_inbound_line_Inr(1) [OF il] lots_grow_frame [OF grow])
  from run obtain u name ratio lid2 oid2 where unit: "resolve_entry_unit (s_core (rr_site r)) tk e = Inr (u, name, ratio)"
    and l: "l = (operation_line_of c tk e (u, name, ratio) lid2)\<lparr>oq_id := oid2\<rparr>"
    by (auto simp: receive_entry_def Let_def res_simps)
  have "counted_in d tk e u ratio"
    using resolve_entry_unit_counted [OF unit] d
    by (simp add: counted_in_def unit_tables_def cong: option.case_cong)
  with tk have "entry_recorded d (ox_task_lines c) (rn_line_no tk, e) l"
    by (auto simp: entry_recorded_def l operation_line_of_def intro!: bexI [of _ tk])
  with tables show ?thesis by blast
qed

lemma receive_line_recorded:
  assumes run: "receive_line c li r = Inr (ls, r')" and d: "unit_tables (s_core (rr_site r)) = unit_tables d"
  shows "list_all2 (entry_recorded d (ox_task_lines c)) (map (Pair (oi_receipt_line_no li)) (oi_entries li)) ls \<and>
    unit_tables (s_core (rr_site r')) = unit_tables d"
proof -
  from run obtain tk pol where
    tk: "find (\<lambda>l. rn_line_no l = oi_receipt_line_no li) (ox_task_lines c) = Some tk" and
    m: "mapE (receive_entry c tk pol) (oi_entries li) r = Inr (ls, r')"
    by (auto simp: receive_line_def res_simps)
  from find_SomeD [OF tk] have "tk \<in> set (ox_task_lines c)" "rn_line_no tk = oi_receipt_line_no li" by simp_all
  with mapE_list_all2_inv [OF m, of "\<lambda>r. unit_tables (s_core (rr_site r)) = unit_tables d"
      "\<lambda>e. entry_recorded d (ox_task_lines c) (oi_receipt_line_no li, e)"] d receive_entry_recorded
  show ?thesis by (simp add: list_all2_map1) (metis (no_types, lifting))
qed

lemma list_all2_concat:
  "list_all2 (\<lambda>x ys. list_all2 Q (f x) ys) xs yss \<Longrightarrow> list_all2 Q (concat (map f xs)) (concat yss)"
  by (induction rule: list_all2_induct) (auto intro: list_all2_appendI)

lemma submit_inbound_operation_recorded:
  assumes "submit_inbound_operation now eno tr u un p s = Inr (out, s')"
    and "find (\<lambda>h. rh_receipt_no h = os_receipt_no p) (s_receipts s) = Some task"
  shows "list_all2 (entry_recorded (s_core s) (task_lines_of s (rh_id task))) (payload_entries p) (oo_lines out)"
proof -
  from assms obtain tls s1 n d2 outs r' c where
    tls: "load_task_lines s (rh_id task) = Inr tls" and
    op: "insert_operation (operation_header now u un p task) s = Inr (oo_id out, s1)" and
    ev: "insert_event (operation_event now u eno tr p task) (s_core s1) = Inr (n, d2)" and
    run: "mapE (receive_line c) (os_op_lines p)
      \<lparr>rr_site = s1\<lparr>s_core := d2\<rparr>, rr_line_no = 0, rr_progress = received_qty_base s (rh_receipt_no task)\<rparr>
      = Inr (outs, r')" and c: "ox_task_lines c = tls" and out: "oo_lines out = concat outs"
    by (auto simp: submit_inbound_operation_def Let_def res_simps)
  have "unit_tables d2 = unit_tables (s_core s)"
    by (simp add: unit_tables_def insert_event_Inr(2) [OF ev] insert_operation_Inr [OF op])
  then have "list_all2 (\<lambda>li ls. list_all2 (entry_recorded (s_core s) tls) (map (Pair (oi_receipt_line_no li)) (oi_entries li)) ls)
      (os_op_lines p) outs"
    using mapE_list_all2_inv [OF run, of "\<lambda>r. unit_tables (s_core (rr_site r)) = unit_tables (s_core s)"
      "\<lambda>li. list_all2 (entry_recorded (s_core s) tls) (map (Pair (oi_receipt_line_no li)) (oi_entries li))"]
      receive_line_recorded [of c, unfolded c] by simp
  from list_all2_concat [OF this] show ?thesis by (simp add: payload_entries_def out load_task_lines_Inr [OF tls])
qed

section \<open>Properties of operations\<close>

text \<open>
  C22. What an operation books: a submission that returns records every entry of the payload, in
  order, as one operation line: of the receipt line it names, in the unit it was scanned or named
  in, with the counted quantity and the counted quantity times the ratio of that unit in base
  units, with its batch and dates. It adds these lines, one inbound event, and for each line one
  \<open>RECEIPT\<close> row of that event in the slot of the receipt's warehouse, the item and the lot of the line
  with its base quantity, which is positive; the balance of every slot grows by exactly that, and
  the books and the event tables stay consistent.
\<close>

theorem operation_books:
  assumes "warehouse_inv (s_core s)" and "submit_inbound_operation now eno tr u un p s = Inr (out, s')"
  shows "warehouse_inv (s_core s') \<and> s_operation_lines s' = s_operation_lines s @ oo_lines out \<and>
    (\<exists>task rows. task \<in> set (s_receipts s) \<and> rh_receipt_no task = os_receipt_no p \<and>
       list_all2 (entry_recorded (s_core s) (task_lines_of s (rh_id task))) (payload_entries p) (oo_lines out) \<and>
       t_ledger (s_core s') = t_ledger (s_core s) @ rows \<and>
       list_all2 (\<lambda>l r. ledger_slot r = (rh_warehouse_id task, oq_item_id l, the (oq_lot_id l)) \<and>
         lg_delta r = oq_qty_base l) (oo_lines out) rows \<and>
       (\<forall>r \<in> set rows. lg_reason r = ''RECEIPT'' \<and> lg_ref r = eno \<and> lg_event_id r = Some (oo_event out)) \<and>
       (\<forall>l \<in> set (oo_lines out). 0 < oq_qty_base l) \<and>
       (\<forall>q. slot_qty (s_core s') q = slot_qty (s_core s) q + (\<Sum>l \<leftarrow> oo_lines out.
          if (rh_warehouse_id task, oq_item_id l, the (oq_lot_id l)) = q then oq_qty_base l else 0)))"
proof -
  from submit_inbound_operation_Inr [OF assms(2)] obtain task c es where
    *: "find (\<lambda>h. rh_receipt_no h = os_receipt_no p) (s_receipts s) = Some task" "ox_task c = task"
      "ox_event_id c = oo_event out" "ox_event_no c = eno" "map fst es = oo_lines out"
      "\<forall>e \<in> set es. received_ok c e" "s_operation_lines s' = s_operation_lines s @ oo_lines out" and
    books: "warehouse_inv (s_core s) \<longrightarrow> warehouse_inv (s_core s') \<and>
       t_ledger (s_core s') = t_ledger (s_core s) @ map (\<lambda>(_, _, row). row) es \<and>
       t_inbound_lines (s_core s') = t_inbound_lines (s_core s) @ map (\<lambda>(_, x, _). x) es" by metis
  let ?rows = "map (\<lambda>(_, _, row). row) es"
  have w': "warehouse_inv (s_core s')" and led: "t_ledger (s_core s') = t_ledger (s_core s) @ ?rows"
    using books assms(1) by auto
  have rows: "lg_reason r = ''RECEIPT'' \<and> lg_ref r = eno \<and> lg_event_id r = Some (oo_event out)" if "r \<in> set ?rows" for r
    using that *(3,4,6) by (auto simp: received_ok_def books_inbound_line_def)
  have pos: "0 < oq_qty_base l" if "l \<in> set (oo_lines out)" for l
    using that *(6) unfolding *(5) [symmetric] by (auto simp: received_ok_def)
  have slots: "ledger_slot r = (rh_warehouse_id task, oq_item_id l, the (oq_lot_id l)) \<and> lg_delta r = oq_qty_base l"
    if "(l, x, r) \<in> set es" for l x r
    using bspec [OF *(6) that] *(2) by (auto simp: received_ok_def books_inbound_line_def) (metis option.sel)+
  then have pairs: "list_all2 (\<lambda>l p. ledger_slot (snd p) = (rh_warehouse_id task, oq_item_id l, the (oq_lot_id l)) \<and>
      lg_delta (snd p) = oq_qty_base l) (map fst es) (map snd es)"
    by (auto simp: list_all2_conv_all_nth) (metis nth_mem prod.collapse)+
  from ledger_sum_pairs [OF pairs] have "ledger_sum ?rows q = (\<Sum>l \<leftarrow> oo_lines out.
      if (rh_warehouse_id task, oq_item_id l, the (oq_lot_id l)) = q then oq_qty_base l else 0)" for q
    unfolding *(5) map_map comp_def by (simp add: case_prod_beta')
  then have "slot_qty (s_core s') q = slot_qty (s_core s) q + (\<Sum>l \<leftarrow> oo_lines out.
      if (rh_warehouse_id task, oq_item_id l, the (oq_lot_id l)) = q then oq_qty_base l else 0)" for q
    using slot_qty_ledger [OF warehouse_invD(2) [OF w']] slot_qty_ledger [OF warehouse_invD(2) [OF assms(1)]]
    by (simp add: led ledger_sum_def)
  moreover have "list_all2 (\<lambda>l r. ledger_slot r = (rh_warehouse_id task, oq_item_id l, the (oq_lot_id l)) \<and>
      lg_delta r = oq_qty_base l) (oo_lines out) ?rows"
    using pairs unfolding *(5) [symmetric] by (simp add: list_all2_map1 list_all2_map2 case_prod_beta')
  moreover note submit_inbound_operation_recorded [OF assms(2) *(1)]
  ultimately show ?thesis using w' led rows pos *(7) find_SomeD [OF *(1)] by blast
qed

lemma operation_books_witness:
  "\<exists>out s'. submit_inbound_operation 6 ''IE-1'' ''T-1'' None None (sample_operation [two_boxes, ten_pieces]) released_site
      = Inr (out, s') \<and> warehouse_inv (s_core s') \<and> s_operation_lines s' = s_operation_lines released_site @ oo_lines out"
proof -
  obtain out where r: "submit_inbound_operation 6 ''IE-1'' ''T-1'' None None (sample_operation [two_boxes, ten_pieces])
      released_site = Inr (out, received_site [two_boxes, ten_pieces])" using received_run by blast
  have "warehouse_inv (s_core released_site)" using site_run [OF released_run sample_site_inv] by blast
  from operation_books [OF this r] r show ?thesis by blast
qed

text \<open>
  Receiving against a purchase order leaves the order untouched: an operation writes event
  lines that name purchase order lines, but neither \<open>purchase_order_line_completion\<close> nor any
  purchase order changes. (The inbound commit applies the same lines to the completion.)
\<close>

theorem receiving_forgets_purchase:
  assumes "submit_inbound_operation now eno tr u un p s = Inr (out, s')"
  shows "t_completion (s_core s') = t_completion (s_core s) \<and> t_purchase_orders (s_core s') = t_purchase_orders (s_core s)"
  using submit_inbound_operation_Inr [OF assms] by metis

lemma receiving_forgets_purchase_witness:
  "\<exists>s' :: site. map rh_status (s_receipts s') = [''COMPLETED''] \<and> map il_po_line_id (t_inbound_lines (s_core s')) = [Some 400, Some 400] \<and>
     t_completion (s_core s') = t_completion (s_core released_site)"
proof -
  let ?s = "received_site [two_boxes, ten_pieces]"
  obtain out where r: "submit_inbound_operation 6 ''IE-1'' ''T-1'' None None (sample_operation [two_boxes, ten_pieces])
      released_site = Inr (out, ?s)" using received_run by blast
  have "map il_po_line_id (t_inbound_lines (s_core ?s)) = [Some 400, Some 400]" by code_simp
  with receiving_forgets_purchase [OF r] received_values(2) show ?thesis by (intro exI [of _ ?s]) simp
qed

end
