(* ===== verification/Purchasing.thy ===== *)
theory Purchasing
  imports ReceivingRuns
begin

text \<open>
  Purchase orders, \<open>app/procurement/\<close>: \<open>create_po_v2\<close> and \<open>update_po_v2\<close> with the normalisation of
  their lines, the repositories that write the heads, the lines and the completion rows, the
  routes of \<open>purchase_orders_routes_core.py\<close>, and the detail of the completion page. A
  \<open>Decimal\<close> is a coefficient with a number of decimal places; its arithmetic is exact here (the
  28 significant digits of Python's context are not modelled), and a \<open>NUMERIC(n, 2)\<close> column holds
  hundredths. The keys that only older callers used for the quantity and the unit of a line
  (\<open>qty\<close>, \<open>qty_ordered\<close>, \<open>purchase_uom_id\<close>) are not modelled, nor the list pages and reports.
\<close>

section \<open>Amounts\<close>

datatype decimal = Decimal (coefficient: int) (places: nat)

definition dec_times :: "decimal \<Rightarrow> int \<Rightarrow> decimal" where
  "dec_times x q = Decimal (coefficient x * q) (places x)"

definition dec_plus :: "decimal \<Rightarrow> decimal \<Rightarrow> decimal" where
  "dec_plus x y =
     (let m = max (places x) (places y) in
      Decimal (coefficient x * 10 ^ (m - places x) + coefficient y * 10 ^ (m - places y)) m)"

text \<open>Storing in a column of two decimal places rounds, ties away from zero.\<close>

definition to_cents :: "decimal \<Rightarrow> int" where
  "to_cents x =
     (let p = 10 ^ places x; c = coefficient x
      in sgn c * ((200 * \<bar>c\<bar> + p) div (2 * p)))"

definition numeric :: "nat \<Rightarrow> int \<Rightarrow> bool" where
  "numeric digits cents \<longleftrightarrow> \<bar>cents\<bar> < 10 ^ digits"

section \<open>Contracts\<close>

record purchase_line_in =
  pli_line_no :: "int option"
  pli_item_id :: int
  pli_uom_id :: "int option"
  pli_qty_input :: "int option"
  pli_supply_price :: "decimal option"
  pli_spec_text :: "string option"
  pli_remark :: "string option"

record purchase_in =
  pin_supplier_id :: int
  pin_warehouse_id :: int
  pin_purchaser :: string
  pin_purchase_time :: int
  pin_remark :: "string option"
  pin_lines :: "purchase_line_in list"

definition purchase_line_in_valid :: "purchase_line_in \<Rightarrow> bool" where
  "purchase_line_in_valid l \<longleftrightarrow>
     (case pli_line_no l of None \<Rightarrow> False | Some n \<Rightarrow> 0 < n) \<and> 0 < pli_item_id l \<and>
     (case pli_uom_id l of None \<Rightarrow> False | Some n \<Rightarrow> 0 < n) \<and>
     (case pli_qty_input l of None \<Rightarrow> False | Some n \<Rightarrow> 0 < n) \<and>
     (case pli_supply_price l of None \<Rightarrow> True | Some x \<Rightarrow> 0 \<le> coefficient x) \<and> pli_spec_text l = None"

definition purchase_in_valid :: "purchase_in \<Rightarrow> bool" where
  "purchase_in_valid p \<longleftrightarrow> 0 < pin_supplier_id p \<and> 0 < pin_warehouse_id p \<and>
     py_strip (pin_purchaser p) \<noteq> [] \<and> pin_lines p \<noteq> [] \<and> list_all purchase_line_in_valid (pin_lines p)"

section \<open>Master data through PMS\<close>

definition require_supplier_snapshot_via_pms :: "site \<Rightarrow> int \<Rightarrow> (int \<times> string) result" where
  "require_supplier_snapshot_via_pms s sid =
     (if sid \<le> 0 then Inl (ValueError ''supplier_id invalid'')
      else case find (\<lambda>x. su_id x = sid) (s_suppliers s) of
        None \<Rightarrow> Inl (ValueError ''supplier_id not found'')
      | Some x \<Rightarrow> if \<not> su_active x then Inl (ValueError ''supplier_id inactive'')
                  else Inr (su_id x, py_strip (su_name x)))"

section \<open>purchase\_order\_create\_repo.py: units\<close>

definition require_item_uom_ratio_to_base :: "db \<Rightarrow> int \<Rightarrow> int \<Rightarrow> (int \<times> string) result" where
  "require_item_uom_ratio_to_base d i u =
     (case find_item_uom d i u of
        None \<Rightarrow> Inl (ValueError ''uom_id not found or not of this item'')
      | Some x \<Rightarrow>
          if uo_ratio_to_base x \<le> 0 then Inl (ValueError ''item_uoms.ratio_to_base must be >= 1'')
          else if py_strip (uom_name x) = [] then Inl (ValueError ''item_uoms.display_name/uom is empty'')
          else Inr (uo_ratio_to_base x, py_strip (uom_name x)))"

definition first_uom :: "item_uom list \<Rightarrow> item_uom option" where
  "first_uom us = (case sort_key uo_id us of [] \<Rightarrow> None | u # _ \<Rightarrow> Some u)"

definition pick_default_purchase_uom :: "db \<Rightarrow> int \<Rightarrow> (int \<times> int \<times> string) result" where
  "pick_default_purchase_uom d i =
     (let out = (\<lambda>u. Inr (uo_id u, uo_ratio_to_base u, py_strip (uom_name u)));
          us = filter (\<lambda>u. uo_item_id u = i) (t_item_uoms d) in
      case find uo_is_purchase_default us of Some u \<Rightarrow> out u | None \<Rightarrow>
      (case find uo_is_base us of Some u \<Rightarrow> out u | None \<Rightarrow>
      (case first_uom us of Some u \<Rightarrow> out u | None \<Rightarrow> Inl (ValueError ''item has no item_uoms''))))"

section \<open>Normalising the lines\<close>

record norm_purchase_line =
  npl_line_no :: int
  npl_item_id :: int
  npl_item_name :: string
  npl_item_sku :: string
  npl_spec_text :: "string option"
  npl_uom_id :: int
  npl_uom_name :: string
  npl_ratio :: int
  npl_qty_input :: int
  npl_qty_base :: int
  npl_price :: "decimal option"
  npl_remark :: "string option"

definition line_no_or :: "int \<Rightarrow> int option \<Rightarrow> int" where
  "line_no_or idx v = (case v of None \<Rightarrow> idx | Some n \<Rightarrow> if n = 0 then idx else n)"

definition line_amount :: "norm_purchase_line \<Rightarrow> decimal" where
  "line_amount l = (case npl_price l of None \<Rightarrow> Decimal 0 0 | Some x \<Rightarrow> dec_times x (npl_qty_base l))"

text \<open>The body both services share after the line number.\<close>

definition norm_line_body ::
  "db \<Rightarrow> int \<Rightarrow> item_basic list \<Rightarrow> int \<Rightarrow> purchase_line_in \<Rightarrow> norm_purchase_line result" where
  "norm_line_body d sid items_map line_no raw =
     bindE (of_option (LookupError ''qty_input'') (pli_qty_input raw)) (\<lambda>qty_input.
     bindE (of_option (ValueError ''item not found'') (find (\<lambda>b. ib_id b = pli_item_id raw) items_map)) (\<lambda>it.
     if (case ib_supplier_id it of None \<Rightarrow> False | Some x \<Rightarrow> x \<noteq> 0 \<and> x \<noteq> sid)
     then Inl (ValueError ''item does not belong to this supplier'')
     else
       bindE (case pli_uom_id raw of
                None \<Rightarrow> pick_default_purchase_uom d (pli_item_id raw)
              | Some u \<Rightarrow> bindE (require_item_uom_ratio_to_base d (pli_item_id raw) u) (\<lambda>(r, name).
                  Inr (u, r, name))) (\<lambda>(uom_id, ratio, uom_name).
       if qty_input * ratio \<le> 0 then Inl (ValueError ''qty_ordered_base must be > 0'')
       else Inr
         \<lparr>npl_line_no = line_no, npl_item_id = pli_item_id raw, npl_item_name = ib_name it,
          npl_item_sku = ib_sku it, npl_spec_text = pli_spec_text raw, npl_uom_id = uom_id,
          npl_uom_name = uom_name, npl_ratio = ratio, npl_qty_input = qty_input,
          npl_qty_base = qty_input * ratio, npl_price = pli_supply_price raw,
          npl_remark = strip_or_none (pli_remark raw)\<rparr>)))"

text \<open>\<open>create_po_v2\<close>'s loop takes the numbers as they come.\<close>

definition norm_line_create ::
  "db \<Rightarrow> int \<Rightarrow> item_basic list \<Rightarrow> int \<times> purchase_line_in \<Rightarrow> decimal \<Rightarrow>
   (norm_purchase_line \<times> decimal) result" where
  "norm_line_create d sid items_map ir amount =
     (case ir of (idx, raw) \<Rightarrow>
      bindE (norm_line_body d sid items_map (line_no_or idx (pli_line_no raw)) raw) (\<lambda>l.
      Inr (l, dec_plus amount (line_amount l))))"

text \<open>\<open>_normalize_update_payload\<close>'s loop checks them; its state is the seen numbers and the total.\<close>

definition norm_line_update ::
  "db \<Rightarrow> int \<Rightarrow> item_basic list \<Rightarrow> int \<times> purchase_line_in \<Rightarrow> int list \<times> decimal \<Rightarrow>
   (norm_purchase_line \<times> int list \<times> decimal) result" where
  "norm_line_update d sid items_map ir st =
     (case ir of (idx, raw) \<Rightarrow> case st of (seen, amount) \<Rightarrow>
      let line_no = line_no_or idx (pli_line_no raw) in
      if line_no \<le> 0 then Inl (ValueError ''line_no must be > 0'')
      else if line_no \<in> set seen then Inl (ValueError ''duplicate line_no'')
      else bindE (norm_line_body d sid items_map line_no raw) (\<lambda>l.
        Inr (l, seen @ [line_no], dec_plus amount (line_amount l))))"

section \<open>Writing heads and lines\<close>

definition purchase_line_of :: "int \<Rightarrow> norm_purchase_line \<Rightarrow> purchase_order_line" where
  "purchase_line_of po l =
     \<lparr>pl_id = 0, pl_po_id = po, pl_line_no = npl_line_no l, pl_item_id = npl_item_id l,
      pl_item_name = Some (npl_item_name l), pl_item_sku = Some (npl_item_sku l),
      pl_spec_text = npl_spec_text l, pl_purchase_uom_id_snapshot = npl_uom_id l,
      pl_purchase_uom_name_snapshot = npl_uom_name l,
      pl_purchase_ratio_to_base_snapshot = npl_ratio l, pl_qty_ordered_input = npl_qty_input l,
      pl_qty_ordered_base = npl_qty_base l, pl_supply_price = map_option to_cents (npl_price l),
      pl_remark = npl_remark l\<rparr>"

definition insert_purchase_line :: "int \<Rightarrow> norm_purchase_line \<Rightarrow> db \<Rightarrow> db result" where
  "insert_purchase_line po nl d =
     (let (nid, d1) = next_id PURCHASE_ORDER_LINES d; l = purchase_line_of po nl in
      if \<not> (int4 (pl_line_no l) \<and> int4 (pl_qty_ordered_input l) \<and> int4 (pl_qty_ordered_base l) \<and>
             int4 (pl_purchase_ratio_to_base_snapshot l))
      then Inl (DataError ''integer out of range'')
      else if (case pl_supply_price l of None \<Rightarrow> False | Some c \<Rightarrow> \<not> numeric 12 c)
      then Inl (DataError ''numeric field overflow'')
      else if pl_qty_ordered_base l \<le> 0
      then Inl (IntegrityError ''ck_po_lines_qty_ordered_base_positive'')
      else if (po, pl_line_no l) \<in> (\<lambda>x. (pl_po_id x, pl_line_no x)) ` set (t_purchase_lines d)
      then Inl (IntegrityError ''uq_purchase_order_lines_po_id_line_no'')
      else if po \<notin> po_id ` set (t_purchase_orders d) \<or> pl_item_id l \<notin> it_id ` set (t_items d) \<or>
        pl_purchase_uom_id_snapshot l \<notin> uo_id ` set (t_item_uoms d)
      then Inl (IntegrityError ''purchase_order_lines foreign key'')
      else Inr (d1\<lparr>t_purchase_lines := t_purchase_lines d1 @ [l\<lparr>pl_id := nid\<rparr>]\<rparr>))"

definition reserve_purchase_order_id :: "int tx" where
  "reserve_purchase_order_id d = Inr (next_id PURCHASE_ORDERS d)"

definition build_po_no :: "int \<Rightarrow> string" where
  "build_po_no n = ''PO-'' @ int_text n"

definition insert_purchase_order_head :: "purchase_order \<Rightarrow> site \<Rightarrow> db \<Rightarrow> db result" where
  "insert_purchase_order_head po s d =
     (if \<not> numeric 14 (case po_total_amount po of None \<Rightarrow> 0 | Some c \<Rightarrow> c)
      then Inl (DataError ''numeric field overflow'')
      else if po_id po \<in> po_id ` set (t_purchase_orders d) \<or> po_no po \<in> po_no ` set (t_purchase_orders d)
      then Inl (IntegrityError ''purchase_orders unique constraint'')
      else if po_supplier_id po \<notin> su_id ` set (s_suppliers s)
      then Inl (IntegrityError ''purchase_orders foreign key'')
      else Inr (d\<lparr>t_purchase_orders := t_purchase_orders d @ [po]\<rparr>))"

section \<open>purchase\_order\_line\_completion\_repo.py\<close>

definition planned_line_amount :: "purchase_order_line \<Rightarrow> int" where
  "planned_line_amount l = (case pl_supply_price l of None \<Rightarrow> 0 | Some c \<Rightarrow> c) * pl_qty_ordered_base l"

text \<open>The row the \<open>SELECT\<close> makes of an order line, its order and its unit (\<open>COALESCE(display_name, uom)\<close>).\<close>

definition completion_row :: "purchase_order \<Rightarrow> item_uom \<Rightarrow> purchase_order_line \<Rightarrow> po_completion" where
  "completion_row po u l =
     \<lparr>pc_po_line_id = pl_id l, pc_po_id = po_id po, pc_po_no = po_no po, pc_line_no = pl_line_no l,
      pc_warehouse_id = po_warehouse_id po, pc_supplier_id = po_supplier_id po,
      pc_supplier_name = po_supplier_name po, pc_purchaser = po_purchaser po,
      pc_purchase_time = po_purchase_time po, pc_item_id = pl_item_id l,
      pc_item_name = pl_item_name l, pc_item_sku = pl_item_sku l, pc_spec_text = pl_spec_text l,
      pc_purchase_uom_id_snapshot = pl_purchase_uom_id_snapshot l,
      pc_purchase_uom_name_snapshot = (case uo_display_name u of None \<Rightarrow> uo_uom u | Some x \<Rightarrow> x),
      pc_ratio_to_base_snapshot = pl_purchase_ratio_to_base_snapshot l,
      pc_qty_ordered_input = pl_qty_ordered_input l, pc_qty_ordered_base = pl_qty_ordered_base l,
      pc_supply_price_snapshot = pl_supply_price l, pc_planned_line_amount = planned_line_amount l,
      pc_qty_received_base = 0, pc_qty_remaining_base = pl_qty_ordered_base l,
      pc_line_completion_status = ''NOT_RECEIVED'', pc_last_received_at = None\<rparr>"

text \<open>\<open>ON CONFLICT (po_line_id) DO UPDATE\<close> keeps what has been received.\<close>

definition completion_merge :: "po_completion \<Rightarrow> po_completion \<Rightarrow> po_completion" where
  "completion_merge new old =
     new\<lparr>pc_qty_received_base := pc_qty_received_base old,
       pc_qty_remaining_base := max (pc_qty_ordered_base new - pc_qty_received_base old) 0,
       pc_line_completion_status :=
         completion_status_of (pc_qty_received_base old) (pc_qty_ordered_base new),
       pc_last_received_at := pc_last_received_at old\<rparr>"

definition upsert_completion_row :: "po_completion \<Rightarrow> db \<Rightarrow> db result" where
  "upsert_completion_row c d =
     (if \<not> numeric 14 (pc_planned_line_amount c) then Inl (DataError ''numeric field overflow'')
      else if \<not> completion_checks c
      then Inl (IntegrityError ''purchase_order_line_completion check constraint'')
      else if (pc_po_id c, pc_line_no c) \<in> (\<lambda>x. (pc_po_id x, pc_line_no x)) `
        set (filter (\<lambda>x. pc_po_line_id x \<noteq> pc_po_line_id c) (t_completion d))
      then Inl (IntegrityError ''uq_polc_po_line_no'')
      else case find (\<lambda>x. pc_po_line_id x = pc_po_line_id c) (t_completion d) of
        None \<Rightarrow> Inr (d\<lparr>t_completion := t_completion d @ [c]\<rparr>)
      | Some old \<Rightarrow>
          let new = completion_merge c old in
          if \<not> completion_checks new
          then Inl (IntegrityError ''purchase_order_line_completion check constraint'')
          else Inr (d\<lparr>t_completion :=
            update_where (\<lambda>x. pc_po_line_id x = pc_po_line_id c) (\<lambda>_. new) (t_completion d)\<rparr>))"

text \<open>One row for each line of the order whose order and unit the joins find.\<close>

definition completion_rows_of :: "db \<Rightarrow> int \<Rightarrow> po_completion list" where
  "completion_rows_of d n =
     List.map_filter (\<lambda>l.
       case (find (\<lambda>p. po_id p = pl_po_id l) (t_purchase_orders d),
             find (\<lambda>u. uo_id u = pl_purchase_uom_id_snapshot l) (t_item_uoms d)) of
         (Some po, Some u) \<Rightarrow> if po_id po = n then Some (completion_row po u l) else None
       | _ \<Rightarrow> None) (t_purchase_lines d)"

definition upsert_completion_rows_for_po :: "int \<Rightarrow> db \<Rightarrow> db result" where
  "upsert_completion_rows_for_po n d = foldE upsert_completion_row (completion_rows_of d n) d"

definition rebuild_completion_rows_for_po :: "int \<Rightarrow> db \<Rightarrow> db result" where
  "rebuild_completion_rows_for_po n d =
     upsert_completion_rows_for_po n (d\<lparr>t_completion := filter (\<lambda>c. pc_po_id c \<noteq> n) (t_completion d)\<rparr>)"

definition insert_purchase_order_lines :: "int \<Rightarrow> norm_purchase_line list \<Rightarrow> db \<Rightarrow> db result" where
  "insert_purchase_order_lines po ls d =
     bindE (foldE (insert_purchase_line po) ls d) (\<lambda>d1. upsert_completion_rows_for_po po d1)"

section \<open>purchase\_order\_create.py\<close>

definition create_po_v2 :: "purchase_in \<Rightarrow> purchase_order stx" where
  "create_po_v2 p s =
     (if pin_lines p = [] then Inl (ValueError ''create_po_v2 needs at least one line'')
      else if py_strip (pin_purchaser p) = [] then Inl (ValueError ''purchaser is empty'')
      else
        bindE (require_supplier_snapshot_via_pms s (pin_supplier_id p)) (\<lambda>(sid, sname).
        bindE (aget_basics_by_item_ids (s_core s) (map pli_item_id (pin_lines p))) (\<lambda>items_map.
        bindE (mapE (norm_line_create (s_core s) sid items_map) (number_lines (pin_lines p)) (Decimal 0 0))
          (\<lambda>(norm_lines, amount).
        bindE (reserve_purchase_order_id (s_core s)) (\<lambda>(n, d1).
        let po = \<lparr>po_id = n, po_no = build_po_no n, po_supplier_id = sid, po_supplier_name = sname,
              po_warehouse_id = pin_warehouse_id p, po_purchaser = py_strip (pin_purchaser p),
              po_purchase_time = pin_purchase_time p, po_total_amount = Some (to_cents amount),
              po_status = ''CREATED'', po_close_reason = None, po_close_note = None,
              po_remark = strip_or_none (pin_remark p), po_closed_at = None\<rparr> in
        bindE (insert_purchase_order_head po s d1) (\<lambda>d2.
        bindE (insert_purchase_order_lines n norm_lines d2) (\<lambda>d3.
        Inr (po, s\<lparr>s_core := d3\<rparr>))))))))"

section \<open>purchase\_order\_update\_repo.py and purchase\_order\_update.py\<close>

definition has_po_receipt_in_status :: "site \<Rightarrow> int \<Rightarrow> string \<Rightarrow> bool" where
  "has_po_receipt_in_status s n receipt_status =
     (let normalized = py_upper (py_strip receipt_status);
          st = (if normalized = ''CONFIRMED'' then ''RELEASED'' else normalized) in
      list_ex (\<lambda>h. rh_source_type h = ''PURCHASE_ORDER'' \<and> rh_source_doc_id h = Some n \<and> rh_status h = st)
        (s_receipts s))"

definition has_po_confirmed_receipt :: "site \<Rightarrow> int \<Rightarrow> bool" where
  "has_po_confirmed_receipt s n = has_po_receipt_in_status s n ''CONFIRMED''"

text \<open>The event of a receipt, and the order lines of an order.\<close>

definition receipt_event :: "wms_event \<Rightarrow> bool" where
  "receipt_event e \<longleftrightarrow> ev_event_type e = ''INBOUND'' \<and> ev_source_type e = ''PURCHASE_ORDER'' \<and>
     ev_event_kind e = ''COMMIT'' \<and> ev_status e = ''COMMITTED''"

definition has_po_committed_inbound_facts :: "db \<Rightarrow> int \<Rightarrow> bool" where
  "has_po_committed_inbound_facts d n =
     list_ex (\<lambda>pol. pl_po_id pol = n \<and>
       list_ex (\<lambda>iel. il_po_line_id iel = Some (pl_id pol) \<and>
         list_ex (\<lambda>we. ev_id we = il_event_id iel \<and> receipt_event we) (t_events d)) (t_inbound_lines d))
       (t_purchase_lines d)"

definition require_po_editable :: "site \<Rightarrow> purchase_order \<Rightarrow> unit result" where
  "require_po_editable s po =
     (if py_upper (po_status po) \<noteq> ''CREATED'' then Inl (HTTPException 409 ''PO status does not allow editing'')
      else if has_po_confirmed_receipt s (po_id po)
      then Inl (HTTPException 409 ''PO has a CONFIRMED receipt'')
      else if has_po_committed_inbound_facts (s_core s) (po_id po)
      then Inl (HTTPException 409 ''PO has committed inbound facts'')
      else Inr ())"

text \<open>\<open>purchase_order_presenter.py\<close> answers the same question for the page.\<close>

definition resolve_po_editability :: "site \<Rightarrow> purchase_order \<Rightarrow> bool \<times> string option" where
  "resolve_po_editability s po =
     (if py_upper (po_status po) \<noteq> ''CREATED'' then (False, Some ''PO status does not allow editing'')
      else if has_po_confirmed_receipt s (po_id po) then (False, Some ''PO has a CONFIRMED receipt'')
      else if has_po_committed_inbound_facts (s_core s) (po_id po)
      then (False, Some ''PO has committed inbound facts'')
      else (True, None))"

definition normalize_update_payload ::
  "site \<Rightarrow> purchase_in \<Rightarrow> (int \<times> string \<times> string \<times> decimal \<times> norm_purchase_line list) result" where
  "normalize_update_payload s p =
     (if pin_lines p = [] then Inl (ValueError ''update_po_v2 needs at least one line'')
      else if py_strip (pin_purchaser p) = [] then Inl (ValueError ''purchaser is empty'')
      else
        bindE (require_supplier_snapshot_via_pms s (pin_supplier_id p)) (\<lambda>(sid, sname).
        bindE (aget_basics_by_item_ids (s_core s) (map pli_item_id (pin_lines p))) (\<lambda>items_map.
        bindE (mapE (norm_line_update (s_core s) sid items_map) (number_lines (pin_lines p)) ([], Decimal 0 0))
          (\<lambda>(norm_lines, _, amount).
        Inr (sid, sname, py_strip (pin_purchaser p), amount, norm_lines)))))"

text \<open>
  Deleting the lines of an order: their completion rows go with them (\<open>ON DELETE CASCADE\<close>), event
  lines that name them lose the name (\<open>ON DELETE SET NULL\<close>).
\<close>

definition delete_purchase_lines :: "int \<Rightarrow> db \<Rightarrow> db" where
  "delete_purchase_lines n d =
     (let gone = (\<lambda>k. list_ex (\<lambda>l. pl_po_id l = n \<and> pl_id l = k) (t_purchase_lines d)) in
      d\<lparr>t_inbound_lines := update_where
            (\<lambda>x. case il_po_line_id x of None \<Rightarrow> False | Some k \<Rightarrow> gone k)
            (il_po_line_id_update (\<lambda>_. None)) (t_inbound_lines d),
        t_purchase_lines := filter (\<lambda>l. pl_po_id l \<noteq> n) (t_purchase_lines d),
        t_completion := filter (\<lambda>c. \<not> gone (pc_po_line_id c)) (t_completion d)\<rparr>)"

definition replace_purchase_order_lines :: "int \<Rightarrow> norm_purchase_line list \<Rightarrow> db \<Rightarrow> db result" where
  "replace_purchase_order_lines n ls d = foldE (insert_purchase_line n) ls (delete_purchase_lines n d)"

definition update_po_v2 :: "int \<Rightarrow> purchase_in \<Rightarrow> unit stx" where
  "update_po_v2 n p s =
     (case find (\<lambda>x. po_id x = n) (t_purchase_orders (s_core s)) of
        None \<Rightarrow> Inl (HTTPException 404 ''PurchaseOrder not found'')
      | Some po \<Rightarrow>
          bindE (require_po_editable s po) (\<lambda>_.
          bindE (normalize_update_payload s p) (\<lambda>(sid, sname, purchaser, amount, norm_lines).
          let upd = (\<lambda>x. x\<lparr>po_supplier_id := sid, po_supplier_name := sname,
                po_warehouse_id := pin_warehouse_id p, po_purchaser := purchaser,
                po_purchase_time := pin_purchase_time p, po_total_amount := Some (to_cents amount),
                po_remark := strip_or_none (pin_remark p)\<rparr>) in
          if \<not> numeric 14 (to_cents amount) then Inl (DataError ''numeric field overflow'')
          else
            let d1 = (s_core s)\<lparr>t_purchase_orders :=
                  update_where (\<lambda>x. po_id x = n) upd (t_purchase_orders (s_core s))\<rparr> in
            bindE (replace_purchase_order_lines n norm_lines d1) (\<lambda>d2.
            bindE (rebuild_completion_rows_for_po n d2) (\<lambda>d3.
            Inr ((), s\<lparr>s_core := d3\<rparr>))))))"

section \<open>purchase\_orders\_routes\_core.py\<close>

text \<open>A \<open>ValueError\<close> is a 400; a request that breaks the contract is a 422 before the handler runs.\<close>

definition create_purchase_order :: "purchase_in \<Rightarrow> purchase_order stx" where
  "create_purchase_order p s =
     (if \<not> purchase_in_valid p then Inl (HTTPException 422 ''request validation error'')
      else catch_value_error (HTTPException 400) (create_po_v2 p s))"

definition update_purchase_order :: "int \<Rightarrow> purchase_in \<Rightarrow> unit stx" where
  "update_purchase_order n p s =
     (if \<not> purchase_in_valid p then Inl (HTTPException 422 ''request validation error'')
      else catch_value_error (HTTPException 400) (update_po_v2 n p s))"

definition close_purchase_order :: "int \<Rightarrow> int \<Rightarrow> string option \<Rightarrow> unit stx" where
  "close_purchase_order now n note s =
     (case find (\<lambda>x. po_id x = n) (t_purchase_orders (s_core s)) of
        None \<Rightarrow> Inl (HTTPException 404 ''PurchaseOrder not found'')
      | Some po \<Rightarrow>
          if py_upper (po_status po) \<noteq> ''CREATED''
          then Inl (HTTPException 409 ''PO status does not allow closing'')
          else Inr ((), s\<lparr>s_core := (s_core s)\<lparr>t_purchase_orders :=
            update_where (\<lambda>x. po_id x = n)
              (\<lambda>x. x\<lparr>po_status := ''CLOSED'', po_close_reason := Some ''MANUAL_TERMINATED'',
                     po_close_note := strip_or_none note, po_closed_at := Some now\<rparr>)
              (t_purchase_orders (s_core s))\<rparr>\<rparr>))"

section \<open>The completion page\<close>

definition load_po_completion_rows :: "db \<Rightarrow> int \<Rightarrow> po_completion list" where
  "load_po_completion_rows d n =
     sort_key pc_line_no (sort_key pc_po_line_id (filter (\<lambda>c. pc_po_id c = n) (t_completion d)))"

record completion_event =
  ce_event_id :: int
  ce_event_no :: string
  ce_trace_id :: string
  ce_source_ref :: "string option"
  ce_occurred_at :: int
  ce_po_line_id :: int
  ce_line_no :: int
  ce_item_id :: int
  ce_qty_base :: int
  ce_lot_code :: "string option"
  ce_production_date :: "date option"
  ce_expiry_date :: "date option"

definition completion_event_of ::
  "db \<Rightarrow> int \<Rightarrow> inbound_event_line \<Rightarrow> (int \<times> completion_event) option" where
  "completion_event_of d n iel =
     (case il_po_line_id iel of None \<Rightarrow> None | Some k \<Rightarrow>
      (case (find (\<lambda>we. ev_id we = il_event_id iel) (t_events d),
             find (\<lambda>pol. pl_id pol = k) (t_purchase_lines d)) of
         (Some we, Some pol) \<Rightarrow>
           if pl_po_id pol = n \<and> receipt_event we then
             Some (il_line_no iel,
               \<lparr>ce_event_id = ev_id we, ce_event_no = ev_event_no we, ce_trace_id = ev_trace_id we,
                ce_source_ref = ev_source_ref we, ce_occurred_at = ev_occurred_at we,
                ce_po_line_id = k, ce_line_no = pl_line_no pol, ce_item_id = il_item_id iel,
                ce_qty_base = il_qty_base iel, ce_lot_code = il_lot_code_input iel,
                ce_production_date = il_production_date iel, ce_expiry_date = il_expiry_date iel\<rparr>)
           else None
       | _ \<Rightarrow> None))"

text \<open>Newest event first, the lines of an event in line order.\<close>

definition load_po_completion_events :: "db \<Rightarrow> int \<Rightarrow> completion_event list" where
  "load_po_completion_events d n =
     map snd (sort_key (\<lambda>(_, x). - ce_occurred_at x) (sort_key (\<lambda>(_, x). - ce_event_id x)
       (sort_key fst (List.map_filter (completion_event_of d n) (t_inbound_lines d)))))"

record completion_summary =
  cm_total_ordered_base :: int
  cm_total_received_base :: int
  cm_total_remaining_base :: int
  cm_completion_status :: string
  cm_last_received_at :: "int option"

fun latest :: "int option \<Rightarrow> po_completion list \<Rightarrow> int option" where
  "latest t [] = t"
| "latest t (c # cs) = latest (case pc_last_received_at c of
      None \<Rightarrow> t
    | Some x \<Rightarrow> (case t of None \<Rightarrow> Some x | Some y \<Rightarrow> if y < x then Some x else t)) cs"

text \<open>\<open>purchase_orders.last_received_at\<close>, which nothing in the code writes, is \<open>None\<close>.\<close>

definition get_completion_detail ::
  "db \<Rightarrow> int \<Rightarrow> (purchase_order \<times> completion_summary \<times> po_completion list \<times> completion_event list) result" where
  "get_completion_detail d n =
     (case find (\<lambda>x. po_id x = n) (t_purchase_orders d) of
        None \<Rightarrow> Inl (ValueError ''PurchaseOrder not found'')
      | Some po \<Rightarrow>
          let rows = load_po_completion_rows d n;
              ordered = sum_list (map pc_qty_ordered_base rows);
              received = sum_list (map pc_qty_received_base rows)
          in Inr (po,
               \<lparr>cm_total_ordered_base = ordered, cm_total_received_base = received,
                cm_total_remaining_base = sum_list (map pc_qty_remaining_base rows),
                cm_completion_status = derive_completion_status ordered received,
                cm_last_received_at = latest None rows\<rparr>, rows, load_po_completion_events d n))"

end
