(* ===== verification/PurchaseTables.thy ===== *)
theory PurchaseTables
  imports Purchasing
begin

text \<open>
  The tables of purchase orders and what keeps them consistent: every order line has one
  completion row, the row repeats the plan of the line and its order, and what it counts as
  received is what the committed receipts booked against the line. The statements that write
  heads, lines and completion rows are shown to keep this.
\<close>

section \<open>The invariant\<close>

definition commit_of_purchase :: "db \<Rightarrow> int \<Rightarrow> bool" where
  "commit_of_purchase d n = list_ex (\<lambda>e. ev_id e = n \<and> ev_event_type e = ''INBOUND'' \<and>
     ev_source_type e = ''PURCHASE_ORDER'' \<and> ev_event_kind e = ''COMMIT'') (t_events d)"

text \<open>What has been received against a line, reversed receipts included.\<close>

definition receipts_total :: "db \<Rightarrow> int \<Rightarrow> int" where
  "receipts_total d k =
     sum_where (\<lambda>x. il_po_line_id x = Some k \<and> commit_of_purchase d (il_event_id x)) il_qty_base (t_inbound_lines d)"

definition mirrors :: "db \<Rightarrow> purchase_order_line \<Rightarrow> po_completion \<Rightarrow> bool" where
  "mirrors d l c \<longleftrightarrow> (\<exists>po \<in> set (t_purchase_orders d). \<exists>u \<in> set (t_item_uoms d).
     po_id po = pl_po_id l \<and> uo_id u = pl_purchase_uom_id_snapshot l \<and>
     c = completion_merge (completion_row po u l) c)"

definition line_id_used :: "db \<Rightarrow> int \<Rightarrow> bool" where
  "line_id_used d k = list_ex (\<lambda>l. pl_id l = k) (t_purchase_lines d)"

definition refs_ok :: "db \<Rightarrow> bool" where
  "refs_ok d \<longleftrightarrow> (\<forall>x \<in> set (t_inbound_lines d). case il_po_line_id x of None \<Rightarrow> True | Some k \<Rightarrow> line_id_used d k)"

definition orders_ok :: "db \<Rightarrow> bool" where
  "orders_ok d \<longleftrightarrow> distinct (map po_id (t_purchase_orders d)) \<and>
     (\<forall>po \<in> set (t_purchase_orders d). po_id po < t_next_id d PURCHASE_ORDERS)"

definition lines_ok :: "db \<Rightarrow> bool" where
  "lines_ok d \<longleftrightarrow> distinct (map pl_id (t_purchase_lines d)) \<and>
     distinct (map (\<lambda>l. (pl_po_id l, pl_line_no l)) (t_purchase_lines d)) \<and>
     (\<forall>l \<in> set (t_purchase_lines d). pl_id l < t_next_id d PURCHASE_ORDER_LINES \<and>
        pl_po_id l \<in> po_id ` set (t_purchase_orders d) \<and> 0 < pl_qty_ordered_base l \<and>
        pl_qty_ordered_base l = pl_qty_ordered_input l * pl_purchase_ratio_to_base_snapshot l)"

definition completion_ok :: "db \<Rightarrow> bool" where
  "completion_ok d \<longleftrightarrow> distinct (map pc_po_line_id (t_completion d)) \<and>
     pc_po_line_id ` set (t_completion d) = pl_id ` set (t_purchase_lines d) \<and>
     (\<forall>c \<in> set (t_completion d). completion_checks c \<and>
        pc_qty_received_base c = receipts_total d (pc_po_line_id c) \<and>
        (\<exists>l \<in> set (t_purchase_lines d). mirrors d l c))"

definition purchases_inv :: "db \<Rightarrow> bool" where
  "purchases_inv d \<longleftrightarrow> orders_ok d \<and> lines_ok d \<and> completion_ok d \<and> refs_ok d"

lemma purchases_invD:
  "purchases_inv d \<Longrightarrow> orders_ok d" "purchases_inv d \<Longrightarrow> lines_ok d"
  "purchases_inv d \<Longrightarrow> completion_ok d" "purchases_inv d \<Longrightarrow> refs_ok d"
  by (simp_all add: purchases_inv_def)

lemma completion_merge_sel [simp]:
  "pc_po_line_id (completion_merge r c) = pc_po_line_id r" "pc_po_id (completion_merge r c) = pc_po_id r"
  "pc_qty_received_base (completion_merge r c) = pc_qty_received_base c"
  "pc_qty_ordered_base (completion_merge r c) = pc_qty_ordered_base r"
  "pc_line_no (completion_merge r c) = pc_line_no r"
  by (simp_all add: completion_merge_def)

lemma completion_row_sel [simp]:
  "pc_po_line_id (completion_row po u l) = pl_id l" "pc_po_id (completion_row po u l) = po_id po"
  "pc_qty_ordered_base (completion_row po u l) = pl_qty_ordered_base l"
  "pc_qty_received_base (completion_row po u l) = 0" "pc_line_no (completion_row po u l) = pl_line_no l"
  by (simp_all add: completion_row_def)

lemma mirrors_sel:
  assumes "mirrors d l c"
  shows "pc_po_line_id c = pl_id l" "pc_po_id c = pl_po_id l" "pc_qty_ordered_base c = pl_qty_ordered_base l"
    "pc_line_no c = pl_line_no l"
    "pc_qty_remaining_base c = max (pl_qty_ordered_base l - pc_qty_received_base c) 0"
    "pc_line_completion_status c = completion_status_of (pc_qty_received_base c) (pl_qty_ordered_base l)"
proof -
  from assms obtain po u where *: "po_id po = pl_po_id l" "c = completion_merge (completion_row po u l) c"
    by (auto simp: mirrors_def)
  show "pc_po_line_id c = pl_id l" "pc_po_id c = pl_po_id l" "pc_qty_ordered_base c = pl_qty_ordered_base l"
    "pc_line_no c = pl_line_no l"
    using arg_cong [OF *(2), of pc_po_line_id] arg_cong [OF *(2), of pc_po_id]
      arg_cong [OF *(2), of pc_qty_ordered_base] arg_cong [OF *(2), of pc_line_no] *(1) by simp_all
  show "pc_qty_remaining_base c = max (pl_qty_ordered_base l - pc_qty_received_base c) 0"
    using arg_cong [OF *(2), of pc_qty_remaining_base] by (simp add: completion_merge_def)
  show "pc_line_completion_status c = completion_status_of (pc_qty_received_base c) (pl_qty_ordered_base l)"
    using arg_cong [OF *(2), of pc_line_completion_status] by (simp add: completion_merge_def)
qed

lemma mirrors_fresh:
  "po \<in> set (t_purchase_orders d) \<Longrightarrow> u \<in> set (t_item_uoms d) \<Longrightarrow> po_id po = pl_po_id l \<Longrightarrow>
   uo_id u = pl_purchase_uom_id_snapshot l \<Longrightarrow> 0 < pl_qty_ordered_base l \<Longrightarrow> mirrors d l (completion_row po u l)"
  unfolding mirrors_def
  by (intro bexI [of _ po] bexI [of _ u])
    (simp_all add: completion_merge_def completion_row_def completion_status_of_def)

lemma mirrors_received:
  assumes "mirrors d l c"
  shows "mirrors d l (completion_add t q c)"
proof -
  from assms obtain po u where *: "po \<in> set (t_purchase_orders d)" "u \<in> set (t_item_uoms d)"
    "po_id po = pl_po_id l" "uo_id u = pl_purchase_uom_id_snapshot l"
    "c = completion_merge (completion_row po u l) c" by (auto simp: mirrors_def)
  have "completion_add t q c = completion_merge (completion_row po u l) (completion_add t q c)"
    by (subst *(5), subst (2) *(5)) (simp add: completion_add_def completion_merge_def Let_def)
  with * show ?thesis unfolding mirrors_def by blast
qed

lemma mirrors_cong:
  assumes "mirrors d l c" and "\<And>po. po \<in> set (t_purchase_orders d) \<Longrightarrow> po_id po = pl_po_id l \<Longrightarrow> po \<in> set (t_purchase_orders d')"
    and "t_item_uoms d' = t_item_uoms d"
  shows "mirrors d' l c"
  using assms unfolding mirrors_def by metis

lemma refs_okD: "refs_ok d \<Longrightarrow> x \<in> set (t_inbound_lines d) \<Longrightarrow> il_po_line_id x = Some k \<Longrightarrow> k \<in> pl_id ` set (t_purchase_lines d)"
  by (force simp: refs_ok_def line_id_used_def list_ex_iff)

lemma refs_okI:
  "(\<And>x k. x \<in> set (t_inbound_lines d) \<Longrightarrow> il_po_line_id x = Some k \<Longrightarrow> k \<in> pl_id ` set (t_purchase_lines d)) \<Longrightarrow> refs_ok d"
  by (force simp: refs_ok_def line_id_used_def list_ex_iff split: option.splits)

lemma receipts_total_unused:
  assumes "refs_ok d" and "k \<notin> pl_id ` set (t_purchase_lines d)"
  shows "receipts_total d k = 0"
  unfolding receipts_total_def by (rule sum_where_none) (use refs_okD [OF assms(1)] assms(2) in auto)

section \<open>Inserting lines\<close>

definition placed :: "int \<Rightarrow> int \<Rightarrow> norm_purchase_line \<Rightarrow> purchase_order_line" where
  "placed po k nl = (purchase_line_of po nl)\<lparr>pl_id := k\<rparr>"

lemma placed_sel [simp]:
  "pl_id (placed po k nl) = k" "pl_po_id (placed po k nl) = po" "pl_line_no (placed po k nl) = npl_line_no nl"
  "pl_qty_ordered_base (placed po k nl) = npl_qty_base nl"
  "pl_qty_ordered_input (placed po k nl) = npl_qty_input nl"
  "pl_purchase_ratio_to_base_snapshot (placed po k nl) = npl_ratio nl"
  "pl_purchase_uom_id_snapshot (placed po k nl) = npl_uom_id nl" "pl_item_id (placed po k nl) = npl_item_id nl"
  "pl_supply_price (placed po k nl) = map_option to_cents (npl_price nl)"
  by (simp_all add: placed_def purchase_line_of_def)

fun placed_from :: "int \<Rightarrow> int \<Rightarrow> norm_purchase_line list \<Rightarrow> purchase_order_line list" where
  "placed_from po k [] = []"
| "placed_from po k (nl # nls) = placed po k nl # placed_from po (k + 1) nls"

lemma placed_from_ids: "map pl_id (placed_from po k nls) = map (\<lambda>i. k + int i) [0 ..< length nls]"
proof (induction nls arbitrary: k)
  case (Cons nl nls)
  have "[0 ..< Suc (length nls)] = 0 # map Suc [0 ..< length nls]" by (simp add: upt_conv_Cons map_Suc_upt del: upt_Suc)
  with Cons show ?case by (simp add: o_def del: upt_Suc)
qed simp

lemma placed_from_in: "l \<in> set (placed_from po k nls) \<Longrightarrow> pl_po_id l = po \<and> k \<le> pl_id l \<and> pl_id l < k + int (length nls) \<and> (\<exists>nl \<in> set nls. \<exists>m. l = placed po m nl)"
  by (induction nls arbitrary: k) fastforce+

lemma placed_from_distinct: "distinct (map pl_id (placed_from po k nls))"
  unfolding placed_from_ids by (simp add: distinct_map inj_on_def)

lemma insert_purchase_line_Inr:
  assumes "insert_purchase_line po nl d = Inr d'"
  shows "d' = d\<lparr>t_next_id := (t_next_id d)(PURCHASE_ORDER_LINES := t_next_id d PURCHASE_ORDER_LINES + 1),
      t_purchase_lines := t_purchase_lines d @ [placed po (t_next_id d PURCHASE_ORDER_LINES) nl]\<rparr>"
    and "0 < npl_qty_base nl" and "(po, npl_line_no nl) \<notin> (\<lambda>x. (pl_po_id x, pl_line_no x)) ` set (t_purchase_lines d)"
    and "po \<in> po_id ` set (t_purchase_orders d)" and "npl_uom_id nl \<in> uo_id ` set (t_item_uoms d)"
  using assms
  by (auto simp: insert_purchase_line_def next_id_def Let_def placed_def purchase_line_of_def split: if_splits)

lemma insert_purchase_lines_Inr:
  assumes "foldE (insert_purchase_line po) nls d = Inr d'"
  shows "d' = d\<lparr>t_next_id := (t_next_id d)(PURCHASE_ORDER_LINES := t_next_id d PURCHASE_ORDER_LINES + int (length nls)),
      t_purchase_lines := t_purchase_lines d @ placed_from po (t_next_id d PURCHASE_ORDER_LINES) nls\<rparr>"
    and "\<forall>nl \<in> set nls. 0 < npl_qty_base nl \<and> po \<in> po_id ` set (t_purchase_orders d) \<and>
      npl_uom_id nl \<in> uo_id ` set (t_item_uoms d)"
    and "distinct (map (\<lambda>l. (pl_po_id l, pl_line_no l)) (t_purchase_lines d)) \<Longrightarrow>
      distinct (map (\<lambda>l. (pl_po_id l, pl_line_no l)) (t_purchase_lines d'))"
  using assms
proof (induction nls arbitrary: d)
  case Nil
  { case 1 then show ?case by simp }
  { case 2 then show ?case by simp }
  { case 3 then show ?case by simp }
next
  case (Cons nl nls)
  have step: "\<exists>e. insert_purchase_line po nl d = Inr e \<and> foldE (insert_purchase_line po) nls e = Inr d'"
    if "foldE (insert_purchase_line po) (nl # nls) d = Inr d'" for d
    using that by (auto simp: bindE_eq_Inr)
  { case 1
    from step [OF this] obtain e where e: "insert_purchase_line po nl d = Inr e" "foldE (insert_purchase_line po) nls e = Inr d'" by blast
    show ?case by (subst Cons.IH(1) [OF e(2)]) (simp add: insert_purchase_line_Inr(1) [OF e(1)] algebra_simps) }
  { case 2
    from step [OF this] obtain e where e: "insert_purchase_line po nl d = Inr e" "foldE (insert_purchase_line po) nls e = Inr d'" by blast
    note i = insert_purchase_line_Inr [OF e(1)]
    show ?case using Cons.IH(2) [OF e(2)] i(2,4,5) by (simp add: i(1)) }
  { case 3
    from step [OF this(2)] obtain e where e: "insert_purchase_line po nl d = Inr e" "foldE (insert_purchase_line po) nls e = Inr d'" by blast
    note i = insert_purchase_line_Inr [OF e(1)]
    show ?case by (rule Cons.IH(3) [OF _ e(2)]) (use 3(1) i(3) in \<open>simp add: i(1)\<close>) }
qed

section \<open>Completion rows\<close>

definition row_of_line :: "purchase_order list \<Rightarrow> item_uom list \<Rightarrow> int \<Rightarrow> purchase_order_line \<Rightarrow> po_completion option" where
  "row_of_line pos us n l =
     (case (find (\<lambda>p. po_id p = pl_po_id l) pos, find (\<lambda>u. uo_id u = pl_purchase_uom_id_snapshot l) us) of
        (Some po, Some u) \<Rightarrow> if po_id po = n then Some (completion_row po u l) else None
      | _ \<Rightarrow> None)"

lemma completion_rows_of_alt:
  "completion_rows_of d n = List.map_filter (row_of_line (t_purchase_orders d) (t_item_uoms d) n) (t_purchase_lines d)"
  unfolding completion_rows_of_def row_of_line_def by simp

lemma map_filter_append: "List.map_filter f (xs @ ys) = List.map_filter f xs @ List.map_filter f ys"
  by (induction xs) (simp_all split: option.splits)

lemma row_of_other_line: "pl_po_id l \<noteq> n \<Longrightarrow> row_of_line pos us n l = None"
  by (auto simp: row_of_line_def split: option.splits dest: find_SomeD)

lemma row_of_own_line:
  assumes "pl_po_id l = n" and "n \<in> po_id ` set pos" and "pl_purchase_uom_id_snapshot l \<in> uo_id ` set us"
  shows "\<exists>po \<in> set pos. \<exists>u \<in> set us. po_id po = n \<and> uo_id u = pl_purchase_uom_id_snapshot l \<and>
    row_of_line pos us n l = Some (completion_row po u l)"
proof -
  obtain po where po: "find (\<lambda>p. po_id p = pl_po_id l) pos = Some po"
    using assms(1,2) by (cases "find (\<lambda>p. po_id p = pl_po_id l) pos") (auto simp: find_None_iff)
  obtain u where u: "find (\<lambda>u. uo_id u = pl_purchase_uom_id_snapshot l) us = Some u"
    using assms(3) by (cases "find (\<lambda>u. uo_id u = pl_purchase_uom_id_snapshot l) us") (auto simp: find_None_iff)
  have r: "row_of_line pos us n l = Some (completion_row po u l)"
    unfolding row_of_line_def po u using find_SomeD [OF po] assms(1) by simp
  show ?thesis
    by (intro bexI [of _ po] bexI [of _ u]) (use find_SomeD [OF po] find_SomeD [OF u] assms(1) r in simp_all)
qed

lemma rows_of_own_lines:
  assumes "\<forall>l \<in> set ls. pl_po_id l = n \<and> pl_purchase_uom_id_snapshot l \<in> uo_id ` set us" and "n \<in> po_id ` set pos"
  shows "list_all2 (\<lambda>l c. \<exists>po \<in> set pos. \<exists>u \<in> set us. po_id po = n \<and> uo_id u = pl_purchase_uom_id_snapshot l \<and>
    c = completion_row po u l) ls (List.map_filter (row_of_line pos us n) ls)"
  using assms(1)
proof (induction ls)
  case (Cons l ls)
  then obtain po u where "po \<in> set pos" "u \<in> set us" "po_id po = n" "uo_id u = pl_purchase_uom_id_snapshot l"
    "row_of_line pos us n l = Some (completion_row po u l)"
    using row_of_own_line [of l n pos us] assms(2) by auto
  with Cons show ?case by auto
qed simp

lemma upsert_new_rows:
  assumes "foldE upsert_completion_row cs d = Inr d'" and "distinct (map pc_po_line_id cs)"
    and "pc_po_line_id ` set cs \<inter> pc_po_line_id ` set (t_completion d) = {}"
  shows "d' = d\<lparr>t_completion := t_completion d @ cs\<rparr> \<and> (\<forall>c \<in> set cs. completion_checks c)"
  using assms
proof (induction cs arbitrary: d)
  case (Cons c cs)
  from Cons.prems(1) obtain e where e: "upsert_completion_row c d = Inr e" "foldE upsert_completion_row cs e = Inr d'"
    by (auto simp: bindE_eq_Inr)
  have "find (\<lambda>x. pc_po_line_id x = pc_po_line_id c) (t_completion d) = None"
    unfolding find_None_iff using Cons.prems(3) by (metis disjoint_iff image_eqI list.set_intros(1))
  with e(1) have 1: "e = d\<lparr>t_completion := t_completion d @ [c]\<rparr>" "completion_checks c"
    by (auto simp: upsert_completion_row_def split: if_splits)
  have "d' = e\<lparr>t_completion := t_completion e @ cs\<rparr> \<and> (\<forall>c \<in> set cs. completion_checks c)"
    by (rule Cons.IH [OF e(2)]) (use Cons.prems(2,3) in \<open>auto simp: 1(1)\<close>)
  with 1 show ?case by simp
qed simp

end
