(* ===== verification/PurchaseLife.thy ===== *)
theory PurchaseLife
  imports PurchaseTables
begin

text \<open>
  The life of purchase orders: creating, editing and closing keep the tables consistent, and so
  does a receipt committed against order lines or its reversal. The properties of the procurement
  services.
\<close>

section \<open>New lines\<close>

definition new_lines :: "db \<Rightarrow> int \<Rightarrow> norm_purchase_line list \<Rightarrow> purchase_order_line list" where
  "new_lines d n nls = placed_from n (t_next_id d PURCHASE_ORDER_LINES) nls"

definition fresh_row :: "db \<Rightarrow> int \<Rightarrow> purchase_order_line \<Rightarrow> po_completion \<Rightarrow> bool" where
  "fresh_row d n l c \<longleftrightarrow> (\<exists>po \<in> set (t_purchase_orders d). \<exists>u \<in> set (t_item_uoms d).
     po_id po = n \<and> uo_id u = pl_purchase_uom_id_snapshot l \<and> c = completion_row po u l)"

lemma fresh_lines:
  assumes inv: "purchases_inv d" and none: "\<forall>l \<in> set (t_purchase_lines d). pl_po_id l \<noteq> n"
    and f: "foldE (insert_purchase_line n) nls d = Inr e" and u: "upsert_completion_rows_for_po n e = Inr d'"
    and head: "n \<in> po_id ` set (t_purchase_orders d)"
  obtains rows where
    "d' = d\<lparr>t_next_id := (t_next_id d)(PURCHASE_ORDER_LINES := t_next_id d PURCHASE_ORDER_LINES + int (length nls)),
       t_purchase_lines := t_purchase_lines d @ new_lines d n nls, t_completion := t_completion d @ rows\<rparr>"
    "list_all2 (fresh_row d n) (new_lines d n nls) rows" "\<forall>c \<in> set rows. completion_checks c"
    "\<forall>nl \<in> set nls. 0 < npl_qty_base nl"
    "distinct (map (\<lambda>l. (pl_po_id l, pl_line_no l)) (t_purchase_lines d @ new_lines d n nls))"
proof -
  note L = purchases_invD [OF inv]
  note i = insert_purchase_lines_Inr [OF f]
  let ?new = "new_lines d n nls"
  have e: "e = d\<lparr>t_next_id := (t_next_id d)(PURCHASE_ORDER_LINES := t_next_id d PURCHASE_ORDER_LINES + int (length nls)),
      t_purchase_lines := t_purchase_lines d @ ?new\<rparr>" unfolding new_lines_def by (rule i(1))
  let ?row = "row_of_line (t_purchase_orders d) (t_item_uoms d) n"
  have "List.map_filter ?row (t_purchase_lines d) = []"
    using none by (simp add: List.map_filter_def filter_empty_conv row_of_other_line)
  then have rows: "completion_rows_of e n = List.map_filter ?row ?new"
    by (simp add: completion_rows_of_alt e map_filter_append)
  have own: "\<forall>l \<in> set ?new. pl_po_id l = n \<and> pl_purchase_uom_id_snapshot l \<in> uo_id ` set (t_item_uoms d)"
    using i(2) placed_from_in unfolding new_lines_def by fastforce
  have rel: "list_all2 (fresh_row d n) ?new (List.map_filter ?row ?new)"
    using rows_of_own_lines [OF own head] unfolding fresh_row_def .
  have ids: "map pc_po_line_id (List.map_filter ?row ?new) = map pl_id ?new"
    using rel by (induction rule: list_all2_induct) (auto simp: fresh_row_def)
  have range: "t_next_id d PURCHASE_ORDER_LINES \<le> k" if "k \<in> pl_id ` set ?new" for k
    using that placed_from_in unfolding new_lines_def by fastforce
  have "pc_po_line_id ` set (t_completion d) = pl_id ` set (t_purchase_lines d)"
    using L(3) by (simp add: completion_ok_def)
  then have old: "k < t_next_id d PURCHASE_ORDER_LINES" if "k \<in> pc_po_line_id ` set (t_completion e)" for k
    using that L(2) by (auto simp: e lines_ok_def)
  have ids': "pc_po_line_id ` set (List.map_filter ?row ?new) = pl_id ` set ?new"
    using arg_cong [OF ids, of set] by simp
  have "d' = e\<lparr>t_completion := t_completion e @ List.map_filter ?row ?new\<rparr> \<and>
      (\<forall>c \<in> set (List.map_filter ?row ?new). completion_checks c)"
  proof (rule upsert_new_rows)
    show "foldE upsert_completion_row (List.map_filter ?row ?new) e = Inr d'"
      using u unfolding upsert_completion_rows_for_po_def rows .
    show "distinct (map pc_po_line_id (List.map_filter ?row ?new))"
      unfolding ids by (simp add: new_lines_def placed_from_distinct)
    show "pc_po_line_id ` set (List.map_filter ?row ?new) \<inter> pc_po_line_id ` set (t_completion e) = {}"
      unfolding ids' using range old by fastforce
  qed
  moreover have "distinct (map (\<lambda>l. (pl_po_id l, pl_line_no l)) (t_purchase_lines d @ ?new))"
    using i(3) L(2) by (simp add: lines_ok_def e)
  ultimately show ?thesis using rel i(2) by (intro that [of "List.map_filter ?row ?new"]) (simp_all add: e)
qed

lemma fresh_lines_inv:
  assumes inv: "purchases_inv d" and none: "\<forall>l \<in> set (t_purchase_lines d). pl_po_id l \<noteq> n"
    and f: "foldE (insert_purchase_line n) nls d = Inr e" and u: "upsert_completion_rows_for_po n e = Inr d'"
    and head: "n \<in> po_id ` set (t_purchase_orders d)"
    and qty: "\<forall>nl \<in> set nls. npl_qty_base nl = npl_qty_input nl * npl_ratio nl"
  shows "purchases_inv d'"
proof -
  note L = purchases_invD [OF inv]
  from fresh_lines [OF inv none f u head] obtain rows where
    d': "d' = d\<lparr>t_next_id := (t_next_id d)(PURCHASE_ORDER_LINES := t_next_id d PURCHASE_ORDER_LINES + int (length nls)),
       t_purchase_lines := t_purchase_lines d @ new_lines d n nls, t_completion := t_completion d @ rows\<rparr>" and
    rel: "list_all2 (fresh_row d n) (new_lines d n nls) rows" and chk: "\<forall>c \<in> set rows. completion_checks c" and
    pos: "\<forall>nl \<in> set nls. 0 < npl_qty_base nl" and
    dist: "distinct (map (\<lambda>l. (pl_po_id l, pl_line_no l)) (t_purchase_lines d @ new_lines d n nls))" by blast
  let ?k = "t_next_id d PURCHASE_ORDER_LINES" and ?new = "new_lines d n nls"
  have new: "pl_po_id l = n \<and> ?k \<le> pl_id l \<and> pl_id l < ?k + int (length nls) \<and> 0 < pl_qty_ordered_base l \<and>
      pl_qty_ordered_base l = pl_qty_ordered_input l * pl_purchase_ratio_to_base_snapshot l"
    if "l \<in> set ?new" for l
  proof -
    from placed_from_in [OF that [unfolded new_lines_def]] obtain nl m where
      "nl \<in> set nls" "l = placed n m nl" by blast
    with placed_from_in [OF that [unfolded new_lines_def]] pos qty show ?thesis by simp
  qed
  have old: "pl_id l < ?k" if "l \<in> set (t_purchase_lines d)" for l using that L(2) by (simp add: lines_ok_def)
  have "distinct (map pl_id ?new)" by (simp add: new_lines_def placed_from_distinct)
  moreover have "set (map pl_id (t_purchase_lines d)) \<inter> set (map pl_id ?new) = {}" using old new by fastforce
  ultimately have ids: "distinct (map pl_id (t_purchase_lines d @ ?new))" using L(2) by (simp add: lines_ok_def)
  have lines: "lines_ok d'"
    unfolding lines_ok_def
  proof (intro conjI ballI)
    fix l assume "l \<in> set (t_purchase_lines d')"
    then have "l \<in> set (t_purchase_lines d) \<or> l \<in> set ?new" by (simp add: d')
    then have "pl_id l < ?k + int (length nls) \<and> pl_po_id l \<in> po_id ` set (t_purchase_orders d) \<and>
      0 < pl_qty_ordered_base l \<and>
      pl_qty_ordered_base l = pl_qty_ordered_input l * pl_purchase_ratio_to_base_snapshot l"
    proof
      assume l: "l \<in> set (t_purchase_lines d)"
      with L(2) show ?thesis unfolding lines_ok_def by fastforce
    next
      assume "l \<in> set ?new"
      from new [OF this] head show ?thesis by blast
    qed
    then show "pl_id l < t_next_id d' PURCHASE_ORDER_LINES" "pl_po_id l \<in> po_id ` set (t_purchase_orders d')"
      "0 < pl_qty_ordered_base l"
      "pl_qty_ordered_base l = pl_qty_ordered_input l * pl_purchase_ratio_to_base_snapshot l"
      by (simp_all add: d')
  qed (use ids dist in \<open>simp_all add: d'\<close>)
  have rids: "map pc_po_line_id rows = map pl_id ?new"
    using rel by (induction rule: list_all2_induct) (auto simp: fresh_row_def)
  have total: "receipts_total d' = receipts_total d"
    by (intro ext) (simp add: receipts_total_def commit_of_purchase_def d')
  have row: "pc_qty_received_base c = receipts_total d' (pc_po_line_id c) \<and> (\<exists>l \<in> set ?new. mirrors d' l c)"
    if "c \<in> set rows" for c
  proof -
    from list_all2_in_right [OF rel that] obtain l where l: "l \<in> set ?new" "fresh_row d n l c" by blast
    then obtain po v where po: "po \<in> set (t_purchase_orders d)" "v \<in> set (t_item_uoms d)" "po_id po = n"
      "uo_id v = pl_purchase_uom_id_snapshot l" "c = completion_row po v l" by (auto simp: fresh_row_def)
    have "mirrors d' l (completion_row po v l)"
      by (rule mirrors_fresh) (use po new [OF l(1)] in \<open>simp_all add: d'\<close>)
    moreover have "pl_id l \<notin> pl_id ` set (t_purchase_lines d)" using old new [OF l(1)] by fastforce
    then have "receipts_total d (pl_id l) = 0" by (rule receipts_total_unused [OF L(4)])
    ultimately show ?thesis using l(1) po(5) total by auto
  qed
  have comp: "completion_ok d'"
    unfolding completion_ok_def
  proof (intro conjI ballI)
    have "set (map pc_po_line_id (t_completion d)) = set (map pl_id (t_purchase_lines d))"
      using L(3) by (simp add: completion_ok_def)
    with ids L(3) show "distinct (map pc_po_line_id (t_completion d'))" by (simp add: d' rids completion_ok_def)
    show "pc_po_line_id ` set (t_completion d') = pl_id ` set (t_purchase_lines d')"
      using arg_cong [OF rids, of set] L(3) by (simp add: d' completion_ok_def image_Un)
    fix c assume "c \<in> set (t_completion d')"
    then consider (old) "c \<in> set (t_completion d)" | (new) "c \<in> set rows" by (auto simp: d')
    then have "completion_checks c \<and> pc_qty_received_base c = receipts_total d' (pc_po_line_id c) \<and>
      (\<exists>l \<in> set (t_purchase_lines d'). mirrors d' l c)"
    proof cases
      case old
      with L(3) obtain l where "l \<in> set (t_purchase_lines d)" "mirrors d l c" by (auto simp: completion_ok_def)
      moreover from this(2) have "mirrors d' l c" by (rule mirrors_cong) (simp_all add: d')
      ultimately show ?thesis using old L(3) total by (auto simp: completion_ok_def d')
    next
      case new
      with row [OF new] chk show ?thesis by (auto simp: d')
    qed
    then show "completion_checks c" "pc_qty_received_base c = receipts_total d' (pc_po_line_id c)"
      "\<exists>l \<in> set (t_purchase_lines d'). mirrors d' l c" by blast+
  qed
  have "refs_ok d'" by (rule refs_okI) (use refs_okD [OF L(4)] in \<open>auto simp: d'\<close>)
  moreover have "orders_ok d'" using L(1) by (simp add: orders_ok_def d')
  ultimately show ?thesis using lines comp by (simp add: purchases_inv_def)
qed

section \<open>Creating, editing, closing\<close>

lemma norm_line_Inr:
  assumes "norm_line_body d sid m no raw = Inr l"
  shows "npl_line_no l = no" "npl_item_id l = pli_item_id raw" "npl_qty_base l = npl_qty_input l * npl_ratio l"
    "0 < npl_qty_base l" "pli_qty_input raw = Some (npl_qty_input l)" "npl_price l = pli_supply_price raw"
  using assms by (auto simp: norm_line_body_def res_simps Let_def split: if_splits)

lemma norm_line_body_facts:
  "norm_line_body d sid m no raw = Inr l \<Longrightarrow> npl_line_no l = no \<and> npl_item_id l = pli_item_id raw \<and>
   pli_qty_input raw = Some (npl_qty_input l) \<and> 0 < npl_qty_base l \<and> npl_qty_base l = npl_qty_input l * npl_ratio l"
  by (intro conjI; rule norm_line_Inr)

lemma norm_create_lines:
  assumes "mapE (norm_line_create d sid m) irs t = Inr (ls, t')"
  shows "list_all2 (\<lambda>(idx, raw) l. norm_line_body d sid m (line_no_or idx (pli_line_no raw)) raw = Inr l) irs ls"
  using assms
  by (induction irs arbitrary: t ls) (auto simp: res_simps norm_line_create_def simp del: mapE.simps(2))

lemma norm_update_lines:
  assumes "mapE (norm_line_update d sid m) irs st = Inr (ls, st')"
  shows "list_all2 (\<lambda>(idx, raw) l. norm_line_body d sid m (line_no_or idx (pli_line_no raw)) raw = Inr l) irs ls"
  using assms
  by (induction irs arbitrary: st ls)
    (auto simp: res_simps norm_line_update_def Let_def simp del: mapE.simps(2) split: if_splits)

lemma norm_lines_qty:
  "list_all2 (\<lambda>(idx, raw) l. norm_line_body d sid m (line_no_or idx (pli_line_no raw)) raw = Inr l) irs ls \<Longrightarrow>
   \<forall>l \<in> set ls. npl_qty_base l = npl_qty_input l * npl_ratio l"
  by (induction rule: list_all2_induct) (auto dest: norm_line_Inr(3))

text \<open>A transaction that leaves stock, ledger and events alone keeps the invariant of the warehouse.\<close>

lemma create_po_Inr:
  assumes "create_po_v2 p s = Inr (po, s')"
  obtains sid sname m ls total d1 d2 d3 where
    "require_supplier_snapshot_via_pms s (pin_supplier_id p) = Inr (sid, sname)"
    "mapE (norm_line_create (s_core s) sid m) (number_lines (pin_lines p)) (Decimal 0 0) = Inr (ls, total)"
    "po = \<lparr>po_id = t_next_id (s_core s) PURCHASE_ORDERS, po_no = build_po_no (t_next_id (s_core s) PURCHASE_ORDERS),
       po_supplier_id = sid, po_supplier_name = sname,
       po_warehouse_id = pin_warehouse_id p, po_purchaser = py_strip (pin_purchaser p),
       po_purchase_time = pin_purchase_time p, po_total_amount = Some (to_cents total),
       po_status = ''CREATED'', po_close_reason = None, po_close_note = None,
       po_remark = strip_or_none (pin_remark p), po_closed_at = None\<rparr>"
    "d1 = (s_core s)\<lparr>t_next_id := (t_next_id (s_core s))(PURCHASE_ORDERS := t_next_id (s_core s) PURCHASE_ORDERS + 1),
       t_purchase_orders := t_purchase_orders (s_core s) @ [po]\<rparr>"
    "foldE (insert_purchase_line (po_id po)) ls d1 = Inr d2"
    "upsert_completion_rows_for_po (po_id po) d2 = Inr d3" "s' = s\<lparr>s_core := d3\<rparr>"
    "numeric 14 (to_cents total)"
  using assms
  by (auto simp: create_po_v2_def res_simps reserve_purchase_order_id_def next_id_def Let_def
      insert_purchase_order_head_def insert_purchase_order_lines_def split: if_splits)

lemma create_po_inv:
  assumes run: "create_po_v2 p s = Inr (po, s')" and inv: "purchases_inv (s_core s)"
  shows "purchases_inv (s_core s')"
  using run
proof (cases rule: create_po_Inr)
  case (1 sid sname m ls total d1 d2 d3)
  note L = purchases_invD [OF inv]
  let ?n = "t_next_id (s_core s) PURCHASE_ORDERS"
  have n: "po_id po = ?n" by (simp add: 1(3))
  have older: "po_id x \<noteq> ?n" if "x \<in> set (t_purchase_orders (s_core s))" for x
    using that L(1) by (auto simp: orders_ok_def)
  have none: "\<forall>l \<in> set (t_purchase_lines d1). pl_po_id l \<noteq> po_id po"
    using L(2) older unfolding n by (fastforce simp: 1(4) lines_ok_def)
  have "orders_ok d1" using L(1) older n by (fastforce simp: orders_ok_def 1(4))
  moreover have "lines_ok d1" using L(2) by (auto simp: lines_ok_def 1(4))
  moreover have "completion_ok d1"
  proof -
    have "mirrors d1 l c" if "mirrors (s_core s) l c" for l c
      by (rule mirrors_cong [OF that]) (simp_all add: 1(4))
    moreover have "receipts_total d1 = receipts_total (s_core s)"
      by (intro ext) (simp add: receipts_total_def commit_of_purchase_def 1(4))
    ultimately show ?thesis using L(3) unfolding completion_ok_def by (simp add: 1(4)) blast
  qed
  moreover have "refs_ok d1" by (rule refs_okI) (use refs_okD [OF L(4)] in \<open>auto simp: 1(4)\<close>)
  ultimately have "purchases_inv d1" by (simp add: purchases_inv_def)
  from fresh_lines_inv [OF this none 1(5,6) _ norm_lines_qty [OF norm_create_lines [OF 1(2)]]]
  show ?thesis by (simp add: 1(4,7))
qed

text \<open>The head is rewritten and its lines are gone.\<close>

definition order_emptied :: "int \<Rightarrow> (purchase_order \<Rightarrow> purchase_order) \<Rightarrow> db \<Rightarrow> db" where
  "order_emptied n upd d =
     delete_purchase_lines n (d\<lparr>t_purchase_orders := update_where (\<lambda>x. po_id x = n) upd (t_purchase_orders d)\<rparr>)"

lemma update_po_Inr:
  assumes "update_po_v2 n p s = Inr (u, s')"
  obtains po sid sname m ls st total upd d2 d3 where
    "find (\<lambda>x. po_id x = n) (t_purchase_orders (s_core s)) = Some po" "require_po_editable s po = Inr ()"
    "mapE (norm_line_update (s_core s) sid m) (number_lines (pin_lines p)) ([], Decimal 0 0) = Inr (ls, st, total)"
    "upd = (\<lambda>x. x\<lparr>po_supplier_id := sid, po_supplier_name := sname,
       po_warehouse_id := pin_warehouse_id p, po_purchaser := py_strip (pin_purchaser p),
       po_purchase_time := pin_purchase_time p, po_total_amount := Some (to_cents total),
       po_remark := strip_or_none (pin_remark p)\<rparr>)"
    "foldE (insert_purchase_line n) ls (order_emptied n upd (s_core s)) = Inr d2"
    "upsert_completion_rows_for_po n (d2\<lparr>t_completion := filter (\<lambda>c. pc_po_id c \<noteq> n) (t_completion d2)\<rparr>) = Inr d3"
    "s' = s\<lparr>s_core := d3\<rparr>"
  using assms
  by (auto simp: update_po_v2_def res_simps normalize_update_payload_def Let_def order_emptied_def
      replace_purchase_order_lines_def rebuild_completion_rows_for_po_def split: if_splits)

lemma gone_iff:
  assumes "distinct (map pl_id ls)" and "l \<in> set ls"
  shows "list_ex (\<lambda>x. pl_po_id x = n \<and> pl_id x = pl_id l) ls \<longleftrightarrow> pl_po_id l = n"
  using assms by (auto simp: list_ex_iff distinct_map dest: inj_onD)

lemma order_emptied_ids:
  assumes "\<And>x. po_id (upd x) = po_id x"
  shows "map po_id (t_purchase_orders (order_emptied n upd d)) = map po_id (t_purchase_orders d)"
  by (simp add: order_emptied_def delete_purchase_lines_def Let_def update_where_def assms)

lemma order_emptied_head:
  assumes "\<And>x. po_id (upd x) = po_id x"
  shows "po_id ` set (t_purchase_orders (order_emptied n upd d)) = po_id ` set (t_purchase_orders d)"
  using arg_cong [OF order_emptied_ids [of upd n d], of set] assms by simp

lemma orders_ok_ids:
  "orders_ok d \<longleftrightarrow> distinct (map po_id (t_purchase_orders d)) \<and>
     (\<forall>k \<in> po_id ` set (t_purchase_orders d). k < t_next_id d PURCHASE_ORDERS)"
  by (simp add: orders_ok_def)

lemma order_emptied_inv:
  assumes inv: "purchases_inv d" and upd: "\<And>x. po_id (upd x) = po_id x"
  shows "purchases_inv (order_emptied n upd d)"
proof -
  note L = purchases_invD [OF inv]
  let ?e = "order_emptied n upd d"
  let ?gone = "\<lambda>k. list_ex (\<lambda>l. pl_po_id l = n \<and> pl_id l = k) (t_purchase_lines d)"
  have lines: "t_purchase_lines ?e = filter (\<lambda>l. pl_po_id l \<noteq> n) (t_purchase_lines d)"
    and comp: "t_completion ?e = filter (\<lambda>c. \<not> ?gone (pc_po_line_id c)) (t_completion d)"
    and orders: "t_purchase_orders ?e = update_where (\<lambda>x. po_id x = n) upd (t_purchase_orders d)"
    and inb: "t_inbound_lines ?e = update_where (\<lambda>x. case il_po_line_id x of None \<Rightarrow> False | Some k \<Rightarrow> ?gone k)
      (il_po_line_id_update (\<lambda>_. None)) (t_inbound_lines d)"
    and same: "t_item_uoms ?e = t_item_uoms d" "t_events ?e = t_events d" "t_next_id ?e = t_next_id d"
    by (simp_all add: order_emptied_def delete_purchase_lines_def Let_def)
  note ids = order_emptied_ids [OF upd] and head = order_emptied_head [OF upd]
  have dist: "distinct (map pl_id (t_purchase_lines d))" using L(2) by (simp add: lines_ok_def)
  have total: "receipts_total ?e k = receipts_total d k" if "\<not> ?gone k" for k
  proof -
    have "sum_where (\<lambda>x. il_po_line_id x = Some k \<and> commit_of_purchase ?e (il_event_id x)) il_qty_base
        (update_where (\<lambda>x. case il_po_line_id x of None \<Rightarrow> False | Some k \<Rightarrow> ?gone k) (il_po_line_id_update (\<lambda>_. None)) xs) =
      sum_where (\<lambda>x. il_po_line_id x = Some k \<and> commit_of_purchase d (il_event_id x)) il_qty_base xs" for xs
      using that by (induction xs) (auto simp: commit_of_purchase_def same split: option.splits)
    then show ?thesis by (simp add: receipts_total_def inb)
  qed
  have mir: "mirrors ?e l c" if "mirrors d l c" "pl_po_id l \<noteq> n" for l c
    by (rule mirrors_cong [OF that(1)]) (use that(2) in \<open>auto simp: orders same update_where_def image_iff\<close>)
  have "orders_ok ?e"
    using L(1) unfolding orders_ok_ids ids head same .
  moreover have "lines_ok ?e"
    using L(2) unfolding lines_ok_def lines same head by (auto simp: distinct_map inj_on_def)
  moreover have "completion_ok ?e"
    unfolding completion_ok_def
  proof (intro conjI ballI)
    show "distinct (map pc_po_line_id (t_completion ?e))"
      using L(3) by (auto simp: comp completion_ok_def distinct_map inj_on_def)
    have "pc_po_line_id ` set (t_completion ?e) = {k \<in> pc_po_line_id ` set (t_completion d). \<not> ?gone k}"
      unfolding comp by auto
    also have "\<dots> = {k \<in> pl_id ` set (t_purchase_lines d). \<not> ?gone k}" using L(3) by (simp add: completion_ok_def)
    also have "\<dots> = pl_id ` set (t_purchase_lines ?e)"
      using gone_iff [OF dist] by (fastforce simp: lines)
    finally show "pc_po_line_id ` set (t_completion ?e) = pl_id ` set (t_purchase_lines ?e)" .
    fix c assume c: "c \<in> set (t_completion ?e)"
    with L(3) obtain l where l: "l \<in> set (t_purchase_lines d)" "mirrors d l c" "completion_checks c"
      "pc_qty_received_base c = receipts_total d (pc_po_line_id c)" by (auto simp: comp completion_ok_def)
    from c have g: "\<not> ?gone (pc_po_line_id c)" by (simp add: comp)
    with gone_iff [OF dist l(1)] mirrors_sel(1) [OF l(2)] have "pl_po_id l \<noteq> n" by simp
    with l mir g total show "completion_checks c" "pc_qty_received_base c = receipts_total ?e (pc_po_line_id c)"
      "\<exists>l \<in> set (t_purchase_lines ?e). mirrors ?e l c" by (auto simp: lines)
  qed
  moreover have "refs_ok ?e"
  proof (rule refs_okI)
    fix x k assume "x \<in> set (t_inbound_lines ?e)" and k: "il_po_line_id x = Some k"
    then obtain y where y: "y \<in> set (t_inbound_lines d)" "il_po_line_id y = Some k" "\<not> ?gone k"
      by (auto simp: inb update_where_def split: if_splits option.splits)
    from refs_okD [OF L(4) y(1,2)] obtain l where "l \<in> set (t_purchase_lines d)" "pl_id l = k" by blast
    with y(3) gone_iff [OF dist, of l n] show "k \<in> pl_id ` set (t_purchase_lines ?e)" by (auto simp: lines)
  qed
  ultimately show ?thesis by (simp add: purchases_inv_def)
qed

lemma order_emptied_none: "\<forall>l \<in> set (t_purchase_lines (order_emptied n upd d)). pl_po_id l \<noteq> n"
  by (simp add: order_emptied_def delete_purchase_lines_def Let_def)

text \<open>Without lines an order has no completion rows, so the second delete finds nothing.\<close>

lemma no_lines_no_rows:
  assumes "completion_ok d" and "\<forall>l \<in> set (t_purchase_lines d). pl_po_id l \<noteq> n"
  shows "filter (\<lambda>c. pc_po_id c \<noteq> n) (t_completion d) = t_completion d"
  using assms mirrors_sel(2) unfolding filter_id_conv completion_ok_def by metis

lemma update_po_lines:
  assumes run: "update_po_v2 n p s = Inr (u, s')" and inv: "purchases_inv (s_core s)"
  obtains po sid m ls st total e d2 d3 where
    "find (\<lambda>x. po_id x = n) (t_purchase_orders (s_core s)) = Some po" "require_po_editable s po = Inr ()"
    "mapE (norm_line_update (s_core s) sid m) (number_lines (pin_lines p)) ([], Decimal 0 0) = Inr (ls, st, total)"
    "purchases_inv e" "\<forall>l \<in> set (t_purchase_lines e). pl_po_id l \<noteq> n" "n \<in> po_id ` set (t_purchase_orders e)"
    "t_purchase_lines e = filter (\<lambda>l. pl_po_id l \<noteq> n) (t_purchase_lines (s_core s))"
    "foldE (insert_purchase_line n) ls e = Inr d2" "upsert_completion_rows_for_po n d2 = Inr d3" "s' = s\<lparr>s_core := d3\<rparr>"
    "t_item_uoms e = t_item_uoms (s_core s)" "t_next_id e = t_next_id (s_core s)"
    "\<exists>x \<in> set (t_purchase_orders e). po_id x = n \<and> po_total_amount x = Some (to_cents total) \<and> po_status x = po_status po"
  using run
proof (cases rule: update_po_Inr)
  case (1 po sid sname m ls st total upd d2 d3)
  let ?e = "order_emptied n upd (s_core s)"
  have upd: "po_id (upd x) = po_id x" for x by (simp add: 1(4))
  have ok: "purchases_inv ?e" by (rule order_emptied_inv [OF inv upd])
  have "t_completion d2 = t_completion ?e" "\<And>l. l \<in> set (t_purchase_lines ?e) \<Longrightarrow> pl_po_id l \<noteq> n"
    using insert_purchase_lines_Inr(1) [OF 1(5)] order_emptied_none by auto
  then have "filter (\<lambda>c. pc_po_id c \<noteq> n) (t_completion d2) = t_completion d2"
    using no_lines_no_rows [OF purchases_invD(3) [OF ok]] by simp
  then have u: "upsert_completion_rows_for_po n d2 = Inr d3" using 1(6) by simp
  have po: "po \<in> set (t_purchase_orders (s_core s))" "po_id po = n" using find_SomeD [OF 1(1)] by simp_all
  have head: "n \<in> po_id ` set (t_purchase_orders ?e)" using po by (auto simp: order_emptied_head [OF upd])
  have "upd po \<in> set (t_purchase_orders ?e)"
    using po by (auto simp: order_emptied_def delete_purchase_lines_def Let_def update_where_def image_iff)
  with po have "\<exists>x \<in> set (t_purchase_orders ?e). po_id x = n \<and> po_total_amount x = Some (to_cents total) \<and> po_status x = po_status po"
    by (intro bexI [of _ "upd po"]) (simp_all add: 1(4))
  with that [OF 1(1,2,3) ok order_emptied_none head _ 1(5) u 1(7)] show ?thesis
    by (simp add: order_emptied_def delete_purchase_lines_def Let_def)
qed

lemma update_po_inv:
  assumes run: "update_po_v2 n p s = Inr (u, s')" and inv: "purchases_inv (s_core s)"
  shows "purchases_inv (s_core s')"
  using run inv
proof (cases rule: update_po_lines)
  case (1 po sid m ls st total e d2 d3)
  from fresh_lines_inv [OF 1(4,5,8,9,6) norm_lines_qty [OF norm_update_lines [OF 1(3)]]] show ?thesis
    by (simp add: 1(10))
qed

lemma lines_ok_cong:
  assumes "t_purchase_lines d' = t_purchase_lines d" and "t_next_id d' PURCHASE_ORDER_LINES = t_next_id d PURCHASE_ORDER_LINES"
    and "po_id ` set (t_purchase_orders d') = po_id ` set (t_purchase_orders d)"
  shows "lines_ok d' = lines_ok d"
  unfolding lines_ok_def assms by (rule refl)

lemma close_po_inv:
  assumes run: "close_purchase_order now n note s = Inr (u, s')" and inv: "purchases_inv (s_core s)"
  shows "purchases_inv (s_core s')"
proof -
  note L = purchases_invD [OF inv]
  let ?d = "s_core s" and ?e = "s_core s'"
  from run obtain upd where e: "?e = ?d\<lparr>t_purchase_orders := update_where (\<lambda>x. po_id x = n) upd (t_purchase_orders ?d)\<rparr>"
    and upd: "\<And>x. po_id (upd x) = po_id x" "\<And>x u l. completion_row (upd x) u l = completion_row x u l"
    by (fastforce simp: close_purchase_order_def completion_row_def split: option.splits if_splits)
  have ids: "map po_id (t_purchase_orders ?e) = map po_id (t_purchase_orders ?d)"
    by (simp add: e update_where_def upd)
  have head: "po_id ` set (t_purchase_orders ?e) = po_id ` set (t_purchase_orders ?d)"
    using arg_cong [OF ids, of set] by simp
  have mir: "mirrors ?e l c" if "mirrors ?d l c" for l c
  proof -
    from that obtain po u where *: "po \<in> set (t_purchase_orders ?d)" "u \<in> set (t_item_uoms ?d)" "po_id po = pl_po_id l"
      "uo_id u = pl_purchase_uom_id_snapshot l" "c = completion_merge (completion_row po u l) c" by (auto simp: mirrors_def)
    let ?po = "if po_id po = n then upd po else po"
    have "?po \<in> set (t_purchase_orders ?e)" using *(1) by (simp add: e update_where_def)
    moreover have "completion_row ?po u l = completion_row po u l" by (simp add: upd(2))
    ultimately show ?thesis using * upd(1) unfolding mirrors_def
      by (intro bexI [of _ ?po] bexI [of _ u]) (simp_all add: e)
  qed
  have "receipts_total ?e = receipts_total ?d" by (intro ext) (simp add: receipts_total_def commit_of_purchase_def e)
  then have "completion_ok ?e" using L(3) mir unfolding completion_ok_def by (simp add: e) blast
  moreover have "orders_ok ?e" using L(1) unfolding orders_ok_ids ids head by (simp add: e)
  moreover have "lines_ok ?e" using L(2) lines_ok_cong [of ?e ?d] head by (simp add: e)
  moreover have "refs_ok ?e" by (rule refs_okI) (use refs_okD [OF L(4)] in \<open>auto simp: e\<close>)
  ultimately show ?thesis by (simp add: purchases_inv_def)
qed

section \<open>Receipts against order lines\<close>

text \<open>The plan: what an operation of the warehouse leaves alone.\<close>

definition plan_view :: "db \<Rightarrow> _" where
  "plan_view d = (t_purchase_orders d, t_purchase_lines d, t_item_uoms d,
     t_next_id d PURCHASE_ORDERS, t_next_id d PURCHASE_ORDER_LINES)"

definition keeps_plan :: "db \<Rightarrow> db \<Rightarrow> bool" where
  "keeps_plan d d' \<longleftrightarrow> plan_view d' = plan_view d \<and> (refs_ok d \<longrightarrow> refs_ok d')"

interpretation plan: evolution keeps_plan
  by standard (simp_all add: keeps_plan_def)

lemma keeps_planI:
  assumes "plan_view d' = plan_view d" and "t_inbound_lines d' = t_inbound_lines d"
  shows "keeps_plan d d'"
  using assms by (simp add: keeps_plan_def plan_view_def refs_ok_def line_id_used_def cong: option.case_cong)

lemma keeps_plan_adjust:
  assumes "adjust_lot now q d = Inr (out, d')" shows "keeps_plan d d'"
  by (rule keeps_planI) (simp_all add: plan_view_def rest_ofD [OF adjust_lot_rest [OF assms]])

lemma keeps_plan_grow:
  assumes "lots_grow d d'" shows "keeps_plan d d'"
  by (rule keeps_planI) (simp_all add: plan_view_def lots_grow_frame [OF assms])

lemma keeps_plan_event:
  assumes "insert_event e d = Inr (n, d')" shows "keeps_plan d d'"
  by (rule keeps_planI) (simp_all add: plan_view_def insert_event_Inr(2) [OF assms])

lemma keeps_plan_mark: "keeps_plan d (mark_superseded et n d)"
  by (rule keeps_planI) (simp_all add: plan_view_def mark_superseded_def)

text \<open>A foreign key holds the references of event lines.\<close>

lemma keeps_plan_inbound_line:
  assumes "insert_inbound_line l d = Inr (n, d')" shows "keeps_plan d d'"
proof -
  note i = insert_inbound_line_Inr(1) [OF assms]
  have fk: "k \<in> pl_id ` set (t_purchase_lines d)" if "il_po_line_id l = Some k" for k
    using assms that by (auto simp: insert_inbound_line_def next_id_def Let_def split: if_splits)
  have "refs_ok d'" if "refs_ok d"
    by (rule refs_okI) (use refs_okD [OF that] fk in \<open>auto simp: i\<close>)
  then show ?thesis by (simp add: keeps_plan_def plan_view_def i)
qed

lemma keeps_plan_commit_line: "commit_line now p eid eno tr r d = Inr (row, d') \<Longrightarrow> keeps_plan d d'"
  by (auto simp: commit_line_def apply_inbound_stock_def res_simps
      dest!: keeps_plan_adjust keeps_plan_inbound_line intro: plan.evo_trans)

lemma keeps_plan_reverse_line: "reverse_inbound_line now eid eno tr p orig src d = Inr (row, d') \<Longrightarrow> keeps_plan d d'"
  by (auto simp: reverse_inbound_line_def res_simps
      dest!: keeps_plan_adjust keeps_plan_inbound_line intro: plan.evo_trans)

lemma booked_inv:
  assumes inv: "purchases_inv d" and plan: "keeps_plan d d'"
    and lines: "t_inbound_lines d' = t_inbound_lines d @ ls"
    and old: "\<forall>x \<in> set (t_inbound_lines d). commit_of_purchase d' (il_event_id x) = commit_of_purchase d (il_event_id x)"
    and comp: "t_completion d' = map g (t_completion d)"
    and g: "\<And>c. c \<in> set (t_completion d) \<Longrightarrow> (g c = c \<or> (\<exists>t q. g c = completion_add t q c)) \<and> completion_checks (g c) \<and>
      pc_qty_received_base (g c) = pc_qty_received_base c +
        sum_where (\<lambda>x. il_po_line_id x = Some (pc_po_line_id c) \<and> commit_of_purchase d' (il_event_id x)) il_qty_base ls"
  shows "purchases_inv d'"
proof -
  note L = purchases_invD [OF inv]
  have pv: "t_purchase_orders d' = t_purchase_orders d" "t_purchase_lines d' = t_purchase_lines d"
    "t_item_uoms d' = t_item_uoms d" "t_next_id d' PURCHASE_ORDERS = t_next_id d PURCHASE_ORDERS"
    "t_next_id d' PURCHASE_ORDER_LINES = t_next_id d PURCHASE_ORDER_LINES" "refs_ok d'"
    using plan L(4) by (simp_all add: keeps_plan_def plan_view_def)
  have total: "receipts_total d' k = receipts_total d k +
      sum_where (\<lambda>x. il_po_line_id x = Some k \<and> commit_of_purchase d' (il_event_id x)) il_qty_base ls" for k
    unfolding receipts_total_def lines using old by (simp cong: sum_where_cong)
  have ids: "pc_po_line_id (g c) = pc_po_line_id c" if "c \<in> set (t_completion d)" for c using g [OF that] by auto
  have mir: "mirrors d' l (g c)" if "c \<in> set (t_completion d)" "mirrors d l c" for l c
  proof -
    have "mirrors d l (g c)" using g [OF that(1)] that(2) by (auto intro: mirrors_received)
    then show ?thesis by (rule mirrors_cong) (simp_all add: pv)
  qed
  have "map pc_po_line_id (t_completion d') = map pc_po_line_id (t_completion d)" using ids by (simp add: comp)
  moreover from arg_cong [OF this, of set] have "pc_po_line_id ` set (t_completion d') = pc_po_line_id ` set (t_completion d)" by simp
  moreover have "completion_checks c' \<and> pc_qty_received_base c' = receipts_total d' (pc_po_line_id c') \<and>
      (\<exists>l \<in> set (t_purchase_lines d'). mirrors d' l c')" if "c' \<in> set (t_completion d')" for c'
  proof -
    from that obtain c where c: "c \<in> set (t_completion d)" "c' = g c" by (auto simp: comp)
    with L(3) obtain l where "l \<in> set (t_purchase_lines d)" "mirrors d l c"
      "pc_qty_received_base c = receipts_total d (pc_po_line_id c)" by (auto simp: completion_ok_def)
    with c g [OF c(1)] mir [OF c(1)] show ?thesis by (auto simp: total ids pv)
  qed
  ultimately have "completion_ok d'" using L(3) by (simp add: completion_ok_def pv)
  moreover have "orders_ok d'" "lines_ok d'"
    using L(1,2) lines_ok_cong [of d' d] by (simp_all add: orders_ok_def pv)
  ultimately show ?thesis using pv(6) by (simp add: purchases_inv_def)
qed

interpretation same_completion: evolution "\<lambda>d d'. t_completion d' = t_completion d"
  by standard simp_all

lemma commit_line_completion:
  assumes "commit_line now p eid eno tr r d = Inr (row, d')"
  shows "t_completion d' = t_completion d"
proof -
  from assms obtain l n d1 q out where
    1: "insert_inbound_line l d = Inr (n, d1)" and 2: "adjust_lot now q d1 = Inr (out, d')"
    by (auto simp: commit_line_def apply_inbound_stock_def res_simps)
  show ?thesis by (simp add: insert_inbound_line_Inr(1) [OF 1] rest_ofD [OF adjust_lot_rest [OF 2]])
qed

lemma commit_inbound_plan:
  assumes run: "commit_inbound now eno tr u p d = Inr (out, d')" and w: "warehouse_inv d"
    and new: "\<forall>x \<in> set (t_ledger d). lg_ref x \<noteq> eno"
  shows "keeps_plan d d'" and "plan_view d' = plan_view d"
proof -
  from run obtain d1 d2 d3 rs where
    c: "mapE (resolve_line (ci_warehouse_id p) (ci_source_type p)) (number_lines (ci_lines p)) d = Inr (rs, d1)"
    "insert_event (commit_event now u eno tr p) d1 = Inr (co_event_id out, d2)"
    "mapE (commit_line now p (co_event_id out) eno tr) rs d2 = Inr (co_rows out, d3)" and
    last: "if ci_source_type p = ''PURCHASE_ORDER''
     then apply_completion_delta_for_event (co_event_id out) (ci_occurred_at p) d3 = Inr ((), d') else d' = d3"
    by (auto simp: commit_inbound_def res_simps sync_purchase_completion_for_inbound_event_def split: if_splits)
  have keep3: "keeps_plan d d3"
    by (rule plan.evo_trans [OF keeps_plan_grow [OF resolve_lines_Inr(1) [OF c(1)]] plan.evo_trans
          [OF keeps_plan_event [OF c(2)] plan.evo_mapE [OF keeps_plan_commit_line c(3)]]])
  show "keeps_plan d d'"
  proof (cases "ci_source_type p = ''PURCHASE_ORDER''")
    case True
    with last have a: "apply_completion_delta_for_event (co_event_id out) (ci_occurred_at p) d3 = Inr ((), d')" by simp
    have "keeps_plan d3 d'" by (rule keeps_planI) (simp_all add: plan_view_def apply_completion_Inr [OF a])
    with keep3 show ?thesis by (rule plan.evo_trans)
  qed (use last keep3 in simp)
  then show "plan_view d' = plan_view d" by (simp add: keeps_plan_def)
qed

lemma completion_ok_inv:
  assumes "completion_ok d" and "t_completion e = t_completion d"
  shows "completion_inv e"
proof -
  have "completion_checks c \<and>
      pc_line_completion_status c = completion_status_of (pc_qty_received_base c) (pc_qty_ordered_base c)"
    if "c \<in> set (t_completion d)" for c
  proof -
    from assms(1) that obtain l where "mirrors d l c" "completion_checks c" by (auto simp: completion_ok_def)
    with mirrors_sel(3,6) [of d l c] show ?thesis by simp
  qed
  with assms show ?thesis by (simp add: completion_inv_def completion_ok_def)
qed

lemma commit_of_purchase_old:
  fixes d d' :: db
  assumes "t_events d' = t_events d @ [e]" and "n \<noteq> ev_id e"
  shows "commit_of_purchase d' n = commit_of_purchase d n"
  using assms by (simp add: commit_of_purchase_def)

lemma commit_of_purchase_new:
  fixes d d' :: db
  assumes "t_events d' = t_events d @ [e]" and "ev_id e \<notin> ev_id ` set (t_events d)"
  shows "commit_of_purchase d' (ev_id e) = (ev_event_type e = ''INBOUND'' \<and> ev_source_type e = ''PURCHASE_ORDER'' \<and>
    ev_event_kind e = ''COMMIT'')"
proof -
  have "\<not> commit_of_purchase d (ev_id e)"
  proof
    assume "commit_of_purchase d (ev_id e)"
    then obtain x where "x \<in> set (t_events d)" "ev_id x = ev_id e" by (auto simp: commit_of_purchase_def list_ex_iff)
    with assms(2) show False by (metis image_eqI)
  qed
  then show ?thesis unfolding commit_of_purchase_def assms(1) list_ex_append by simp
qed

lemma inbound_lines_events:
  assumes "warehouse_inv d" and "x \<in> set (t_inbound_lines d)"
  shows "il_event_id x \<in> ev_id ` set (t_events d)" "il_event_id x \<noteq> t_next_id d WMS_EVENTS"
proof -
  note ev = warehouse_invD(3) [OF assms(1)]
  show "il_event_id x \<in> ev_id ` set (t_events d)" using ev assms(2) by (simp add: events_inv_def)
  then show "il_event_id x \<noteq> t_next_id d WMS_EVENTS" using ev by (force simp: events_inv_def)
qed

lemma next_event_new: "warehouse_inv d \<Longrightarrow> t_next_id d WMS_EVENTS \<notin> ev_id ` set (t_events d)"
  by (drule warehouse_invD(3)) (force simp: events_inv_def)

lemma receive_purchases_inv:
  assumes run: "commit_inbound now eno tr u p d = Inr (out, d')" and w: "warehouse_inv d" and inv: "purchases_inv d"
    and new: "\<forall>x \<in> set (t_ledger d). lg_ref x \<noteq> eno"
  shows "purchases_inv d'"
proof -
  obtain d1 d2 d3 rs prs where
    c: "mapE (resolve_line (ci_warehouse_id p) (ci_source_type p)) (number_lines (ci_lines p)) d = Inr (rs, d1)"
    "lots_grow d d1" "warehouse_inv d1" "insert_event (commit_event now u eno tr p) d1 = Inr (co_event_id out, d2)"
    "mapE (commit_line now p (co_event_id out) eno tr) rs d2 = Inr (co_rows out, d3)"
    "warehouse_inv d'" "posts d1 (map snd prs) d'" "t_inbound_lines d' = t_inbound_lines d @ map fst prs"
    "t_events d' = t_events d @ [(commit_event now u eno tr p)\<lparr>ev_id := co_event_id out\<rparr>]"
    "list_all2 (\<lambda>row (l, x). commit_pair_ok (t_items d) p (co_event_id out) eno row l x) (co_rows out) prs"
    "t_count_docs d' = t_count_docs d" "length prs = length (ci_lines p)"
    "if ci_source_type p = ''PURCHASE_ORDER''
     then apply_completion_delta_for_event (co_event_id out) (ci_occurred_at p) d3 = Inr ((), d') \<and>
       t_completion d3 = t_completion d else d' = d3"
    by (rule commit_inbound_Inr [OF run w new])
  let ?eid = "co_event_id out" and ?ls = "map fst prs"
  let ?po = "ci_source_type p = ''PURCHASE_ORDER''"
  have eid: "?eid = t_next_id d WMS_EVENTS"
    using insert_event_Inr(1) [OF c(4)] lots_grow_frame(17) [OF c(2)] by simp
  have comp3: "t_completion d3 = t_completion d"
    using same_completion.evo_mapE [OF commit_line_completion c(5)]
    by (simp add: insert_event_Inr(2) [OF c(4)] lots_grow_frame [OF c(2)])
  note keep = commit_inbound_plan(1) [OF run w new]
  have lines: "il_event_id x = ?eid" if x: "x \<in> set ?ls" for x
  proof -
    from x obtain r where "(x, r) \<in> set prs" by auto
    from list_all2_in_right [OF c(10) this] show ?thesis by (auto simp: commit_pair_ok_def)
  qed
  have old: "il_event_id x \<noteq> ?eid" if "x \<in> set (t_inbound_lines d)" for x
    using inbound_lines_events(2) [OF w that] eid by simp
  have is_po: "commit_of_purchase d' ?eid = ?po"
    using commit_of_purchase_new [OF c(9)] next_event_new [OF w] eid by (simp add: commit_event_def)
  have qty: "event_line_qty d' ?eid k = sum_where (\<lambda>x. il_po_line_id x = Some k) il_qty_base ?ls" for k
  proof -
    have "sum_where (\<lambda>x. il_event_id x = ?eid \<and> il_po_line_id x = Some k) il_qty_base (t_inbound_lines d) = 0"
      by (rule sum_where_none) (use old in auto)
    moreover have "sum_where (\<lambda>x. il_event_id x = ?eid \<and> il_po_line_id x = Some k) il_qty_base ?ls =
        sum_where (\<lambda>x. il_po_line_id x = Some k) il_qty_base ?ls"
      by (rule sum_where_cong) (use lines in simp)
    ultimately show ?thesis by (simp add: event_line_qty_def c(8))
  qed
  let ?hit = "\<lambda>c. \<exists>l \<in> set (t_inbound_lines d'). il_event_id l = ?eid \<and> il_po_line_id l = Some (pc_po_line_id c)"
  let ?g = "\<lambda>c. if ?po \<and> ?hit c then completion_add (ci_occurred_at p) (event_line_qty d' ?eid (pc_po_line_id c)) c else c"
  have comp: "t_completion d' = map ?g (t_completion d) \<and> (\<forall>c \<in> set (t_completion d'). completion_checks c)"
  proof (cases ?po)
    case True
    with c(13) have a: "apply_completion_delta_for_event ?eid (ci_occurred_at p) d3 = Inr ((), d')" by simp
    note ai = apply_completion_Inr [OF a]
    have "t_inbound_lines d3 = t_inbound_lines d'" by (simp add: ai)
    then have "event_line_qty d3 = event_line_qty d'" by (intro ext) (simp add: event_line_qty_def)
    from arg_cong [OF ai, of t_completion] have "t_completion d' = map (\<lambda>c. if \<exists>l \<in> set (t_inbound_lines d').
        il_event_id l = ?eid \<and> il_po_line_id l = Some (pc_po_line_id c)
      then completion_add (ci_occurred_at p) (event_line_qty d' ?eid (pc_po_line_id c)) c else c) (t_completion d)"
      unfolding \<open>t_inbound_lines d3 = t_inbound_lines d'\<close> \<open>event_line_qty d3 = event_line_qty d'\<close> comp3 by simp
    with True have "t_completion d' = map ?g (t_completion d)" by simp
    moreover have "completion_inv d'"
      by (rule apply_completion_inv [OF a completion_ok_inv [OF purchases_invD(3) [OF inv] comp3]])
    ultimately show ?thesis by (simp add: completion_inv_def)
  next
    case False
    with c(13) comp3 purchases_invD(3) [OF inv] show ?thesis by (simp add: completion_ok_def)
  qed
  show ?thesis
  proof (rule booked_inv [OF inv keep c(8)])
    show "\<forall>x \<in> set (t_inbound_lines d). commit_of_purchase d' (il_event_id x) = commit_of_purchase d (il_event_id x)"
      using commit_of_purchase_old [OF c(9)] old by simp
    show "t_completion d' = map ?g (t_completion d)" using comp by simp
    fix r assume r: "r \<in> set (t_completion d)"
    let ?k = "pc_po_line_id r"
    have "completion_checks (?g r)" using r comp by auto
    moreover have "sum_where (\<lambda>x. il_po_line_id x = Some ?k \<and> commit_of_purchase d' (il_event_id x)) il_qty_base ?ls =
        (if ?po then event_line_qty d' ?eid ?k else 0)"
      unfolding qty using lines is_po by (auto intro!: sum_where_cong sum_where_none)
    moreover have "\<not> ?hit r \<Longrightarrow> event_line_qty d' ?eid ?k = 0" by (rule event_line_qty_none)
    ultimately show "(?g r = r \<or> (\<exists>t q. ?g r = completion_add t q r)) \<and> completion_checks (?g r) \<and>
        pc_qty_received_base (?g r) = pc_qty_received_base r +
          sum_where (\<lambda>x. il_po_line_id x = Some ?k \<and> commit_of_purchase d' (il_event_id x)) il_qty_base ?ls"
      by auto
  qed
qed

lemma commit_of_purchase_mark: "commit_of_purchase (mark_superseded et k d) n = commit_of_purchase d n"
proof -
  have "list_ex (\<lambda>e. ev_id e = n \<and> ev_event_type e = a \<and> ev_source_type e = b \<and> ev_event_kind e = c)
      (update_where p (\<lambda>e. e\<lparr>ev_status := x\<rparr>) es) =
    list_ex (\<lambda>e. ev_id e = n \<and> ev_event_type e = a \<and> ev_source_type e = b \<and> ev_event_kind e = c) es"
    for p x a b c es by (induction es) auto
  then show ?thesis by (simp add: commit_of_purchase_def mark_superseded_def)
qed

lemma take_back_purchases_inv:
  assumes run: "reverse_inbound_event now eno tr u n p d = Inr (out, d')" and w: "warehouse_inv d" and inv: "purchases_inv d"
    and new: "\<forall>x \<in> set (t_ledger d). lg_ref x \<noteq> eno"
  shows "purchases_inv d'"
proof -
  obtain orig prs d2 where r: "reversible_event ''INBOUND'' d n = Inr orig"
    "ensure_warehouse_not_frozen d (ev_warehouse_id orig) = Inr ()"
    "warehouse_inv d'" "posts d (map snd prs) d'" "t_inbound_lines d' = t_inbound_lines d @ map fst prs"
    "list_all2 (\<lambda>src (l, x). reversed_inbound orig (ro_event_id out) eno src l x)
       (sort_key il_line_no (filter (\<lambda>l. il_event_id l = n) (t_inbound_lines d))) prs"
    "t_completion d' = t_completion d" "d' = mark_superseded ''INBOUND'' n d2"
    "t_events d2 = t_events d @ [(reversal_event now ''INBOUND'' eno tr u p orig)\<lparr>ev_id := ro_event_id out\<rparr>]"
    by (rule inbound_reversal.reverse_Inr [OF run w new])
  from inbound_reversal.run_Inr [OF run] obtain orig' srcs d1 d3 rows where
    m: "insert_event (reversal_event now ''INBOUND'' eno tr u p orig') d = Inr (ro_event_id out, d1)"
    "mapE (reverse_inbound_line now (ro_event_id out) eno tr p orig') srcs d1 = Inr (rows, d3)"
    "d' = mark_superseded ''INBOUND'' n d3" by blast
  let ?eid = "ro_event_id out" and ?ls = "map fst prs"
  have eid: "?eid = t_next_id d WMS_EVENTS" by (rule insert_event_Inr(1) [OF m(1)])
  have keep: "keeps_plan d d'"
    unfolding m(3) by (rule plan.evo_trans [OF keeps_plan_event [OF m(1)]
          plan.evo_trans [OF plan.evo_mapE [OF keeps_plan_reverse_line m(2)] keeps_plan_mark]])
  have lines: "il_event_id x = ?eid" if x: "x \<in> set ?ls" for x
  proof -
    from x obtain r where "(x, r) \<in> set prs" by auto
    from list_all2_in_right [OF r(6) this] show ?thesis by (auto simp: reversed_inbound_def)
  qed
  have none: "\<not> commit_of_purchase d' ?eid"
    using commit_of_purchase_new [OF r(9)] next_event_new [OF w] eid
    unfolding r(8) commit_of_purchase_mark by (simp add: reversal_event_def)
  show ?thesis
  proof (rule booked_inv [OF inv keep r(5), where g = "\<lambda>c. c"])
    show "\<forall>x \<in> set (t_inbound_lines d). commit_of_purchase d' (il_event_id x) = commit_of_purchase d (il_event_id x)"
      using commit_of_purchase_old [OF r(9)] inbound_lines_events(2) [OF w] eid
      unfolding r(8) commit_of_purchase_mark by simp
    show "t_completion d' = map (\<lambda>c. c) (t_completion d)" using r(7) by simp
    fix c assume c: "c \<in> set (t_completion d)"
    have "sum_where (\<lambda>x. il_po_line_id x = Some (pc_po_line_id c) \<and> commit_of_purchase d' (il_event_id x)) il_qty_base ?ls = 0"
      by (rule sum_where_none) (use lines none in auto)
    with c purchases_invD(3) [OF inv]
    show "(c = c \<or> (\<exists>t q. c = completion_add t q c)) \<and> completion_checks c \<and>
        pc_qty_received_base c = pc_qty_received_base c +
          sum_where (\<lambda>x. il_po_line_id x = Some (pc_po_line_id c) \<and> commit_of_purchase d' (il_event_id x)) il_qty_base ?ls"
      by (simp add: completion_ok_def)
  qed
qed

section \<open>Runs\<close>

text \<open>
  The procurement routes, the inbound commits and their reversals. Receiving operations
  (\<open>submit_inbound_operation\<close>) write lines of receipt events as well but no completion rows
  (\<open>receiving_forgets_purchase\<close>), which breaks \<open>purchases_inv\<close>: they are no step of these runs.
\<close>

inductive purchase_step :: "site \<Rightarrow> site \<Rightarrow> bool" where
  order: "create_purchase_order p s = Inr (out, s') \<Longrightarrow> purchase_step s s'"
| edit: "update_purchase_order n p s = Inr (out2, s') \<Longrightarrow> purchase_step s s'"
| close: "close_purchase_order now n remark s = Inr (out2, s') \<Longrightarrow> purchase_step s s'"
| receive: "commit_inbound now eno tr u q (s_core s) = Inr (out3, d') \<Longrightarrow>
    \<forall>x \<in> set (t_ledger (s_core s)). lg_ref x \<noteq> eno \<Longrightarrow> purchase_step s (s\<lparr>s_core := d'\<rparr>)"
| take_back: "reverse_inbound_event now eno tr u n r (s_core s) = Inr (out4, d') \<Longrightarrow>
    \<forall>x \<in> set (t_ledger (s_core s)). lg_ref x \<noteq> eno \<Longrightarrow> purchase_step s (s\<lparr>s_core := d'\<rparr>)"

lemma order_emptied_warehouse_inv: "warehouse_inv d \<Longrightarrow> warehouse_inv (order_emptied n upd d)"
proof -
  assume w: "warehouse_inv d"
  let ?e = "order_emptied n upd d"
  have inb: "\<exists>g. t_inbound_lines ?e = update_where g (il_po_line_id_update (\<lambda>_. None)) (t_inbound_lines d)"
    by (auto simp: order_emptied_def delete_purchase_lines_def Let_def)
  then obtain g where g: "t_inbound_lines ?e = update_where g (il_po_line_id_update (\<lambda>_. None)) (t_inbound_lines d)" by blast
  have same: "t_lots ?e = t_lots d" "t_items ?e = t_items d" "t_stocks ?e = t_stocks d" "t_ledger ?e = t_ledger d"
    "t_events ?e = t_events d" "t_outbound_lines ?e = t_outbound_lines d" "t_next_id ?e = t_next_id d"
    by (simp_all add: order_emptied_def delete_purchase_lines_def Let_def)
  have keys: "map (\<lambda>l. (il_event_id l, il_line_no l)) (t_inbound_lines ?e) =
      map (\<lambda>l. (il_event_id l, il_line_no l)) (t_inbound_lines d)"
    unfolding g by (simp add: update_where_def)
  have rows: "il_event_id l \<in> ev_id ` set (t_events d) \<and> inbound_line_checks l"
    if "l \<in> set (t_inbound_lines ?e)" "\<forall>l \<in> set (t_inbound_lines d). il_event_id l \<in> ev_id ` set (t_events d) \<and> inbound_line_checks l" for l
    using that unfolding g by (auto simp: update_where_def inbound_line_checks_def cong: option.case_cong)
  have "events_inv ?e" if "events_inv d"
    using that rows keys unfolding events_inv_def by (simp only: same) blast
  moreover have "lots_inv ?e = lots_inv d" "book_inv ?e = book_inv d"
    by (rule lots_inv_cong book_inv_cong; simp add: same)+
  ultimately show ?thesis using w by (simp add: warehouse_inv_def)
qed

lemma upsert_keeps_rest:
  "foldE upsert_completion_row rows d = Inr d' \<Longrightarrow> \<exists>cs. d' = d\<lparr>t_completion := cs\<rparr>"
proof (induction rows arbitrary: d)
  case (Cons c rows)
  then obtain f where f: "upsert_completion_row c d = Inr f" "foldE upsert_completion_row rows f = Inr d'"
    by (auto simp: bindE_eq_Inr)
  from f(1) have "\<exists>cs. f = d\<lparr>t_completion := cs\<rparr>"
    by (auto simp: upsert_completion_row_def Let_def split: if_splits option.splits)
  with Cons.IH [OF f(2)] show ?case by auto
next
  case Nil
  then show ?case by (intro exI [of _ "t_completion d"]) simp
qed

lemma upsert_keeps_lines: "foldE upsert_completion_row rows d = Inr d' \<Longrightarrow> t_purchase_lines d' = t_purchase_lines d"
  by (auto dest: upsert_keeps_rest)

lemma lines_inserted_warehouse_inv:
  assumes "foldE (insert_purchase_line n) ls d = Inr e" and "upsert_completion_rows_for_po n e = Inr d'"
    and "warehouse_inv d"
  shows "warehouse_inv d'"
proof -
  from upsert_keeps_rest assms(2) obtain cs where "d' = e\<lparr>t_completion := cs\<rparr>" unfolding upsert_completion_rows_for_po_def by blast
  with insert_purchase_lines_Inr(1) [OF assms(1)] have "warehouse_inv d' = warehouse_inv d"
    by (intro warehouse_inv_cong) simp_all
  with assms(3) show ?thesis by simp
qed

lemma purchase_step_inv:
  assumes "purchase_step s s'" and inv: "purchases_inv (s_core s)" "warehouse_inv (s_core s)"
  shows "purchases_inv (s_core s') \<and> warehouse_inv (s_core s')"
  using assms(1)
proof cases
  case (order p po)
  then have c: "create_po_v2 p s = Inr (po, s')"
    by (auto simp: create_purchase_order_def split: if_splits)
  then have "warehouse_inv (s_core s')"
  proof (cases rule: create_po_Inr)
    case (1 sid sname m ls total d1 d2 d3)
    have "warehouse_inv d1 = warehouse_inv (s_core s)" by (rule warehouse_inv_cong) (simp_all add: 1(4))
    with lines_inserted_warehouse_inv [OF 1(5,6)] inv(2) show ?thesis by (simp add: 1(7))
  qed
  with create_po_inv [OF c inv(1)] show ?thesis by simp
next
  case (edit n p u)
  then have c: "update_po_v2 n p s = Inr (u, s')"
    by (auto simp: update_purchase_order_def split: if_splits)
  then have "warehouse_inv (s_core s')"
  proof (cases rule: update_po_Inr)
    case (1 po sid sname m ls st total upd d2 d3)
    let ?e = "order_emptied n upd (s_core s)"
    have "warehouse_inv d2"
    proof -
      have "warehouse_inv d2 = warehouse_inv ?e"
        by (rule warehouse_inv_cong) (simp_all add: insert_purchase_lines_Inr(1) [OF 1(5)])
      with order_emptied_warehouse_inv [OF inv(2)] show ?thesis by simp
    qed
    then have "warehouse_inv (d2\<lparr>t_completion := filter (\<lambda>c. pc_po_id c \<noteq> n) (t_completion d2)\<rparr>)"
      by (subst warehouse_inv_cong [of _ d2]) simp_all
    from lines_inserted_warehouse_inv [OF _ 1(6) this, of "[]"] show ?thesis by (simp add: 1(7))
  qed
  with update_po_inv [OF c inv(1)] show ?thesis by simp
next
  case (close now n remark u)
  then obtain pos where "s_core s' = (s_core s)\<lparr>t_purchase_orders := pos\<rparr>"
    by (auto simp: close_purchase_order_def split: option.splits if_splits)
  then have "warehouse_inv (s_core s') = warehouse_inv (s_core s)" by (intro warehouse_inv_cong) simp_all
  with close_po_inv [OF close inv(1)] inv(2) show ?thesis by simp
next
  case (receive now eno tr u q out d')
  from receive_purchases_inv [OF receive(2) inv(2,1) receive(3)]
    commit_inbound_Inr [OF receive(2) inv(2) receive(3)] show ?thesis by (simp add: receive(1)) metis
next
  case (take_back now eno tr u n r out d')
  from take_back_purchases_inv [OF take_back(2) inv(2,1) take_back(3)]
    inbound_reversal.reverse_Inr [OF take_back(2) inv(2) take_back(3)] show ?thesis by (simp add: take_back(1)) metis
qed

lemma purchase_run_inv:
  assumes "purchase_step\<^sup>*\<^sup>* s s'" and "purchases_inv (s_core s)" and "warehouse_inv (s_core s)"
  shows "purchases_inv (s_core s') \<and> warehouse_inv (s_core s')"
  using assms by (induction rule: rtranclp_induct) (auto dest: purchase_step_inv)

end
