(* ===== verification/PurchaseRuns.thy ===== *)
theory PurchaseRuns
  imports PurchaseLife
begin

text \<open>The properties of the procurement services, on runs of their operations and of receipts.\<close>

section \<open>A sample office\<close>

text \<open>An order for three boxes of ten at 12.50 a piece, and a receipt of twelve pieces against it.\<close>

definition sample_office :: site where
  "sample_office = sample_site\<lparr>s_core := (s_core sample_site)\<lparr>t_purchase_orders := [], t_purchase_lines := []\<rparr>\<rparr>"

definition order_line_in :: "int \<Rightarrow> int \<Rightarrow> decimal option \<Rightarrow> purchase_line_in" where
  "order_line_in n qty price =
     \<lparr>pli_line_no = Some n, pli_item_id = 2, pli_uom_id = Some 22, pli_qty_input = Some qty,
      pli_supply_price = price, pli_spec_text = None, pli_remark = None\<rparr>"

definition sample_order :: "purchase_line_in list \<Rightarrow> purchase_in" where
  "sample_order ls =
     \<lparr>pin_supplier_id = 3, pin_warehouse_id = 7, pin_purchaser = '' ANN'', pin_purchase_time = 5,
      pin_remark = None, pin_lines = ls\<rparr>"

definition order_receipt :: commit_in where
  "order_receipt =
     \<lparr>ci_warehouse_id = 7, ci_source_type = ''PURCHASE_ORDER'', ci_source_ref = Some ''PO-1'',
      ci_occurred_at = 5, ci_remark = None, ci_lines =
       [\<lparr>cli_item_id = Some 2, cli_barcode = None, cli_uom_id = Some 21, cli_qty_input = 12,
         cli_lot_code_input = None, cli_production_date = None, cli_expiry_date = None,
         cli_po_line_id = Some 1, cli_remark = None\<rparr>]\<rparr>"

definition result_site :: "site \<Rightarrow> (error + 'a \<times> site) \<Rightarrow> site" where
  "result_site s r = (case r of Inl _ \<Rightarrow> s | Inr (_, s') \<Rightarrow> s')"

definition ordered_site :: site where
  "ordered_site = result_site sample_office
     (create_purchase_order (sample_order [order_line_in 1 3 (Some (Decimal 1250 2))]) sample_office)"

definition partly_received :: site where
  "partly_received = ordered_site\<lparr>s_core := (case commit_inbound 9 ''IE-1'' ''T-1'' None order_receipt (s_core ordered_site) of
     Inl _ \<Rightarrow> s_core ordered_site | Inr (_, d) \<Rightarrow> d)\<rparr>"

lemma result_site_Inr: "returns r (\<lambda>_. True) \<Longrightarrow> \<exists>x. r = Inr (x, result_site s r)"
  by (cases r) (auto simp: result_site_def returns_iff)

lemma ordered_run: "\<exists>po. create_purchase_order (sample_order [order_line_in 1 3 (Some (Decimal 1250 2))]) sample_office = Inr (po, ordered_site)"
  unfolding ordered_site_def by (rule result_site_Inr) code_simp

lemma partly_received_run:
  "\<exists>out. commit_inbound 9 ''IE-1'' ''T-1'' None order_receipt (s_core ordered_site) = Inr (out, s_core partly_received) \<and>
     map cr_po_line_id (co_rows out) = [Some 1]"
proof -
  have "returns (commit_inbound 9 ''IE-1'' ''T-1'' None order_receipt (s_core ordered_site))
      (\<lambda>(out, _). map cr_po_line_id (co_rows out) = [Some 1])" by code_simp
  then show ?thesis by (auto simp: partly_received_def returns_pair)
qed

lemma sample_office_inv: "purchases_inv (s_core sample_office)" "warehouse_inv (s_core sample_office)"
proof -
  show "purchases_inv (s_core sample_office)"
    by (simp add: purchases_inv_def orders_ok_def lines_ok_def completion_ok_def refs_ok_def sample_office_def
        sample_site_def sample_db_def)
  have "warehouse_inv (s_core sample_office) = warehouse_inv (s_core sample_site)"
    by (rule warehouse_inv_cong) (simp_all add: sample_office_def)
  with sample_site_inv show "warehouse_inv (s_core sample_office)" by simp
qed

lemma sample_steps: "purchase_step sample_office ordered_site" "purchase_step ordered_site partly_received"
proof -
  from ordered_run obtain po where "create_purchase_order (sample_order [order_line_in 1 3 (Some (Decimal 1250 2))]) sample_office = Inr (po, ordered_site)" ..
  then show "purchase_step sample_office ordered_site" by (rule purchase_step.order)
  from partly_received_run obtain out where
    "commit_inbound 9 ''IE-1'' ''T-1'' None order_receipt (s_core ordered_site) = Inr (out, s_core partly_received)" by blast
  moreover have "\<forall>x \<in> set (t_ledger (s_core ordered_site)). lg_ref x \<noteq> ''IE-1''" by code_simp
  moreover have "ordered_site\<lparr>s_core := s_core partly_received\<rparr> = partly_received" by (simp add: partly_received_def)
  ultimately show "purchase_step ordered_site partly_received" using purchase_step.receive by metis
qed

lemma sample_run: "purchase_step\<^sup>*\<^sup>* sample_office partly_received"
  using sample_steps by auto

lemma partly_received_inv: "purchases_inv (s_core partly_received)" "warehouse_inv (s_core partly_received)"
  using purchase_run_inv [OF sample_run sample_office_inv] by simp_all

lemma partly_received_values:
  "map pc_qty_received_base (t_completion (s_core partly_received)) = [12]"
  "map pc_line_completion_status (t_completion (s_core partly_received)) = [''PARTIAL'']"
  "map po_id (t_purchase_orders (s_core partly_received)) = [1]"
  by code_simp+

section \<open>The completion rows\<close>

text \<open>
  C26. The completion table is exact. Along any run of the procurement routes (create, edit, close)
  and of receipts and their reversals, every purchase order line has exactly one completion row;
  the row repeats the plan of the line and of its order, its remaining quantity and its status
  follow from what was ordered and received, and what it counts as received is the sum of the base
  quantities that purchase receipts have booked against that line (reversed ones included).
\<close>

theorem completion_rows_exact:
  assumes "purchase_step\<^sup>*\<^sup>* s s'" and "purchases_inv (s_core s)" and "warehouse_inv (s_core s)"
  shows "(distinct (map pc_po_line_id (t_completion (s_core s')))) \<and>
    (pc_po_line_id ` set (t_completion (s_core s')) = pl_id ` set (t_purchase_lines (s_core s'))) \<and>
    (\<forall>c \<in> set (t_completion (s_core s')).
      (\<exists>l \<in> set (t_purchase_lines (s_core s')). mirrors (s_core s') l c) \<and>
      pc_qty_received_base c = receipts_total (s_core s') (pc_po_line_id c) \<and>
      pc_qty_remaining_base c = max (pc_qty_ordered_base c - pc_qty_received_base c) 0 \<and>
      pc_line_completion_status c = completion_status_of (pc_qty_received_base c) (pc_qty_ordered_base c))"
proof -
  from purchase_run_inv [OF assms] have ok: "completion_ok (s_core s')" by (simp add: purchases_inv_def)
  then have c: "distinct (map pc_po_line_id (t_completion (s_core s')))"
    "pc_po_line_id ` set (t_completion (s_core s')) = pl_id ` set (t_purchase_lines (s_core s'))"
    by (simp_all add: completion_ok_def)
  have "mirrors (s_core s') l c \<Longrightarrow> pc_qty_remaining_base c = max (pc_qty_ordered_base c - pc_qty_received_base c) 0 \<and>
      pc_line_completion_status c = completion_status_of (pc_qty_received_base c) (pc_qty_ordered_base c)" for l c
    using mirrors_sel(3,5,6) [of "s_core s'" l c] by simp
  with ok have r: "\<forall>c \<in> set (t_completion (s_core s')).
      (\<exists>l \<in> set (t_purchase_lines (s_core s')). mirrors (s_core s') l c) \<and>
      pc_qty_received_base c = receipts_total (s_core s') (pc_po_line_id c) \<and>
      pc_qty_remaining_base c = max (pc_qty_ordered_base c - pc_qty_received_base c) 0 \<and>
      pc_line_completion_status c = completion_status_of (pc_qty_received_base c) (pc_qty_ordered_base c)"
    unfolding completion_ok_def by blast
  show ?thesis by (intro conjI c r)
qed

lemma completion_rows_exact_witness:
  "map pc_qty_received_base (t_completion (s_core partly_received)) = [12] \<and>
   receipts_total (s_core partly_received) 1 = 12"
proof -
  from completion_rows_exact [OF sample_run sample_office_inv]
  have "\<forall>c \<in> set (t_completion (s_core partly_received)).
      pc_qty_received_base c = receipts_total (s_core partly_received) (pc_po_line_id c)" by blast
  moreover have "map pc_po_line_id (t_completion (s_core partly_received)) = [1]" by code_simp
  ultimately show ?thesis using partly_received_values(1) by (auto simp: map_eq_Cons_conv)
qed

section \<open>Editing\<close>

text \<open>
  Editing replaces an order. If \<open>update_po_v2\<close> succeeds, the order was \<open>CREATED\<close>, had no released
  receipt and no committed receipt on its lines; afterwards its lines are those of the request, in
  order, with base quantities that are the input quantity times the ratio of the unit, its
  completion rows start at nothing received, and the lines of every other order are as before.
\<close>

theorem update_replaces_order:
  assumes run: "update_po_v2 n p s = Inr (u, s')" and inv: "purchases_inv (s_core s)"
  shows "(\<not> has_po_confirmed_receipt s n \<and> \<not> has_po_committed_inbound_facts (s_core s) n) \<and>
    (\<exists>po \<in> set (t_purchase_orders (s_core s)). po_id po = n \<and> py_upper (po_status po) = ''CREATED'') \<and>
    (list_all2 (\<lambda>(idx, raw) l. pl_line_no l = line_no_or idx (pli_line_no raw) \<and> pl_item_id l = pli_item_id raw \<and>
        pli_qty_input raw = Some (pl_qty_ordered_input l) \<and> 0 < pl_qty_ordered_base l \<and>
        pl_qty_ordered_base l = pl_qty_ordered_input l * pl_purchase_ratio_to_base_snapshot l)
      (number_lines (pin_lines p)) (filter (\<lambda>l. pl_po_id l = n) (t_purchase_lines (s_core s')))) \<and>
    (filter (\<lambda>l. pl_po_id l \<noteq> n) (t_purchase_lines (s_core s')) = filter (\<lambda>l. pl_po_id l \<noteq> n) (t_purchase_lines (s_core s))) \<and>
    (\<forall>c \<in> set (t_completion (s_core s')). pc_po_id c = n \<longrightarrow>
      pc_qty_received_base c = 0 \<and> pc_line_completion_status c = ''NOT_RECEIVED'')"
proof -
  obtain po sid m ls st total e d2 d3 where
    1: "find (\<lambda>x. po_id x = n) (t_purchase_orders (s_core s)) = Some po" "require_po_editable s po = Inr ()"
    "mapE (norm_line_update (s_core s) sid m) (number_lines (pin_lines p)) ([], Decimal 0 0) = Inr (ls, st, total)"
    "purchases_inv e" "\<forall>l \<in> set (t_purchase_lines e). pl_po_id l \<noteq> n" "n \<in> po_id ` set (t_purchase_orders e)"
    "t_purchase_lines e = filter (\<lambda>l. pl_po_id l \<noteq> n) (t_purchase_lines (s_core s))"
    "foldE (insert_purchase_line n) ls e = Inr d2" "upsert_completion_rows_for_po n d2 = Inr d3" "s' = s\<lparr>s_core := d3\<rparr>"
    by (rule update_po_lines [OF run inv])
  have po: "po \<in> set (t_purchase_orders (s_core s))" "po_id po = n" using find_SomeD [OF 1(1)] by simp_all
  have free: "\<not> has_po_confirmed_receipt s n" "\<not> has_po_committed_inbound_facts (s_core s) n"
    "\<exists>po \<in> set (t_purchase_orders (s_core s)). po_id po = n \<and> py_upper (po_status po) = ''CREATED''"
    using 1(2) po by (auto simp: require_po_editable_def split: if_splits)
  from fresh_lines [OF 1(4,5,8,9,6)] obtain rows where
    d3: "d3 = e\<lparr>t_next_id := (t_next_id e)(PURCHASE_ORDER_LINES := t_next_id e PURCHASE_ORDER_LINES + int (length ls)),
       t_purchase_lines := t_purchase_lines e @ new_lines e n ls, t_completion := t_completion e @ rows\<rparr>" and
    rel: "list_all2 (fresh_row e n) (new_lines e n ls) rows" by blast
  have own: "filter (\<lambda>l. pl_po_id l = n) (new_lines e n ls) = new_lines e n ls"
    using placed_from_in unfolding new_lines_def by (fastforce simp: filter_id_conv)
  have others: "filter (\<lambda>l. pl_po_id l \<noteq> n) (new_lines e n ls) = []"
    using placed_from_in unfolding new_lines_def by (fastforce simp: filter_empty_conv)
  have mine: "filter (\<lambda>l. pl_po_id l = n) (t_purchase_lines (s_core s')) = new_lines e n ls"
    using 1(5) own by (simp add: 1(10) d3)
  have placed: "list_all2 (\<lambda>nl l. \<exists>k. l = placed n k nl) ls (placed_from n k ls)" for k
    by (induction ls arbitrary: k) auto
  have matched: "list_all2 (\<lambda>(idx, raw) l. pl_line_no l = line_no_or idx (pli_line_no raw) \<and> pl_item_id l = pli_item_id raw \<and>
        pli_qty_input raw = Some (pl_qty_ordered_input l) \<and> 0 < pl_qty_ordered_base l \<and>
        pl_qty_ordered_base l = pl_qty_ordered_input l * pl_purchase_ratio_to_base_snapshot l)
      (number_lines (pin_lines p)) (filter (\<lambda>l. pl_po_id l = n) (t_purchase_lines (s_core s')))"
    unfolding mine new_lines_def
    by (rule list_all2_trans [OF _ norm_update_lines [OF 1(3)] placed])
      (clarify, drule norm_line_body_facts, simp)
  have kept: "filter (\<lambda>l. pl_po_id l \<noteq> n) (t_purchase_lines (s_core s')) = filter (\<lambda>l. pl_po_id l \<noteq> n) (t_purchase_lines (s_core s))"
  proof -
    have "t_purchase_lines (s_core s') = filter (\<lambda>l. pl_po_id l \<noteq> n) (t_purchase_lines (s_core s)) @ new_lines e n ls"
      unfolding 1(10) d3 1(7) [symmetric] by simp
    then show ?thesis using others by simp
  qed
  have "pc_po_id c \<noteq> n" if "c \<in> set (t_completion e)" for c
    using no_lines_no_rows [OF purchases_invD(3) [OF 1(4)] 1(5)] that by (simp add: filter_id_conv)
  moreover have "pc_qty_received_base c = 0 \<and> pc_line_completion_status c = ''NOT_RECEIVED''" if "c \<in> set rows" for c
    using list_all2_in_right [OF rel that] by (auto simp: fresh_row_def completion_row_def)
  ultimately have fresh: "\<forall>c \<in> set (t_completion (s_core s')). pc_po_id c = n \<longrightarrow>
      pc_qty_received_base c = 0 \<and> pc_line_completion_status c = ''NOT_RECEIVED''"
    by (auto simp: 1(10) d3)
  show ?thesis by (intro conjI free matched kept fresh)
qed

definition changed_order :: purchase_in where
  "changed_order = sample_order [order_line_in 2 5 None, order_line_in 1 1 None]"

lemma update_replaces_order_witness:
  "\<exists>s' :: site. update_po_v2 1 changed_order ordered_site = Inr ((), s') \<and>
     map pl_qty_ordered_base (filter (\<lambda>l. pl_po_id l = 1) (t_purchase_lines (s_core s'))) = [50, 10]"
proof -
  have "returns (update_po_v2 1 changed_order ordered_site)
      (\<lambda>(_, s'). map pl_purchase_ratio_to_base_snapshot (filter (\<lambda>l. pl_po_id l = 1) (t_purchase_lines (s_core s'))) = [10, 10])"
    by code_simp
  then obtain s' :: site where r: "update_po_v2 1 changed_order ordered_site = Inr ((), s')"
    "map pl_purchase_ratio_to_base_snapshot (filter (\<lambda>l. pl_po_id l = 1) (t_purchase_lines (s_core s'))) = [10, 10]"
    by (auto simp: returns_pair)
  have "purchases_inv (s_core ordered_site)"
    using purchase_run_inv [OF _ sample_office_inv] sample_steps(1) by blast
  from update_replaces_order [OF r(1) this, THEN conjunct2, THEN conjunct2, THEN conjunct1] r show ?thesis
    by (auto simp: changed_order_def sample_order_def order_line_in_def number_lines_def list_all2_Cons1 map_eq_Cons_conv
        Cons_eq_map_conv)
qed

text \<open>
  What a booked receipt leaves behind: its event is there, and while it is \<open>COMMITTED\<close> it is a
  purchase receipt whose line and whose purchase order line are there.
\<close>

definition receipt_holds :: "purchase_order_line \<Rightarrow> inbound_event_line \<Rightarrow> db \<Rightarrow> bool" where
  "receipt_holds l x d \<longleftrightarrow> il_event_id x \<in> ev_id ` set (t_events d) \<and>
     (\<forall>e \<in> set (t_events d). ev_id e = il_event_id x \<and> ev_status e = ''COMMITTED'' \<longrightarrow>
        receipt_event e \<and> l \<in> set (t_purchase_lines d) \<and> x \<in> set (t_inbound_lines d))"

lemma receipt_holds_facts:
  assumes "receipt_holds l x d" and "il_po_line_id x = Some (pl_id l)"
    and "e \<in> set (t_events d)" and "ev_id e = il_event_id x" and "ev_status e = ''COMMITTED''"
  shows "has_po_committed_inbound_facts d (pl_po_id l)"
  using assms unfolding receipt_holds_def has_po_committed_inbound_facts_def list_ex_iff by blast

lemma receipt_holds_mono:
  assumes "receipt_holds l x d" and "t_events d' = t_events d"
    and "set (t_purchase_lines d) \<subseteq> set (t_purchase_lines d')" and "set (t_inbound_lines d) \<subseteq> set (t_inbound_lines d')"
  shows "receipt_holds l x d'"
  using assms unfolding receipt_holds_def by auto

lemma receipt_holds_booked:
  assumes "receipt_holds l x d" and "t_events d' = t_events d @ [e]" and "ev_id e \<notin> ev_id ` set (t_events d)"
    and "t_purchase_lines d' = t_purchase_lines d" and "t_inbound_lines d' = t_inbound_lines d @ xs"
  shows "receipt_holds l x d'"
  using assms unfolding receipt_holds_def by auto

lemma receipt_holds_mark:
  assumes "receipt_holds l x d" shows "receipt_holds l x (mark_superseded et n d)"
proof -
  let ?d = "mark_superseded et n d"
  have "map ev_id (t_events ?d) = map ev_id (t_events d)" by (simp add: mark_superseded_def update_where_def)
  from arg_cong [OF this, of set] have "ev_id ` set (t_events ?d) = ev_id ` set (t_events d)" by simp
  moreover have "e \<in> set (t_events d)" if "e \<in> set (t_events ?d)" "ev_status e = ''COMMITTED''" for e
    using that by (auto simp: mark_superseded_def update_where_def split: if_splits)
  moreover have "t_purchase_lines ?d = t_purchase_lines d" "t_inbound_lines ?d = t_inbound_lines d"
    by (simp_all add: mark_superseded_def)
  ultimately show ?thesis using assms unfolding receipt_holds_def by (simp, blast)
qed

lemma receipt_holds_edit:
  assumes run: "update_po_v2 n p s = Inr (u, s')" and inv: "purchases_inv (s_core s)"
    and hold: "receipt_holds l x (s_core s)" and x: "il_po_line_id x = Some (pl_id l)"
  shows "receipt_holds l x (s_core s')"
  using run
proof (cases rule: update_po_Inr)
  case (1 po sid sname m ls st total upd d2 d3)
  let ?e = "order_emptied n upd (s_core s)"
  from upsert_keeps_rest 1(6) obtain cs where d3: "d3 = d2\<lparr>t_completion := cs\<rparr>"
    unfolding upsert_completion_rows_for_po_def by fastforce
  have e: "t_events ?e = t_events (s_core s)"
    "t_purchase_lines ?e = filter (\<lambda>l. pl_po_id l \<noteq> n) (t_purchase_lines (s_core s))"
    by (simp_all add: order_emptied_def delete_purchase_lines_def Let_def)
  let ?gone = "\<lambda>x. case il_po_line_id x of None \<Rightarrow> False
    | Some k \<Rightarrow> list_ex (\<lambda>l. pl_po_id l = n \<and> pl_id l = k) (t_purchase_lines (s_core s))"
  have inb: "t_inbound_lines ?e = update_where ?gone (il_po_line_id_update (\<lambda>_. None)) (t_inbound_lines (s_core s))"
    by (simp add: order_emptied_def delete_purchase_lines_def Let_def)
  have free: "\<not> has_po_committed_inbound_facts (s_core s) n"
    using 1(2) find_SomeD [OF 1(1)] by (auto simp: require_po_editable_def split: if_splits)
  have kept: "receipt_event ev \<and> l \<in> set (t_purchase_lines ?e) \<and> x \<in> set (t_inbound_lines ?e)"
    if ev: "ev \<in> set (t_events (s_core s))" "ev_id ev = il_event_id x" "ev_status ev = ''COMMITTED''" for ev
  proof -
    have h: "receipt_event ev" "l \<in> set (t_purchase_lines (s_core s))" "x \<in> set (t_inbound_lines (s_core s))"
      using hold ev unfolding receipt_holds_def by blast+
    have other: "pl_po_id l \<noteq> n" using receipt_holds_facts [OF hold x ev] free by blast
    have "distinct (map pl_id (t_purchase_lines (s_core s)))" using purchases_invD(2) [OF inv] by (simp add: lines_ok_def)
    from gone_iff [OF this h(2), of n] other have "\<not> ?gone x" by (simp add: x)
    with h(3) have "x \<in> set (t_inbound_lines ?e)" unfolding inb update_where_def by (force simp: image_iff)
    with h(1,2) other show ?thesis by (simp add: e)
  qed
  have "receipt_holds l x ?e"
    using hold kept unfolding receipt_holds_def e(1) by blast
  from receipt_holds_mono [OF this, of d3] insert_purchase_lines_Inr(1) [OF 1(5)] show ?thesis
    by (simp add: 1(7) d3)
qed

lemma commit_inbound_booked:
  assumes run: "commit_inbound now eno tr u p d = Inr (out, d')" and w: "warehouse_inv d"
    and new: "\<forall>x \<in> set (t_ledger d). lg_ref x \<noteq> eno"
  obtains prs where "warehouse_inv d'" "t_inbound_lines d' = t_inbound_lines d @ map fst prs"
    "t_events d' = t_events d @ [(commit_event now u eno tr p)\<lparr>ev_id := co_event_id out\<rparr>]"
    "co_event_id out \<notin> ev_id ` set (t_events d)"
    "list_all2 (\<lambda>row (l, x). commit_pair_ok (t_items d) p (co_event_id out) eno row l x) (co_rows out) prs"
proof -
  obtain d1 d2 d3 rs prs where
    c: "mapE (resolve_line (ci_warehouse_id p) (ci_source_type p)) (number_lines (ci_lines p)) d = Inr (rs, d1)"
    "lots_grow d d1" "warehouse_inv d1" "insert_event (commit_event now u eno tr p) d1 = Inr (co_event_id out, d2)"
    "mapE (commit_line now p (co_event_id out) eno tr) rs d2 = Inr (co_rows out, d3)"
    "warehouse_inv d'" "posts d1 (map snd prs) d'" "t_inbound_lines d' = t_inbound_lines d @ map fst prs"
    "t_events d' = t_events d @ [(commit_event now u eno tr p)\<lparr>ev_id := co_event_id out\<rparr>]"
    "list_all2 (\<lambda>row (l, x). commit_pair_ok (t_items d) p (co_event_id out) eno row l x) (co_rows out) prs"
    "t_count_docs d' = t_count_docs d" "length prs = length (ci_lines p)"
    "if ci_source_type p = ''PURCHASE_ORDER''
     then apply_completion_delta_for_event (co_event_id out) (ci_occurred_at p) d3 = Inr ((), d') \<and>
       t_completion d3 = t_completion d else d' = d3"
    by (rule commit_inbound_Inr [OF run w new])
  have "co_event_id out = t_next_id d WMS_EVENTS"
    using insert_event_Inr(1) [OF c(4)] lots_grow_frame(17) [OF c(2), of WMS_EVENTS] by simp
  then have "co_event_id out \<notin> ev_id ` set (t_events d)" using next_event_new [OF w] by simp
  from that [OF c(6,8,9) this c(10)] show thesis .
qed

lemma receipt_holds_step:
  assumes "purchase_step s s'" and inv: "purchases_inv (s_core s)" "warehouse_inv (s_core s)"
    and hold: "receipt_holds l x (s_core s)" and x: "il_po_line_id x = Some (pl_id l)"
  shows "receipt_holds l x (s_core s')"
  using assms(1)
proof cases
  case (order p po)
  then have "create_po_v2 p s = Inr (po, s')" by (auto simp: create_purchase_order_def split: if_splits)
  then show ?thesis
  proof (cases rule: create_po_Inr)
    case (1 sid sname m ls total d1 d2 d3)
    from upsert_keeps_rest 1(6) obtain cs where "d3 = d2\<lparr>t_completion := cs\<rparr>"
      unfolding upsert_completion_rows_for_po_def by blast
    then show ?thesis
      using insert_purchase_lines_Inr(1) [OF 1(5)] by (intro receipt_holds_mono [OF hold]) (simp_all add: 1(4,7))
  qed
next
  case (edit n p u)
  then have "update_po_v2 n p s = Inr (u, s')" by (auto simp: update_purchase_order_def split: if_splits)
  from receipt_holds_edit [OF this inv(1) hold x] show ?thesis .
next
  case (close now n remark u)
  then obtain pos where "s_core s' = (s_core s)\<lparr>t_purchase_orders := pos\<rparr>"
    by (auto simp: close_purchase_order_def split: option.splits if_splits)
  then show ?thesis by (intro receipt_holds_mono [OF hold]) simp_all
next
  case (receive now eno tr u q out d')
  obtain prs where c: "warehouse_inv d'" "t_inbound_lines d' = t_inbound_lines (s_core s) @ map fst prs"
    "t_events d' = t_events (s_core s) @ [(commit_event now u eno tr q)\<lparr>ev_id := co_event_id out\<rparr>]"
    "co_event_id out \<notin> ev_id ` set (t_events (s_core s))"
    "list_all2 (\<lambda>row (l, x). commit_pair_ok (t_items (s_core s)) q (co_event_id out) eno row l x) (co_rows out) prs"
    by (rule commit_inbound_booked [OF receive(2) inv(2) receive(3)])
  have "t_purchase_lines d' = t_purchase_lines (s_core s)"
    using commit_inbound_plan [OF receive(2) inv(2) receive(3)] by (simp add: plan_view_def)
  with receipt_holds_booked [OF hold c(3) _ _ c(2)] c(4) show ?thesis by (simp add: receive(1))
next
  case (take_back now eno tr u n r out d')
  obtain orig prs d2 where
    "reversible_event ''INBOUND'' (s_core s) n = Inr orig"
    "ensure_warehouse_not_frozen (s_core s) (ev_warehouse_id orig) = Inr ()"
    "warehouse_inv d'" "posts (s_core s) (map snd prs) d'" and
    r: "t_inbound_lines d' = t_inbound_lines (s_core s) @ map fst prs" and
    "list_all2 (\<lambda>src (l, x). reversed_inbound orig (ro_event_id out) eno src l x)
       (sort_key il_line_no (filter (\<lambda>l. il_event_id l = n) (t_inbound_lines (s_core s)))) prs"
    "t_completion d' = t_completion (s_core s)" and r2: "d' = mark_superseded ''INBOUND'' n d2"
    "t_events d2 = t_events (s_core s) @ [(reversal_event now ''INBOUND'' eno tr u r orig)\<lparr>ev_id := ro_event_id out\<rparr>]"
    by (rule inbound_reversal.reverse_Inr [OF take_back(2) inv(2) take_back(3)])
  from inbound_reversal.run_Inr [OF take_back(2)] obtain orig' srcs d1 d3 rows where
    m: "insert_event (reversal_event now ''INBOUND'' eno tr u r orig') (s_core s) = Inr (ro_event_id out, d1)"
    "mapE (reverse_inbound_line now (ro_event_id out) eno tr r orig') srcs d1 = Inr (rows, d3)"
    "d' = mark_superseded ''INBOUND'' n d3" by blast
  have "keeps_plan (s_core s) d'"
    unfolding m(3) by (rule plan.evo_trans [OF keeps_plan_event [OF m(1)]
          plan.evo_trans [OF plan.evo_mapE [OF keeps_plan_reverse_line m(2)] keeps_plan_mark]])
  then have "t_purchase_lines d2 = t_purchase_lines (s_core s)"
    by (simp add: keeps_plan_def plan_view_def r2(1) mark_superseded_def)
  moreover have "t_inbound_lines d2 = t_inbound_lines (s_core s) @ map fst prs"
    using r by (simp add: r2(1) mark_superseded_def)
  moreover have "ro_event_id out \<notin> ev_id ` set (t_events (s_core s))"
    using insert_event_Inr(1) [OF m(1)] next_event_new [OF inv(2)] by simp
  ultimately have "receipt_holds l x d2" using receipt_holds_booked [OF hold r2(2)] by simp
  from receipt_holds_mark [OF this] show ?thesis by (simp add: take_back(1) r2(1))
qed

lemma receipt_holds_run:
  assumes "purchase_step\<^sup>*\<^sup>* s s'" and "purchases_inv (s_core s)" "warehouse_inv (s_core s)"
    and "receipt_holds l x (s_core s)" and "il_po_line_id x = Some (pl_id l)"
  shows "receipt_holds l x (s_core s')"
  using assms
proof (induction rule: rtranclp_induct)
  case (step e f)
  with purchase_run_inv [OF step.hyps(1)] receipt_holds_step show ?case by blast
qed

lemma receipt_booked:
  assumes run: "commit_inbound now eno tr u p d = Inr (out, d')" and w: "warehouse_inv d"
    and new: "\<forall>x \<in> set (t_ledger d). lg_ref x \<noteq> eno" and src: "ci_source_type p = ''PURCHASE_ORDER''"
    and row: "row \<in> set (co_rows out)" "cr_po_line_id row = Some (pl_id l)"
    and l: "l \<in> set (t_purchase_lines d)"
  shows "\<exists>x. receipt_holds l x d' \<and> il_event_id x = co_event_id out \<and> il_po_line_id x = Some (pl_id l) \<and> warehouse_inv d'"
proof -
  obtain prs where c: "warehouse_inv d'" "t_inbound_lines d' = t_inbound_lines d @ map fst prs"
    "t_events d' = t_events d @ [(commit_event now u eno tr p)\<lparr>ev_id := co_event_id out\<rparr>]"
    "co_event_id out \<notin> ev_id ` set (t_events d)"
    "list_all2 (\<lambda>row (l, x). commit_pair_ok (t_items d) p (co_event_id out) eno row l x) (co_rows out) prs"
    by (rule commit_inbound_booked [OF run w new])
  from list_all2_in [OF c(5) row(1)] obtain x r where "(x, r) \<in> set prs"
    "commit_pair_ok (t_items d) p (co_event_id out) eno row x r" by auto
  then have x: "x \<in> set (t_inbound_lines d')" "il_po_line_id x = Some (pl_id l)" "il_event_id x = co_event_id out"
    using row(2) by (force simp: c(2) commit_pair_ok_def)+
  let ?e = "(commit_event now u eno tr p)\<lparr>ev_id := co_event_id out\<rparr>"
  have ev: "receipt_event ?e" using src by (simp add: receipt_event_def commit_event_def)
  have only: "e = ?e" if "e \<in> set (t_events d')" "ev_id e = co_event_id out" for e
  proof -
    have "e \<notin> set (t_events d)" using imageI [of e "set (t_events d)" ev_id] c(4) unfolding that(2) by blast
    with that(1) show ?thesis by (simp add: c(3))
  qed
  have "t_purchase_lines d' = t_purchase_lines d"
    using commit_inbound_plan [OF run w new] by (simp add: plan_view_def)
  with l have "l \<in> set (t_purchase_lines d')" by simp
  moreover have "co_event_id out \<in> ev_id ` set (t_events d')" by (simp add: c(3))
  ultimately have "receipt_holds l x d'"
    using only ev x(1) unfolding receipt_holds_def x(3) by blast
  with x c(1) show ?thesis by blast
qed

text \<open>
  C27. A receipt locks its order. After a purchase receipt has been committed against a line of an
  order, along whatever run of procurement operations, receipts and reversals follows
  (\<open>purchase_step\<close>), as long as the event of that receipt is still \<open>COMMITTED\<close>, the line is still
  there, every edit of the order is refused with a 409, whatever the request, and the page shows it
  as not editable. Taking the receipt back unlocks the order: see
  \<open>reversal_unlocks_order\<close>.
\<close>

theorem receipt_locks_order:
  assumes run: "commit_inbound now eno tr u p (s_core s) = Inr (out, d')"
    and inv: "purchases_inv (s_core s)" "warehouse_inv (s_core s)"
    and new: "\<forall>x \<in> set (t_ledger (s_core s)). lg_ref x \<noteq> eno" and src: "ci_source_type p = ''PURCHASE_ORDER''"
    and row: "row \<in> set (co_rows out)" "cr_po_line_id row = Some (pl_id l)"
    and l: "l \<in> set (t_purchase_lines (s_core s))"
    and later: "purchase_step\<^sup>*\<^sup>* (s\<lparr>s_core := d'\<rparr>) s2"
    and still: "e \<in> set (t_events (s_core s2))" "ev_id e = co_event_id out" "ev_status e = ''COMMITTED''"
  shows "l \<in> set (t_purchase_lines (s_core s2)) \<and>
    (\<exists>msg. update_po_v2 (pl_po_id l) q s2 = Inl (HTTPException 409 msg)) \<and>
    (\<forall>po \<in> set (t_purchase_orders (s_core s2)). po_id po = pl_po_id l \<longrightarrow> \<not> fst (resolve_po_editability s2 po))"
proof -
  from receipt_booked [OF run inv(2) new src row l] obtain x where
    x: "receipt_holds l x d'" "il_event_id x = co_event_id out" "il_po_line_id x = Some (pl_id l)" "warehouse_inv d'" by blast
  have "purchases_inv d'" by (rule receive_purchases_inv [OF run inv(2,1) new])
  with x later have hold: "receipt_holds l x (s_core s2)" and inv2: "purchases_inv (s_core s2)"
    using receipt_holds_run [OF later _ _ _ x(3)] purchase_run_inv [OF later] by simp_all
  from receipt_holds_facts [OF hold x(3) still(1) _ still(3)] still(2) x(2)
  have facts: "has_po_committed_inbound_facts (s_core s2) (pl_po_id l)" by simp
  have l2: "l \<in> set (t_purchase_lines (s_core s2))" using hold still x(2) by (auto simp: receipt_holds_def)
  with purchases_invD(2) [OF inv2] have "pl_po_id l \<in> po_id ` set (t_purchase_orders (s_core s2))"
    by (auto simp: lines_ok_def)
  then obtain po where po: "find (\<lambda>x. po_id x = pl_po_id l) (t_purchase_orders (s_core s2)) = Some po"
    using find_None_iff_all [of "\<lambda>x. po_id x = pl_po_id l" "t_purchase_orders (s_core s2)"]
    by (cases "find (\<lambda>x. po_id x = pl_po_id l) (t_purchase_orders (s_core s2))") auto
  then have "po_id po = pl_po_id l" using find_SomeD [OF po] by simp
  with facts po have "\<exists>msg. update_po_v2 (pl_po_id l) q s2 = Inl (HTTPException 409 msg)"
    by (simp add: update_po_v2_def require_po_editable_def)
  moreover have "\<not> fst (resolve_po_editability s2 po)" if "po_id po = pl_po_id l" for po
    using facts that by (simp add: resolve_po_editability_def)
  ultimately show ?thesis using l2 by blast
qed

lemma receipt_locks_order_witness:
  "\<exists>msg. update_po_v2 1 changed_order partly_received = Inl (HTTPException 409 msg)"
proof -
  from partly_received_run obtain out where
    r: "commit_inbound 9 ''IE-1'' ''T-1'' None order_receipt (s_core ordered_site) = Inr (out, s_core partly_received)"
    and rows: "map cr_po_line_id (co_rows out) = [Some 1]" by (elim exE conjE)
  have "Some 1 \<in> cr_po_line_id ` set (co_rows out)" using arg_cong [OF rows, of set] by simp
  then obtain row where row: "row \<in> set (co_rows out)" "cr_po_line_id row = Some 1" by (metis imageE)
  have w: "purchases_inv (s_core ordered_site)" "warehouse_inv (s_core ordered_site)"
    using purchase_run_inv [OF _ sample_office_inv] sample_steps(1) by blast+
  have new: "\<forall>x \<in> set (t_ledger (s_core ordered_site)). lg_ref x \<noteq> ''IE-1''" by code_simp
  have "map (\<lambda>l. (pl_id l, pl_po_id l)) (t_purchase_lines (s_core ordered_site)) = [(1, 1)]" by code_simp
  then obtain l where l: "l \<in> set (t_purchase_lines (s_core ordered_site))" "pl_id l = 1" "pl_po_id l = 1" by auto
  have src: "ci_source_type order_receipt = ''PURCHASE_ORDER''" by (simp add: order_receipt_def)
  have same: "ordered_site\<lparr>s_core := s_core partly_received\<rparr> = partly_received" by (simp add: partly_received_def)
  from commit_inbound_booked [OF r w(2) new] have
    "t_events (s_core partly_received) = t_events (s_core ordered_site) @
      [(commit_event 9 None ''IE-1'' ''T-1'' order_receipt)\<lparr>ev_id := co_event_id out\<rparr>]" by metis
  then have e: "(commit_event 9 None ''IE-1'' ''T-1'' order_receipt)\<lparr>ev_id := co_event_id out\<rparr>
      \<in> set (t_events (s_core partly_received))" by simp
  have later: "purchase_step\<^sup>*\<^sup>* (ordered_site\<lparr>s_core := s_core partly_received\<rparr>) partly_received" unfolding same ..
  from receipt_locks_order [OF r w new src row(1) _ l(1) later e _ _, of changed_order] row(2) l
  show ?thesis by (simp add: commit_event_def)
qed

text \<open>Reversing the receipt makes the order editable again.\<close>

definition taken_back :: site where
  "taken_back = partly_received\<lparr>s_core := (case reverse_inbound_event 10 ''RV-1'' ''T-2'' None 1 sample_reversal (s_core partly_received) of
     Inl _ \<Rightarrow> s_core partly_received | Inr (_, d) \<Rightarrow> d)\<rparr>"

lemma reversal_unlocks_order:
  "map (\<lambda>e. (ev_id e, ev_status e)) (t_events (s_core taken_back)) = [(1, ''SUPERSEDED''), (2, ''COMMITTED'')] \<and>
   returns (update_po_v2 1 changed_order taken_back) (\<lambda>_. True)"
  by code_simp

text \<open>
  A closed order is final. After \<open>close\<close> the order is \<open>CLOSED\<close>; editing it, closing it again and
  announcing a receipt for it are refused with a 409.
\<close>

theorem closed_order_final:
  assumes run: "close_purchase_order now n remark s = Inr (u, s')"
  shows "(\<exists>po. find (\<lambda>x. po_id x = n) (t_purchase_orders (s_core s')) = Some po \<and> po_status po = ''CLOSED'') \<and>
    (\<exists>msg. update_po_v2 n q s' = Inl (HTTPException 409 msg)) \<and>
    (\<exists>msg. close_purchase_order now2 n remark2 s' = Inl (HTTPException 409 msg)) \<and>
    (pri_source_doc_id r = n \<longrightarrow>
      (\<exists>msg. create_inbound_receipt_from_purchase rno r created_by s' = Inl (HTTPException 409 msg)))"
proof -
  from run obtain po where f: "find (\<lambda>x. po_id x = n) (t_purchase_orders (s_core s)) = Some po"
    by (auto simp: close_purchase_order_def split: option.splits)
  let ?upd = "\<lambda>x. x\<lparr>po_status := ''CLOSED'', po_close_reason := Some ''MANUAL_TERMINATED'',
                     po_close_note := strip_or_none remark, po_closed_at := Some now\<rparr>"
  from run f have s': "t_purchase_orders (s_core s') = update_where (\<lambda>x. po_id x = n) ?upd (t_purchase_orders (s_core s))"
    by (auto simp: close_purchase_order_def split: if_splits)
  have "find (\<lambda>x. po_id x = n) (update_where (\<lambda>x. po_id x = n) ?upd pos) = map_option ?upd (find (\<lambda>x. po_id x = n) pos)"
    for pos :: "purchase_order list"
    by (induction pos) auto
  then have f': "find (\<lambda>x. po_id x = n) (t_purchase_orders (s_core s')) = Some (?upd po)" using f by (simp add: s')
  then have closed: "\<exists>po. find (\<lambda>x. po_id x = n) (t_purchase_orders (s_core s')) = Some po \<and> po_status po = ''CLOSED''" by simp
  have "py_upper ''CLOSED'' \<noteq> ''CREATED''" by code_simp
  with f' have refused: "\<exists>msg. update_po_v2 n q s' = Inl (HTTPException 409 msg)"
    "\<exists>msg. close_purchase_order now2 n remark2 s' = Inl (HTTPException 409 msg)"
    by (simp_all add: update_po_v2_def require_po_editable_def close_purchase_order_def)
  have announced: "\<exists>msg. create_inbound_receipt_from_purchase rno r created_by s' = Inl (HTTPException 409 msg)"
    if "pri_source_doc_id r = n"
    using that f' by (simp add: create_inbound_receipt_from_purchase_def)
  show ?thesis by (intro conjI impI closed refused announced)
qed

definition closed_site :: site where
  "closed_site = result_site partly_received (close_purchase_order 20 1 None partly_received)"

lemma closed_order_final_witness:
  "(\<exists>msg. update_po_v2 1 changed_order closed_site = Inl (HTTPException 409 msg)) \<and>
   (\<exists>msg. create_inbound_receipt_from_purchase ''IR-9'' \<lparr>pri_source_doc_id = 1, pri_warehouse_id = 7, pri_remark = None\<rparr> None
      closed_site = Inl (HTTPException 409 msg))"
proof -
  have "returns (close_purchase_order 20 1 None partly_received) (\<lambda>_. True)" by code_simp
  from result_site_Inr [OF this, of partly_received] obtain u where
    r: "close_purchase_order 20 1 None partly_received = Inr (u, closed_site)"
    unfolding closed_site_def by (elim exE)
  from closed_order_final [OF r] show ?thesis by simp
qed

text \<open>The receipt service does not look at the order: a closed order still takes a receipt.\<close>

definition late_receipt :: commit_in where
  "late_receipt = order_receipt\<lparr>ci_source_ref := Some ''PO-1 again''\<rparr>"

lemma closed_order_receives:
  "\<exists>out d'. commit_inbound 30 ''IE-2'' ''T-2'' None late_receipt (s_core closed_site) = Inr (out, d') \<and>
     map pc_qty_received_base (t_completion d') = [24] \<and> map po_status (t_purchase_orders d') = [''CLOSED'']"
proof -
  have "returns (commit_inbound 30 ''IE-2'' ''T-2'' None late_receipt (s_core closed_site))
    (\<lambda>(_, d'). map pc_qty_received_base (t_completion d') = [24] \<and> map po_status (t_purchase_orders d') = [''CLOSED''])"
    by code_simp
  then show ?thesis by (auto simp: returns_pair)
qed

section \<open>Amounts\<close>

lemma round_exact:
  fixes c q p :: int
  assumes "0 \<le> c" and "0 < p" and "100 = q * p"
  shows "(200 * c + p) div (2 * p) = c * q"
proof -
  have "200 * c = 2 * c * (q * p)" by (simp flip: assms(3))
  then have "200 * c + p = p + (c * q) * (2 * p)" by (simp only: mult_ac)
  then have "(200 * c + p) div (2 * p) = (p + (c * q) * (2 * p)) div (2 * p)" by (rule arg_cong)
  also have "\<dots> = c * q + p div (2 * p)" using assms(2) by (intro div_mult_self1) simp
  also have "p div (2 * p) = 0" using assms(2) by simp
  finally show ?thesis by simp
qed

lemma to_cents_exact:
  assumes "places x \<le> 2"
  shows "to_cents x = coefficient x * 10 ^ (2 - places x)"
proof -
  have "(10 :: int) ^ (2 - places x) * 10 ^ places x = 10 ^ 2" using assms by (simp flip: power_add)
  then have "(200 * \<bar>coefficient x\<bar> + 10 ^ places x) div (2 * 10 ^ places x) = \<bar>coefficient x\<bar> * 10 ^ (2 - places x)"
    by (intro round_exact) simp_all
  then show ?thesis by (simp add: to_cents_def Let_def sgn_mult_abs flip: mult.assoc)
qed

lemma to_cents_times: "places x \<le> 2 \<Longrightarrow> to_cents (dec_times x q) = to_cents x * q"
  by (simp add: to_cents_exact dec_times_def)

lemma to_cents_plus:
  assumes "places x \<le> 2" and "places y \<le> 2"
  shows "to_cents (dec_plus x y) = to_cents x + to_cents y" "places (dec_plus x y) \<le> 2"
proof -
  let ?m = "max (places x) (places y)"
  have m: "?m \<le> 2" using assms by simp
  show "places (dec_plus x y) \<le> 2" using m by (simp add: dec_plus_def Let_def)
  have "(10 :: int) ^ (?m - k) * 10 ^ (2 - ?m) = 10 ^ (2 - k)" if "k \<le> ?m" for k
    using that m by (simp flip: power_add)
  from this [of "places x"] this [of "places y"] m assms show "to_cents (dec_plus x y) = to_cents x + to_cents y"
    by (simp add: to_cents_exact dec_plus_def Let_def distrib_right mult.assoc)
qed

definition two_places :: "purchase_line_in \<Rightarrow> bool" where
  "two_places l \<longleftrightarrow> (case pli_supply_price l of None \<Rightarrow> True | Some x \<Rightarrow> places x \<le> 2)"

lemma line_amount_cents:
  assumes "norm_line_body d sid m no raw = Inr l" and "two_places raw"
  shows "to_cents (line_amount l) = planned_line_amount (placed n k l)" "places (line_amount l) \<le> 2"
  using assms(2) norm_line_Inr(6) [OF assms(1)]
  by (auto simp: two_places_def line_amount_def planned_line_amount_def to_cents_times dec_times_def
      to_cents_exact split: option.splits)

lemma norm_line_create_Inr:
  "norm_line_create d sid m (i, raw) t = Inr (l, t') \<longleftrightarrow>
   norm_line_body d sid m (line_no_or i (pli_line_no raw)) raw = Inr l \<and> t' = dec_plus t (line_amount l)"
  by (auto simp: norm_line_create_def res_simps)

lemma created_total:
  assumes "mapE (norm_line_create d sid m) irs t = Inr (ls, t')" and "\<forall>(i, raw) \<in> set irs. two_places raw"
    and "places t \<le> 2"
  shows "to_cents t' = to_cents t + sum_list (map planned_line_amount (placed_from n k ls))"
  using assms
proof (induction irs arbitrary: t ls k)
  case (Cons ir irs)
  obtain i raw where ir: "ir = (i, raw)" by (cases ir)
  from Cons.prems(1) obtain l ls' where l: "norm_line_body d sid m (line_no_or i (pli_line_no raw)) raw = Inr l"
    "mapE (norm_line_create d sid m) irs (dec_plus t (line_amount l)) = Inr (ls', t')" "ls = l # ls'"
    unfolding ir mapE_Cons_Inr norm_line_create_Inr by blast
  from Cons.prems(2) have two: "two_places raw" by (simp add: ir)
  note a = line_amount_cents(1) [OF l(1) two, of n k] line_amount_cents(2) [OF l(1) two]
  note p = to_cents_plus [OF Cons.prems(3) a(2)]
  have "to_cents t' = to_cents (dec_plus t (line_amount l)) + sum_list (map planned_line_amount (placed_from n (k + 1) ls'))"
    by (rule Cons.IH [OF l(2) _ p(2)]) (use Cons.prems(2) in simp)
  then show ?case by (simp add: l(3) p(1) a(1))
qed simp

text \<open>
  C28. The total of an order is the sum of its lines: if every price of the request has at most two
  decimal places, the total that \<open>create_po_v2\<close> stores is the sum of the planned amounts of the lines
  it stores.
\<close>

theorem order_total_is_line_sum:
  assumes run: "create_po_v2 p s = Inr (po, s')" and inv: "purchases_inv (s_core s)"
    and two: "\<forall>l \<in> set (pin_lines p). two_places l"
  shows "po_total_amount po = Some (sum_list (map planned_line_amount
    (filter (\<lambda>l. pl_po_id l = po_id po) (t_purchase_lines (s_core s')))))"
  using run
proof (cases rule: create_po_Inr)
  case (1 sid sname m ls amount d1 d2 d3)
  note L = purchases_invD [OF inv]
  have "pl_po_id l \<noteq> po_id po" if "l \<in> set (t_purchase_lines (s_core s))" for l
    using that L(1,2) by (fastforce simp: 1(3) lines_ok_def orders_ok_def)
  then have none: "filter (\<lambda>l. pl_po_id l = po_id po) (t_purchase_lines (s_core s)) = []" by (simp add: filter_empty_conv)
  let ?new = "placed_from (po_id po) (t_next_id d1 PURCHASE_ORDER_LINES) ls"
  have own: "filter (\<lambda>l. pl_po_id l = po_id po) ?new = ?new"
    using placed_from_in by (fastforce simp: filter_id_conv)
  have "t_purchase_lines d3 = t_purchase_lines d2"
    using upsert_keeps_lines 1(6) unfolding upsert_completion_rows_for_po_def by blast
  then have lines: "filter (\<lambda>l. pl_po_id l = po_id po) (t_purchase_lines (s_core s')) = ?new"
    using none own by (simp add: 1(4,7) insert_purchase_lines_Inr(1) [OF 1(5)])
  have "\<forall>(i, raw) \<in> set (number_lines (pin_lines p)). two_places raw"
    using two by (auto simp: number_lines_def in_set_enumerate_eq)
  from created_total [OF 1(2) this] have "to_cents amount = sum_list (map planned_line_amount ?new)"
    by (simp add: to_cents_exact)
  then show ?thesis unfolding lines by (simp add: 1(3))
qed

lemma order_total_is_line_sum_witness:
  "\<exists>po s'. create_po_v2 (sample_order [order_line_in 1 3 (Some (Decimal 1250 2))]) sample_office = Inr (po, s') \<and>
     po_total_amount po = Some 37500"
proof -
  have "returns (create_po_v2 (sample_order [order_line_in 1 3 (Some (Decimal 1250 2))]) sample_office)
      (\<lambda>(po, s'). sum_list (map planned_line_amount (filter (\<lambda>l. pl_po_id l = po_id po) (t_purchase_lines (s_core s')))) = 37500)"
    by code_simp
  then obtain po s' where r: "create_po_v2 (sample_order [order_line_in 1 3 (Some (Decimal 1250 2))]) sample_office = Inr (po, s')"
    "sum_list (map planned_line_amount (filter (\<lambda>l. pl_po_id l = po_id po) (t_purchase_lines (s_core s')))) = 37500"
    by (auto simp: returns_pair)
  have "\<forall>l \<in> set (pin_lines (sample_order [order_line_in 1 3 (Some (Decimal 1250 2))])). two_places l"
    by (simp add: sample_order_def order_line_in_def two_places_def)
  from order_total_is_line_sum [OF r(1) sample_office_inv(1) this] r show ?thesis by auto
qed

text \<open>
  A price of three places is rounded in the line and not in the total: ten pieces at 0.005 are
  0.05 in the head and 0.10 in the line.
\<close>

lemma order_total_off:
  "\<exists>po s' :: site. create_purchase_order (sample_order [order_line_in 1 1 (Some (Decimal 5 3))]) sample_office = Inr (po, s') \<and>
     po_total_amount po = Some 5 \<and> map pc_planned_line_amount (t_completion (s_core s')) = [10]"
proof -
  have "returns (create_purchase_order (sample_order [order_line_in 1 1 (Some (Decimal 5 3))]) sample_office)
      (\<lambda>(po, s'). po_total_amount po = Some 5 \<and> map pc_planned_line_amount (t_completion (s_core s')) = [10])" by code_simp
  then show ?thesis by (auto simp: returns_pair)
qed

section \<open>The completion page\<close>

lemma sum_list_matched:
  fixes v :: "'a \<Rightarrow> int"
  assumes "distinct (map f xs)" and "distinct (map g ys)" and "f ` set xs = g ` set ys"
    and same: "\<And>x y. x \<in> set xs \<Longrightarrow> y \<in> set ys \<Longrightarrow> f x = g y \<Longrightarrow> v x = w y"
  shows "sum_list (map v xs) = sum_list (map w ys)"
proof -
  from assms(1,2) have d: "distinct xs" "distinct ys" "inj_on f (set xs)" "inj_on g (set ys)"
    by (simp_all add: distinct_map)
  let ?h = "\<lambda>y. inv_into (set xs) f (g y)"
  have h: "?h y \<in> set xs \<and> f (?h y) = g y" if "y \<in> set ys" for y
  proof -
    from that have "g y \<in> f ` set xs" unfolding assms(3) by (rule imageI)
    then show ?thesis by (simp add: f_inv_into_f inv_into_into)
  qed
  have "sum v (set xs) = sum w (set ys)"
  proof (rule sum.reindex_cong [of ?h])
    show "inj_on ?h (set ys)"
    proof (rule inj_onI)
      fix y z assume *: "y \<in> set ys" "z \<in> set ys" "?h y = ?h z"
      have "g y = f (?h y)" by (rule conjunct2 [OF h [OF *(1)], symmetric])
      also have "\<dots> = f (?h z)" by (simp only: *(3))
      also have "\<dots> = g z" by (rule conjunct2 [OF h [OF *(2)]])
      finally have "g y = g z" .
      with *(1,2) show "y = z" by (intro inj_onD [OF d(4)]) simp_all
    qed
    show "set xs = ?h ` set ys"
    proof
      show "?h ` set ys \<subseteq> set xs" using h by blast
      show "set xs \<subseteq> ?h ` set ys"
      proof
        fix x assume x: "x \<in> set xs"
        then have "f x \<in> g ` set ys" using assms(3) by blast
        then obtain y where y: "y \<in> set ys" "f x = g y" by blast
        with h [OF y(1)] x have "x = ?h y" by (intro inj_onD [OF d(3)]) simp_all
        with y(1) show "x \<in> ?h ` set ys" by blast
      qed
    qed
    show "v (?h y) = w y" if "y \<in> set ys" for y using same h that by blast
  qed
  with d show ?thesis by (simp add: sum_list_distinct_conv_sum_set)
qed

definition of_order :: "db \<Rightarrow> int \<Rightarrow> inbound_event_line \<Rightarrow> bool" where
  "of_order d n x = list_ex (\<lambda>l. pl_po_id l = n \<and> il_po_line_id x = Some (pl_id l)) (t_purchase_lines d)"

definition live_receipt :: "db \<Rightarrow> int \<Rightarrow> bool" where
  "live_receipt d m = list_ex (\<lambda>e. ev_id e = m \<and> receipt_event e) (t_events d)"

text \<open>What the page does not list: receipts against the order that a reversal has superseded.\<close>

definition superseded_total :: "db \<Rightarrow> int \<Rightarrow> int" where
  "superseded_total d n = sum_where
     (\<lambda>x. of_order d n x \<and> commit_of_purchase d (il_event_id x) \<and> \<not> live_receipt d (il_event_id x)) il_qty_base
     (t_inbound_lines d)"

lemma lines_total:
  assumes "distinct (map pl_id ls)"
  shows "(\<Sum>l \<leftarrow> ls. sum_where (\<lambda>x. il_po_line_id x = Some (pl_id l) \<and> C x) il_qty_base xs) =
    sum_where (\<lambda>x. list_ex (\<lambda>l. il_po_line_id x = Some (pl_id l)) ls \<and> C x) il_qty_base xs"
proof (induction xs)
  case (Cons x xs)
  have "(\<Sum>l \<leftarrow> ls. if il_po_line_id x = Some (pl_id l) \<and> C x then il_qty_base x else 0) =
      (if list_ex (\<lambda>l. il_po_line_id x = Some (pl_id l)) ls \<and> C x then il_qty_base x else 0)"
  proof (cases "il_po_line_id x")
    case (Some k)
    have eq: "(\<lambda>l. if il_po_line_id x = Some (pl_id l) \<and> C x then il_qty_base x else 0) =
        (\<lambda>l. if C x \<and> pl_id l = k then il_qty_base x else 0)"
      by (auto simp: Some)
    show ?thesis unfolding eq sum_one_key [OF assms, of "\<lambda>_. C x"] by (auto simp: list_ex_iff Some)
  qed (simp add: list_ex_iff)
  with Cons show ?case by (simp add: sum_list_addf)
qed simp

lemma completion_event_qty:
  assumes ev: "distinct (map ev_id (t_events d))" and pl: "distinct (map pl_id (t_purchase_lines d))"
  shows "(case completion_event_of d n x of None \<Rightarrow> 0 | Some (_, e) \<Rightarrow> ce_qty_base e) =
    (if of_order d n x \<and> live_receipt d (il_event_id x) then il_qty_base x else 0)"
proof (cases "il_po_line_id x")
  case (Some k)
  have o: "of_order d n x \<longleftrightarrow> (\<exists>pol. find (\<lambda>p. pl_id p = k) (t_purchase_lines d) = Some pol \<and> pl_po_id pol = n)"
  proof
    assume "of_order d n x"
    then obtain l where "l \<in> set (t_purchase_lines d)" "pl_po_id l = n" "pl_id l = k" using Some by (auto simp: of_order_def list_ex_iff)
    then show "\<exists>pol. find (\<lambda>p. pl_id p = k) (t_purchase_lines d) = Some pol \<and> pl_po_id pol = n"
      using find_unique_key [OF pl] by metis
  qed (use Some in \<open>auto simp: of_order_def list_ex_iff dest: find_SomeD\<close>)
  have l: "live_receipt d (il_event_id x) \<longleftrightarrow> (\<exists>we. find (\<lambda>e. ev_id e = il_event_id x) (t_events d) = Some we \<and> receipt_event we)"
  proof
    assume "live_receipt d (il_event_id x)"
    then obtain e where "e \<in> set (t_events d)" "ev_id e = il_event_id x" "receipt_event e" by (auto simp: live_receipt_def list_ex_iff)
    then show "\<exists>we. find (\<lambda>e. ev_id e = il_event_id x) (t_events d) = Some we \<and> receipt_event we"
      using find_unique_key [OF ev] by metis
  qed (auto simp: live_receipt_def list_ex_iff dest: find_SomeD)
  show ?thesis unfolding o l by (auto simp: completion_event_of_def Some split: option.splits)
qed (auto simp: completion_event_of_def of_order_def list_ex_iff)

lemma completion_events_total:
  assumes "distinct (map ev_id (t_events d))" and "distinct (map pl_id (t_purchase_lines d))"
  shows "sum_list (map ce_qty_base (load_po_completion_events d n)) =
    sum_where (\<lambda>x. of_order d n x \<and> live_receipt d (il_event_id x)) il_qty_base (t_inbound_lines d)"
proof -
  have "sum_list (map (\<lambda>y. ce_qty_base (snd y)) (List.map_filter (completion_event_of d n) xs)) =
      sum_where (\<lambda>x. of_order d n x \<and> live_receipt d (il_event_id x)) il_qty_base xs" for xs
  proof (induction xs)
    case (Cons x xs)
    then show ?case using completion_event_qty [OF assms, of n x] by (auto split: option.splits if_splits)
  qed simp
  then show ?thesis by (simp add: load_po_completion_events_def o_def)
qed

text \<open>
  The completion page adds up as long as only the steps of \<open>purchase_step\<close> run. The detail of an order shows as ordered the sum of its lines, as
  remaining what each line still misses, and as received the sum of the receipt events it lists
  plus the receipts that were reversed since, which it no longer lists but still counts. (Receiving
  operations leave the completion rows behind, see \<open>receiving_forgets_purchase\<close>.)
\<close>

theorem completion_page_totals:
  assumes inv: "purchases_inv d" and w: "warehouse_inv d" and run: "get_completion_detail d n = Inr (po, cm, rows, events)"
  shows "(cm_total_ordered_base cm = sum_list (map pl_qty_ordered_base (filter (\<lambda>l. pl_po_id l = n) (t_purchase_lines d)))) \<and>
    (cm_total_received_base cm = sum_list (map ce_qty_base events) + superseded_total d n) \<and>
    (cm_total_remaining_base cm = sum_list (map (\<lambda>l. max (pl_qty_ordered_base l - receipts_total d (pl_id l)) 0)
      (filter (\<lambda>l. pl_po_id l = n) (t_purchase_lines d))))"
proof -
  note L = purchases_invD [OF inv]
  let ?rows = "filter (\<lambda>c. pc_po_id c = n) (t_completion d)" and ?ls = "filter (\<lambda>l. pl_po_id l = n) (t_purchase_lines d)"
  from run have cm: "cm_total_ordered_base cm = sum_list (map pc_qty_ordered_base ?rows)"
    "cm_total_received_base cm = sum_list (map pc_qty_received_base ?rows)"
    "cm_total_remaining_base cm = sum_list (map pc_qty_remaining_base ?rows)" and
    events: "events = load_po_completion_events d n"
    by (auto simp: get_completion_detail_def load_po_completion_rows_def Let_def split: option.splits)
  have ids: "distinct (map pl_id (t_purchase_lines d))" using L(2) by (simp add: lines_ok_def)
  have dist: "distinct (map pc_po_line_id ?rows)" "distinct (map pl_id ?ls)"
    using L(3) ids by (simp_all add: completion_ok_def distinct_map_filter)
  have row: "\<exists>l \<in> set (t_purchase_lines d). mirrors d l c \<and> pc_qty_received_base c = receipts_total d (pl_id l)"
    if "c \<in> set (t_completion d)" for c
    using that L(3) mirrors_sel(1) unfolding completion_ok_def by metis
  have own: "mirrors d l c \<and> pc_qty_received_base c = receipts_total d (pl_id l)"
    if "c \<in> set (t_completion d)" "l \<in> set (t_purchase_lines d)" "pc_po_line_id c = pl_id l" for c l
  proof -
    from row [OF that(1)] obtain m where "m \<in> set (t_purchase_lines d)" "mirrors d m c" "pc_qty_received_base c = receipts_total d (pl_id m)" by blast
    moreover from this mirrors_sel(1) [OF this(2)] that(2,3) ids have "m = l" by (simp add: distinct_map inj_on_def)
    ultimately show ?thesis by simp
  qed
  have qty: "pc_qty_ordered_base c = pl_qty_ordered_base l \<and> pc_qty_received_base c = receipts_total d (pl_id l) \<and>
      pc_qty_remaining_base c = max (pl_qty_ordered_base l - receipts_total d (pl_id l)) 0"
    if "c \<in> set (t_completion d)" "l \<in> set (t_purchase_lines d)" "pc_po_line_id c = pl_id l" for c l
    using own [OF that] mirrors_sel(3,5) [of d l c] by simp
  have keys: "pc_po_line_id ` set ?rows = pl_id ` set ?ls"
  proof
    show "pc_po_line_id ` set ?rows \<subseteq> pl_id ` set ?ls"
      using row mirrors_sel(1,2) by (fastforce simp: image_iff)
    show "pl_id ` set ?ls \<subseteq> pc_po_line_id ` set ?rows"
    proof
      fix k assume "k \<in> pl_id ` set ?ls"
      then obtain l where l: "l \<in> set (t_purchase_lines d)" "pl_po_id l = n" "k = pl_id l" by auto
      with L(3) have "k \<in> pc_po_line_id ` set (t_completion d)" by (simp add: completion_ok_def)
      then obtain c where c: "c \<in> set (t_completion d)" "pc_po_line_id c = k" by auto
      with own [OF c(1) l(1)] l mirrors_sel(2) [of d l c] have "pc_po_id c = n" by simp
      with c show "k \<in> pc_po_line_id ` set ?rows" by force
    qed
  qed
  note match = sum_list_matched [OF dist keys]
  have ordered: "cm_total_ordered_base cm = sum_list (map pl_qty_ordered_base ?ls)"
    unfolding cm by (rule match) (use qty in simp)
  have remaining: "cm_total_remaining_base cm = sum_list (map (\<lambda>l. max (pl_qty_ordered_base l - receipts_total d (pl_id l)) 0) ?ls)"
    unfolding cm by (rule match) (use qty in simp)
  have "cm_total_received_base cm = sum_list (map (\<lambda>l. receipts_total d (pl_id l)) ?ls)"
    unfolding cm by (rule match) (use qty in simp)
  also have "\<dots> = sum_where (\<lambda>x. of_order d n x \<and> commit_of_purchase d (il_event_id x)) il_qty_base (t_inbound_lines d)"
  proof -
    have "(\<lambda>x. list_ex (\<lambda>l. il_po_line_id x = Some (pl_id l)) ?ls) = of_order d n"
      by (auto simp: of_order_def list_ex_iff fun_eq_iff)
    from fun_cong [OF this] show ?thesis unfolding receipts_total_def lines_total [OF dist(2)] by simp
  qed
  also have "\<dots> = sum_list (map ce_qty_base events) + superseded_total d n"
  proof -
    have "live_receipt d m \<Longrightarrow> commit_of_purchase d m" for m
      by (auto simp: live_receipt_def commit_of_purchase_def receipt_event_def list_ex_iff)
    then have "sum_where (\<lambda>x. of_order d n x \<and> commit_of_purchase d (il_event_id x)) il_qty_base xs =
        sum_where (\<lambda>x. of_order d n x \<and> live_receipt d (il_event_id x)) il_qty_base xs +
        sum_where (\<lambda>x. of_order d n x \<and> commit_of_purchase d (il_event_id x) \<and> \<not> live_receipt d (il_event_id x)) il_qty_base xs" for xs
      by (induction xs) auto
    moreover have "distinct (map ev_id (t_events d))" using warehouse_invD(3) [OF w] by (simp add: events_inv_def)
    ultimately show ?thesis by (simp add: events superseded_total_def completion_events_total ids)
  qed
  finally have received: "cm_total_received_base cm = sum_list (map ce_qty_base events) + superseded_total d n" .
  show ?thesis by (intro conjI ordered received remaining)
qed

definition detail_totals where
  "detail_totals r = (case r of Inl e \<Rightarrow> [] | Inr (_, cm, _, events) \<Rightarrow>
     [cm_total_ordered_base cm, cm_total_received_base cm, cm_total_remaining_base cm, sum_list (map ce_qty_base events)])"

lemma completion_page_totals_witness:
  "\<exists>po cm rows events. get_completion_detail (s_core partly_received) 1 = Inr (po, cm, rows, events) \<and>
     cm_total_received_base cm = sum_list (map ce_qty_base events) \<and> cm_total_received_base cm = 12"
proof -
  have "returns (get_completion_detail (s_core partly_received) 1) (\<lambda>(_, cm, _, _). cm_total_received_base cm = 12)" by code_simp
  then obtain po cm rows events where r: "get_completion_detail (s_core partly_received) 1 = Inr (po, cm, rows, events)"
    "cm_total_received_base cm = 12" by (auto simp: returns_iff)
  moreover have "superseded_total (s_core partly_received) 1 = 0" by code_simp
  ultimately show ?thesis using completion_page_totals [OF partly_received_inv r(1)] by auto
qed

end
