(* ===== verification/Fsku.thy ===== *)
theory Fsku
  imports Stock "HOL-Library.AList"
begin

text \<open>
  Sales units of the order side, \<open>app/oms/fsku/\<close>: an FSKU is a named bundle of items with a one-way
  life (draft, published, retired); a merchant code of a store is bound to at most one FSKU
  (\<open>merchant_code_binding_service.py\<close>, its routes and the manual route of
  \<open>platform_orders_manual_decisions.py\<close>); the lines of a platform order are resolved through bindings
  and codes into item quantities (\<open>platform_order_resolve_core.py\<close>). The quantity of a component, a
  \<open>NUMERIC(18, 6)\<close> column, holds millionths. A string counts its UTF-8 bytes. Permissions, hints and
  next actions of the answers are not modelled, nor the lists.
\<close>

section \<open>Tables\<close>

record fsku =
  fk_id :: int
  fk_code :: string
  fk_name :: string
  fk_shape :: string
  fk_status :: string
  fk_published_at :: "int option"
  fk_retired_at :: "int option"
  fk_created_at :: int
  fk_updated_at :: int

record fsku_component =
  fc_id :: int
  fc_fsku_id :: int
  fc_item_id :: int
  fc_qty :: int
  fc_role :: string
  fc_created_at :: int
  fc_updated_at :: int

record code_binding =
  mb_id :: int
  mb_platform :: string
  mb_store_code :: string
  mb_merchant_code :: string
  mb_fsku_id :: int
  mb_reason :: "string option"
  mb_created_at :: int
  mb_updated_at :: int

record store =
  st_id :: int
  st_platform :: string
  st_store_code :: string
  st_store_name :: string

datatype oms_table = FSKUS | FSKU_COMPONENTS | CODE_BINDINGS

record oms =
  om_items :: "item list"
  om_stores :: "store list"
  om_fskus :: "fsku list"
  om_components :: "fsku_component list"
  om_bindings :: "code_binding list"
  om_next_id :: "oms_table \<Rightarrow> int"

definition oms_next_id :: "oms_table \<Rightarrow> oms \<Rightarrow> int \<times> oms" where
  "oms_next_id t s = (om_next_id s t, s\<lparr>om_next_id := (om_next_id s)(t := om_next_id s t + 1)\<rparr>)"

text \<open>The exceptions of both services, and those they let through.\<close>

datatype fsku_error =
    FskuNotFound string
  | FskuConflict string
  | FskuBadInput string
  | FskuRaises error

type_synonym 'a ftx = "oms \<Rightarrow> fsku_error + ('a \<times> oms)"

definition find_fsku :: "oms \<Rightarrow> int \<Rightarrow> fsku option" where
  "find_fsku s n = find (\<lambda>f. fk_id f = n) (om_fskus s)"

definition set_fsku :: "int \<Rightarrow> (fsku \<Rightarrow> fsku) \<Rightarrow> oms \<Rightarrow> oms" where
  "set_fsku n upd s = s\<lparr>om_fskus := update_where (\<lambda>f. fk_id f = n) upd (om_fskus s)\<rparr>"

section \<open>fsku\_service\_write.py\<close>

definition load_components :: "oms \<Rightarrow> int \<Rightarrow> fsku_component list" where
  "load_components s n = filter (\<lambda>c. fc_fsku_id c = n) (om_components s)"

definition is_bound_by_merchant_codes :: "oms \<Rightarrow> int \<Rightarrow> bool" where
  "is_bound_by_merchant_codes s n \<longleftrightarrow> list_ex (\<lambda>b. mb_fsku_id b = n) (om_bindings s)"

definition normalize_shape :: "string option \<Rightarrow> string result" where
  "normalize_shape v = (case v of None \<Rightarrow> Inr ''bundle''
     | Some x \<Rightarrow> (let t = py_strip x in
         if t = [] then Inr ''bundle''
         else if t \<notin> {''single'', ''bundle''} then Inl (ValueError ''shape must be single or bundle'')
         else Inr t))"

definition create_draft :: "int \<Rightarrow> string \<Rightarrow> string option \<Rightarrow> string option \<Rightarrow> fsku ftx" where
  "create_draft now name code shape s =
     (case normalize_shape shape of Inl e \<Rightarrow> Inl (FskuRaises e) | Inr shp \<Rightarrow>
      if ''__PENDING__'' \<in> fk_code ` set (om_fskus s)
      then Inl (FskuRaises (IntegrityError ''ux_fskus_code''))
      else
        let (nid, s1) = oms_next_id FSKUS s;
            cd = (case strip_or_none code of None \<Rightarrow> ''FSKU-'' @ int_text nid | Some c \<Rightarrow> c) in
        if cd \<in> fk_code ` set (om_fskus s) then Inl (FskuConflict ''FSKU code conflict'')
        else
          let f = \<lparr>fk_id = nid, fk_code = cd, fk_name = py_strip name, fk_shape = shp,
                fk_status = ''draft'', fk_published_at = None, fk_retired_at = None,
                fk_created_at = now, fk_updated_at = now\<rparr> in
          Inr (f, s1\<lparr>om_fskus := om_fskus s1 @ [f]\<rparr>))"

definition update_name :: "int \<Rightarrow> int \<Rightarrow> string \<Rightarrow> unit ftx" where
  "update_name now n name s =
     (case find_fsku s n of None \<Rightarrow> Inl (FskuNotFound ''FSKU not found'') | Some f \<Rightarrow>
      if fk_status f = ''retired'' then Inl (FskuConflict ''FSKU is retired'')
      else if py_strip name = [] then Inl (FskuBadInput ''name is empty'')
      else Inr ((), set_fsku n (\<lambda>x. x\<lparr>fk_name := py_strip name, fk_updated_at := now\<rparr>) s))"

record component_in =
  fi_item_id :: int
  fi_qty :: int
  fi_role :: string

definition component_in_valid :: "component_in \<Rightarrow> bool" where
  "component_in_valid c \<longleftrightarrow> 1 \<le> fi_item_id c \<and> 1 \<le> fi_qty c \<and> fi_role c \<in> {''primary'', ''gift''}"

text \<open>One inserted component; a quantity of 13 digits does not fit the column.\<close>

definition insert_component :: "int \<Rightarrow> int \<Rightarrow> component_in \<Rightarrow> oms \<Rightarrow> fsku_error + oms" where
  "insert_component now n c s =
     (if 10 ^ 12 \<le> \<bar>fi_qty c\<bar> then Inl (FskuRaises (DataError ''numeric field overflow''))
      else
        let (nid, s1) = oms_next_id FSKU_COMPONENTS s in
        Inr (s1\<lparr>om_components := om_components s1 @
          [\<lparr>fc_id = nid, fc_fsku_id = n, fc_item_id = fi_item_id c, fc_qty = fi_qty c * 10 ^ 6,
            fc_role = fi_role c, fc_created_at = now, fc_updated_at = now\<rparr>]\<rparr>))"

definition replace_components_draft :: "int \<Rightarrow> int \<Rightarrow> component_in list \<Rightarrow> unit ftx" where
  "replace_components_draft now n cs s =
     (case find_fsku s n of None \<Rightarrow> Inl (FskuNotFound ''FSKU not found'') | Some f \<Rightarrow>
      if fk_status f \<noteq> ''draft'' then Inl (FskuConflict ''FSKU is not a draft, components are frozen'')
      else if \<not> distinct (map (\<lambda>c. (fi_item_id c, fi_role c)) cs)
      then Inl (FskuBadInput ''duplicate item_id + role'')
      else if \<not> list_ex (\<lambda>c. fi_role c = ''primary'') cs
      then Inl (FskuBadInput ''at least one primary component is required'')
      else if \<not> list_all (\<lambda>c. fi_item_id c \<in> it_id ` set (om_items s)) cs
      then Inl (FskuBadInput ''Item not found'')
      else
        bindE (foldE (insert_component now n) cs
                (s\<lparr>om_components := filter (\<lambda>c. fc_fsku_id c \<noteq> n) (om_components s)\<rparr>)) (\<lambda>s1.
        Inr ((), set_fsku n (\<lambda>x. x\<lparr>fk_updated_at := now\<rparr>) s1)))"

definition publish :: "int \<Rightarrow> int \<Rightarrow> unit ftx" where
  "publish now n s =
     (case find_fsku s n of None \<Rightarrow> Inl (FskuNotFound ''FSKU not found'') | Some f \<Rightarrow>
      if fk_status f \<noteq> ''draft'' then Inl (FskuConflict ''only drafts can be published'')
      else if load_components s n = [] then Inl (FskuConflict ''at least one component is required'')
      else if \<not> list_ex (\<lambda>c. fc_role c = ''primary'') (load_components s n)
      then Inl (FskuConflict ''at least one primary component is required'')
      else Inr ((), set_fsku n (\<lambda>x. x\<lparr>fk_status := ''published'', fk_published_at := Some now,
        fk_updated_at := now\<rparr>) s))"

definition retire :: "int \<Rightarrow> int \<Rightarrow> unit ftx" where
  "retire now n s =
     (case find_fsku s n of None \<Rightarrow> Inl (FskuNotFound ''FSKU not found'') | Some f \<Rightarrow>
      if fk_status f \<noteq> ''published'' then Inl (FskuConflict ''only published FSKUs can be retired'')
      else if is_bound_by_merchant_codes s n
      then Inl (FskuConflict ''the FSKU is bound to merchant codes'')
      else Inr ((), set_fsku n (\<lambda>x. x\<lparr>fk_status := ''retired'', fk_retired_at := Some now,
        fk_updated_at := now\<rparr>) s))"

definition unretire :: "int \<Rightarrow> unit ftx" where
  "unretire n s = Inl (FskuConflict ''the life of an FSKU is one-way'')"

section \<open>The routes of FSKUs\<close>

text \<open>
  The routes answer 404, 409 and 422 for the exceptions of the service; the routes with a body
  check it first. The \<open>ValueError\<close> of \<open>normalize_shape\<close> can only leave the service in the creation.
\<close>

definition fsku_answer :: "fsku_error + 'a \<Rightarrow> 'a result" where
  "fsku_answer r = (case r of
       Inl (FskuNotFound m) \<Rightarrow> Inl (HTTPException 404 m)
     | Inl (FskuConflict m) \<Rightarrow> Inl (HTTPException 409 m)
     | Inl (FskuBadInput m) \<Rightarrow> Inl (HTTPException 422 m)
     | Inl (FskuRaises e) \<Rightarrow> Inl (case e of ValueError m \<Rightarrow> HTTPException 422 m | _ \<Rightarrow> e)
     | Inr x \<Rightarrow> Inr x)"

definition create_fsku :: "int \<Rightarrow> string \<Rightarrow> string option \<Rightarrow> string \<Rightarrow> oms \<Rightarrow> (fsku \<times> oms) result" where
  "create_fsku now name code shape s =
     (if name = [] \<or> code = Some [] \<or> shape \<notin> {''single'', ''bundle''}
      then Inl (HTTPException 422 ''request validation error'')
      else fsku_answer (create_draft now name code (Some shape) s))"

definition patch_fsku :: "int \<Rightarrow> int \<Rightarrow> string \<Rightarrow> oms \<Rightarrow> (unit \<times> oms) result" where
  "patch_fsku now n name s =
     (if name = [] then Inl (HTTPException 422 ''request validation error'')
      else fsku_answer (update_name now n name s))"

definition replace_components :: "int \<Rightarrow> int \<Rightarrow> component_in list \<Rightarrow> oms \<Rightarrow> (unit \<times> oms) result" where
  "replace_components now n cs s =
     (if \<not> list_all component_in_valid cs then Inl (HTTPException 422 ''request validation error'')
      else fsku_answer (replace_components_draft now n cs s))"

definition publish_fsku :: "int \<Rightarrow> int \<Rightarrow> oms \<Rightarrow> (unit \<times> oms) result" where
  "publish_fsku now n s = fsku_answer (publish now n s)"

definition retire_fsku :: "int \<Rightarrow> int \<Rightarrow> oms \<Rightarrow> (unit \<times> oms) result" where
  "retire_fsku now n s = fsku_answer (retire now n s)"

section \<open>merchant\_code\_binding\_service.py\<close>

definition norm_platform :: "string \<Rightarrow> string" where
  "norm_platform v = py_upper (py_strip v)"

definition binding_at :: "string \<Rightarrow> string \<Rightarrow> string \<Rightarrow> code_binding \<Rightarrow> bool" where
  "binding_at p sid cd b \<longleftrightarrow> mb_platform b = p \<and> mb_store_code b = sid \<and> mb_merchant_code b = cd"

definition bind_upsert ::
  "int \<Rightarrow> string \<Rightarrow> string \<Rightarrow> string \<Rightarrow> int \<Rightarrow> string option \<Rightarrow> code_binding ftx" where
  "bind_upsert now p sc mc n reason s =
     (case strip_or_none (Some mc) of None \<Rightarrow> Inl (FskuBadInput ''merchant_code is empty'') | Some cd \<Rightarrow>
      (case strip_or_none (Some sc) of None \<Rightarrow> Inl (FskuBadInput ''store_code is empty'') | Some sid \<Rightarrow>
      (case find_fsku s n of None \<Rightarrow> Inl (FskuNotFound ''FSKU not found'') | Some f \<Rightarrow>
       if fk_status f \<noteq> ''published'' then Inl (FskuConflict ''only published FSKUs can be bound'')
       else
         let rsn = (case reason of None \<Rightarrow> None | Some r \<Rightarrow> if r = [] then None else Some (py_strip r)) in
         (case find (binding_at p sid cd) (om_bindings s) of
            None \<Rightarrow>
              let (nid, s1) = oms_next_id CODE_BINDINGS s;
                  b = \<lparr>mb_id = nid, mb_platform = p, mb_store_code = sid, mb_merchant_code = cd,
                       mb_fsku_id = n, mb_reason = rsn, mb_created_at = now, mb_updated_at = now\<rparr> in
              Inr (b, s1\<lparr>om_bindings := om_bindings s1 @ [b]\<rparr>)
          | Some row \<Rightarrow>
              let b = row\<lparr>mb_fsku_id := n, mb_reason := rsn, mb_updated_at := now\<rparr> in
              Inr (b, s\<lparr>om_bindings := update_where (\<lambda>x. mb_id x = mb_id row)
                (\<lambda>x. x\<lparr>mb_fsku_id := n, mb_reason := rsn, mb_updated_at := now\<rparr>) (om_bindings s)\<rparr>)))))"

definition unbind :: "string \<Rightarrow> string \<Rightarrow> string \<Rightarrow> code_binding ftx" where
  "unbind p sc mc s =
     (case strip_or_none (Some mc) of None \<Rightarrow> Inl (FskuBadInput ''merchant_code is empty'') | Some cd \<Rightarrow>
      (case strip_or_none (Some sc) of None \<Rightarrow> Inl (FskuBadInput ''store_code is empty'') | Some sid \<Rightarrow>
      (case find (binding_at p sid cd) (om_bindings s) of
         None \<Rightarrow> Inl (FskuNotFound ''no binding to remove'')
       | Some row \<Rightarrow> Inr (row, s\<lparr>om_bindings := filter (\<lambda>x. mb_id x \<noteq> mb_id row) (om_bindings s)\<rparr>))))"

section \<open>The routes of bindings\<close>

record bind_in =
  bi_platform :: string
  bi_store_code :: string
  bi_merchant_code :: string
  bi_fsku_id :: int
  bi_reason :: "string option"

definition bind_in_valid :: "bind_in \<Rightarrow> bool" where
  "bind_in_valid p \<longleftrightarrow> bi_platform p \<noteq> [] \<and> bi_store_code p \<noteq> [] \<and> bi_merchant_code p \<noteq> [] \<and> 1 \<le> bi_fsku_id p"

text \<open>
  Both routes commit before they look for the store of the answer. A missing store raises inside
  the \<open>try\<close> block, whose last handler answers every exception with 409; what was committed stays.
\<close>

definition store_known :: "oms \<Rightarrow> string \<Rightarrow> string \<Rightarrow> bool" where
  "store_known s p sc \<longleftrightarrow> list_ex (\<lambda>x. st_platform x = p \<and> st_store_code x = sc) (om_stores s)"

definition bind_merchant_code :: "int \<Rightarrow> bind_in \<Rightarrow> oms \<Rightarrow> code_binding result \<times> oms" where
  "bind_merchant_code now p s =
     (if \<not> bind_in_valid p then (Inl (HTTPException 422 ''request validation error''), s)
      else
        let plat = norm_platform (bi_platform p); sc = py_strip (bi_store_code p) in
        (case fsku_answer (bind_upsert now plat sc (bi_merchant_code p) (bi_fsku_id p) (bi_reason p) s) of
           Inl e \<Rightarrow> (Inl e, s)
         | Inr (b, s1) \<Rightarrow>
             if store_known s1 plat sc then (Inr b, s1)
             else (Inl (HTTPException 409 ''writing the binding failed''), s1)))"

definition close_merchant_code_binding ::
  "string \<Rightarrow> string \<Rightarrow> string \<Rightarrow> oms \<Rightarrow> code_binding result \<times> oms" where
  "close_merchant_code_binding platform store_code merchant_code s =
     (if platform = [] \<or> store_code = [] \<or> merchant_code = []
      then (Inl (HTTPException 422 ''request validation error''), s)
      else
        let plat = norm_platform platform; sc = py_strip store_code in
        (case fsku_answer (unbind plat sc merchant_code s) of
           Inl e \<Rightarrow> (Inl e, s)
         | Inr (b, s1) \<Rightarrow>
             if store_known s1 plat sc then (Inr b, s1)
             else (Inl (HTTPException 409 ''removing the binding failed''), s1)))"

section \<open>Stores, and binding by hand\<close>

definition load_store_code_by_store_id :: "oms \<Rightarrow> string \<Rightarrow> int \<Rightarrow> string option" where
  "load_store_code_by_store_id s platform store_id =
     map_option (\<lambda>x. py_strip (st_store_code x))
       (find (\<lambda>x. st_id x = store_id \<and> st_platform x = norm_platform platform) (om_stores s))"

text \<open>\<open>INSERT ... ON CONFLICT DO UPDATE\<close>: the conflict consumes an id.\<close>

definition manual_bind_merchant_code ::
  "int \<Rightarrow> string \<Rightarrow> int \<Rightarrow> string \<Rightarrow> int \<Rightarrow> string option \<Rightarrow> oms \<Rightarrow> (unit \<times> oms) result" where
  "manual_bind_merchant_code now platform store_id filled_code n reason s =
     (if platform = [] \<or> store_id < 1 \<or> filled_code = [] \<or> n < 1
      then Inl (HTTPException 422 ''request validation error'')
      else
        let plat = norm_platform platform; code = py_strip filled_code in
        if code = [] then Inl (HTTPException 422 ''filled_code is empty'')
        else (case load_store_code_by_store_id s plat store_id of
            None \<Rightarrow> Inl (HTTPException 404 ''store_id not found'')
          | Some sc \<Rightarrow>
              if sc = [] then Inl (HTTPException 404 ''store_id not found'')
              else (case find_fsku s n of None \<Rightarrow> Inl (HTTPException 404 ''FSKU not found'') | Some f \<Rightarrow>
                if fk_status f \<noteq> ''published'' then Inl (HTTPException 409 ''only published FSKUs can be bound'')
                else
                  let rsn = Some (case strip_or_none reason of None \<Rightarrow> ''manual bind'' | Some r \<Rightarrow> r);
                      (nid, s1) = oms_next_id CODE_BINDINGS s in
                  Inr ((), s1\<lparr>om_bindings :=
                    (if list_ex (binding_at plat sc code) (om_bindings s)
                     then update_where (binding_at plat sc code)
                       (\<lambda>x. x\<lparr>mb_fsku_id := n, mb_reason := rsn, mb_updated_at := now\<rparr>) (om_bindings s)
                     else om_bindings s @
                       [\<lparr>mb_id = nid, mb_platform = plat, mb_store_code = sc, mb_merchant_code = code,
                         mb_fsku_id = n, mb_reason = rsn, mb_created_at = now, mb_updated_at = now\<rparr>])\<rparr>))))"

section \<open>Resolving the lines of a platform order\<close>

definition resolve_fsku_id_by_binding ::
  "oms \<Rightarrow> string \<Rightarrow> string \<Rightarrow> string \<Rightarrow> int option \<times> string option" where
  "resolve_fsku_id_by_binding s platform store_code merchant_code =
     (let plat = norm_platform platform; sid = py_strip store_code; code = py_strip merchant_code;
          hits = filter (binding_at plat sid code) (om_bindings s);
          live = (\<lambda>b. case find_fsku s (mb_fsku_id b) of None \<Rightarrow> False | Some f \<Rightarrow> fk_status f = ''published'') in
      if code = [] then (None, Some ''CODE_NOT_BOUND'')
      else (case find live hits of
          Some b \<Rightarrow> (Some (mb_fsku_id b), None)
        | None \<Rightarrow> (case hits of [] \<Rightarrow> (None, Some ''CODE_NOT_BOUND'')
          | b # _ \<Rightarrow> (case find_fsku s (mb_fsku_id b) of None \<Rightarrow> (None, Some ''CODE_NOT_BOUND'')
            | Some f \<Rightarrow> if fk_status f \<noteq> [] \<and> fk_status f \<noteq> ''published'' then (None, Some ''FSKU_NOT_PUBLISHED'')
                        else (None, Some ''CODE_NOT_BOUND'')))))"

definition load_fsku_components :: "oms \<Rightarrow> int \<Rightarrow> fsku_component list" where
  "load_fsku_components s n =
     (case find_fsku s n of None \<Rightarrow> []
      | Some f \<Rightarrow> if fk_status f = ''published'' then sort_key fc_id (load_components s n) else [])"

text \<open>The value of \<open>qty\<close> in the raw line; floats are not modelled.\<close>

definition to_int_pos :: "pyval \<Rightarrow> int \<Rightarrow> int" where
  "to_int_pos v dflt =
     (let n = (case v of PNone \<Rightarrow> None | PBool b \<Rightarrow> Some (if b then 1 else 0) | PInt k \<Rightarrow> Some k
               | PStr x \<Rightarrow> py_int_of_string x) in
      case n of None \<Rightarrow> dflt | Some k \<Rightarrow> if 0 < k then k else dflt)"

definition dec_to_int_qty :: "int \<Rightarrow> int result" where
  "dec_to_int_qty q =
     (if q \<le> 0 then Inr 0
      else if q mod 10 ^ 6 = 0 then Inr (q div 10 ^ 6)
      else Inl (ValueError ''component qty must be integer-like''))"

record platform_line =
  ln_filled_code :: "string option"
  ln_qty :: pyval

record expanded_item =
  ex_item_id :: int
  ex_component_qty :: int
  ex_need_qty :: int
  ex_role :: string

record resolved_order_line =
  rs_filled_code :: string
  rs_qty :: int
  rs_fsku_id :: int
  rs_expanded_items :: "expanded_item list"

record unresolved_line =
  un_filled_code :: string
  un_qty :: int
  un_fsku_id :: "int option"
  un_reason :: string

text \<open>A dict from items to quantities, in insertion order.\<close>

type_synonym qty_map = "(int \<times> int) list"

definition qty_of :: "qty_map \<Rightarrow> int \<Rightarrow> int" where
  "qty_of m i = (case map_of m i of None \<Rightarrow> 0 | Some q \<Rightarrow> q)"

text \<open>
  The loop over the components writes the quantities as it goes: when a later component raises,
  those of the earlier ones stay in the map.
\<close>

fun expand_components ::
  "int \<Rightarrow> fsku_component list \<Rightarrow> qty_map \<Rightarrow> expanded_item list result \<times> qty_map" where
  "expand_components qty [] m = (Inr [], m)"
| "expand_components qty (c # cs) m =
     (case dec_to_int_qty (fc_qty c) of
        Inl e \<Rightarrow> (Inl e, m)
      | Inr cqty \<Rightarrow>
          let need = qty * cqty in
          if need \<le> 0 then expand_components qty cs m
          else
            let x = \<lparr>ex_item_id = fc_item_id c, ex_component_qty = cqty, ex_need_qty = need, ex_role = fc_role c\<rparr>;
                (r, m1) = expand_components qty cs (AList.update (fc_item_id c) (qty_of m (fc_item_id c) + need) m)
            in (map_sum id ((#) x) r, m1))"

definition fsku_id_of_code :: "oms \<Rightarrow> string \<Rightarrow> int option" where
  "fsku_id_of_code s code = map_option fk_id
     (find (\<lambda>f. fk_code f = code \<and> fk_status f = ''published'') (om_fskus s))"

text \<open>The FSKU of a filled code: the binding decides, the code itself only where nothing is bound.\<close>

definition resolve_target :: "oms \<Rightarrow> string \<Rightarrow> string option \<Rightarrow> string \<Rightarrow> string + int" where
  "resolve_target s plat store_code code =
     (let by_code = (case fsku_id_of_code s code of None \<Rightarrow> Inl ''CODE_NOT_BOUND'' | Some n \<Rightarrow> Inr n) in
      case store_code of None \<Rightarrow> by_code
      | Some sc \<Rightarrow>
          if sc = [] then by_code
          else (case resolve_fsku_id_by_binding s plat sc code of
              (Some n, _) \<Rightarrow> Inr n
            | (None, reason) \<Rightarrow>
                if reason = Some ''FSKU_NOT_PUBLISHED'' then Inl ''FSKU_NOT_PUBLISHED'' else by_code))"

definition resolve_line_items ::
  "oms \<Rightarrow> string \<Rightarrow> string option \<Rightarrow> platform_line \<Rightarrow> qty_map \<Rightarrow> (unresolved_line + resolved_order_line) \<times> qty_map" where
  "resolve_line_items s plat store_code ln m =
     (let code = (case ln_filled_code ln of None \<Rightarrow> [] | Some x \<Rightarrow> py_strip x);
          qty = to_int_pos (ln_qty ln) 1;
          un = (\<lambda>n r. Inl \<lparr>un_filled_code = code, un_qty = qty, un_fsku_id = n, un_reason = r\<rparr>) in
      if code = [] then (un None ''MISSING_FILLED_CODE'', m)
      else (case resolve_target s plat store_code code of
          Inl r \<Rightarrow> (un None r, m)
        | Inr n \<Rightarrow>
            let comps = load_fsku_components s n in
            if comps = [] then (un (Some n) ''FSKU_NOT_EXECUTABLE'', m)
            else (case expand_components qty comps m of
                (Inl _, m1) \<Rightarrow> (un (Some n) ''COMPONENT_QTY_INVALID'', m1)
              | (Inr xs, m1) \<Rightarrow>
                  (Inr \<lparr>rs_filled_code = code, rs_qty = qty, rs_fsku_id = n, rs_expanded_items = xs\<rparr>, m1))))"

fun resolve_loop ::
  "oms \<Rightarrow> string \<Rightarrow> string option \<Rightarrow> platform_line list \<Rightarrow> qty_map \<Rightarrow>
   resolved_order_line list \<times> unresolved_line list \<times> qty_map" where
  "resolve_loop s plat sc [] m = ([], [], m)"
| "resolve_loop s plat sc (ln # lns) m =
     (let (r, m1) = resolve_line_items s plat sc ln m; (rs, us, m2) = resolve_loop s plat sc lns m1 in
      case r of Inl u \<Rightarrow> (rs, u # us, m2) | Inr x \<Rightarrow> (x # rs, us, m2))"

definition resolve_platform_lines_to_items ::
  "oms \<Rightarrow> string \<Rightarrow> int \<Rightarrow> platform_line list \<Rightarrow> resolved_order_line list \<times> unresolved_line list \<times> qty_map" where
  "resolve_platform_lines_to_items s platform store_id lines =
     (let plat = norm_platform platform in
      resolve_loop s plat (load_store_code_by_store_id s plat store_id) lines [])"

end
