(* ===== verification/FskuLife.thy ===== *)
theory FskuLife
  imports Fsku
begin

text \<open>
  The life of FSKUs and merchant codes: the invariant of the tables (a code that is bound is bound to
  a published FSKU that can be executed), what a step may change (published bundles never do), and
  what the resolution of order lines delivers on such tables.
\<close>

section \<open>The invariant\<close>

definition fsku_ok :: "oms \<Rightarrow> fsku \<Rightarrow> bool" where
  "fsku_ok s f \<longleftrightarrow> fk_id f < om_next_id s FSKUS \<and> fk_status f \<in> {''draft'', ''published'', ''retired''} \<and>
     (fk_published_at f = None \<longleftrightarrow> fk_status f = ''draft'') \<and>
     (fk_retired_at f = None \<longleftrightarrow> fk_status f \<noteq> ''retired'') \<and>
     (fk_status f \<noteq> ''draft'' \<longrightarrow> (\<exists>c \<in> set (load_components s (fk_id f)). fc_role c = ''primary''))"

definition component_ok :: "oms \<Rightarrow> fsku_component \<Rightarrow> bool" where
  "component_ok s c \<longleftrightarrow> fc_id c < om_next_id s FSKU_COMPONENTS \<and> 0 < fc_qty c \<and> fc_qty c mod 10 ^ 6 = 0 \<and>
     fc_role c \<in> {''primary'', ''gift''} \<and> fc_fsku_id c \<in> fk_id ` set (om_fskus s) \<and>
     fc_item_id c \<in> it_id ` set (om_items s)"

definition binding_key :: "code_binding \<Rightarrow> string \<times> string \<times> string" where
  "binding_key b = (mb_platform b, mb_store_code b, mb_merchant_code b)"

definition binding_ok :: "oms \<Rightarrow> code_binding \<Rightarrow> bool" where
  "binding_ok s b \<longleftrightarrow> mb_id b < om_next_id s CODE_BINDINGS \<and>
     (\<exists>f \<in> set (om_fskus s). fk_id f = mb_fsku_id b \<and> fk_status f = ''published'')"

definition oms_inv :: "oms \<Rightarrow> bool" where
  "oms_inv s \<longleftrightarrow> distinct (map fk_id (om_fskus s)) \<and> distinct (map fk_code (om_fskus s)) \<and>
     (\<forall>f \<in> set (om_fskus s). fsku_ok s f) \<and>
     distinct (map fc_id (om_components s)) \<and> (\<forall>c \<in> set (om_components s). component_ok s c) \<and>
     distinct (map mb_id (om_bindings s)) \<and> distinct (map binding_key (om_bindings s)) \<and>
     (\<forall>b \<in> set (om_bindings s). binding_ok s b)"

lemma oms_invD:
  assumes "oms_inv s"
  shows "distinct (map fk_id (om_fskus s))" "distinct (map fk_code (om_fskus s))"
    "f \<in> set (om_fskus s) \<Longrightarrow> fsku_ok s f"
    "distinct (map fc_id (om_components s))" "c \<in> set (om_components s) \<Longrightarrow> component_ok s c"
    "distinct (map mb_id (om_bindings s))" "distinct (map binding_key (om_bindings s))"
    "b \<in> set (om_bindings s) \<Longrightarrow> binding_ok s b"
  using assms by (simp_all add: oms_inv_def)

lemma find_fsku_SomeD: "find_fsku s n = Some f \<Longrightarrow> f \<in> set (om_fskus s) \<and> fk_id f = n"
  using find_SomeD [of "\<lambda>f. fk_id f = n"] by (simp add: find_fsku_def)

lemma find_fsku_in: "distinct (map fk_id (om_fskus s)) \<Longrightarrow> f \<in> set (om_fskus s) \<Longrightarrow> find_fsku s (fk_id f) = Some f"
  unfolding find_fsku_def by (rule find_unique_key)

lemma fsku_by_id: "oms_inv s \<Longrightarrow> find_fsku s n = Some f \<Longrightarrow> g \<in> set (om_fskus s) \<Longrightarrow> fk_id g = n \<Longrightarrow> g = f"
  using find_fsku_in [OF oms_invD(1)] by fastforce

lemma binding_at_key: "binding_at p sc cd b \<longleftrightarrow> binding_key b = (p, sc, cd)"
  by (auto simp: binding_at_def binding_key_def)

text \<open>A step that keeps the columns the rows of the other tables rest on.\<close>

lemma fsku_ok_cong:
  "fsku_ok s f \<Longrightarrow> om_next_id s FSKUS \<le> om_next_id s' FSKUS \<Longrightarrow>
   (fk_status f \<noteq> ''draft'' \<Longrightarrow> set (load_components s (fk_id f)) \<subseteq> set (load_components s' (fk_id f))) \<Longrightarrow> fsku_ok s' f"
  unfolding fsku_ok_def by (meson order_less_le_trans subsetD)

lemma component_ok_cong:
  "component_ok s c \<Longrightarrow> om_next_id s FSKU_COMPONENTS \<le> om_next_id s' FSKU_COMPONENTS \<Longrightarrow>
   fk_id ` set (om_fskus s) \<subseteq> fk_id ` set (om_fskus s') \<Longrightarrow>
   it_id ` set (om_items s) \<subseteq> it_id ` set (om_items s') \<Longrightarrow> component_ok s' c"
  unfolding component_ok_def by (meson order_less_le_trans subsetD)

lemma binding_ok_cong:
  "binding_ok s b \<Longrightarrow> om_next_id s CODE_BINDINGS \<le> om_next_id s' CODE_BINDINGS \<Longrightarrow>
   (\<And>f. f \<in> set (om_fskus s) \<Longrightarrow> fk_id f = mb_fsku_id b \<Longrightarrow> fk_status f = ''published'' \<Longrightarrow>
      \<exists>f' \<in> set (om_fskus s'). fk_id f' = mb_fsku_id b \<and> fk_status f' = ''published'') \<Longrightarrow> binding_ok s' b"
  unfolding binding_ok_def by (meson order_less_le_trans)

lemma load_components_set_fsku [simp]: "load_components (set_fsku n u s) k = load_components s k"
  by (simp add: load_components_def set_fsku_def)

lemma set_fsku_sel [simp]:
  "om_items (set_fsku n u s) = om_items s" "om_stores (set_fsku n u s) = om_stores s"
  "om_components (set_fsku n u s) = om_components s" "om_bindings (set_fsku n u s) = om_bindings s"
  "om_next_id (set_fsku n u s) = om_next_id s"
  "om_fskus (set_fsku n u s) = update_where (\<lambda>f. fk_id f = n) u (om_fskus s)"
  by (simp_all add: set_fsku_def)

lemma fsku_ok_set_fsku [simp]: "fsku_ok (set_fsku n u s) f = fsku_ok s f"
  by (simp add: fsku_ok_def)

text \<open>Updating one FSKU, where the new row is sound and a bound one stays published.\<close>

lemma set_fsku_inv:
  assumes inv: "oms_inv s" and f: "find_fsku s n = Some f"
    and keep: "\<And>f. fk_id (u f) = fk_id f" "\<And>f. fk_code (u f) = fk_code f"
    and ok1: "fsku_ok s f \<Longrightarrow> fsku_ok s (u f)"
    and bound1: "\<And>b. b \<in> set (om_bindings s) \<Longrightarrow> mb_fsku_id b = n \<Longrightarrow>
      fk_status f = ''published'' \<Longrightarrow> fk_status (u f) = ''published''"
  shows "oms_inv (set_fsku n u s)"
proof -
  note I = oms_invD [OF inv]
  have ok: "fsku_ok s (u g)" if "g \<in> set (om_fskus s)" "fk_id g = n" for g
    using fsku_by_id [OF inv f that] ok1 I(3) [OF that(1)] by simp
  have bound: "fk_status (u g) = ''published''" if "g \<in> set (om_fskus s)" "fk_id g = n" "b \<in> set (om_bindings s)"
    "mb_fsku_id b = n" "fk_status g = ''published''" for g b
    using fsku_by_id [OF inv f that(1,2)] bound1 that by simp
  have ids: "map fk_id (om_fskus (set_fsku n u s)) = map fk_id (om_fskus s)"
    "map fk_code (om_fskus (set_fsku n u s)) = map fk_code (om_fskus s)"
    using keep by (simp_all add: map_update_where)
  have id_set: "fk_id ` set (om_fskus (set_fsku n u s)) = fk_id ` set (om_fskus s)"
    using arg_cong [OF ids(1), of set] by (simp only: set_map)
  have "fsku_ok (set_fsku n u s) f" if "f \<in> set (om_fskus (set_fsku n u s))" for f
    using that ok I(3) by (auto simp: in_set_update_where)
  moreover have "component_ok (set_fsku n u s) c" if "c \<in> set (om_components s)" for c
    by (rule component_ok_cong [OF I(5) [OF that]]) (use id_set in auto)
  moreover have "binding_ok (set_fsku n u s) b" if "b \<in> set (om_bindings s)" for b
  proof (rule binding_ok_cong [OF I(8) [OF that]])
    fix f assume f: "f \<in> set (om_fskus s)" "fk_id f = mb_fsku_id b" "fk_status f = ''published''"
    let ?f = "if fk_id f = n then u f else f"
    have "?f \<in> set (om_fskus (set_fsku n u s))" using f(1) by (auto simp: in_set_update_where)
    moreover have "fk_id ?f = mb_fsku_id b" using f(2) keep(1) by simp
    moreover have "fk_status ?f = ''published''" using f bound [of f b] that by auto
    ultimately show "\<exists>f' \<in> set (om_fskus (set_fsku n u s)). fk_id f' = mb_fsku_id b \<and> fk_status f' = ''published''" by blast
  qed simp
  ultimately show ?thesis unfolding oms_inv_def ids using I by simp
qed

section \<open>The operations keep it\<close>

lemma fsku_answer_Inr [simp]: "fsku_answer r = Inr x \<longleftrightarrow> r = Inr x"
  by (auto simp: fsku_answer_def split: sum.splits fsku_error.splits)

text \<open>The services, where they return.\<close>

lemma update_name_Inr:
  assumes "update_name now n name s = Inr (u, s')"
  obtains f where "find_fsku s n = Some f" "fk_status f \<noteq> ''retired''"
    "s' = set_fsku n (\<lambda>x. x\<lparr>fk_name := py_strip name, fk_updated_at := now\<rparr>) s"
  using assms by (auto simp: update_name_def res_simps)

lemma publish_Inr:
  assumes "publish now n s = Inr (u, s')"
  obtains f where "find_fsku s n = Some f" "fk_status f = ''draft''"
    "\<exists>c \<in> set (load_components s n). fc_role c = ''primary''"
    "s' = set_fsku n (\<lambda>x. x\<lparr>fk_status := ''published'', fk_published_at := Some now, fk_updated_at := now\<rparr>) s"
  using assms by (auto simp: publish_def res_simps list_ex_iff)

lemma retire_Inr:
  assumes "retire now n s = Inr (u, s')"
  obtains f where "find_fsku s n = Some f" "fk_status f = ''published''" "\<forall>b \<in> set (om_bindings s). mb_fsku_id b \<noteq> n"
    "s' = set_fsku n (\<lambda>x. x\<lparr>fk_status := ''retired'', fk_retired_at := Some now, fk_updated_at := now\<rparr>) s"
  using assms by (auto simp: retire_def res_simps is_bound_by_merchant_codes_def list_ex_iff)

lemma update_name_inv:
  assumes "update_name now n name s = Inr (u, s')" and "oms_inv s"
  shows "oms_inv s'"
  using assms(1) by (rule update_name_Inr) (auto intro!: set_fsku_inv [OF assms(2)] simp: fsku_ok_def)

lemma publish_inv:
  assumes "publish now n s = Inr (u, s')" and "oms_inv s"
  shows "oms_inv s'"
  using assms(1)
proof (rule publish_Inr)
  fix f assume f: "find_fsku s n = Some f" "fk_status f = ''draft''" "\<exists>c \<in> set (load_components s n). fc_role c = ''primary''"
    "s' = set_fsku n (\<lambda>x. x\<lparr>fk_status := ''published'', fk_published_at := Some now, fk_updated_at := now\<rparr>) s"
  show "oms_inv s'" unfolding f(4)
    by (rule set_fsku_inv [OF assms(2) f(1)]) (use f(2,3) find_fsku_SomeD [OF f(1)] in \<open>auto simp: fsku_ok_def\<close>)
qed

lemma retire_inv:
  assumes "retire now n s = Inr (u, s')" and "oms_inv s"
  shows "oms_inv s'"
  using assms(1)
proof (rule retire_Inr)
  fix f assume f: "find_fsku s n = Some f" "fk_status f = ''published''" "\<forall>b \<in> set (om_bindings s). mb_fsku_id b \<noteq> n"
    "s' = set_fsku n (\<lambda>x. x\<lparr>fk_status := ''retired'', fk_retired_at := Some now, fk_updated_at := now\<rparr>) s"
  show "oms_inv s'" unfolding f(4)
    by (rule set_fsku_inv [OF assms(2) f(1)]) (use f(2,3) in \<open>auto simp: fsku_ok_def\<close>)
qed

lemma create_draft_Inr:
  assumes "create_draft now name code shape s = Inr (f, s')"
  shows "fk_code f \<notin> fk_code ` set (om_fskus s)" "fk_status f = ''draft''" "fk_published_at f = None" "fk_retired_at f = None"
    "fk_id f = om_next_id s FSKUS" "''__PENDING__'' \<notin> fk_code ` set (om_fskus s)"
    "s' = s\<lparr>om_next_id := (om_next_id s)(FSKUS := om_next_id s FSKUS + 1), om_fskus := om_fskus s @ [f]\<rparr>"
  using assms by (auto simp: create_draft_def oms_next_id_def Let_def split: sum.splits if_splits)

lemma create_draft_inv:
  assumes run: "create_draft now name code shape s = Inr (f, s')" and inv: "oms_inv s"
  shows "oms_inv s'"
proof -
  note C = create_draft_Inr [OF run] and I = oms_invD [OF inv]
  have new: "fk_id f \<notin> fk_id ` set (om_fskus s)" using I(3) C(5) by (fastforce simp: fsku_ok_def)
  have sel: "load_components s' k = load_components s k" for k by (simp add: C(7) load_components_def)
  have "fsku_ok s' g" if "g \<in> set (om_fskus s)" for g
    by (rule fsku_ok_cong [OF I(3) [OF that]]) (simp_all add: C(7) sel load_components_def)
  moreover have "fsku_ok s' f" using C(2-5) by (simp add: fsku_ok_def C(7))
  moreover have "component_ok s' c" if "c \<in> set (om_components s)" for c
    by (rule component_ok_cong [OF I(5) [OF that]]) (auto simp: C(7))
  moreover have "binding_ok s' b" if "b \<in> set (om_bindings s)" for b
    by (rule binding_ok_cong [OF I(8) [OF that]]) (auto simp: C(7))
  ultimately show ?thesis using I(1,2,4,6,7) new C(1) unfolding oms_inv_def by (auto simp: C(7))
qed

text \<open>The rows a replacement inserts.\<close>

definition component_row :: "int \<Rightarrow> int \<Rightarrow> int \<Rightarrow> component_in \<Rightarrow> fsku_component" where
  "component_row now n k c = \<lparr>fc_id = k, fc_fsku_id = n, fc_item_id = fi_item_id c, fc_qty = fi_qty c * 10 ^ 6,
     fc_role = fi_role c, fc_created_at = now, fc_updated_at = now\<rparr>"

fun component_rows :: "int \<Rightarrow> int \<Rightarrow> int \<Rightarrow> component_in list \<Rightarrow> fsku_component list" where
  "component_rows now n k [] = []"
| "component_rows now n k (c # cs) = component_row now n k c # component_rows now n (k + 1) cs"

lemma component_rows_in:
  "r \<in> set (component_rows now n k cs) \<Longrightarrow>
   fc_fsku_id r = n \<and> k \<le> fc_id r \<and> fc_id r < k + int (length cs) \<and>
   (\<exists>c \<in> set cs. fc_item_id r = fi_item_id c \<and> fc_role r = fi_role c \<and> fc_qty r = fi_qty c * 10 ^ 6)"
  by (induction cs arbitrary: k) (fastforce simp: component_row_def)+

lemma component_rows_role:
  "c \<in> set cs \<Longrightarrow> \<exists>r \<in> set (component_rows now n k cs). fc_role r = fi_role c"
  by (induction cs arbitrary: k) (auto simp: component_row_def)

lemma component_rows_distinct: "distinct (map fc_id (component_rows now n k cs))"
proof (induction cs arbitrary: k)
  case (Cons c cs)
  have "k \<notin> fc_id ` set (component_rows now n (k + 1) cs)" using component_rows_in by fastforce
  with Cons show ?case by (simp add: component_row_def)
qed simp

lemma insert_components_Inr:
  "foldE (insert_component now n) cs s = Inr s' \<Longrightarrow>
   s' = s\<lparr>om_next_id := (om_next_id s)(FSKU_COMPONENTS := om_next_id s FSKU_COMPONENTS + int (length cs)),
     om_components := om_components s @ component_rows now n (om_next_id s FSKU_COMPONENTS) cs\<rparr>"
proof (induction cs arbitrary: s)
  case (Cons c cs)
  from Cons.prems obtain t where t: "insert_component now n c s = Inr t" "foldE (insert_component now n) cs t = Inr s'"
    by (auto simp: bindE_eq_Inr)
  from t(1) have "t = s\<lparr>om_next_id := (om_next_id s)(FSKU_COMPONENTS := om_next_id s FSKU_COMPONENTS + 1),
      om_components := om_components s @ [component_row now n (om_next_id s FSKU_COMPONENTS) c]\<rparr>"
    by (auto simp: insert_component_def oms_next_id_def component_row_def Let_def split: if_splits)
  with Cons.IH [OF t(2)] show ?case by (intro oms.equality) (auto simp: fun_eq_iff)
qed simp

lemma replace_components_Inr:
  assumes "replace_components_draft now n cs s = Inr (u, s')"
  obtains f rest where "find_fsku s n = Some f" "fk_status f = ''draft''"
    "rest = filter (\<lambda>c. fc_fsku_id c \<noteq> n) (om_components s)"
    "list_all (\<lambda>c. fi_item_id c \<in> it_id ` set (om_items s)) cs"
    "s' = set_fsku n (\<lambda>x. x\<lparr>fk_updated_at := now\<rparr>)
       (s\<lparr>om_next_id := (om_next_id s)(FSKU_COMPONENTS := om_next_id s FSKU_COMPONENTS + int (length cs)),
          om_components := rest @ component_rows now n (om_next_id s FSKU_COMPONENTS) cs\<rparr>)"
  using assms by (auto simp: replace_components_draft_def res_simps dest!: insert_components_Inr)

lemma replace_components_inv:
  assumes run: "replace_components_draft now n cs s = Inr (u, s')" and inv: "oms_inv s"
    and valid: "list_all component_in_valid cs"
  shows "oms_inv s'"
  using run
proof (rule replace_components_Inr)
  fix f rest assume f: "find_fsku s n = Some f" "fk_status f = ''draft''"
    and rest: "rest = filter (\<lambda>c. fc_fsku_id c \<noteq> n) (om_components s)"
    and items: "list_all (\<lambda>c. fi_item_id c \<in> it_id ` set (om_items s)) cs"
    and s': "s' = set_fsku n (\<lambda>x. x\<lparr>fk_updated_at := now\<rparr>)
       (s\<lparr>om_next_id := (om_next_id s)(FSKU_COMPONENTS := om_next_id s FSKU_COMPONENTS + int (length cs)),
          om_components := rest @ component_rows now n (om_next_id s FSKU_COMPONENTS) cs\<rparr>)" (is "_ = set_fsku n ?u ?t")
  note I = oms_invD [OF inv]
  let ?rows = "component_rows now n (om_next_id s FSKU_COMPONENTS) cs"
  have n: "n \<in> fk_id ` set (om_fskus s)" using find_fsku_SomeD [OF f(1)] by auto
  have other: "load_components ?t k = load_components s k" if "k \<noteq> n" for k
  proof -
    have "filter (\<lambda>c. fc_fsku_id c = k) ?rows = []" using component_rows_in that by (fastforce simp: filter_empty_conv)
    moreover have "filter (\<lambda>c. fc_fsku_id c = k) rest = load_components s k"
      using that unfolding rest load_components_def filter_filter by (intro filter_cong) auto
    ultimately show ?thesis by (simp add: load_components_def)
  qed
  have "fsku_ok ?t g" if g: "g \<in> set (om_fskus s)" for g
  proof (cases "fk_id g = n")
    case True
    with fsku_by_id [OF inv f(1) g] have "g = f" by simp
    with I(3) [OF g] f(2) show ?thesis by (simp add: fsku_ok_def)
  next
    case False
    show ?thesis by (rule fsku_ok_cong [OF I(3) [OF g]]) (simp_all add: other [OF False])
  qed
  moreover have "component_ok ?t c" if "c \<in> set rest" for c
    by (rule component_ok_cong [OF I(5)]) (use that rest in auto)
  moreover have "component_ok ?t r" if "r \<in> set ?rows" for r
    using component_rows_in [OF that] valid items n by (auto simp: component_ok_def component_in_valid_def list_all_iff)
  moreover have "distinct (map fc_id (rest @ ?rows))"
  proof -
    have "fc_id c < om_next_id s FSKU_COMPONENTS" if "c \<in> set rest" for c
      using I(5) that rest by (simp add: component_ok_def)
    then have "fc_id ` set rest \<inter> fc_id ` set ?rows = {}" using component_rows_in by fastforce
    then show ?thesis using I(4) component_rows_distinct unfolding rest by (simp add: distinct_map_filter)
  qed
  moreover have "binding_ok ?t b" if "b \<in> set (om_bindings s)" for b
    by (rule binding_ok_cong [OF I(8) [OF that]]) auto
  ultimately have "oms_inv ?t" using I unfolding oms_inv_def by auto
  moreover have "find_fsku ?t n = Some f" using f(1) by (simp add: find_fsku_def)
  ultimately show "oms_inv s'" unfolding s' using f(2) by (intro set_fsku_inv) (auto simp: fsku_ok_def)
qed

section \<open>Bindings\<close>

lemma is_space_code: "is_space c \<longleftrightarrow> (of_char c :: nat) \<in> {9, 10, 11, 12, 13, 28, 29, 30, 31, 32}"
proof -
  have "is_space (char_of n) \<longleftrightarrow> n \<in> {9, 10, 11, 12, 13, 28, 29, 30, 31, 32}" if "n < 256" for n :: nat
    unfolding is_space_def by (simp add: char_of_eq_iff take_bit_eq_mod that)
  from this [of "of_char c"] show ?thesis by simp
qed

lemma upper_char_code: "(of_char (upper_char c) :: nat) =
    (if 97 \<le> (of_char c :: nat) \<and> (of_char c :: nat) \<le> 122 then of_char c - 32 else of_char c)"
proof -
  have "(of_char c :: nat) - 32 < 256" by (rule le_less_trans [OF diff_le_self]) simp
  then show ?thesis by (simp add: upper_char_def Let_def)
qed

lemma is_space_upper [simp]: "is_space (upper_char c) = is_space c"
  unfolding is_space_code upper_char_code by auto

lemma strip_upper: "py_strip (py_upper v) = py_upper (py_strip v)"
proof -
  have "is_space \<circ> upper_char = is_space" by (simp add: fun_eq_iff)
  then show ?thesis by (simp add: py_strip_def py_upper_def rev_map dropWhile_map)
qed

lemma upper_char_idem: "upper_char (upper_char c) = upper_char c"
proof -
  have "(of_char (upper_char (upper_char c)) :: nat) = of_char (upper_char c)" unfolding upper_char_code by auto
  then show ?thesis by simp
qed

lemma norm_platform_idem [simp]: "norm_platform (norm_platform v) = norm_platform v"
  by (simp add: norm_platform_def strip_upper) (simp add: py_upper_def upper_char_idem)

lemma strip_or_none_Some: "strip_or_none (Some x) = Some y \<longleftrightarrow> y = py_strip x \<and> y \<noteq> []"
  by (auto simp: strip_or_none_def Let_def)

text \<open>Setting the binding of a code, in both services.\<close>

lemma put_binding_inv:
  assumes inv: "oms_inv s" and f: "f \<in> set (om_fskus s)" "fk_id f = n" "fk_status f = ''published''"
    and s': "s' = s\<lparr>om_next_id := nx, om_bindings := bs\<rparr>"
    and nx: "\<And>t. om_next_id s t \<le> nx t"
    and bs: "bs = update_where hit (\<lambda>x. x\<lparr>mb_fsku_id := n, mb_reason := rsn, mb_updated_at := now\<rparr>) (om_bindings s) \<or>
      (\<exists>b. bs = om_bindings s @ [b] \<and> mb_id b = om_next_id s CODE_BINDINGS \<and> om_next_id s CODE_BINDINGS < nx CODE_BINDINGS \<and>
        binding_key b \<notin> binding_key ` set (om_bindings s) \<and> mb_fsku_id b = n)"
  shows "oms_inv s'"
proof -
  note I = oms_invD [OF inv]
  have "fsku_ok s' g" if "g \<in> set (om_fskus s)" for g
    by (rule fsku_ok_cong [OF I(3) [OF that]]) (simp_all add: s' nx load_components_def)
  moreover have "component_ok s' c" if "c \<in> set (om_components s)" for c
    by (rule component_ok_cong [OF I(5) [OF that]]) (simp_all add: s' nx)
  moreover have old: "binding_ok s' b" if "b \<in> set (om_bindings s)" for b
    by (rule binding_ok_cong [OF I(8) [OF that]]) (auto simp: s' nx)
  moreover have "distinct (map mb_id bs) \<and> distinct (map binding_key bs) \<and> (\<forall>b \<in> set bs. binding_ok s' b)"
    using bs
  proof
    assume bs: "bs = update_where hit (\<lambda>x. x\<lparr>mb_fsku_id := n, mb_reason := rsn, mb_updated_at := now\<rparr>) (om_bindings s)"
    have "map mb_id bs = map mb_id (om_bindings s)" "map binding_key bs = map binding_key (om_bindings s)"
      unfolding bs by (simp_all add: map_update_where binding_key_def)
    moreover have "binding_ok s' b" if "b \<in> set bs" for b
      using that old f unfolding bs by (auto simp: in_set_update_where binding_ok_def s')
    ultimately show ?thesis using I(6,7) by simp
  next
    assume "\<exists>b. bs = om_bindings s @ [b] \<and> mb_id b = om_next_id s CODE_BINDINGS \<and> om_next_id s CODE_BINDINGS < nx CODE_BINDINGS \<and>
        binding_key b \<notin> binding_key ` set (om_bindings s) \<and> mb_fsku_id b = n"
    then obtain b where b: "bs = om_bindings s @ [b]" "mb_id b = om_next_id s CODE_BINDINGS"
      "om_next_id s CODE_BINDINGS < nx CODE_BINDINGS" "binding_key b \<notin> binding_key ` set (om_bindings s)" "mb_fsku_id b = n" by blast
    have "mb_id b \<notin> mb_id ` set (om_bindings s)" using I(8) b(2) by (fastforce simp: binding_ok_def)
    moreover have "binding_ok s' b" using b f by (auto simp: binding_ok_def s')
    ultimately show ?thesis using I(6,7) b old by auto
  qed
  ultimately show ?thesis using I(1,2,4) unfolding oms_inv_def by (simp add: s')
qed

lemma bind_upsert_Inr:
  assumes "bind_upsert now p sc mc n reason s = Inr (b, s')"
  obtains (new) f where "find_fsku s n = Some f" "fk_status f = ''published''"
      "find (binding_at p (py_strip sc) (py_strip mc)) (om_bindings s) = None"
      "s' = s\<lparr>om_next_id := (om_next_id s)(CODE_BINDINGS := om_next_id s CODE_BINDINGS + 1), om_bindings := om_bindings s @ [b]\<rparr>"
      "mb_id b = om_next_id s CODE_BINDINGS" "binding_at p (py_strip sc) (py_strip mc) b" "mb_fsku_id b = n"
    | (old) f row rsn where "find_fsku s n = Some f" "fk_status f = ''published''"
      "find (binding_at p (py_strip sc) (py_strip mc)) (om_bindings s) = Some row"
      "s' = s\<lparr>om_bindings := update_where (\<lambda>x. mb_id x = mb_id row)
         (\<lambda>x. x\<lparr>mb_fsku_id := n, mb_reason := rsn, mb_updated_at := now\<rparr>) (om_bindings s)\<rparr>"
      "b = row\<lparr>mb_fsku_id := n, mb_reason := rsn, mb_updated_at := now\<rparr>"
proof -
  from assms obtain f where f: "find_fsku s n = Some f" "fk_status f = ''published''" "py_strip mc \<noteq> []" "py_strip sc \<noteq> []"
    by (auto simp: bind_upsert_def res_simps strip_or_none_Some)
  show thesis
  proof (cases "find (binding_at p (py_strip sc) (py_strip mc)) (om_bindings s)")
    case None
    with assms f show thesis
      by (intro new [OF f(1,2) None])
        (auto simp: bind_upsert_def strip_or_none_def Let_def oms_next_id_def binding_at_def)
  next
    case (Some row)
    with assms f show thesis
      by (intro old [OF f(1,2) Some, of "case reason of None \<Rightarrow> None | Some r \<Rightarrow> if r = [] then None else Some (py_strip r)"])
        (auto simp: bind_upsert_def strip_or_none_def Let_def)
  qed
qed

lemma bind_upsert_inv:
  assumes run: "bind_upsert now p sc mc n reason s = Inr (b, s')" and inv: "oms_inv s"
  shows "oms_inv s'"
  using run
proof (cases rule: bind_upsert_Inr)
  case (new f)
  note pub = find_fsku_SomeD [OF new(1)]
  have "binding_key b \<notin> binding_key ` set (om_bindings s)"
    using new(3,6) by (auto simp: find_None_iff_all binding_at_key)
  with new show ?thesis
    by (intro put_binding_inv [OF inv conjunct1 [OF pub] conjunct2 [OF pub] new(2,4)] disjI2 exI [of _ b]) auto
next
  case (old f row rsn)
  note pub = find_fsku_SomeD [OF old(1)]
  have s': "s' = s\<lparr>om_next_id := om_next_id s, om_bindings := update_where (\<lambda>x. mb_id x = mb_id row)
     (\<lambda>x. x\<lparr>mb_fsku_id := n, mb_reason := rsn, mb_updated_at := now\<rparr>) (om_bindings s)\<rparr>" by (simp add: old(4))
  show ?thesis
    by (rule put_binding_inv [OF inv conjunct1 [OF pub] conjunct2 [OF pub] old(2) s' order_refl disjI1 [OF refl]])
qed

lemma unbind_Inr:
  assumes "unbind p sc mc s = Inr (b, s')"
  shows "find (binding_at p (py_strip sc) (py_strip mc)) (om_bindings s) = Some b"
    "s' = s\<lparr>om_bindings := filter (\<lambda>x. mb_id x \<noteq> mb_id b) (om_bindings s)\<rparr>"
  using assms by (auto simp: unbind_def res_simps strip_or_none_Some)

lemma fewer_bindings_inv:
  assumes inv: "oms_inv s"
  shows "oms_inv (s\<lparr>om_bindings := filter P (om_bindings s)\<rparr>)"
proof -
  let ?t = "s\<lparr>om_bindings := filter P (om_bindings s)\<rparr>"
  note I = oms_invD [OF inv]
  have "fsku_ok ?t = fsku_ok s" "component_ok ?t = component_ok s" "binding_ok ?t = binding_ok s"
    by (simp_all add: fun_eq_iff fsku_ok_def component_ok_def binding_ok_def load_components_def)
  with I show ?thesis unfolding oms_inv_def by (simp add: distinct_map_filter)
qed

lemma manual_bind_Inr:
  assumes "manual_bind_merchant_code now platform store_id code n reason s = Inr (u, s')"
  obtains f sc rsn bs where "find_fsku s n = Some f" "fk_status f = ''published''"
    "s' = s\<lparr>om_next_id := (om_next_id s)(CODE_BINDINGS := om_next_id s CODE_BINDINGS + 1), om_bindings := bs\<rparr>"
    "bs = update_where (binding_at (norm_platform platform) sc (py_strip code))
         (\<lambda>x. x\<lparr>mb_fsku_id := n, mb_reason := rsn, mb_updated_at := now\<rparr>) (om_bindings s) \<or>
     (\<exists>b. bs = om_bindings s @ [b] \<and> mb_id b = om_next_id s CODE_BINDINGS \<and>
        binding_key b \<notin> binding_key ` set (om_bindings s) \<and> mb_fsku_id b = n)"
proof -
  let ?plat = "norm_platform platform" and ?code = "py_strip code"
  let ?rsn = "Some (case strip_or_none reason of None \<Rightarrow> ''manual bind'' | Some r \<Rightarrow> r)"
  from assms obtain f sc where sc: "load_store_code_by_store_id s ?plat store_id = Some sc"
    and f: "find_fsku s n = Some f" "fk_status f = ''published''"
    by (auto simp: manual_bind_merchant_code_def Let_def split: if_splits option.splits)
  with assms have s': "s' = s\<lparr>om_next_id := (om_next_id s)(CODE_BINDINGS := om_next_id s CODE_BINDINGS + 1), om_bindings :=
      (if list_ex (binding_at ?plat sc ?code) (om_bindings s)
       then update_where (binding_at ?plat sc ?code)
         (\<lambda>x. x\<lparr>mb_fsku_id := n, mb_reason := ?rsn, mb_updated_at := now\<rparr>) (om_bindings s)
       else om_bindings s @
         [\<lparr>mb_id = om_next_id s CODE_BINDINGS, mb_platform = ?plat, mb_store_code = sc, mb_merchant_code = ?code,
           mb_fsku_id = n, mb_reason = ?rsn, mb_created_at = now, mb_updated_at = now\<rparr>])\<rparr>"
    by (simp add: manual_bind_merchant_code_def oms_next_id_def Let_def split: if_splits)
  show thesis
    by (rule that [OF f s', where sc = sc and rsn = ?rsn])
      (auto simp: list_ex_iff binding_at_def binding_key_def)
qed

lemma manual_bind_inv:
  assumes run: "manual_bind_merchant_code now platform store_id code n reason s = Inr (u, s')" and inv: "oms_inv s"
  shows "oms_inv s'"
  using run
proof (rule manual_bind_Inr)
  fix f sc rsn bs assume f: "find_fsku s n = Some f" "fk_status f = ''published''"
    and s': "s' = s\<lparr>om_next_id := (om_next_id s)(CODE_BINDINGS := om_next_id s CODE_BINDINGS + 1), om_bindings := bs\<rparr>"
    and bs: "bs = update_where (binding_at (norm_platform platform) sc (py_strip code))
         (\<lambda>x. x\<lparr>mb_fsku_id := n, mb_reason := rsn, mb_updated_at := now\<rparr>) (om_bindings s) \<or>
     (\<exists>b. bs = om_bindings s @ [b] \<and> mb_id b = om_next_id s CODE_BINDINGS \<and>
        binding_key b \<notin> binding_key ` set (om_bindings s) \<and> mb_fsku_id b = n)"
  note pub = find_fsku_SomeD [OF f(1)]
  show "oms_inv s'"
    by (rule put_binding_inv [OF inv conjunct1 [OF pub] conjunct2 [OF pub] f(2) s']) (use bs in auto)
qed

section \<open>What a step may change\<close>

text \<open>
  No step removes an FSKU or changes its code and shape; one that is published stays as it is
  (name and time stamps apart) until it is retired, and a retired one never changes again.
\<close>

definition fsku_kept :: "oms \<Rightarrow> oms \<Rightarrow> fsku \<Rightarrow> fsku \<Rightarrow> bool" where
  "fsku_kept s s' f f' \<longleftrightarrow> fk_id f' = fk_id f \<and> fk_code f' = fk_code f \<and> fk_shape f' = fk_shape f \<and>
     (fk_status f \<noteq> ''draft'' \<longrightarrow> fk_status f' \<in> {''published'', ''retired''} \<and> fk_published_at f' = fk_published_at f \<and>
        load_components s' (fk_id f) = load_components s (fk_id f)) \<and>
     (fk_status f = ''retired'' \<longrightarrow> f' = f)"

definition fskus_frozen :: "oms \<Rightarrow> oms \<Rightarrow> bool" where
  "fskus_frozen s s' \<longleftrightarrow> (\<forall>f \<in> set (om_fskus s). fk_status f \<in> {''draft'', ''published'', ''retired''} \<longrightarrow>
     (\<exists>f' \<in> set (om_fskus s'). fk_status f' \<in> {''draft'', ''published'', ''retired''} \<and> fsku_kept s s' f f'))"

lemma fsku_kept_refl: "fk_status f \<in> {''draft'', ''published'', ''retired''} \<Longrightarrow> load_components s' (fk_id f) = load_components s (fk_id f) \<Longrightarrow>
   fsku_kept s s' f f"
  by (auto simp: fsku_kept_def)

lemma fsku_kept_trans: "fsku_kept s t f g \<Longrightarrow> fsku_kept t u g h \<Longrightarrow> fsku_kept s u f h"
  unfolding fsku_kept_def by fastforce

interpretation frozen: evolution fskus_frozen
proof
  show "fskus_frozen s s" for s
    using fsku_kept_refl unfolding fskus_frozen_def by blast
  show "fskus_frozen s u" if "fskus_frozen s t" "fskus_frozen t u" for s t u
    using that fsku_kept_trans unfolding fskus_frozen_def by meson
qed

lemma frozen_same:
  "om_fskus s' = om_fskus s @ fs \<Longrightarrow> om_components s' = om_components s \<Longrightarrow> fskus_frozen s s'"
  unfolding fskus_frozen_def using fsku_kept_refl [of _ s' s] by (fastforce simp: load_components_def)

lemma frozen_set_fsku:
  assumes inv: "oms_inv s" and f: "find_fsku s n = Some f"
    and same: "\<And>k. fk_status f = ''draft'' \<and> k = n \<or> load_components t k = load_components s k" and t: "om_fskus t = om_fskus s"
    and u: "fk_status (u f) \<in> {''draft'', ''published'', ''retired''}" "fk_id (u f) = fk_id f" "fk_code (u f) = fk_code f"
      "fk_shape (u f) = fk_shape f" "fk_status f \<noteq> ''retired''"
      "fk_status f = ''published'' \<Longrightarrow> fk_status (u f) \<noteq> ''draft'' \<and> fk_published_at (u f) = fk_published_at f"
  shows "fskus_frozen s (set_fsku n u t)"
  unfolding fskus_frozen_def
proof (intro ballI impI)
  fix g assume g: "g \<in> set (om_fskus s)" "fk_status g \<in> {''draft'', ''published'', ''retired''}"
  let ?g = "if fk_id g = n then u g else g"
  have in_t: "?g \<in> set (om_fskus (set_fsku n u t))" using g(1) by (auto simp: in_set_update_where t)
  show "\<exists>f' \<in> set (om_fskus (set_fsku n u t)). fk_status f' \<in> {''draft'', ''published'', ''retired''} \<and>
      fsku_kept s (set_fsku n u t) g f'"
  proof (cases "fk_id g = n")
    case True
    with fsku_by_id [OF inv f g(1)] have "g = f" by simp
    with True u g(2) same [of n] have "fsku_kept s (set_fsku n u t) g (u g)" by (auto simp: fsku_kept_def)
    with in_t True \<open>g = f\<close> u(1) show ?thesis by (intro bexI [of _ "u g"]) auto
  next
    case False
    with g(2) same [of "fk_id g"] have "fsku_kept s (set_fsku n u t) g g" by (intro fsku_kept_refl) auto
    with in_t False g(2) show ?thesis by (intro bexI [of _ g]) auto
  qed
qed

lemma update_name_frozen:
  assumes "update_name now n name s = Inr (u, s')" and inv: "oms_inv s"
  shows "fskus_frozen s s'"
  using assms(1)
proof (rule update_name_Inr)
  fix f assume f: "find_fsku s n = Some f" "fk_status f \<noteq> ''retired''"
    "s' = set_fsku n (\<lambda>x. x\<lparr>fk_name := py_strip name, fk_updated_at := now\<rparr>) s"
  from oms_invD(3) [OF inv] find_fsku_SomeD [OF f(1)] have "fsku_ok s f" by simp
  then show "fskus_frozen s s'" unfolding f(3)
    by (intro frozen_set_fsku [OF inv f(1)]) (use f(2) in \<open>auto simp: fsku_ok_def\<close>)
qed

lemma publish_frozen:
  assumes "publish now n s = Inr (u, s')" and inv: "oms_inv s"
  shows "fskus_frozen s s'"
  using assms(1)
proof (rule publish_Inr)
  fix f assume f: "find_fsku s n = Some f" "fk_status f = ''draft''"
    "s' = set_fsku n (\<lambda>x. x\<lparr>fk_status := ''published'', fk_published_at := Some now, fk_updated_at := now\<rparr>) s"
  then show "fskus_frozen s s'" by (auto intro!: frozen_set_fsku [OF inv f(1)])
qed

lemma retire_frozen:
  assumes "retire now n s = Inr (u, s')" and inv: "oms_inv s"
  shows "fskus_frozen s s'"
  using assms(1)
proof (rule retire_Inr)
  fix f assume f: "find_fsku s n = Some f" "fk_status f = ''published''"
    "s' = set_fsku n (\<lambda>x. x\<lparr>fk_status := ''retired'', fk_retired_at := Some now, fk_updated_at := now\<rparr>) s"
  then show "fskus_frozen s s'" by (auto intro!: frozen_set_fsku [OF inv f(1)])
qed

lemma replace_components_frozen:
  assumes "replace_components_draft now n cs s = Inr (u, s')" and inv: "oms_inv s"
  shows "fskus_frozen s s'"
  using assms(1)
proof (rule replace_components_Inr)
  fix f rest assume f: "find_fsku s n = Some f" "fk_status f = ''draft''"
    and rest: "rest = filter (\<lambda>c. fc_fsku_id c \<noteq> n) (om_components s)"
    and s': "s' = set_fsku n (\<lambda>x. x\<lparr>fk_updated_at := now\<rparr>)
       (s\<lparr>om_next_id := (om_next_id s)(FSKU_COMPONENTS := om_next_id s FSKU_COMPONENTS + int (length cs)),
          om_components := rest @ component_rows now n (om_next_id s FSKU_COMPONENTS) cs\<rparr>)" (is "_ = set_fsku n ?u ?t")
  have "load_components ?t k = load_components s k" if "k \<noteq> n" for k
  proof -
    have "filter (\<lambda>c. fc_fsku_id c = k) (component_rows now n (om_next_id s FSKU_COMPONENTS) cs) = []"
      using component_rows_in that by (fastforce simp: filter_empty_conv)
    moreover have "filter (\<lambda>c. fc_fsku_id c = k) rest = load_components s k"
      using that unfolding rest load_components_def filter_filter by (intro filter_cong) auto
    ultimately show ?thesis by (simp add: load_components_def)
  qed
  with f show "fskus_frozen s s'" unfolding s' by (intro frozen_set_fsku [OF inv f(1)]) auto
qed

lemma bind_upsert_frozen:
  assumes "bind_upsert now p sc mc n reason s = Inr (b, s')"
  shows "fskus_frozen s s'"
proof (rule frozen_same)
  show "om_fskus s' = om_fskus s @ []" using assms by (cases rule: bind_upsert_Inr) simp_all
  show "om_components s' = om_components s" using assms by (cases rule: bind_upsert_Inr) simp_all
qed

lemma manual_bind_frozen:
  assumes "manual_bind_merchant_code now p k code n reason s = Inr (u, s')"
  shows "fskus_frozen s s'"
proof (rule frozen_same)
  show "om_fskus s' = om_fskus s @ []" using assms by (rule manual_bind_Inr) simp
  show "om_components s' = om_components s" using assms by (rule manual_bind_Inr) simp
qed

section \<open>The life\<close>

text \<open>
  The routes, whatever they answer, and the master data, where items are only added and stores may
  change at will.
\<close>

inductive fsku_step :: "oms \<Rightarrow> oms \<Rightarrow> bool" where
  created: "create_fsku now name code shape s = Inr (f, s') \<Longrightarrow> fsku_step s s'"
| renamed: "patch_fsku now n name s = Inr (u, s') \<Longrightarrow> fsku_step s s'"
| composed: "replace_components now n cs s = Inr (u, s') \<Longrightarrow> fsku_step s s'"
| published: "publish_fsku now n s = Inr (u, s') \<Longrightarrow> fsku_step s s'"
| retired: "retire_fsku now n s = Inr (u, s') \<Longrightarrow> fsku_step s s'"
| bound: "bind_merchant_code now p s = (r, s') \<Longrightarrow> fsku_step s s'"
| unbound: "close_merchant_code_binding p sc mc s = (r, s') \<Longrightarrow> fsku_step s s'"
| bound_by_hand: "manual_bind_merchant_code now p k code n reason s = Inr (u, s') \<Longrightarrow> fsku_step s s'"
| master_data: "fsku_step s (s\<lparr>om_items := om_items s @ its, om_stores := sts\<rparr>)"

lemma bind_route_cases:
  assumes "bind_merchant_code now p s = (r, s')"
  shows "s' = s \<or> (\<exists>b. bind_upsert now (norm_platform (bi_platform p)) (py_strip (bi_store_code p)) (bi_merchant_code p)
    (bi_fsku_id p) (bi_reason p) s = Inr (b, s'))"
  using assms by (auto simp: bind_merchant_code_def Let_def split: if_splits sum.splits)

lemma close_route_cases:
  assumes "close_merchant_code_binding p sc mc s = (r, s')"
  shows "s' = s \<or> (\<exists>b. unbind (norm_platform p) (py_strip sc) mc s = Inr (b, s'))"
  using assms by (auto simp: close_merchant_code_binding_def Let_def split: if_splits sum.splits)

lemma master_data_inv: "oms_inv s \<Longrightarrow> oms_inv (s\<lparr>om_items := om_items s @ its, om_stores := sts\<rparr>)"
  by (auto simp: oms_inv_def fsku_ok_def component_ok_def binding_ok_def load_components_def)

lemma fsku_step_sound:
  assumes "fsku_step s s'" and inv: "oms_inv s"
  shows "oms_inv s' \<and> fskus_frozen s s'"
  using assms(1)
proof cases
  case (created now name code shape f)
  then have run: "create_draft now name code (Some shape) s = Inr (f, s')" by (auto simp: create_fsku_def split: if_splits)
  have "fskus_frozen s s'" by (rule frozen_same) (simp_all add: create_draft_Inr(7) [OF run])
  with create_draft_inv [OF run inv] show ?thesis by blast
next
  case (renamed now n name u)
  then have run: "update_name now n name s = Inr (u, s')" by (auto simp: patch_fsku_def split: if_splits)
  from update_name_inv [OF run inv] update_name_frozen [OF run inv] show ?thesis by blast
next
  case (composed now n cs u)
  then have run: "replace_components_draft now n cs s = Inr (u, s')" and valid: "list_all component_in_valid cs"
    by (auto simp: replace_components_def split: if_splits)
  from replace_components_inv [OF run inv valid] replace_components_frozen [OF run inv] show ?thesis by blast
next
  case (published now n u)
  then have run: "publish now n s = Inr (u, s')" by (simp add: publish_fsku_def)
  from publish_inv [OF run inv] publish_frozen [OF run inv] show ?thesis by blast
next
  case (retired now n u)
  then have run: "retire now n s = Inr (u, s')" by (simp add: retire_fsku_def)
  from retire_inv [OF run inv] retire_frozen [OF run inv] show ?thesis by blast
next
  case (bound now p r)
  from bind_route_cases [OF this] inv show ?thesis
    using bind_upsert_inv bind_upsert_frozen frozen.evo_refl by blast
next
  case (unbound p sc mc r)
  from close_route_cases [OF this] show ?thesis
  proof (elim disjE exE)
    fix b assume run: "unbind (norm_platform p) (py_strip sc) mc s = Inr (b, s')"
    have "fskus_frozen s s'" by (rule frozen_same [of _ _ "[]"]) (simp_all add: unbind_Inr(2) [OF run])
    with fewer_bindings_inv [OF inv] show ?thesis unfolding unbind_Inr(2) [OF run] by blast
  qed (use inv frozen.evo_refl in simp)
next
  case (bound_by_hand now p k code n reason u)
  from manual_bind_inv [OF this inv] manual_bind_frozen [OF this] show ?thesis by blast
next
  case (master_data its sts)
  have "fskus_frozen s s'" by (rule frozen_same [of _ _ "[]"]) (simp_all add: master_data)
  with master_data_inv [OF inv] show ?thesis unfolding master_data by blast
qed

lemma fsku_run_sound: "fsku_step\<^sup>*\<^sup>* s s' \<Longrightarrow> oms_inv s \<Longrightarrow> oms_inv s' \<and> fskus_frozen s s'"
  by (induction rule: rtranclp_induct) (use frozen.evo_refl in simp, meson fsku_step_sound frozen.evo_trans)

section \<open>Resolving\<close>

text \<open>The FSKU a line is resolved to, with the quantity of the line.\<close>

definition line_target :: "oms \<Rightarrow> string \<Rightarrow> string option \<Rightarrow> platform_line \<Rightarrow> (string \<times> int \<times> int) option" where
  "line_target s plat sc ln =
     (let code = (case ln_filled_code ln of None \<Rightarrow> [] | Some x \<Rightarrow> py_strip x) in
      if code = [] then None
      else (case resolve_target s plat sc code of Inl _ \<Rightarrow> None | Inr n \<Rightarrow> Some (code, to_int_pos (ln_qty ln) 1, n)))"

text \<open>What one piece of an FSKU takes of an item.\<close>

definition whole_qty :: "fsku_component \<Rightarrow> int" where
  "whole_qty c = fc_qty c div 10 ^ 6"

definition pieces :: "oms \<Rightarrow> int \<Rightarrow> int \<Rightarrow> int" where
  "pieces s n i = sum_where (\<lambda>c. fc_item_id c = i) whole_qty (load_components s n)"

lemma to_int_pos_pos: "0 < dflt \<Longrightarrow> 0 < to_int_pos v dflt"
  by (auto simp: to_int_pos_def Let_def split: pyval.splits option.splits)

lemma qty_of_update [simp]: "qty_of (AList.update k v m) i = (if i = k then v else qty_of m i)"
  by (simp add: qty_of_def update_conv')

lemma whole_component:
  assumes "0 < fc_qty c" and "fc_qty c mod 10 ^ 6 = 0"
  shows "dec_to_int_qty (fc_qty c) = Inr (whole_qty c)" "0 < whole_qty c"
proof -
  show "dec_to_int_qty (fc_qty c) = Inr (whole_qty c)" using assms by (simp add: dec_to_int_qty_def whole_qty_def)
  from assms(2) have "10 ^ 6 dvd fc_qty c" by (rule mod_0_imp_dvd)
  then have "10 ^ 6 \<le> fc_qty c" using assms(1) by (rule zdvd_imp_le)
  then show "0 < whole_qty c" unfolding whole_qty_def by (simp add: pos_imp_zdiv_pos_iff)
qed

lemma expand_sound:
  assumes "\<forall>c \<in> set cs. dec_to_int_qty (fc_qty c) = Inr (whole_qty c) \<and> 0 < whole_qty c" and "0 < qty"
  shows "\<exists>xs m'. expand_components qty cs m = (Inr xs, m') \<and> length xs = length cs \<and>
    (\<forall>i. qty_of m' i = qty_of m i + qty * sum_where (\<lambda>c. fc_item_id c = i) whole_qty cs)"
  using assms(1)
proof (induction cs arbitrary: m)
  case (Cons c cs)
  from Cons.prems have c: "dec_to_int_qty (fc_qty c) = Inr (whole_qty c)" and pos: "0 < qty * whole_qty c"
    using assms(2) by simp_all
  let ?m = "AList.update (fc_item_id c) (qty_of m (fc_item_id c) + qty * whole_qty c) m"
  from Cons.IH [of ?m] Cons.prems obtain xs m' where
    IH: "expand_components qty cs ?m = (Inr xs, m')" "length xs = length cs"
    "\<forall>i. qty_of m' i = qty_of ?m i + qty * sum_where (\<lambda>c. fc_item_id c = i) whole_qty cs" by auto
  from pos have "\<not> qty * whole_qty c \<le> 0" by simp
  with c IH(1,2) have "expand_components qty (c # cs) m =
      (Inr (\<lparr>ex_item_id = fc_item_id c, ex_component_qty = whole_qty c, ex_need_qty = qty * whole_qty c, ex_role = fc_role c\<rparr> # xs), m')"
    by (simp add: Let_def)
  moreover have "\<forall>i. qty_of m' i = qty_of m i + qty * sum_where (\<lambda>c. fc_item_id c = i) whole_qty (c # cs)"
    using IH(3) by (simp add: distrib_left)
  ultimately show ?case using IH(2) by auto
qed simp

text \<open>On sound tables a target can always be expanded.\<close>

lemma binding_lookup:
  assumes inv: "oms_inv s" and code: "py_strip code \<noteq> []"
  shows "resolve_fsku_id_by_binding s plat sc code =
    (case find (binding_at (norm_platform plat) (py_strip sc) (py_strip code)) (om_bindings s) of
       None \<Rightarrow> (None, Some ''CODE_NOT_BOUND'') | Some b \<Rightarrow> (Some (mb_fsku_id b), None))"
proof -
  let ?hit = "binding_at (norm_platform plat) (py_strip sc) (py_strip code)"
  let ?live = "\<lambda>b. case find_fsku s (mb_fsku_id b) of None \<Rightarrow> False | Some f \<Rightarrow> fk_status f = ''published''"
  note I = oms_invD [OF inv]
  have live: "?live b" if "b \<in> set (om_bindings s)" for b
  proof -
    from I(8) [OF that] obtain f where "f \<in> set (om_fskus s)" "fk_id f = mb_fsku_id b" "fk_status f = ''published''"
      by (auto simp: binding_ok_def)
    with find_fsku_in [OF I(1), of f] show ?thesis by simp
  qed
  have "find ?live (filter ?hit bs) = find ?hit bs" if "set bs \<subseteq> set (om_bindings s)" for bs
    using that by (induction bs) (use live in auto)
  then have "find ?live (filter ?hit (om_bindings s)) = find ?hit (om_bindings s)" by blast
  moreover have "find ?hit (om_bindings s) = None \<Longrightarrow> filter ?hit (om_bindings s) = []"
    by (simp add: find_None_iff_all filter_empty_conv)
  ultimately show ?thesis using code
    by (auto simp: resolve_fsku_id_by_binding_def Let_def split: option.splits)
qed

lemma target_published:
  assumes inv: "oms_inv s" and "py_strip code \<noteq> []" and "resolve_target s plat sc code = Inr n"
  shows "\<exists>f \<in> set (om_fskus s). fk_id f = n \<and> fk_status f = ''published''"
proof -
  have by_code: "\<exists>f \<in> set (om_fskus s). fk_id f = k \<and> fk_status f = ''published''" if "fsku_id_of_code s code = Some k" for k
    using that find_SomeD unfolding fsku_id_of_code_def by fastforce
  have by_binding: "\<exists>f \<in> set (om_fskus s). fk_id f = mb_fsku_id b \<and> fk_status f = ''published''" if "find P (om_bindings s) = Some b" for P b
    using oms_invD(8) [OF inv, of b] find_SomeD [OF that] by (auto simp: binding_ok_def)
  from assms(3) show ?thesis
    by (auto simp: resolve_target_def binding_lookup [OF inv assms(2)] Let_def
        split: option.splits if_splits dest!: by_code by_binding)
qed

lemma target_reason:
  assumes inv: "oms_inv s" and "py_strip code \<noteq> []" and "resolve_target s plat sc code = Inl r"
  shows "r = ''CODE_NOT_BOUND''"
  using assms(3) by (auto simp: resolve_target_def binding_lookup [OF inv assms(2)] Let_def split: option.splits if_splits)

lemma target_components:
  assumes inv: "oms_inv s" and "f \<in> set (om_fskus s)" "fk_id f = n" "fk_status f = ''published''"
  shows "load_fsku_components s n = sort_key fc_id (load_components s n)" "load_components s n \<noteq> []"
    "\<forall>c \<in> set (load_fsku_components s n). dec_to_int_qty (fc_qty c) = Inr (whole_qty c) \<and> 0 < whole_qty c"
proof -
  show L: "load_fsku_components s n = sort_key fc_id (load_components s n)"
    using find_fsku_in [OF oms_invD(1) [OF inv] assms(2)] assms(3,4) by (simp add: load_fsku_components_def)
  show "load_components s n \<noteq> []"
    using oms_invD(3) [OF inv assms(2)] assms(3,4) by (auto simp: fsku_ok_def)
  show "\<forall>c \<in> set (load_fsku_components s n). dec_to_int_qty (fc_qty c) = Inr (whole_qty c) \<and> 0 < whole_qty c"
  proof
    fix c assume "c \<in> set (load_fsku_components s n)"
    then have "c \<in> set (om_components s)" by (auto simp: L load_components_def)
    from oms_invD(5) [OF inv this] show "dec_to_int_qty (fc_qty c) = Inr (whole_qty c) \<and> 0 < whole_qty c"
      using whole_component [of c] by (simp add: component_ok_def)
  qed
qed

lemma sum_where_sort: "sum_where P v (sort_key k xs) = sum_where P v xs"
proof -
  have "sum_where P v (insort_key k x xs) = sum_where P v (x # xs)" for x xs by (induction xs) auto
  then show ?thesis by (induction xs) simp_all
qed

text \<open>One line, and the loop.\<close>

lemma resolve_one:
  assumes inv: "oms_inv s"
  shows "case line_target s plat sc ln of
      None \<Rightarrow> (\<exists>u. resolve_line_items s plat sc ln m = (Inl u, m) \<and> un_reason u \<in> {''MISSING_FILLED_CODE'', ''CODE_NOT_BOUND''})
    | Some (code, qty, n) \<Rightarrow> (\<exists>r m'. resolve_line_items s plat sc ln m = (Inr r, m') \<and>
        (rs_filled_code r, rs_qty r, rs_fsku_id r) = (code, qty, n) \<and> (\<forall>i. qty_of m' i = qty_of m i + qty * pieces s n i))"
proof -
  let ?code = "case ln_filled_code ln of None \<Rightarrow> [] | Some x \<Rightarrow> py_strip x"
  let ?qty = "to_int_pos (ln_qty ln) 1"
  have strip: "py_strip ?code = ?code" by (simp split: option.splits) (simp add: py_strip_def)
  show ?thesis
  proof (cases "?code = []")
    case True
    then show ?thesis by (simp add: line_target_def resolve_line_items_def Let_def)
  next
    case code: False
    show ?thesis
    proof (cases "resolve_target s plat sc ?code")
      case (Inl r)
      with target_reason [OF inv _ Inl] code strip show ?thesis
        by (simp add: line_target_def resolve_line_items_def Let_def)
    next
      case (Inr n)
      from target_published [OF inv _ Inr] code strip obtain f where
        f: "f \<in> set (om_fskus s)" "fk_id f = n" "fk_status f = ''published''" by auto
      note T = target_components [OF inv f]
      have "load_fsku_components s n \<noteq> []" using T(1,2) by (metis set_empty set_sort)
      moreover from expand_sound [OF T(3) to_int_pos_pos, of 1 "ln_qty ln" m] obtain xs m' where
        "expand_components ?qty (load_fsku_components s n) m = (Inr xs, m')"
        "\<forall>i. qty_of m' i = qty_of m i + ?qty * sum_where (\<lambda>c. fc_item_id c = i) whole_qty (load_fsku_components s n)" by auto
      ultimately show ?thesis using code Inr
        by (simp add: line_target_def resolve_line_items_def Let_def pieces_def T(1) sum_where_sort)
    qed
  qed
qed

lemma resolve_loop_sound:
  assumes inv: "oms_inv s"
  shows "resolve_loop s plat sc lns m = (rs, us, m') \<Longrightarrow>
    map (\<lambda>r. (rs_filled_code r, rs_qty r, rs_fsku_id r)) rs = List.map_filter (line_target s plat sc) lns \<and>
    length us = length (filter (\<lambda>ln. line_target s plat sc ln = None) lns) \<and>
    (\<forall>u \<in> set us. un_reason u \<in> {''MISSING_FILLED_CODE'', ''CODE_NOT_BOUND''}) \<and>
    (\<forall>i. qty_of m' i = qty_of m i + sum_list (map (\<lambda>r. rs_qty r * pieces s (rs_fsku_id r) i) rs))"
proof (induction lns arbitrary: m rs us m')
  case Nil
  then show ?case by (simp add: List.map_filter_def)
next
  case (Cons ln lns)
  obtain r m1 where one: "resolve_line_items s plat sc ln m = (r, m1)" by fastforce
  obtain rs1 us1 m2 where rest: "resolve_loop s plat sc lns m1 = (rs1, us1, m2)" by (metis prod_cases3)
  note IH = Cons.IH [OF rest]
  from resolve_one [OF inv, of plat sc ln m] show ?case
  proof (cases "line_target s plat sc ln")
    case None
    with resolve_one [OF inv, of plat sc ln m] one obtain u where
      u: "r = Inl u" "m1 = m" "un_reason u \<in> {''MISSING_FILLED_CODE'', ''CODE_NOT_BOUND''}" by auto
    with Cons.prems one rest have "rs = rs1" "us = u # us1" "m' = m2" by simp_all
    with IH u None show ?thesis by (simp add: List.map_filter_simps)
  next
    case (Some t)
    obtain code qty n where t: "t = (code, qty, n)" by (cases t) auto
    with resolve_one [OF inv, of plat sc ln m] one Some obtain x where
      x: "r = Inr x" "(rs_filled_code x, rs_qty x, rs_fsku_id x) = (code, qty, n)"
      "\<forall>i. qty_of m1 i = qty_of m i + qty * pieces s n i" by auto
    with Cons.prems one rest have "rs = x # rs1" "us = us1" "m' = m2" by simp_all
    with IH x Some t show ?thesis by (simp add: List.map_filter_simps)
  qed
qed

end
