(* ===== verification/FskuRuns.thy ===== *)
theory FskuRuns
  imports FskuLife
begin

text \<open>The properties of sales units, merchant codes and order lines, on runs of their routes.\<close>

section \<open>A sample shop\<close>

text \<open>Two items, one store, and a bundle of two of the first with one of the second as a gift.\<close>

definition sample_shop :: oms where
  "sample_shop = \<lparr>om_items = [sample_item 1 ''MILK'' SUPPLIER_ONLY EXPIRY_REQUIRED, sample_item 2 ''CUP'' INTERNAL_ONLY EXPIRY_NONE],
     om_stores = [\<lparr>st_id = 1, st_platform = ''PDD'', st_store_code = ''S1'', st_store_name = ''Dairy''\<rparr>],
     om_fskus = [], om_components = [], om_bindings = [], om_next_id = (\<lambda>_. 1)\<rparr>"

definition after :: "oms \<Rightarrow> (error + 'a \<times> oms) \<Rightarrow> oms" where
  "after s r = (case r of Inl _ \<Rightarrow> s | Inr (_, s') \<Rightarrow> s')"

definition drafted_shop :: oms where
  "drafted_shop = after sample_shop (create_fsku 1 ''Milk duo'' None ''bundle'' sample_shop)"

definition composed_shop :: oms where
  "composed_shop = after drafted_shop (replace_components 2 1
     [\<lparr>fi_item_id = 1, fi_qty = 2, fi_role = ''primary''\<rparr>, \<lparr>fi_item_id = 2, fi_qty = 1, fi_role = ''gift''\<rparr>] drafted_shop)"

definition open_shop :: oms where
  "open_shop = after composed_shop (publish_fsku 3 1 composed_shop)"

definition sample_bind :: bind_in where
  "sample_bind = \<lparr>bi_platform = '' pdd'', bi_store_code = ''S1'', bi_merchant_code = ''A-1 '', bi_fsku_id = 1, bi_reason = None\<rparr>"

definition bound_shop :: oms where
  "bound_shop = snd (bind_merchant_code 4 sample_bind open_shop)"

lemma after_Inr: "returns r (\<lambda>_. True) \<Longrightarrow> \<exists>u. r = Inr (u, after s r)"
  by (cases r) (auto simp: after_def returns_def)

lemma sample_shop_inv: "oms_inv sample_shop"
  by (simp add: oms_inv_def sample_shop_def)

lemma sample_shop_steps:
  "fsku_step sample_shop drafted_shop" "fsku_step drafted_shop composed_shop"
  "fsku_step composed_shop open_shop" "fsku_step open_shop bound_shop"
proof -
  have r: "returns (create_fsku 1 ''Milk duo'' None ''bundle'' sample_shop) (\<lambda>_. True)"
    "returns (replace_components 2 1
       [\<lparr>fi_item_id = 1, fi_qty = 2, fi_role = ''primary''\<rparr>, \<lparr>fi_item_id = 2, fi_qty = 1, fi_role = ''gift''\<rparr>] drafted_shop) (\<lambda>_. True)"
    "returns (publish_fsku 3 1 composed_shop) (\<lambda>_. True)" by code_simp+
  from after_Inr [OF r(1), of sample_shop] show "fsku_step sample_shop drafted_shop"
    unfolding drafted_shop_def by (elim exE) (rule fsku_step.created)
  from after_Inr [OF r(2), of drafted_shop] show "fsku_step drafted_shop composed_shop"
    unfolding composed_shop_def by (elim exE) (rule fsku_step.composed)
  from after_Inr [OF r(3), of composed_shop] show "fsku_step composed_shop open_shop"
    unfolding open_shop_def by (elim exE) (rule fsku_step.published)
  show "fsku_step open_shop bound_shop"
    unfolding bound_shop_def by (rule fsku_step.bound [OF surjective_pairing])
qed

lemma sample_shop_run: "fsku_step\<^sup>*\<^sup>* sample_shop open_shop" "fsku_step\<^sup>*\<^sup>* open_shop bound_shop" "fsku_step\<^sup>*\<^sup>* sample_shop bound_shop"
proof -
  show a: "fsku_step\<^sup>*\<^sup>* sample_shop open_shop"
    by (rule converse_rtranclp_into_rtranclp, rule sample_shop_steps(1), rule converse_rtranclp_into_rtranclp,
        rule sample_shop_steps(2), rule r_into_rtranclp, rule sample_shop_steps(3))
  show "fsku_step\<^sup>*\<^sup>* open_shop bound_shop" by (rule r_into_rtranclp) (rule sample_shop_steps(4))
  with a show "fsku_step\<^sup>*\<^sup>* sample_shop bound_shop" by (rule rtranclp_trans)
qed

lemma open_shop_inv: "oms_inv open_shop" "oms_inv bound_shop"
  using fsku_run_sound [OF sample_shop_run(1) sample_shop_inv] fsku_run_sound [OF sample_shop_run(3) sample_shop_inv] by simp_all

section \<open>What is bound can be sold\<close>

text \<open>
  C32. What is bound can be sold. Along any run of the routes of FSKUs and bindings, whatever they
  answer, each code of a store has at most one binding, and the FSKU it is bound to is published,
  has a primary component, and each of its components asks for a whole positive quantity (the
  column holds millionths) of an item that exists; codes of FSKUs stay unique.
\<close>

theorem bound_codes_executable:
  assumes "fsku_step\<^sup>*\<^sup>* s s'" and "oms_inv s"
  shows "distinct (map (\<lambda>b. (mb_platform b, mb_store_code b, mb_merchant_code b)) (om_bindings s')) \<and>
    distinct (map fk_code (om_fskus s')) \<and>
    (\<forall>b \<in> set (om_bindings s'). \<exists>f. find_fsku s' (mb_fsku_id b) = Some f \<and> fk_status f = ''published'' \<and>
      (\<exists>c \<in> set (load_fsku_components s' (mb_fsku_id b)). fc_role c = ''primary'') \<and>
      (\<forall>c \<in> set (load_fsku_components s' (mb_fsku_id b)).
         (\<exists>n > 0. fc_qty c = n * 10 ^ 6) \<and> fc_item_id c \<in> it_id ` set (om_items s')))"
proof -
  from fsku_run_sound [OF assms] have inv: "oms_inv s'" by blast
  note I = oms_invD [OF inv]
  have "\<exists>f. find_fsku s' (mb_fsku_id b) = Some f \<and> fk_status f = ''published'' \<and>
      (\<exists>c \<in> set (load_fsku_components s' (mb_fsku_id b)). fc_role c = ''primary'')" if "b \<in> set (om_bindings s')" for b
  proof -
    from I(8) [OF that] obtain f where f: "f \<in> set (om_fskus s')" "fk_id f = mb_fsku_id b" "fk_status f = ''published''"
      by (auto simp: binding_ok_def)
    with I(3) [OF f(1)] find_fsku_in [OF I(1) f(1)] show ?thesis
      by (auto simp: fsku_ok_def load_fsku_components_def)
  qed
  moreover have "(\<exists>n > 0. fc_qty c = n * 10 ^ 6) \<and> fc_item_id c \<in> it_id ` set (om_items s')"
    if "c \<in> set (load_fsku_components s' k)" for c k
  proof -
    from that have "component_ok s' c" using I(5) by (auto simp: load_fsku_components_def load_components_def)
    then have c: "0 < fc_qty c" "fc_qty c mod 10 ^ 6 = 0" "fc_item_id c \<in> it_id ` set (om_items s')"
      by (simp_all add: component_ok_def)
    obtain n where n: "fc_qty c = n * 10 ^ 6" using c(2) by (metis mod_0_imp_dvd dvdE mult.commute)
    with c(1) have "0 < n" by (simp add: zero_less_mult_iff)
    with n c(3) show ?thesis by blast
  qed
  moreover have "(\<lambda>b. (mb_platform b, mb_store_code b, mb_merchant_code b)) = binding_key"
    by (simp add: fun_eq_iff binding_key_def)
  ultimately show ?thesis using I(2,7) by simp
qed

lemma bound_codes_executable_witness:
  "map mb_merchant_code (om_bindings bound_shop) = [''A-1''] \<and> (\<exists>f. find_fsku bound_shop 1 = Some f \<and> fk_status f = ''published'')"
proof -
  have "map (\<lambda>b. (mb_merchant_code b, mb_fsku_id b)) (om_bindings bound_shop) = [(''A-1'', 1)]" by code_simp
  with bound_codes_executable [OF sample_shop_run(3) sample_shop_inv] show ?thesis by (auto simp: map_eq_Cons_conv)
qed

text \<open>
  C33. A published bundle is a fact. Along any run, an FSKU that has left the draft state is still
  there with the same code, shape, publication time and components, it is published or retired, and
  once retired it does not change at all.
\<close>

theorem published_fsku_frozen:
  assumes "fsku_step\<^sup>*\<^sup>* s s'" and inv: "oms_inv s" and f: "find_fsku s n = Some f" "fk_status f \<noteq> ''draft''"
  shows "\<exists>f'. find_fsku s' n = Some f' \<and> fk_code f' = fk_code f \<and> fk_shape f' = fk_shape f \<and>
    fk_published_at f' = fk_published_at f \<and> fk_status f' \<in> {''published'', ''retired''} \<and>
    load_components s' n = load_components s n \<and> (fk_status f \<noteq> ''retired'' \<or> f' = f)"
proof -
  from fsku_run_sound [OF assms(1,2)] have run: "oms_inv s'" "fskus_frozen s s'" by simp_all
  note g = find_fsku_SomeD [OF f(1)]
  have "fk_status f \<in> {''draft'', ''published'', ''retired''}" using oms_invD(3) [OF inv] g by (simp add: fsku_ok_def)
  with run(2) g obtain f' where f': "f' \<in> set (om_fskus s')" "fsku_kept s s' f f'"
    unfolding fskus_frozen_def by blast
  with g f(2) find_fsku_in [OF oms_invD(1) [OF run(1)] f'(1)] show ?thesis by (auto simp: fsku_kept_def)
qed

lemma published_fsku_frozen_witness:
  "\<exists>f'. find_fsku bound_shop 1 = Some f' \<and> fk_code f' = ''FSKU-1'' \<and> length (load_components bound_shop 1) = 2"
proof -
  have "map (\<lambda>f. (fk_id f, fk_code f, fk_status f)) (om_fskus open_shop) = [(1, ''FSKU-1'', ''published'')]"
    "length (load_components open_shop 1) = 2" by code_simp+
  then obtain f where f: "find_fsku open_shop 1 = Some f" "fk_code f = ''FSKU-1''" "fk_status f \<noteq> ''draft''"
    by (auto simp: find_fsku_def map_eq_Cons_conv)
  from published_fsku_frozen [OF sample_shop_run(2) open_shop_inv(1) f(1,3)] f(2) \<open>length _ = 2\<close> show ?thesis by auto
qed

section \<open>Resolving the lines of an order\<close>

text \<open>
  C34. What a platform order asks for. On the tables of any run, the resolution of the lines of an
  order splits them exactly: the resolved lines are, in order, those with a code that has a
  published target (the binding decides, the code of an FSKU only where nothing is bound), every
  other line is reported as missing or unbound and with no other reason, and each item gets exactly
  the quantities of the resolved lines times the pieces their FSKUs take of it.
\<close>

theorem resolution_exact:
  assumes run: "fsku_step\<^sup>*\<^sup>* s0 s" "oms_inv s0"
    and res: "resolve_platform_lines_to_items s platform store_id lns = (rs, us, m)"
  shows "map (\<lambda>r. (rs_filled_code r, rs_qty r, rs_fsku_id r)) rs = List.map_filter
      (line_target s (norm_platform platform) (load_store_code_by_store_id s (norm_platform platform) store_id)) lns \<and>
    length rs + length us = length lns \<and>
    (\<forall>u \<in> set us. un_reason u \<in> {''MISSING_FILLED_CODE'', ''CODE_NOT_BOUND''}) \<and>
    (\<forall>i. qty_of m i = sum_list (map (\<lambda>r. rs_qty r * pieces s (rs_fsku_id r) i) rs))"
proof -
  from fsku_run_sound [OF run] have inv: "oms_inv s" by blast
  let ?t = "line_target s (norm_platform platform) (load_store_code_by_store_id s (norm_platform platform) store_id)"
  from res have loop: "resolve_loop s (norm_platform platform)
      (load_store_code_by_store_id s (norm_platform platform) store_id) lns [] = (rs, us, m)"
    by (simp add: resolve_platform_lines_to_items_def Let_def)
  note L = resolve_loop_sound [OF inv loop]
  from L have rs: "map (\<lambda>r. (rs_filled_code r, rs_qty r, rs_fsku_id r)) rs = List.map_filter ?t lns" by blast
  have "length (List.map_filter ?t ls) + length (filter (\<lambda>ln. ?t ln = None) ls) = length ls" for ls
    by (induction ls) (auto simp: List.map_filter_simps split: option.splits)
  moreover have "length rs = length (List.map_filter ?t lns)" using arg_cong [OF rs, of length] by simp
  ultimately have "length rs + length us = length lns" using L by metis
  with L rs show ?thesis by (simp add: qty_of_def)
qed

definition sample_lines :: "platform_line list" where
  "sample_lines = [\<lparr>ln_filled_code = Some '' A-1'', ln_qty = PInt 3\<rparr>, \<lparr>ln_filled_code = Some ''B-9'', ln_qty = PInt 1\<rparr>,
     \<lparr>ln_filled_code = Some ''FSKU-1'', ln_qty = PNone\<rparr>]"

lemma resolution_exact_witness:
  "\<exists>rs us m. resolve_platform_lines_to_items bound_shop ''pdd'' 1 sample_lines = (rs, us, m) \<and>
     length rs = 2 \<and> qty_of m 1 = 8 \<and> qty_of m 2 = 4"
proof -
  obtain rs us m where res: "resolve_platform_lines_to_items bound_shop ''pdd'' 1 sample_lines = (rs, us, m)"
    by (metis prod_cases3)
  note R = resolution_exact [OF sample_shop_run(3) sample_shop_inv res]
  have "List.map_filter (line_target bound_shop (norm_platform ''pdd'')
      (load_store_code_by_store_id bound_shop (norm_platform ''pdd'') 1)) sample_lines = [(''A-1'', 3, 1), (''FSKU-1'', 1, 1)]"
    by code_simp
  with R have "map (\<lambda>r. (rs_filled_code r, rs_qty r, rs_fsku_id r)) rs = [(''A-1'', 3, 1), (''FSKU-1'', 1, 1)]" by simp
  moreover have "pieces bound_shop 1 1 = 2" "pieces bound_shop 1 2 = 1" by code_simp+
  ultimately show ?thesis using R res by (auto simp: map_eq_Cons_conv)
qed

lemma filter_update_where:
  "(\<And>x. x \<in> set xs \<Longrightarrow> q x \<Longrightarrow> \<not> p x \<and> \<not> p (f x)) \<Longrightarrow> filter p (update_where q f xs) = filter p xs"
  by (induction xs) auto

text \<open>What a bind leaves: the bound code at its FSKU, and every other binding as it was.\<close>

lemma bind_upsert_effect:
  assumes up: "bind_upsert now p sc mc n reason s = Inr (b, s')" and inv: "oms_inv s"
  shows "binding_at p (py_strip sc) (py_strip mc) b \<and> b \<in> set (om_bindings s') \<and> mb_fsku_id b = n"
    and "om_fskus s' = om_fskus s" and "\<exists>f. find_fsku s n = Some f \<and> fk_status f = ''published''"
    and "filter (\<lambda>x. \<not> binding_at p (py_strip sc) (py_strip mc) x) (om_bindings s') =
      filter (\<lambda>x. \<not> binding_at p (py_strip sc) (py_strip mc) x) (om_bindings s)"
proof -
  let ?at = "binding_at p (py_strip sc) (py_strip mc)"
  have "(?at b \<and> b \<in> set (om_bindings s') \<and> mb_fsku_id b = n) \<and> om_fskus s' = om_fskus s \<and>
    (\<exists>f. find_fsku s n = Some f \<and> fk_status f = ''published'') \<and>
    filter (\<lambda>x. \<not> ?at x) (om_bindings s') = filter (\<lambda>x. \<not> ?at x) (om_bindings s)"
    using up
  proof (cases rule: bind_upsert_Inr)
    case (new f)
    then show ?thesis by simp
  next
    case (old f row rsn)
    from find_SomeD [OF old(3)] have row: "row \<in> set (om_bindings s)" "?at row" by simp_all
    have "x = row" if "x \<in> set (om_bindings s)" "mb_id x = mb_id row" for x
      using that row(1) oms_invD(6) [OF inv] by (auto simp: distinct_map dest: inj_onD)
    with row(2) have "filter (\<lambda>x. \<not> ?at x) (om_bindings s') = filter (\<lambda>x. \<not> ?at x) (om_bindings s)"
      unfolding old(4) by (simp, intro filter_update_where) (auto simp: binding_at_def)
    with row show ?thesis using old by (auto simp: binding_at_def in_set_update_where)
  qed
  then show "?at b \<and> b \<in> set (om_bindings s') \<and> mb_fsku_id b = n" "om_fskus s' = om_fskus s"
    "\<exists>f. find_fsku s n = Some f \<and> fk_status f = ''published''"
    "filter (\<lambda>x. \<not> ?at x) (om_bindings s') = filter (\<lambda>x. \<not> ?at x) (om_bindings s)" by blast+
qed

text \<open>
  C35. Binding and closing. After a successful bind every line of that store with the code goes
  to the bound FSKU, which then cannot be retired; closing the binding succeeds and leaves exactly
  the bindings from before the bind without the one of this code. So a code that was free before is
  as before, and a code that was bound to another FSKU has lost that binding too.
\<close>

theorem bind_then_close:
  assumes inv: "oms_inv s" and run: "bind_merchant_code now p s = (Inr b, s')"
    and store: "load_store_code_by_store_id s' (bi_platform p) k = Some (py_strip (bi_store_code p))"
  shows "resolve_target s' (norm_platform (bi_platform p)) (load_store_code_by_store_id s' (bi_platform p) k)
      (py_strip (bi_merchant_code p)) = Inr (bi_fsku_id p) \<and>
    retire_fsku now2 (bi_fsku_id p) s' = Inl (HTTPException 409 ''the FSKU is bound to merchant codes'') \<and>
    (\<exists>b2 s2. close_merchant_code_binding (bi_platform p) (bi_store_code p) (bi_merchant_code p) s' = (Inr b2, s2) \<and>
      om_bindings s2 = filter (\<lambda>x. (mb_platform x, mb_store_code x, mb_merchant_code x) \<noteq>
        (norm_platform (bi_platform p), py_strip (bi_store_code p), py_strip (bi_merchant_code p))) (om_bindings s))"
proof -
  let ?p = "norm_platform (bi_platform p)" and ?sc = "py_strip (bi_store_code p)" and ?mc = "py_strip (bi_merchant_code p)"
  from run have valid: "bind_in_valid p" and known: "store_known s' ?p ?sc"
    and up: "bind_upsert now ?p ?sc (bi_merchant_code p) (bi_fsku_id p) (bi_reason p) s = Inr (b, s')"
    by (auto simp: bind_merchant_code_def Let_def split: if_splits sum.splits)
  from up have ne: "?mc \<noteq> []" "?sc \<noteq> []" by (auto simp: bind_upsert_def res_simps strip_or_none_Some)
  have inv': "oms_inv s'" by (rule bind_upsert_inv [OF up inv])
  note I = oms_invD [OF inv']
  note e = bind_upsert_effect [OF up inv]
  have here: "binding_at ?p ?sc ?mc b \<and> b \<in> set (om_bindings s') \<and> mb_fsku_id b = bi_fsku_id p"
    and rest: "filter (\<lambda>x. \<not> binding_at ?p ?sc ?mc x) (om_bindings s') = filter (\<lambda>x. \<not> binding_at ?p ?sc ?mc x) (om_bindings s)"
    using e(1,4) by simp_all
  have only: "x = b" if "x \<in> set (om_bindings s')" "binding_at ?p ?sc ?mc x" for x
    using that here I(7) by (auto simp: binding_at_key distinct_map inj_on_def)
  have found: "find (binding_at ?p ?sc ?mc) (om_bindings s') = Some b"
  proof (cases "find (binding_at ?p ?sc ?mc) (om_bindings s')")
    case None
    with here show ?thesis by (auto simp: find_None_iff_all)
  next
    case (Some x)
    with find_SomeD [OF Some] only show ?thesis by simp
  qed
  have "resolve_target s' ?p (load_store_code_by_store_id s' (bi_platform p) k) ?mc = Inr (bi_fsku_id p)"
    using ne here found binding_lookup [OF inv', of ?mc ?p ?sc] by (simp add: resolve_target_def store Let_def)
  moreover have "retire_fsku now2 (bi_fsku_id p) s' = Inl (HTTPException 409 ''the FSKU is bound to merchant codes'')"
    using e(2,3) here by (auto simp: retire_fsku_def retire_def find_fsku_def fsku_answer_def is_bound_by_merchant_codes_def list_ex_iff)
  moreover have "close_merchant_code_binding (bi_platform p) (bi_store_code p) (bi_merchant_code p) s' =
      (Inr b, s'\<lparr>om_bindings := filter (\<lambda>x. mb_id x \<noteq> mb_id b) (om_bindings s')\<rparr>)"
  proof -
    have "unbind ?p ?sc (bi_merchant_code p) s' = Inr (b, s'\<lparr>om_bindings := filter (\<lambda>x. mb_id x \<noteq> mb_id b) (om_bindings s')\<rparr>)"
      using ne found by (simp add: unbind_def strip_or_none_def Let_def)
    with valid known show ?thesis
      by (simp add: close_merchant_code_binding_def bind_in_valid_def fsku_answer_def store_known_def Let_def)
  qed
  moreover have "filter (\<lambda>x. mb_id x \<noteq> mb_id b) (om_bindings s') = filter (\<lambda>x. \<not> binding_at ?p ?sc ?mc x) (om_bindings s')"
    using only here I(6) by (intro filter_cong refl) (auto simp: distinct_map dest: inj_onD)
  moreover have "filter (\<lambda>x. \<not> binding_at ?p ?sc ?mc x) (om_bindings s) =
      filter (\<lambda>x. (mb_platform x, mb_store_code x, mb_merchant_code x) \<noteq> (?p, ?sc, ?mc)) (om_bindings s)"
    by (simp add: binding_at_def)
  ultimately show ?thesis using rest by simp
qed

lemma bind_then_close_witness:
  "\<exists>b2 s2. close_merchant_code_binding '' pdd'' ''S1'' ''A-1 '' bound_shop = (Inr b2, s2) \<and> om_bindings s2 = []"
proof -
  have "returns (fst (bind_merchant_code 4 sample_bind open_shop)) (\<lambda>_. True)" by code_simp
  then obtain b where "fst (bind_merchant_code 4 sample_bind open_shop) = Inr b" by (auto simp: returns_iff)
  then have run: "bind_merchant_code 4 sample_bind open_shop = (Inr b, bound_shop)" by (simp add: bound_shop_def prod_eq_iff)
  have "load_store_code_by_store_id bound_shop (bi_platform sample_bind) 1 = Some (py_strip (bi_store_code sample_bind))"
    by code_simp
  from bind_then_close [OF open_shop_inv(1) run this] have "\<exists>b2 s2. close_merchant_code_binding (bi_platform sample_bind)
      (bi_store_code sample_bind) (bi_merchant_code sample_bind) bound_shop = (Inr b2, s2) \<and> om_bindings s2 =
      filter (\<lambda>x. (mb_platform x, mb_store_code x, mb_merchant_code x) \<noteq> (norm_platform (bi_platform sample_bind),
        py_strip (bi_store_code sample_bind), py_strip (bi_merchant_code sample_bind))) (om_bindings open_shop)" by blast
  moreover have "om_bindings open_shop = []" by code_simp
  ultimately show ?thesis by (auto simp: sample_bind_def)
qed

section \<open>Where the routes fail\<close>

text \<open>
  C36. The placeholder code is a trap. A draft is first written with the code \<open>__PENDING__\<close>; the contract
  lets a user choose that code, and codes never change, so once one FSKU carries it every later
  creation fails, in every state the shop can reach.
\<close>

theorem pending_code_blocks:
  assumes run: "fsku_step\<^sup>*\<^sup>* s s'" and inv: "oms_inv s"
    and pending: "create_fsku now name (Some ''__PENDING__'') shape s0 = Inr (f, s)" "oms_inv s0"
  shows "\<exists>e. create_fsku now2 name2 code2 shape2 s' = Inl e"
proof -
  from pending(1) have draft: "create_draft now name (Some ''__PENDING__'') (Some shape) s0 = Inr (f, s)"
    by (auto simp: create_fsku_def split: if_splits)
  have "strip_or_none (Some ''__PENDING__'') = Some ''__PENDING__''" by code_simp
  with draft have f: "f \<in> set (om_fskus s)" "fk_code f = ''__PENDING__''"
    by (auto simp: create_draft_def oms_next_id_def Let_def split: sum.splits if_splits)
  from fsku_run_sound [OF run inv] have "fskus_frozen s s'" by blast
  with f oms_invD(3) [OF inv f(1)] obtain f' where "f' \<in> set (om_fskus s')" "fk_code f' = ''__PENDING__''"
    unfolding fskus_frozen_def fsku_ok_def fsku_kept_def by metis
  then have "''__PENDING__'' \<in> fk_code ` set (om_fskus s')" by (metis image_eqI)
  then show ?thesis
    by (auto simp: create_fsku_def create_draft_def fsku_answer_def split: sum.splits)
qed

definition trapped_shop :: oms where
  "trapped_shop = after bound_shop (create_fsku 5 ''Odd'' (Some ''__PENDING__'') ''single'' bound_shop)"

lemma pending_code_blocks_witness: "\<exists>e. create_fsku 6 ''Next'' None ''single'' trapped_shop = Inl e"
proof -
  have "returns (create_fsku 5 ''Odd'' (Some ''__PENDING__'') ''single'' bound_shop) (\<lambda>_. True)" by code_simp
  from after_Inr [OF this, of bound_shop] obtain f where
    f: "create_fsku 5 ''Odd'' (Some ''__PENDING__'') ''single'' bound_shop = Inr (f, trapped_shop)"
    unfolding trapped_shop_def by (elim exE)
  have "oms_inv trapped_shop" using fsku_step_sound [OF fsku_step.created [OF f] open_shop_inv(2)] by blast
  from pending_code_blocks [OF rtranclp.rtrancl_refl this f open_shop_inv(2)] show ?thesis .
qed

text \<open>Binding a code of a store that does not exist is answered with 409, and kept.\<close>

lemma refused_binding_kept:
  "fst (bind_merchant_code 4 (sample_bind\<lparr>bi_store_code := ''S2''\<rparr>) open_shop) = Inl (HTTPException 409 ''writing the binding failed'')"
  "map mb_store_code (om_bindings (snd (bind_merchant_code 4 (sample_bind\<lparr>bi_store_code := ''S2''\<rparr>) open_shop))) = [''S2'']"
  by code_simp+

text \<open>
  Components of older data may have fractions. The line is then reported as unresolved, but what
  the loop had already written stays in the quantities of the order.
\<close>

lemma unresolved_line_leaks:
  "(case resolve_platform_lines_to_items
      (bound_shop\<lparr>om_components := update_where (\<lambda>c. fc_id c = 2) (fc_qty_update (\<lambda>_. 500000)) (om_components bound_shop)\<rparr>)
      ''PDD'' 1 [\<lparr>ln_filled_code = Some ''A-1'', ln_qty = PInt 3\<rparr>] of
    (rs, us, m) \<Rightarrow> (length rs, map un_reason us, m)) = (0, [''COMPONENT_QTY_INVALID''], [(1, 6)])"
  by code_simp

text \<open>A name of blanks is refused by the rename and accepted by the creation.\<close>

lemma blank_name_created:
  "map fk_name (om_fskus (after sample_shop (create_fsku 1 '' '' None ''bundle'' sample_shop))) = [[]]"
  by code_simp

end
