(* ===== verification/BatchDates.thy ===== *)
theory BatchDates
  imports Lots
begin

text \<open>
  What the date arithmetic of batches guarantees: the dates it derives are dates of the calendar in
  the right order, and a derivation fails only outside the calendar of \<open>datetime.date\<close>.
\<close>

definition calendar_date :: "date option \<Rightarrow> bool" where
  "calendar_date v = (case v of None \<Rightarrow> True | Some d \<Rightarrow> valid_date d)"

definition dates_in_order :: "date option \<Rightarrow> date option \<Rightarrow> bool" where
  "dates_in_order p e = (case (p, e) of (Some a, Some b) \<Rightarrow> a \<le> b | _ \<Rightarrow> True)"

lemma resolve_expiry_later:
  "valid_date p \<Longrightarrow> resolve_expiry_date (Some p) None sl = Inr e \<Longrightarrow> calendar_date e \<and> dates_in_order (Some p) e"
  using compute_expiry_later
  by (fastforce simp: resolve_expiry_date_def calendar_date_def dates_in_order_def res_simps
      split: option.splits if_splits intro: less_imp_le)

lemma resolve_production_earlier:
  "valid_date e \<Longrightarrow> resolve_production_date None (Some e) sl = Inr p \<Longrightarrow> calendar_date p \<and> dates_in_order p (Some e)"
  using compute_production_earlier
  by (fastforce simp: resolve_production_date_def calendar_date_def dates_in_order_def res_simps
      split: option.splits if_splits intro: less_imp_le)

text \<open>
  C30. The dates of a batch are dates: when \<open>normalize_batch_dates_for_item\<close> returns on calendar dates
  (or none), both dates it returns are calendar dates or none, and the production date is not after
  the expiry date, derived or given.
\<close>

theorem batch_dates_sound:
  assumes run: "normalize_batch_dates_for_item its i p e = Inr (p', e', mode)"
    and dates: "calendar_date p" "calendar_date e"
  shows "calendar_date p' \<and> calendar_date e' \<and> dates_in_order p' e'"
proof (cases "p' = p \<and> e' = e \<and> dates_in_order p e \<or> p' = None \<and> e' = None")
  case True
  with dates show ?thesis by (auto simp: calendar_date_def dates_in_order_def)
next
  case False
  with run obtain sl where
    "(\<exists>x. p = Some x \<and> e = None \<and> p' = Some x \<and> resolve_expiry_date (Some x) None sl = Inr e') \<or>
     (\<exists>x. p = None \<and> e = Some x \<and> e' = Some x \<and> resolve_production_date None (Some x) sl = Inr p')"
    by (auto simp: normalize_batch_dates_for_item_def Let_def res_simps dates_in_order_def not_less
        split: option.splits if_splits)
  then show ?thesis
  proof (elim disjE exE conjE)
    fix x assume x: "p = Some x" "p' = Some x" "resolve_expiry_date (Some x) None sl = Inr e'"
    from dates(1) x(1) have "valid_date x" by (simp add: calendar_date_def)
    from resolve_expiry_later [OF this x(3)] dates(1) x(1,2) show ?thesis by simp
  next
    fix x assume x: "e = Some x" "e' = Some x" "resolve_production_date None (Some x) sl = Inr p'"
    from dates(2) x(1) have "valid_date x" by (simp add: calendar_date_def)
    from resolve_production_earlier [OF this x(3)] dates(2) x(1,2) show ?thesis by simp
  qed
qed

lemma batch_dates_sound_witness:
  "\<exists>e' mode. normalize_batch_dates_for_item [sample_item 1 ''MILK'' SUPPLIER_ONLY EXPIRY_REQUIRED] 1
       (Some (Date 2024 1 31)) None = Inr (Some (Date 2024 1 31), e', mode) \<and> calendar_date e' \<and> e' \<noteq> None"
proof -
  have "returns (normalize_batch_dates_for_item [sample_item 1 ''MILK'' SUPPLIER_ONLY EXPIRY_REQUIRED] 1
       (Some (Date 2024 1 31)) None) (\<lambda>(p', e', _). p' = Some (Date 2024 1 31) \<and> e' \<noteq> None)" by code_simp
  then obtain e' mode where r: "normalize_batch_dates_for_item [sample_item 1 ''MILK'' SUPPLIER_ONLY EXPIRY_REQUIRED] 1
       (Some (Date 2024 1 31)) None = Inr (Some (Date 2024 1 31), e', mode)" "e' \<noteq> None"
    by (auto simp: returns_iff)
  have "calendar_date (Some (Date 2024 1 31))" "calendar_date None" by code_simp+
  from batch_dates_sound [OF r(1) this] r show ?thesis by auto
qed

lemma month_of_count: "1 \<le> t mod 12 + 1" "t mod 12 + 1 \<le> 12" for t :: int
  by presburger+

lemma clamped_valid:
  assumes "valid_date d" and "1 \<le> y" "y \<le> 9999" "1 \<le> m" "m \<le> 12"
  shows "valid_date (Date y m (min (dy d) (days_in_month y m)))"
  using assms days_in_month_pos [of y m] by (auto simp: valid_date_def)

text \<open>
  C31. When an expiry date can be computed: for a calendar date, \<open>compute_expiry_from_shelf_life\<close> returns
  exactly if the shelf life is positive and the result lies before the year 10000; a shelf life in
  days then counts days, one in months counts calendar months and clamps the day to the month.
\<close>

theorem expiry_date_bounds:
  assumes d: "valid_date d"
  shows "((\<exists>e. compute_expiry_from_shelf_life d sl = Inr e) \<longleftrightarrow> 0 < sh_value sl \<and>
      (if sh_unit sl = UNIT_DAY then toordinal d + sh_value sl \<le> 3652059
       else yr d * 12 + (mon d - 1) + sh_value sl < 120000)) \<and>
    (compute_expiry_from_shelf_life d sl = Inr e \<longrightarrow> sh_unit sl = UNIT_DAY \<longrightarrow>
      toordinal e = toordinal d + sh_value sl) \<and>
    (compute_expiry_from_shelf_life d sl = Inr e \<longrightarrow> sh_unit sl \<noteq> UNIT_DAY \<longrightarrow>
      yr e * 12 + (mon e - 1) = yr d * 12 + (mon d - 1) + sh_value sl \<and> dy e = min (dy d) (days_in_month (yr e) (mon e)))"
proof -
  let ?t = "yr d * 12 + (mon d - 1) + sh_value sl"
  let ?y = "?t div 12" and ?m = "?t mod 12 + 1"
  have m: "1 \<le> ?m" "?m \<le> 12" by (rule month_of_count)+
  have days: "(\<exists>e. add_days d (sh_value sl) = Inr e) \<longleftrightarrow> toordinal d + sh_value sl \<le> 3652059" if "0 < sh_value sl"
    using that toordinal_range(1) [OF d] fromordinal_defined [of "toordinal d + sh_value sl"]
    by (auto simp: add_days_def max_ordinal_def fromordinal_def split: if_splits)
  have months: "add_months d (sh_value sl) = mk_date ?y ?m (min (dy d) (days_in_month ?y ?m))" if "0 < sh_value sl"
    using that by (simp add: add_months_def Let_def)
  have "(\<exists>e. mk_date ?y ?m (min (dy d) (days_in_month ?y ?m)) = Inr e) \<longleftrightarrow> ?t < 120000" if "0 < sh_value sl"
  proof
    assume "\<exists>e. mk_date ?y ?m (min (dy d) (days_in_month ?y ?m)) = Inr e"
    then have "?y \<le> 9999" by (auto simp: mk_date_Inr valid_date_def)
    then show "?t < 120000" by presburger
  next
    assume "?t < 120000"
    then have "?y \<le> 9999" by presburger
    moreover have "1 \<le> ?y"
    proof -
      have "12 \<le> ?t" using d that by (simp add: valid_date_def)
      then show ?thesis by presburger
    qed
    ultimately show "\<exists>e. mk_date ?y ?m (min (dy d) (days_in_month ?y ?m)) = Inr e"
      using clamped_valid [OF d _ _ m] by (simp add: mk_date_def)
  qed
  with days months have defined: "(\<exists>e. compute_expiry_from_shelf_life d sl = Inr e) \<longleftrightarrow> 0 < sh_value sl \<and>
      (if sh_unit sl = UNIT_DAY then toordinal d + sh_value sl \<le> 3652059
       else yr d * 12 + (mon d - 1) + sh_value sl < 120000)"
    by (auto simp: compute_expiry_from_shelf_life_def is_effective_def)
  have in_days: "toordinal e = toordinal d + sh_value sl"
    if "compute_expiry_from_shelf_life d sl = Inr e" "sh_unit sl = UNIT_DAY"
    using that add_daysD by (auto simp: compute_expiry_from_shelf_life_def split: if_splits)
  have in_months: "yr e * 12 + (mon e - 1) = ?t \<and> dy e = min (dy d) (days_in_month (yr e) (mon e))"
    if "compute_expiry_from_shelf_life d sl = Inr e" "sh_unit sl \<noteq> UNIT_DAY"
  proof -
    from that have pos: "0 < sh_value sl" and e: "add_months d (sh_value sl) = Inr e"
      by (auto simp: compute_expiry_from_shelf_life_def is_effective_def split: if_splits)
    from e months [OF pos] have "e = Date ?y ?m (min (dy d) (days_in_month ?y ?m))"
      by (simp add: mk_date_Inr)
    then have "dy e = min (dy d) (days_in_month (yr e) (mon e))" by (cases e) simp
    with add_months_month_count [OF d e] show ?thesis by simp
  qed
  show ?thesis by (intro conjI impI defined in_days in_months)
qed

lemma expiry_date_bounds_witness:
  "valid_date (Date 9999 11 30) \<and> (\<exists>e. compute_expiry_from_shelf_life (Date 9999 11 30) \<lparr>sh_value = 1, sh_unit = UNIT_MONTH\<rparr> = Inr e) \<and>
   \<not> (\<exists>e. compute_expiry_from_shelf_life (Date 9999 11 30) \<lparr>sh_value = 2, sh_unit = UNIT_MONTH\<rparr> = Inr e)"
proof -
  have d: "valid_date (Date 9999 11 30)" by code_simp
  have "(\<exists>e. compute_expiry_from_shelf_life (Date 9999 11 30) sl = Inr e) \<longleftrightarrow> 0 < sh_value sl \<and>
      (if sh_unit sl = UNIT_DAY then toordinal (Date 9999 11 30) + sh_value sl \<le> 3652059
       else yr (Date 9999 11 30) * 12 + (mon (Date 9999 11 30) - 1) + sh_value sl < 120000)" for sl
    by (rule conjunct1 [OF expiry_date_bounds [OF d]])
  with d show ?thesis by simp
qed

end
