(* ===== verification/Regions.thy ===== *)
theory Regions
  imports Prelude "HOL-Library.Sublist" "HOL-Library.Char_ord" "HOL-Library.List_Lexorder"
begin

text \<open>
  Where an order is served from: the service areas of warehouses
  (\<open>wms/warehouses/routers/warehouses_routes_service_*.py\<close>), the normalisation of province names
  (\<open>oms/services/order_ingest_normalize.py\<close>) and the routing of a new order
  (\<open>_resolve_route_payload\<close> of \<open>oms/services/order_ingest_service.py\<close>). Names are UTF-8 bytes.
\<close>

section \<open>Names of provinces\<close>

text \<open>
  The 34 names in the order of the source: Beijing, Tianjin, Shanghai, Chongqing; Hebei, Shanxi,
  Liaoning, Jilin, Heilongjiang, Jiangsu, Zhejiang, Anhui, Fujian, Jiangxi, Shandong, Henan, Hubei,
  Hunan, Guangdong, Hainan, Sichuan, Guizhou, Yunnan, Shaanxi, Gansu, Qinghai, Taiwan; Inner
  Mongolia, Guangxi, Tibet, Ningxia, Xinjiang; Hong Kong, Macao. The aliases follow the same order,
  with two for Inner Mongolia; the suffixes are the empty one, province, city, autonomous region
  and special administrative region.
\<close>

definition canonical_provinces :: "string list" where
  "canonical_provinces =
    [[CHR 0xE5, CHR 0x8C, CHR 0x97, CHR 0xE4, CHR 0xBA, CHR 0xAC, CHR 0xE5, CHR 0xB8, CHR 0x82],
     [CHR 0xE5, CHR 0xA4, CHR 0xA9, CHR 0xE6, CHR 0xB4, CHR 0xA5, CHR 0xE5, CHR 0xB8, CHR 0x82],
     [CHR 0xE4, CHR 0xB8, CHR 0x8A, CHR 0xE6, CHR 0xB5, CHR 0xB7, CHR 0xE5, CHR 0xB8, CHR 0x82],
     [CHR 0xE9, CHR 0x87, CHR 0x8D, CHR 0xE5, CHR 0xBA, CHR 0x86, CHR 0xE5, CHR 0xB8, CHR 0x82],
     [CHR 0xE6, CHR 0xB2, CHR 0xB3, CHR 0xE5, CHR 0x8C, CHR 0x97, CHR 0xE7, CHR 0x9C, CHR 0x81],
     [CHR 0xE5, CHR 0xB1, CHR 0xB1, CHR 0xE8, CHR 0xA5, CHR 0xBF, CHR 0xE7, CHR 0x9C, CHR 0x81],
     [CHR 0xE8, CHR 0xBE, CHR 0xBD, CHR 0xE5, CHR 0xAE, CHR 0x81, CHR 0xE7, CHR 0x9C, CHR 0x81],
     [CHR 0xE5, CHR 0x90, CHR 0x89, CHR 0xE6, CHR 0x9E, CHR 0x97, CHR 0xE7, CHR 0x9C, CHR 0x81],
     [CHR 0xE9, CHR 0xBB, CHR 0x91, CHR 0xE9, CHR 0xBE, CHR 0x99, CHR 0xE6, CHR 0xB1, CHR 0x9F, CHR 0xE7,
       CHR 0x9C, CHR 0x81],
     [CHR 0xE6, CHR 0xB1, CHR 0x9F, CHR 0xE8, CHR 0x8B, CHR 0x8F, CHR 0xE7, CHR 0x9C, CHR 0x81],
     [CHR 0xE6, CHR 0xB5, CHR 0x99, CHR 0xE6, CHR 0xB1, CHR 0x9F, CHR 0xE7, CHR 0x9C, CHR 0x81],
     [CHR 0xE5, CHR 0xAE, CHR 0x89, CHR 0xE5, CHR 0xBE, CHR 0xBD, CHR 0xE7, CHR 0x9C, CHR 0x81],
     [CHR 0xE7, CHR 0xA6, CHR 0x8F, CHR 0xE5, CHR 0xBB, CHR 0xBA, CHR 0xE7, CHR 0x9C, CHR 0x81],
     [CHR 0xE6, CHR 0xB1, CHR 0x9F, CHR 0xE8, CHR 0xA5, CHR 0xBF, CHR 0xE7, CHR 0x9C, CHR 0x81],
     [CHR 0xE5, CHR 0xB1, CHR 0xB1, CHR 0xE4, CHR 0xB8, CHR 0x9C, CHR 0xE7, CHR 0x9C, CHR 0x81],
     [CHR 0xE6, CHR 0xB2, CHR 0xB3, CHR 0xE5, CHR 0x8D, CHR 0x97, CHR 0xE7, CHR 0x9C, CHR 0x81],
     [CHR 0xE6, CHR 0xB9, CHR 0x96, CHR 0xE5, CHR 0x8C, CHR 0x97, CHR 0xE7, CHR 0x9C, CHR 0x81],
     [CHR 0xE6, CHR 0xB9, CHR 0x96, CHR 0xE5, CHR 0x8D, CHR 0x97, CHR 0xE7, CHR 0x9C, CHR 0x81],
     [CHR 0xE5, CHR 0xB9, CHR 0xBF, CHR 0xE4, CHR 0xB8, CHR 0x9C, CHR 0xE7, CHR 0x9C, CHR 0x81],
     [CHR 0xE6, CHR 0xB5, CHR 0xB7, CHR 0xE5, CHR 0x8D, CHR 0x97, CHR 0xE7, CHR 0x9C, CHR 0x81],
     [CHR 0xE5, CHR 0x9B, CHR 0x9B, CHR 0xE5, CHR 0xB7, CHR 0x9D, CHR 0xE7, CHR 0x9C, CHR 0x81],
     [CHR 0xE8, CHR 0xB4, CHR 0xB5, CHR 0xE5, CHR 0xB7, CHR 0x9E, CHR 0xE7, CHR 0x9C, CHR 0x81],
     [CHR 0xE4, CHR 0xBA, CHR 0x91, CHR 0xE5, CHR 0x8D, CHR 0x97, CHR 0xE7, CHR 0x9C, CHR 0x81],
     [CHR 0xE9, CHR 0x99, CHR 0x95, CHR 0xE8, CHR 0xA5, CHR 0xBF, CHR 0xE7, CHR 0x9C, CHR 0x81],
     [CHR 0xE7, CHR 0x94, CHR 0x98, CHR 0xE8, CHR 0x82, CHR 0x83, CHR 0xE7, CHR 0x9C, CHR 0x81],
     [CHR 0xE9, CHR 0x9D, CHR 0x92, CHR 0xE6, CHR 0xB5, CHR 0xB7, CHR 0xE7, CHR 0x9C, CHR 0x81],
     [CHR 0xE5, CHR 0x8F, CHR 0xB0, CHR 0xE6, CHR 0xB9, CHR 0xBE, CHR 0xE7, CHR 0x9C, CHR 0x81],
     [CHR 0xE5, CHR 0x86, CHR 0x85, CHR 0xE8, CHR 0x92, CHR 0x99, CHR 0xE5, CHR 0x8F, CHR 0xA4, CHR 0xE8,
       CHR 0x87, CHR 0xAA, CHR 0xE6, CHR 0xB2, CHR 0xBB, CHR 0xE5, CHR 0x8C, CHR 0xBA],
     [CHR 0xE5, CHR 0xB9, CHR 0xBF, CHR 0xE8, CHR 0xA5, CHR 0xBF, CHR 0xE5, CHR 0xA3, CHR 0xAE, CHR 0xE6,
       CHR 0x97, CHR 0x8F, CHR 0xE8, CHR 0x87, CHR 0xAA, CHR 0xE6, CHR 0xB2, CHR 0xBB, CHR 0xE5, CHR 0x8C,
       CHR 0xBA],
     [CHR 0xE8, CHR 0xA5, CHR 0xBF, CHR 0xE8, CHR 0x97, CHR 0x8F, CHR 0xE8, CHR 0x87, CHR 0xAA, CHR 0xE6,
       CHR 0xB2, CHR 0xBB, CHR 0xE5, CHR 0x8C, CHR 0xBA],
     [CHR 0xE5, CHR 0xAE, CHR 0x81, CHR 0xE5, CHR 0xA4, CHR 0x8F, CHR 0xE5, CHR 0x9B, CHR 0x9E, CHR 0xE6,
       CHR 0x97, CHR 0x8F, CHR 0xE8, CHR 0x87, CHR 0xAA, CHR 0xE6, CHR 0xB2, CHR 0xBB, CHR 0xE5, CHR 0x8C,
       CHR 0xBA],
     [CHR 0xE6, CHR 0x96, CHR 0xB0, CHR 0xE7, CHR 0x96, CHR 0x86, CHR 0xE7, CHR 0xBB, CHR 0xB4, CHR 0xE5,
       CHR 0x90, CHR 0xBE, CHR 0xE5, CHR 0xB0, CHR 0x94, CHR 0xE8, CHR 0x87, CHR 0xAA, CHR 0xE6, CHR 0xB2,
       CHR 0xBB, CHR 0xE5, CHR 0x8C, CHR 0xBA],
     [CHR 0xE9, CHR 0xA6, CHR 0x99, CHR 0xE6, CHR 0xB8, CHR 0xAF, CHR 0xE7, CHR 0x89, CHR 0xB9, CHR 0xE5,
       CHR 0x88, CHR 0xAB, CHR 0xE8, CHR 0xA1, CHR 0x8C, CHR 0xE6, CHR 0x94, CHR 0xBF, CHR 0xE5, CHR 0x8C,
       CHR 0xBA],
     [CHR 0xE6, CHR 0xBE, CHR 0xB3, CHR 0xE9, CHR 0x97, CHR 0xA8, CHR 0xE7, CHR 0x89, CHR 0xB9, CHR 0xE5,
       CHR 0x88, CHR 0xAB, CHR 0xE8, CHR 0xA1, CHR 0x8C, CHR 0xE6, CHR 0x94, CHR 0xBF, CHR 0xE5, CHR 0x8C,
       CHR 0xBA]]"

definition province_aliases :: "(string \<times> string) list" where
  "province_aliases = 
    [([CHR 0xE5, CHR 0x8C, CHR 0x97, CHR 0xE4, CHR 0xBA, CHR 0xAC], [CHR 0xE5, CHR 0x8C, CHR 0x97, CHR 0xE4,
      CHR 0xBA, CHR 0xAC, CHR 0xE5, CHR 0xB8, CHR 0x82]),
     ([CHR 0xE5, CHR 0xA4, CHR 0xA9, CHR 0xE6, CHR 0xB4, CHR 0xA5], [CHR 0xE5, CHR 0xA4, CHR 0xA9, CHR 0xE6,
       CHR 0xB4, CHR 0xA5, CHR 0xE5, CHR 0xB8, CHR 0x82]),
     ([CHR 0xE4, CHR 0xB8, CHR 0x8A, CHR 0xE6, CHR 0xB5, CHR 0xB7], [CHR 0xE4, CHR 0xB8, CHR 0x8A, CHR 0xE6,
       CHR 0xB5, CHR 0xB7, CHR 0xE5, CHR 0xB8, CHR 0x82]),
     ([CHR 0xE9, CHR 0x87, CHR 0x8D, CHR 0xE5, CHR 0xBA, CHR 0x86], [CHR 0xE9, CHR 0x87, CHR 0x8D, CHR 0xE5,
       CHR 0xBA, CHR 0x86, CHR 0xE5, CHR 0xB8, CHR 0x82]),
     ([CHR 0xE6, CHR 0xB2, CHR 0xB3, CHR 0xE5, CHR 0x8C, CHR 0x97], [CHR 0xE6, CHR 0xB2, CHR 0xB3, CHR 0xE5,
       CHR 0x8C, CHR 0x97, CHR 0xE7, CHR 0x9C, CHR 0x81]),
     ([CHR 0xE5, CHR 0xB1, CHR 0xB1, CHR 0xE8, CHR 0xA5, CHR 0xBF], [CHR 0xE5, CHR 0xB1, CHR 0xB1, CHR 0xE8,
       CHR 0xA5, CHR 0xBF, CHR 0xE7, CHR 0x9C, CHR 0x81]),
     ([CHR 0xE8, CHR 0xBE, CHR 0xBD, CHR 0xE5, CHR 0xAE, CHR 0x81], [CHR 0xE8, CHR 0xBE, CHR 0xBD, CHR 0xE5,
       CHR 0xAE, CHR 0x81, CHR 0xE7, CHR 0x9C, CHR 0x81]),
     ([CHR 0xE5, CHR 0x90, CHR 0x89, CHR 0xE6, CHR 0x9E, CHR 0x97], [CHR 0xE5, CHR 0x90, CHR 0x89, CHR 0xE6,
       CHR 0x9E, CHR 0x97, CHR 0xE7, CHR 0x9C, CHR 0x81]),
     ([CHR 0xE9, CHR 0xBB, CHR 0x91, CHR 0xE9, CHR 0xBE, CHR 0x99, CHR 0xE6, CHR 0xB1, CHR 0x9F], [CHR 0xE9,
       CHR 0xBB, CHR 0x91, CHR 0xE9, CHR 0xBE, CHR 0x99, CHR 0xE6, CHR 0xB1, CHR 0x9F, CHR 0xE7, CHR 0x9C,
       CHR 0x81]),
     ([CHR 0xE6, CHR 0xB1, CHR 0x9F, CHR 0xE8, CHR 0x8B, CHR 0x8F], [CHR 0xE6, CHR 0xB1, CHR 0x9F, CHR 0xE8,
       CHR 0x8B, CHR 0x8F, CHR 0xE7, CHR 0x9C, CHR 0x81]),
     ([CHR 0xE6, CHR 0xB5, CHR 0x99, CHR 0xE6, CHR 0xB1, CHR 0x9F], [CHR 0xE6, CHR 0xB5, CHR 0x99, CHR 0xE6,
       CHR 0xB1, CHR 0x9F, CHR 0xE7, CHR 0x9C, CHR 0x81]),
     ([CHR 0xE5, CHR 0xAE, CHR 0x89, CHR 0xE5, CHR 0xBE, CHR 0xBD], [CHR 0xE5, CHR 0xAE, CHR 0x89, CHR 0xE5,
       CHR 0xBE, CHR 0xBD, CHR 0xE7, CHR 0x9C, CHR 0x81]),
     ([CHR 0xE7, CHR 0xA6, CHR 0x8F, CHR 0xE5, CHR 0xBB, CHR 0xBA], [CHR 0xE7, CHR 0xA6, CHR 0x8F, CHR 0xE5,
       CHR 0xBB, CHR 0xBA, CHR 0xE7, CHR 0x9C, CHR 0x81]),
     ([CHR 0xE6, CHR 0xB1, CHR 0x9F, CHR 0xE8, CHR 0xA5, CHR 0xBF], [CHR 0xE6, CHR 0xB1, CHR 0x9F, CHR 0xE8,
       CHR 0xA5, CHR 0xBF, CHR 0xE7, CHR 0x9C, CHR 0x81]),
     ([CHR 0xE5, CHR 0xB1, CHR 0xB1, CHR 0xE4, CHR 0xB8, CHR 0x9C], [CHR 0xE5, CHR 0xB1, CHR 0xB1, CHR 0xE4,
       CHR 0xB8, CHR 0x9C, CHR 0xE7, CHR 0x9C, CHR 0x81]),
     ([CHR 0xE6, CHR 0xB2, CHR 0xB3, CHR 0xE5, CHR 0x8D, CHR 0x97], [CHR 0xE6, CHR 0xB2, CHR 0xB3, CHR 0xE5,
       CHR 0x8D, CHR 0x97, CHR 0xE7, CHR 0x9C, CHR 0x81]),
     ([CHR 0xE6, CHR 0xB9, CHR 0x96, CHR 0xE5, CHR 0x8C, CHR 0x97], [CHR 0xE6, CHR 0xB9, CHR 0x96, CHR 0xE5,
       CHR 0x8C, CHR 0x97, CHR 0xE7, CHR 0x9C, CHR 0x81]),
     ([CHR 0xE6, CHR 0xB9, CHR 0x96, CHR 0xE5, CHR 0x8D, CHR 0x97], [CHR 0xE6, CHR 0xB9, CHR 0x96, CHR 0xE5,
       CHR 0x8D, CHR 0x97, CHR 0xE7, CHR 0x9C, CHR 0x81]),
     ([CHR 0xE5, CHR 0xB9, CHR 0xBF, CHR 0xE4, CHR 0xB8, CHR 0x9C], [CHR 0xE5, CHR 0xB9, CHR 0xBF, CHR 0xE4,
       CHR 0xB8, CHR 0x9C, CHR 0xE7, CHR 0x9C, CHR 0x81]),
     ([CHR 0xE6, CHR 0xB5, CHR 0xB7, CHR 0xE5, CHR 0x8D, CHR 0x97], [CHR 0xE6, CHR 0xB5, CHR 0xB7, CHR 0xE5,
       CHR 0x8D, CHR 0x97, CHR 0xE7, CHR 0x9C, CHR 0x81]),
     ([CHR 0xE5, CHR 0x9B, CHR 0x9B, CHR 0xE5, CHR 0xB7, CHR 0x9D], [CHR 0xE5, CHR 0x9B, CHR 0x9B, CHR 0xE5,
       CHR 0xB7, CHR 0x9D, CHR 0xE7, CHR 0x9C, CHR 0x81]),
     ([CHR 0xE8, CHR 0xB4, CHR 0xB5, CHR 0xE5, CHR 0xB7, CHR 0x9E], [CHR 0xE8, CHR 0xB4, CHR 0xB5, CHR 0xE5,
       CHR 0xB7, CHR 0x9E, CHR 0xE7, CHR 0x9C, CHR 0x81]),
     ([CHR 0xE4, CHR 0xBA, CHR 0x91, CHR 0xE5, CHR 0x8D, CHR 0x97], [CHR 0xE4, CHR 0xBA, CHR 0x91, CHR 0xE5,
       CHR 0x8D, CHR 0x97, CHR 0xE7, CHR 0x9C, CHR 0x81]),
     ([CHR 0xE9, CHR 0x99, CHR 0x95, CHR 0xE8, CHR 0xA5, CHR 0xBF], [CHR 0xE9, CHR 0x99, CHR 0x95, CHR 0xE8,
       CHR 0xA5, CHR 0xBF, CHR 0xE7, CHR 0x9C, CHR 0x81]),
     ([CHR 0xE7, CHR 0x94, CHR 0x98, CHR 0xE8, CHR 0x82, CHR 0x83], [CHR 0xE7, CHR 0x94, CHR 0x98, CHR 0xE8,
       CHR 0x82, CHR 0x83, CHR 0xE7, CHR 0x9C, CHR 0x81]),
     ([CHR 0xE9, CHR 0x9D, CHR 0x92, CHR 0xE6, CHR 0xB5, CHR 0xB7], [CHR 0xE9, CHR 0x9D, CHR 0x92, CHR 0xE6,
       CHR 0xB5, CHR 0xB7, CHR 0xE7, CHR 0x9C, CHR 0x81]),
     ([CHR 0xE5, CHR 0x8F, CHR 0xB0, CHR 0xE6, CHR 0xB9, CHR 0xBE], [CHR 0xE5, CHR 0x8F, CHR 0xB0, CHR 0xE6,
       CHR 0xB9, CHR 0xBE, CHR 0xE7, CHR 0x9C, CHR 0x81]),
     ([CHR 0xE5, CHR 0x86, CHR 0x85, CHR 0xE8, CHR 0x92, CHR 0x99, CHR 0xE5, CHR 0x8F, CHR 0xA4], [CHR 0xE5,
       CHR 0x86, CHR 0x85, CHR 0xE8, CHR 0x92, CHR 0x99, CHR 0xE5, CHR 0x8F, CHR 0xA4, CHR 0xE8, CHR 0x87,
       CHR 0xAA, CHR 0xE6, CHR 0xB2, CHR 0xBB, CHR 0xE5, CHR 0x8C, CHR 0xBA]),
     ([CHR 0xE5, CHR 0x86, CHR 0x85, CHR 0xE8, CHR 0x92, CHR 0x99], [CHR 0xE5, CHR 0x86, CHR 0x85, CHR 0xE8,
       CHR 0x92, CHR 0x99, CHR 0xE5, CHR 0x8F, CHR 0xA4, CHR 0xE8, CHR 0x87, CHR 0xAA, CHR 0xE6, CHR 0xB2,
       CHR 0xBB, CHR 0xE5, CHR 0x8C, CHR 0xBA]),
     ([CHR 0xE5, CHR 0xB9, CHR 0xBF, CHR 0xE8, CHR 0xA5, CHR 0xBF], [CHR 0xE5, CHR 0xB9, CHR 0xBF, CHR 0xE8,
       CHR 0xA5, CHR 0xBF, CHR 0xE5, CHR 0xA3, CHR 0xAE, CHR 0xE6, CHR 0x97, CHR 0x8F, CHR 0xE8, CHR 0x87,
       CHR 0xAA, CHR 0xE6, CHR 0xB2, CHR 0xBB, CHR 0xE5, CHR 0x8C, CHR 0xBA]),
     ([CHR 0xE8, CHR 0xA5, CHR 0xBF, CHR 0xE8, CHR 0x97, CHR 0x8F], [CHR 0xE8, CHR 0xA5, CHR 0xBF, CHR 0xE8,
       CHR 0x97, CHR 0x8F, CHR 0xE8, CHR 0x87, CHR 0xAA, CHR 0xE6, CHR 0xB2, CHR 0xBB, CHR 0xE5, CHR 0x8C,
       CHR 0xBA]),
     ([CHR 0xE5, CHR 0xAE, CHR 0x81, CHR 0xE5, CHR 0xA4, CHR 0x8F], [CHR 0xE5, CHR 0xAE, CHR 0x81, CHR 0xE5,
       CHR 0xA4, CHR 0x8F, CHR 0xE5, CHR 0x9B, CHR 0x9E, CHR 0xE6, CHR 0x97, CHR 0x8F, CHR 0xE8, CHR 0x87,
       CHR 0xAA, CHR 0xE6, CHR 0xB2, CHR 0xBB, CHR 0xE5, CHR 0x8C, CHR 0xBA]),
     ([CHR 0xE6, CHR 0x96, CHR 0xB0, CHR 0xE7, CHR 0x96, CHR 0x86], [CHR 0xE6, CHR 0x96, CHR 0xB0, CHR 0xE7,
       CHR 0x96, CHR 0x86, CHR 0xE7, CHR 0xBB, CHR 0xB4, CHR 0xE5, CHR 0x90, CHR 0xBE, CHR 0xE5, CHR 0xB0,
       CHR 0x94, CHR 0xE8, CHR 0x87, CHR 0xAA, CHR 0xE6, CHR 0xB2, CHR 0xBB, CHR 0xE5, CHR 0x8C, CHR 0xBA]),
     ([CHR 0xE9, CHR 0xA6, CHR 0x99, CHR 0xE6, CHR 0xB8, CHR 0xAF], [CHR 0xE9, CHR 0xA6, CHR 0x99, CHR 0xE6,
       CHR 0xB8, CHR 0xAF, CHR 0xE7, CHR 0x89, CHR 0xB9, CHR 0xE5, CHR 0x88, CHR 0xAB, CHR 0xE8, CHR 0xA1,
       CHR 0x8C, CHR 0xE6, CHR 0x94, CHR 0xBF, CHR 0xE5, CHR 0x8C, CHR 0xBA]),
     ([CHR 0xE6, CHR 0xBE, CHR 0xB3, CHR 0xE9, CHR 0x97, CHR 0xA8], [CHR 0xE6, CHR 0xBE, CHR 0xB3, CHR 0xE9,
       CHR 0x97, CHR 0xA8, CHR 0xE7, CHR 0x89, CHR 0xB9, CHR 0xE5, CHR 0x88, CHR 0xAB, CHR 0xE8, CHR 0xA1,
       CHR 0x8C, CHR 0xE6, CHR 0x94, CHR 0xBF, CHR 0xE5, CHR 0x8C, CHR 0xBA])]"

definition province_suffixes :: "string list" where
  "province_suffixes = [[], [CHR 0xE7, CHR 0x9C, CHR 0x81], [CHR 0xE5, CHR 0xB8, CHR 0x82], [CHR 0xE8, CHR 0x87,
    CHR 0xAA, CHR 0xE6, CHR 0xB2, CHR 0xBB, CHR 0xE5, CHR 0x8C, CHR 0xBA], [CHR 0xE7, CHR 0x89, CHR 0xB9,
    CHR 0xE5, CHR 0x88, CHR 0xAB, CHR 0xE8, CHR 0xA1, CHR 0x8C, CHR 0xE6, CHR 0x94, CHR 0xBF, CHR 0xE5,
    CHR 0x8C, CHR 0xBA]]"

text \<open>\<open>replace\<close> of the ideographic space U+3000 by a blank.\<close>

fun narrow_spaces :: "string \<Rightarrow> string" where
  "narrow_spaces (a # b # c # xs) =
     (if a = CHR 0xE3 \<and> b = CHR 0x80 \<and> c = CHR 0x80 then CHR '' '' # narrow_spaces xs
      else a # narrow_spaces (b # c # xs))"
| "narrow_spaces xs = xs"

definition normalize_province_name :: "string option \<Rightarrow> string option" where
  "normalize_province_name raw = (case raw of None \<Rightarrow> None | Some x \<Rightarrow>
     let s = py_strip (narrow_spaces x) in
     if s = [] then None
     else if s \<in> set canonical_provinces then Some s
     else (case map_of province_aliases s of Some c \<Rightarrow> Some c
       | None \<Rightarrow> (case find (\<lambda>c. c \<in> set canonical_provinces) (map (\<lambda>suf. s @ suf) province_suffixes) of
           Some c \<Rightarrow> Some c
         | None \<Rightarrow> Some s)))"

section \<open>Service areas\<close>

record service_province =
  sp_warehouse_id :: int
  sp_province_code :: string

record service_city =
  sc_warehouse_id :: int
  sc_province_code :: "string option"
  sc_city_code :: string

record regions =
  rg_warehouses :: "int list"
  rg_provinces :: "service_province list"
  rg_cities :: "service_city list"
  rg_split :: "string list"

definition normalize_codes :: "string list \<Rightarrow> string list" where
  "normalize_codes raw = sort (remdups (filter (\<lambda>x. x \<noteq> []) (map py_strip raw)))"

definition ensure_warehouse_exists :: "int \<Rightarrow> regions \<Rightarrow> unit result" where
  "ensure_warehouse_exists wid r =
     (if wid \<in> set (rg_warehouses r) then Inr () else Inl (HTTPException 404 ''warehouse not found''))"

definition put_service_provinces :: "int \<Rightarrow> string list \<Rightarrow> regions \<Rightarrow> (string list \<times> regions) result" where
  "put_service_provinces wid raw r =
     bindE (ensure_warehouse_exists wid r) (\<lambda>_.
     let provinces = normalize_codes raw in
     if list_ex (\<lambda>x. sp_province_code x \<in> set provinces \<and> sp_warehouse_id x \<noteq> wid) (rg_provinces r)
     then Inl (HTTPException 409 ''a province belongs to another warehouse'')
     else Inr (provinces, r\<lparr>rg_provinces := filter (\<lambda>x. sp_warehouse_id x \<noteq> wid) (rg_provinces r) @
       map (\<lambda>p. \<lparr>sp_warehouse_id = wid, sp_province_code = p\<rparr>) provinces\<rparr>))"

text \<open>The insert names no province, so that column is \<open>NULL\<close>.\<close>

definition put_service_cities :: "int \<Rightarrow> string list \<Rightarrow> regions \<Rightarrow> (string list \<times> regions) result" where
  "put_service_cities wid raw r =
     bindE (ensure_warehouse_exists wid r) (\<lambda>_.
     let cities = normalize_codes raw in
     if list_ex (\<lambda>x. sc_city_code x \<in> set cities \<and> sc_warehouse_id x \<noteq> wid) (rg_cities r)
     then Inl (HTTPException 409 ''a city belongs to another warehouse'')
     else Inr (cities, r\<lparr>rg_cities := filter (\<lambda>x. sc_warehouse_id x \<noteq> wid) (rg_cities r) @
       map (\<lambda>c. \<lparr>sc_warehouse_id = wid, sc_province_code = None, sc_city_code = c\<rparr>) cities\<rparr>))"

definition put_city_split_provinces :: "string list \<Rightarrow> regions \<Rightarrow> string list \<times> regions" where
  "put_city_split_provinces raw r =
     (let provinces = normalize_codes raw in
      (provinces, r\<lparr>rg_split := provinces,
        rg_provinces := filter (\<lambda>x. sp_province_code x \<notin> set provinces) (rg_provinces r)\<rparr>))"

section \<open>Routing a new order\<close>

text \<open>
  The address of an order is a dict, \<open>None\<close> when there is none. The two environment variables
  \<open>WMS_TEST_DEFAULT_PROVINCE\<close> and \<open>WMS_TEST_DEFAULT_CITY\<close> are the argument \<open>env\<close>.
\<close>

type_synonym address = "(string \<times> string) list"

record route_payload =
  rp_status :: "string option"
  rp_mode :: "string option"
  rp_reason :: "string option"
  rp_service_warehouse_id :: "int option"

definition address_field :: "address option \<Rightarrow> string \<Rightarrow> string option" where
  "address_field addr k = (case addr of None \<Rightarrow> None | Some m \<Rightarrow> map_of m k)"

definition resolve_route_address ::
  "string option \<times> string option \<Rightarrow> address option \<Rightarrow> string option \<times> string option" where
  "resolve_route_address env addr =
     (let raw_province = strip_or_none (address_field addr ''province'');
          raw_city = strip_or_none (address_field addr ''city'');
          fallback_province = strip_or_none (fst env);
          fallback_city = strip_or_none (snd env) in
      (normalize_province_name (case raw_province of None \<Rightarrow> fallback_province | Some p \<Rightarrow> Some p),
       case raw_city of None \<Rightarrow> fallback_city | Some c \<Rightarrow> Some c))"

definition is_city_split_province :: "regions \<Rightarrow> string \<Rightarrow> bool" where
  "is_city_split_province r p \<longleftrightarrow> p \<in> set (rg_split r)"

definition positive_id :: "int \<Rightarrow> int option" where
  "positive_id n = (if 0 < n then Some n else None)"

definition load_service_warehouse_by_province :: "regions \<Rightarrow> string \<Rightarrow> int option" where
  "load_service_warehouse_by_province r p =
     (case find (\<lambda>x. sp_province_code x = p) (rg_provinces r) of
        None \<Rightarrow> None | Some x \<Rightarrow> positive_id (sp_warehouse_id x))"

definition load_service_warehouse_by_city :: "regions \<Rightarrow> string \<Rightarrow> string \<Rightarrow> int option" where
  "load_service_warehouse_by_city r p c =
     (case find (\<lambda>x. sc_province_code x = Some p \<and> sc_city_code x = c) (rg_cities r) of
        None \<Rightarrow> None | Some x \<Rightarrow> positive_id (sc_warehouse_id x))"

definition blocked_route :: "string \<Rightarrow> string \<Rightarrow> route_payload" where
  "blocked_route mode reason = \<lparr>rp_status = Some ''FULFILLMENT_BLOCKED'', rp_mode = Some mode,
     rp_reason = Some reason, rp_service_warehouse_id = None\<rparr>"

definition assigned_route :: "string \<Rightarrow> int \<Rightarrow> route_payload" where
  "assigned_route mode w = \<lparr>rp_status = Some ''SERVICE_ASSIGNED'', rp_mode = Some mode,
     rp_reason = Some ''OK'', rp_service_warehouse_id = Some w\<rparr>"

definition resolve_route_payload ::
  "string option \<times> string option \<Rightarrow> regions \<Rightarrow> address option \<Rightarrow> route_payload" where
  "resolve_route_payload env r addr =
     (case resolve_route_address env addr of (province, city) \<Rightarrow>
      (case province of None \<Rightarrow> blocked_route ''province'' ''PROVINCE_MISSING_OR_INVALID'' | Some p \<Rightarrow>
       if is_city_split_province r p
       then (case city of None \<Rightarrow> blocked_route ''city'' ''NO_SERVICE_WAREHOUSE'' | Some c \<Rightarrow>
         (case load_service_warehouse_by_city r p c of
            None \<Rightarrow> blocked_route ''city'' ''NO_SERVICE_WAREHOUSE''
          | Some w \<Rightarrow> assigned_route ''city'' w))
       else (case load_service_warehouse_by_province r p of
            None \<Rightarrow> blocked_route ''province'' ''NO_SERVICE_PROVINCE''
          | Some w \<Rightarrow> assigned_route ''province'' w)))"

end
