(* ===== verification/Orders.thy ===== *)
theory Orders
  imports Fsku Regions Outbound
begin

text \<open>
  Platform orders become orders of the house, \<open>app/oms/services/\<close>: the facts a platform reports
  (\<open>platform_order_fact_service.py\<close>), the ingest of an order with its items, its lines and its route
  (\<open>order_ingest_*.py\<close>), and the three ways in: \<open>/platform-orders/ingest\<close>, its replay from the stored
  facts, and the conversion of a mirrored order (\<open>order_facts/services/fulfillment_conversion_service.py\<close>).
  The state adds the tables of the order side to those of the warehouse: \<open>orders\<close> and \<open>order_lines\<close>
  are the tables shipments read. Amounts (always zero on these ways), audit events, risk flags,
  hints and next actions are not modelled; of an address only what routing reads is.
\<close>

section \<open>Tables\<close>

record order_item =
  oi_id :: int
  oi_order_id :: int
  oi_item_id :: int
  oi_sku_id :: "string option"
  oi_title :: "string option"
  oi_qty :: int
  oi_shipped_qty :: int
  oi_returned_qty :: int

record order_fulfillment =
  of_order_id :: int
  of_planned_warehouse_id :: "int option"
  of_actual_warehouse_id :: "int option"
  of_fulfillment_status :: "string option"
  of_blocked_reasons :: "string list option"
  of_execution_stage :: "string option"
  of_ship_committed_at :: "int option"
  of_shipped_at :: "int option"
  of_updated_at :: int

record platform_order_line =
  fa_id :: int
  fa_platform :: string
  fa_store_code :: string
  fa_store_id :: "int option"
  fa_ext_order_no :: string
  fa_line_no :: int
  fa_line_key :: string
  fa_locator_kind :: string
  fa_locator_value :: string
  fa_filled_code :: "string option"
  fa_qty :: int
  fa_title :: "string option"
  fa_spec :: "string option"

text \<open>The mirrors of the platforms have a pair of tables each; \<open>mi_table\<close> names the pair.\<close>

record order_mirror =
  mi_table :: string
  mi_id :: int
  mi_collector_store_code :: string
  mi_wms_store_id :: "int option"
  mi_platform_order_no :: string
  mi_receiver :: address

record order_mirror_line =
  mn_table :: string
  mn_id :: int
  mn_mirror_id :: int
  mn_merchant_sku :: "string option"
  mn_quantity :: int

datatype sales_table = STORES | ORDER_ITEMS | PLATFORM_ORDER_LINES

record sales =
  so_core :: db
  so_oms :: oms
  so_regions :: regions
  so_order_items :: "order_item list"
  so_fulfillments :: "order_fulfillment list"
  so_facts :: "platform_order_line list"
  so_mirrors :: "order_mirror list"
  so_mirror_lines :: "order_mirror_line list"
  so_next_id :: "sales_table \<Rightarrow> int"

type_synonym 'a sx = "sales \<Rightarrow> ('a \<times> sales) result"

definition sales_next_id :: "sales_table \<Rightarrow> sales \<Rightarrow> int \<times> sales" where
  "sales_next_id t s = (so_next_id s t, s\<lparr>so_next_id := (so_next_id s)(t := so_next_id s t + 1)\<rparr>)"

definition core_next_id :: "table_name \<Rightarrow> sales \<Rightarrow> int \<times> sales" where
  "core_next_id t s = (case next_id t (so_core s) of (n, d) \<Rightarrow> (n, s\<lparr>so_core := d\<rparr>))"

section \<open>Stores\<close>

definition find_store :: "sales \<Rightarrow> string \<Rightarrow> string \<Rightarrow> store option" where
  "find_store s plat code = find (\<lambda>x. st_platform x = plat \<and> st_store_code x = code) (om_stores (so_oms s))"

definition ensure_store :: "string \<Rightarrow> string \<Rightarrow> string option \<Rightarrow> sales \<Rightarrow> int \<times> sales" where
  "ensure_store platform code name s =
     (let plat = py_upper platform in
      case find_store s plat code of Some x \<Rightarrow> (st_id x, s)
      | None \<Rightarrow>
          let (nid, s1) = sales_next_id STORES s;
              nm = (case name of None \<Rightarrow> plat @ ''-'' @ code | Some n \<Rightarrow> if n = [] then plat @ ''-'' @ code else n) in
          (nid, s1\<lparr>so_oms := (so_oms s1)\<lparr>om_stores := om_stores (so_oms s1) @
            [\<lparr>st_id = nid, st_platform = plat, st_store_code = code, st_store_name = nm\<rparr>]\<rparr>\<rparr>))"

definition resolve_store_id :: "string \<Rightarrow> string \<Rightarrow> string option \<Rightarrow> int sx" where
  "resolve_store_id platform store_code name s =
     (let plat = norm_platform platform; sid = py_strip store_code in
      case find_store s plat sid of Some x \<Rightarrow> Inr (st_id x, s)
      | None \<Rightarrow>
          let nm = (case name of None \<Rightarrow> plat @ ''-'' @ sid | Some n \<Rightarrow> if n = [] then plat @ ''-'' @ sid else n);
              (_, s1) = ensure_store plat sid (Some nm) s in
          (case find_store s1 plat sid of Some x \<Rightarrow> Inr (st_id x, s1)
           | None \<Rightarrow> Inl (RuntimeError ''ensure_store failed'')))"

section \<open>order\_ingest\_orders\_writer.py\<close>

definition find_order :: "db \<Rightarrow> string \<Rightarrow> string \<Rightarrow> string \<Rightarrow> order_head option" where
  "find_order d p sc ext =
     find (\<lambda>h. or_platform h = p \<and> or_store_code h = sc \<and> or_ext_order_no h = ext) (t_orders d)"

text \<open>The flag is true for \<open>IDEMPOTENT\<close>. The conflict consumes an id, and may fill in a trace id.\<close>

definition insert_order_or_get_idempotent ::
  "string \<Rightarrow> string \<Rightarrow> int \<Rightarrow> string \<Rightarrow> int \<Rightarrow> string option \<Rightarrow> string option \<Rightarrow> string option \<Rightarrow> (bool \<times> int) sx" where
  "insert_order_or_get_idempotent p sc store_id ext at bn bp trace s =
     (let (nid, s1) = core_next_id ORDERS s; d = so_core s1 in
      case find_order d p sc ext of
        Some h \<Rightarrow>
          let fill = (case trace of None \<Rightarrow> False | Some t \<Rightarrow> t \<noteq> []) in
          Inr ((True, or_id h),
            if fill
            then s1\<lparr>so_core := d\<lparr>t_orders := update_where (\<lambda>x. or_id x = or_id h)
              (\<lambda>x. x\<lparr>or_trace_id := (case or_trace_id x of None \<Rightarrow> trace | Some t \<Rightarrow> Some t)\<rparr>) (t_orders d)\<rparr>\<rparr>
            else s1)
      | None \<Rightarrow>
          if store_id \<notin> st_id ` set (om_stores (so_oms s1)) then Inl (IntegrityError ''fk_orders_store'')
          else
            let h = \<lparr>or_id = nid, or_platform = p, or_store_code = sc, or_ext_order_no = ext, or_store_id = store_id,
                     or_status = Some ''CREATED'', or_buyer_name = bn, or_buyer_phone = bp, or_trace_id = trace,
                     or_created_at = at, or_updated_at = Some at\<rparr> in
            Inr ((False, nid), s1\<lparr>so_core := d\<lparr>t_orders := t_orders d @ [h]\<rparr>\<rparr>))"

section \<open>order\_ingest\_items\_writer.py\<close>

record item_in =
  ii_item_id :: int
  ii_qty :: int
  ii_sku_id :: string
  ii_title :: string

definition insert_order_item :: "int \<Rightarrow> item_in \<Rightarrow> sales \<Rightarrow> error + sales" where
  "insert_order_item oid it s =
     (if \<not> int4 (ii_item_id it) \<or> \<not> int4 (ii_qty it) then Inl (DataError ''integer out of range'')
      else
        let (nid, s1) = sales_next_id ORDER_ITEMS s; sku = strip_or_none (Some (ii_sku_id it)) in
        if sku \<noteq> None \<and> list_ex (\<lambda>x. oi_order_id x = oid \<and> oi_sku_id x = sku) (so_order_items s1) then Inr s1
        else if ii_item_id it \<notin> it_id ` set (t_items (so_core s1)) then Inl (IntegrityError ''fk_order_items_item'')
        else Inr (s1\<lparr>so_order_items := so_order_items s1 @
          [\<lparr>oi_id = nid, oi_order_id = oid, oi_item_id = ii_item_id it, oi_sku_id = sku,
            oi_title = strip_or_none (Some (ii_title it)), oi_qty = ii_qty it, oi_shipped_qty = 0, oi_returned_qty = 0\<rparr>]\<rparr>))"

definition insert_order_items :: "int \<Rightarrow> item_in list \<Rightarrow> sales \<Rightarrow> error + sales" where
  "insert_order_items oid items s = foldE (insert_order_item oid) items s"

section \<open>order\_ingest\_lines\_writer.py\<close>

definition extract_req_qty :: "item_in list \<Rightarrow> qty_map" where
  "extract_req_qty items = fold (\<lambda>it m.
     if ii_item_id it \<le> 0 \<or> ii_qty it \<le> 0 then m
     else AList.update (ii_item_id it) (qty_of m (ii_item_id it) + ii_qty it) m) items []"

fun insert_req_lines :: "int \<Rightarrow> qty_map \<Rightarrow> sales \<Rightarrow> error option \<times> sales" where
  "insert_req_lines oid [] s = (None, s)"
| "insert_req_lines oid ((i, q) # m) s =
     (if \<not> int4 q then (Some (DataError ''integer out of range''), s)
      else
        let (nid, s1) = core_next_id ORDER_LINES s in
        insert_req_lines oid m (s1\<lparr>so_core := (so_core s1)\<lparr>t_order_lines := t_order_lines (so_core s1) @
          [\<lparr>orl_id = nid, orl_order_id = oid, orl_item_id = i, orl_req_qty = q\<rparr>]\<rparr>\<rparr>))"

definition shipped_lines_of :: "db \<Rightarrow> int \<Rightarrow> outbound_event_line list" where
  "shipped_lines_of d oid = filter (\<lambda>x. list_ex (\<lambda>l. orl_order_id l = oid \<and> ol_order_line_id x = Some (orl_id l))
     (t_order_lines d)) (t_outbound_lines d)"

text \<open>
  Old lines are deleted before the new ones are written; a line a shipment refers to cannot be
  (\<open>ON DELETE RESTRICT\<close>). The caller swallows the exception, so the state reached is returned too.
\<close>

definition insert_order_lines :: "int \<Rightarrow> item_in list \<Rightarrow> sales \<Rightarrow> error option \<times> sales" where
  "insert_order_lines oid items s =
     (let lines = extract_req_qty items in
      if lines = [] then (None, s)
      else if shipped_lines_of (so_core s) oid \<noteq> []
      then (Some (IntegrityError ''outbound_event_lines_order_line_id_fkey''), s)
      else insert_req_lines oid lines (s\<lparr>so_core := (so_core s)\<lparr>t_order_lines :=
        filter (\<lambda>l. orl_order_id l \<noteq> oid) (t_order_lines (so_core s))\<rparr>\<rparr>))"

section \<open>order\_ingest\_service.py\<close>

definition find_fulfillment :: "sales \<Rightarrow> int \<Rightarrow> order_fulfillment option" where
  "find_fulfillment s oid = find (\<lambda>f. of_order_id f = oid) (so_fulfillments s)"

definition known_warehouse :: "sales \<Rightarrow> int option \<Rightarrow> bool" where
  "known_warehouse s w = (case w of None \<Rightarrow> True | Some n \<Rightarrow> n \<in> set (rg_warehouses (so_regions s)))"

definition upsert_order_fulfillment_route :: "int \<Rightarrow> int \<Rightarrow> route_payload \<Rightarrow> unit sx" where
  "upsert_order_fulfillment_route now oid rp s =
     (let status = (case rp_status rp of None \<Rightarrow> [] | Some x \<Rightarrow> py_upper (py_strip x));
          planned = rp_service_warehouse_id rp;
          blocked = (if status = ''FULFILLMENT_BLOCKED''
            then Some (case strip_or_none (rp_reason rp) of None \<Rightarrow> [] | Some x \<Rightarrow> [x]) else None) in
      if \<not> known_warehouse s planned then Inl (IntegrityError ''order_fulfillment_planned_warehouse_id_fkey'')
      else Inr ((), s\<lparr>so_fulfillments :=
        (if find_fulfillment s oid \<noteq> None
         then update_where (\<lambda>f. of_order_id f = oid)
           (\<lambda>f. f\<lparr>of_planned_warehouse_id := planned, of_fulfillment_status := Some status,
                  of_blocked_reasons := blocked, of_updated_at := now\<rparr>) (so_fulfillments s)
         else so_fulfillments s @
           [\<lparr>of_order_id = oid, of_planned_warehouse_id = planned, of_actual_warehouse_id = None,
             of_fulfillment_status = Some status, of_blocked_reasons = blocked, of_execution_stage = None,
             of_ship_committed_at = None, of_shipped_at = None, of_updated_at = now\<rparr>])\<rparr>))"

definition load_existing_route_payload :: "sales \<Rightarrow> int \<Rightarrow> route_payload option" where
  "load_existing_route_payload s oid = (case find_fulfillment s oid of None \<Rightarrow> None | Some f \<Rightarrow>
     let fstat = strip_or_none (of_fulfillment_status f);
         reason = (case of_blocked_reasons f of Some (b # _) \<Rightarrow> strip_or_none (Some b)
                   | Some [] \<Rightarrow> Some ''[]'' | None \<Rightarrow> None) in
     Some \<lparr>rp_status = fstat, rp_mode = None,
           rp_reason = (if fstat = Some ''SERVICE_ASSIGNED'' then Some ''OK'' else reason),
           rp_service_warehouse_id = of_planned_warehouse_id f\<rparr>)"

record ingest_out =
  io_status :: string
  io_id :: int
  io_ref :: string
  io_route :: route_payload
  io_route_status :: string

definition order_ref_of :: "string \<Rightarrow> string \<Rightarrow> string \<Rightarrow> string" where
  "order_ref_of plat sc ext = ''ORD:'' @ plat @ '':'' @ sc @ '':'' @ ext"

text \<open>
  The exceptions of the line writer are swallowed. After a constraint violation PostgreSQL refuses
  every further statement of the transaction, so the next one raises; a value that does not fit
  its column is refused by the driver before anything is sent, and the transaction goes on.
\<close>

definition write_lines_quietly :: "int \<Rightarrow> item_in list \<Rightarrow> unit sx" where
  "write_lines_quietly oid items s =
     (if items = [] then Inr ((), s)
      else (case insert_order_lines oid items s of
          (Some (IntegrityError m), _) \<Rightarrow> Inl (DBAPIError ''current transaction is aborted'')
        | (_, s1) \<Rightarrow> Inr ((), s1)))"

definition order_ingest ::
  "int \<Rightarrow> string option \<times> string option \<Rightarrow> string \<Rightarrow> string \<Rightarrow> string \<Rightarrow> int option \<Rightarrow> string option \<Rightarrow> string option \<Rightarrow>
   item_in list \<Rightarrow> address option \<Rightarrow> string option \<Rightarrow> ingest_out sx" where
  "order_ingest now env platform sc ext occurred_at bn bp items addr trace s =
     (let plat = py_strip (py_upper platform);
          at = (case occurred_at of None \<Rightarrow> now | Some t \<Rightarrow> t) in
      bindE (resolve_store_id plat sc (Some sc) s) (\<lambda>(store_id, s1).
      bindE (insert_order_or_get_idempotent plat sc store_id ext at bn bp trace s1) (\<lambda>((hit, oid), s2).
      bindE (if hit then Inr s2 else insert_order_items oid items s2) (\<lambda>s3.
      bindE (write_lines_quietly oid items s3) (\<lambda>(_, s4).
      bindE (if hit
             then Inr (case load_existing_route_payload s4 oid of Some rp \<Rightarrow> rp
                       | None \<Rightarrow> resolve_route_payload env (so_regions s4) addr, s4)
             else (let rp = resolve_route_payload env (so_regions s4) addr in
                   bindE (upsert_order_fulfillment_route now oid rp s4) (\<lambda>(_, s5). Inr (rp, s5)))) (\<lambda>(rp, s6).
      let route_status = (case rp_status rp of None \<Rightarrow> ''UNKNOWN'' | Some x \<Rightarrow> if x = [] then ''UNKNOWN'' else x) in
      Inr (\<lparr>io_status = (if hit then ''IDEMPOTENT''
               else if route_status = ''FULFILLMENT_BLOCKED'' then ''FULFILLMENT_BLOCKED'' else ''OK''),
             io_id = oid, io_ref = order_ref_of plat sc ext, io_route = rp, io_route_status = route_status\<rparr>, s6)))))))"

end
