(* ===== verification/OrderFlow.thy ===== *)
theory OrderFlow
  imports Orders
begin

text \<open>
  The ways an order comes in: the facts a platform reports are stored and resolved
  (\<open>platform_order_fact_service.py\<close>, \<open>platform_order_ingest_flow.py\<close>) by the routes that ingest and
  replay them, and a mirrored order is converted (\<open>fulfillment_conversion_service.py\<close>).
\<close>

section \<open>platform\_order\_fact\_service.py\<close>

record raw_line =
  rw_filled_code :: "string option"
  rw_qty :: int
  rw_title :: "string option"
  rw_spec :: "string option"
  rw_line_no :: "int option"

definition line_key :: "string option \<Rightarrow> int \<Rightarrow> string" where
  "line_key filled_code line_no =
     (case strip_or_none filled_code of Some fc \<Rightarrow> ''PSKU:'' @ fc | None \<Rightarrow> ''NO_PSKU:'' @ int_text line_no)"

definition locator :: "string option \<Rightarrow> int \<Rightarrow> string \<times> string" where
  "locator filled_code line_no =
     (case strip_or_none filled_code of Some fc \<Rightarrow> (''FILLED_CODE'', fc) | None \<Rightarrow> (''LINE_NO'', int_text line_no))"

definition fact_at :: "string \<Rightarrow> string \<Rightarrow> string \<Rightarrow> string \<Rightarrow> platform_order_line \<Rightarrow> bool" where
  "fact_at p sc ext k f \<longleftrightarrow> fa_platform f = p \<and> fa_store_code f = sc \<and> fa_ext_order_no f = ext \<and> fa_line_key f = k"

definition upsert_fact ::
  "string \<Rightarrow> string \<Rightarrow> int option \<Rightarrow> string \<Rightarrow> int \<times> raw_line \<Rightarrow> sales \<Rightarrow> error + sales" where
  "upsert_fact plat sid store_id ext nl s =
     (case nl of (idx, ln) \<Rightarrow>
      let code = strip_or_none (rw_filled_code ln);
          qty = (if 0 < rw_qty ln then rw_qty ln else 1);
          line_no = (case rw_line_no ln of None \<Rightarrow> idx | Some n \<Rightarrow> if n = 0 then idx else n);
          lk = line_key code line_no; (kind, val) = locator code line_no in
      if \<not> int4 qty \<or> \<not> int4 line_no then Inl (DataError ''integer out of range'')
      else
        let (nid, s1) = sales_next_id PLATFORM_ORDER_LINES s in
        Inr (s1\<lparr>so_facts :=
          (if list_ex (fact_at plat sid ext lk) (so_facts s1)
           then update_where (fact_at plat sid ext lk)
             (\<lambda>f. f\<lparr>fa_store_id := store_id, fa_locator_kind := kind, fa_locator_value := val, fa_filled_code := code,
                    fa_qty := qty, fa_title := rw_title ln, fa_spec := rw_spec ln\<rparr>) (so_facts s1)
           else so_facts s1 @
             [\<lparr>fa_id = nid, fa_platform = plat, fa_store_code = sid, fa_store_id = store_id, fa_ext_order_no = ext,
               fa_line_no = line_no, fa_line_key = lk, fa_locator_kind = kind, fa_locator_value = val,
               fa_filled_code = code, fa_qty = qty, fa_title = rw_title ln, fa_spec = rw_spec ln\<rparr>])\<rparr>))"

definition upsert_platform_order_lines ::
  "string \<Rightarrow> string \<Rightarrow> int option \<Rightarrow> string \<Rightarrow> raw_line list \<Rightarrow> int sx" where
  "upsert_platform_order_lines platform store_code store_id ext_order_no lns s =
     (let ext = py_strip ext_order_no in
      if ext = [] then Inl (ValueError ''ext_order_no is required'')
      else
        bindE (foldE (upsert_fact (norm_platform platform) (py_strip store_code) store_id ext)
          (zip (map int [1..<Suc (length lns)]) lns) s) (\<lambda>s1.
        Inr (int (length lns), s1)))"

definition load_fact_lines_for_order :: "sales \<Rightarrow> string \<Rightarrow> int \<Rightarrow> string \<Rightarrow> platform_order_line list" where
  "load_fact_lines_for_order s platform store_id ext =
     sort_key fa_line_no (filter (\<lambda>f. fa_platform f = platform \<and> fa_store_id f = Some store_id \<and>
       fa_ext_order_no f = ext) (so_facts s))"

section \<open>platform\_order\_ingest\_flow.py\<close>

definition load_items_brief :: "sales \<Rightarrow> int list \<Rightarrow> item_basic list result" where
  "load_items_brief s ids = (if ids = [] then Inr [] else aget_basics_by_item_ids (so_core s) ids)"

definition build_items_payload :: "qty_map \<Rightarrow> item_basic list \<Rightarrow> item_in list" where
  "build_items_payload m briefs = map (\<lambda>i.
     (case find (\<lambda>b. ib_id b = i) briefs of
        None \<Rightarrow> \<lparr>ii_item_id = i, ii_qty = qty_of m i, ii_sku_id = [], ii_title = []\<rparr>
      | Some b \<Rightarrow> \<lparr>ii_item_id = i, ii_qty = qty_of m i, ii_sku_id = ib_sku b, ii_title = ib_name b\<rparr>))
     (sort (map fst m))"

definition load_order_fulfillment_brief :: "sales \<Rightarrow> int \<Rightarrow> string option \<times> string list option" where
  "load_order_fulfillment_brief s oid = (case find_fulfillment s oid of None \<Rightarrow> (None, None)
     | Some f \<Rightarrow> (of_fulfillment_status f, of_blocked_reasons f))"

record flow_out =
  fo_status :: string
  fo_id :: "int option"
  fo_ref :: string
  fo_store_id :: int
  fo_resolved :: "resolved_order_line list"
  fo_unresolved :: "unresolved_line list"
  fo_facts_written :: int
  fo_fulfillment_status :: "string option"
  fo_blocked_reasons :: "string list option"
  fo_allow_manual_continue :: bool
  fo_reason_code :: string

definition derive_reason_code ::
  "string \<Rightarrow> unresolved_line list \<Rightarrow> string option \<Rightarrow> string list option \<Rightarrow> string" where
  "derive_reason_code st us fstat blocked =
     (let status = py_upper st in
      if status = ''UNRESOLVED''
      then (case find (\<lambda>u. py_strip (un_reason u) \<noteq> []) us of
          None \<Rightarrow> ''UNRESOLVED''
        | Some u \<Rightarrow>
            let rc = py_strip (un_reason u) in
            if rc \<in> {''MISSING_FILLED_CODE'', ''FILLED_CODE_MISSING''} then ''MISSING_FILLED_CODE''
            else if rc \<in> {''CODE_NOT_BOUND'', ''FILLED_CODE_NOT_BOUND''} then ''CODE_NOT_BOUND''
            else rc)
      else if fstat = Some ''FULFILLMENT_BLOCKED'' then ''ROUTING_BLOCKED''
      else if (case blocked of None \<Rightarrow> False | Some bs \<Rightarrow> bs \<noteq> []) then ''ROUTING_BLOCKED''
      else if status \<noteq> [] then status
      else ''INTERNAL_ERROR'')"

definition flow_answer ::
  "ingest_out \<Rightarrow> int \<Rightarrow> resolved_order_line list \<Rightarrow> unresolved_line list \<Rightarrow> int \<Rightarrow> bool \<Rightarrow> sales \<Rightarrow> flow_out" where
  "flow_answer r store_id rs us n allow s =
     (let (fstat, blocked) = load_order_fulfillment_brief s (io_id r) in
      \<lparr>fo_status = io_status r, fo_id = Some (io_id r), fo_ref = io_ref r, fo_store_id = store_id,
        fo_resolved = rs, fo_unresolved = us, fo_facts_written = n, fo_fulfillment_status = fstat,
        fo_blocked_reasons = blocked, fo_allow_manual_continue = allow,
        fo_reason_code = derive_reason_code (io_status r) us fstat blocked\<rparr>)"

definition run_from_platform_lines ::
  "int \<Rightarrow> string option \<times> string option \<Rightarrow> string \<Rightarrow> string \<Rightarrow> int \<Rightarrow> string \<Rightarrow> int option \<Rightarrow> string option \<Rightarrow>
   string option \<Rightarrow> address option \<Rightarrow> raw_line list \<Rightarrow> string option \<Rightarrow> flow_out sx" where
  "run_from_platform_lines now env platform store_code store_id ext_order_no occurred_at bn bp addr lns trace s =
     (let plat = norm_platform platform; sid = py_strip store_code; ext = py_strip ext_order_no in
      if ext = [] then Inl (ValueError ''ext_order_no is required'')
      else
        bindE (upsert_platform_order_lines plat sid (Some store_id) ext lns s) (\<lambda>(n, s1).
        case resolve_platform_lines_to_items (so_oms s1) plat store_id
            (map (\<lambda>ln. \<lparr>ln_filled_code = rw_filled_code ln, ln_qty = PInt (rw_qty ln)\<rparr>) lns) of (rs, us, m) \<Rightarrow>
        if m = []
        then Inr (\<lparr>fo_status = ''UNRESOLVED'', fo_id = None, fo_ref = order_ref_of plat sid ext, fo_store_id = store_id,
            fo_resolved = rs, fo_unresolved = us, fo_facts_written = n, fo_fulfillment_status = None,
            fo_blocked_reasons = None, fo_allow_manual_continue = (us \<noteq> []),
            fo_reason_code = derive_reason_code ''UNRESOLVED'' us None None\<rparr>, s1)
        else
          bindE (load_items_brief s1 (sort (map fst m))) (\<lambda>briefs.
          bindE (order_ingest now env plat sid ext occurred_at bn bp (build_items_payload m briefs) addr trace s1) (\<lambda>(r, s2).
          Inr (flow_answer r store_id rs us n (us \<noteq> []) s2, s2)))))"

text \<open>The tail, without the three arguments that are only handed through to the answer.\<close>

definition run_tail_from_items_payload ::
  "int \<Rightarrow> string option \<times> string option \<Rightarrow> string \<Rightarrow> string \<Rightarrow> string \<Rightarrow> string option \<Rightarrow> string option \<Rightarrow>
   address option \<Rightarrow> item_in list \<Rightarrow> string option \<Rightarrow> ingest_out sx" where
  "run_tail_from_items_payload now env platform store_code ext_order_no bn bp addr items trace s =
     (let ext = py_strip ext_order_no in
      if ext = [] then Inl (ValueError ''ext_order_no is required'')
      else order_ingest now env (norm_platform platform) (py_strip store_code) ext None bn bp items addr trace s)"

section \<open>POST /platform-orders/ingest\<close>

record ingest_in =
  pi_platform :: string
  pi_store_id :: "int option"
  pi_store_code :: "string option"
  pi_store_name :: "string option"
  pi_ext_order_no :: string
  pi_occurred_at :: "int option"
  pi_buyer_name :: "string option"
  pi_buyer_phone :: "string option"
  pi_receiver_name :: "string option"
  pi_receiver_phone :: "string option"
  pi_province :: "string option"
  pi_city :: "string option"
  pi_district :: "string option"
  pi_detail :: "string option"
  pi_zipcode :: "string option"
  pi_lines :: "raw_line list"
  pi_has_address_key :: bool

definition ingest_in_valid :: "ingest_in \<Rightarrow> bool" where
  "ingest_in_valid p \<longleftrightarrow> pi_platform p \<noteq> [] \<and> pi_ext_order_no p \<noteq> [] \<and> pi_store_code p \<noteq> Some [] \<and>
     list_all (\<lambda>l. 0 < rw_qty l) (pi_lines p)"

definition stripped :: "string option \<Rightarrow> string" where
  "stripped v = (case v of None \<Rightarrow> [] | Some x \<Rightarrow> py_strip x)"

definition build_address :: "ingest_in \<Rightarrow> address option result" where
  "build_address p =
     (let province = (case normalize_province_name (pi_province p) of None \<Rightarrow> [] | Some x \<Rightarrow> x);
          raw = [(''receiver_name'', stripped (pi_receiver_name p)), (''receiver_phone'', stripped (pi_receiver_phone p)),
                 (''province'', province), (''city'', stripped (pi_city p)), (''district'', stripped (pi_district p)),
                 (''detail'', stripped (pi_detail p)), (''zipcode'', stripped (pi_zipcode p))] in
      if \<not> list_ex (\<lambda>(k, v). v \<noteq> []) raw then Inr None
      else if province = [] then Inl (ValueError ''province is empty'')
      else Inr (Some (filter (\<lambda>(k, v). v \<noteq> []) raw)))"

definition load_store_code_checked :: "sales \<Rightarrow> int \<Rightarrow> string \<Rightarrow> string result" where
  "load_store_code_checked s store_id platform =
     (case find (\<lambda>x. st_id x = store_id) (om_stores (so_oms s)) of
        None \<Rightarrow> Inl (LookupError ''store not found'')
      | Some x \<Rightarrow>
          if st_store_code x = [] then Inl (LookupError ''store store_code empty'')
          else
            let plat = py_upper (py_strip (st_platform x)) in
            if plat \<noteq> [] \<and> plat \<noteq> norm_platform platform then Inl (ValueError ''platform mismatch'')
            else Inr (st_store_code x))"

definition normalize_filled_code :: "raw_line \<Rightarrow> raw_line" where
  "normalize_filled_code ln = ln\<lparr>rw_filled_code := strip_or_none (rw_filled_code ln)\<rparr>"

definition ingest_platform_order ::
  "int \<Rightarrow> string option \<times> string option \<Rightarrow> string \<Rightarrow> ingest_in \<Rightarrow> flow_out sx" where
  "ingest_platform_order now env trace p s =
     (if \<not> ingest_in_valid p then Inl (HTTPException 422 ''request validation error'')
      else if pi_has_address_key p then Inl (HTTPException 422 ''address fields belong to the top level'')
      else
        let plat = norm_platform (pi_platform p) in
        bindE (case pi_store_id p of
            Some n \<Rightarrow> (case load_store_code_checked s n plat of
                Inl (LookupError m) \<Rightarrow> Inl (HTTPException 404 ''store_id not found'')
              | Inl e \<Rightarrow> Inl e
              | Inr sc \<Rightarrow> Inr ((n, py_strip sc), s))
          | None \<Rightarrow> (case pi_store_code p of
                None \<Rightarrow> Inl (HTTPException 422 ''store_id or store_code is required'')
              | Some c \<Rightarrow> bindE (resolve_store_id plat (py_strip c) (pi_store_name p) s) (\<lambda>(n, s1). Inr ((n, py_strip c), s1))))
          (\<lambda>((store_id, sc), s1).
        bindE (case build_address p of Inl (ValueError m) \<Rightarrow> Inl (HTTPException 422 m) | r \<Rightarrow> r) (\<lambda>addr.
        run_from_platform_lines now env plat sc store_id (pi_ext_order_no p) (pi_occurred_at p) (pi_buyer_name p)
          (pi_buyer_phone p) addr (map normalize_filled_code (pi_lines p)) (Some trace) s1)))"

section \<open>POST /platform-orders/replay\<close>

definition load_store_code_of_store :: "sales \<Rightarrow> int \<Rightarrow> string result" where
  "load_store_code_of_store s store_id =
     (case find (\<lambda>x. st_id x = store_id) (om_stores (so_oms s)) of
        None \<Rightarrow> Inl (LookupError ''store not found'')
      | Some x \<Rightarrow> if st_store_code x = [] then Inl (LookupError ''store not found'') else Inr (st_store_code x))"

definition resolve_facts :: "sales \<Rightarrow> string \<Rightarrow> int \<Rightarrow> platform_order_line list \<Rightarrow>
    resolved_order_line list \<times> unresolved_line list \<times> qty_map" where
  "resolve_facts s plat store_id facts = resolve_platform_lines_to_items (so_oms s) plat store_id
     (map (\<lambda>f. \<lparr>ln_filled_code = fa_filled_code f, ln_qty = PInt (fa_qty f)\<rparr>) facts)"

record replay_out =
  ro_status :: string
  ro_id :: "int option"
  ro_ref :: string
  ro_facts_n :: int
  ro_resolved :: "resolved_order_line list"
  ro_unresolved :: "unresolved_line list"
  ro_fulfillment_status :: "string option"
  ro_blocked_reasons :: "string list option"

text \<open>The unresolved entry of an order without facts has a reason only.\<close>

definition replay_platform_order ::
  "int \<Rightarrow> string option \<times> string option \<Rightarrow> string \<Rightarrow> string \<Rightarrow> int \<Rightarrow> string \<Rightarrow> replay_out sx" where
  "replay_platform_order now env trace platform store_id ext_order_no s =
     (if platform = [] \<or> store_id < 1 \<or> ext_order_no = [] then Inl (HTTPException 422 ''request validation error'')
      else
        let plat = norm_platform platform; ext = py_strip ext_order_no in
        if ext = [] then Inl (HTTPException 422 ''ext_order_no is empty'')
        else (case load_store_code_of_store s store_id of
            Inl _ \<Rightarrow> Inl (HTTPException 404 ''store_id not found'')
          | Inr sc \<Rightarrow>
              let facts = load_fact_lines_for_order s plat store_id ext; ref = order_ref_of plat sc ext in
              if facts = []
              then Inr (\<lparr>ro_status = ''NOT_FOUND'', ro_id = None, ro_ref = ref, ro_facts_n = 0, ro_resolved = [],
                  ro_unresolved = [\<lparr>un_filled_code = [], un_qty = 0, un_fsku_id = None, un_reason = ''FACTS_NOT_FOUND''\<rparr>],
                  ro_fulfillment_status = None, ro_blocked_reasons = None\<rparr>, s)
              else (case resolve_facts s plat store_id facts of (rs, us, m) \<Rightarrow>
                if m = []
                then Inr (\<lparr>ro_status = ''UNRESOLVED'', ro_id = None, ro_ref = ref, ro_facts_n = int (length facts),
                    ro_resolved = rs, ro_unresolved = us, ro_fulfillment_status = None, ro_blocked_reasons = None\<rparr>, s)
                else
                  bindE (load_items_brief s (sort (map fst m))) (\<lambda>briefs.
                  bindE (run_tail_from_items_payload now env plat sc ext None None None (build_items_payload m briefs)
                    (Some trace) s) (\<lambda>(r, s1).
                  case load_order_fulfillment_brief s1 (io_id r) of (fstat, blocked) \<Rightarrow>
                  Inr (\<lparr>ro_status = io_status r, ro_id = Some (io_id r), ro_ref = io_ref r,
                      ro_facts_n = int (length facts), ro_resolved = rs, ro_unresolved = us,
                      ro_fulfillment_status = fstat, ro_blocked_reasons = blocked\<rparr>, s1))))))"

section \<open>fulfillment\_conversion\_service.py\<close>

text \<open>A line quantity is a \<open>NUMERIC(14, 4)\<close>, in ten-thousandths; that of a component in millionths.\<close>

record conversion_row =
  cr_line_id :: int
  cr_merchant_sku :: "string option"
  cr_quantity :: int
  cr_fsku_id :: "int option"
  cr_fsku_status :: "string option"
  cr_component :: "(int \<times> int) option"

definition load_line_component_rows :: "sales \<Rightarrow> string \<Rightarrow> order_mirror \<Rightarrow> conversion_row list" where
  "load_line_component_rows s platform m =
     concat (map (\<lambda>l.
       let row = \<lparr>cr_line_id = mn_id l, cr_merchant_sku = mn_merchant_sku l, cr_quantity = mn_quantity l,
             cr_fsku_id = None, cr_fsku_status = None, cr_component = None\<rparr> in
       case (case mn_merchant_sku l of None \<Rightarrow> None
             | Some c \<Rightarrow> find (binding_at (norm_platform platform) (mi_collector_store_code m) c) (om_bindings (so_oms s))) of
         None \<Rightarrow> [row]
       | Some b \<Rightarrow>
           let st = map_option fk_status (find_fsku (so_oms s) (mb_fsku_id b));
               row1 = row\<lparr>cr_fsku_id := Some (mb_fsku_id b), cr_fsku_status := st\<rparr>;
               comps = sort_key fc_id (load_components (so_oms s) (mb_fsku_id b)) in
           if comps = [] then [row1]
           else map (\<lambda>c. row1\<lparr>cr_component := Some (fc_item_id c, fc_qty c)\<rparr>) comps)
     (sort_key mn_id (filter (\<lambda>l. mn_table l = platform \<and> mn_mirror_id l = mi_id m) (so_mirror_lines s))))"

definition positive_integral :: "int \<Rightarrow> int \<Rightarrow> int result" where
  "positive_integral scale q =
     (if q \<le> 0 then Inl (HTTPException 422 ''quantity must be positive'')
      else if q mod scale \<noteq> 0 then Inl (HTTPException 422 ''quantity must be integral'')
      else Inr (q div scale))"

fun conversion_loop :: "conversion_row list \<Rightarrow> qty_map \<Rightarrow> (int \<times> string) list \<Rightarrow> (qty_map \<times> (int \<times> string) list) result" where
  "conversion_loop [] m errs = Inr (m, errs)"
| "conversion_loop (r # rows) m errs =
     (let complain = (\<lambda>msg. if cr_line_id r \<in> fst ` set errs then errs else errs @ [(cr_line_id r, msg)]) in
      if strip_or_none (cr_merchant_sku r) = None then conversion_loop rows m (complain ''no merchant_code'')
      else if cr_fsku_id r = None then conversion_loop rows m (complain ''merchant_code not bound'')
      else if strip_or_none (cr_fsku_status r) \<noteq> Some ''published'' then conversion_loop rows m (complain ''FSKU not published'')
      else (case cr_component r of None \<Rightarrow> conversion_loop rows m (complain ''FSKU has no components'')
        | Some (i, q) \<Rightarrow>
            bindE (positive_integral (10 ^ 4) (cr_quantity r)) (\<lambda>line_qty.
            bindE (positive_integral (10 ^ 6) q) (\<lambda>component_qty.
            conversion_loop rows (AList.update i (qty_of m i + line_qty * component_qty) m) errs))))"

definition build_item_qty_map :: "conversion_row list \<Rightarrow> (qty_map \<times> int) result" where
  "build_item_qty_map rows =
     (if rows = [] then Inl (HTTPException 422 ''the mirror has no lines'')
      else bindE (conversion_loop rows [] []) (\<lambda>(m, errs).
        if errs \<noteq> [] then Inl (HTTPException 422 ''lines cannot be converted'')
        else if m = [] then Inl (HTTPException 422 ''nothing to convert'')
        else Inr (m, int (card (set (map cr_line_id rows))))))"

definition first_text :: "address \<Rightarrow> string list \<Rightarrow> string option" where
  "first_text rcv ks = (case List.map_filter (\<lambda>k. strip_or_none (map_of rcv k)) ks of [] \<Rightarrow> None | x # _ \<Rightarrow> Some x)"

definition address_from_receiver :: "address \<Rightarrow> address" where
  "address_from_receiver rcv = List.map_filter (\<lambda>(k, ks). map_option (Pair k) (first_text rcv ks))
     [(''receiver_name'', [''receiver_name'', ''name'']),
      (''receiver_phone'', [''receiver_phone'', ''phone'', ''mobile'']),
      (''province'', [''province'', ''state'', ''receiver_state'']),
      (''city'', [''city'']),
      (''district'', [''district'', ''county'']),
      (''detail'', [''detail'', ''address'', ''receiver_address'']),
      (''zipcode'', [''zipcode'', ''zip''])]"

record conversion_out =
  co_status :: string
  co_order_id :: int
  co_ref :: string
  co_store_id :: int
  co_lines_count :: int
  co_item_lines_count :: int
  co_fulfillment_status :: "string option"
  co_blocked_reasons :: "string list option"

text \<open>The route is registered for three platforms; the service and its exceptions are answered by it.\<close>

definition convert_platform_order_mirror ::
  "int \<Rightarrow> string option \<times> string option \<Rightarrow> string \<Rightarrow> string \<Rightarrow> int \<Rightarrow> conversion_out sx" where
  "convert_platform_order_mirror now env trace platform mirror_id s =
     (let table = py_lower (py_strip platform) in
      if table \<notin> {''pdd'', ''taobao'', ''jd''} then Inl (HTTPException 422 ''unsupported platform'')
      else (case find (\<lambda>m. mi_table m = table \<and> mi_id m = mirror_id) (so_mirrors s) of
          None \<Rightarrow> Inl (HTTPException 404 ''platform order mirror not found'')
        | Some mir \<Rightarrow> (case mi_wms_store_id mir of
            None \<Rightarrow> Inl (HTTPException 422 ''the mirror has no WMS store'')
          | Some store_id \<Rightarrow>
              bindE (build_item_qty_map (load_line_component_rows s table mir)) (\<lambda>(m, lines_count).
              let addr = address_from_receiver (mi_receiver mir) in
              bindE (load_items_brief s (sort (map fst m))) (\<lambda>briefs.
              bindE (run_tail_from_items_payload now env (norm_platform platform) (mi_collector_store_code mir)
                  (mi_platform_order_no mir) (map_of addr ''receiver_name'') (map_of addr ''receiver_phone'')
                  (if addr = [] then None else Some addr) (build_items_payload m briefs) (Some trace) s) (\<lambda>(r, s1).
              case load_order_fulfillment_brief s1 (io_id r) of (fstat, blocked) \<Rightarrow>
              Inr (\<lparr>co_status = io_status r, co_order_id = io_id r, co_ref = io_ref r, co_store_id = store_id,
                  co_lines_count = lines_count, co_item_lines_count = int (length m),
                  co_fulfillment_status = fstat, co_blocked_reasons = blocked\<rparr>, s1)))))))"

end
