(* ===== verification/Routing.thy ===== *)
theory Routing
  imports Stock "HOL-Library.Product_Lexorder" "HOL-Library.Multiset"
begin

text \<open>
  Choosing a warehouse for a whole order, \<open>wms/outbound/services/warehouse_router.py\<close>: the bound
  warehouses of a store are tried, the top ones first, each by priority and id, and the first that
  can deliver every line is taken. Availability is read once per warehouse and item and kept in a
  cache; \<open>route_cached\<close> shows that the cache does not show.
\<close>

section \<open>The router\<close>

record route_ctx =
  rc_platform :: string
  rc_store_code :: string

record route_line =
  rl_item_id :: int
  rl_qty :: int

record store_warehouse_binding =
  sw_platform :: string
  sw_store_code :: string
  sw_warehouse_id :: int
  sw_is_top :: bool
  sw_priority :: int

record routing_result =
  rr_warehouse_id :: int
  rr_reason :: string
  rr_considered :: "int list"

record insufficient_line =
  in_item_id :: int
  in_need :: int
  in_available :: int

record fulfillment_check =
  ck_status :: string
  ck_warehouse_id :: int
  ck_insufficient :: "insufficient_line list"

datatype routing_error = NoWarehouseConfigured | NoWarehouseCanFulfill

text \<open>\<open>StockAvailabilityProvider.get_available\<close>.\<close>

definition stock_availability :: "db \<Rightarrow> int \<Rightarrow> int \<Rightarrow> int" where
  "stock_availability d wh item = (let v = get_available_for_item d wh item in if 0 \<le> v then v else 0)"

type_synonym avail_cache = "((int \<times> int) \<times> int) list"

definition get_avail :: "(int \<Rightarrow> int \<Rightarrow> int) \<Rightarrow> int \<Rightarrow> int \<Rightarrow> avail_cache \<Rightarrow> int \<times> avail_cache" where
  "get_avail avail wh item c = (case map_of c (wh, item) of Some v \<Rightarrow> (v, c)
     | None \<Rightarrow> let v = (if avail wh item < 0 then 0 else avail wh item) in (v, ((wh, item), v) # c))"

fun can_fulfill :: "(int \<Rightarrow> int \<Rightarrow> int) \<Rightarrow> int \<Rightarrow> route_line list \<Rightarrow> avail_cache \<Rightarrow> bool \<times> avail_cache" where
  "can_fulfill avail wh [] c = (True, c)"
| "can_fulfill avail wh (l # ls) c =
     (if rl_qty l \<le> 0 then can_fulfill avail wh ls c
      else (case get_avail avail wh (rl_item_id l) c of (v, c1) \<Rightarrow>
        if v < rl_qty l then (False, c1) else can_fulfill avail wh ls c1))"

fun try_warehouses ::
  "(int \<Rightarrow> int \<Rightarrow> int) \<Rightarrow> route_line list \<Rightarrow> store_warehouse_binding list \<Rightarrow> int list \<Rightarrow> avail_cache \<Rightarrow>
   int option \<times> int list \<times> avail_cache" where
  "try_warehouses avail lns [] seen c = (None, seen, c)"
| "try_warehouses avail lns (b # bs) seen c =
     (case can_fulfill avail (sw_warehouse_id b) lns c of (ok, c1) \<Rightarrow>
      if ok then (Some (sw_warehouse_id b), seen @ [sw_warehouse_id b], c1)
      else try_warehouses avail lns bs (seen @ [sw_warehouse_id b]) c1)"

definition binding_order :: "store_warehouse_binding list \<Rightarrow> store_warehouse_binding list" where
  "binding_order bs = sort_key (\<lambda>b. (sw_priority b, sw_warehouse_id b)) bs"

definition route :: "(int \<Rightarrow> int \<Rightarrow> int) \<Rightarrow> route_ctx \<Rightarrow> route_line list \<Rightarrow> store_warehouse_binding list \<Rightarrow>
    routing_error + routing_result" where
  "route avail ctx lns bindings =
     (if bindings = [] then Inl NoWarehouseConfigured
      else
        let scoped = filter (\<lambda>b. sw_platform b = rc_platform ctx \<and> sw_store_code b = rc_store_code ctx) bindings in
        if scoped = [] then Inl NoWarehouseConfigured
        else
          let top = binding_order (filter sw_is_top scoped);
              backup = binding_order (filter (\<lambda>b. \<not> sw_is_top b) scoped) in
          (case try_warehouses avail lns top [] [] of
             (Some w, seen, c) \<Rightarrow> Inr \<lparr>rr_warehouse_id = w, rr_reason = ''top_warehouse_with_stock'', rr_considered = seen\<rparr>
           | (None, seen, c) \<Rightarrow> (case try_warehouses avail lns backup seen c of
               (Some w, seen2, c2) \<Rightarrow> Inr \<lparr>rr_warehouse_id = w, rr_reason = ''backup_warehouse_with_stock'', rr_considered = seen2\<rparr>
             | (None, seen2, c2) \<Rightarrow> Inl NoWarehouseCanFulfill)))"

fun insufficient_lines :: "(int \<Rightarrow> int \<Rightarrow> int) \<Rightarrow> int \<Rightarrow> route_line list \<Rightarrow> avail_cache \<Rightarrow> insufficient_line list" where
  "insufficient_lines avail wh [] c = []"
| "insufficient_lines avail wh (l # ls) c =
     (if rl_qty l \<le> 0 then insufficient_lines avail wh ls c
      else (case get_avail avail wh (rl_item_id l) c of (v, c1) \<Rightarrow>
        (if v < rl_qty l then [\<lparr>in_item_id = rl_item_id l, in_need = rl_qty l, in_available = v\<rparr>] else []) @
        insufficient_lines avail wh ls c1))"

definition check_whole_order :: "(int \<Rightarrow> int \<Rightarrow> int) \<Rightarrow> int \<Rightarrow> route_line list \<Rightarrow> fulfillment_check" where
  "check_whole_order avail wid lns =
     (if wid \<le> 0 then \<lparr>ck_status = ''BLOCKED'', ck_warehouse_id = wid, ck_insufficient = []\<rparr>
      else
        let bad = insufficient_lines avail wid lns [] in
        \<lparr>ck_status = (if bad \<noteq> [] then ''BLOCKED'' else ''OK''), ck_warehouse_id = wid, ck_insufficient = bad\<rparr>)"

fun scan_loop :: "(int \<Rightarrow> int \<Rightarrow> int) \<Rightarrow> route_line list \<Rightarrow> int list \<Rightarrow> int set \<Rightarrow> fulfillment_check list" where
  "scan_loop avail lns [] seen = []"
| "scan_loop avail lns (w # ws) seen =
     (if w \<le> 0 \<or> w \<in> seen then scan_loop avail lns ws seen
      else check_whole_order avail w lns # scan_loop avail lns ws (insert w seen))"

definition scan_warehouses :: "(int \<Rightarrow> int \<Rightarrow> int) \<Rightarrow> route_line list \<Rightarrow> int list \<Rightarrow> fulfillment_check list" where
  "scan_warehouses avail lns ws = scan_loop avail lns ws {}"

section \<open>Without the cache\<close>

definition fits :: "(int \<Rightarrow> int \<Rightarrow> int) \<Rightarrow> route_line list \<Rightarrow> int \<Rightarrow> bool" where
  "fits avail lns wh \<longleftrightarrow> list_all (\<lambda>l. rl_qty l \<le> max 0 (avail wh (rl_item_id l))) lns"

definition cache_ok :: "(int \<Rightarrow> int \<Rightarrow> int) \<Rightarrow> avail_cache \<Rightarrow> bool" where
  "cache_ok avail c \<longleftrightarrow> (\<forall>w i v. map_of c (w, i) = Some v \<longrightarrow> v = max 0 (avail w i))"

lemma cache_ok_Nil [simp]: "cache_ok avail []"
  by (simp add: cache_ok_def)

lemma get_avail_ok:
  assumes "cache_ok avail c" "get_avail avail wh i c = (v, c')"
  shows "v = max 0 (avail wh i)" "cache_ok avail c'"
  using assms by (auto simp: get_avail_def cache_ok_def Let_def split: option.splits if_splits)

lemma can_fulfill_fits:
  "cache_ok avail c \<Longrightarrow> can_fulfill avail wh lns c = (ok, c') \<Longrightarrow> ok = fits avail lns wh \<and> cache_ok avail c'"
proof (induction lns arbitrary: c)
  case (Cons l ls)
  show ?case
  proof (cases "rl_qty l \<le> 0")
    case True
    with Cons show ?thesis by (auto simp: fits_def)
  next
    case False
    obtain v c1 where g: "get_avail avail wh (rl_item_id l) c = (v, c1)" by fastforce
    note v = get_avail_ok [OF Cons.prems(1) g]
    show ?thesis
    proof (cases "v < rl_qty l")
      case True
      then have "\<not> fits avail (l # ls) wh" using v(1) by (simp add: fits_def not_le)
      with True Cons.prems(2) False g v(2) show ?thesis by simp
    next
      case no: False
      with Cons.prems(2) False g have run: "can_fulfill avail wh ls c1 = (ok, c')" by simp
      from no v(1) have "rl_qty l \<le> max 0 (avail wh (rl_item_id l))" by (simp only: not_less)
      then have "fits avail (l # ls) wh = fits avail ls wh" by (simp only: fits_def list.pred_inject simp_thms)
      with Cons.IH [OF v(2) run] show ?thesis by simp
    qed
  qed
qed (simp add: fits_def)

text \<open>Trying warehouses in order is finding the first that fits.\<close>

definition first_fit :: "(int \<Rightarrow> int \<Rightarrow> int) \<Rightarrow> route_line list \<Rightarrow> store_warehouse_binding list \<Rightarrow> store_warehouse_binding option" where
  "first_fit avail lns bs = find (\<lambda>b. fits avail lns (sw_warehouse_id b)) bs"

definition misses :: "(int \<Rightarrow> int \<Rightarrow> int) \<Rightarrow> route_line list \<Rightarrow> store_warehouse_binding list \<Rightarrow> int list" where
  "misses avail lns bs = map sw_warehouse_id (takeWhile (\<lambda>b. \<not> fits avail lns (sw_warehouse_id b)) bs)"

lemma try_warehouses_first:
  "cache_ok avail c \<Longrightarrow> \<exists>c'. cache_ok avail c' \<and> try_warehouses avail lns bs seen c =
     (map_option sw_warehouse_id (first_fit avail lns bs),
      seen @ misses avail lns bs @ (case first_fit avail lns bs of None \<Rightarrow> [] | Some b \<Rightarrow> [sw_warehouse_id b]), c')"
proof (induction bs arbitrary: seen c)
  case (Cons b bs)
  obtain ok c1 where run: "can_fulfill avail (sw_warehouse_id b) lns c = (ok, c1)" by fastforce
  from can_fulfill_fits [OF Cons.prems run] have ok: "ok = fits avail lns (sw_warehouse_id b)" "cache_ok avail c1" by simp_all
  show ?case
  proof (cases ok)
    case True
    with run ok show ?thesis by (auto simp: first_fit_def misses_def)
  next
    case False
    with Cons.IH [OF ok(2), of "seen @ [sw_warehouse_id b]"] run ok show ?thesis by (auto simp: first_fit_def misses_def)
  qed
qed (auto simp: first_fit_def misses_def)

definition route_spec :: "(int \<Rightarrow> int \<Rightarrow> int) \<Rightarrow> route_ctx \<Rightarrow> route_line list \<Rightarrow> store_warehouse_binding list \<Rightarrow>
    routing_error + routing_result" where
  "route_spec avail ctx lns bindings =
     (let scoped = filter (\<lambda>b. sw_platform b = rc_platform ctx \<and> sw_store_code b = rc_store_code ctx) bindings;
          ranked = binding_order (filter sw_is_top scoped) @ binding_order (filter (\<lambda>b. \<not> sw_is_top b) scoped) in
      if scoped = [] then Inl NoWarehouseConfigured
      else (case first_fit avail lns ranked of None \<Rightarrow> Inl NoWarehouseCanFulfill
        | Some b \<Rightarrow> Inr \<lparr>rr_warehouse_id = sw_warehouse_id b,
            rr_reason = (if sw_is_top b then ''top_warehouse_with_stock'' else ''backup_warehouse_with_stock''),
            rr_considered = misses avail lns ranked @ [sw_warehouse_id b]\<rparr>))"

lemma first_fit_in: "first_fit avail lns bs = Some b \<Longrightarrow> b \<in> set bs \<and> fits avail lns (sw_warehouse_id b)"
  unfolding first_fit_def by (rule find_SomeD)

lemma first_fit_append: "first_fit avail lns (as @ bs) =
    (case first_fit avail lns as of Some b \<Rightarrow> Some b | None \<Rightarrow> first_fit avail lns bs)"
  by (simp add: first_fit_def find_append split: option.splits)

lemma misses_append: "misses avail lns (as @ bs) =
    misses avail lns as @ (if first_fit avail lns as = None then misses avail lns bs else [])"
  by (induction as) (auto simp: misses_def first_fit_def)

lemma set_binding_order [simp]: "set (binding_order bs) = set bs"
  by (simp add: binding_order_def)

lemma insufficient_lines_alt:
  "cache_ok avail c \<Longrightarrow> insufficient_lines avail wh lns c = map (\<lambda>l. \<lparr>in_item_id = rl_item_id l, in_need = rl_qty l,
     in_available = max 0 (avail wh (rl_item_id l))\<rparr>) (filter (\<lambda>l. max 0 (avail wh (rl_item_id l)) < rl_qty l) lns)"
proof (induction lns arbitrary: c)
  case (Cons l ls)
  obtain v c1 where g: "get_avail avail wh (rl_item_id l) c = (v, c1)" by fastforce
  from get_avail_ok [OF Cons.prems g] Cons.IH g Cons.prems show ?case by auto
qed simp

lemma check_whole_order_ok: "ck_status (check_whole_order avail wid lns) = ''OK'' \<longleftrightarrow> 0 < wid \<and> fits avail lns wid"
  by (auto simp: check_whole_order_def Let_def insufficient_lines_alt fits_def list_all_iff filter_empty_conv not_less not_le max_def)

text \<open>The cache does not show: the router is its specification.\<close>

lemma route_route_spec: "route avail ctx lns bindings = route_spec avail ctx lns bindings"
proof -
  let ?scoped = "filter (\<lambda>b. sw_platform b = rc_platform ctx \<and> sw_store_code b = rc_store_code ctx) bindings"
  let ?top = "binding_order (filter sw_is_top ?scoped)"
  let ?backup = "binding_order (filter (\<lambda>b. \<not> sw_is_top b) ?scoped)"
  obtain c where c: "cache_ok avail c" "try_warehouses avail lns ?top [] [] =
      (map_option sw_warehouse_id (first_fit avail lns ?top),
       misses avail lns ?top @ (case first_fit avail lns ?top of None \<Rightarrow> [] | Some b \<Rightarrow> [sw_warehouse_id b]), c)"
    using try_warehouses_first [OF cache_ok_Nil, of avail lns ?top "[]"] by auto
  show ?thesis
  proof (cases "first_fit avail lns ?top")
    case (Some b)
    with first_fit_in [OF Some] c(2) show ?thesis
      by (auto simp: route_def route_spec_def Let_def first_fit_append misses_append)
  next
    case None
    from try_warehouses_first [OF c(1), of lns ?backup "misses avail lns ?top"] obtain c2 where
      t: "try_warehouses avail lns ?backup (misses avail lns ?top) c = (map_option sw_warehouse_id (first_fit avail lns ?backup),
         misses avail lns ?top @ misses avail lns ?backup @
         (case first_fit avail lns ?backup of None \<Rightarrow> [] | Some b \<Rightarrow> [sw_warehouse_id b]), c2)" by blast
    show ?thesis
    proof (cases "first_fit avail lns ?backup")
      case (Some b)
      with first_fit_in [OF Some] c(2) t None show ?thesis
        by (auto simp: route_def route_spec_def Let_def first_fit_append misses_append)
    next
      case None2: None
      with c(2) t None show ?thesis
        by (auto simp: route_def route_spec_def Let_def first_fit_append)
    qed
  qed
qed

section \<open>The rank of a binding\<close>

definition of_store :: "route_ctx \<Rightarrow> store_warehouse_binding \<Rightarrow> bool" where
  "of_store ctx b \<longleftrightarrow> sw_platform b = rc_platform ctx \<and> sw_store_code b = rc_store_code ctx"

text \<open>Top before backup, then the smaller priority, then the smaller warehouse id.\<close>

definition ranks_before :: "store_warehouse_binding \<Rightarrow> store_warehouse_binding \<Rightarrow> bool" where
  "ranks_before a b \<longleftrightarrow> (sw_is_top a \<and> \<not> sw_is_top b) \<or>
     (sw_is_top a = sw_is_top b \<and> (sw_priority a < sw_priority b \<or>
        (sw_priority a = sw_priority b \<and> sw_warehouse_id a < sw_warehouse_id b)))"

lemma ranks_before_total: "\<not> ranks_before a b \<Longrightarrow> \<not> ranks_before b a \<Longrightarrow> sw_warehouse_id a = sw_warehouse_id b"
  by (auto simp: ranks_before_def)

lemma ranks_before_irrefl: "\<not> ranks_before b b"
  by (simp add: ranks_before_def)

lemma binding_order_ranked:
  assumes "\<And>x. x \<in> set bs \<Longrightarrow> sw_is_top x = t"
  shows "sorted_wrt (\<lambda>x y. \<not> ranks_before y x) (binding_order bs)"
proof -
  let ?k = "\<lambda>b. (sw_priority b, sw_warehouse_id b)"
  have "sorted (map ?k (binding_order bs))" by (simp add: binding_order_def)
  then have "sorted_wrt (\<lambda>x y. ?k x \<le> ?k y) (binding_order bs)" by (simp add: sorted_wrt_map)
  then show ?thesis
    by (rule sorted_wrt_mono_rel [rotated]) (use assms in \<open>auto simp: ranks_before_def less_eq_prod_def\<close>)
qed

lemma ranked_sorted:
  "sorted_wrt (\<lambda>x y. \<not> ranks_before y x) (binding_order (filter sw_is_top bs) @ binding_order (filter (\<lambda>b. \<not> sw_is_top b) bs))"
  unfolding sorted_wrt_append
  by (intro conjI binding_order_ranked [where t = True] binding_order_ranked [where t = False]) (auto simp: ranks_before_def)

lemma ranked_mset:
  "mset (binding_order (filter sw_is_top bs) @ binding_order (filter (\<lambda>b. \<not> sw_is_top b) bs)) = mset bs"
  by (simp add: binding_order_def)

lemma find_split: "find p xs = Some b \<Longrightarrow> \<exists>zs. xs = takeWhile (\<lambda>x. \<not> p x) xs @ b # zs"
  by (induction xs) (auto split: if_splits)

text \<open>The bindings passed over are exactly those ranked before the one taken.\<close>

lemma first_fit_ranked:
  assumes sorted: "sorted_wrt (\<lambda>x y. \<not> ranks_before y x) bs" and fit: "first_fit avail lns bs = Some b"
  shows "\<exists>seen. misses avail lns bs = map sw_warehouse_id seen \<and> sorted_wrt (\<lambda>x y. \<not> ranks_before y x) seen \<and>
    seen = filter (\<lambda>x. ranks_before x b) bs \<and> (\<forall>x \<in> set seen. \<not> fits avail lns (sw_warehouse_id x))"
proof -
  let ?seen = "takeWhile (\<lambda>x. \<not> fits avail lns (sw_warehouse_id x)) bs"
  from find_split [OF fit [unfolded first_fit_def]] obtain zs where bs: "bs = ?seen @ b # zs" by blast
  have srt: "sorted_wrt (\<lambda>x y. \<not> ranks_before y x) (?seen @ b # zs)" using sorted bs by metis
  have no: "\<not> fits avail lns (sw_warehouse_id x)" if "x \<in> set ?seen" for x using that by (rule set_takeWhileD [THEN conjunct2])
  have "ranks_before x b" if x: "x \<in> set ?seen" for x
  proof (rule ccontr)
    assume "\<not> ranks_before x b"
    moreover have "\<not> ranks_before b x" using srt x by (simp add: sorted_wrt_append)
    ultimately have "sw_warehouse_id x = sw_warehouse_id b" by (rule ranks_before_total)
    with no [OF x] first_fit_in [OF fit] show False by simp
  qed
  moreover have "\<not> ranks_before z b" if "z \<in> set zs" for z using srt that by (simp add: sorted_wrt_append)
  ultimately have "filter (\<lambda>x. ranks_before x b) (?seen @ b # zs) = ?seen" by (simp add: ranks_before_irrefl filter_id_conv)
  then have "filter (\<lambda>x. ranks_before x b) bs = ?seen" using bs by metis
  with no srt show ?thesis by (intro exI [of _ ?seen]) (simp add: misses_def sorted_wrt_append)
qed

text \<open>The ranked bindings of a store and the first of them that fits.\<close>

definition ranked :: "route_ctx \<Rightarrow> store_warehouse_binding list \<Rightarrow> store_warehouse_binding list" where
  "ranked ctx bindings = (let scoped = filter (of_store ctx) bindings in
     binding_order (filter sw_is_top scoped) @ binding_order (filter (\<lambda>b. \<not> sw_is_top b) scoped))"

lemma mset_ranked: "mset (ranked ctx bindings) = mset (filter (of_store ctx) bindings)"
  unfolding ranked_def Let_def ranked_mset ..

lemma set_ranked: "set (ranked ctx bindings) = {b \<in> set bindings. of_store ctx b}"
  using mset_eq_setD [OF mset_ranked [of ctx bindings]] by auto

lemma route_ranked:
  "route avail ctx lns bindings =
     (if \<forall>b \<in> set bindings. \<not> of_store ctx b then Inl NoWarehouseConfigured
      else (case first_fit avail lns (ranked ctx bindings) of None \<Rightarrow> Inl NoWarehouseCanFulfill
        | Some b \<Rightarrow> Inr \<lparr>rr_warehouse_id = sw_warehouse_id b,
            rr_reason = (if sw_is_top b then ''top_warehouse_with_stock'' else ''backup_warehouse_with_stock''),
            rr_considered = misses avail lns (ranked ctx bindings) @ [sw_warehouse_id b]\<rparr>))"
proof -
  have "filter (\<lambda>b. sw_platform b = rc_platform ctx \<and> sw_store_code b = rc_store_code ctx) bindings =
      filter (of_store ctx) bindings" by (simp add: of_store_def [abs_def])
  moreover have "filter (of_store ctx) bindings = [] \<longleftrightarrow> (\<forall>b \<in> set bindings. \<not> of_store ctx b)"
    by (simp add: filter_empty_conv)
  ultimately show ?thesis
    by (simp only: route_route_spec route_spec_def ranked_def Let_def)
qed

lemma first_fit_considered:
  assumes "first_fit avail lns (ranked ctx bindings) = Some b"
  shows "(\<forall>b' \<in> set bindings. of_store ctx b' \<and> fits avail lns (sw_warehouse_id b') \<longrightarrow> \<not> ranks_before b' b) \<and>
    (\<exists>seen. misses avail lns (ranked ctx bindings) = map sw_warehouse_id seen \<and>
       sorted_wrt (\<lambda>x y. \<not> ranks_before y x) seen \<and>
       mset seen = mset (filter (\<lambda>x. of_store ctx x \<and> ranks_before x b) bindings))"
proof -
  have "sorted_wrt (\<lambda>x y. \<not> ranks_before y x) (ranked ctx bindings)"
    unfolding ranked_def Let_def by (rule ranked_sorted)
  from first_fit_ranked [OF this assms] obtain seen where
    seen: "misses avail lns (ranked ctx bindings) = map sw_warehouse_id seen" "sorted_wrt (\<lambda>x y. \<not> ranks_before y x) seen"
      "seen = filter (\<lambda>x. ranks_before x b) (ranked ctx bindings)" "\<forall>x \<in> set seen. \<not> fits avail lns (sw_warehouse_id x)" by blast
  have "mset seen = filter_mset (\<lambda>x. ranks_before x b) (mset (ranked ctx bindings))" by (simp only: seen(3) mset_filter)
  also have "\<dots> = mset (filter (\<lambda>x. of_store ctx x \<and> ranks_before x b) bindings)"
    unfolding mset_ranked mset_filter filter_filter_mset by (simp add: conj_commute)
  finally have ms: "mset seen = mset (filter (\<lambda>x. of_store ctx x \<and> ranks_before x b) bindings)" .
  have sset: "set seen = {x \<in> set (ranked ctx bindings). ranks_before x b}" by (simp only: seen(3) set_filter)
  have "\<not> ranks_before b' b" if "b' \<in> set bindings" "of_store ctx b'" "fits avail lns (sw_warehouse_id b')" for b'
    using that seen(4) unfolding sset set_ranked by blast
  with seen(1,2) ms show ?thesis by blast
qed

text \<open>
  C40. Routing picks the right warehouse. The router, cache and all, fails as not configured exactly
  when no binding belongs to the store; it fails as not fulfillable exactly when the store has
  bindings but no bound warehouse covers every line; otherwise it takes a binding of the store whose
  warehouse covers every line and which no other such binding precedes in rank (top bindings before
  backups, then the smaller priority, then the smaller warehouse id), names the reason by the kind of
  that binding and reports, in rank order, the warehouses of exactly the bindings ranked before it
  and then its own.
\<close>

theorem route_is_first_fit:
  "case route avail ctx lns bindings of
     Inl NoWarehouseConfigured \<Rightarrow> \<forall>b \<in> set bindings. \<not> of_store ctx b
   | Inl NoWarehouseCanFulfill \<Rightarrow> (\<exists>b \<in> set bindings. of_store ctx b) \<and>
       (\<forall>b \<in> set bindings. of_store ctx b \<longrightarrow> \<not> fits avail lns (sw_warehouse_id b))
   | Inr r \<Rightarrow> (\<exists>b \<in> set bindings. of_store ctx b \<and> fits avail lns (sw_warehouse_id b) \<and>
       (\<forall>b' \<in> set bindings. of_store ctx b' \<and> fits avail lns (sw_warehouse_id b') \<longrightarrow> \<not> ranks_before b' b) \<and>
       rr_warehouse_id r = sw_warehouse_id b \<and>
       rr_reason r = (if sw_is_top b then ''top_warehouse_with_stock'' else ''backup_warehouse_with_stock'') \<and>
       (\<exists>seen. rr_considered r = map sw_warehouse_id seen @ [sw_warehouse_id b] \<and>
          sorted_wrt (\<lambda>x y. \<not> ranks_before y x) seen \<and>
          mset seen = mset (filter (\<lambda>x. of_store ctx x \<and> ranks_before x b) bindings)))"
proof (cases "\<forall>b \<in> set bindings. \<not> of_store ctx b")
  case True
  then show ?thesis by (simp add: route_ranked)
next
  case some: False
  show ?thesis
  proof (cases "first_fit avail lns (ranked ctx bindings)")
    case None
    then have "\<forall>b \<in> set bindings. of_store ctx b \<longrightarrow> \<not> fits avail lns (sw_warehouse_id b)"
      using set_ranked [of ctx bindings] unfolding first_fit_def find_None_iff_all by blast
    with some None show ?thesis by (auto simp: route_ranked)
  next
    case (Some b)
    have b: "b \<in> set bindings" "of_store ctx b" "fits avail lns (sw_warehouse_id b)"
      using first_fit_in [OF Some] set_ranked [of ctx bindings] by blast+
    have "route avail ctx lns bindings = Inr \<lparr>rr_warehouse_id = sw_warehouse_id b,
        rr_reason = (if sw_is_top b then ''top_warehouse_with_stock'' else ''backup_warehouse_with_stock''),
        rr_considered = misses avail lns (ranked ctx bindings) @ [sw_warehouse_id b]\<rparr>"
      unfolding route_ranked if_not_P [OF some] Some option.case ..
    with b first_fit_considered [OF Some] show ?thesis by auto
  qed
qed

definition two_warehouses :: "store_warehouse_binding list" where
  "two_warehouses = map (\<lambda>(w, top, n). \<lparr>sw_platform = ''PDD'', sw_store_code = ''S1'', sw_warehouse_id = w,
     sw_is_top = top, sw_priority = n\<rparr>) [(9, False, 1), (8, False, 2), (7, True, 5)]"

lemma route_is_first_fit_witness:
  "\<exists>r. route (\<lambda>w i. if w = 7 then 3 else 5) \<lparr>rc_platform = ''PDD'', rc_store_code = ''S1''\<rparr> [\<lparr>rl_item_id = 1, rl_qty = 4\<rparr>]
     two_warehouses = Inr r \<and> rr_warehouse_id r = 9 \<and> rr_reason r = ''backup_warehouse_with_stock'' \<and> rr_considered r = [7, 9]"
proof -
  let ?run = "route (\<lambda>w i. if w = 7 then 3 else 5) \<lparr>rc_platform = ''PDD'', rc_store_code = ''S1''\<rparr> [\<lparr>rl_item_id = 1, rl_qty = 4\<rparr>]
     two_warehouses"
  have "returns ?run (\<lambda>r. rr_considered r = [7, 9])" by code_simp
  then obtain r where r: "?run = Inr r" "rr_considered r = [7, 9]" by (auto simp: returns_iff)
  from route_is_first_fit [where avail = "\<lambda>w i. if w = 7 then 3 else 5" and lns = "[\<lparr>rl_item_id = 1, rl_qty = 4\<rparr>]" and
      ctx = "\<lparr>rc_platform = ''PDD'', rc_store_code = ''S1''\<rparr>" and bindings = two_warehouses] r
  have "rr_warehouse_id r = 9 \<and> rr_reason r = ''backup_warehouse_with_stock''"
    by (auto simp: two_warehouses_def ranks_before_def fits_def of_store_def)
  with r show ?thesis by blast
qed

text \<open>
  Every line is compared with the stock by itself, so two lines of one item are delivered from the
  same pieces: the warehouse below has five, the order asks for eight.
\<close>

lemma route_counts_stock_twice:
  "route (\<lambda>w i. 5) \<lparr>rc_platform = ''PDD'', rc_store_code = ''S1''\<rparr>
     [\<lparr>rl_item_id = 1, rl_qty = 4\<rparr>, \<lparr>rl_item_id = 1, rl_qty = 4\<rparr>]
     [\<lparr>sw_platform = ''PDD'', sw_store_code = ''S1'', sw_warehouse_id = 7, sw_is_top = True, sw_priority = 1\<rparr>] =
   Inr \<lparr>rr_warehouse_id = 7, rr_reason = ''top_warehouse_with_stock'', rr_considered = [7]\<rparr>"
  by code_simp

end
