(* ===== verification/Fulfilment.thy ===== *)
theory Fulfilment
  imports OrderFlow Routing
begin

text \<open>
  The fulfilment record of an order, \<open>wms/outbound/services/order_fulfillment_*.py\<close> and its route: a
  warehouse is assigned by hand, the order is committed for shipping and marked as shipped. The
  availability page (\<open>order_warehouse_availability.py\<close>) compares the needs of an order with the
  stock of warehouses. Audit events are not modelled.
\<close>

section \<open>order\_fulfillment\_service.py\<close>

definition stage_ship :: "string option \<Rightarrow> string option" where
  "stage_ship st = (case st of None \<Rightarrow> Some ''SHIP''
     | Some x \<Rightarrow> if x = ''PICK'' then Some ''SHIP'' else if x = ''SHIP'' then Some ''SHIP'' else Some x)"

definition coalesce_opt :: "'a option \<Rightarrow> 'a \<Rightarrow> 'a option" where
  "coalesce_opt v x = (case v of None \<Rightarrow> Some x | Some y \<Rightarrow> Some y)"

definition set_fulfillment :: "int \<Rightarrow> (order_fulfillment \<Rightarrow> order_fulfillment) \<Rightarrow> sales \<Rightarrow> sales" where
  "set_fulfillment oid upd s = s\<lparr>so_fulfillments := update_where (\<lambda>f. of_order_id f = oid) upd (so_fulfillments s)\<rparr>"

text \<open>Both return whether the fact was there before, and its time.\<close>

definition ensure_ship_committed :: "int \<Rightarrow> int \<Rightarrow> int \<Rightarrow> (bool \<times> int) sx" where
  "ensure_ship_committed order_id wh at s =
     (case find_fulfillment s order_id of
        None \<Rightarrow>
          if order_id \<notin> or_id ` set (t_orders (so_core s)) \<or> \<not> known_warehouse s (Some wh)
          then Inl (IntegrityError ''order_fulfillment foreign key'')
          else Inr ((False, at), s\<lparr>so_fulfillments := so_fulfillments s @
            [\<lparr>of_order_id = order_id, of_planned_warehouse_id = None, of_actual_warehouse_id = Some wh,
              of_fulfillment_status = None, of_blocked_reasons = None, of_execution_stage = Some ''SHIP'',
              of_ship_committed_at = Some at, of_shipped_at = None, of_updated_at = at\<rparr>]\<rparr>)
      | Some f \<Rightarrow>
          if (case of_actual_warehouse_id f of None \<Rightarrow> False | Some w \<Rightarrow> w \<noteq> wh)
          then Inl (HTTPException 409 ''fulfillment_warehouse_conflict'')
          else if of_actual_warehouse_id f = None \<and> \<not> known_warehouse s (Some wh)
          then Inl (IntegrityError ''order_fulfillment foreign key'')
          else Inr ((of_ship_committed_at f \<noteq> None, (case of_ship_committed_at f of None \<Rightarrow> at | Some t \<Rightarrow> t)),
            set_fulfillment order_id (\<lambda>f. f\<lparr>of_actual_warehouse_id := coalesce_opt (of_actual_warehouse_id f) wh,
              of_ship_committed_at := coalesce_opt (of_ship_committed_at f) at,
              of_execution_stage := stage_ship (of_execution_stage f), of_updated_at := at\<rparr>) s))"

definition mark_shipped :: "int \<Rightarrow> int \<Rightarrow> (bool \<times> int) sx" where
  "mark_shipped order_id at s =
     (case find_fulfillment s order_id of
        None \<Rightarrow> Inl (HTTPException 409 ''fulfillment_missing'')
      | Some f \<Rightarrow> (case of_shipped_at f of
          Some t \<Rightarrow> Inr ((True, t), set_fulfillment order_id
            (\<lambda>f. f\<lparr>of_execution_stage := stage_ship (of_execution_stage f), of_updated_at := at\<rparr>) s)
        | None \<Rightarrow>
            if of_ship_committed_at f = None then Inl (HTTPException 409 ''fulfillment_invalid_transition'')
            else Inr ((False, at), set_fulfillment order_id
              (\<lambda>f. f\<lparr>of_shipped_at := coalesce_opt (of_shipped_at f) at,
                     of_execution_stage := stage_ship (of_execution_stage f), of_updated_at := at\<rparr>) s)))"

section \<open>order\_warehouse\_availability.py\<close>

record availability_cell =
  ac_warehouse_id :: int
  ac_item_id :: int
  ac_available :: int
  ac_shortage :: int
  ac_status :: string

definition item_sums :: "sales \<Rightarrow> int \<Rightarrow> (int \<times> int) list" where
  "item_sums s oid =
     (let rows = filter (\<lambda>x. oi_order_id x = oid) (so_order_items s) in
      map (\<lambda>i. (i, sum_where (\<lambda>x. oi_item_id x = i) oi_qty rows)) (sort (remdups (map oi_item_id rows))))"

definition load_order_need_lines :: "sales \<Rightarrow> int \<Rightarrow> route_line list" where
  "load_order_need_lines s oid = map (\<lambda>(i, q). \<lparr>rl_item_id = i, rl_qty = q\<rparr>)
     (filter (\<lambda>(i, q). 0 < i \<and> 0 < q) (item_sums s oid))"

definition availability_cells :: "db \<Rightarrow> route_line list \<Rightarrow> int \<Rightarrow> availability_cell list" where
  "availability_cells d needs wid =
     (let avail_map = get_available_for_items d wid (map rl_item_id needs) in
      map (\<lambda>l. let raw = qty_of avail_map (rl_item_id l);
                   available = (if 0 \<le> raw then raw else 0);
                   shortage = max (rl_qty l - available) 0 in
         \<lparr>ac_warehouse_id = wid, ac_item_id = rl_item_id l, ac_available = available, ac_shortage = shortage,
          ac_status = (if shortage = 0 then ''ENOUGH'' else ''SHORTAGE'')\<rparr>) needs)"

fun distinct_warehouses :: "int list \<Rightarrow> int set \<Rightarrow> int list" where
  "distinct_warehouses [] seen = []"
| "distinct_warehouses (w # ws) seen =
     (if w \<le> 0 \<or> w \<in> seen then distinct_warehouses ws seen else w # distinct_warehouses ws (insert w seen))"

definition build_matrix :: "sales \<Rightarrow> int \<Rightarrow> int list \<Rightarrow> route_line list \<times> availability_cell list" where
  "build_matrix s oid ws =
     (let needs = load_order_need_lines s oid in
      if needs = [] then ([], [])
      else (needs, concat (map (availability_cells (so_core s) needs) (distinct_warehouses ws {}))))"

section \<open>order\_fulfillment\_manual\_assign.py\<close>

definition load_order_lines_sum :: "sales \<Rightarrow> int \<Rightarrow> route_line list" where
  "load_order_lines_sum s oid = map (\<lambda>(i, q). \<lparr>rl_item_id = i, rl_qty = q\<rparr>) (filter (\<lambda>(i, q). 0 < q) (item_sums s oid))"

text \<open>The order, its warehouse before, and what is short; the last only goes to the audit event.\<close>

definition manual_assign_fulfillment_warehouse ::
  "int \<Rightarrow> string \<Rightarrow> string \<Rightarrow> string \<Rightarrow> int \<Rightarrow> string \<Rightarrow> (int \<times> int option \<times> insufficient_line list) sx" where
  "manual_assign_fulfillment_warehouse now platform store_code ext wid reason s =
     (let plat = py_strip (py_upper platform); sid = py_strip store_code in
      if wid \<le> 0 then Inl (ValueError ''warehouse_id must be > 0'')
      else if py_strip reason = [] then Inl (ValueError ''reason is required'')
      else (case find_order (so_core s) plat sid ext of
          None \<Rightarrow> Inl (ValueError ''order not found'')
        | Some h \<Rightarrow>
            let oid = or_id h; lns = load_order_lines_sum s oid;
                from_wh = (case find_fulfillment s oid of None \<Rightarrow> None | Some f \<Rightarrow> of_actual_warehouse_id f) in
            if lns = [] then Inl (ValueError ''order has no lines'')
            else if \<not> known_warehouse s (Some wid) then Inl (IntegrityError ''order_fulfillment foreign key'')
            else
              Inr ((oid, from_wh, ck_insufficient (check_whole_order (stock_availability (so_core s)) wid lns)),
                if find_fulfillment s oid \<noteq> None
                then set_fulfillment oid (\<lambda>f. f\<lparr>of_actual_warehouse_id := Some wid,
                  of_fulfillment_status := Some ''MANUALLY_ASSIGNED'', of_blocked_reasons := None, of_updated_at := now\<rparr>) s
                else s\<lparr>so_fulfillments := so_fulfillments s @
                  [\<lparr>of_order_id = oid, of_planned_warehouse_id = None, of_actual_warehouse_id = Some wid,
                    of_fulfillment_status = Some ''MANUALLY_ASSIGNED'', of_blocked_reasons = None,
                    of_execution_stage = None, of_ship_committed_at = None, of_shipped_at = None, of_updated_at = now\<rparr>]\<rparr>)))"

definition fulfillment_manual_assign ::
  "int \<Rightarrow> string \<Rightarrow> string \<Rightarrow> string \<Rightarrow> int \<Rightarrow> string \<Rightarrow> (int \<times> int option \<times> insufficient_line list) sx" where
  "fulfillment_manual_assign now platform store_code ext wid reason s =
     (if wid < 1 \<or> reason = [] then Inl (HTTPException 422 ''request validation error'')
      else (case manual_assign_fulfillment_warehouse now (py_upper platform) store_code ext wid reason s of
          Inl (ValueError m) \<Rightarrow> Inl (HTTPException 409 m)
        | r \<Rightarrow> r))"

end
