(* ===== verification/RegionRuns.thy ===== *)
theory RegionRuns
  imports Regions
begin

text \<open>
  What the service areas and the routing of orders satisfy: names normalise once and for all,
  provinces and cities belong to one warehouse, and the route of an order is decided by them.
\<close>

section \<open>Names\<close>

definition wide_space :: string where
  "wide_space = [CHR 0xE3, CHR 0x80, CHR 0x80]"

lemma narrow_spaces_id: "\<not> sublist wide_space x \<Longrightarrow> narrow_spaces x = x"
  by (induction x rule: narrow_spaces.induct) (auto simp: wide_space_def sublist_Cons_right)

lemma narrow_spaces_starts:
  "narrow_spaces x = CHR 0x80 # t \<Longrightarrow> \<exists>y. x = CHR 0x80 # y \<and> t = narrow_spaces y"
proof -
  assume n: "narrow_spaces x = CHR 0x80 # t"
  show ?thesis
  proof (cases x rule: narrow_spaces.cases)
    case (1 a b c xs)
    show ?thesis
    proof (cases "a = CHR 0xE3 \<and> b = CHR 0x80 \<and> c = CHR 0x80")
      case True
      with n 1 show ?thesis by simp
    next
      case False
      with n have "a = CHR 0x80 \<and> t = narrow_spaces (b # c # xs)" unfolding 1 narrow_spaces.simps(1) by (simp only: if_False list.inject)
      with 1 show ?thesis by blast
    qed
  qed (use n in auto)
qed

lemma narrow_spaces_free: "\<not> sublist wide_space (narrow_spaces x)"
proof (induction x rule: narrow_spaces.induct)
  case (1 a b c xs)
  show ?case
  proof (cases "a = CHR 0xE3 \<and> b = CHR 0x80 \<and> c = CHR 0x80")
    case True
    with 1(1) show ?thesis by (simp add: wide_space_def sublist_Cons_right)
  next
    case False
    then have eq: "narrow_spaces (a # b # c # xs) = a # narrow_spaces (b # c # xs)"
      unfolding narrow_spaces.simps(1) by (simp only: if_False)
    have "\<not> prefix wide_space (a # narrow_spaces (b # c # xs))"
    proof
      assume "prefix wide_space (a # narrow_spaces (b # c # xs))"
      then obtain t where t: "a = CHR 0xE3" "narrow_spaces (b # c # xs) = CHR 0x80 # CHR 0x80 # t"
        unfolding wide_space_def prefix_def by force
      from narrow_spaces_starts [OF t(2)] have b: "b = CHR 0x80" "narrow_spaces (c # xs) = CHR 0x80 # t" by simp_all
      from narrow_spaces_starts [OF b(2)] have "c = CHR 0x80" by simp
      with False t(1) b(1) show False by blast
    qed
    with 1(2) [OF False] show ?thesis unfolding eq sublist_Cons_right by blast
  qed
qed (simp_all add: wide_space_def sublist_Cons_right)

lemma sublist_py_strip: "sublist (py_strip x) x"
proof -
  have "sublist (dropWhile is_space (rev (dropWhile is_space x))) (rev (dropWhile is_space x))" by simp
  then have "sublist (py_strip x) (dropWhile is_space x)" by (simp add: py_strip_def sublist_rev_left)
  then show ?thesis using sublist_dropWhile sublist_order.order_trans by blast
qed

lemma cleaned_name: "narrow_spaces (py_strip (narrow_spaces x)) = py_strip (narrow_spaces x)"
  using narrow_spaces_free [of x] sublist_py_strip [of "narrow_spaces x"]
  by (intro narrow_spaces_id) (meson sublist_order.order_trans)

lemma narrow_spaces_ascii: "CHR 0xE3 \<notin> set x \<Longrightarrow> narrow_spaces x = x"
  by (rule narrow_spaces_id) (auto simp: wide_space_def sublist_def)

lemma py_strip_ends: "x \<noteq> [] \<Longrightarrow> \<not> is_space (hd x) \<Longrightarrow> \<not> is_space (last x) \<Longrightarrow> py_strip x = x"
proof -
  assume x: "x \<noteq> []" "\<not> is_space (hd x)" "\<not> is_space (last x)"
  from x have "dropWhile is_space x = x" by (cases x) auto
  moreover from x have "dropWhile is_space (rev x) = rev x" by (cases x rule: rev_cases) auto
  ultimately show ?thesis by (simp add: py_strip_def)
qed

lemma canonical_clean: "c \<in> set canonical_provinces \<Longrightarrow> py_strip (narrow_spaces c) = c \<and> c \<noteq> []"
proof -
  have "list_all (\<lambda>c. CHR 0xE3 \<notin> set c \<and> c \<noteq> [] \<and> \<not> is_space (hd c) \<and> \<not> is_space (last c)) canonical_provinces"
    by code_simp
  then show "c \<in> set canonical_provinces \<Longrightarrow> py_strip (narrow_spaces c) = c \<and> c \<noteq> []"
    by (auto simp: list_all_iff narrow_spaces_ascii py_strip_ends)
qed

lemma aliases_canonical: "map_of province_aliases x = Some c \<Longrightarrow> c \<in> set canonical_provinces"
proof -
  have "list_all (\<lambda>(a, c). c \<in> set canonical_provinces) province_aliases" by code_simp
  then show "map_of province_aliases x = Some c \<Longrightarrow> c \<in> set canonical_provinces"
    by (auto simp: list_all_iff dest: map_of_SomeD)
qed

lemma normalize_cases:
  assumes "normalize_province_name (Some x) = Some y"
  obtains (canonical) "y \<in> set canonical_provinces"
  | (other) "y = py_strip (narrow_spaces x)" "y \<noteq> []" "y \<notin> set canonical_provinces" "map_of province_aliases y = None"
      "find (\<lambda>c. c \<in> set canonical_provinces) (map (\<lambda>suf. y @ suf) province_suffixes) = None"
  using assms
  by (auto simp: normalize_province_name_def Let_def dest: aliases_canonical find_SomeD split: if_splits option.splits)

lemma normalize_canonical: "c \<in> set canonical_provinces \<Longrightarrow> normalize_province_name (Some c) = Some c"
  using canonical_clean by (simp add: normalize_province_name_def)

lemma normalize_fixed: "normalize_province_name (normalize_province_name v) = normalize_province_name v"
proof (cases "normalize_province_name v")
  case None
  then show ?thesis by (simp add: normalize_province_name_def)
next
  case (Some y)
  then obtain x where "normalize_province_name (Some x) = Some y" by (cases v) (auto simp: normalize_province_name_def)
  then show ?thesis
  proof (cases rule: normalize_cases)
    case canonical
    with Some normalize_canonical show ?thesis by simp
  next
    case other
    with cleaned_name [of x] have "py_strip (narrow_spaces y) = y" by simp
    with other Some show ?thesis by (simp add: normalize_province_name_def)
  qed
qed

text \<open>
  What the normalisation returns it returns again; it forgets only blank input, and every alias
  leads to one of the 34 canonical names.
\<close>

theorem normalize_idempotent:
  "normalize_province_name (normalize_province_name v) = normalize_province_name v \<and>
   (normalize_province_name v = None) = (v = None \<or> py_strip (narrow_spaces (the v)) = []) \<and>
   list_all (\<lambda>(a, c). normalize_province_name (Some a) = Some c \<and> c \<in> set canonical_provinces) province_aliases"
proof (intro conjI normalize_fixed)
  show "(normalize_province_name v = None) = (v = None \<or> py_strip (narrow_spaces (the v)) = [])"
    by (cases v) (auto simp: normalize_province_name_def Let_def split: option.splits)
  show "list_all (\<lambda>(a, c). normalize_province_name (Some a) = Some c \<and> c \<in> set canonical_provinces) province_aliases"
    by code_simp
qed

section \<open>Service areas\<close>

definition region_inv :: "regions \<Rightarrow> bool" where
  "region_inv r \<longleftrightarrow>
     distinct (map sp_province_code (rg_provinces r)) \<and> distinct (map sc_city_code (rg_cities r)) \<and>
     sp_warehouse_id ` set (rg_provinces r) \<subseteq> set (rg_warehouses r) \<and>
     sc_warehouse_id ` set (rg_cities r) \<subseteq> set (rg_warehouses r) \<and>
     (\<forall>c \<in> set (rg_cities r). sc_province_code c = None) \<and> (\<forall>w \<in> set (rg_warehouses r). 0 < w)"

inductive region_step :: "regions \<Rightarrow> regions \<Rightarrow> bool" where
  provinces: "put_service_provinces wid raw r = Inr (ps, r') \<Longrightarrow> region_step r r'"
| cities: "put_service_cities wid raw r = Inr (cs, r') \<Longrightarrow> region_step r r'"
| split: "put_city_split_provinces raw r = (ps, r') \<Longrightarrow> region_step r r'"

lemma distinct_normalize_codes [simp]: "distinct (normalize_codes raw)"
  by (simp add: normalize_codes_def)

lemma put_provinces_Inr:
  assumes "put_service_provinces wid raw r = Inr (ps, r')"
  shows "wid \<in> set (rg_warehouses r) \<and> ps = normalize_codes raw \<and>
    (\<forall>x \<in> set (rg_provinces r). sp_province_code x \<in> set ps \<longrightarrow> sp_warehouse_id x = wid) \<and>
    r' = r\<lparr>rg_provinces := filter (\<lambda>x. sp_warehouse_id x \<noteq> wid) (rg_provinces r) @
       map (\<lambda>p. \<lparr>sp_warehouse_id = wid, sp_province_code = p\<rparr>) ps\<rparr>"
  using assms by (auto simp: put_service_provinces_def ensure_warehouse_exists_def Let_def list_ex_iff split: if_splits)

lemma put_cities_Inr:
  assumes "put_service_cities wid raw r = Inr (cs, r')"
  shows "wid \<in> set (rg_warehouses r) \<and> cs = normalize_codes raw \<and>
    (\<forall>x \<in> set (rg_cities r). sc_city_code x \<in> set cs \<longrightarrow> sc_warehouse_id x = wid) \<and>
    r' = r\<lparr>rg_cities := filter (\<lambda>x. sc_warehouse_id x \<noteq> wid) (rg_cities r) @
       map (\<lambda>c. \<lparr>sc_warehouse_id = wid, sc_province_code = None, sc_city_code = c\<rparr>) cs\<rparr>"
  using assms by (auto simp: put_service_cities_def ensure_warehouse_exists_def Let_def list_ex_iff split: if_splits)

lemma region_step_inv: "region_step r r' \<Longrightarrow> region_inv r \<Longrightarrow> region_inv r'"
proof (induction rule: region_step.induct)
  case (provinces wid raw r ps r')
  note P = put_provinces_Inr [OF provinces(1)]
  from P have r': "r' = r\<lparr>rg_provinces := filter (\<lambda>x. sp_warehouse_id x \<noteq> wid) (rg_provinces r) @
       map (\<lambda>p. \<lparr>sp_warehouse_id = wid, sp_province_code = p\<rparr>) ps\<rparr>" by blast
  from P provinces(2) show ?case unfolding r' region_inv_def
    by (auto simp: comp_def distinct_map_filter image_iff)
next
  case (cities wid raw r cs r')
  note P = put_cities_Inr [OF cities(1)]
  from P have r': "r' = r\<lparr>rg_cities := filter (\<lambda>x. sc_warehouse_id x \<noteq> wid) (rg_cities r) @
       map (\<lambda>c. \<lparr>sc_warehouse_id = wid, sc_province_code = None, sc_city_code = c\<rparr>) cs\<rparr>" by blast
  from P cities(2) show ?case unfolding r' region_inv_def
    by (auto simp: comp_def distinct_map_filter image_iff)
next
  case (split raw r ps r')
  then have r': "r' = r\<lparr>rg_split := normalize_codes raw, rg_provinces :=
      filter (\<lambda>x. sp_province_code x \<notin> set (normalize_codes raw)) (rg_provinces r)\<rparr>"
    by (auto simp: put_city_split_provinces_def Let_def)
  from split(2) show ?case unfolding r' region_inv_def by (simp add: distinct_map_filter image_subset_iff)
qed

lemma region_run_inv: "region_step\<^sup>*\<^sup>* r r' \<Longrightarrow> region_inv r \<Longrightarrow> region_inv r'"
  by (induction rule: rtranclp_induct) (auto intro: region_step_inv)

definition served_by :: "regions \<Rightarrow> string \<Rightarrow> int \<Rightarrow> bool" where
  "served_by r p w \<longleftrightarrow> \<lparr>sp_warehouse_id = w, sp_province_code = p\<rparr> \<in> set (rg_provinces r)"

lemma province_lookup:
  assumes "region_inv r"
  shows "load_service_warehouse_by_province r p = Some w \<longleftrightarrow> served_by r p w"
proof
  assume "load_service_warehouse_by_province r p = Some w"
  then show "served_by r p w"
    by (auto simp: load_service_warehouse_by_province_def positive_id_def served_by_def dest!: find_SomeD split: option.splits if_splits)
      (metis service_province.surjective old.unit.exhaust)
next
  assume s: "served_by r p w"
  then have "find (\<lambda>x. sp_province_code x = p) (rg_provinces r) = Some \<lparr>sp_warehouse_id = w, sp_province_code = p\<rparr>"
    using assms find_unique_key [of sp_province_code "rg_provinces r"] by (fastforce simp: served_by_def region_inv_def)
  moreover from s assms have "0 < w" by (force simp: served_by_def region_inv_def)
  ultimately show "load_service_warehouse_by_province r p = Some w"
    by (simp add: load_service_warehouse_by_province_def positive_id_def)
qed

lemma no_city_lookup: "region_inv r \<Longrightarrow> load_service_warehouse_by_city r p c = None"
  by (auto simp: load_service_warehouse_by_city_def region_inv_def dest!: find_SomeD split: option.splits)

text \<open>
  C37. The route of an order. In every state the service area routes reach, a province belongs to
  at most one warehouse, and an order is assigned exactly to the warehouse that serves the
  province of its address, unless that province is split by cities; every other order is blocked.
\<close>

theorem route_by_province:
  assumes "region_step\<^sup>*\<^sup>* r0 r" "region_inv r0"
  shows "(\<forall>p w w'. served_by r p w \<and> served_by r p w' \<longrightarrow> w = w') \<and>
    (\<forall>env addr. case fst (resolve_route_address env addr) of
        None \<Rightarrow> resolve_route_payload env r addr = blocked_route ''province'' ''PROVINCE_MISSING_OR_INVALID''
      | Some p \<Rightarrow> (\<forall>w. rp_service_warehouse_id (resolve_route_payload env r addr) = Some w \<longleftrightarrow>
            served_by r p w \<and> p \<notin> set (rg_split r)) \<and>
          (rp_status (resolve_route_payload env r addr) = Some ''SERVICE_ASSIGNED'' \<longleftrightarrow>
            (\<exists>w. served_by r p w) \<and> p \<notin> set (rg_split r)))"
proof -
  from region_run_inv [OF assms] have inv: "region_inv r" .
  have one: "\<forall>p w w'. served_by r p w \<and> served_by r p w' \<longrightarrow> w = w'"
    using province_lookup [OF inv] by (metis option.inject)
  show ?thesis
  proof (intro conjI one allI)
    fix env addr
    show "case fst (resolve_route_address env addr) of
        None \<Rightarrow> resolve_route_payload env r addr = blocked_route ''province'' ''PROVINCE_MISSING_OR_INVALID''
      | Some p \<Rightarrow> (\<forall>w. rp_service_warehouse_id (resolve_route_payload env r addr) = Some w \<longleftrightarrow>
            served_by r p w \<and> p \<notin> set (rg_split r)) \<and>
          (rp_status (resolve_route_payload env r addr) = Some ''SERVICE_ASSIGNED'' \<longleftrightarrow>
            (\<exists>w. served_by r p w) \<and> p \<notin> set (rg_split r))"
      by (cases "resolve_route_address env addr")
        (auto simp: resolve_route_payload_def blocked_route_def assigned_route_def is_city_split_province_def
          no_city_lookup [OF inv] province_lookup [OF inv, symmetric] split: option.splits)
  qed
qed

definition sample_regions :: regions where
  "sample_regions = \<lparr>rg_warehouses = [7, 8], rg_provinces = [], rg_cities = [], rg_split = []\<rparr>"

definition after_put :: "regions \<Rightarrow> (error + 'a \<times> regions) \<Rightarrow> regions" where
  "after_put r x = (case x of Inl e \<Rightarrow> r | Inr (a, r') \<Rightarrow> r')"

definition hebei :: string where "hebei = [CHR 0xE6, CHR 0xB2, CHR 0xB3, CHR 0xE5, CHR 0x8C, CHR 0x97, CHR 0xE7, CHR 0x9C, CHR 0x81]"

definition served_regions :: regions where
  "served_regions = after_put sample_regions (put_service_provinces 7 [hebei, ''P2''] sample_regions)"

definition hebei_order :: "address option" where
  "hebei_order = Some [(''province'', [CHR 0xE6, CHR 0xB2, CHR 0xB3, CHR 0xE5, CHR 0x8C, CHR 0x97]), (''city'', ''C1'')]"

lemma after_put_step: "returns x (\<lambda>_. True) \<Longrightarrow> \<exists>a. x = Inr (a, after_put r x)"
  by (auto simp: after_put_def returns_iff)

lemma sample_regions_inv: "region_inv sample_regions"
  by (simp add: region_inv_def sample_regions_def)

lemma served_regions_step: "region_step\<^sup>*\<^sup>* sample_regions served_regions"
proof -
  have "returns (put_service_provinces 7 [hebei, ''P2''] sample_regions) (\<lambda>_. True)" by code_simp
  from after_put_step [OF this, of sample_regions] show ?thesis
    unfolding served_regions_def by (auto intro: region_step.provinces)
qed

lemma route_by_province_witness:
  "rp_service_warehouse_id (resolve_route_payload (None, None) served_regions hebei_order) = Some 7"
proof -
  have a: "fst (resolve_route_address (None, None) hebei_order) = Some hebei" by code_simp
  note R = conjunct2 [OF route_by_province [OF served_regions_step sample_regions_inv]]
  from spec [OF spec [OF R, of "(None, None)"], of hebei_order] have
    "\<forall>w. rp_service_warehouse_id (resolve_route_payload (None, None) served_regions hebei_order) = Some w \<longleftrightarrow>
       served_by served_regions hebei w \<and> hebei \<notin> set (rg_split served_regions)"
    unfolding a option.case by (rule conjunct1)
  moreover have "list_ex (\<lambda>x. x = \<lparr>sp_warehouse_id = 7, sp_province_code = hebei\<rparr>) (rg_provinces served_regions)"
    "hebei \<notin> set (rg_split served_regions)" by code_simp+
  ultimately show ?thesis by (simp add: served_by_def list_ex_iff)
qed

text \<open>
  The service area routes only strip the codes they store, the route of an order normalises its
  province: a warehouse registered under a name that the normalisation changes, such as a province
  without its suffix, is never found by any order, not even by one that spells it the same way.
\<close>

theorem alias_key_never_routes:
  assumes "normalize_province_name (Some a) \<noteq> Some a"
  shows "fst (resolve_route_address env addr) \<noteq> Some a"
proof
  assume "fst (resolve_route_address env addr) = Some a"
  then obtain v where "normalize_province_name v = Some a" by (auto simp: resolve_route_address_def Let_def)
  with normalize_fixed [of v] assms show False by simp
qed

lemma alias_key_never_routes_witness:
  "fst (resolve_route_address (None, None) hebei_order) \<noteq> Some [CHR 0xE6, CHR 0xB2, CHR 0xB3, CHR 0xE5, CHR 0x8C, CHR 0x97] \<and>
   rp_reason (resolve_route_payload (None, None) (after_put sample_regions
     (put_service_provinces 7 [[CHR 0xE6, CHR 0xB2, CHR 0xB3, CHR 0xE5, CHR 0x8C, CHR 0x97]] sample_regions)) hebei_order) =
     Some ''NO_SERVICE_PROVINCE''"
proof -
  have "normalize_province_name (Some [CHR 0xE6, CHR 0xB2, CHR 0xB3, CHR 0xE5, CHR 0x8C, CHR 0x97]) \<noteq>
      Some [CHR 0xE6, CHR 0xB2, CHR 0xB3, CHR 0xE5, CHR 0x8C, CHR 0x97]" by code_simp
  from alias_key_never_routes [OF this]
  have "fst (resolve_route_address (None, None) hebei_order) \<noteq> Some [CHR 0xE6, CHR 0xB2, CHR 0xB3, CHR 0xE5, CHR 0x8C, CHR 0x97]" .
  moreover have "rp_reason (resolve_route_payload (None, None) (after_put sample_regions
     (put_service_provinces 7 [[CHR 0xE6, CHR 0xB2, CHR 0xB3, CHR 0xE5, CHR 0x8C, CHR 0x97]] sample_regions)) hebei_order) =
     Some ''NO_SERVICE_PROVINCE''" by code_simp
  ultimately show ?thesis ..
qed

text \<open>
  C38. Splitting a province by cities blocks all of its orders. The routes store service cities
  without their province, and routing looks for the city together with the province, so once a
  province is split no order of it is ever assigned, whatever cities a warehouse has been given.
\<close>

theorem split_province_blocks:
  assumes "region_step\<^sup>*\<^sup>* r0 r" "region_inv r0"
    and "fst (resolve_route_address env addr) = Some p" "p \<in> set (rg_split r)"
  shows "resolve_route_payload env r addr = blocked_route ''city'' ''NO_SERVICE_WAREHOUSE''"
proof -
  from region_run_inv [OF assms(1,2)] have "region_inv r" .
  from no_city_lookup [OF this] assms(3,4) show ?thesis
    by (cases "resolve_route_address env addr")
      (auto simp: resolve_route_payload_def is_city_split_province_def split: option.splits)
qed

definition split_regions :: regions where
  "split_regions = (let r = snd (put_city_split_provinces [hebei] sample_regions) in
     after_put r (put_service_cities 7 [''C1''] r))"

lemma split_province_blocks_witness:
  "resolve_route_payload (None, None) split_regions hebei_order = blocked_route ''city'' ''NO_SERVICE_WAREHOUSE'' \<and>
   map sc_city_code (rg_cities split_regions) = [''C1'']"
proof -
  let ?r = "snd (put_city_split_provinces [hebei] sample_regions)"
  have "returns (put_service_cities 7 [''C1''] ?r) (\<lambda>_. True)" by code_simp
  from after_put_step [OF this, of ?r] have "region_step ?r split_regions"
    unfolding split_regions_def Let_def by (auto intro: region_step.cities)
  moreover have "region_step sample_regions ?r" by (rule region_step.split) (simp add: prod_eq_iff)
  ultimately have run: "region_step\<^sup>*\<^sup>* sample_regions split_regions" by simp
  have "fst (resolve_route_address (None, None) hebei_order) = Some hebei" by code_simp
  moreover have "hebei \<in> set (rg_split split_regions)" "map sc_city_code (rg_cities split_regions) = [''C1'']" by code_simp+
  ultimately show ?thesis using split_province_blocks [OF run sample_regions_inv] by blast
qed

end
