(* ===== verification/OrdersLife.thy ===== *)
theory OrdersLife
  imports Fulfilment FskuLife RegionRuns
begin

text \<open>
  The invariant of the order tables and that every way in, every change of the fulfilment and every
  shipment keeps it: heads are unique, an order has one line per item and one fulfilment record,
  shipped quantities stay within the lines, and the fulfilment facts come in order.
\<close>

section \<open>The invariant\<close>

definition order_key :: "order_head \<Rightarrow> string \<times> string \<times> string" where
  "order_key h = (or_platform h, or_store_code h, or_ext_order_no h)"

definition heads_ok :: "db \<Rightarrow> bool" where
  "heads_ok d \<longleftrightarrow> distinct (map or_id (t_orders d)) \<and> distinct (map order_key (t_orders d)) \<and>
     (\<forall>h \<in> set (t_orders d). or_id h < t_next_id d ORDERS)"

definition order_lines_ok :: "db \<Rightarrow> bool" where
  "order_lines_ok d \<longleftrightarrow> distinct (map orl_id (t_order_lines d)) \<and>
     distinct (map (\<lambda>l. (orl_order_id l, orl_item_id l)) (t_order_lines d)) \<and>
     (\<forall>l \<in> set (t_order_lines d). orl_id l < t_next_id d ORDER_LINES \<and> orl_order_id l \<in> or_id ` set (t_orders d) \<and>
        order_submitted d (orl_id l) \<le> orl_req_qty l) \<and>
     (\<forall>x \<in> set (t_outbound_lines d). \<forall>n. ol_order_line_id x = Some n \<longrightarrow> n \<in> orl_id ` set (t_order_lines d))"

definition order_items_ok :: "sales \<Rightarrow> bool" where
  "order_items_ok s \<longleftrightarrow> (\<forall>x \<in> set (so_order_items s). oi_order_id x \<in> or_id ` set (t_orders (so_core s)) \<and>
     oi_item_id x \<in> it_id ` set (t_items (so_core s)))"

definition fulfillment_ok :: "sales \<Rightarrow> order_fulfillment \<Rightarrow> bool" where
  "fulfillment_ok s f \<longleftrightarrow> known_warehouse s (of_planned_warehouse_id f) \<and> known_warehouse s (of_actual_warehouse_id f) \<and>
     of_fulfillment_status f \<in> {Some ''SERVICE_ASSIGNED'', Some ''FULFILLMENT_BLOCKED'', Some ''MANUALLY_ASSIGNED''} \<and>
     (of_fulfillment_status f = Some ''FULFILLMENT_BLOCKED'' \<longleftrightarrow> of_blocked_reasons f \<noteq> None) \<and>
     (of_fulfillment_status f = Some ''SERVICE_ASSIGNED'' \<longrightarrow> of_planned_warehouse_id f \<noteq> None) \<and>
     (of_fulfillment_status f = Some ''MANUALLY_ASSIGNED'' \<longrightarrow> of_actual_warehouse_id f \<noteq> None) \<and>
     of_execution_stage f \<in> {None, Some ''SHIP''} \<and>
     (of_ship_committed_at f \<noteq> None \<longleftrightarrow> of_execution_stage f = Some ''SHIP'') \<and>
     (of_ship_committed_at f \<noteq> None \<longrightarrow> of_actual_warehouse_id f \<noteq> None) \<and>
     (of_shipped_at f \<noteq> None \<longrightarrow> of_ship_committed_at f \<noteq> None)"

definition orders_but :: "int set \<Rightarrow> sales \<Rightarrow> bool" where
  "orders_but X s \<longleftrightarrow> warehouse_inv (so_core s) \<and> heads_ok (so_core s) \<and> order_lines_ok (so_core s) \<and>
     order_items_ok s \<and> distinct (map of_order_id (so_fulfillments s)) \<and>
     of_order_id ` set (so_fulfillments s) = or_id ` set (t_orders (so_core s)) - X \<and>
     (\<forall>f \<in> set (so_fulfillments s). fulfillment_ok s f)"

text \<open>Between the requests every order has its fulfilment record; within one the new order may wait for it.\<close>

definition orders_inv :: "sales \<Rightarrow> bool" where
  "orders_inv s \<longleftrightarrow> orders_but {} s"

section \<open>Quantities\<close>

lemma update_values: "x \<in> snd ` set (AList.update k v m) \<Longrightarrow> x = v \<or> x \<in> snd ` set m"
  by (induction m) (auto split: if_splits)

lemma distinct_update_keys: "distinct (map fst m) \<Longrightarrow> distinct (map fst (AList.update k v m))"
  by (rule distinct_update)

lemma extract_req_qty_fold:
  assumes "distinct (map fst m)" "\<forall>q \<in> snd ` set m. 0 < q"
  shows "distinct (map fst (fold (\<lambda>it m. if ii_item_id it \<le> 0 \<or> ii_qty it \<le> 0 then m
      else AList.update (ii_item_id it) (qty_of m (ii_item_id it) + ii_qty it) m) items m)) \<and>
    (\<forall>q \<in> snd ` set (fold (\<lambda>it m. if ii_item_id it \<le> 0 \<or> ii_qty it \<le> 0 then m
      else AList.update (ii_item_id it) (qty_of m (ii_item_id it) + ii_qty it) m) items m). 0 < q) \<and>
    (\<forall>i. qty_of (fold (\<lambda>it m. if ii_item_id it \<le> 0 \<or> ii_qty it \<le> 0 then m
      else AList.update (ii_item_id it) (qty_of m (ii_item_id it) + ii_qty it) m) items m) i =
      qty_of m i + sum_where (\<lambda>it. ii_item_id it = i \<and> 0 < ii_item_id it \<and> 0 < ii_qty it) ii_qty items)"
  using assms
proof (induction items arbitrary: m)
  case (Cons it items)
  show ?case
  proof (cases "ii_item_id it \<le> 0 \<or> ii_qty it \<le> 0")
    case True
    with Cons show ?thesis by auto
  next
    case False
    let ?m = "AList.update (ii_item_id it) (qty_of m (ii_item_id it) + ii_qty it) m"
    have "0 \<le> qty_of m (ii_item_id it)"
      using Cons.prems(2) by (force simp: qty_of_def split: option.splits dest: map_of_SomeD)
    then have "\<forall>q \<in> snd ` set ?m. 0 < q" using False Cons.prems(2) update_values by fastforce
    from Cons.IH [OF distinct_update_keys [OF Cons.prems(1)] this] False show ?thesis by auto
  qed
qed simp

lemma extract_req_qty_sound:
  "distinct (map fst (extract_req_qty items))" "\<forall>(i, q) \<in> set (extract_req_qty items). 0 < q"
  "qty_of (extract_req_qty items) i =
     sum_where (\<lambda>it. ii_item_id it = i \<and> 0 < ii_item_id it \<and> 0 < ii_qty it) ii_qty items"
proof -
  note X = extract_req_qty_fold [of "[]" items]
  from X show "distinct (map fst (extract_req_qty items))" unfolding extract_req_qty_def by simp
  from X show "\<forall>(i, q) \<in> set (extract_req_qty items). 0 < q" unfolding extract_req_qty_def by force
  have "qty_of [] i = 0" by (simp add: qty_of_def)
  with X show "qty_of (extract_req_qty items) i =
     sum_where (\<lambda>it. ii_item_id it = i \<and> 0 < ii_item_id it \<and> 0 < ii_qty it) ii_qty items"
    unfolding extract_req_qty_def by simp
qed

section \<open>The lines of an order\<close>

fun line_rows :: "int \<Rightarrow> int \<Rightarrow> qty_map \<Rightarrow> order_line list" where
  "line_rows oid k [] = []"
| "line_rows oid k ((i, q) # m) =
     \<lparr>orl_id = k, orl_order_id = oid, orl_item_id = i, orl_req_qty = q\<rparr> # line_rows oid (k + 1) m"

definition core_lines :: "order_line list \<Rightarrow> int \<Rightarrow> sales \<Rightarrow> sales" where
  "core_lines ls k s = s\<lparr>so_core := (so_core s)\<lparr>t_next_id := (t_next_id (so_core s))(ORDER_LINES := k),
     t_order_lines := ls\<rparr>\<rparr>"

lemma core_lines_sel [simp]:
  "t_order_lines (so_core (core_lines ls k s)) = ls" "t_next_id (so_core (core_lines ls k s)) ORDER_LINES = k"
  "core_lines ls k (core_lines ls' k' s) = core_lines ls k s"
  by (simp_all add: core_lines_def)

lemma insert_req_lines_eff:
  "insert_req_lines oid m s = (e, s') \<Longrightarrow> \<exists>m1 m2. m = m1 @ m2 \<and> (e = None \<longleftrightarrow> m2 = []) \<and>
     (\<forall>x. e \<noteq> Some (IntegrityError x)) \<and> ((\<forall>(i, q) \<in> set m. int4 q) \<longrightarrow> m2 = []) \<and>
     s' = core_lines (t_order_lines (so_core s) @ line_rows oid (t_next_id (so_core s) ORDER_LINES) m1)
       (t_next_id (so_core s) ORDER_LINES + int (length m1)) s"
proof (induction m arbitrary: s)
  case Nil
  then show ?case by (intro exI [of _ "[]"]) (simp add: core_lines_def)
next
  case (Cons iq m)
  obtain i q where iq: "iq = (i, q)" by fastforce
  show ?case
  proof (cases "int4 q")
    case False
    with Cons.prems iq show ?thesis by (intro exI [of _ "[]"] exI [of _ "iq # m"]) (auto simp: core_lines_def)
  next
    case True
    let ?s = "core_lines (t_order_lines (so_core s) @ line_rows oid (t_next_id (so_core s) ORDER_LINES) [iq])
       (t_next_id (so_core s) ORDER_LINES + 1) s"
    from Cons.prems True iq have run: "insert_req_lines oid m ?s = (e, s')"
      by (simp add: core_next_id_def next_id_def core_lines_def Let_def)
    from Cons.IH [OF run] obtain m1 m2 where m: "m = m1 @ m2" "e = None \<longleftrightarrow> m2 = []" "\<forall>x. e \<noteq> Some (IntegrityError x)"
        "(\<forall>(i, q) \<in> set m. int4 q) \<longrightarrow> m2 = []"
        "s' = core_lines (t_order_lines (so_core ?s) @ line_rows oid (t_next_id (so_core ?s) ORDER_LINES) m1)
         (t_next_id (so_core ?s) ORDER_LINES + int (length m1)) ?s" by blast
    have rows: "s' = core_lines (t_order_lines (so_core s) @ line_rows oid (t_next_id (so_core s) ORDER_LINES) (iq # m1))
       (t_next_id (so_core s) ORDER_LINES + int (length (iq # m1))) s"
      using m(5) iq by (simp add: add.assoc)
    have "iq # m = (iq # m1) @ m2" using m(1) by simp
    moreover have "(\<forall>(i, q) \<in> set (iq # m). int4 q) \<longrightarrow> m2 = []" using m(4) by simp
    ultimately show ?thesis using m(2,3) rows by blast
  qed
qed

lemma line_rows_in: "l \<in> set (line_rows oid k m) \<Longrightarrow>
    k \<le> orl_id l \<and> orl_id l < k + int (length m) \<and> orl_order_id l = oid \<and> (orl_item_id l, orl_req_qty l) \<in> set m"
  by (induction m arbitrary: k) force+

lemma line_rows_distinct: "distinct (map fst m) \<Longrightarrow>
    distinct (map orl_id (line_rows oid k m)) \<and> distinct (map (\<lambda>l. (orl_order_id l, orl_item_id l)) (line_rows oid k m))"
proof (induction m arbitrary: k)
  case (Cons iq m)
  then show ?case by (cases iq) (force dest: line_rows_in)
qed simp

lemma line_rows_sum: "sum_where (\<lambda>l. orl_item_id l = i) orl_req_qty (line_rows oid k m) = sum_where (\<lambda>x. fst x = i) snd m"
  by (induction m arbitrary: k) auto

lemma qty_of_sum: "distinct (map fst m) \<Longrightarrow> sum_where (\<lambda>x. fst x = i) snd m = qty_of m i"
proof (induction m)
  case (Cons iq m)
  obtain j q where "iq = (j, q)" by fastforce
  moreover have "map_of m i = None \<longleftrightarrow> i \<notin> fst ` set m" by (rule map_of_eq_None_iff)
  ultimately show ?case using Cons by (auto simp: qty_of_def)
qed (simp add: qty_of_def)

text \<open>What writing the lines does: nothing, or the order had shipped nothing and gets new lines.\<close>

lemma write_lines_cases:
  assumes "write_lines_quietly oid items s = Inr (u, s')"
  obtains (none) "extract_req_qty items = []" "s' = s"
  | (rows) m1 m2 where "extract_req_qty items = m1 @ m2" "extract_req_qty items \<noteq> []"
      "(\<forall>(i, q) \<in> set (extract_req_qty items). int4 q) \<Longrightarrow> m2 = []"
      "shipped_lines_of (so_core s) oid = []"
      "s' = core_lines (filter (\<lambda>l. orl_order_id l \<noteq> oid) (t_order_lines (so_core s)) @
        line_rows oid (t_next_id (so_core s) ORDER_LINES) m1) (t_next_id (so_core s) ORDER_LINES + int (length m1)) s"
proof (cases "extract_req_qty items = []")
  case True
  then have "insert_order_lines oid items s = (None, s)" by (simp add: insert_order_lines_def)
  with assms have "s' = s" by (simp add: write_lines_quietly_def split: if_splits)
  with True none show thesis by blast
next
  case False
  then have ne: "items \<noteq> []" by (auto simp: extract_req_qty_def)
  let ?s = "s\<lparr>so_core := (so_core s)\<lparr>t_order_lines := filter (\<lambda>l. orl_order_id l \<noteq> oid) (t_order_lines (so_core s))\<rparr>\<rparr>"
  obtain e s1 where run: "insert_order_lines oid items s = (e, s1)" by fastforce
  from assms ne run have ok: "\<forall>x. e \<noteq> Some (IntegrityError x)" "s' = s1"
    by (auto simp: write_lines_quietly_def split: option.splits error.splits)
  from run False ok have shipped: "shipped_lines_of (so_core s) oid = []"
    and ins: "insert_req_lines oid (extract_req_qty items) ?s = (e, s1)"
    by (auto simp: insert_order_lines_def Let_def split: if_splits)
  from insert_req_lines_eff [OF ins] obtain m1 m2 where m: "extract_req_qty items = m1 @ m2"
      "(\<forall>(i, q) \<in> set (extract_req_qty items). int4 q) \<longrightarrow> m2 = []"
      "s1 = core_lines (t_order_lines (so_core ?s) @ line_rows oid (t_next_id (so_core ?s) ORDER_LINES) m1)
         (t_next_id (so_core ?s) ORDER_LINES + int (length m1)) ?s" by blast
  have "s' = core_lines (filter (\<lambda>l. orl_order_id l \<noteq> oid) (t_order_lines (so_core s)) @
        line_rows oid (t_next_id (so_core s) ORDER_LINES) m1) (t_next_id (so_core s) ORDER_LINES + int (length m1)) s"
    using m(3) ok(2) by (simp add: core_lines_def)
  with rows [OF m(1) False _ shipped] m(2) show thesis by blast
qed

section \<open>The steps of an ingest\<close>

definition order_rest :: "db \<Rightarrow> _" where
  "order_rest d = (t_items d, t_lots d, t_stocks d, t_ledger d, t_events d, t_inbound_lines d, t_outbound_lines d,
     \<lambda>t. if t \<in> {ORDERS, ORDER_LINES} then 0 else t_next_id d t)"

lemma order_restD:
  assumes "order_rest d' = order_rest d"
  shows "t_items d' = t_items d" "t_lots d' = t_lots d" "t_stocks d' = t_stocks d" "t_ledger d' = t_ledger d"
    "t_events d' = t_events d" "t_inbound_lines d' = t_inbound_lines d" "t_outbound_lines d' = t_outbound_lines d"
    "t \<notin> {ORDERS, ORDER_LINES} \<Longrightarrow> t_next_id d' t = t_next_id d t"
  using assms by (auto simp: order_rest_def dest: fun_cong [where x = t])

lemma order_rest_warehouse:
  assumes "order_rest d' = order_rest d"
  shows "warehouse_inv d' = warehouse_inv d"
  by (rule warehouse_inv_cong) (simp_all add: order_restD [OF assms])

lemma order_rest_submitted:
  assumes "order_rest d' = order_rest d"
  shows "order_submitted d' n = order_submitted d n"
  by (simp add: order_submitted_def order_restD(7) [OF assms])

definition same_orders :: "sales \<Rightarrow> sales \<Rightarrow> bool" where
  "same_orders s s' \<longleftrightarrow> so_core s' = so_core s \<and> so_order_items s' = so_order_items s \<and>
     so_fulfillments s' = so_fulfillments s \<and> so_regions s' = so_regions s"

lemma known_warehouse_cong: "rg_warehouses (so_regions s') = rg_warehouses (so_regions s) \<Longrightarrow> known_warehouse s' = known_warehouse s"
  by (simp add: known_warehouse_def fun_eq_iff split: option.split)

lemma fulfillment_ok_cong: "rg_warehouses (so_regions s') = rg_warehouses (so_regions s) \<Longrightarrow> fulfillment_ok s' = fulfillment_ok s"
  by (simp add: fulfillment_ok_def fun_eq_iff known_warehouse_cong [of s' s])

lemma image_of_map: "map f xs = map f ys \<Longrightarrow> f ` set xs = f ` set ys"
  by (metis list.set_map)

lemma same_orders_but: "same_orders s s' \<Longrightarrow> orders_but X s' = orders_but X s"
  by (simp add: same_orders_def orders_but_def order_items_ok_def fulfillment_ok_cong [of s' s])

lemma resolve_store_id_Inr:
  "resolve_store_id platform sc name s = Inr (n, s') \<Longrightarrow> same_orders s s'"
  by (auto simp: resolve_store_id_def ensure_store_def sales_next_id_def same_orders_def Let_def
      split: option.splits if_splits)

lemma find_order_SomeD:
  "find_order d p sc ext = Some h \<Longrightarrow> h \<in> set (t_orders d) \<and> order_key h = (p, sc, ext)"
  by (auto simp: find_order_def order_key_def dest: find_SomeD)

lemma find_order_None: "find_order d p sc ext = None \<longleftrightarrow> (p, sc, ext) \<notin> order_key ` set (t_orders d)"
  by (auto simp: find_order_def order_key_def find_None_iff)

lemma find_order_key:
  assumes "heads_ok d" "h \<in> set (t_orders d)" "order_key h = (p, sc, ext)"
  shows "find_order d p sc ext = Some h"
proof -
  have "find (\<lambda>x. order_key x = order_key h) (t_orders d) = Some h"
    using assms by (intro find_unique_key) (simp_all add: heads_ok_def)
  moreover have "(\<lambda>x. order_key x = order_key h) = (\<lambda>x. or_platform x = p \<and> or_store_code x = sc \<and> or_ext_order_no x = ext)"
    using assms(3) by (auto simp: order_key_def)
  ultimately show ?thesis by (simp add: find_order_def)
qed

text \<open>What the insert of a head does to the rest of the state, on both branches.\<close>

lemma insert_order_Inr:
  assumes "insert_order_or_get_idempotent p sc store_id ext at bn bp trace s = Inr ((hit, oid), s')"
  shows "order_rest (so_core s') = order_rest (so_core s) \<and> t_order_lines (so_core s') = t_order_lines (so_core s) \<and>
     t_next_id (so_core s') ORDER_LINES = t_next_id (so_core s) ORDER_LINES \<and>
     t_next_id (so_core s') ORDERS = t_next_id (so_core s) ORDERS + 1 \<and>
     so_order_items s' = so_order_items s \<and> so_fulfillments s' = so_fulfillments s \<and> so_regions s' = so_regions s \<and>
     so_next_id s' = so_next_id s \<and>
     (if hit then (\<exists>h. find_order (so_core s) p sc ext = Some h \<and> oid = or_id h) \<and>
        map or_id (t_orders (so_core s')) = map or_id (t_orders (so_core s)) \<and>
        map order_key (t_orders (so_core s')) = map order_key (t_orders (so_core s))
      else find_order (so_core s) p sc ext = None \<and> oid = t_next_id (so_core s) ORDERS \<and>
        t_orders (so_core s') = t_orders (so_core s) @ [\<lparr>or_id = oid, or_platform = p, or_store_code = sc,
          or_ext_order_no = ext, or_store_id = store_id, or_status = Some ''CREATED'', or_buyer_name = bn,
          or_buyer_phone = bp, or_trace_id = trace, or_created_at = at, or_updated_at = Some at\<rparr>])"
proof (cases "find_order (so_core s) p sc ext")
  case None
  then have "find_order ((so_core s)\<lparr>t_next_id := t'\<rparr>) p sc ext = None" for t' by (simp add: find_order_def)
  with None assms show ?thesis
    by (auto simp: insert_order_or_get_idempotent_def core_next_id_def next_id_def order_rest_def Let_def split: if_splits)
next
  case (Some h)
  then have "find_order ((so_core s)\<lparr>t_next_id := t'\<rparr>) p sc ext = Some h" for t' by (simp add: find_order_def)
  with Some assms show ?thesis
    by (cases "trace = None \<or> trace = Some []")
      (auto simp: insert_order_or_get_idempotent_def core_next_id_def next_id_def order_rest_def order_key_def
        map_update_where Let_def split: option.splits if_splits)
qed

lemma insert_order_but:
  assumes run: "insert_order_or_get_idempotent p sc store_id ext at bn bp trace s = Inr ((hit, oid), s')"
    and inv: "orders_inv s"
  shows "orders_but (if hit then {} else {oid}) s' \<and> oid \<in> or_id ` set (t_orders (so_core s'))"
proof -
  note E = insert_order_Inr [OF run]
  from inv have I: "orders_but {} s" by (simp add: orders_inv_def)
  have ids: "or_id ` set (t_orders (so_core s')) = or_id ` set (t_orders (so_core s)) \<union> (if hit then {} else {oid})"
    using E image_of_map [of or_id "t_orders (so_core s')"] by (cases hit) auto
  have new: "\<not> hit \<Longrightarrow> oid \<notin> or_id ` set (t_orders (so_core s))" using E I by (auto simp: orders_but_def heads_ok_def)
  have heads: "heads_ok (so_core s')"
  proof (cases hit)
    case True
    have "or_id h < t_next_id (so_core s') ORDERS" if h: "h \<in> set (t_orders (so_core s'))" for h
    proof -
      from h ids True have "or_id h \<in> or_id ` set (t_orders (so_core s))" by auto
      then have "or_id h < t_next_id (so_core s) ORDERS" using I by (auto simp: orders_but_def heads_ok_def)
      with E show ?thesis by linarith
    qed
    with E I True show ?thesis by (simp add: orders_but_def heads_ok_def)
  next
    case False
    with E have "(p, sc, ext) \<notin> order_key ` set (t_orders (so_core s))" by (simp add: find_order_None)
    with E I False new show ?thesis by (auto simp: orders_but_def heads_ok_def order_key_def)
  qed
  have lines: "order_lines_ok (so_core s')"
    using E I ids order_rest_submitted [of "so_core s'" "so_core s"] order_restD(7) [of "so_core s'" "so_core s"]
    by (auto simp: orders_but_def order_lines_ok_def)
  have items: "order_items_ok s'" using E I ids order_restD(1) [of "so_core s'" "so_core s"]
    by (auto simp: orders_but_def order_items_ok_def)
  have "warehouse_inv (so_core s')" using E I order_rest_warehouse [of "so_core s'" "so_core s"] by (simp add: orders_but_def)
  moreover have "of_order_id ` set (so_fulfillments s') = or_id ` set (t_orders (so_core s')) - (if hit then {} else {oid})"
    using E I ids new by (auto simp: orders_but_def)
  moreover have "\<forall>f \<in> set (so_fulfillments s'). fulfillment_ok s' f"
    using E I fulfillment_ok_cong [of s' s] by (simp add: orders_but_def)
  moreover have "distinct (map of_order_id (so_fulfillments s'))" using E I by (simp add: orders_but_def)
  moreover have "oid \<in> or_id ` set (t_orders (so_core s'))"
    using E ids by (cases hit) (auto dest: find_order_SomeD)
  ultimately show ?thesis using heads lines items by (simp add: orders_but_def)
qed

text \<open>Changes that leave the orders, their lines and the warehouse alone.\<close>

lemma orders_but_items:
  assumes "so_core s' = so_core s" "so_fulfillments s' = so_fulfillments s" "so_regions s' = so_regions s"
    and "order_items_ok s'" "orders_but X s"
  shows "orders_but X s'"
  using assms(4,5) by (simp add: orders_but_def assms(1-3) fulfillment_ok_cong [of s' s])

lemma insert_order_items_Inr:
  assumes "insert_order_items oid items s = Inr s'" and "oid \<in> or_id ` set (t_orders (so_core s))" and "orders_but X s"
  shows "orders_but X s' \<and> so_core s' = so_core s \<and> so_fulfillments s' = so_fulfillments s \<and> so_regions s' = so_regions s"
proof -
  let ?P = "\<lambda>s'. orders_but X s' \<and> so_core s' = so_core s \<and> so_fulfillments s' = so_fulfillments s \<and> so_regions s' = so_regions s"
  have step: "?P s2" if "?P s1" "insert_order_item oid it s1 = Inr s2" for it s1 s2
  proof -
    from that(2) have same: "so_core s2 = so_core s1" "so_fulfillments s2 = so_fulfillments s1" "so_regions s2 = so_regions s1"
      and rows: "\<forall>x \<in> set (so_order_items s2). x \<in> set (so_order_items s1) \<or>
        (oi_order_id x = oid \<and> oi_item_id x \<in> it_id ` set (t_items (so_core s1)))"
      by (auto simp: insert_order_item_def sales_next_id_def Let_def split: if_splits)
    have ok: "order_items_ok s1" "oid \<in> or_id ` set (t_orders (so_core s1))" using that(1) assms(2) by (simp_all add: orders_but_def)
    have "order_items_ok s2" unfolding order_items_ok_def same
    proof
      fix x assume "x \<in> set (so_order_items s2)"
      with rows have "x \<in> set (so_order_items s1) \<or> (oi_order_id x = oid \<and> oi_item_id x \<in> it_id ` set (t_items (so_core s1)))" by blast
      with ok show "oi_order_id x \<in> or_id ` set (t_orders (so_core s1)) \<and> oi_item_id x \<in> it_id ` set (t_items (so_core s1))"
        unfolding order_items_ok_def by blast
    qed
    with that(1) have "orders_but X s2" by (intro orders_but_items [OF same]) simp_all
    with that(1) show ?thesis by (simp add: same)
  qed
  show ?thesis
    by (rule foldE_invariant [where P = ?P, OF _ assms(1) [unfolded insert_order_items_def]])
      (rule step, assumption, assumption, simp add: assms(3))
qed

lemma write_lines_but:
  assumes run: "write_lines_quietly oid items s = Inr (u, s')"
    and oid: "oid \<in> or_id ` set (t_orders (so_core s))" and inv: "orders_but X s"
  shows "orders_but X s' \<and> t_orders (so_core s') = t_orders (so_core s) \<and> so_order_items s' = so_order_items s \<and>
    so_fulfillments s' = so_fulfillments s \<and> so_regions s' = so_regions s \<and> order_rest (so_core s') = order_rest (so_core s)"
  using run
proof (cases rule: write_lines_cases)
  case none
  with inv show ?thesis by simp
next
  case (rows m1 m2)
  let ?d = "so_core s" and ?k = "t_next_id (so_core s) ORDER_LINES"
  let ?new = "line_rows oid ?k m1" and ?old = "filter (\<lambda>l. orl_order_id l \<noteq> oid) (t_order_lines (so_core s))"
  have lines: "t_order_lines (so_core s') = ?old @ ?new" "t_next_id (so_core s') ORDER_LINES = ?k + int (length m1)"
    using rows(5) by simp_all
  have same: "t_orders (so_core s') = t_orders ?d" "so_order_items s' = so_order_items s" "so_fulfillments s' = so_fulfillments s"
      "so_regions s' = so_regions s" "order_rest (so_core s') = order_rest ?d" "t_next_id (so_core s') ORDERS = t_next_id ?d ORDERS"
    using rows(5) by (simp_all add: core_lines_def order_rest_def fun_eq_iff)
  from extract_req_qty_sound(1,2) [of items] rows(1) have m1: "distinct (map fst m1)" "\<forall>x \<in> set m1. 0 < snd x" by auto
  note new = line_rows_in [of _ oid ?k m1] and dist = line_rows_distinct [OF m1(1), of oid ?k]
  from inv have L: "order_lines_ok ?d" and H: "heads_ok ?d" by (simp_all add: orders_but_def)
  have refer: "n \<in> orl_id ` set ?old" if x: "x \<in> set (t_outbound_lines ?d)" "ol_order_line_id x = Some n" for x n
  proof -
    from L x obtain l where l: "l \<in> set (t_order_lines ?d)" "n = orl_id l" by (fastforce simp: order_lines_ok_def)
    have "orl_order_id l \<noteq> oid" using rows(4) l x by (auto simp: shipped_lines_of_def filter_empty_conv list_ex_iff)
    with l show ?thesis by auto
  qed
  have unsold: "order_submitted ?d (orl_id l) = 0" if "l \<in> set ?new" for l
  proof -
    have "ol_order_line_id x \<noteq> Some (orl_id l)" if "x \<in> set (t_outbound_lines ?d)" for x
      using refer [OF that] new [OF \<open>l \<in> set ?new\<close>] L by (fastforce simp: order_lines_ok_def)
    then show ?thesis unfolding order_submitted_def by (intro sum_where_none) auto
  qed
  have sub: "order_submitted (so_core s') n = order_submitted ?d n" for n by (rule order_rest_submitted [OF same(5)])
  have "order_lines_ok (so_core s')"
    unfolding order_lines_ok_def lines same(1) order_restD(7) [OF same(5)] sub
  proof (intro conjI ballI allI impI)
    show "distinct (map orl_id (?old @ ?new))"
      using L dist new by (fastforce simp: order_lines_ok_def distinct_map_filter)
    show "distinct (map (\<lambda>l. (orl_order_id l, orl_item_id l)) (?old @ ?new))"
      using L dist new by (fastforce simp: order_lines_ok_def distinct_map_filter)
  next
    fix l assume l: "l \<in> set (?old @ ?new)"
    then show "orl_id l < ?k + int (length m1)" using L new by (fastforce simp: order_lines_ok_def)
    from l show "orl_order_id l \<in> or_id ` set (t_orders ?d)" using L new oid by (fastforce simp: order_lines_ok_def)
    from l show "order_submitted ?d (orl_id l) \<le> orl_req_qty l"
      using L unsold new m1(2) by (fastforce simp: order_lines_ok_def)
  next
    fix x n assume "x \<in> set (t_outbound_lines ?d)" "ol_order_line_id x = Some n"
    from refer [OF this] show "n \<in> orl_id ` set (?old @ ?new)" by auto
  qed
  moreover have "heads_ok (so_core s')" using H by (simp add: heads_ok_def same)
  ultimately show ?thesis using inv same order_rest_warehouse [OF same(5)] order_restD(1) [OF same(5)]
    by (simp add: orders_but_def order_items_ok_def fulfillment_ok_cong [of s' s])
qed

section \<open>An ingest\<close>

lemma route_blocked_or_assigned:
  "(\<exists>m x. resolve_route_payload env r addr = blocked_route m x) \<or> (\<exists>m w. resolve_route_payload env r addr = assigned_route m w)"
  unfolding resolve_route_payload_def
  by (cases "resolve_route_address env addr") (auto split: option.splits if_splits)

lemma route_cases:
  obtains (blocked) m x where "resolve_route_payload env r addr = blocked_route m x"
  | (assigned) m w where "resolve_route_payload env r addr = assigned_route m w"
  using route_blocked_or_assigned [of env r addr] by blast

lemma fulfillment_ok_update [simp]: "fulfillment_ok (s\<lparr>so_fulfillments := fs\<rparr>) = fulfillment_ok s"
  by (rule fulfillment_ok_cong) simp

lemma find_fulfillment_None: "find_fulfillment s oid = None \<longleftrightarrow> oid \<notin> of_order_id ` set (so_fulfillments s)"
  by (auto simp: find_fulfillment_def find_None_iff)

definition routed_record :: "int \<Rightarrow> int \<Rightarrow> route_payload \<Rightarrow> order_fulfillment" where
  "routed_record now oid rp = \<lparr>of_order_id = oid, of_planned_warehouse_id = rp_service_warehouse_id rp,
     of_actual_warehouse_id = None, of_fulfillment_status = rp_status rp,
     of_blocked_reasons = (if rp_status rp = Some ''FULFILLMENT_BLOCKED'' then Some (case strip_or_none (rp_reason rp) of None \<Rightarrow> [] | Some x \<Rightarrow> [x]) else None),
     of_execution_stage = None, of_ship_committed_at = None, of_shipped_at = None, of_updated_at = now\<rparr>"

lemma routed_status [simp]:
  "py_upper (py_strip ''SERVICE_ASSIGNED'') = ''SERVICE_ASSIGNED''"
  "py_upper (py_strip ''FULFILLMENT_BLOCKED'') = ''FULFILLMENT_BLOCKED''"
  by code_simp+

lemma upsert_route_Inr:
  assumes run: "upsert_order_fulfillment_route now oid (resolve_route_payload env r addr) s = Inr (u, s')"
    and inv: "orders_but {oid} s" and oid: "oid \<in> or_id ` set (t_orders (so_core s))"
  shows "orders_inv s' \<and>
    s' = s\<lparr>so_fulfillments := so_fulfillments s @ [routed_record now oid (resolve_route_payload env r addr)]\<rparr>"
proof -
  let ?rp = "resolve_route_payload env r addr" and ?f = "routed_record now oid (resolve_route_payload env r addr)"
  have none: "find_fulfillment s oid = None" using inv by (simp add: find_fulfillment_None orders_but_def)
  have s': "s' = s\<lparr>so_fulfillments := so_fulfillments s @ [?f]\<rparr> \<and> known_warehouse s (rp_service_warehouse_id ?rp)"
  proof (cases rule: route_cases [of env r addr])
    case (blocked m x)
    with run none show ?thesis
      by (simp add: upsert_order_fulfillment_route_def blocked_route_def routed_record_def Let_def split: if_splits)
  next
    case (assigned m w)
    with run none show ?thesis
      by (simp add: upsert_order_fulfillment_route_def assigned_route_def routed_record_def Let_def split: if_splits)
  qed
  have ok: "fulfillment_ok s ?f"
    by (cases rule: route_cases [of env r addr])
      (use s' in \<open>simp_all add: fulfillment_ok_def routed_record_def blocked_route_def assigned_route_def known_warehouse_def\<close>)
  have "of_order_id ?f = oid" by (simp add: routed_record_def)
  with inv oid ok s' none have "orders_inv s'"
    by (auto simp: orders_inv_def orders_but_def find_fulfillment_None order_items_ok_def)
  with s' show ?thesis by blast
qed

text \<open>What \<open>ingest\<close> goes through, and that it keeps the invariant.\<close>

definition ingested_head :: "int \<Rightarrow> string \<Rightarrow> string \<Rightarrow> int \<Rightarrow> string \<Rightarrow> int \<Rightarrow> string option \<Rightarrow> string option \<Rightarrow> string option \<Rightarrow> order_head" where
  "ingested_head oid p sc store_id ext at bn bp trace = \<lparr>or_id = oid, or_platform = p, or_store_code = sc,
     or_ext_order_no = ext, or_store_id = store_id, or_status = Some ''CREATED'', or_buyer_name = bn,
     or_buyer_phone = bp, or_trace_id = trace, or_created_at = at, or_updated_at = Some at\<rparr>"

lemma order_ingest_Inr:
  assumes run: "order_ingest now env platform sc ext occ bn bp items addr trace s = Inr (out, s')" and inv: "orders_inv s"
  defines "p \<equiv> py_strip (py_upper platform)"
  obtains (hit) h u s2 where "find_order (so_core s) p sc ext = Some h" "io_id out = or_id h" "io_status out = ''IDEMPOTENT''"
      "orders_inv s'" "map or_id (t_orders (so_core s')) = map or_id (t_orders (so_core s))"
      "so_fulfillments s' = so_fulfillments s" "so_order_items s' = so_order_items s" "so_regions s' = so_regions s"
      "write_lines_quietly (or_id h) items s2 = Inr (u, s')" "t_order_lines (so_core s2) = t_order_lines (so_core s)"
      "t_outbound_lines (so_core s2) = t_outbound_lines (so_core s)"
  | (new) store_id u s3 s4 where "find_order (so_core s) p sc ext = None" "io_id out = t_next_id (so_core s) ORDERS"
      "orders_inv s'" "t_orders (so_core s') = t_orders (so_core s) @
         [ingested_head (io_id out) p sc store_id ext (case occ of None \<Rightarrow> now | Some t \<Rightarrow> t) bn bp trace]"
      "so_fulfillments s' = so_fulfillments s @ [routed_record now (io_id out) (resolve_route_payload env (so_regions s) addr)]"
      "io_route out = resolve_route_payload env (so_regions s) addr"
      "io_status out = (if rp_status (io_route out) = Some ''FULFILLMENT_BLOCKED'' then ''FULFILLMENT_BLOCKED'' else ''OK'')"
      "so_regions s' = so_regions s"
      "write_lines_quietly (io_id out) items s3 = Inr (u, s4)" "so_core s' = so_core s4"
      "t_order_lines (so_core s3) = t_order_lines (so_core s)" "order_rest (so_core s3) = order_rest (so_core s)"
      "t_next_id (so_core s3) ORDER_LINES = t_next_id (so_core s) ORDER_LINES"
proof -
  let ?at = "case occ of None \<Rightarrow> now | Some t \<Rightarrow> t"
  from run obtain store_id s1 hit oid s2 s3 s4 u rp where
    st: "resolve_store_id p sc (Some sc) s = Inr (store_id, s1)" and
    ins: "insert_order_or_get_idempotent p sc store_id ext ?at bn bp trace s1 = Inr ((hit, oid), s2)" and
    its: "(if hit then Inr s2 else insert_order_items oid items s2) = Inr s3" and
    wr: "write_lines_quietly oid items s3 = Inr (u, s4)" and
    rt: "(if hit then Inr (case load_existing_route_payload s4 oid of Some rp \<Rightarrow> rp
            | None \<Rightarrow> resolve_route_payload env (so_regions s4) addr, s4)
          else (let rp = resolve_route_payload env (so_regions s4) addr in
            bindE (upsert_order_fulfillment_route now oid rp s4) (\<lambda>(_, s5). Inr (rp, s5)))) = Inr (rp, s')" and
    out: "io_id out = oid" "io_route out = rp"
      "io_status out = (if hit then ''IDEMPOTENT'' else
         if (case rp_status rp of None \<Rightarrow> ''UNKNOWN'' | Some x \<Rightarrow> if x = [] then ''UNKNOWN'' else x) = ''FULFILLMENT_BLOCKED''
         then ''FULFILLMENT_BLOCKED'' else ''OK'')"
    unfolding order_ingest_def Let_def p_def [symmetric]
    by (auto simp: bindE_eq_Inr split: prod.splits)
  note S = resolve_store_id_Inr [OF st]
  have inv1: "orders_inv s1" using inv same_orders_but [OF S] by (simp add: orders_inv_def)
  have core1: "so_core s1 = so_core s" "so_fulfillments s1 = so_fulfillments s" "so_order_items s1 = so_order_items s"
      "so_regions s1 = so_regions s" using S by (simp_all add: same_orders_def)
  note I = insert_order_Inr [OF ins, unfolded core1] and B = insert_order_but [OF ins inv1]
  show thesis
  proof (cases hit)
    case True
    with its have s3: "s3 = s2" by simp
    from True B have but: "orders_but {} s2" "oid \<in> or_id ` set (t_orders (so_core s2))" by simp_all
    note W = write_lines_but [OF wr [unfolded s3] but(2,1)]
    from rt True have s': "s' = s4" by simp
    from I True obtain h where h: "find_order (so_core s) p sc ext = Some h" "oid = or_id h" by auto
    have rest2: "order_rest (so_core s2) = order_rest (so_core s)" using I by blast
    show thesis
      by (rule hit [of h s2 u]) (use W I True h out s' s3 wr order_restD(7) [OF rest2] in \<open>simp_all add: orders_inv_def core1\<close>)
  next
    case False
    with its have it: "insert_order_items oid items s2 = Inr s3" by simp
    from False B have but: "orders_but {oid} s2" "oid \<in> or_id ` set (t_orders (so_core s2))" by simp_all
    note X = insert_order_items_Inr [OF it but(2,1)]
    have in3: "oid \<in> or_id ` set (t_orders (so_core s3))" using X but(2) by simp
    note W = write_lines_but [OF wr in3 X [THEN conjunct1]]
    have in4: "oid \<in> or_id ` set (t_orders (so_core s4))" using W in3 by simp
    have regs: "so_regions s4 = so_regions s" using W X I core1 by simp
    from rt False have up: "upsert_order_fulfillment_route now oid (resolve_route_payload env (so_regions s) addr) s4 = Inr ((), s')"
      and rp: "rp = resolve_route_payload env (so_regions s) addr"
      by (auto simp: Let_def bindE_eq_Inr regs)
    from upsert_route_Inr [OF up W [THEN conjunct1] in4] have U: "orders_inv s'" "so_core s' = so_core s4"
        "so_regions s' = so_regions s4" "so_fulfillments s' = so_fulfillments s4 @
          [routed_record now oid (resolve_route_payload env (so_regions s) addr)]" by auto
    have st: "(case rp_status rp of None \<Rightarrow> ''UNKNOWN'' | Some x \<Rightarrow> if x = [] then ''UNKNOWN'' else x) = ''FULFILLMENT_BLOCKED''
        \<longleftrightarrow> rp_status rp = Some ''FULFILLMENT_BLOCKED''" by (simp split: option.split)
    have heads: "t_orders (so_core s') = t_orders (so_core s) @ [ingested_head (io_id out) p sc store_id ext ?at bn bp trace]"
      using U W X I False by (simp add: out ingested_head_def core1)
    show thesis
      by (rule new [of store_id s3 u s4]) (use U W X I False heads rp wr regs st in \<open>simp_all add: out core1\<close>)
  qed
qed


section \<open>The ways in\<close>

definition takes_in :: "sales \<Rightarrow> sales \<Rightarrow> bool" where
  "takes_in s s' \<longleftrightarrow> same_orders s s' \<or> (\<exists>s1 now env p sc ext occ bn bp items addr trace r. same_orders s s1 \<and>
     order_ingest now env p sc ext occ bn bp items addr trace s1 = Inr (r, s'))"

lemma same_orders_refl [simp]: "same_orders s s"
  by (simp add: same_orders_def)

lemma same_orders_trans: "same_orders s s1 \<Longrightarrow> same_orders s1 s2 \<Longrightarrow> same_orders s s2"
  by (simp add: same_orders_def)

lemma takes_inI: "same_orders s s1 \<Longrightarrow> order_ingest now env p sc ext occ bn bp items addr trace s1 = Inr (r, s') \<Longrightarrow> takes_in s s'"
  unfolding takes_in_def by blast

lemma upsert_facts_Inr:
  assumes "upsert_platform_order_lines platform sc sid ext lns s = Inr (n, s')"
  shows "same_orders s s'"
proof -
  have step: "same_orders s s2" if "same_orders s s1" "upsert_fact p c i e nl s1 = Inr s2" for p c i e nl s1 s2
    using that by (auto simp: upsert_fact_def sales_next_id_def same_orders_def Let_def split: prod.splits if_splits)
  from assms obtain e where run: "foldE (upsert_fact (norm_platform platform) (py_strip sc) sid e)
      (zip (map int [1..<Suc (length lns)]) lns) s = Inr s'"
    by (auto simp: upsert_platform_order_lines_def Let_def res_simps split: if_splits)
  show ?thesis by (rule foldE_invariant [where P = "same_orders s", OF _ run]) (rule step, assumption, assumption, simp)
qed

lemma run_from_platform_lines_Inr:
  assumes "run_from_platform_lines now env platform sc sid ext occ bn bp addr lns trace s = Inr (out, s')"
  shows "takes_in s s'"
proof -
  let ?plat = "norm_platform platform" and ?sid = "py_strip sc" and ?ext = "py_strip ext"
  from assms obtain n s1 where facts: "upsert_platform_order_lines ?plat ?sid (Some sid) ?ext lns s = Inr (n, s1)"
    by (auto simp: run_from_platform_lines_def Let_def bindE_eq_Inr split: if_splits)
  note S = upsert_facts_Inr [OF facts]
  obtain rs us m where res: "resolve_platform_lines_to_items (so_oms s1) ?plat sid
      (map (\<lambda>ln. \<lparr>ln_filled_code = rw_filled_code ln, ln_qty = PInt (rw_qty ln)\<rparr>) lns) = (rs, us, m)"
    by (cases rule: prod_cases3)
  show ?thesis
  proof (cases "m = []")
    case True
    with assms facts res have "s' = s1" by (auto simp: run_from_platform_lines_def Let_def split: if_splits)
    with S show ?thesis by (simp add: takes_in_def)
  next
    case False
    with assms facts res obtain briefs r where "order_ingest now env ?plat ?sid ?ext occ bn bp (build_items_payload m briefs) addr trace s1 = Inr (r, s')"
      by (auto simp: run_from_platform_lines_def Let_def bindE_eq_Inr split: if_splits)
    with S show ?thesis by (rule takes_inI)
  qed
qed

lemma run_tail_Inr:
  "run_tail_from_items_payload now env platform sc ext bn bp addr items trace s = Inr (r, s') \<Longrightarrow> takes_in s s'"
  by (auto simp: run_tail_from_items_payload_def Let_def split: if_splits intro: takes_inI [OF same_orders_refl])

lemma takes_in_same: "same_orders s s1 \<Longrightarrow> takes_in s1 s' \<Longrightarrow> takes_in s s'"
  unfolding takes_in_def by (metis same_orders_trans)

lemma ingest_route_takes_in:
  assumes "ingest_platform_order now env trace p s = Inr (out, s')"
  shows "takes_in s s'"
proof -
  let ?plat = "norm_platform (pi_platform p)"
  let ?store = "case pi_store_id p of
            Some n \<Rightarrow> (case load_store_code_checked s n ?plat of
                Inl (LookupError m) \<Rightarrow> Inl (HTTPException 404 ''store_id not found'')
              | Inl e \<Rightarrow> Inl e
              | Inr sc \<Rightarrow> Inr ((n, py_strip sc), s))
          | None \<Rightarrow> (case pi_store_code p of
                None \<Rightarrow> Inl (HTTPException 422 ''store_id or store_code is required'')
              | Some c \<Rightarrow> bindE (resolve_store_id ?plat (py_strip c) (pi_store_name p) s) (\<lambda>(n, s1). Inr ((n, py_strip c), s1)))"
  from assms obtain sid sc s1 addr where st: "?store = Inr ((sid, sc), s1)" and
    run: "run_from_platform_lines now env ?plat sc sid (pi_ext_order_no p) (pi_occurred_at p) (pi_buyer_name p)
      (pi_buyer_phone p) addr (map normalize_filled_code (pi_lines p)) (Some trace) s1 = Inr (out, s')"
    by (auto simp: ingest_platform_order_def Let_def bindE_eq_Inr split: if_splits)
  have "same_orders s s1"
  proof (cases "pi_store_id p")
    case None
    with st show ?thesis by (auto simp: bindE_eq_Inr dest: resolve_store_id_Inr split: option.splits)
  next
    case (Some n)
    with st have "s1 = s" by (auto split: sum.splits error.splits)
    then show ?thesis by simp
  qed
  then show ?thesis by (rule takes_in_same) (rule run_from_platform_lines_Inr [OF run])
qed

lemma takes_in_refl [simp]: "takes_in s s"
  by (simp add: takes_in_def)

lemma run_tail_snd: "run_tail_from_items_payload now env platform sc ext bn bp addr items trace s = Inr x \<Longrightarrow> takes_in s (snd x)"
  by (cases x) (auto dest: run_tail_Inr)

lemma replay_route_takes_in:
  assumes "replay_platform_order now env trace platform sid ext s = Inr (out, s')"
  shows "takes_in s s'"
  using assms
  by (auto simp: replay_platform_order_def case_prod_unfold Let_def bindE_eq_Inr
      split: if_splits sum.splits dest: run_tail_snd)

lemma convert_route_takes_in:
  assumes "convert_platform_order_mirror now env trace platform mirror_id s = Inr (out, s')"
  shows "takes_in s s'"
  using assms
  by (auto simp: convert_platform_order_mirror_def case_prod_unfold Let_def bindE_eq_Inr
      split: if_splits option.splits dest: run_tail_snd)

lemma takes_in_inv:
  assumes "takes_in s s'" and "orders_inv s"
  shows "orders_inv s'"
proof -
  consider "same_orders s s'" | s1 now env p sc ext occ bn bp items addr trace r where "same_orders s s1"
      "order_ingest now env p sc ext occ bn bp items addr trace s1 = Inr (r, s')"
    using assms(1) unfolding takes_in_def by blast
  then show ?thesis
  proof cases
    case 1
    with assms(2) show ?thesis by (simp add: orders_inv_def same_orders_but)
  next
    case 2
    then have "orders_inv s1" using assms(2) by (simp add: orders_inv_def same_orders_but)
    show ?thesis by (rule order_ingest_Inr [OF 2(2) \<open>orders_inv s1\<close>])
  qed
qed


section \<open>The fulfilment record\<close>

definition record_kept :: "order_fulfillment \<Rightarrow> order_fulfillment \<Rightarrow> bool" where
  "record_kept f f' \<longleftrightarrow> of_planned_warehouse_id f' = of_planned_warehouse_id f \<and>
     (of_actual_warehouse_id f \<noteq> None \<longrightarrow> of_actual_warehouse_id f' \<noteq> None) \<and>
     (of_ship_committed_at f \<noteq> None \<longrightarrow> of_ship_committed_at f' = of_ship_committed_at f) \<and>
     (of_shipped_at f \<noteq> None \<longrightarrow> of_shipped_at f' = of_shipped_at f) \<and>
     (of_execution_stage f = Some ''SHIP'' \<longrightarrow> of_execution_stage f' = Some ''SHIP'')"

definition records_kept :: "sales \<Rightarrow> sales \<Rightarrow> bool" where
  "records_kept s s' \<longleftrightarrow> (\<forall>oid f. find_fulfillment s oid = Some f \<longrightarrow>
     (\<exists>f'. find_fulfillment s' oid = Some f' \<and> record_kept f f'))"

lemma record_kept_refl [simp]: "record_kept f f"
  by (simp add: record_kept_def)

lemma records_kept_refl [simp]: "records_kept s s"
  by (simp add: records_kept_def)

lemma record_kept_trans: "record_kept f g \<Longrightarrow> record_kept g h \<Longrightarrow> record_kept f h"
  by (auto simp: record_kept_def)

lemma records_kept_trans: "records_kept s s1 \<Longrightarrow> records_kept s1 s2 \<Longrightarrow> records_kept s s2"
  unfolding records_kept_def by (meson record_kept_trans)

lemma records_kept_same: "so_fulfillments s' = so_fulfillments s @ new \<Longrightarrow> records_kept s s'"
  by (auto simp: records_kept_def find_fulfillment_def find_append)

lemma find_fulfillment_SomeD: "find_fulfillment s oid = Some f \<Longrightarrow> f \<in> set (so_fulfillments s) \<and> of_order_id f = oid"
  unfolding find_fulfillment_def by (rule find_SomeD)

text \<open>A change of one record: it keeps the invariant and the record if the new one does.\<close>

lemma set_fulfillment_sound:
  assumes inv: "orders_inv s" and f: "find_fulfillment s oid = Some f"
    and keep: "\<And>g. of_order_id (upd g) = of_order_id g" and ok: "fulfillment_ok s (upd f)" and kept: "record_kept f (upd f)"
  shows "orders_inv (set_fulfillment oid upd s) \<and> records_kept s (set_fulfillment oid upd s)"
proof -
  let ?s' = "set_fulfillment oid upd s"
  from inv have dist: "distinct (map of_order_id (so_fulfillments s))" by (simp add: orders_inv_def orders_but_def)
  have only: "g = f" if "g \<in> set (so_fulfillments s)" "of_order_id g = oid" for g
    using dist that find_fulfillment_SomeD [OF f] by (metis distinct_map inj_onD)
  have ids: "map of_order_id (so_fulfillments ?s') = map of_order_id (so_fulfillments s)"
    by (simp add: set_fulfillment_def map_update_where keep)
  have "fulfillment_ok s g" if "g \<in> set (so_fulfillments ?s')" for g
  proof -
    from that obtain g0 where g0: "g0 \<in> set (so_fulfillments s)" "g = (if of_order_id g0 = oid then upd g0 else g0)"
      by (auto simp: set_fulfillment_def in_set_update_where)
    show ?thesis
    proof (cases "of_order_id g0 = oid")
      case True
      with g0 only ok show ?thesis by simp
    next
      case False
      with g0 inv show ?thesis by (simp add: orders_inv_def orders_but_def)
    qed
  qed
  then have "orders_inv ?s'" using inv image_of_map [OF ids]
    by (simp add: orders_inv_def orders_but_def ids order_items_ok_def) (simp add: set_fulfillment_def)
  moreover have "records_kept s ?s'" unfolding records_kept_def
  proof (intro allI impI)
    fix o2 g assume g: "find_fulfillment s o2 = Some g"
    then have "find_fulfillment ?s' o2 = Some (if of_order_id g = oid then upd g else g)"
      by (simp add: find_fulfillment_def set_fulfillment_def find_update_where_same keep)
    moreover have "record_kept g (if of_order_id g = oid then upd g else g)"
      using only find_fulfillment_SomeD [OF g] kept by auto
    ultimately show "\<exists>f'. find_fulfillment ?s' o2 = Some f' \<and> record_kept g f'" by blast
  qed
  ultimately show ?thesis ..
qed

lemma known_record: "orders_inv s \<Longrightarrow> h \<in> set (t_orders (so_core s)) \<Longrightarrow> \<exists>f. find_fulfillment s (or_id h) = Some f"
  using find_fulfillment_None [of s "or_id h"] by (force simp: orders_inv_def orders_but_def)

lemma record_ok: "orders_inv s \<Longrightarrow> find_fulfillment s oid = Some f \<Longrightarrow> fulfillment_ok s f"
  by (auto simp: orders_inv_def orders_but_def dest: find_fulfillment_SomeD)

lemma stage_ship_simps [simp]: "stage_ship None = Some ''SHIP''" "stage_ship (Some ''SHIP'') = Some ''SHIP''"
  by (simp_all add: stage_ship_def)

lemma manual_assign_sound:
  assumes run: "fulfillment_manual_assign now platform sc ext wid reason s = Inr (out, s')" and inv: "orders_inv s"
  shows "orders_inv s' \<and> records_kept s s'"
proof -
  from run have "manual_assign_fulfillment_warehouse now (py_upper platform) sc ext wid reason s = Inr (out, s')"
    by (auto simp: fulfillment_manual_assign_def split: if_splits sum.splits error.splits)
  then obtain h where h: "find_order (so_core s) (py_strip (py_upper (py_upper platform))) (py_strip sc) ext = Some h"
    and known: "known_warehouse s (Some wid)"
    and s': "find_fulfillment s (or_id h) \<noteq> None \<Longrightarrow> s' = set_fulfillment (or_id h) (\<lambda>f. f\<lparr>of_actual_warehouse_id := Some wid,
        of_fulfillment_status := Some ''MANUALLY_ASSIGNED'', of_blocked_reasons := None, of_updated_at := now\<rparr>) s"
    by (auto simp: manual_assign_fulfillment_warehouse_def Let_def split: if_splits option.splits)
  from find_order_SomeD [OF h] known_record [OF inv] obtain f where f: "find_fulfillment s (or_id h) = Some f" by blast
  note ok = record_ok [OF inv f]
  have "s' = set_fulfillment (or_id h) (\<lambda>f. f\<lparr>of_actual_warehouse_id := Some wid,
        of_fulfillment_status := Some ''MANUALLY_ASSIGNED'', of_blocked_reasons := None, of_updated_at := now\<rparr>) s"
    using s' f by simp
  then show ?thesis
    by (simp only:) (rule set_fulfillment_sound [OF inv f],
      use ok known in \<open>auto simp: fulfillment_ok_def record_kept_def\<close>)
qed

lemma ensure_ship_committed_sound:
  assumes run: "ensure_ship_committed oid wh at s = Inr (out, s')" and inv: "orders_inv s"
  shows "orders_inv s' \<and> records_kept s s'"
proof (cases "find_fulfillment s oid")
  case None
  with inv have "oid \<notin> or_id ` set (t_orders (so_core s))" by (simp add: find_fulfillment_None orders_inv_def orders_but_def)
  with None run show ?thesis by (simp add: ensure_ship_committed_def)
next
  case (Some f)
  note ok = record_ok [OF inv Some]
  let ?upd = "\<lambda>f. f\<lparr>of_actual_warehouse_id := coalesce_opt (of_actual_warehouse_id f) wh,
              of_ship_committed_at := coalesce_opt (of_ship_committed_at f) at,
              of_execution_stage := stage_ship (of_execution_stage f), of_updated_at := at\<rparr>"
  from run Some have known: "of_actual_warehouse_id f = None \<Longrightarrow> known_warehouse s (Some wh)"
    and s': "s' = set_fulfillment oid ?upd s" by (auto simp: ensure_ship_committed_def split: if_splits)
  have "of_execution_stage f \<in> {None, Some ''SHIP''}" using ok by (simp add: fulfillment_ok_def)
  then have stage: "stage_ship (of_execution_stage f) = Some ''SHIP''" by (auto simp: stage_ship_def)
  have "fulfillment_ok s (?upd f)" using ok known
    by (auto simp: fulfillment_ok_def stage coalesce_opt_def split: option.split)
  moreover have "record_kept f (?upd f)" by (auto simp: record_kept_def stage coalesce_opt_def split: option.split)
  ultimately show ?thesis unfolding s' by (intro set_fulfillment_sound [OF inv Some]) simp_all
qed

lemma mark_shipped_sound:
  assumes run: "mark_shipped oid at s = Inr (out, s')" and inv: "orders_inv s"
  shows "orders_inv s' \<and> records_kept s s'"
proof -
  from run obtain f where f: "find_fulfillment s oid = Some f" by (auto simp: mark_shipped_def split: option.splits)
  note ok = record_ok [OF inv f]
  show ?thesis
  proof (cases "of_shipped_at f")
    case None
    let ?upd = "\<lambda>f. f\<lparr>of_shipped_at := coalesce_opt (of_shipped_at f) at,
                     of_execution_stage := stage_ship (of_execution_stage f), of_updated_at := at\<rparr>"
    from run f None have sc: "of_ship_committed_at f \<noteq> None" and s': "s' = set_fulfillment oid ?upd s"
      by (auto simp: mark_shipped_def split: if_splits)
    from ok sc have stage: "stage_ship (of_execution_stage f) = Some ''SHIP''" by (auto simp: fulfillment_ok_def stage_ship_def)
    have "fulfillment_ok s (?upd f)" using ok sc by (auto simp: fulfillment_ok_def stage)
    moreover have "record_kept f (?upd f)" using None by (simp add: record_kept_def stage)
    ultimately show ?thesis unfolding s' by (intro set_fulfillment_sound [OF inv f]) simp_all
  next
    case (Some t)
    let ?upd = "\<lambda>f. f\<lparr>of_execution_stage := stage_ship (of_execution_stage f), of_updated_at := at\<rparr>"
    from run f Some have s': "s' = set_fulfillment oid ?upd s" by (simp add: mark_shipped_def)
    from ok Some have stage: "stage_ship (of_execution_stage f) = Some ''SHIP''" by (auto simp: fulfillment_ok_def stage_ship_def)
    have "fulfillment_ok s (?upd f)" using ok Some by (auto simp: fulfillment_ok_def stage)
    moreover have "record_kept f (?upd f)" by (simp add: record_kept_def stage)
    ultimately show ?thesis unfolding s' by (intro set_fulfillment_sound [OF inv f]) simp_all
  qed
qed


section \<open>Shipments\<close>

lemma order_shipment_sound:
  assumes run: "submit_order_outbound_event now oid w op tr p occ (so_core s) = Inr (out, d')"
    and once: "distinct (map so_source_line_id (os_lines p))" and inv: "orders_inv s"
  shows "orders_inv (s\<lparr>so_core := d'\<rparr>) \<and> records_kept s (s\<lparr>so_core := d'\<rparr>)"
proof -
  let ?d = "so_core s"
  from inv have W: "warehouse_inv ?d" and H: "heads_ok ?d" and L: "order_lines_ok ?d"
    by (simp_all add: orders_inv_def orders_but_def)
  obtain ctx ns where "load_order_submit_context ?d oid = Inr ctx" and ns: "list_all2 (norm_of True) (number_submit_lines (os_lines p)) ns"
      "\<forall>n \<in> set ns. check_order_line ?d (load_order_submit_progress ?d oid) (oc_source_ref ctx) w n = Inr ()" and
    wr: "write_event_and_ledger now w ''ORDER'' (oc_source_ref ctx) op tr occ (os_remark p) ns ?d = Inr (out, d')"
    by (rule submit_order_Inr [OF run])
  obtain saved where D: "warehouse_inv d'" "ship_rest d' = ship_rest ?d" "t_outbound_lines d' = t_outbound_lines ?d @ saved"
      "list_all2 (saved_line_of (oo_event_id out)) ns saved"
    by (rule write_event_and_ledger_Inr [OF wr W], rule that, assumption+)
  have same: "t_orders d' = t_orders ?d" "t_order_lines d' = t_order_lines ?d" "t_items d' = t_items ?d"
      "t_next_id d' ORDERS = t_next_id ?d ORDERS" "t_next_id d' ORDER_LINES = t_next_id ?d ORDER_LINES"
    using ship_restD [OF D(2)] by simp_all
  have ids: "inj_on orl_id (set (t_order_lines ?d))" using L by (simp add: order_lines_ok_def distinct_map)
  have sub: "order_submitted d' n = order_submitted ?d n + (\<Sum>l \<leftarrow> os_lines p. if so_source_line_id l = n then so_qty_outbound l else 0)" for n
    using submission_Inr [OF wr W ns(1)] by simp
  have within: "order_submitted d' (orl_id l) \<le> orl_req_qty l" if l: "l \<in> set (t_order_lines ?d)" for l
  proof (cases "orl_id l \<in> so_source_line_id ` set (os_lines p)")
    case True
    then obtain x where x: "x \<in> set (os_lines p)" "so_source_line_id x = orl_id l" by auto
    from order_shipment_within [OF W run once x(1)] obtain ol where ol:
      "ol \<in> set (t_order_lines ?d)" "orl_id ol = orl_id l" "order_submitted d' (orl_id l) \<le> orl_req_qty ol"
      unfolding x(2) by blast
    from inj_onD [OF ids ol(2,1) l] ol(3) show ?thesis by simp
  next
    case False
    have "(\<Sum>x \<leftarrow> os_lines p. if so_source_line_id x = orl_id l then so_qty_outbound x else 0) = 0"
      by (rule sum_if_none) (use False in \<open>auto simp: image_iff\<close>)
    then have "order_submitted d' (orl_id l) = order_submitted ?d (orl_id l)" by (simp only: sub add_0_right)
    moreover have "order_submitted ?d (orl_id l) \<le> orl_req_qty l" using L l by (simp add: order_lines_ok_def)
    ultimately show ?thesis by (simp only:)
  qed
  have refer: "n \<in> orl_id ` set (t_order_lines ?d)" if x: "x \<in> set (t_outbound_lines d')" "ol_order_line_id x = Some n" for x n
  proof (cases "x \<in> set (t_outbound_lines ?d)")
    case True
    with L x(2) show ?thesis unfolding order_lines_ok_def by blast
  next
    case False
    with x D(3) have "x \<in> set saved" by simp
    with list_all2_in_right [OF D(4)] obtain nl where nl: "nl \<in> set ns" "saved_line_of (oo_event_id out) nl x" by blast
    then have "nl_order_line_id nl = Some n" using x(2) by (simp add: saved_line_of_def)
    from check_order_line_Inr [OF ns(2) [rule_format, OF nl(1)] this] show ?thesis by auto
  qed
  have "order_lines_ok d'" unfolding order_lines_ok_def same
    using L within refer unfolding order_lines_ok_def by blast
  moreover have "heads_ok d'" using H by (simp add: heads_ok_def same)
  ultimately have "orders_inv (s\<lparr>so_core := d'\<rparr>)"
    using inv D(1) by (simp add: orders_inv_def orders_but_def order_items_ok_def same fulfillment_ok_cong [of "s\<lparr>so_core := d'\<rparr>" s])
  then show ?thesis by (simp add: records_kept_def find_fulfillment_def)
qed

section \<open>Runs\<close>

text \<open>
  Reversals of shipments are left out: a reversal adds to the submitted quantities of the lines it
  takes back (\<open>Reversal\<close>). A shipment names every order line at most once.
\<close>

inductive order_step :: "sales \<Rightarrow> sales \<Rightarrow> bool" where
  ingested: "ingest_platform_order now env trace p s = Inr (fo, s') \<Longrightarrow> order_step s s'"
| replayed: "replay_platform_order now env trace platform sid ext s = Inr (ro, s') \<Longrightarrow> order_step s s'"
| converted: "convert_platform_order_mirror now env trace platform mirror_id s = Inr (co, s') \<Longrightarrow> order_step s s'"
| assigned: "fulfillment_manual_assign now platform sc ext wid reason s = Inr (ma, s') \<Longrightarrow> order_step s s'"
| committed: "ensure_ship_committed oid wh at s = Inr (sc, s') \<Longrightarrow> order_step s s'"
| marked: "mark_shipped oid at s = Inr (ms, s') \<Longrightarrow> order_step s s'"
| shipped: "submit_order_outbound_event now oid w op tr p occ (so_core s) = Inr (oo, d') \<Longrightarrow>
    distinct (map so_source_line_id (os_lines p)) \<Longrightarrow> order_step s (s\<lparr>so_core := d'\<rparr>)"
| products: "fsku_step (so_oms s) m \<Longrightarrow> order_step s (s\<lparr>so_oms := m\<rparr>)"
| areas: "region_step (so_regions s) r \<Longrightarrow> order_step s (s\<lparr>so_regions := r\<rparr>)"
| mirrors: "order_step s (s\<lparr>so_mirrors := ms, so_mirror_lines := ls\<rparr>)"

lemma ingest_adds_records:
  assumes run: "order_ingest now env p sc ext occ bn bp items addr trace s = Inr (r, s')" and inv: "orders_inv s"
  shows "\<exists>new. so_fulfillments s' = so_fulfillments s @ new"
proof (rule order_ingest_Inr [OF run inv])
  assume "so_fulfillments s' = so_fulfillments s"
  then show ?thesis by (intro exI [of _ "[]"]) simp
qed blast

lemma takes_in_kept:
  assumes "takes_in s s'" and "orders_inv s"
  shows "records_kept s s'"
proof -
  consider "same_orders s s'" | s1 now env p sc ext occ bn bp items addr trace r where "same_orders s s1"
      "order_ingest now env p sc ext occ bn bp items addr trace s1 = Inr (r, s')"
    using assms(1) unfolding takes_in_def by blast
  then show ?thesis
  proof cases
    case 1
    then show ?thesis by (intro records_kept_same [where new = "[]"]) (simp add: same_orders_def)
  next
    case 2
    have "orders_inv s1" using assms(2) by (simp add: orders_inv_def same_orders_but [OF 2(1)])
    from ingest_adds_records [OF 2(2) this] obtain new where "so_fulfillments s' = so_fulfillments s1 @ new" ..
    with 2(1) show ?thesis by (intro records_kept_same [where new = new]) (simp add: same_orders_def)
  qed
qed

lemma region_step_warehouses: "region_step r r' \<Longrightarrow> rg_warehouses r' = rg_warehouses r"
  by (induction rule: region_step.induct)
    (auto simp: put_city_split_provinces_def Let_def dest: put_provinces_Inr put_cities_Inr)

lemma orders_inv_cong:
  assumes "so_core s' = so_core s" "so_order_items s' = so_order_items s" "so_fulfillments s' = so_fulfillments s"
    and "rg_warehouses (so_regions s') = rg_warehouses (so_regions s)" "orders_inv s"
  shows "orders_inv s' \<and> records_kept s s'"
  using assms(5) by (simp add: orders_inv_def orders_but_def order_items_ok_def records_kept_def find_fulfillment_def
    assms(1-3) fulfillment_ok_cong [OF assms(4)])

lemma order_step_sound:
  assumes "order_step s s'" and "orders_inv s"
  shows "orders_inv s' \<and> records_kept s s'"
  using assms(1)
proof cases
  case ingested
  from ingest_route_takes_in [OF this] assms(2) show ?thesis by (blast intro: takes_in_inv takes_in_kept)
next
  case replayed
  from replay_route_takes_in [OF this] assms(2) show ?thesis by (blast intro: takes_in_inv takes_in_kept)
next
  case converted
  from convert_route_takes_in [OF this] assms(2) show ?thesis by (blast intro: takes_in_inv takes_in_kept)
next
  case assigned
  from manual_assign_sound [OF this assms(2)] show ?thesis .
next
  case committed
  from ensure_ship_committed_sound [OF this assms(2)] show ?thesis .
next
  case marked
  from mark_shipped_sound [OF this assms(2)] show ?thesis .
next
  case (shipped now oid w op tr p occ oo d')
  from order_shipment_sound [OF shipped(2,3) assms(2)] shipped(1) show ?thesis by simp
next
  case (products m)
  show ?thesis by (rule orders_inv_cong [OF _ _ _ _ assms(2)]) (simp_all add: products)
next
  case (areas r)
  show ?thesis by (rule orders_inv_cong [OF _ _ _ _ assms(2)]) (simp_all add: areas region_step_warehouses [OF areas(2)])
next
  case (mirrors ms ls)
  show ?thesis by (rule orders_inv_cong [OF _ _ _ _ assms(2)]) (simp_all add: mirrors)
qed

lemma order_run_sound:
  "order_step\<^sup>*\<^sup>* s s' \<Longrightarrow> orders_inv s \<Longrightarrow> orders_inv s' \<and> records_kept s s'"
  by (induction rule: rtranclp_induct) (auto dest: order_step_sound intro: records_kept_trans)


end
