(* ===== verification/OrdersRuns.thy ===== *)
theory OrdersRuns
  imports OrdersLife
begin

text \<open>
  What holds in every state the order side can reach, what an ingest books, and runs that show
  where the handling of orders fails its purpose.
\<close>

section \<open>A sample\<close>

text \<open>A shop whose code \<open>A-1\<close> is bound to a bundle of two pieces of item 1 and one of item 2.\<close>

definition bundle_piece :: "int \<Rightarrow> int \<Rightarrow> int \<Rightarrow> string \<Rightarrow> fsku_component" where
  "bundle_piece n i q role = \<lparr>fc_id = n, fc_fsku_id = 1, fc_item_id = i, fc_qty = q * 10 ^ 6, fc_role = role,
     fc_created_at = 2, fc_updated_at = 2\<rparr>"

definition bundle_shop :: oms where
  "bundle_shop = \<lparr>om_items = t_items ship_db,
     om_stores = [\<lparr>st_id = 1, st_platform = ''PDD'', st_store_code = ''S1'', st_store_name = ''Dairy''\<rparr>],
     om_fskus = [\<lparr>fk_id = 1, fk_code = ''FSKU-1'', fk_name = ''Milk duo'', fk_shape = ''bundle'', fk_status = ''published'',
       fk_published_at = Some 3, fk_retired_at = None, fk_created_at = 1, fk_updated_at = 3\<rparr>],
     om_components = [bundle_piece 1 1 2 ''primary'', bundle_piece 2 2 1 ''gift''],
     om_bindings = [\<lparr>mb_id = 1, mb_platform = ''PDD'', mb_store_code = ''S1'', mb_merchant_code = ''A-1'', mb_fsku_id = 1,
       mb_reason = None, mb_created_at = 4, mb_updated_at = 4\<rparr>],
     om_next_id = (\<lambda>_. 3)\<rparr>"

definition sample_sales :: sales where
  "sample_sales = \<lparr>so_core = ship_db\<lparr>t_orders := [], t_order_lines := []\<rparr>, so_oms = bundle_shop,
     so_regions = \<lparr>rg_warehouses = [7, 8], rg_provinces = [\<lparr>sp_warehouse_id = 7, sp_province_code = ''P2''\<rparr>],
       rg_cities = [], rg_split = []\<rparr>,
     so_order_items = [], so_fulfillments = [], so_facts = [], so_mirrors = [], so_mirror_lines = [],
     so_next_id = (\<lambda>_. 1)\<rparr>"

definition after_sale :: "'a sx \<Rightarrow> sales \<Rightarrow> sales" where
  "after_sale op s = (case op s of Inl _ \<Rightarrow> s | Inr (_, s') \<Rightarrow> s')"

definition sample_raw :: "string option \<Rightarrow> int \<Rightarrow> raw_line" where
  "sample_raw code q = \<lparr>rw_filled_code = code, rw_qty = q, rw_title = None, rw_spec = None, rw_line_no = None\<rparr>"

definition sample_ingest :: "raw_line list \<Rightarrow> ingest_in" where
  "sample_ingest lns = \<lparr>pi_platform = ''pdd'', pi_store_id = Some 1, pi_store_code = None, pi_store_name = None,
     pi_ext_order_no = ''E9'', pi_occurred_at = None, pi_buyer_name = None, pi_buyer_phone = None,
     pi_receiver_name = Some ''Li'', pi_receiver_phone = None, pi_province = Some ''P2'', pi_city = Some ''C1'',
     pi_district = None, pi_detail = None, pi_zipcode = None, pi_lines = lns, pi_has_address_key = False\<rparr>"

definition taken_sales :: sales where
  "taken_sales = after_sale (ingest_platform_order 10 (None, None) ''T1'' (sample_ingest [sample_raw (Some ''A-1'') 2])) sample_sales"

lemma after_sale_step:
  assumes "returns (op s) (\<lambda>_. True)" and "\<And>u s'. op s = Inr (u, s') \<Longrightarrow> order_step s s'"
  shows "order_step s (after_sale op s)"
  using assms by (cases "op s") (auto simp: after_sale_def returns_def)

lemma ship_db_orders_warehouse: "warehouse_inv (ship_db\<lparr>t_orders := [], t_order_lines := []\<rparr>)"
proof -
  have "order_rest (ship_db\<lparr>t_orders := [], t_order_lines := []\<rparr>) = order_rest ship_db"
    by (simp add: order_rest_def cong: if_cong)
  from order_rest_warehouse [OF this] ship_db_inv show ?thesis by simp
qed

lemma sample_sales_inv: "orders_inv sample_sales"
  using ship_db_orders_warehouse
  by (simp add: orders_inv_def orders_but_def sample_sales_def heads_ok_def order_lines_ok_def order_items_ok_def)
    (simp add: ship_db_def lots_db_def sample_db_def)

lemma taken_run: "order_step\<^sup>*\<^sup>* sample_sales taken_sales"
proof -
  have "order_step sample_sales taken_sales"
    unfolding taken_sales_def by (rule after_sale_step) (code_simp, rule order_step.ingested)
  then show ?thesis by simp
qed

lemma taken_values: "map (\<lambda>l. (orl_id l, orl_item_id l, orl_req_qty l)) (t_order_lines (so_core taken_sales)) = [(3, 1, 4), (4, 2, 2)]"
  by code_simp

section \<open>Properties\<close>

text \<open>
  C29. The order tables are consistent, whatever orders are taken in, replayed, converted, assigned,
  committed and shipped, however products and service areas change meanwhile: no two orders share
  platform, store and external number, an order has one line per item, exactly one fulfilment
  record, and no line is shipped beyond its quantity. (The shipments of \<open>order_step\<close> name every order
  line at most once; reversals of shipments are no step, since they add to the shipped quantities.)
\<close>

theorem order_tables_consistent:
  assumes "order_step\<^sup>*\<^sup>* s s'" and "orders_inv s"
  shows "distinct (map (\<lambda>h. (or_platform h, or_store_code h, or_ext_order_no h)) (t_orders (so_core s'))) \<and>
    distinct (map (\<lambda>l. (orl_order_id l, orl_item_id l)) (t_order_lines (so_core s'))) \<and>
    (\<forall>l \<in> set (t_order_lines (so_core s')). orl_order_id l \<in> or_id ` set (t_orders (so_core s')) \<and>
       order_submitted (so_core s') (orl_id l) \<le> orl_req_qty l) \<and>
    (\<forall>h \<in> set (t_orders (so_core s')). \<exists>!f. f \<in> set (so_fulfillments s') \<and> of_order_id f = or_id h)"
proof -
  have inv: "orders_inv s'" using order_run_sound [OF assms] by blast
  then have dist: "distinct (map of_order_id (so_fulfillments s'))" by (simp add: orders_inv_def orders_but_def)
  have "\<exists>!f. f \<in> set (so_fulfillments s') \<and> of_order_id f = or_id h" if h: "h \<in> set (t_orders (so_core s'))" for h
  proof -
    from known_record [OF inv h] obtain f where f: "f \<in> set (so_fulfillments s')" "of_order_id f = or_id h"
      by (blast dest: find_fulfillment_SomeD)
    show ?thesis
    proof (rule ex1I [of _ f])
      show "f \<in> set (so_fulfillments s') \<and> of_order_id f = or_id h" using f by blast
    next
      fix g assume "g \<in> set (so_fulfillments s') \<and> of_order_id g = or_id h"
      with f dist show "g = f" unfolding distinct_map by (metis inj_onD)
    qed
  qed
  with inv show ?thesis
    by (simp add: orders_inv_def orders_but_def heads_ok_def order_lines_ok_def order_key_def [abs_def])
qed

definition ship_sale :: "order_submit_in \<Rightarrow> sales \<Rightarrow> sales" where
  "ship_sale p s = s\<lparr>so_core := (case submit_order_outbound_event 20 3 7 None ''T-9'' p None (so_core s) of
     Inl _ \<Rightarrow> so_core s | Inr (_, d) \<Rightarrow> d)\<rparr>"

definition sample_parcel :: order_submit_in where
  "sample_parcel = \<lparr>os_warehouse_id = 7, os_remark = None, os_lines = [sample_ship_line 3 1 4 1]\<rparr>"

definition shipped_sales :: sales where
  "shipped_sales = ship_sale sample_parcel taken_sales"

lemma shipped_run: "order_step\<^sup>*\<^sup>* sample_sales shipped_sales"
proof -
  have "returns (submit_order_outbound_event 20 3 7 None ''T-9'' sample_parcel None (so_core taken_sales)) (\<lambda>_. True)" by code_simp
  then obtain out d where run: "submit_order_outbound_event 20 3 7 None ''T-9'' sample_parcel None (so_core taken_sales) = Inr (out, d)"
    by (auto simp: returns_pair)
  have "distinct (map so_source_line_id (os_lines sample_parcel))" by (simp add: sample_parcel_def)
  with order_step.shipped [OF run] have "order_step taken_sales shipped_sales" by (simp add: shipped_sales_def ship_sale_def run)
  with taken_run show ?thesis by simp
qed

lemma order_tables_consistent_witness:
  "map (\<lambda>l. (orl_item_id l, orl_req_qty l, order_submitted (so_core shipped_sales) (orl_id l))) (t_order_lines (so_core shipped_sales)) =
     [(1, 4, 4), (2, 2, 0)] \<and> (\<exists>!f. f \<in> set (so_fulfillments shipped_sales) \<and> of_order_id f = 3)"
proof -
  have v: "map (\<lambda>l. (orl_item_id l, orl_req_qty l, order_submitted (so_core shipped_sales) (orl_id l))) (t_order_lines (so_core shipped_sales)) =
     [(1, 4, 4), (2, 2, 0)]" and h: "map or_id (t_orders (so_core shipped_sales)) = [3]" by code_simp+
  then obtain x where x: "x \<in> set (t_orders (so_core shipped_sales))" "or_id x = 3" by auto
  from order_tables_consistent [OF shipped_run sample_sales_inv]
  have "\<forall>h \<in> set (t_orders (so_core shipped_sales)). \<exists>!f. f \<in> set (so_fulfillments shipped_sales) \<and> of_order_id f = or_id h"
    by (elim conjE)
  from bspec [OF this x(1)] v show ?thesis unfolding x(2) by (rule_tac conjI)
qed





text \<open>
  An order that has shipped cannot be taken in again: the lines of a shipped order cannot be
  deleted, the exception of the attempt is swallowed, and the transaction it left aborted fails on
  its next statement.
\<close>

theorem shipped_order_reingest_fails:
  assumes "find_order (so_core s) (py_strip (py_upper platform)) sc ext = Some h" and "orders_inv s"
    and "shipped_lines_of (so_core s) (or_id h) \<noteq> []" and "it \<in> set items" "0 < ii_item_id it" "0 < ii_qty it"
  shows "\<exists>e. order_ingest now env platform sc ext occ bn bp items addr trace s = Inl e"
proof (cases "order_ingest now env platform sc ext occ bn bp items addr trace s")
  case (Inr r)
  obtain out s' where r: "order_ingest now env platform sc ext occ bn bp items addr trace s = Inr (out, s')"
    using Inr by (cases r) simp
  have "0 < sum_where (\<lambda>x. ii_item_id x = ii_item_id it \<and> 0 < ii_item_id x \<and> 0 < ii_qty x) ii_qty items"
    using assms(4-6)
  proof (induction items)
    case (Cons x xs)
    have "0 \<le> sum_where (\<lambda>x. ii_item_id x = ii_item_id it \<and> 0 < ii_item_id x \<and> 0 < ii_qty x) ii_qty xs"
      by (induction xs) auto
    with Cons show ?case by auto
  qed simp
  then have ne: "extract_req_qty items \<noteq> []" using extract_req_qty_sound(3) [of items "ii_item_id it"] by (auto simp: qty_of_def)
  from r assms(2) show ?thesis
  proof (cases rule: order_ingest_Inr)
    case (hit h' u s2)
    then have "shipped_lines_of (so_core s2) (or_id h') \<noteq> []" using assms(1,3) by (simp add: shipped_lines_of_def)
    with hit(9) show ?thesis using ne by (auto elim: write_lines_cases)
  next
    case new
    with assms(1) show ?thesis by simp
  qed
qed blast

lemma shipped_order_reingest_fails_witness:
  "\<exists>e. order_ingest 30 (None, None) ''PDD'' ''S1'' ''E9'' None None None [\<lparr>ii_item_id = 1, ii_qty = 4, ii_sku_id = [], ii_title = []\<rparr>]
     None None shipped_sales = Inl e"
proof -
  have "case find_order (so_core shipped_sales) (py_strip (py_upper ''PDD'')) ''S1'' ''E9'' of None \<Rightarrow> False
      | Some h \<Rightarrow> shipped_lines_of (so_core shipped_sales) (or_id h) \<noteq> []" by code_simp
  then obtain h where "find_order (so_core shipped_sales) (py_strip (py_upper ''PDD'')) ''S1'' ''E9'' = Some h"
      "shipped_lines_of (so_core shipped_sales) (or_id h) \<noteq> []" by (auto split: option.splits)
  moreover have "orders_inv shipped_sales" using order_run_sound [OF shipped_run sample_sales_inv] by blast
  ultimately show ?thesis
    by (rule_tac shipped_order_reingest_fails [where it = "\<lparr>ii_item_id = 1, ii_qty = 4, ii_sku_id = [], ii_title = []\<rparr>"]) simp_all
qed


text \<open>
  A fulfilment record goes one way: along any run the warehouse planned at the ingest stays, a
  commit for shipping and a shipped mark keep their times, the stage never leaves \<open>SHIP\<close> again, and
  an order that has a warehouse always has one.
\<close>

theorem fulfilment_one_way:
  assumes "order_step\<^sup>*\<^sup>* s s'" and "orders_inv s" and "find_fulfillment s oid = Some f"
  shows "\<exists>f'. find_fulfillment s' oid = Some f' \<and> of_planned_warehouse_id f' = of_planned_warehouse_id f \<and>
    (of_actual_warehouse_id f \<noteq> None \<longrightarrow> of_actual_warehouse_id f' \<noteq> None) \<and>
    (of_ship_committed_at f \<noteq> None \<longrightarrow> of_ship_committed_at f' = of_ship_committed_at f) \<and>
    (of_shipped_at f \<noteq> None \<longrightarrow> of_shipped_at f' = of_shipped_at f) \<and>
    (of_execution_stage f = Some ''SHIP'' \<longrightarrow> of_execution_stage f' = Some ''SHIP'') \<and>
    (of_shipped_at f' \<noteq> None \<longrightarrow> of_ship_committed_at f' \<noteq> None \<and> of_execution_stage f' = Some ''SHIP'')"
proof -
  from order_run_sound [OF assms(1,2)] have inv: "orders_inv s'" and kept: "records_kept s s'" by blast+
  from kept assms(3) obtain f' where f': "find_fulfillment s' oid = Some f'" "record_kept f f'"
    unfolding records_kept_def by blast
  with record_ok [OF inv f'(1)] show ?thesis
    by (intro exI [of _ f']) (auto simp: record_kept_def fulfillment_ok_def)
qed

definition committed_sales :: sales where
  "committed_sales = after_sale (ensure_ship_committed 3 7 50) taken_sales"

definition moved_sales :: sales where
  "moved_sales = after_sale (fulfillment_manual_assign 60 ''PDD'' ''S1'' ''E9'' 8 ''sold out'') committed_sales"

lemma committed_run: "order_step\<^sup>*\<^sup>* sample_sales committed_sales"
proof -
  have "order_step taken_sales committed_sales"
    unfolding committed_sales_def by (rule after_sale_step) (code_simp, rule order_step.committed)
  with taken_run show ?thesis by simp
qed

lemma moved_step: "order_step committed_sales moved_sales"
  unfolding moved_sales_def by (rule after_sale_step) (code_simp, rule order_step.assigned)

text \<open>
  The assignment by hand does not look at the stage: an order committed for shipping from one
  warehouse is moved to another, which the commit itself refuses.
\<close>

lemma assigned_after_commit:
  "map (\<lambda>f. (of_actual_warehouse_id f, of_ship_committed_at f)) (so_fulfillments committed_sales) = [(Some 7, Some 50)] \<and>
   map (\<lambda>f. (of_actual_warehouse_id f, of_ship_committed_at f)) (so_fulfillments moved_sales) = [(Some 8, Some 50)]"
  by code_simp

lemma fulfilment_one_way_witness:
  "\<exists>f f'. find_fulfillment committed_sales 3 = Some f \<and> find_fulfillment moved_sales 3 = Some f' \<and>
     of_ship_committed_at f' = Some 50 \<and> of_planned_warehouse_id f' = Some 7"
proof -
  have "case find_fulfillment committed_sales 3 of None \<Rightarrow> False
    | Some f \<Rightarrow> of_ship_committed_at f = Some 50 \<and> of_planned_warehouse_id f = Some 7" by code_simp
  then obtain f where f: "find_fulfillment committed_sales 3 = Some f" "of_ship_committed_at f = Some 50" "of_planned_warehouse_id f = Some 7"
    by (auto split: option.splits)
  have inv: "orders_inv committed_sales" using order_run_sound [OF committed_run sample_sales_inv] by blast
  from fulfilment_one_way [OF r_into_rtranclp [of order_step, OF moved_step] inv f(1)] f show ?thesis by auto
qed

lemma distinct_warehouses_set: "set (distinct_warehouses ws seen) = {w \<in> set ws. 0 < w} - seen"
proof (induction ws arbitrary: seen)
  case (Cons v ws)
  show ?case
  proof (cases "v \<le> 0 \<or> v \<in> seen")
    case True
    then have "{w \<in> set (v # ws). 0 < w} - seen = {w \<in> set ws. 0 < w} - seen" by auto
    with True Cons.IH show ?thesis by (simp only: distinct_warehouses.simps if_True)
  next
    case False
    then have "{w \<in> set (v # ws). 0 < w} - seen = insert v ({w \<in> set ws. 0 < w} - insert v seen)" by auto
    with False Cons.IH show ?thesis by (simp only: distinct_warehouses.simps if_False list.set)
  qed
qed simp

lemma available_for_listed:
  "i \<in> set ids \<Longrightarrow> 0 < i \<Longrightarrow> qty_of (get_available_for_items d w ids) i = get_available_for_item d w i"
  by (simp add: qty_of_def get_available_for_items_def Let_def map_of_map_restrict restrict_map_def)

lemma cell_enough:
  assumes "\<forall>l \<in> set needs. 0 < rl_item_id l"
  shows "(\<forall>c \<in> set (availability_cells d needs w). ac_warehouse_id c = w \<and> (ac_status c = ''ENOUGH'' \<or> ac_status c = ''SHORTAGE'')) \<and>
    ((\<forall>c \<in> set (availability_cells d needs w). ac_status c = ''ENOUGH'') \<longleftrightarrow> fits (stock_availability d) needs w)"
proof -
  have a: "qty_of (get_available_for_items d w (map rl_item_id needs)) (rl_item_id l) = get_available_for_item d w (rl_item_id l)"
    if "l \<in> set needs" for l using that assms by (intro available_for_listed) auto
  have f: "fits (stock_availability d) needs w \<longleftrightarrow> (\<forall>l \<in> set needs. rl_qty l \<le> (if 0 \<le> get_available_for_item d w (rl_item_id l)
      then get_available_for_item d w (rl_item_id l) else 0))"
    by (auto simp: fits_def stock_availability_def Let_def list_all_iff split: if_splits)
  show ?thesis unfolding f
    by (auto simp: availability_cells_def Let_def a split: if_splits)
qed

text \<open>
  The availability page tells what the router checks: for any warehouse it is asked about, no
  cell of the matrix of an order is short exactly if the check of the whole order for that
  warehouse passes.
\<close>

theorem matrix_agrees_with_router:
  assumes "w \<in> set ws" and "0 < w"
  shows "(\<forall>c \<in> set (snd (build_matrix s oid ws)). ac_warehouse_id c = w \<longrightarrow> ac_status c = ''ENOUGH'') \<longleftrightarrow>
    ck_status (check_whole_order (stock_availability (so_core s)) w (load_order_need_lines s oid)) = ''OK''"
proof -
  let ?needs = "load_order_need_lines s oid"
  have pos: "\<forall>l \<in> set ?needs. 0 < rl_item_id l" by (auto simp: load_order_need_lines_def)
  note C = cell_enough [OF pos, of "so_core s"]
  have w: "w \<in> set (distinct_warehouses ws {})" using assms by (simp add: distinct_warehouses_set)
  have "(\<forall>c \<in> set (snd (build_matrix s oid ws)). ac_warehouse_id c = w \<longrightarrow> ac_status c = ''ENOUGH'') \<longleftrightarrow>
      (\<forall>c \<in> set (availability_cells (so_core s) ?needs w). ac_status c = ''ENOUGH'')"
  proof (cases "?needs = []")
    case True
    then show ?thesis by (simp add: build_matrix_def availability_cells_def)
  next
    case False
    then have cells: "set (snd (build_matrix s oid ws)) = (\<Union>v \<in> set (distinct_warehouses ws {}). set (availability_cells (so_core s) ?needs v))"
      by (simp add: build_matrix_def Let_def)
    show ?thesis
    proof
      assume "\<forall>c \<in> set (snd (build_matrix s oid ws)). ac_warehouse_id c = w \<longrightarrow> ac_status c = ''ENOUGH''"
      then show "\<forall>c \<in> set (availability_cells (so_core s) ?needs w). ac_status c = ''ENOUGH''"
        unfolding cells using w C [of w] by (meson UN_I)
    next
      assume ok: "\<forall>c \<in> set (availability_cells (so_core s) ?needs w). ac_status c = ''ENOUGH''"
      show "\<forall>c \<in> set (snd (build_matrix s oid ws)). ac_warehouse_id c = w \<longrightarrow> ac_status c = ''ENOUGH''"
      proof (intro ballI impI)
        fix c assume "c \<in> set (snd (build_matrix s oid ws))" and c: "ac_warehouse_id c = w"
        then obtain v where v: "c \<in> set (availability_cells (so_core s) ?needs v)" unfolding cells by blast
        with C [of v] c have "v = w" by metis
        with v ok show "ac_status c = ''ENOUGH''" by simp
      qed
    qed
  qed
  also have "\<dots> \<longleftrightarrow> fits (stock_availability (so_core s)) ?needs w" using C [of w] by (rule conjunct2)
  finally show ?thesis using assms(2) by (simp add: check_whole_order_ok)
qed

lemma matrix_agrees_with_router_witness:
  "ck_status (check_whole_order (stock_availability (so_core taken_sales)) 7 (load_order_need_lines taken_sales 3)) = ''OK'' \<and>
   map ac_status (snd (build_matrix taken_sales 3 [7, 7, 8])) = [''ENOUGH'', ''ENOUGH'', ''SHORTAGE'', ''SHORTAGE'']"
proof -
  have m: "map (\<lambda>c. (ac_warehouse_id c, ac_status c)) (snd (build_matrix taken_sales 3 [7, 7, 8])) =
      [(7, ''ENOUGH''), (7, ''ENOUGH''), (8, ''SHORTAGE''), (8, ''SHORTAGE'')]" (is "map ?f ?cs = ?v") by code_simp
  have "\<forall>x \<in> set (map ?f ?cs). fst x = 7 \<longrightarrow> snd x = ''ENOUGH''" unfolding m by simp
  then have "\<forall>c \<in> set ?cs. ac_warehouse_id c = 7 \<longrightarrow> ac_status c = ''ENOUGH''" by simp
  moreover have "map ac_status ?cs = map snd (map ?f ?cs)" by simp
  ultimately show ?thesis using matrix_agrees_with_router [of 7 "[7, 7, 8]" taken_sales 3] unfolding m by simp
qed

text \<open>A repeated ingest replaces the lines of the order but not its items, which the assignment and the availability page read.\<close>

definition retaken_sales :: sales where
  "retaken_sales = after_sale (ingest_platform_order 11 (None, None) ''T2'' (sample_ingest [sample_raw (Some ''A-1'') 5])) taken_sales"

lemma reingest_keeps_items:
  "map (\<lambda>l. (orl_item_id l, orl_req_qty l)) (t_order_lines (so_core retaken_sales)) = [(1, 10), (2, 5)] \<and>
   map (\<lambda>l. (rl_item_id l, rl_qty l)) (load_order_need_lines retaken_sales 3) = [(1, 4), (2, 2)]"
  by code_simp

text \<open>
  Two lines of an order with one code are one fact, the later one; the ingest books both, the replay
  of the stored facts only that one.
\<close>

definition doubled_sales :: sales where
  "doubled_sales = after_sale (ingest_platform_order 10 (None, None) ''T1''
     (sample_ingest [sample_raw (Some ''A-1'') 2, sample_raw (Some ''A-1'') 3])) sample_sales"

definition replayed_sales :: sales where
  "replayed_sales = after_sale (replay_platform_order 12 (None, None) ''T3'' ''PDD'' 1 ''E9'') doubled_sales"

lemma replay_loses_quantity:
  "map (\<lambda>l. (orl_item_id l, orl_req_qty l)) (t_order_lines (so_core doubled_sales)) = [(1, 10), (2, 5)] \<and>
   map (\<lambda>l. (orl_item_id l, orl_req_qty l)) (t_order_lines (so_core replayed_sales)) = [(1, 6), (2, 3)]"
  by code_simp

end
