(* ===== verification/Spec2Isabelle.thy ===== *)
theory Spec2Isabelle
  imports ReturnsRuns PurchaseRuns FskuRuns BatchDates OrdersRuns
begin

text \<open>
  The warehouse core of WMS-DU, a warehouse and distribution system in Python (FastAPI services over
  PostgreSQL). Paths below are under \<open>src/app/\<close>.

  \<^bold>\<open>The program.\<close> Stock lives in the table \<open>stocks_lot\<close>, one balance per slot (warehouse, item, lot). Every
  movement is a call of the inventory kernel \<open>wms/stock/services/stock_adjust\<close> (or, for shipments and
  receiving tasks, of a service that writes the same tables itself) and leaves one row in
  \<open>stock_ledger\<close>. The documents that move stock are events: receipts (\<open>wms/inbound\<close>), shipments of
  orders and of manual documents (\<open>wms/outbound\<close>), their reversals, stock counts, receiving tasks and
  return tasks (all under \<open>wms/inventory_adjustment\<close>). Purchase orders (\<open>procurement\<close>) plan what
  receipts fulfil, and a completion table says how far they are. A count document freezes its
  warehouse; a daily snapshot and a gate compare ledger, balances and snapshot. On the order side
  (\<open>oms\<close>) merchant codes of the platforms are bound to FSKUs, bundles of items, and the lines of a
  platform order are resolved through them into item quantities.

  \<^bold>\<open>The theories\<close>, in the order of the calls.
  \<^item> \<open>Prelude\<close>: errors as values, sequencing (\<open>bindE\<close>, \<open>foldE\<close>, \<open>mapE\<close>), table helpers, the string
    functions of Python the code uses, and the two locales for transactions: \<open>evolution\<close> (a preorder
    of database states that every step respects) and \<open>traced\<close> (a run that accounts for the rows it adds).
  \<^item> \<open>Dates\<close>, \<open>ShelfLife\<close>, \<open>BatchDates\<close>: \<open>datetime.date\<close>, \<open>wms/shared/services/expiry_rules.py\<close> and
    \<open>expiry_resolver.py\<close>.
  \<^item> \<open>Items\<close>: the PMS master data and read models the services use (\<open>pms/items/models\<close>, \<open>pms/public/items\<close>).
  \<^item> \<open>Schema\<close>: one record per table with the columns the modelled code touches, the constraints the
    ORM models declare, and the database record \<open>db\<close>.
  \<^item> \<open>Lots\<close>: \<open>wms/stock/services/lots.py\<close>, the lot services and the lot code contract.
  \<^item> \<open>Ledger\<close>, \<open>Stock\<close>: \<open>ledger_writer.py\<close> and the kernel \<open>adjust_lot\<close>, with an abstract warehouse
    (a balance per slot) that it refines.
  \<^item> \<open>Events\<close>, \<open>Completion\<close>: the event tables, the freeze guard, and the completion rows of purchases.
  \<^item> \<open>Inbound\<close>, \<open>Outbound\<close>, \<open>ManualDocs\<close>, \<open>Reversal\<close>: committing receipts, submitting shipments, the
    state machine of manual documents, and taking events back (the locale \<open>document_reversal\<close>
    states once what both kinds of reversal share).
  \<^item> \<open>CountDocs\<close>, \<open>CountRuns\<close>, \<open>CountTables\<close>, \<open>CountLife\<close>, \<open>SpotCount\<close>: count documents and counts of one lot.
  \<^item> \<open>Warehouse\<close>: one step relation over all operations so far, and what every reachable state satisfies.
  \<^item> \<open>Receiving\<close>, \<open>ReceivingBooks\<close>, \<open>ReceivingLife\<close>, \<open>ReceivingRuns\<close>: inbound receipts and the operations
    that receive against them (\<open>return_inbound/repos\<close>).
  \<^item> \<open>Purchasing\<close>, \<open>PurchaseTables\<close>, \<open>PurchaseLife\<close>, \<open>PurchaseRuns\<close>: purchase orders and their completion.
  \<^item> \<open>ThreeBooks\<close>, \<open>Returns\<close>, \<open>ReturnsLife\<close>, \<open>ReturnsRuns\<close>: the snapshot, the gate and return tasks.
  \<^item> \<open>Fsku\<close>, \<open>FskuLife\<close>, \<open>FskuRuns\<close>: FSKUs, merchant codes and the resolution of order lines, over
    a state of their own (\<open>oms\<close>: the items and stores they read and the three tables they write).
  \<^item> \<open>Regions\<close>, \<open>RegionRuns\<close>: which warehouse serves a province or a city (\<open>wms/warehouses/routers\<close>),
    the normal form of province names and the route of a new order (\<open>oms/services/order_ingest_*.py\<close>).
  \<^item> \<open>Orders\<close>, \<open>OrderFlow\<close>: the ingest of an order and its ways in: the route, its replay from the stored
    facts and the conversion of a mirrored order; the state \<open>sales\<close> adds the order tables to \<open>db\<close>.
  \<^item> \<open>Routing\<close>, \<open>Fulfilment\<close>: the router that finds a warehouse for a whole order, and the fulfilment
    record of an order with its warehouse, its commit and its shipped mark (\<open>wms/outbound/services\<close>).
  \<^item> \<open>OrdersLife\<close>, \<open>OrdersRuns\<close>: the invariant of the order tables, the runs of the order side, and what
    an ingest books.

  \<^bold>\<open>Conventions.\<close> A Python function that may raise is a function into \<open>error + 'a\<close>; an exception that
  leaves a request rolls its transaction back, so the state of an \<open>Inl\<close> is the old one. A table is
  the list of its rows in the order of their ids; an \<open>INSERT\<close> checks ranges, \<open>CHECK\<close>, unique and
  foreign keys in that order and consumes a serial id even when it conflicts. Error messages keep
  their constant part, in English. Timestamps are microseconds, a datetime where a date is expected
  is its date, a \<open>NUMERIC(n, 2)\<close> column holds hundredths, \<open>Decimal\<close> arithmetic is exact. Clocks,
  generated document numbers and trace ids are arguments, as is the order in which the database
  returns the lines of a return task (the code asks for none); that a generated number is new is a
  hypothesis of the theorems that need it. Integer columns have their 32 bit range (\<open>int4\<close>), Python
  integers are unbounded.

  \<^bold>\<open>What is shown.\<close> For each component an invariant of its tables that all its operations keep, what
  each operation books on every branch, and the runs: step relations (\<open>warehouse_step\<close>, \<open>site_step\<close>,
  \<open>purchase_step\<close>, \<open>desk_step\<close>, \<open>count_step\<close>, \<open>manual_step\<close>, \<open>fsku_step\<close>,
  \<open>region_step\<close>, \<open>order_step\<close>) whose reachable states satisfy the
  invariants. The main results: balances are the sums of their ledger rows and never negative in
  every reachable state; the kernel refines the abstract warehouse and is idempotent; a frozen
  warehouse stands still (but for return commits, which never ask); receipts, shipments, counts, operations and returns book exactly what they
  report; a receipt and its reversal cancel; nothing is received, shipped or returned beyond its
  document; completion rows are exact; every
  bound code leads to a published FSKU, and an order asks for exactly what its resolved lines say;
  the route of an order is that of the warehouse that serves its province; the order tables stay
  consistent and an ingest books the quantities of its payload. Several theorems state
  where the code fails its purpose, on concrete runs. Loops are structural recursions over payloads and tables; the two searches of
  \<open>fromordinal\<close> have termination proofs, so no fuel is used anywhere.

  \<^bold>\<open>Not modelled.\<close> Locks and concurrent transactions (each operation runs alone), text widths, the
  user table, authentication and permissions, audit log rows, the triggers of finance, list pages
  and other display reads, and string coercions of date inputs. The other subsystems (the
  creation of orders from manual decisions, the order simulator, the rest of stores, shipping
  assistance, finance, reports, user administration, the rest of PMS,
  migrations, scripts) are listed in the manifest with the reason.
\<close>

end
